(* ===== verification/Fabric_Prelude.thy ===== *)
theory Fabric_Prelude
  imports
    "HOL-Library.Word"
    "HOL-Library.List_Lexorder"
    "HOL-Library.Char_ord"
begin

text \<open>
  Shared vocabulary of the development: machine integers, results that are either a value or a
  refusal, the container operations the C++ code uses (\<^verbatim>\<open>std::map\<close> as an association list
  sorted by key, in-place loops over \<^verbatim>\<open>std::vector\<close>, bounded histories), and two generic
  interfaces: the laws of an ordered map and the laws of a state machine with an invariant.
\<close>

unbundle bit_operations_syntax

named_theorems registry_simps \<open>one-step unfolding facts of the authority registry\<close>
named_theorems codec_simps \<open>decoder/encoder equations used by the JSON round trips\<close>
named_theorems inv_intros \<open>preservation lemmas of component invariants\<close>

section \<open>Machine integers\<close>

type_synonym u8 = "8 word"
type_synonym u16 = "16 word"
type_synonym u32 = "32 word"
type_synonym u64 = "64 word"
type_synonym TimestampMs = u64

section \<open>Results\<close>

text \<open>
  \<open>'e + 'a\<close> carries either a refusal (\<open>Inl\<close>) or a value (\<open>Inr\<close>). The combinators below are the
  early-return idioms of the sources: \<open>rbind\<close> is \<^verbatim>\<open>if (!r.ok()) return r.status();\<close>,
  \<open>require\<close> is \<^verbatim>\<open>if (!x.has_value()) return error;\<close>, \<open>guard\<close> is
  \<^verbatim>\<open>if (!cond) return error;\<close> and \<open>map_result\<close> is a loop that decodes every element and stops
  at the first refusal.
\<close>

fun rbind :: "'e + 'a \<Rightarrow> ('a \<Rightarrow> 'e + 'b) \<Rightarrow> 'e + 'b" where
  "rbind (Inl e) f = Inl e"
| "rbind (Inr x) f = f x"

fun require :: "'a option \<Rightarrow> 'e \<Rightarrow> 'e + 'a" where
  "require None e = Inl e"
| "require (Some x) e = Inr x"

definition guard :: "bool \<Rightarrow> 'e \<Rightarrow> 'e + unit" where
  "guard b e = (if b then Inr () else Inl e)"

fun map_result :: "('a \<Rightarrow> 'e + 'b) \<Rightarrow> 'a list \<Rightarrow> 'e + 'b list" where
  "map_result f [] = Inr []"
| "map_result f (x # xs) = rbind (f x) (\<lambda>y. rbind (map_result f xs) (\<lambda>ys. Inr (y # ys)))"

definition is_ok :: "'e + 'a \<Rightarrow> bool" where
  "is_ok r = (case r of Inl _ \<Rightarrow> False | Inr _ \<Rightarrow> True)"

section \<open>Vectors\<close>

text \<open>
  \<open>update_first\<close> is the loop \<^verbatim>\<open>for (T& x : xs) if (P(x)) { modify(x); return; }\<close>;
  \<open>push_bounded\<close> appends and erases the oldest entry when the history limit is exceeded;
  \<open>trim_front\<close> is \<^verbatim>\<open>while (xs.size() > cap) xs.erase(xs.begin());\<close>.
\<close>

fun update_first :: "('a \<Rightarrow> bool) \<Rightarrow> ('a \<Rightarrow> 'a) \<Rightarrow> 'a list \<Rightarrow> 'a list" where
  "update_first P f [] = []"
| "update_first P f (x # xs) = (if P x then f x # xs else x # update_first P f xs)"

definition push_bounded :: "nat \<Rightarrow> 'a list \<Rightarrow> 'a \<Rightarrow> 'a list" where
  "push_bounded limit xs x =
     (let ys = xs @ [x] in if length ys > limit then tl ys else ys)"

fun trim_front :: "nat \<Rightarrow> 'a list \<Rightarrow> 'a list" where
  "trim_front cap xs = (if length xs > cap then trim_front cap (tl xs) else xs)"

declare trim_front.simps [simp del]

section \<open>Ordered maps\<close>

text \<open>
  \<^verbatim>\<open>std::map<K, V>\<close> iterates its keys in ascending order. The model is an association list kept
  in that order: \<open>omap_set\<close> is \<^verbatim>\<open>insert_or_assign\<close>, \<open>omap_erase\<close> is \<^verbatim>\<open>erase\<close> and
  \<open>omap_find\<close> is \<^verbatim>\<open>find\<close>.
\<close>

type_synonym ('k, 'v) omap = "('k \<times> 'v) list"

fun omap_find :: "'k \<Rightarrow> ('k, 'v) omap \<Rightarrow> 'v option" where
  "omap_find k [] = None"
| "omap_find k ((k', v) # m) = (if k = k' then Some v else omap_find k m)"

fun omap_set :: "'k::linorder \<Rightarrow> 'v \<Rightarrow> ('k, 'v) omap \<Rightarrow> ('k, 'v) omap" where
  "omap_set k v [] = [(k, v)]"
| "omap_set k v ((k', v') # m) =
     (if k < k' then (k, v) # (k', v') # m
      else if k = k' then (k, v) # m
      else (k', v') # omap_set k v m)"

fun omap_erase :: "'k \<Rightarrow> ('k, 'v) omap \<Rightarrow> ('k, 'v) omap" where
  "omap_erase k [] = []"
| "omap_erase k ((k', v) # m) = (if k = k' then m else (k', v) # omap_erase k m)"

definition omap_wf :: "('k::linorder, 'v) omap \<Rightarrow> bool" where
  "omap_wf m = sorted_wrt (<) (map fst m)"

section \<open>Lemmas on results\<close>

lemma rbind_eq_Inr [simp]: "(rbind r f = Inr y) = (\<exists>x. r = Inr x \<and> f x = Inr y)"
  by (cases r) auto

lemma rbind_eq_Inl: "(rbind r f = Inl e) = (r = Inl e \<or> (\<exists>x. r = Inr x \<and> f x = Inl e))"
  by (cases r) auto

lemma require_eq_Inr [simp]: "(require x e = Inr y) = (x = Some y)"
  by (cases x) auto

lemma require_eq_Inl [simp]: "(require x e = Inl e') = (x = None \<and> e = e')"
  by (cases x) auto

lemma guard_eq_Inl [simp]: "(guard b e = Inl e') = (\<not> b \<and> e = e')"
  by (auto simp: guard_def)

lemma guard_simps [simp]:
  "guard True e = Inr ()" "guard False e = Inl e" "(guard b e = Inr u) = b"
  by (auto simp: guard_def)

lemma map_result_round_trip:
  assumes "\<And>x. x \<in> set xs \<Longrightarrow> dec (enc x) = Inr x"
  shows "map_result dec (map enc xs) = Inr xs"
  using assms by (induction xs) auto

lemma map_result_Inl: "map_result f xs = Inl e \<Longrightarrow> \<exists>x \<in> set xs. f x = Inl e"
  by (induction xs) (auto simp: rbind_eq_Inl)

lemma map_result_length: "map_result f xs = Inr ys \<Longrightarrow> length ys = length xs"
  by (induction xs arbitrary: ys) auto

lemma map_result_all:
  "map_result f xs = Inr ys \<Longrightarrow> y \<in> set ys \<Longrightarrow> \<exists>x \<in> set xs. f x = Inr y"
  by (induction xs arbitrary: ys) fastforce+

section \<open>Lemmas on vectors\<close>

lemma update_first_id: "\<forall>x \<in> set xs. \<not> P x \<Longrightarrow> update_first P f xs = xs"
  by (induction xs) auto

lemma length_update_first [simp]: "length (update_first P f xs) = length xs"
  by (induction xs) auto

lemma update_first_split:
  assumes "\<exists>x \<in> set xs. P x"
  obtains ys x zs where "xs = ys @ x # zs" "P x" "\<forall>y \<in> set ys. \<not> P y"
    "update_first P f xs = ys @ f x # zs"
proof -
  from assms have
    "\<exists>ys x zs. xs = ys @ x # zs \<and> P x \<and> (\<forall>y \<in> set ys. \<not> P y) \<and>
       update_first P f xs = ys @ f x # zs"
  proof (induction xs)
    case Nil
    then show ?case by simp
  next
    case (Cons a xs)
    show ?case
    proof (cases "P a")
      case True
      then have "a # xs = [] @ a # xs \<and> P a \<and> (\<forall>y \<in> set []. \<not> P y) \<and>
        update_first P f (a # xs) = [] @ f a # xs" by simp
      then show ?thesis by blast
    next
      case False
      with Cons obtain ys x zs where "xs = ys @ x # zs" "P x" "\<forall>y \<in> set ys. \<not> P y"
        "update_first P f xs = ys @ f x # zs" by auto
      with False have "a # xs = (a # ys) @ x # zs \<and> P x \<and> (\<forall>y \<in> set (a # ys). \<not> P y) \<and>
        update_first P f (a # xs) = (a # ys) @ f x # zs" by simp
      then show ?thesis by blast
    qed
  qed
  then show ?thesis using that by blast
qed

lemma find_eq_Some:
  assumes "List.find P xs = Some x"
  obtains ys zs where "xs = ys @ x # zs" "P x" "\<forall>y \<in> set ys. \<not> P y"
proof -
  from assms have "\<exists>ys zs. xs = ys @ x # zs \<and> P x \<and> (\<forall>y \<in> set ys. \<not> P y)"
  proof (induction xs)
    case Nil
    then show ?case by simp
  next
    case (Cons a xs)
    show ?case
    proof (cases "P a")
      case True
      with Cons.prems have "a = x" by simp
      with True have "a # xs = [] @ x # xs \<and> P x \<and> (\<forall>y \<in> set []. \<not> P y)" by simp
      then show ?thesis by blast
    next
      case False
      with Cons obtain ys zs where "xs = ys @ x # zs" "P x" "\<forall>y \<in> set ys. \<not> P y" by auto
      with False have "a # xs = (a # ys) @ x # zs \<and> P x \<and> (\<forall>y \<in> set (a # ys). \<not> P y)" by simp
      then show ?thesis by blast
    qed
  qed
  then show ?thesis using that by blast
qed

lemma update_first_append:
  "\<forall>y \<in> set ys. \<not> P y \<Longrightarrow> P x \<Longrightarrow> update_first P f (ys @ x # zs) = ys @ f x # zs"
  by (induction ys) auto

lemma find_SomeD: "List.find P xs = Some x \<Longrightarrow> P x \<and> x \<in> set xs"
  by (auto elim!: find_eq_Some)

lemma map_update_first:
  "(\<And>x. P x \<Longrightarrow> g (f x) = g x) \<Longrightarrow> map g (update_first P f xs) = map g xs"
  by (induction xs) auto

lemma set_update_first: "set (update_first P f xs) \<subseteq> set xs \<union> f ` {x \<in> set xs. P x}"
  by (induction xs) auto

lemma length_filter_update_first_le:
  "(\<And>x. x \<in> set xs \<Longrightarrow> P x \<Longrightarrow> Q (f x) \<Longrightarrow> Q x) \<Longrightarrow>
     length (filter Q (update_first P f xs)) \<le> length (filter Q xs)"
  by (induction xs) (auto intro: le_SucI)

lemma length_filter_map_le:
  "(\<And>x. x \<in> set xs \<Longrightarrow> Q (f x) \<Longrightarrow> Q x) \<Longrightarrow>
     length (filter Q (map f xs)) \<le> length (filter Q xs)"
  by (induction xs) (auto intro: le_SucI)

lemma length_filter_mono:
  "(\<And>x. x \<in> set xs \<Longrightarrow> Q x \<Longrightarrow> R x) \<Longrightarrow> length (filter Q xs) \<le> length (filter R xs)"
  by (induction xs) (auto intro: le_SucI)

lemma length_push_bounded: "length xs \<le> n \<Longrightarrow> 0 < n \<Longrightarrow> length (push_bounded n xs x) \<le> n"
  by (auto simp: push_bounded_def Let_def)

lemma push_bounded_cases:
  "push_bounded n xs x = xs @ [x] \<or> push_bounded n xs x = tl (xs @ [x])"
  by (simp add: push_bounded_def Let_def)

lemma last_push_bounded: "0 < n \<Longrightarrow> push_bounded n xs x \<noteq> [] \<and> last (push_bounded n xs x) = x"
  by (cases xs) (auto simp: push_bounded_def Let_def)

lemma set_push_bounded: "set (push_bounded n xs x) \<subseteq> insert x (set xs)"
  by (cases xs) (auto simp: push_bounded_def Let_def)

lemma distinct_map_push_bounded:
  "distinct (map g xs) \<Longrightarrow> g x \<notin> g ` set xs \<Longrightarrow> distinct (map g (push_bounded n xs x))"
  by (cases xs) (auto simp: push_bounded_def Let_def)

lemma length_filter_push_bounded_le:
  "length (filter Q (push_bounded n xs x)) \<le> length (filter Q xs) + (if Q x then 1 else 0)"
  by (cases xs) (auto simp: push_bounded_def Let_def)

lemma trim_front_drop: "trim_front cap xs = drop (length xs - cap) xs"
proof (induction cap xs rule: trim_front.induct)
  case (1 cap xs)
  show ?case
  proof (cases "length xs > cap")
    case True
    then obtain y ys where xs: "xs = y # ys" by (cases xs) auto
    with True 1 have "trim_front cap ys = drop (length ys - cap) ys" by simp
    moreover have "trim_front cap xs = trim_front cap ys"
      using True xs by (simp add: trim_front.simps [of cap "y # ys"])
    moreover have "length xs - cap = Suc (length ys - cap)" using True xs by simp
    ultimately show ?thesis using xs by simp
  next
    case False
    then show ?thesis by (simp add: trim_front.simps [of cap xs])
  qed
qed

lemma length_trim_front: "length (trim_front cap xs) = min cap (length xs)"
  by (simp add: trim_front_drop)

section \<open>Lemmas on ordered maps\<close>

lemma omap_find_set [simp]:
  "omap_find k (omap_set k' v m) = (if k = k' then Some v else omap_find k m)"
  by (induction m) auto

lemma omap_find_map_of: "omap_find k m = map_of m k"
  by (induction m) auto

lemma set_omap_set: "set (omap_set k v m) \<subseteq> insert (k, v) (set m)"
  by (induction k v m rule: omap_set.induct) auto

lemma set_keys_omap_set: "set (map fst (omap_set k v m)) = insert k (set (map fst m))"
  by (induction k v m rule: omap_set.induct) (simp_all add: insert_commute)

lemma omap_wf_set [intro]: "omap_wf m \<Longrightarrow> omap_wf (omap_set k v m)"
  unfolding omap_wf_def
proof (induction m)
  case Nil
  then show ?case by simp
next
  case (Cons e m)
  obtain k' v' where e: "e = (k', v')" by (cases e)
  have keys: "set (map fst (omap_set k v m)) = insert k (set (map fst m))"
    by (rule set_keys_omap_set)
  from Cons e show ?case
    using keys by (auto intro: less_trans)
qed

lemma omap_find_erase: "omap_wf m \<Longrightarrow> omap_find k (omap_erase k' m) = (if k = k' then None else omap_find k m)"
proof (induction m)
  case Nil
  then show ?case by simp
next
  case (Cons e m)
  obtain a b where e: "e = (a, b)" by (cases e)
  have "a \<notin> set (map fst m)" using Cons.prems e by (auto simp: omap_wf_def)
  then have "omap_find a m = None"
    by (simp add: omap_find_map_of map_of_eq_None_iff)
  moreover have "omap_wf m" using Cons.prems by (simp add: omap_wf_def)
  ultimately show ?case using Cons e by auto
qed

lemma set_keys_omap_erase: "set (map fst (omap_erase k m)) \<subseteq> set (map fst m)"
  by (induction k m rule: omap_erase.induct) (simp_all, blast+)

lemma omap_wf_erase [intro]: "omap_wf m \<Longrightarrow> omap_wf (omap_erase k m)"
  unfolding omap_wf_def
proof (induction m)
  case Nil
  then show ?case by simp
next
  case (Cons e m)
  obtain a b where e: "e = (a, b)" by (cases e)
  have "set (map fst (omap_erase k m)) \<subseteq> set (map fst m)"
    by (rule set_keys_omap_erase)
  moreover have "\<forall>x \<in> set (map fst m). a < x" using Cons.prems e by simp
  ultimately have "\<forall>x \<in> set (map fst (omap_erase k m)). a < x" by blast
  with Cons e show ?case by simp
qed

lemma omap_set_last: "\<forall>x \<in> set (map fst m). x < k \<Longrightarrow> omap_set k v m = m @ [(k, v)]"
  by (induction m) auto

lemma omap_wf_Nil [simp, intro]: "omap_wf []"
  by (simp add: omap_wf_def)

lemma omap_wf_singleton [simp]: "omap_wf [e]"
  by (simp add: omap_wf_def)

lemma omap_wf_distinct: "omap_wf m \<Longrightarrow> distinct (map fst m)"
  by (simp add: omap_wf_def strict_sorted_iff)

lemma omap_ext:
  assumes "omap_wf m" "omap_wf m'" "\<And>k. omap_find k m = omap_find k m'"
  shows "m = m'"
proof -
  have "map_of m = map_of m'" using assms(3) by (auto simp: omap_find_map_of)
  moreover have "distinct (map fst m)" "distinct (map fst m')"
    using assms(1,2) by (auto intro: omap_wf_distinct)
  ultimately have s: "set m = set m'" by (metis map_of_inject_set)
  then have "set (map fst m) = set (map fst m')" by auto
  with assms(1,2) have "map fst m = map fst m'"
    by (auto simp: omap_wf_def intro: strict_sorted_equal)
  moreover have "map snd m = map snd m'"
  proof (rule nth_equalityI)
    show "length (map snd m) = length (map snd m')"
      using calculation by (metis length_map)
    fix i assume i: "i < length (map snd m)"
    then have "m ! i \<in> set m'" using s by (metis length_map nth_mem)
    then obtain j where j: "j < length m'" "m' ! j = m ! i" by (metis in_set_conv_nth)
    have len: "length m = length m'" using calculation by (metis length_map)
    have "map fst m' ! j = map fst m' ! i"
      using i j len calculation by (metis length_map nth_map)
    then have "j = i" using \<open>distinct (map fst m')\<close> i j len
      by (metis distinct_conv_nth length_map)
    with i j len show "map snd m ! i = map snd m' ! i" by simp
  qed
  ultimately show ?thesis by (metis zip_map_fst_snd)
qed

lemma length_omap_set:
  "omap_wf m \<Longrightarrow> length (omap_set k v m) = (if omap_find k m = None then Suc (length m) else length m)"
proof (induction m)
  case Nil
  then show ?case by simp
next
  case (Cons e m)
  obtain a b where e: "e = (a, b)" by (cases e)
  show ?case
  proof (cases "k < a")
    case True
    then have "omap_find k m = None"
      using Cons.prems e by (auto simp: omap_wf_def omap_find_map_of map_of_eq_None_iff)
    then show ?thesis using True e by auto
  next
    case False
    then show ?thesis using Cons e by (auto simp: omap_wf_def)
  qed
qed

section \<open>Interface: ordered maps\<close>

text \<open>
  What the components rely on when they keep a \<^verbatim>\<open>std::map\<close>: lookups after stores and erasures,
  and that equal contents means equal maps (iteration order is determined by the keys).
\<close>

locale ordered_map =
  fixes find :: "'k::linorder \<Rightarrow> 'm \<Rightarrow> 'v option"
    and store :: "'k \<Rightarrow> 'v \<Rightarrow> 'm \<Rightarrow> 'm"
    and erase :: "'k \<Rightarrow> 'm \<Rightarrow> 'm"
    and empty :: 'm
    and wf :: "'m \<Rightarrow> bool"
  assumes find_empty: "find k empty = None"
    and find_store: "wf m \<Longrightarrow> find k (store k' v m) = (if k = k' then Some v else find k m)"
    and find_erase: "wf m \<Longrightarrow> find k (erase k' m) = (if k = k' then None else find k m)"
    and wf_empty: "wf empty"
    and wf_store: "wf m \<Longrightarrow> wf (store k v m)"
    and wf_erase: "wf m \<Longrightarrow> wf (erase k m)"
    and extensional: "wf m \<Longrightarrow> wf m' \<Longrightarrow> (\<And>k. find k m = find k m') \<Longrightarrow> m = m'"
begin

lemma store_store_same: "wf m \<Longrightarrow> store k v (store k w m) = store k v m"
  by (rule extensional) (auto simp: wf_store find_store)

lemma store_commute: "wf m \<Longrightarrow> k \<noteq> k' \<Longrightarrow> store k v (store k' w m) = store k' w (store k v m)"
  by (rule extensional) (auto simp: wf_store find_store)

lemma store_same: "wf m \<Longrightarrow> find k m = Some v \<Longrightarrow> store k v m = m"
  by (rule extensional) (auto simp: wf_store find_store)

lemma erase_store: "wf m \<Longrightarrow> find k m = None \<Longrightarrow> erase k (store k v m) = m"
  by (rule extensional) (auto simp: wf_store wf_erase find_store find_erase)

lemma store_erase_rename:
  "wf m \<Longrightarrow> find a m = Some v \<Longrightarrow> find b m = None \<Longrightarrow>
     erase b (store a v (erase a (store b v m))) = m"
  by (rule extensional) (auto simp: wf_store wf_erase find_store find_erase)

end

interpretation om: ordered_map omap_find omap_set omap_erase "[]" omap_wf
  by unfold_locales (auto simp: omap_find_erase intro: omap_ext)

section \<open>Interface: state machines with an invariant\<close>

text \<open>
  A component whose operations each keep an invariant keeps it along every sequence of operations.
  \<open>enabled\<close> is the environment's obligation on one operation in one state (for the registry: the
  clock does not run backwards).
\<close>

locale invariant_machine =
  fixes step :: "'s \<Rightarrow> 'op \<Rightarrow> 's"
    and enabled :: "'s \<Rightarrow> 'op \<Rightarrow> bool"
    and inv :: "'s \<Rightarrow> bool"
  assumes inv_step: "inv s \<Longrightarrow> enabled s c \<Longrightarrow> inv (step s c)"
begin

fun admissible :: "'s \<Rightarrow> 'op list \<Rightarrow> bool" where
  "admissible s [] = True"
| "admissible s (c # cs) = (enabled s c \<and> admissible (step s c) cs)"

lemma inv_run: "inv s \<Longrightarrow> admissible s cs \<Longrightarrow> inv (foldl step s cs)"
  by (induction cs arbitrary: s) (auto simp: inv_step)

lemma inv_prefix: "inv s \<Longrightarrow> admissible s (cs @ ds) \<Longrightarrow> inv (foldl step s cs)"
  by (induction cs arbitrary: s) (auto simp: inv_step)

end

end
