(* ===== verification/Status_Codes.thy ===== *)
theory Status_Codes
  imports Fabric_Prelude
begin

text \<open>
  The error taxonomy of \<^verbatim>\<open>include/fabric/evolution/status.hpp\<close> and \<^verbatim>\<open>src/status.cpp\<close>.
  A \<^verbatim>\<open>Status\<close> carries a code, a human readable message and a diagnostic JSON detail. No decision
  of the library reads the message or the detail of a status, so the model keeps the code only.
\<close>

datatype ErrorCode =
    Ok | InvalidArgument | Malformed | BoundsExceeded | NotFound | AlreadyExists | Conflict
  | StaleEpoch | StaleGeneration | StaleIncarnation | StaleAuthority | NotAuthoritative
  | AuthorityConflict | CompatibilityInsufficient | IrreversibleBoundary | UnsupportedProtocol
  | FeatureNotNegotiated | MigrationFailure | IntegrityFailure | IoFailure | Cancelled
  | ShuttingDown | DeadlineExceeded | ProtocolViolation | DuplicateFrame | NotReady
  | IllegalTransition | ResourceExhausted | Unsupported | Internal

type_synonym Status = ErrorCode
type_synonym 'a Result = "ErrorCode + 'a"

fun error_code_name :: "ErrorCode \<Rightarrow> string" where
  "error_code_name Ok = ''ok''"
| "error_code_name InvalidArgument = ''invalid_argument''"
| "error_code_name Malformed = ''malformed''"
| "error_code_name BoundsExceeded = ''bounds_exceeded''"
| "error_code_name NotFound = ''not_found''"
| "error_code_name AlreadyExists = ''already_exists''"
| "error_code_name Conflict = ''conflict''"
| "error_code_name StaleEpoch = ''stale_epoch''"
| "error_code_name StaleGeneration = ''stale_generation''"
| "error_code_name StaleIncarnation = ''stale_incarnation''"
| "error_code_name StaleAuthority = ''stale_authority''"
| "error_code_name NotAuthoritative = ''not_authoritative''"
| "error_code_name AuthorityConflict = ''authority_conflict''"
| "error_code_name CompatibilityInsufficient = ''compatibility_insufficient''"
| "error_code_name IrreversibleBoundary = ''irreversible_boundary''"
| "error_code_name UnsupportedProtocol = ''unsupported_protocol''"
| "error_code_name FeatureNotNegotiated = ''feature_not_negotiated''"
| "error_code_name MigrationFailure = ''migration_failure''"
| "error_code_name IntegrityFailure = ''integrity_failure''"
| "error_code_name IoFailure = ''io_failure''"
| "error_code_name Cancelled = ''cancelled''"
| "error_code_name ShuttingDown = ''shutting_down''"
| "error_code_name DeadlineExceeded = ''deadline_exceeded''"
| "error_code_name ProtocolViolation = ''protocol_violation''"
| "error_code_name DuplicateFrame = ''duplicate_frame''"
| "error_code_name NotReady = ''not_ready''"
| "error_code_name IllegalTransition = ''illegal_transition''"
| "error_code_name ResourceExhausted = ''resource_exhausted''"
| "error_code_name Unsupported = ''unsupported''"
| "error_code_name Internal = ''internal''"

definition is_retryable :: "ErrorCode \<Rightarrow> bool" where
  "is_retryable code =
     (case code of
        NotReady \<Rightarrow> True
      | Conflict \<Rightarrow> True
      | DeadlineExceeded \<Rightarrow> True
      | ResourceExhausted \<Rightarrow> True
      | IoFailure \<Rightarrow> True
      | _ \<Rightarrow> False)"

definition status_ok :: "Status \<Rightarrow> bool" where
  "status_ok s = (s = Ok)"

text \<open>
  \<^verbatim>\<open>Result<T>(Status)\<close>: a successful status holds no value, so converting one yields a loud
  \<open>Internal\<close> refusal.
\<close>

definition result_of_status :: "Status \<Rightarrow> 'a Result" where
  "result_of_status s = (if status_ok s then Inl Internal else Inl s)"

definition result_status :: "'a Result \<Rightarrow> Status" where
  "result_status r = (case r of Inl e \<Rightarrow> e | Inr _ \<Rightarrow> Ok)"

lemma result_of_status_never_ok: "\<not> is_ok (result_of_status s)"
  by (simp add: is_ok_def result_of_status_def)

lemma result_status_of_status: "s \<noteq> Ok \<Longrightarrow> result_status (result_of_status s) = s"
  by (simp add: result_status_def result_of_status_def status_ok_def)

end
