(* ===== verification/Strong_Types.thy ===== *)
theory Strong_Types
  imports Fabric_Prelude
begin

text \<open>
  Identity primitives of \<^verbatim>\<open>include/fabric/evolution/strong_types.hpp\<close> and
  \<^verbatim>\<open>src/strong_types.cpp\<close>: checked successors of tagged counters, 128-bit identifiers with their
  textual forms, validated names, little-endian byte encodings and checked size arithmetic.
  A tagged counter is its word (0 is the unset value), a \<open>Uuid128\<close> is its list of sixteen bytes, a
  name is its text (the empty text is the unset name).
\<close>

section \<open>Tagged counters\<close>

definition tagged_is_valid :: "'a::len word \<Rightarrow> bool" where
  "tagged_is_valid value = (value \<noteq> 0)"

definition tagged_next :: "'a::len word \<Rightarrow> 'a word option" where
  "tagged_next value = (if value = - 1 then None else Some (value + 1))"

section \<open>Bytes and characters\<close>

definition byte_of_char :: "char \<Rightarrow> u8" where
  "byte_of_char c = of_char c"

definition char_of_byte :: "u8 \<Rightarrow> char" where
  "char_of_byte b = char_of (unat b)"

section \<open>128-bit identifiers\<close>

type_synonym Uuid128 = "u8 list"

definition uuid_wf :: "Uuid128 \<Rightarrow> bool" where
  "uuid_wf u = (length u = 16)"

definition uuid_nil :: Uuid128 where
  "uuid_nil = replicate 16 0"

definition uuid_is_nil :: "Uuid128 \<Rightarrow> bool" where
  "uuid_is_nil u = list_all (\<lambda>b. b = 0) u"

definition kHexDigits :: string where
  "kHexDigits = ''0123456789abcdef''"

definition hex_value :: "char \<Rightarrow> int" where
  "hex_value ch =
     (let c = (of_char ch :: int) in
      if 48 \<le> c \<and> c \<le> 57 then c - 48
      else if 97 \<le> c \<and> c \<le> 102 then c - 97 + 10
      else if 65 \<le> c \<and> c \<le> 70 then c - 65 + 10
      else -1)"

definition hex_of_byte :: "u8 \<Rightarrow> string" where
  "hex_of_byte b = [kHexDigits ! unat (drop_bit 4 b AND 0x0F), kHexDigits ! unat (b AND 0x0F)]"

definition to_compact_string :: "Uuid128 \<Rightarrow> string" where
  "to_compact_string u = concat (map hex_of_byte u)"

definition uuid_to_string :: "Uuid128 \<Rightarrow> string" where
  "uuid_to_string u =
     (let compact = to_compact_string u in
      take 8 compact @ ''-'' @ take 4 (drop 8 compact) @ ''-'' @ take 4 (drop 12 compact) @ ''-'' @
      take 4 (drop 16 compact) @ ''-'' @ take 12 (drop 20 compact))"

fun uuid_nibbles :: "string \<Rightarrow> u8 list \<Rightarrow> u8 list option" where
  "uuid_nibbles [] nibbles = Some nibbles"
| "uuid_nibbles (c # text) nibbles =
     (if c = CHR ''-'' then uuid_nibbles text nibbles
      else if hex_value c < 0 then None
      else if length nibbles \<ge> 32 then None
      else uuid_nibbles text (nibbles @ [word_of_int (hex_value c)]))"

definition uuid_parse :: "string \<Rightarrow> Uuid128 option" where
  "uuid_parse text =
     (case uuid_nibbles text [] of
        None \<Rightarrow> None
      | Some nibbles \<Rightarrow>
          if length nibbles \<noteq> 32 then None
          else Some (map (\<lambda>i. push_bit 4 (nibbles ! (i * 2)) OR nibbles ! (i * 2 + 1)) [0..<16]))"

section \<open>Validated names\<close>

definition is_valid_char :: "char \<Rightarrow> bool" where
  "is_valid_char ch =
     (let c = (of_char ch :: nat) in
      (97 \<le> c \<and> c \<le> 122) \<or> (65 \<le> c \<and> c \<le> 90) \<or> (48 \<le> c \<and> c \<le> 57) \<or>
      ch = CHR ''.'' \<or> ch = CHR ''_'' \<or> ch = CHR ''-'')"

definition is_separator :: "char \<Rightarrow> bool" where
  "is_separator c = (c = CHR ''.'' \<or> c = CHR ''_'' \<or> c = CHR ''-'')"

definition name_max_length :: nat where
  "name_max_length = 64"

definition name_is_valid_text :: "string \<Rightarrow> bool" where
  "name_is_valid_text text =
     (case text of
        [] \<Rightarrow> False
      | c # _ \<Rightarrow> length text \<le> name_max_length \<and> \<not> is_separator c \<and> list_all is_valid_char text)"

definition name_parse :: "string \<Rightarrow> string option" where
  "name_parse text = (if name_is_valid_text text then Some text else None)"

definition name_is_valid :: "string \<Rightarrow> bool" where
  "name_is_valid value = (value \<noteq> [])"

section \<open>Little-endian encodings\<close>

definition append_u8 :: "string \<Rightarrow> u8 \<Rightarrow> string" where
  "append_u8 out value = out @ [char_of_byte value]"

definition append_u16_le :: "string \<Rightarrow> u16 \<Rightarrow> string" where
  "append_u16_le out value =
     append_u8 (append_u8 out (ucast (value AND 0xFF))) (ucast (drop_bit 8 value AND 0xFF))"

definition append_u32_le :: "string \<Rightarrow> u32 \<Rightarrow> string" where
  "append_u32_le out value =
     foldl (\<lambda>o' shift. append_u8 o' (ucast (drop_bit shift value AND 0xFF))) out [0, 8, 16, 24]"

definition append_u64_le :: "string \<Rightarrow> u64 \<Rightarrow> string" where
  "append_u64_le out value =
     foldl (\<lambda>o' shift. append_u8 o' (ucast (drop_bit shift value AND 0xFF))) out
       [0, 8, 16, 24, 32, 40, 48, 56]"

definition read_u16_le :: "string \<Rightarrow> u16" where
  "read_u16_le data =
     ucast (byte_of_char (data ! 0)) OR push_bit 8 (ucast (byte_of_char (data ! 1)))"

definition read_u32_le :: "string \<Rightarrow> u32" where
  "read_u32_le data =
     foldl (\<lambda>value i. value OR push_bit (8 * i) (ucast (byte_of_char (data ! i)))) 0 [0..<4]"

definition read_u64_le :: "string \<Rightarrow> u64" where
  "read_u64_le data =
     foldl (\<lambda>value i. value OR push_bit (8 * i) (ucast (byte_of_char (data ! i)))) 0 [0..<8]"

section \<open>Checked size arithmetic\<close>

definition checked_add :: "u64 \<Rightarrow> u64 \<Rightarrow> u64 option" where
  "checked_add lhs rhs = (if lhs > - 1 - rhs then None else Some (lhs + rhs))"

text \<open>\<^verbatim>\<open>checked_add\<close> on sizes.\<close>

definition size_add :: "nat \<Rightarrow> nat \<Rightarrow> nat option" where
  "size_add a b = (if a + b < 2 ^ 64 then Some (a + b) else None)"

definition checked_mul :: "u64 \<Rightarrow> u64 \<Rightarrow> u64 option" where
  "checked_mul lhs rhs = (if lhs \<noteq> 0 \<and> rhs > - 1 div lhs then None else Some (lhs * rhs))"

section \<open>Lemmas\<close>

lemma unat_tagged_next: "tagged_next v = Some w \<Longrightarrow> unat w = Suc (unat v)"
proof -
  assume "tagged_next v = Some w"
  then have "v \<noteq> - 1" and w: "w = 1 + v" by (auto simp: tagged_next_def split: if_splits)
  then have "1 + v \<noteq> 0" by (metis add.commute add_eq_0_iff)
  with w show ?thesis by (simp add: unatSuc)
qed

lemma tagged_next_greater: "tagged_next v = Some w \<Longrightarrow> v < w"
  by (simp add: word_less_nat_alt unat_tagged_next)

lemma tagged_next_valid: "tagged_next v = Some w \<Longrightarrow> tagged_is_valid w"
  using tagged_next_greater [of v w] by (auto simp: tagged_is_valid_def)

lemma byte_of_char_nat: "byte_of_char c = of_nat (of_char c)"
  by (simp add: byte_of_char_def of_nat_of_char)

lemma char_of_byte_of_char [simp]: "char_of_byte (byte_of_char c) = c"
proof -
  have "of_char c < (256::nat)" by (metis of_char_mod_256 mod_less_divisor zero_less_numeral)
  then have "unat (byte_of_char c) = of_char c"
    by (simp add: byte_of_char_nat unat_of_nat)
  then show ?thesis by (simp add: char_of_byte_def)
qed

lemma byte_of_char_of_byte [simp]: "byte_of_char (char_of_byte b) = b"
proof -
  have "unat b < 2 ^ LENGTH(8)" by (rule unsigned_less)
  then show ?thesis by (simp add: char_of_byte_def byte_of_char_nat)
qed

lemma hex_value_digit: "n < 16 \<Longrightarrow> hex_value (kHexDigits ! n) = int n"
  by (auto simp: less_Suc_eq numeral_eq_Suc kHexDigits_def hex_value_def)

lemma hex_digit_not_dash: "n < 16 \<Longrightarrow> kHexDigits ! n \<noteq> CHR ''-''"
  by (auto simp: less_Suc_eq numeral_eq_Suc kHexDigits_def)

lemma and_15: "(w :: 'a::len word) AND 0x0F = take_bit 4 w"
  by (simp add: take_bit_eq_mask mask_eq_exp_minus_1)

lemma and_255: "(w :: 'a::len word) AND 0xFF = take_bit 8 w"
  by (simp add: take_bit_eq_mask mask_eq_exp_minus_1)

lemma nibbles_join: "push_bit 4 (drop_bit 4 b AND 0x0F) OR (b AND 0x0F) = (b :: u8)"
  unfolding and_15 by (rule bit_word_eqI) (auto simp: bit_simps)

lemma checked_add_exact:
  "checked_add a b = (if unat a + unat b < 2 ^ 64 then Some (a + b) else None)"
proof -
  have "unat (- 1 - b) = 2 ^ 64 - 1 - unat b"
    by (simp add: unat_sub unsigned_minus_1_eq_mask mask_eq_exp_minus_1)
  moreover have "unat b < 2 ^ LENGTH(64)" by (rule unsigned_less)
  ultimately have "(a > - 1 - b) = (\<not> unat a + unat b < 2 ^ 64)"
    by (simp add: word_less_nat_alt) arith
  then show ?thesis by (simp add: checked_add_def)
qed

lemma size_add_checked: "size_add (unat a) (unat b) = map_option unat (checked_add a b)"
proof -
  have "unat (a + b) = unat a + unat b" if "unat a + unat b < 2 ^ 64"
    using that unat_add_lem [of a b] by simp
  then show ?thesis by (simp add: size_add_def checked_add_exact)
qed

lemma checked_mul_exact:
  "checked_mul a b = (if unat a * unat b < 2 ^ 64 then Some (a * b) else None)"
proof (cases "a = 0")
  case True
  then show ?thesis by (simp add: checked_mul_def)
next
  case False
  then have a: "0 < unat a" by (simp add: unat_gt_0)
  have "unat (- 1 div a) = (2 ^ 64 - 1) div unat a"
    by (simp add: unat_div unsigned_minus_1_eq_mask mask_eq_exp_minus_1)
  then have "(b > - 1 div a) = ((2 ^ 64 - 1) div unat a < unat b)"
    by (simp add: word_less_nat_alt)
  also have "\<dots> = (2 ^ 64 - 1 < unat b * unat a)"
    using a by (rule div_less_iff_less_mult)
  also have "\<dots> = (\<not> unat a * unat b < 2 ^ 64)" by (auto simp: mult.commute)
  finally show ?thesis using False by (simp add: checked_mul_def)
qed

lemma read_append_u16: "read_u16_le (append_u16_le [] v @ rest) = v"
  unfolding read_u16_le_def append_u16_le_def append_u8_def and_255
  by simp (rule bit_word_eqI; auto simp: bit_simps)

lemma append_u32_le_eq: "append_u32_le out v = out @ append_u32_le [] v"
  by (simp add: append_u32_le_def append_u8_def)

lemma append_u64_le_eq: "append_u64_le out v = out @ append_u64_le [] v"
  by (simp add: append_u64_le_def append_u8_def)

lemma append_u16_le_eq: "append_u16_le out v = out @ append_u16_le [] v"
  by (simp add: append_u16_le_def append_u8_def)

lemma length_append_le [simp]:
  "length (append_u16_le [] a) = 2" "length (append_u32_le [] b) = 4" "length (append_u64_le [] c) = 8"
  by (simp_all add: append_u16_le_def append_u32_le_def append_u64_le_def append_u8_def)

lemma take_bit_chunk:
  "take_bit m v OR push_bit m (take_bit 8 (drop_bit m v)) = take_bit (m + 8) (v :: 'a::len word)"
  by (rule bit_word_eqI) (auto simp: bit_simps)

lemma u8_through_word:
  "8 \<le> LENGTH('a::len) \<Longrightarrow> ucast (ucast (take_bit 8 (w :: 'a word)) :: u8) = take_bit 8 w"
  by (rule bit_word_eqI) (auto simp: bit_simps)

lemma read_append_u32: "read_u32_le (append_u32_le [] v @ rest) = v"
proof -
  have "read_u32_le (append_u32_le [] v @ rest) =
    (((take_bit 0 v OR push_bit 0 (take_bit 8 (drop_bit 0 v))) OR push_bit 8 (take_bit 8 (drop_bit 8 v)))
    OR push_bit 16 (take_bit 8 (drop_bit 16 v))) OR push_bit 24 (take_bit 8 (drop_bit 24 v))"
    unfolding read_u32_le_def append_u32_le_def append_u8_def and_255
    by (simp add: upt_rec u8_through_word)
  also have "\<dots> = take_bit 32 v"
    by (simp only: take_bit_chunk add_0 arith_simps)
  finally show ?thesis by (simp add: take_bit_word_eq_self)
qed

lemma read_append_u64: "read_u64_le (append_u64_le [] v @ rest) = v"
proof -
  have "read_u64_le (append_u64_le [] v @ rest) =
    (((((((take_bit 0 v OR push_bit 0 (take_bit 8 (drop_bit 0 v))) OR push_bit 8 (take_bit 8 (drop_bit 8 v)))
    OR push_bit 16 (take_bit 8 (drop_bit 16 v))) OR push_bit 24 (take_bit 8 (drop_bit 24 v)))
    OR push_bit 32 (take_bit 8 (drop_bit 32 v))) OR push_bit 40 (take_bit 8 (drop_bit 40 v)))
    OR push_bit 48 (take_bit 8 (drop_bit 48 v))) OR push_bit 56 (take_bit 8 (drop_bit 56 v))"
    unfolding read_u64_le_def append_u64_le_def append_u8_def and_255
    by (simp add: upt_rec u8_through_word)
  also have "\<dots> = take_bit 64 v"
    by (simp only: take_bit_chunk add_0 arith_simps)
  finally show ?thesis by (simp add: take_bit_word_eq_self)
qed

lemma length_hex: "length (to_compact_string u) = 2 * length u"
  by (induction u) (auto simp: to_compact_string_def hex_of_byte_def)

lemma unat_nibble: "unat (w AND 0x0F :: u8) < 16"
proof -
  have "unat (take_bit 4 w) < 2 ^ 4"
    unfolding unsigned_take_bit_eq by (rule take_bit_nat_less_exp)
  then show ?thesis by (simp add: and_15)
qed

lemma nibble_word: "word_of_int (int (unat (w :: u8))) = w"
  by simp

lemma uuid_nibbles_append:
  "uuid_nibbles (s @ t) acc = (case uuid_nibbles s acc of None \<Rightarrow> None | Some a \<Rightarrow> uuid_nibbles t a)"
  by (induction s acc rule: uuid_nibbles.induct) auto

definition nibbles_of :: "u8 list \<Rightarrow> u8 list" where
  "nibbles_of u = concat (map (\<lambda>b. [drop_bit 4 b AND 0x0F, b AND 0x0F]) u)"

lemma uuid_nibbles_hex:
  "length acc + 2 * length u \<le> 32 \<Longrightarrow>
     uuid_nibbles (to_compact_string u) acc = Some (acc @ nibbles_of u)"
proof (induction u arbitrary: acc)
  case Nil
  then show ?case by (simp add: to_compact_string_def nibbles_of_def)
next
  case (Cons b u)
  have "uuid_nibbles (hex_of_byte b @ to_compact_string u) acc =
        uuid_nibbles (to_compact_string u) (acc @ [drop_bit 4 b AND 0x0F, b AND 0x0F])"
    using Cons.prems unat_nibble [of "drop_bit 4 b"] unat_nibble [of b]
    by (simp add: hex_of_byte_def hex_digit_not_dash hex_value_digit)
  also have "\<dots> = Some (acc @ nibbles_of (b # u))"
    using Cons by (simp add: nibbles_of_def)
  finally show ?case by (simp add: to_compact_string_def)
qed

lemma nth_nibbles_of:
  "i < length u \<Longrightarrow> nibbles_of u ! (i * 2) = drop_bit 4 (u ! i) AND 0x0F \<and>
     nibbles_of u ! (i * 2 + 1) = u ! i AND 0x0F"
  by (induction u arbitrary: i) (auto simp: nibbles_of_def nth_Cons split: nat.splits)

lemma uuid_parse_compact:
  assumes "uuid_wf u"
  shows "uuid_parse (to_compact_string u) = Some u"
proof -
  have n: "uuid_nibbles (to_compact_string u) [] = Some (nibbles_of u)"
    using assms uuid_nibbles_hex [of "[]" u] by (simp add: uuid_wf_def)
  have len: "length (nibbles_of u) = 32"
    using assms by (simp add: uuid_wf_def nibbles_of_def length_concat comp_def sum_list_triv)
  have "map (\<lambda>i. push_bit 4 (nibbles_of u ! (i * 2)) OR nibbles_of u ! (i * 2 + 1)) [0..<16] =
        map (\<lambda>i. u ! i) [0..<16]"
    using assms
    by (intro map_cong refl)
      (simp only: uuid_wf_def nth_nibbles_of nibbles_join atLeastLessThan_iff set_upt)
  also have "\<dots> = u" using assms by (metis map_nth uuid_wf_def)
  finally show ?thesis using n len by (simp add: uuid_parse_def)
qed

lemma uuid_nibbles_skip_dashes:
  "uuid_nibbles (a @ ''-'' @ b @ ''-'' @ c @ ''-'' @ d @ ''-'' @ e) acc = uuid_nibbles (a @ b @ c @ d @ e) acc"
  by (simp add: uuid_nibbles_append split: option.splits)

lemma take_drop_five:
  assumes "length s = 32"
  shows "take 8 s @ take 4 (drop 8 s) @ take 4 (drop 12 s) @ take 4 (drop 16 s) @ take 12 (drop 20 s) = s"
proof -
  have "drop n s = take 4 (drop n s) @ drop (n + 4) s" for n
    by (metis add.commute append_take_drop_id drop_drop)
  from this [of 8] this [of 12] this [of 16] have
    "drop 8 s = take 4 (drop 8 s) @ take 4 (drop 12 s) @ take 4 (drop 16 s) @ drop 20 s" by simp
  moreover have "take 12 (drop 20 s) = drop 20 s" using assms by simp
  ultimately show ?thesis by (metis append_take_drop_id)
qed

lemma uuid_parse_hyphenated:
  assumes "uuid_wf u"
  shows "uuid_parse (uuid_to_string u) = Some u"
proof -
  let ?c = "to_compact_string u"
  have c: "take 8 ?c @ take 4 (drop 8 ?c) @ take 4 (drop 12 ?c) @ take 4 (drop 16 ?c) @ take 12 (drop 20 ?c) = ?c"
    using assms by (intro take_drop_five) (simp add: length_hex uuid_wf_def)
  have "uuid_nibbles (uuid_to_string u) [] = uuid_nibbles ?c []"
    unfolding uuid_to_string_def Let_def uuid_nibbles_skip_dashes c by (rule refl)
  then have "uuid_parse (uuid_to_string u) = uuid_parse ?c" by (simp add: uuid_parse_def)
  with assms show ?thesis by (simp add: uuid_parse_compact)
qed

lemma name_parse_valid: "name_is_valid_text t \<Longrightarrow> name_parse t = Some t"
  by (simp add: name_parse_def)

lemma name_parse_Some: "name_parse t = Some n \<Longrightarrow> n = t \<and> name_is_valid_text n \<and> name_is_valid n"
  by (auto simp: name_parse_def name_is_valid_def name_is_valid_text_def split: if_splits)

end
