(* ===== verification/Json_Model.thy ===== *)
theory Json_Model
  imports Status_Codes Strong_Types
begin

text \<open>
  The JSON value model of \<^verbatim>\<open>include/fabric/evolution/json.hpp\<close> and \<^verbatim>\<open>src/json.cpp\<close>:
  the value type, its accessors, the typed readers the record decoders use, and the interface that
  every record codec of the library satisfies. A signed integer is its 64-bit pattern, read with
  \<open>sint\<close>; a double is its 64-bit pattern, which the library never computes with.
\<close>

datatype json =
    JNull
  | JBool bool
  | JInt u64
  | JUInt u64
  | JDouble u64
  | JString string
  | JArray "json list"
  | JObject "(string \<times> json) list"

definition is_null :: "json \<Rightarrow> bool" where
  "is_null j = (case j of JNull \<Rightarrow> True | _ \<Rightarrow> False)"

definition is_array :: "json \<Rightarrow> bool" where
  "is_array j = (case j of JArray _ \<Rightarrow> True | _ \<Rightarrow> False)"

definition is_object :: "json \<Rightarrow> bool" where
  "is_object j = (case j of JObject _ \<Rightarrow> True | _ \<Rightarrow> False)"

definition is_number :: "json \<Rightarrow> bool" where
  "is_number j = (case j of JInt _ \<Rightarrow> True | JUInt _ \<Rightarrow> True | JDouble _ \<Rightarrow> True | _ \<Rightarrow> False)"

definition try_bool :: "json \<Rightarrow> bool option" where
  "try_bool j = (case j of JBool b \<Rightarrow> Some b | _ \<Rightarrow> None)"

definition try_i64 :: "json \<Rightarrow> u64 option" where
  "try_i64 j =
     (case j of
        JInt value \<Rightarrow> Some value
      | JUInt value \<Rightarrow> if value \<le> 0x7FFFFFFFFFFFFFFF then Some value else None
      | _ \<Rightarrow> None)"

definition try_u64 :: "json \<Rightarrow> u64 option" where
  "try_u64 j =
     (case j of
        JUInt value \<Rightarrow> Some value
      | JInt value \<Rightarrow> if 0 \<le> sint value then Some value else None
      | _ \<Rightarrow> None)"

definition try_string :: "json \<Rightarrow> string option" where
  "try_string j = (case j of JString text \<Rightarrow> Some text | _ \<Rightarrow> None)"

definition try_array :: "json \<Rightarrow> json list option" where
  "try_array j = (case j of JArray xs \<Rightarrow> Some xs | _ \<Rightarrow> None)"

definition try_object :: "json \<Rightarrow> (string, json) omap option" where
  "try_object j = (case j of JObject m \<Rightarrow> Some m | _ \<Rightarrow> None)"

definition json_find :: "json \<Rightarrow> string \<Rightarrow> json option" where
  "json_find j key = (case try_object j of None \<Rightarrow> None | Some m \<Rightarrow> omap_find key m)"

definition json_has :: "json \<Rightarrow> string \<Rightarrow> bool" where
  "json_has j key = (json_find j key \<noteq> None)"

definition json_set :: "json \<Rightarrow> string \<Rightarrow> json \<Rightarrow> json" where
  "json_set j key value =
     (let m = (case j of JObject m \<Rightarrow> m | _ \<Rightarrow> []) in JObject (omap_set key value m))"

definition json_erase :: "json \<Rightarrow> string \<Rightarrow> json" where
  "json_erase j key = (case j of JObject m \<Rightarrow> JObject (omap_erase key m) | _ \<Rightarrow> j)"

definition json_size :: "json \<Rightarrow> nat" where
  "json_size j =
     (case j of JArray xs \<Rightarrow> length xs | JObject m \<Rightarrow> length m | JString t \<Rightarrow> length t | _ \<Rightarrow> 0)"

definition json_at :: "json \<Rightarrow> nat \<Rightarrow> json" where
  "json_at j index =
     (case try_array j of
        None \<Rightarrow> JNull
      | Some xs \<Rightarrow> if index \<ge> length xs then JNull else xs ! index)"

definition json_push_back :: "json \<Rightarrow> json \<Rightarrow> json" where
  "json_push_back j value = JArray ((case j of JArray xs \<Rightarrow> xs | _ \<Rightarrow> []) @ [value])"

text \<open>\<^verbatim>\<open>operator==\<close>: integers compare across the signed/unsigned split, at every depth; doubles
  compare as floating point numbers (no NaN equals anything, the two zeros are equal).\<close>

definition is_nan_double :: "u64 \<Rightarrow> bool" where
  "is_nan_double w = (drop_bit 52 w AND 0x7FF = 0x7FF \<and> take_bit 52 w \<noteq> 0)"

definition double_equal :: "u64 \<Rightarrow> u64 \<Rightarrow> bool" where
  "double_equal a b = (\<not> is_nan_double a \<and> \<not> is_nan_double b \<and> (a = b \<or> take_bit 63 a = 0 \<and> take_bit 63 b = 0))"

definition equal_across_kinds :: "json \<Rightarrow> json \<Rightarrow> bool" where
  "equal_across_kinds lhs rhs =
     (is_number lhs \<and> is_number rhs \<and>
      (case (try_i64 lhs, try_i64 rhs) of (Some x, Some y) \<Rightarrow> x = y | _ \<Rightarrow> False))"

primrec json_equal :: "json \<Rightarrow> json \<Rightarrow> bool" where
  "json_equal JNull rhs = (rhs = JNull)"
| "json_equal (JBool a) rhs = (rhs = JBool a)"
| "json_equal (JInt a) rhs = (case rhs of JInt b \<Rightarrow> a = b | _ \<Rightarrow> equal_across_kinds (JInt a) rhs)"
| "json_equal (JUInt a) rhs = (case rhs of JUInt b \<Rightarrow> a = b | _ \<Rightarrow> equal_across_kinds (JUInt a) rhs)"
| "json_equal (JDouble a) rhs = (case rhs of JDouble b \<Rightarrow> double_equal a b | _ \<Rightarrow> False)"
| "json_equal (JString a) rhs = (rhs = JString a)"
| "json_equal (JArray xs) rhs =
     (case rhs of JArray ys \<Rightarrow> list_all2 (\<lambda>eq y. eq y) (map json_equal xs) ys | _ \<Rightarrow> False)"
| "json_equal (JObject xs) rhs =
     (case rhs of
        JObject ys \<Rightarrow> list_all2 (\<lambda>(k, eq) (l, y). k = l \<and> eq y) (map (map_prod id json_equal) xs) ys
      | _ \<Rightarrow> False)"

section \<open>Typed readers\<close>

definition json_string :: "json \<Rightarrow> string \<Rightarrow> string option" where
  "json_string j key = (case json_find j key of None \<Rightarrow> None | Some v \<Rightarrow> try_string v)"

definition json_i64 :: "json \<Rightarrow> string \<Rightarrow> u64 option" where
  "json_i64 j key = (case json_find j key of None \<Rightarrow> None | Some v \<Rightarrow> try_i64 v)"

definition json_u64 :: "json \<Rightarrow> string \<Rightarrow> u64 option" where
  "json_u64 j key = (case json_find j key of None \<Rightarrow> None | Some v \<Rightarrow> try_u64 v)"

definition json_bool :: "json \<Rightarrow> string \<Rightarrow> bool option" where
  "json_bool j key = (case json_find j key of None \<Rightarrow> None | Some v \<Rightarrow> try_bool v)"

definition json_string_or :: "json \<Rightarrow> string \<Rightarrow> string \<Rightarrow> string" where
  "json_string_or j key fallback = (case json_string j key of None \<Rightarrow> fallback | Some v \<Rightarrow> v)"

definition json_i64_or :: "json \<Rightarrow> string \<Rightarrow> u64 \<Rightarrow> u64" where
  "json_i64_or j key fallback = (case json_i64 j key of None \<Rightarrow> fallback | Some v \<Rightarrow> v)"

definition json_u64_or :: "json \<Rightarrow> string \<Rightarrow> u64 \<Rightarrow> u64" where
  "json_u64_or j key fallback = (case json_u64 j key of None \<Rightarrow> fallback | Some v \<Rightarrow> v)"

definition json_bool_or :: "json \<Rightarrow> string \<Rightarrow> bool \<Rightarrow> bool" where
  "json_bool_or j key fallback = (case json_bool j key of None \<Rightarrow> fallback | Some v \<Rightarrow> v)"

text \<open>The check \<^verbatim>\<open>if (!x.has_value() || *x == 0)\<close> of the decoders.\<close>

definition positive :: "u64 option \<Rightarrow> u64 option" where
  "positive x = (case x of None \<Rightarrow> None | Some v \<Rightarrow> if v = 0 then None else Some v)"

text \<open>The check \<^verbatim>\<open>if (!u.has_value() || u->is_nil())\<close> of the decoders.\<close>

definition non_nil :: "Uuid128 option \<Rightarrow> Uuid128 option" where
  "non_nil x = (case x of None \<Rightarrow> None | Some u \<Rightarrow> if uuid_is_nil u then None else Some u)"

text \<open>An optional array field, decoded element by element.\<close>

definition optional_elements :: "json \<Rightarrow> string \<Rightarrow> (json \<Rightarrow> 'a Result) \<Rightarrow> 'a list Result" where
  "optional_elements j key dec =
     (case json_find j key of
        None \<Rightarrow> Inr []
      | Some a \<Rightarrow> if \<not> is_array a then Inl Malformed else map_result dec (map (json_at a) [0..<json_size a]))"

section \<open>Well-formed values\<close>

text \<open>Objects are maps: every object inside a well-formed value has strictly ascending keys.\<close>

fun json_wf :: "json \<Rightarrow> bool" where
  "json_wf (JArray xs) = (\<forall>x \<in> set xs. json_wf x)"
| "json_wf (JObject m) = (omap_wf m \<and> (\<forall>e \<in> set m. json_wf (snd e)))"
| "json_wf _ = True"

section \<open>Lemmas\<close>

lemma json_find_set [codec_simps]:
  "json_find (json_set j k v) k' = (if k' = k then Some v else json_find j k')"
  by (cases j) (auto simp: json_find_def json_set_def try_object_def Let_def)

lemma json_find_empty [codec_simps]: "json_find (JObject []) k = None"
  by (simp add: json_find_def try_object_def)

lemma is_object_set [codec_simps]: "is_object (json_set j k v)" "is_object (JObject m)"
  by (simp_all add: json_set_def is_object_def Let_def)

lemma json_reader_simps [codec_simps]:
  "try_string (JString s) = Some s"
  "try_u64 (JUInt w) = Some w"
  "try_bool (JBool b) = Some b"
  "try_array (JArray xs) = Some xs"
  "is_array (JArray xs)"
  by (simp_all add: try_string_def try_u64_def try_bool_def try_array_def is_array_def)

lemmas json_field_defs =
  json_string_def json_u64_def json_bool_def json_string_or_def json_u64_or_def json_bool_or_def

lemma positive_simps [codec_simps]:
  "positive None = None"
  "positive (Some v) = (if v = 0 then None else Some v)"
  by (simp_all add: positive_def)

lemma non_nil_simps [codec_simps]:
  "non_nil None = None"
  "non_nil (Some u) = (if uuid_is_nil u then None else Some u)"
  by (simp_all add: non_nil_def)

lemma positive_Some: "(positive x = Some v) = (x = Some v \<and> v \<noteq> 0)"
  by (auto simp: positive_def split: option.splits if_splits)

lemma json_wf_set: "json_wf j \<Longrightarrow> json_wf v \<Longrightarrow> json_wf (json_set j k v)"
  by (cases j) (auto simp: json_set_def Let_def dest!: set_omap_set [THEN subsetD])

lemma json_elements: "map (json_at (JArray xs)) [0..<json_size (JArray xs)] = xs"
  by (rule nth_equalityI) (simp_all add: json_at_def json_size_def try_array_def)

lemma u32_through_u64 [codec_simps]: "ucast (ucast (w :: u32) :: u64) = w"
  by (rule bit_word_eqI) (auto simp: bit_simps)

lemma ucast_u32_le [codec_simps]: "(ucast (w :: u32) :: u64) \<le> 0xFFFFFFFF"
proof -
  have "unat w < 2 ^ LENGTH(32)" by (rule unsigned_less)
  then show ?thesis by (simp add: word_le_nat_alt unsigned_ucast_eq take_bit_nat_eq_self)
qed

lemma ucast_u32_zero [codec_simps]: "((ucast (w :: u32) :: u64) = 0) = (w = 0)"
  by (metis u32_through_u64 ucast_0)

section \<open>Interface: record codecs\<close>

text \<open>
  Every durable record of the library has an encoder into JSON and a strict decoder. The contract is
  that decoding an encoding of a well-formed record gives the record back; what follows from it for
  arrays of records and for the injectivity of the encoding is proved once here.
\<close>

locale json_codec =
  fixes encode :: "'a \<Rightarrow> json"
    and decode :: "json \<Rightarrow> 'a Result"
    and wf :: "'a \<Rightarrow> bool"
  assumes round_trip: "wf x \<Longrightarrow> decode (encode x) = Inr x"
begin

lemma encode_injective: "wf x \<Longrightarrow> wf y \<Longrightarrow> encode x = encode y \<Longrightarrow> x = y"
  by (metis round_trip sum.inject(2))

lemma array_round_trip: "list_all wf xs \<Longrightarrow> map_result decode (map encode xs) = Inr xs"
  by (rule map_result_round_trip) (auto simp: round_trip list_all_iff)

end

end
