(* ===== verification/Text_Codec.thy ===== *)
theory Text_Codec
  imports Strong_Types
begin

text \<open>
  Decimal text as the standard library reads and writes it (\<^verbatim>\<open>std::to_string\<close>,
  \<^verbatim>\<open>std::to_chars\<close>, \<^verbatim>\<open>std::from_chars\<close> on unsigned integers), the overflow-checked decimal
  reader of \<^verbatim>\<open>src/ids.cpp\<close>, and the separator splitting shared by \<^verbatim>\<open>src/ids.cpp\<close> and
  \<^verbatim>\<open>src/versions.cpp\<close>.
\<close>

definition is_digit :: "char \<Rightarrow> bool" where
  "is_digit c = (48 \<le> (of_char c :: nat) \<and> (of_char c :: nat) \<le> 57)"

definition digit_value :: "char \<Rightarrow> nat" where
  "digit_value c = of_char c - 48"

definition digit_char :: "nat \<Rightarrow> char" where
  "digit_char d = char_of (48 + d)"

fun nat_to_string :: "nat \<Rightarrow> string" where
  "nat_to_string n =
     (if n < 10 then [digit_char n] else nat_to_string (n div 10) @ [digit_char (n mod 10)])"

declare nat_to_string.simps [simp del]

definition decimal_value :: "string \<Rightarrow> nat" where
  "decimal_value text = foldl (\<lambda>v c. v * 10 + digit_value c) 0 text"

text \<open>\<open>from_chars_all limit text\<close>: the whole text is one unsigned decimal not above \<open>limit\<close>.\<close>

definition from_chars_all :: "nat \<Rightarrow> string \<Rightarrow> nat option" where
  "from_chars_all limit text =
     (let digits = takeWhile is_digit text in
      if digits = [] then None
      else if decimal_value digits > limit then None
      else if digits \<noteq> text then None
      else Some (decimal_value digits))"

fun parse_u64_loop :: "string \<Rightarrow> u64 \<Rightarrow> u64 option" where
  "parse_u64_loop [] value = Some value"
| "parse_u64_loop (c # text) value =
     (if \<not> is_digit c then None
      else let digit = of_nat (digit_value c) :: u64 in
        if value > (- 1 - digit) div 10 then None
        else parse_u64_loop text (value * 10 + digit))"

definition parse_u64 :: "string \<Rightarrow> u64 option" where
  "parse_u64 text = (if text = [] \<or> length text > 20 then None else parse_u64_loop text 0)"

function split :: "string \<Rightarrow> char \<Rightarrow> string list" where
  "split text separator =
     (let part = takeWhile (\<lambda>c. c \<noteq> separator) text in
      case dropWhile (\<lambda>c. c \<noteq> separator) text of
        [] \<Rightarrow> [part]
      | _ # rest \<Rightarrow> part # split rest separator)"
  by pat_completeness auto
termination
proof (relation "measure (\<lambda>(text, separator). length text)")
  fix s :: string and separator :: char and x and y ys
  assume "dropWhile (\<lambda>c. c \<noteq> separator) s = y # ys"
  then have "length (y # ys) \<le> length s" by (metis length_dropWhile_le)
  then show "((ys, separator), (s, separator)) \<in> measure (\<lambda>(text, separator). length text)"
    by simp
qed simp

declare split.simps [simp del]

section \<open>Lemmas on decimals\<close>

lemma digit_char_simps [simp]:
  "d < 10 \<Longrightarrow> is_digit (digit_char d)" "d < 10 \<Longrightarrow> digit_value (digit_char d) = d"
  by (simp_all add: is_digit_def digit_value_def digit_char_def)

lemma decimal_value_Nil [simp]: "decimal_value [] = 0"
  by (simp add: decimal_value_def)

lemma decimal_value_snoc [simp]: "decimal_value (s @ [c]) = decimal_value s * 10 + digit_value c"
  by (simp add: decimal_value_def)

lemma decimal_value_nat_to_string [simp]: "decimal_value (nat_to_string n) = n"
proof (induction n rule: nat_to_string.induct)
  case (1 n)
  then show ?case
    by (cases "n < 10") (auto simp: nat_to_string.simps [of n] decimal_value_def)
qed

lemma nat_to_string_digits: "\<forall>c \<in> set (nat_to_string n). is_digit c"
proof (induction n rule: nat_to_string.induct)
  case (1 n)
  then show ?case by (cases "n < 10") (auto simp: nat_to_string.simps [of n])
qed

lemma nat_to_string_nonempty [simp]: "nat_to_string n \<noteq> []"
  by (subst nat_to_string.simps) simp

lemma length_nat_to_string: "n < 10 ^ k \<Longrightarrow> 0 < k \<Longrightarrow> length (nat_to_string n) \<le> k"
proof (induction k arbitrary: n)
  case 0
  then show ?case by simp
next
  case (Suc k)
  show ?case
  proof (cases "n < 10")
    case True
    then show ?thesis by (simp add: nat_to_string.simps [of n])
  next
    case False
    then have "k \<noteq> 0" using Suc.prems by (cases k) auto
    moreover have "n div 10 < 10 ^ k" using Suc.prems by (simp add: less_mult_imp_div_less mult.commute)
    ultimately have "length (nat_to_string (n div 10)) \<le> k" using Suc.IH by simp
    with False show ?thesis by (simp add: nat_to_string.simps [of n])
  qed
qed

lemma takeWhile_digits [simp]: "takeWhile is_digit (nat_to_string n) = nat_to_string n"
  by (simp add: takeWhile_eq_all_conv nat_to_string_digits)

lemma from_chars_all_nat_to_string: "n \<le> limit \<Longrightarrow> from_chars_all limit (nat_to_string n) = Some n"
  by (simp add: from_chars_all_def)

lemma from_chars_all_Some:
  "from_chars_all limit text = Some n \<Longrightarrow> n \<le> limit \<and> n = decimal_value text \<and> list_all is_digit text"
proof -
  assume a: "from_chars_all limit text = Some n"
  then have t: "takeWhile is_digit text = text"
    unfolding from_chars_all_def Let_def by (metis option.distinct(1))
  from a have "n \<le> limit \<and> n = decimal_value text"
    unfolding from_chars_all_def Let_def t by (auto split: if_splits)
  moreover from t have "list_all is_digit text"
    unfolding list_all_iff by (metis set_takeWhileD)
  ultimately show ?thesis by simp
qed

lemma decimal_value_append: "decimal_value (s @ t) = decimal_value s * 10 ^ length t + decimal_value t"
proof (induction t rule: rev_induct)
  case (snoc c t)
  then show ?case
    by (simp add: append_assoc [symmetric] algebra_simps del: append_assoc)
qed simp

lemma decimal_value_Cons: "decimal_value (c # t) = digit_value c * 10 ^ length t + decimal_value t"
  using decimal_value_append [of "[c]" t] by (simp add: decimal_value_def)

lemma digit_value_le: "is_digit c \<Longrightarrow> digit_value c \<le> 9"
  unfolding is_digit_def digit_value_def by linarith

text \<open>The overflow guard of the loop is exact: it refuses precisely when the step would wrap.\<close>

lemma parse_u64_step:
  assumes "d \<le> 9"
  shows "(value > (- 1 - of_nat d :: u64) div 10) = (2 ^ 64 \<le> unat value * 10 + d)"
proof -
  have d: "unat (of_nat d :: u64) = d" using assms by (simp add: unat_of_nat)
  have "unat (- 1 - of_nat d :: u64) = 2 ^ 64 - 1 - d"
    using assms d by (subst unat_sub) (simp_all add: word_le_nat_alt unsigned_minus_1_eq_mask mask_eq_exp_minus_1)
  then have "unat ((- 1 - of_nat d :: u64) div 10) = (2 ^ 64 - 1 - d) div 10"
    by (simp add: unat_div)
  then show ?thesis using assms by (simp add: word_less_nat_alt) arith
qed

lemma parse_u64_loop_exact:
  "list_all is_digit text \<Longrightarrow>
     parse_u64_loop text value =
       (let v = unat value * 10 ^ length text + decimal_value text in
        if v < 2 ^ 64 then Some (of_nat v) else None)"
proof (induction "text" arbitrary: "value")
  case Nil
  have "unat value < 2 ^ LENGTH(64)" by (rule unsigned_less)
  then show ?case by simp
next
  case (Cons c cs)
  let ?d = "digit_value c"
  have d: "?d \<le> 9" using Cons.prems by (simp add: digit_value_le)
  have split: "unat value * 10 ^ length (c # cs) + decimal_value (c # cs) =
      (unat value * 10 + ?d) * 10 ^ length cs + decimal_value cs"
    by (simp add: decimal_value_Cons algebra_simps)
  show ?case
  proof (cases "2 ^ 64 \<le> unat value * 10 + ?d")
    case True
    have "unat value * 10 + ?d \<le> (unat value * 10 + ?d) * 10 ^ length cs" by simp
    with True have "\<not> unat value * 10 ^ length (c # cs) + decimal_value (c # cs) < 2 ^ 64"
      unfolding split by linarith
    moreover have "value > (- 1 - of_nat ?d :: u64) div 10" using True d by (simp add: parse_u64_step)
    ultimately show ?thesis using Cons.prems by (simp add: Let_def)
  next
    case False
    then have u: "unat (value * 10 + of_nat ?d :: u64) = unat value * 10 + ?d"
      using d by (simp add: unat_word_ariths unat_of_nat mod_add_eq)
    have "\<not> value > (- 1 - of_nat ?d :: u64) div 10" using False d by (simp add: parse_u64_step)
    then have "parse_u64_loop (c # cs) value = parse_u64_loop cs (value * 10 + of_nat ?d)"
      using Cons.prems by (simp add: Let_def)
    with Cons u show ?thesis unfolding split by simp
  qed
qed

lemma parse_u64_loop_nondigit: "\<not> list_all is_digit text \<Longrightarrow> parse_u64_loop text value = None"
  by (induction "text" "value" rule: parse_u64_loop.induct) (auto simp: Let_def)

lemma parse_u64_exact:
  "parse_u64 text =
     (if text \<noteq> [] \<and> length text \<le> 20 \<and> list_all is_digit text \<and> decimal_value text < 2 ^ 64
      then Some (of_nat (decimal_value text)) else None)"
  by (cases "list_all is_digit text")
    (auto simp: parse_u64_def parse_u64_loop_exact parse_u64_loop_nondigit Let_def)

lemma parse_u64_round_trip: "parse_u64 (nat_to_string (unat w)) = Some w"
proof -
  have b: "unat w < 2 ^ LENGTH(64)" by (rule unsigned_less)
  then have "unat w < 10 ^ 20" by simp
  then have "length (nat_to_string (unat w)) \<le> 20" by (rule length_nat_to_string) simp
  with b show ?thesis
    by (simp add: parse_u64_exact list_all_iff nat_to_string_digits)
qed

section \<open>Lemmas on splitting\<close>

lemma split_no_separator: "separator \<notin> set text \<Longrightarrow> split text separator = [text]"
proof -
  assume a: "separator \<notin> set text"
  then have "takeWhile (\<lambda>c. c \<noteq> separator) text = text" "dropWhile (\<lambda>c. c \<noteq> separator) text = []"
    by (auto simp: takeWhile_eq_all_conv dropWhile_eq_Nil_conv)
  then show ?thesis unfolding split.simps [of "text"] Let_def by (simp only: list.case)
qed

lemma split_part:
  "separator \<notin> set part \<Longrightarrow> split (part @ separator # rest) separator = part # split rest separator"
proof -
  assume a: "separator \<notin> set part"
  then have "takeWhile (\<lambda>c. c \<noteq> separator) (part @ separator # rest) = part"
    "dropWhile (\<lambda>c. c \<noteq> separator) (part @ separator # rest) = separator # rest"
    by (auto simp: takeWhile_append dropWhile_append takeWhile_eq_all_conv dropWhile_eq_Nil_conv)
  then show ?thesis by (simp add: split.simps [of "part @ separator # rest"])
qed

lemma digits_not_separator: "\<not> is_digit separator \<Longrightarrow> separator \<notin> set (nat_to_string n)"
  using nat_to_string_digits by blast

end
