(* ===== verification/Ids.thy ===== *)
theory Ids
  imports Json_Model Text_Codec
begin

text \<open>
  Domain identities: \<^verbatim>\<open>include/fabric/evolution/ids.hpp\<close> and \<^verbatim>\<open>src/ids.cpp\<close>.
  Textual identities are their text, numeric identities their word, and the tags that keep them
  apart in C++ are the parameter types of the operations here.
\<close>

type_synonym ComponentId = string
type_synonym ShardId = string
type_synonym CampaignId = string
type_synonym ManifestId = string
type_synonym MigrationStepId = string
type_synonym EpochNumber = u64
type_synonym Generation = u64
type_synonym BootCounter = u64
type_synonym LogSequenceNumber = u64
type_synonym HandoffId = u64
type_synonym LeaseId = u64
type_synonym SnapshotId = u64
type_synonym FenceId = u64
type_synonym AttemptNumber = u32
type_synonym Revision = u64
type_synonym AuthorityToken = Uuid128
type_synonym IncarnationUuid = Uuid128

record IncarnationId =
  component :: ComponentId
  uuid :: IncarnationUuid
  boot :: BootCounter

record AuthorityClaim =
  claim_shard :: ShardId
  claim_incarnation :: IncarnationId
  claim_epoch :: EpochNumber
  claim_generation :: Generation
  claim_token :: AuthorityToken

definition incarnation_none :: IncarnationId where
  "incarnation_none = \<lparr>component = [], uuid = uuid_nil, boot = 0\<rparr>"

definition incarnation_is_valid :: "IncarnationId \<Rightarrow> bool" where
  "incarnation_is_valid i = (name_is_valid (component i) \<and> \<not> uuid_is_nil (uuid i) \<and> tagged_is_valid (boot i))"

definition claim_is_valid :: "AuthorityClaim \<Rightarrow> bool" where
  "claim_is_valid c =
     (name_is_valid (claim_shard c) \<and> incarnation_is_valid (claim_incarnation c) \<and>
      tagged_is_valid (claim_epoch c) \<and> tagged_is_valid (claim_generation c) \<and>
      \<not> uuid_is_nil (claim_token c))"

definition incarnation_to_string :: "IncarnationId \<Rightarrow> string" where
  "incarnation_to_string i =
     component i @ ''/'' @ nat_to_string (unat (boot i)) @ ''/'' @ to_compact_string (uuid i)"

definition incarnation_parse :: "string \<Rightarrow> IncarnationId option" where
  "incarnation_parse text =
     (case split text (CHR ''/'') of
        [p0, p1, p2] \<Rightarrow>
          (case (name_parse p0, positive (parse_u64 p1), non_nil (uuid_parse p2)) of
             (Some c, Some b, Some u) \<Rightarrow> Some \<lparr>component = c, uuid = u, boot = b\<rparr>
           | _ \<Rightarrow> None)
      | _ \<Rightarrow> None)"

section \<open>JSON encodings\<close>

definition name_from_json :: "json \<Rightarrow> string Result" where
  "name_from_json j =
     rbind (require (try_string j) Malformed) (\<lambda>text. require (name_parse text) Malformed)"

definition incarnation_to_json :: "IncarnationId \<Rightarrow> json" where
  "incarnation_to_json i =
     json_set (json_set (json_set (JObject [])
       ''component'' (JString (component i)))
       ''boot'' (JUInt (boot i)))
       ''uuid'' (JString (to_compact_string (uuid i)))"

definition incarnation_from_json :: "json \<Rightarrow> IncarnationId Result" where
  "incarnation_from_json j =
     rbind (guard (is_object j) Malformed) (\<lambda>_.
     rbind (require (json_find j ''component'') Malformed) (\<lambda>component_value.
     rbind (name_from_json component_value) (\<lambda>c.
     rbind (require (positive (json_u64 j ''boot'')) Malformed) (\<lambda>b.
     rbind (require (json_string j ''uuid'') Malformed) (\<lambda>uuid_text.
     rbind (require (non_nil (uuid_parse uuid_text)) Malformed) (\<lambda>u.
     Inr \<lparr>component = c, uuid = u, boot = b\<rparr>))))))"

definition claim_to_json :: "AuthorityClaim \<Rightarrow> json" where
  "claim_to_json c =
     json_set (json_set (json_set (json_set (json_set (JObject [])
       ''shard'' (JString (claim_shard c)))
       ''incarnation'' (incarnation_to_json (claim_incarnation c)))
       ''epoch'' (JUInt (claim_epoch c)))
       ''generation'' (JUInt (claim_generation c)))
       ''token'' (JString (to_compact_string (claim_token c)))"

definition authority_claim_from_json :: "json \<Rightarrow> AuthorityClaim Result" where
  "authority_claim_from_json j =
     rbind (guard (is_object j) Malformed) (\<lambda>_.
     rbind (require (json_find j ''shard'') Malformed) (\<lambda>shard_value.
     rbind (name_from_json shard_value) (\<lambda>s.
     rbind (require (json_find j ''incarnation'') Malformed) (\<lambda>incarnation_value.
     rbind (incarnation_from_json incarnation_value) (\<lambda>i.
     rbind (require (positive (json_u64 j ''epoch'')) Malformed) (\<lambda>e.
     rbind (require (positive (json_u64 j ''generation'')) Malformed) (\<lambda>g.
     rbind (require (json_string j ''token'') Malformed) (\<lambda>token_text.
     rbind (require (non_nil (uuid_parse token_text)) Malformed) (\<lambda>t.
     Inr \<lparr>claim_shard = s, claim_incarnation = i, claim_epoch = e, claim_generation = g,
          claim_token = t\<rparr>)))))))))"

section \<open>Well-formedness\<close>

text \<open>What validation at the boundary establishes for identities that exist in the domain.\<close>

definition uuid_ok :: "Uuid128 \<Rightarrow> bool" where
  "uuid_ok u = (uuid_wf u \<and> \<not> uuid_is_nil u)"

definition incarnation_wf :: "IncarnationId \<Rightarrow> bool" where
  "incarnation_wf i = (name_is_valid_text (component i) \<and> uuid_ok (uuid i) \<and> boot i \<noteq> 0)"

definition claim_wf :: "AuthorityClaim \<Rightarrow> bool" where
  "claim_wf c =
     (name_is_valid_text (claim_shard c) \<and> incarnation_wf (claim_incarnation c) \<and>
      claim_epoch c \<noteq> 0 \<and> claim_generation c \<noteq> 0 \<and> uuid_ok (claim_token c))"

section \<open>Lemmas\<close>

lemma name_from_json_JString [codec_simps]:
  "name_from_json (JString t) = require (name_parse t) Malformed"
  by (simp add: name_from_json_def try_string_def)

lemma uuid_ok_parse [codec_simps]: "uuid_ok u \<Longrightarrow> non_nil (uuid_parse (to_compact_string u)) = Some u"
  by (simp add: uuid_ok_def uuid_parse_compact non_nil_def)

lemma incarnation_json_round_trip [codec_simps]:
  "incarnation_wf i \<Longrightarrow> incarnation_from_json (incarnation_to_json i) = Inr i"
  by (simp add: incarnation_from_json_def incarnation_to_json_def incarnation_wf_def codec_simps
      json_field_defs name_parse_valid)

lemma claim_json_round_trip:
  "claim_wf c \<Longrightarrow> authority_claim_from_json (claim_to_json c) = Inr c"
  by (simp add: authority_claim_from_json_def claim_to_json_def claim_wf_def codec_simps
      json_field_defs name_parse_valid)

interpretation incarnation_codec: json_codec incarnation_to_json incarnation_from_json incarnation_wf
  by unfold_locales (rule incarnation_json_round_trip)

interpretation claim_codec: json_codec claim_to_json authority_claim_from_json claim_wf
  by unfold_locales (rule claim_json_round_trip)

lemma uuid_parse_length: "uuid_parse t = Some u \<Longrightarrow> uuid_wf u"
  by (auto simp: uuid_parse_def uuid_wf_def split: option.splits if_splits)

lemma incarnation_from_json_wf: "incarnation_from_json j = Inr i \<Longrightarrow> incarnation_wf i"
  by (auto simp: incarnation_from_json_def name_from_json_def incarnation_wf_def uuid_ok_def
      positive_def non_nil_def split: option.splits if_splits
      dest: name_parse_Some uuid_parse_length)

lemma claim_from_json_wf: "authority_claim_from_json j = Inr c \<Longrightarrow> claim_wf c"
  by (auto simp: authority_claim_from_json_def name_from_json_def claim_wf_def uuid_ok_def
      positive_def non_nil_def split: option.splits if_splits
      dest: name_parse_Some uuid_parse_length incarnation_from_json_wf)

lemma decode_never_ok [simp]:
  "name_from_json j \<noteq> Inl Ok" "incarnation_from_json j \<noteq> Inl Ok" "authority_claim_from_json j \<noteq> Inl Ok"
  by (auto simp: name_from_json_def incarnation_from_json_def authority_claim_from_json_def rbind_eq_Inl)

lemma incarnation_wf_valid: "incarnation_wf i \<Longrightarrow> incarnation_is_valid i"
  by (auto simp: incarnation_wf_def incarnation_is_valid_def uuid_ok_def name_is_valid_def
      tagged_is_valid_def name_is_valid_text_def)

lemma name_no_slash: "name_is_valid_text t \<Longrightarrow> CHR ''/'' \<notin> set t"
proof -
  assume "name_is_valid_text t"
  then have "list_all is_valid_char t" by (auto simp: name_is_valid_text_def split: list.splits)
  moreover have "\<not> is_valid_char (CHR ''/'')" by (simp add: is_valid_char_def)
  ultimately show ?thesis by (auto simp: list_all_iff)
qed

lemma hex_no_slash: "CHR ''/'' \<notin> set (to_compact_string u)"
proof -
  have d: "n < 16 \<Longrightarrow> kHexDigits ! n \<noteq> CHR ''/''" for n
    by (auto simp: less_Suc_eq numeral_eq_Suc kHexDigits_def)
  have "CHR ''/'' \<notin> set (hex_of_byte b)" for b
    using d [OF unat_nibble [of "drop_bit 4 b"]] d [OF unat_nibble [of b]] by (auto simp: hex_of_byte_def)
  then show ?thesis by (auto simp: to_compact_string_def)
qed

lemma incarnation_string_round_trip:
  assumes "incarnation_wf i"
  shows "incarnation_parse (incarnation_to_string i) = Some i"
proof -
  have "split (incarnation_to_string i) (CHR ''/'') =
      [component i, nat_to_string (unat (boot i)), to_compact_string (uuid i)]"
    using assms
    by (simp add: incarnation_to_string_def split_part split_no_separator name_no_slash hex_no_slash
        digits_not_separator is_digit_def incarnation_wf_def)
  with assms show ?thesis
    by (simp add: incarnation_parse_def incarnation_wf_def name_parse_valid parse_u64_round_trip
        codec_simps)
qed

end
