(* ===== verification/Authority.thy ===== *)
theory Authority
  imports Ids
begin

text \<open>
  Authority leases, fencing and the per-shard authority registry:
  \<^verbatim>\<open>include/fabric/evolution/authority.hpp\<close> and \<^verbatim>\<open>src/authority.cpp\<close>. An operation that
  reads the clock takes the reading as an argument; \<open>grant\<close> reads it twice (once for itself, once
  inside \<^verbatim>\<open>active_mutating\<close>) and takes both readings. The token a grant mints is an argument.
  This theory holds the data and the operations; \<^verbatim>\<open>Authority_Props\<close> holds the theorems.
\<close>

section \<open>Data\<close>

datatype AuthorityMode = ModeNone | ReadOnlyShared | Mutating

datatype LeaseState = Active | Fencing | Fenced | Expired | Revoked

record AuthorityLease =
  lease_id :: LeaseId
  lease_shard :: ShardId
  lease_holder :: IncarnationId
  lease_epoch :: EpochNumber
  lease_generation :: Generation
  lease_token :: AuthorityToken
  lease_mode :: AuthorityMode
  lease_state :: LeaseState
  issued_at_ms :: TimestampMs
  expires_at_ms :: TimestampMs
  attested :: bool
  attestation_seq :: u64
  lease_campaign :: CampaignId
  lease_handoff :: HandoffId
  lease_reason :: string

record FenceRecord =
  fence_id :: FenceId
  fence_shard :: ShardId
  fence_target :: IncarnationId
  fence_epoch :: EpochNumber
  fence_generation :: Generation
  fenced_lease :: LeaseId
  fence_issued_at_ms :: TimestampMs
  acknowledged_at_ms :: TimestampMs
  acknowledged :: bool
  fence_reason :: string

record GrantRequest =
  req_shard :: ShardId
  req_holder :: IncarnationId
  req_mode :: AuthorityMode
  req_ttl_ms :: u64
  req_campaign :: CampaignId
  req_handoff :: HandoffId
  req_reason :: string

record AuthorityView =
  view_shard :: ShardId
  view_epoch :: EpochNumber
  view_generation :: Generation
  view_mutating :: "AuthorityLease option"
  view_slot_holder :: "AuthorityLease option"
  view_read_only :: "AuthorityLease list"
  view_fences :: "FenceRecord list"

record ShardAuthority =
  sa_shard :: ShardId
  sa_epoch :: EpochNumber
  sa_generation :: Generation
  leases :: "AuthorityLease list"
  fences :: "FenceRecord list"
  next_lease_id :: LeaseId
  next_fence_id :: FenceId

record AuthorityRegistry =
  shards :: "(ShardId, ShardAuthority) omap"
  reg_next_lease_id :: LeaseId
  reg_next_fence_id :: FenceId

definition kMaxLeaseTtlMs :: u64 where
  "kMaxLeaseTtlMs = 24 * 60 * 60 * 1000"

definition kMaxLeaseHistoryPerShard :: nat where
  "kMaxLeaseHistoryPerShard = 256"

definition kMaxFenceHistoryPerShard :: nat where
  "kMaxFenceHistoryPerShard = 256"

definition kMaxReadOnlyLeasesPerShard :: nat where
  "kMaxReadOnlyLeasesPerShard = 8"

section \<open>Names, modes and lease states\<close>

fun mode_name :: "AuthorityMode \<Rightarrow> string" where
  "mode_name ModeNone = ''none''"
| "mode_name ReadOnlyShared = ''read_only_shared''"
| "mode_name Mutating = ''mutating''"

definition mode_from_name :: "string \<Rightarrow> AuthorityMode option" where
  "mode_from_name name =
     (if name = ''none'' then Some ModeNone
      else if name = ''read_only_shared'' then Some ReadOnlyShared
      else if name = ''mutating'' then Some Mutating
      else None)"

fun lease_state_name :: "LeaseState \<Rightarrow> string" where
  "lease_state_name Active = ''active''"
| "lease_state_name Fencing = ''fencing''"
| "lease_state_name Fenced = ''fenced''"
| "lease_state_name Expired = ''expired''"
| "lease_state_name Revoked = ''revoked''"

definition lease_state_from_name :: "string \<Rightarrow> LeaseState option" where
  "lease_state_from_name name =
     (if name = ''active'' then Some Active
      else if name = ''fencing'' then Some Fencing
      else if name = ''fenced'' then Some Fenced
      else if name = ''expired'' then Some Expired
      else if name = ''revoked'' then Some Revoked
      else None)"

definition effective_state :: "AuthorityLease \<Rightarrow> TimestampMs \<Rightarrow> LeaseState" where
  "effective_state lease now =
     (if (lease_state lease = Active \<or> lease_state lease = Fencing) \<and> now \<ge> expires_at_ms lease
      then Expired else lease_state lease)"

definition blocks_mutation_slot :: "AuthorityLease \<Rightarrow> TimestampMs \<Rightarrow> bool" where
  "blocks_mutation_slot lease now =
     (lease_mode lease = Mutating \<and> effective_state lease now \<noteq> Fenced \<and>
      effective_state lease now \<noteq> Expired \<and> effective_state lease now \<noteq> Revoked)"

definition authority_allows_mutation :: "AuthorityMode \<Rightarrow> bool" where
  "authority_allows_mutation mode = (mode = Mutating)"

definition authority_allows_read :: "AuthorityMode \<Rightarrow> bool" where
  "authority_allows_read mode = (mode = Mutating \<or> mode = ReadOnlyShared)"

definition is_live :: "AuthorityLease \<Rightarrow> TimestampMs \<Rightarrow> bool" where
  "is_live lease now = (lease_state lease = Active \<and> now < expires_at_ms lease)"

definition authorizes_mutation :: "AuthorityLease \<Rightarrow> TimestampMs \<Rightarrow> bool" where
  "authorizes_mutation lease now = (is_live lease now \<and> attested lease \<and> lease_mode lease = Mutating)"

definition authorizes_read :: "AuthorityLease \<Rightarrow> TimestampMs \<Rightarrow> bool" where
  "authorizes_read lease now = (is_live lease now \<and> attested lease \<and> authority_allows_read (lease_mode lease))"

section \<open>Token sources\<close>

definition rotl64 :: "u64 \<Rightarrow> nat \<Rightarrow> u64" where
  "rotl64 value shift = push_bit shift value OR drop_bit (64 - shift) value"

definition bytes_le64 :: "u64 \<Rightarrow> u8 list" where
  "bytes_le64 w = map (\<lambda>i. ucast (drop_bit (8 * i) w AND 0xFF)) [0..<8]"

text \<open>The xoshiro256** generator; its state is the four words \<^verbatim>\<open>state_[0..3]\<close>.\<close>

definition random_next_token :: "u64 \<times> u64 \<times> u64 \<times> u64 \<Rightarrow> (u64 \<times> u64 \<times> u64 \<times> u64) \<times> AuthorityToken" where
  "random_next_token st =
     (let (s0, s1, s2, s3) = st;
          result = rotl64 (s1 * 5) 7 * 9;
          temp = push_bit 17 s1;
          s2 = s2 XOR s0;
          s3 = s3 XOR s1;
          s1 = s1 XOR s2;
          s0 = s0 XOR s3;
          s2 = s2 XOR temp;
          s3 = rotl64 s3 45;
          high = result;
          low = rotl64 (s0 + s3) 23
      in ((s0, s1, s2, s3), bytes_le64 high @ bytes_le64 low))"

definition splitmix64_mix :: "u64 \<Rightarrow> u64" where
  "splitmix64_mix z0 =
     (let z1 = (z0 XOR drop_bit 30 z0) * 0xBF58476D1CE4E5B9;
          z2 = (z1 XOR drop_bit 27 z1) * 0x94D049BB133111EB
      in z2 XOR drop_bit 31 z2)"

definition seeded_next_token :: "u64 \<Rightarrow> u64 \<times> AuthorityToken" where
  "seeded_next_token state =
     (let s1 = state + 0x9E3779B97F4A7C15;
          first = splitmix64_mix s1;
          s2 = s1 + 0x9E3779B97F4A7C15;
          second = splitmix64_mix s2;
          value = bytes_le64 first @ bytes_le64 second
      in (s2, if uuid_is_nil value then replicate 15 0 @ [1] else value))"

section \<open>Registry operations\<close>

definition find_shard :: "AuthorityRegistry \<Rightarrow> ShardId \<Rightarrow> ShardAuthority option" where
  "find_shard r shard = omap_find shard (shards r)"

definition put_shard :: "AuthorityRegistry \<Rightarrow> ShardId \<Rightarrow> ShardAuthority \<Rightarrow> AuthorityRegistry" where
  "put_shard r shard a = r\<lparr>shards := omap_set shard a (shards r)\<rparr>"

definition has_shard :: "AuthorityRegistry \<Rightarrow> ShardId \<Rightarrow> bool" where
  "has_shard r shard = (find_shard r shard \<noteq> None)"

definition shard_ids :: "AuthorityRegistry \<Rightarrow> ShardId list" where
  "shard_ids r = map fst (shards r)"

definition current_epoch :: "AuthorityRegistry \<Rightarrow> ShardId \<Rightarrow> EpochNumber option" where
  "current_epoch r shard = map_option sa_epoch (find_shard r shard)"

definition current_generation :: "AuthorityRegistry \<Rightarrow> ShardId \<Rightarrow> Generation option" where
  "current_generation r shard = map_option sa_generation (find_shard r shard)"

definition active_mutating :: "ShardAuthority \<Rightarrow> TimestampMs \<Rightarrow> AuthorityLease option" where
  "active_mutating a now = List.find (\<lambda>l. blocks_mutation_slot l now) (leases a)"

text \<open>The newest unacknowledged fence, unless the lease it fences has expired.\<close>

definition pending_fence :: "ShardAuthority \<Rightarrow> TimestampMs \<Rightarrow> FenceRecord option" where
  "pending_fence a now =
     (case List.find (\<lambda>f. \<not> acknowledged f) (rev (fences a)) of
        None \<Rightarrow> None
      | Some f \<Rightarrow>
          if list_ex (\<lambda>l. lease_id l = fenced_lease f \<and> effective_state l now = Expired) (leases a)
          then None else Some f)"

definition expire_lease :: "TimestampMs \<Rightarrow> AuthorityLease \<Rightarrow> AuthorityLease" where
  "expire_lease now lease =
     (if (lease_state lease = Active \<or> lease_state lease = Fencing) \<and> now \<ge> expires_at_ms lease
      then lease\<lparr>lease_state := Expired\<rparr> else lease)"

definition expire_in_place :: "ShardAuthority \<Rightarrow> TimestampMs \<Rightarrow> ShardAuthority" where
  "expire_in_place a now = a\<lparr>leases := map (expire_lease now) (leases a)\<rparr>"

definition establish :: "ShardId \<Rightarrow> EpochNumber \<Rightarrow> AuthorityRegistry \<Rightarrow> AuthorityRegistry \<times> Status" where
  "establish shard epoch r =
     (if \<not> name_is_valid shard then (r, InvalidArgument)
      else if \<not> tagged_is_valid epoch then (r, InvalidArgument)
      else if find_shard r shard \<noteq> None then (r, AlreadyExists)
      else (put_shard r shard
              \<lparr>sa_shard = shard, sa_epoch = epoch, sa_generation = 1, leases = [], fences = [],
               next_lease_id = 1, next_fence_id = 1\<rparr>, Ok))"

text \<open>Renewal by the incumbent inside \<^verbatim>\<open>grant\<close>: same token and generation, later expiry.\<close>

definition renewed_by_grant :: "TimestampMs \<Rightarrow> GrantRequest \<Rightarrow> AuthorityLease \<Rightarrow> AuthorityLease" where
  "renewed_by_grant now req lease =
     lease\<lparr>expires_at_ms := now + req_ttl_ms req, attestation_seq := attestation_seq lease + 1,
           attested := True, lease_reason := req_reason req\<rparr>"

definition new_lease :: "TimestampMs \<Rightarrow> AuthorityToken \<Rightarrow> GrantRequest \<Rightarrow> ShardAuthority \<Rightarrow> AuthorityLease" where
  "new_lease now tok req a =
     \<lparr>lease_id = next_lease_id a, lease_shard = req_shard req, lease_holder = req_holder req,
      lease_epoch = sa_epoch a, lease_generation = sa_generation a, lease_token = tok,
      lease_mode = req_mode req, lease_state = Active, issued_at_ms = now,
      expires_at_ms = now + req_ttl_ms req, attested = True, attestation_seq = 1,
      lease_campaign = req_campaign req, lease_handoff = req_handoff req,
      lease_reason = req_reason req\<rparr>"

text \<open>The second half of \<^verbatim>\<open>grant\<close>: read-only quota or new generation, then the new lease.\<close>

definition issue_lease ::
  "TimestampMs \<Rightarrow> AuthorityToken \<Rightarrow> GrantRequest \<Rightarrow> ShardAuthority \<Rightarrow> ShardAuthority \<times> AuthorityLease Result" where
  "issue_lease now tok req a =
     (case tagged_next (next_lease_id a) of
        None \<Rightarrow> (a, Inl BoundsExceeded)
      | Some next_id \<Rightarrow>
          let lease = new_lease now tok req a in
          (a\<lparr>next_lease_id := next_id,
             leases := push_bounded kMaxLeaseHistoryPerShard (leases a) lease\<rparr>, Inr lease))"

definition grant_fresh ::
  "TimestampMs \<Rightarrow> AuthorityToken \<Rightarrow> GrantRequest \<Rightarrow> ShardAuthority \<Rightarrow> ShardAuthority \<times> AuthorityLease Result" where
  "grant_fresh now tok req a =
     (if req_mode req = ReadOnlyShared then
        (if length (filter (\<lambda>l. lease_mode l = ReadOnlyShared \<and> effective_state l now = Active) (leases a))
            \<ge> kMaxReadOnlyLeasesPerShard
         then (a, Inl ResourceExhausted)
         else issue_lease now tok req a)
      else
        (case tagged_next (sa_generation a) of
           None \<Rightarrow> (a, Inl BoundsExceeded)
         | Some g \<Rightarrow> issue_lease now tok req (a\<lparr>sa_generation := g\<rparr>)))"

definition grant_mutating ::
  "TimestampMs \<Rightarrow> TimestampMs \<Rightarrow> AuthorityToken \<Rightarrow> GrantRequest \<Rightarrow> ShardAuthority \<Rightarrow>
     ShardAuthority \<times> AuthorityLease Result" where
  "grant_mutating now now' tok req a =
     (case active_mutating a now' of
        Some blocker \<Rightarrow>
          (if lease_holder blocker = req_holder req \<and> effective_state blocker now = Active then
             (case List.find (\<lambda>l. lease_id l = lease_id blocker) (leases a) of
                Some lease \<Rightarrow>
                  (a\<lparr>leases := update_first (\<lambda>l. lease_id l = lease_id blocker)
                       (renewed_by_grant now req) (leases a)\<rparr>, Inr (renewed_by_grant now req lease))
              | None \<Rightarrow> (a, Inl AuthorityConflict))
           else (a, Inl AuthorityConflict))
      | None \<Rightarrow> grant_fresh now tok req a)"

definition grant_shared ::
  "TimestampMs \<Rightarrow> AuthorityToken \<Rightarrow> GrantRequest \<Rightarrow> ShardAuthority \<Rightarrow> ShardAuthority \<times> AuthorityLease Result" where
  "grant_shared now tok req a =
     (let own = (\<lambda>l. lease_holder l = req_holder req \<and> lease_mode l = req_mode req \<and>
                     effective_state l now = Active)
      in case List.find own (leases a) of
           Some lease \<Rightarrow>
             (a\<lparr>leases := update_first own (renewed_by_grant now req) (leases a)\<rparr>,
              Inr (renewed_by_grant now req lease))
         | None \<Rightarrow> grant_fresh now tok req a)"

definition grant_shard ::
  "TimestampMs \<Rightarrow> TimestampMs \<Rightarrow> AuthorityToken \<Rightarrow> GrantRequest \<Rightarrow> ShardAuthority \<Rightarrow>
     ShardAuthority \<times> AuthorityLease Result" where
  "grant_shard now now' tok req a =
     (if \<not> incarnation_is_valid (req_holder req) then (a, Inl InvalidArgument)
      else if req_ttl_ms req = 0 then (a, Inl InvalidArgument)
      else if req_ttl_ms req > kMaxLeaseTtlMs then (a, Inl BoundsExceeded)
      else if req_mode req = Mutating then grant_mutating now now' tok req (expire_in_place a now)
      else grant_shared now tok req (expire_in_place a now))"

definition grant ::
  "TimestampMs \<Rightarrow> TimestampMs \<Rightarrow> AuthorityToken \<Rightarrow> GrantRequest \<Rightarrow> AuthorityRegistry \<Rightarrow>
     AuthorityRegistry \<times> AuthorityLease Result" where
  "grant now now' tok req r =
     (case find_shard r (req_shard req) of
        None \<Rightarrow> (r, Inl NotFound)
      | Some a \<Rightarrow>
          let (a', res) = grant_shard now now' tok req a in (put_shard r (req_shard req) a', res))"

definition renew_shard :: "TimestampMs \<Rightarrow> LeaseId \<Rightarrow> u64 \<Rightarrow> ShardAuthority \<Rightarrow> ShardAuthority \<times> Status" where
  "renew_shard now lid ttl a =
     (if ttl = 0 \<or> ttl > kMaxLeaseTtlMs then (a, BoundsExceeded)
      else
        let a1 = expire_in_place a now in
        case List.find (\<lambda>l. lease_id l = lid) (leases a1) of
          None \<Rightarrow> (a1, NotFound)
        | Some lease \<Rightarrow>
            if lease_state lease \<noteq> Active then (a1, StaleAuthority)
            else (a1\<lparr>leases := update_first (\<lambda>l. lease_id l = lid)
                    (\<lambda>l. l\<lparr>expires_at_ms := now + ttl, attestation_seq := attestation_seq l + 1\<rparr>)
                    (leases a1)\<rparr>, Ok))"

definition fence_target_lease :: "IncarnationId \<Rightarrow> TimestampMs \<Rightarrow> AuthorityLease \<Rightarrow> bool" where
  "fence_target_lease tgt now l =
     (lease_holder l = tgt \<and> lease_mode l = Mutating \<and> effective_state l now = Active)"

definition new_fence ::
  "TimestampMs \<Rightarrow> ShardId \<Rightarrow> IncarnationId \<Rightarrow> string \<Rightarrow> Generation \<Rightarrow> LeaseId \<Rightarrow> ShardAuthority \<Rightarrow> FenceRecord" where
  "new_fence now shard tgt reason g lid a =
     \<lparr>fence_id = next_fence_id a, fence_shard = shard, fence_target = tgt, fence_epoch = sa_epoch a,
      fence_generation = g, fenced_lease = lid, fence_issued_at_ms = now, acknowledged_at_ms = 0,
      acknowledged = False, fence_reason = reason\<rparr>"

definition request_fence_shard ::
  "TimestampMs \<Rightarrow> ShardId \<Rightarrow> IncarnationId \<Rightarrow> string \<Rightarrow> ShardAuthority \<Rightarrow> ShardAuthority \<times> Status" where
  "request_fence_shard now shard tgt reason a =
     (if \<not> incarnation_is_valid tgt then (a, InvalidArgument)
      else
        let a1 = expire_in_place a now in
        if list_ex (\<lambda>f. \<not> acknowledged f \<and> fence_target f = tgt) (fences a1) then (a1, DuplicateFrame)
        else
          case List.find (fence_target_lease tgt now) (leases a1) of
            None \<Rightarrow> (a1, NotFound)
          | Some holder \<Rightarrow>
              (case tagged_next (sa_generation a1) of
                 None \<Rightarrow> (a1, BoundsExceeded)
               | Some g \<Rightarrow>
                   (case tagged_next (next_fence_id a1) of
                      None \<Rightarrow> (a1, BoundsExceeded)
                    | Some next_fid \<Rightarrow>
                        (a1\<lparr>sa_generation := g, next_fence_id := next_fid,
                            leases := update_first (fence_target_lease tgt now)
                              (\<lambda>l. l\<lparr>lease_state := Fencing\<rparr>) (leases a1),
                            fences := push_bounded kMaxFenceHistoryPerShard (fences a1)
                              (new_fence now shard tgt reason g (lease_id holder) a1)\<rparr>, Ok))))"

definition acknowledge_fence_shard ::
  "TimestampMs \<Rightarrow> IncarnationId \<Rightarrow> FenceId \<Rightarrow> ShardAuthority \<Rightarrow> ShardAuthority \<times> Status" where
  "acknowledge_fence_shard now holder fid a =
     (case List.find (\<lambda>f. fence_id f = fid) (fences a) of
        None \<Rightarrow> (a, NotFound)
      | Some fence \<Rightarrow>
          if fence_target fence \<noteq> holder then (a, StaleIncarnation)
          else if acknowledged fence then (a, Ok)
          else (a\<lparr>fences := update_first (\<lambda>f. fence_id f = fid)
                     (\<lambda>f. f\<lparr>acknowledged := True, acknowledged_at_ms := now\<rparr>) (fences a),
                  leases := map (\<lambda>l. if lease_id l = fenced_lease fence \<and> lease_state l = Fencing
                                     then l\<lparr>lease_state := Fenced\<rparr> else l) (leases a)\<rparr>, Ok))"

definition revoke_shard :: "LeaseId \<Rightarrow> string \<Rightarrow> ShardAuthority \<Rightarrow> ShardAuthority \<times> Status" where
  "revoke_shard lid reason a =
     (case List.find (\<lambda>l. lease_id l = lid) (leases a) of
        None \<Rightarrow> (a, NotFound)
      | Some _ \<Rightarrow>
          (a\<lparr>leases := update_first (\<lambda>l. lease_id l = lid)
               (\<lambda>l. l\<lparr>lease_state := Revoked, lease_reason := reason\<rparr>) (leases a)\<rparr>, Ok))"

definition reattest_shard ::
  "TimestampMs \<Rightarrow> IncarnationId \<Rightarrow> AuthorityToken \<Rightarrow> ShardAuthority \<Rightarrow> ShardAuthority \<times> Status" where
  "reattest_shard now holder tok a =
     (let a1 = expire_in_place a now;
          own = (\<lambda>l. lease_holder l = holder \<and> lease_token l = tok)
      in case List.find own (leases a1) of
           None \<Rightarrow> (a1, StaleAuthority)
         | Some lease \<Rightarrow>
             if lease_state lease \<noteq> Active then (a1, StaleAuthority)
             else if now \<ge> expires_at_ms lease then (a1, StaleAuthority)
             else (a1\<lparr>leases := update_first own
                     (\<lambda>l. l\<lparr>attested := True, attestation_seq := attestation_seq l + 1\<rparr>)
                     (leases a1)\<rparr>, Ok))"

definition advance_epoch_shard :: "EpochNumber \<Rightarrow> ShardAuthority \<Rightarrow> ShardAuthority \<times> Status" where
  "advance_epoch_shard epoch a =
     (if \<not> tagged_is_valid epoch \<or> epoch \<le> sa_epoch a then (a, StaleEpoch)
      else (a\<lparr>sa_epoch := epoch, sa_generation := 1,
              leases := map (\<lambda>l. if lease_state l = Active \<or> lease_state l = Fencing
                                 then l\<lparr>lease_state := Revoked,
                                        lease_reason := ''revoked by epoch advance''\<rparr>
                                 else l) (leases a)\<rparr>, Ok))"

text \<open>The lookup every shard operation starts with, and the write-back through the pointer.\<close>

definition with_shard ::
  "ShardId \<Rightarrow> (ShardAuthority \<Rightarrow> ShardAuthority \<times> Status) \<Rightarrow> AuthorityRegistry \<Rightarrow> AuthorityRegistry \<times> Status" where
  "with_shard shard f r =
     (case find_shard r shard of
        None \<Rightarrow> (r, NotFound)
      | Some a \<Rightarrow> let (a', s) = f a in (put_shard r shard a', s))"

definition renew :: "TimestampMs \<Rightarrow> ShardId \<Rightarrow> LeaseId \<Rightarrow> u64 \<Rightarrow> AuthorityRegistry \<Rightarrow> AuthorityRegistry \<times> Status" where
  "renew now shard lid ttl = with_shard shard (renew_shard now lid ttl)"

definition request_fence ::
  "TimestampMs \<Rightarrow> ShardId \<Rightarrow> IncarnationId \<Rightarrow> string \<Rightarrow> AuthorityRegistry \<Rightarrow> AuthorityRegistry \<times> Status" where
  "request_fence now shard tgt reason = with_shard shard (request_fence_shard now shard tgt reason)"

definition acknowledge_fence ::
  "TimestampMs \<Rightarrow> ShardId \<Rightarrow> IncarnationId \<Rightarrow> FenceId \<Rightarrow> AuthorityRegistry \<Rightarrow> AuthorityRegistry \<times> Status" where
  "acknowledge_fence now shard holder fid = with_shard shard (acknowledge_fence_shard now holder fid)"

definition revoke :: "ShardId \<Rightarrow> LeaseId \<Rightarrow> string \<Rightarrow> AuthorityRegistry \<Rightarrow> AuthorityRegistry \<times> Status" where
  "revoke shard lid reason = with_shard shard (revoke_shard lid reason)"

definition reattest ::
  "TimestampMs \<Rightarrow> ShardId \<Rightarrow> IncarnationId \<Rightarrow> AuthorityToken \<Rightarrow> AuthorityRegistry \<Rightarrow> AuthorityRegistry \<times> Status" where
  "reattest now shard holder tok = with_shard shard (reattest_shard now holder tok)"

definition advance_epoch :: "ShardId \<Rightarrow> EpochNumber \<Rightarrow> AuthorityRegistry \<Rightarrow> AuthorityRegistry \<times> Status" where
  "advance_epoch shard epoch = with_shard shard (advance_epoch_shard epoch)"

definition expire_due :: "TimestampMs \<Rightarrow> AuthorityRegistry \<Rightarrow> AuthorityRegistry \<times> Status" where
  "expire_due now r = (r\<lparr>shards := map (\<lambda>(k, a). (k, expire_in_place a now)) (shards r)\<rparr>, Ok)"

definition registry_clear :: "AuthorityRegistry \<Rightarrow> AuthorityRegistry" where
  "registry_clear r = r\<lparr>shards := []\<rparr>"

definition claim_lease :: "AuthorityClaim \<Rightarrow> AuthorityLease \<Rightarrow> bool" where
  "claim_lease claim l = (\<not> (lease_holder l \<noteq> claim_incarnation claim \<or> lease_token l \<noteq> claim_token claim))"

definition validate_claim :: "TimestampMs \<Rightarrow> AuthorityClaim \<Rightarrow> AuthorityMode \<Rightarrow> AuthorityRegistry \<Rightarrow> Status" where
  "validate_claim now claim required r =
     (case find_shard r (claim_shard claim) of
        None \<Rightarrow> NotFound
      | Some a \<Rightarrow>
          if \<not> claim_is_valid claim then InvalidArgument
          else if claim_epoch claim \<noteq> sa_epoch a then StaleEpoch
          else if claim_generation claim \<noteq> sa_generation a then StaleGeneration
          else
            case List.find (claim_lease claim) (leases a) of
              None \<Rightarrow> StaleAuthority
            | Some lease \<Rightarrow>
                if effective_state lease now \<noteq> Active then StaleAuthority
                else if \<not> attested lease then StaleAuthority
                else if authority_allows_mutation required \<and> \<not> authority_allows_mutation (lease_mode lease)
                then NotAuthoritative
                else if authority_allows_read required \<and> \<not> authority_allows_read (lease_mode lease)
                then NotAuthoritative
                else Ok)"

definition view_step :: "TimestampMs \<Rightarrow> AuthorityView \<Rightarrow> AuthorityLease \<Rightarrow> AuthorityView" where
  "view_step now out lease =
     (let copy = lease\<lparr>lease_state := effective_state lease now\<rparr> in
      if lease_mode copy = Mutating \<and> lease_state copy = Active
      then out\<lparr>view_mutating := Some copy, view_slot_holder := Some copy\<rparr>
      else if lease_mode copy = Mutating \<and> lease_state copy = Fencing
      then out\<lparr>view_slot_holder := Some copy\<rparr>
      else if lease_mode copy = ReadOnlyShared \<and> lease_state copy = Active
      then out\<lparr>view_read_only := view_read_only out @ [copy]\<rparr>
      else out)"

definition authority_view :: "TimestampMs \<Rightarrow> ShardId \<Rightarrow> AuthorityRegistry \<Rightarrow> AuthorityView Result" where
  "authority_view now shard r =
     (case find_shard r shard of
        None \<Rightarrow> Inl NotFound
      | Some a \<Rightarrow>
          Inr (foldl (view_step now)
                 \<lparr>view_shard = shard, view_epoch = sa_epoch a, view_generation = sa_generation a,
                  view_mutating = None, view_slot_holder = None, view_read_only = [],
                  view_fences = fences a\<rparr> (leases a)))"

definition mutating_authority_count :: "AuthorityView \<Rightarrow> nat" where
  "mutating_authority_count v = (if view_mutating v \<noteq> None then 1 else 0)"

definition mutation_slot_free :: "AuthorityView \<Rightarrow> bool" where
  "mutation_slot_free v = (view_slot_holder v = None)"

text \<open>Every view reads the clock anew; \<open>clock i\<close> is the \<open>i\<close>-th reading.\<close>

fun all_views_loop :: "(nat \<Rightarrow> TimestampMs) \<Rightarrow> nat \<Rightarrow> ShardId list \<Rightarrow> AuthorityRegistry \<Rightarrow> AuthorityView list" where
  "all_views_loop clock i [] r = []"
| "all_views_loop clock i (s # ss) r =
     (case authority_view (clock i) s r of Inl _ \<Rightarrow> [] | Inr v \<Rightarrow> [v]) @ all_views_loop clock (Suc i) ss r"

definition all_views :: "(nat \<Rightarrow> TimestampMs) \<Rightarrow> AuthorityRegistry \<Rightarrow> AuthorityView list" where
  "all_views clock r = all_views_loop clock 0 (map fst (shards r)) r"

section \<open>Persistence\<close>

definition set_if :: "bool \<Rightarrow> string \<Rightarrow> json \<Rightarrow> json \<Rightarrow> json" where
  "set_if b key v j = (if b then json_set j key v else j)"

definition lease_to_json :: "AuthorityLease \<Rightarrow> json" where
  "lease_to_json l =
     (let j0 = JObject [];
          j1 = json_set j0 ''id'' (JUInt (lease_id l));
          j2 = json_set j1 ''shard'' (JString (lease_shard l));
          j3 = json_set j2 ''holder'' (incarnation_to_json (lease_holder l));
          j4 = json_set j3 ''epoch'' (JUInt (lease_epoch l));
          j5 = json_set j4 ''generation'' (JUInt (lease_generation l));
          j6 = json_set j5 ''token'' (JString (to_compact_string (lease_token l)));
          j7 = json_set j6 ''mode'' (JString (mode_name (lease_mode l)));
          j8 = json_set j7 ''state'' (JString (lease_state_name (lease_state l)));
          j9 = json_set j8 ''issued_at_ms'' (JUInt (issued_at_ms l));
          j10 = json_set j9 ''expires_at_ms'' (JUInt (expires_at_ms l));
          j11 = json_set j10 ''attested'' (JBool (attested l));
          j12 = json_set j11 ''attestation_seq'' (JUInt (attestation_seq l));
          j13 = set_if (name_is_valid (lease_campaign l)) ''campaign'' (JString (lease_campaign l)) j12;
          j14 = set_if (tagged_is_valid (lease_handoff l)) ''handoff'' (JUInt (lease_handoff l)) j13
      in json_set j14 ''reason'' (JString (lease_reason l)))"

text \<open>An optional field that must parse when it is present.\<close>

definition optional_name :: "string option \<Rightarrow> string Result" where
  "optional_name x = (case x of None \<Rightarrow> Inr [] | Some t \<Rightarrow> require (name_parse t) Malformed)"

definition authority_lease_from_json :: "json \<Rightarrow> AuthorityLease Result" where
  "authority_lease_from_json j =
     rbind (guard (is_object j) Malformed) (\<lambda>_.
     rbind (require (positive (json_u64 j ''id'')) Malformed) (\<lambda>i.
     rbind (require (json_string j ''shard'') Malformed) (\<lambda>shard_text.
     rbind (require (name_parse shard_text) Malformed) (\<lambda>s.
     rbind (require (json_find j ''holder'') Malformed) (\<lambda>holder.
     rbind (incarnation_from_json holder) (\<lambda>h.
     rbind (require (positive (json_u64 j ''epoch'')) Malformed) (\<lambda>e.
     rbind (require (positive (json_u64 j ''generation'')) Malformed) (\<lambda>g.
     rbind (require (json_string j ''token'') Malformed) (\<lambda>token_text.
     rbind (require (non_nil (uuid_parse token_text)) Malformed) (\<lambda>t.
     rbind (require (json_string j ''mode'') Malformed) (\<lambda>mode_text.
     rbind (require (mode_from_name mode_text) Malformed) (\<lambda>m.
     rbind (require (json_string j ''state'') Malformed) (\<lambda>state_text.
     rbind (require (lease_state_from_name state_text) Malformed) (\<lambda>st.
     rbind (optional_name (json_string j ''campaign'')) (\<lambda>c.
     Inr \<lparr>lease_id = i, lease_shard = s, lease_holder = h, lease_epoch = e, lease_generation = g,
          lease_token = t, lease_mode = m, lease_state = st,
          issued_at_ms = json_u64_or j ''issued_at_ms'' 0,
          expires_at_ms = json_u64_or j ''expires_at_ms'' 0,
          attested = json_bool_or j ''attested'' False,
          attestation_seq = json_u64_or j ''attestation_seq'' 0,
          lease_campaign = c, lease_handoff = json_u64_or j ''handoff'' 0,
          lease_reason = json_string_or j ''reason'' []\<rparr>)))))))))))))))"

definition fence_to_json :: "FenceRecord \<Rightarrow> json" where
  "fence_to_json f =
     json_set (json_set (json_set (json_set (json_set (json_set (json_set (json_set (json_set (json_set
       (JObject [])
       ''id'' (JUInt (fence_id f)))
       ''shard'' (JString (fence_shard f)))
       ''target'' (incarnation_to_json (fence_target f)))
       ''epoch'' (JUInt (fence_epoch f)))
       ''generation'' (JUInt (fence_generation f)))
       ''fenced_lease'' (JUInt (fenced_lease f)))
       ''issued_at_ms'' (JUInt (fence_issued_at_ms f)))
       ''acknowledged_at_ms'' (JUInt (acknowledged_at_ms f)))
       ''acknowledged'' (JBool (acknowledged f)))
       ''reason'' (JString (fence_reason f))"

definition fence_record_from_json :: "json \<Rightarrow> FenceRecord Result" where
  "fence_record_from_json j =
     rbind (guard (is_object j) Malformed) (\<lambda>_.
     rbind (require (positive (json_u64 j ''id'')) Malformed) (\<lambda>i.
     rbind (require (json_string j ''shard'') Malformed) (\<lambda>shard_text.
     rbind (require (name_parse shard_text) Malformed) (\<lambda>s.
     rbind (require (json_find j ''target'') Malformed) (\<lambda>target.
     rbind (incarnation_from_json target) (\<lambda>t.
     rbind (require (positive (json_u64 j ''epoch'')) Malformed) (\<lambda>e.
     rbind (require (positive (json_u64 j ''generation'')) Malformed) (\<lambda>g.
     Inr \<lparr>fence_id = i, fence_shard = s, fence_target = t, fence_epoch = e, fence_generation = g,
          fenced_lease = json_u64_or j ''fenced_lease'' 0,
          fence_issued_at_ms = json_u64_or j ''issued_at_ms'' 0,
          acknowledged_at_ms = json_u64_or j ''acknowledged_at_ms'' 0,
          acknowledged = json_bool_or j ''acknowledged'' False,
          fence_reason = json_string_or j ''reason'' []\<rparr>))))))))"

definition shard_to_json :: "ShardAuthority \<Rightarrow> json" where
  "shard_to_json a =
     json_set (json_set (json_set (json_set (json_set (json_set (json_set
       (JObject [])
       ''shard'' (JString (sa_shard a)))
       ''epoch'' (JUInt (sa_epoch a)))
       ''generation'' (JUInt (sa_generation a)))
       ''next_lease_id'' (JUInt (next_lease_id a)))
       ''next_fence_id'' (JUInt (next_fence_id a)))
       ''leases'' (JArray (map lease_to_json (leases a))))
       ''fences'' (JArray (map fence_to_json (fences a)))"

definition registry_to_json :: "AuthorityRegistry \<Rightarrow> json" where
  "registry_to_json r =
     json_set (json_set (json_set (JObject [])
       ''next_lease_id'' (JUInt (reg_next_lease_id r)))
       ''next_fence_id'' (JUInt (reg_next_fence_id r)))
       ''shards'' (JArray (map (\<lambda>e. shard_to_json (snd e)) (shards r)))"

text \<open>An optional array field: absent is the empty array, any other type is malformed.\<close>

definition optional_array :: "json \<Rightarrow> string \<Rightarrow> json list Result" where
  "optional_array j key =
     (case json_find j key of None \<Rightarrow> Inr [] | Some v \<Rightarrow> require (try_array v) Malformed)"

definition restore_lease :: "ShardId \<Rightarrow> json \<Rightarrow> AuthorityLease Result" where
  "restore_lease shard j =
     rbind (authority_lease_from_json j) (\<lambda>l.
       if lease_shard l \<noteq> shard then Inl IntegrityFailure else Inr (l\<lparr>attested := False\<rparr>))"

definition load_shard :: "json \<Rightarrow> ShardAuthority Result" where
  "load_shard j =
     rbind (guard (is_object j) Malformed) (\<lambda>_.
     rbind (require (json_string j ''shard'') Malformed) (\<lambda>shard_text.
     rbind (require (name_parse shard_text) Malformed) (\<lambda>s.
     rbind (require (positive (json_u64 j ''epoch'')) Malformed) (\<lambda>e.
     rbind (require (positive (json_u64 j ''generation'')) Malformed) (\<lambda>g.
     rbind (optional_array j ''leases'') (\<lambda>ls.
     rbind (map_result (restore_lease s) ls) (\<lambda>restored.
     rbind (optional_array j ''fences'') (\<lambda>fs.
     rbind (map_result fence_record_from_json fs) (\<lambda>restored_fences.
     Inr \<lparr>sa_shard = s, sa_epoch = e, sa_generation = g, leases = restored, fences = restored_fences,
          next_lease_id = json_u64_or j ''next_lease_id'' 1,
          next_fence_id = json_u64_or j ''next_fence_id'' 1\<rparr>)))))))))"

fun load_shards :: "json list \<Rightarrow> (ShardId, ShardAuthority) omap \<Rightarrow> (ShardId, ShardAuthority) omap Result" where
  "load_shards [] restored = Inr restored"
| "load_shards (j # js) restored =
     rbind (load_shard j) (\<lambda>a.
       if omap_find (sa_shard a) restored \<noteq> None then Inl IntegrityFailure
       else load_shards js (omap_set (sa_shard a) a restored))"

definition registry_load :: "json \<Rightarrow> AuthorityRegistry \<Rightarrow> AuthorityRegistry \<times> Status" where
  "registry_load j r =
     (if \<not> is_object j then (r, Malformed)
      else case json_find j ''shards'' of
             None \<Rightarrow> (r, Malformed)
           | Some v \<Rightarrow>
               (case try_array v of
                  None \<Rightarrow> (r, Malformed)
                | Some js \<Rightarrow>
                    (case load_shards js [] of
                       Inl e \<Rightarrow> (r, e)
                     | Inr restored \<Rightarrow>
                         (\<lparr>shards = restored, reg_next_lease_id = json_u64_or j ''next_lease_id'' 1,
                           reg_next_fence_id = json_u64_or j ''next_fence_id'' 1\<rparr>, Ok))))"

end
