(* ===== verification/Authority_Inv.thy ===== *)
theory Authority_Inv
  imports Authority
begin

text \<open>
  The representation invariant of the authority registry and its preservation by every operation
  that changes the registry, under a clock that does not run backwards. The invariant contains the
  single-writer property (I1 of \<^verbatim>\<open>authority.hpp\<close>): at most one lease of a shard occupies the
  mutation slot.
\<close>

section \<open>Invariant\<close>

definition slot_leases :: "TimestampMs \<Rightarrow> ShardAuthority \<Rightarrow> AuthorityLease list" where
  "slot_leases now a = filter (\<lambda>l. blocks_mutation_slot l now) (leases a)"

definition leases_wf :: "ShardAuthority \<Rightarrow> bool" where
  "leases_wf a =
     (distinct (map lease_id (leases a)) \<and> (\<forall>l \<in> set (leases a). lease_id l < next_lease_id a) \<and>
      (\<forall>l \<in> set (leases a). lease_shard l = sa_shard a) \<and>
      length (leases a) \<le> kMaxLeaseHistoryPerShard)"

definition fences_wf :: "ShardAuthority \<Rightarrow> bool" where
  "fences_wf a =
     (distinct (map fence_id (fences a)) \<and> (\<forall>f \<in> set (fences a). fence_id f < next_fence_id a) \<and>
      length (fences a) \<le> kMaxFenceHistoryPerShard)"

definition sa_inv :: "TimestampMs \<Rightarrow> ShardAuthority \<Rightarrow> bool" where
  "sa_inv now a = (length (slot_leases now a) \<le> 1 \<and> leases_wf a \<and> fences_wf a)"

definition registry_inv :: "TimestampMs \<Rightarrow> AuthorityRegistry \<Rightarrow> bool" where
  "registry_inv now r =
     (omap_wf (shards r) \<and> (\<forall>e \<in> set (shards r). sa_shard (snd e) = fst e \<and> sa_inv now (snd e)))"

section \<open>Operations as a machine\<close>

datatype registry_op =
    Establish ShardId EpochNumber
  | Grant TimestampMs TimestampMs AuthorityToken GrantRequest
  | Renew TimestampMs ShardId LeaseId u64
  | RequestFence TimestampMs ShardId IncarnationId string
  | AcknowledgeFence TimestampMs ShardId IncarnationId FenceId
  | Revoke ShardId LeaseId string
  | ExpireDue TimestampMs
  | Reattest TimestampMs ShardId IncarnationId AuthorityToken
  | AdvanceEpoch ShardId EpochNumber
  | Clear
  | Load json

fun apply_op :: "registry_op \<Rightarrow> AuthorityRegistry \<Rightarrow> AuthorityRegistry" where
  "apply_op (Establish s e) r = fst (establish s e r)"
| "apply_op (Grant now now' tok req) r = fst (grant now now' tok req r)"
| "apply_op (Renew now s l ttl) r = fst (renew now s l ttl r)"
| "apply_op (RequestFence now s t reason) r = fst (request_fence now s t reason r)"
| "apply_op (AcknowledgeFence now s h f) r = fst (acknowledge_fence now s h f r)"
| "apply_op (Revoke s l reason) r = fst (revoke s l reason r)"
| "apply_op (ExpireDue now) r = fst (expire_due now r)"
| "apply_op (Reattest now s h t) r = fst (reattest now s h t r)"
| "apply_op (AdvanceEpoch s e) r = fst (advance_epoch s e r)"
| "apply_op Clear r = registry_clear r"
| "apply_op (Load j) r = fst (registry_load j r)"

text \<open>The clock readings of an operation in order; the latest reading is carried along.\<close>

fun clock_readings :: "registry_op \<Rightarrow> TimestampMs list" where
  "clock_readings (Grant now now' tok req) = [now, now']"
| "clock_readings (Renew now s l ttl) = [now]"
| "clock_readings (RequestFence now s t reason) = [now]"
| "clock_readings (AcknowledgeFence now s h f) = [now]"
| "clock_readings (ExpireDue now) = [now]"
| "clock_readings (Reattest now s h t) = [now]"
| "clock_readings _ = []"

definition timed_step :: "TimestampMs \<times> AuthorityRegistry \<Rightarrow> registry_op \<Rightarrow> TimestampMs \<times> AuthorityRegistry" where
  "timed_step s c = (last (fst s # clock_readings c), apply_op c (snd s))"

definition clock_monotone :: "TimestampMs \<times> AuthorityRegistry \<Rightarrow> registry_op \<Rightarrow> bool" where
  "clock_monotone s c = sorted (fst s # clock_readings c)"

text \<open>
  \<^verbatim>\<open>load\<close> checks the form of a document and not what its leases say together. A document is sound when the
  registry that is read from it satisfies the invariant; a document that cannot be read is harmless.
\<close>

definition sound_document :: "TimestampMs \<Rightarrow> json \<Rightarrow> bool" where
  "sound_document now j =
     (case registry_load j \<lparr>shards = [], reg_next_lease_id = 1, reg_next_fence_id = 1\<rparr> of
        (r, status) \<Rightarrow> status \<noteq> Ok \<or> registry_inv now r)"

definition load_sound :: "TimestampMs \<times> AuthorityRegistry \<Rightarrow> registry_op \<Rightarrow> bool" where
  "load_sound s c = (case c of Load j \<Rightarrow> sound_document (fst s) j | _ \<Rightarrow> True)"

definition op_admissible :: "TimestampMs \<times> AuthorityRegistry \<Rightarrow> registry_op \<Rightarrow> bool" where
  "op_admissible s c = (clock_monotone s c \<and> load_sound s c)"

text \<open>The operations of a registry in service: it is neither cleared nor loaded again.\<close>

fun in_service :: "registry_op \<Rightarrow> bool" where
  "in_service Clear = False"
| "in_service (Load j) = False"
| "in_service _ = True"

section \<open>Lease lemmas\<close>

lemma blocks_iff:
  "blocks_mutation_slot l now =
     (lease_mode l = Mutating \<and> (lease_state l = Active \<or> lease_state l = Fencing) \<and> now < expires_at_ms l)"
  by (cases "lease_state l") (auto simp: blocks_mutation_slot_def effective_state_def)

lemma effective_Active_iff: "(effective_state l now = Active) = (lease_state l = Active \<and> now < expires_at_ms l)"
  by (auto simp: effective_state_def)

lemma blocks_mono: "blocks_mutation_slot l now' \<Longrightarrow> now \<le> now' \<Longrightarrow> blocks_mutation_slot l now"
  by (auto simp: blocks_iff)

lemma expire_lease_fields [simp]:
  "lease_id (expire_lease now l) = lease_id l" "lease_shard (expire_lease now l) = lease_shard l"
  "lease_holder (expire_lease now l) = lease_holder l" "lease_mode (expire_lease now l) = lease_mode l"
  "expires_at_ms (expire_lease now l) = expires_at_ms l" "lease_token (expire_lease now l) = lease_token l"
  "lease_generation (expire_lease now l) = lease_generation l" "lease_epoch (expire_lease now l) = lease_epoch l"
  "attested (expire_lease now l) = attested l"
  by (simp_all add: expire_lease_def)

lemma blocks_expire_lease: "blocks_mutation_slot (expire_lease now l) t \<Longrightarrow> blocks_mutation_slot l t"
  by (auto simp: blocks_iff expire_lease_def split: if_splits)

lemma expire_lease_state:
  "lease_state (expire_lease now l) = Active \<Longrightarrow> lease_state l = Active \<and> now < expires_at_ms l"
  by (auto simp: expire_lease_def split: if_splits)

lemma expire_in_place_fields [simp]:
  "sa_shard (expire_in_place a now) = sa_shard a" "sa_epoch (expire_in_place a now) = sa_epoch a"
  "sa_generation (expire_in_place a now) = sa_generation a" "fences (expire_in_place a now) = fences a"
  "next_lease_id (expire_in_place a now) = next_lease_id a"
  "next_fence_id (expire_in_place a now) = next_fence_id a"
  "leases (expire_in_place a now) = map (expire_lease now) (leases a)"
  by (simp_all add: expire_in_place_def)

section \<open>Framework: what keeps the invariant\<close>

lemma slot_leases_mono: "now \<le> now' \<Longrightarrow> length (slot_leases now' a) \<le> length (slot_leases now a)"
  unfolding slot_leases_def by (rule length_filter_mono) (rule blocks_mono)

lemma sa_inv_mono: "sa_inv now a \<Longrightarrow> now \<le> now' \<Longrightarrow> sa_inv now' a"
  using slot_leases_mono [of now now' a] by (auto simp: sa_inv_def)

text \<open>
  A change of the leases that keeps their number, identifiers and shard and makes no lease occupy
  the slot that did not before keeps the invariant.
\<close>

lemma sa_inv_update:
  assumes "sa_inv now a"
    and "map lease_id (leases a') = map lease_id (leases a)"
    and "map lease_shard (leases a') = map lease_shard (leases a)"
    and "length (slot_leases now a') \<le> length (slot_leases now a)"
    and "sa_shard a' = sa_shard a" "next_lease_id a' = next_lease_id a"
    and "fences_wf a'"
  shows "sa_inv now a'"
proof -
  have len: "length (leases a') = length (leases a)" using assms(2) by (metis length_map)
  have ids: "lease_id ` set (leases a') = lease_id ` set (leases a)" using assms(2) by (metis set_map)
  have sh: "lease_shard ` set (leases a') = lease_shard ` set (leases a)" using assms(3) by (metis set_map)
  have wf: "leases_wf a" using assms(1) by (simp add: sa_inv_def)
  have "\<forall>i \<in> lease_id ` set (leases a'). i < next_lease_id a'"
    using wf ids assms(6) by (simp add: leases_wf_def)
  moreover have "\<forall>s \<in> lease_shard ` set (leases a'). s = sa_shard a'"
    using wf sh assms(5) by (simp add: leases_wf_def)
  ultimately have "leases_wf a'" using wf assms(2) len by (simp add: leases_wf_def)
  with assms(1,4,7) show ?thesis by (simp add: sa_inv_def)
qed

lemma sa_inv_fences [simp]: "sa_inv now a \<Longrightarrow> fences_wf a"
  by (simp add: sa_inv_def)

lemma fences_wf_cong: "fences a' = fences a \<Longrightarrow> next_fence_id a' = next_fence_id a \<Longrightarrow> fences_wf a' = fences_wf a"
  by (simp add: fences_wf_def)

lemma sa_inv_map:
  assumes "sa_inv now a" "\<And>l. lease_id (f l) = lease_id l \<and> lease_shard (f l) = lease_shard l \<and>
    (blocks_mutation_slot (f l) now \<longrightarrow> blocks_mutation_slot l now)"
    "leases a' = map f (leases a)" "sa_shard a' = sa_shard a" "next_lease_id a' = next_lease_id a" "fences_wf a'"
  shows "sa_inv now a'"
proof (rule sa_inv_update [OF assms(1)])
  show "length (slot_leases now a') \<le> length (slot_leases now a)"
    unfolding slot_leases_def assms(3) using assms(2) by (intro length_filter_map_le) blast
qed (use assms in \<open>simp_all add: comp_def\<close>)

lemma sa_inv_expire: "sa_inv now a \<Longrightarrow> sa_inv now (expire_in_place a t)"
  by (rule sa_inv_map [where f = "expire_lease t" and a = a])
    (auto dest: blocks_expire_lease simp: sa_inv_def fences_wf_def)

lemma sa_inv_update_first:
  assumes "sa_inv now a"
    and "\<And>l. l \<in> set (leases a) \<Longrightarrow> P l \<Longrightarrow>
           lease_id (f l) = lease_id l \<and> lease_shard (f l) = lease_shard l \<and>
           (blocks_mutation_slot (f l) now \<longrightarrow> blocks_mutation_slot l now)"
  shows "sa_inv now (a\<lparr>leases := update_first P f (leases a)\<rparr>)"
proof (rule sa_inv_update [OF assms(1)])
  have "map g (update_first P f ls) = map g ls"
    if "\<And>l. l \<in> set ls \<Longrightarrow> P l \<Longrightarrow> g (f l) = g l" for g :: "AuthorityLease \<Rightarrow> 'z" and ls
    using that by (induction ls) auto
  note m = this
  show "map lease_id (leases (a\<lparr>leases := update_first P f (leases a)\<rparr>)) = map lease_id (leases a)"
    using assms(2) by (simp add: m)
  show "map lease_shard (leases (a\<lparr>leases := update_first P f (leases a)\<rparr>)) = map lease_shard (leases a)"
    using assms(2) by (simp add: m)
  show "length (slot_leases now (a\<lparr>leases := update_first P f (leases a)\<rparr>)) \<le> length (slot_leases now a)"
    using assms(2) by (simp add: slot_leases_def length_filter_update_first_le)
  show "fences_wf (a\<lparr>leases := update_first P f (leases a)\<rparr>)"
    using assms(1) by (simp add: sa_inv_def fences_wf_def)
qed simp_all

lemma distinct_ids_eq:
  "leases_wf a \<Longrightarrow> l \<in> set (leases a) \<Longrightarrow> l' \<in> set (leases a) \<Longrightarrow> lease_id l = lease_id l' \<Longrightarrow> l = l'"
  by (auto simp: leases_wf_def distinct_map dest: inj_onD)

section \<open>Preservation, one operation at a time\<close>

lemma sa_inv_issue_lease:
  assumes "sa_inv now' a" and slot: "req_mode req = Mutating \<longrightarrow> slot_leases now' a = []"
    and "req_shard req = sa_shard a"
  shows "sa_inv now' (fst (issue_lease now tok req a))"
proof (cases "tagged_next (next_lease_id a)")
  case None
  then show ?thesis using assms(1) by (simp add: issue_lease_def)
next
  case (Some n)
  let ?l = "new_lease now tok req a"
  let ?ls = "push_bounded kMaxLeaseHistoryPerShard (leases a) ?l"
  let ?a = "a\<lparr>next_lease_id := n, leases := ?ls\<rparr>"
  have wf: "leases_wf a" using assms(1) by (simp add: sa_inv_def)
  have fresh: "lease_id ?l \<notin> lease_id ` set (leases a)"
    using wf by (auto simp: leases_wf_def new_lease_def)
  have sub: "set ?ls \<subseteq> insert ?l (set (leases a))" by (rule set_push_bounded)
  have n: "next_lease_id a < n" using Some by (rule tagged_next_greater)
  have "lease_id l < n \<and> lease_shard l = sa_shard a" if "l \<in> set ?ls" for l
  proof -
    from that sub consider "l = ?l" | "l \<in> set (leases a)" by auto
    then show ?thesis
      using wf n assms(3) by cases (auto simp: leases_wf_def new_lease_def intro: less_trans)
  qed
  moreover have "distinct (map lease_id ?ls)"
    using wf fresh by (simp add: leases_wf_def distinct_map_push_bounded)
  moreover have "length ?ls \<le> kMaxLeaseHistoryPerShard"
    using wf by (simp add: leases_wf_def length_push_bounded kMaxLeaseHistoryPerShard_def)
  ultimately have "leases_wf ?a" by (simp add: leases_wf_def)
  moreover have "length (slot_leases now' ?a) \<le> 1"
  proof (cases "req_mode req = Mutating")
    case True
    then have "filter (\<lambda>l. blocks_mutation_slot l now') (leases a) = []"
      using slot by (simp add: slot_leases_def)
    then show ?thesis
      using length_filter_push_bounded_le [of "\<lambda>l. blocks_mutation_slot l now'" kMaxLeaseHistoryPerShard "leases a" ?l]
      by (simp add: slot_leases_def split: if_splits)
  next
    case False
    then have "\<not> blocks_mutation_slot ?l now'" by (simp add: blocks_iff new_lease_def)
    then show ?thesis
      using length_filter_push_bounded_le [of "\<lambda>l. blocks_mutation_slot l now'" kMaxLeaseHistoryPerShard "leases a" ?l]
        assms(1) by (simp add: sa_inv_def slot_leases_def)
  qed
  moreover have "fences_wf ?a" using assms(1) by (simp add: sa_inv_def fences_wf_def)
  ultimately show ?thesis using Some by (simp add: issue_lease_def sa_inv_def Let_def)
qed

lemma sa_inv_generation: "sa_inv now (a\<lparr>sa_generation := g\<rparr>) = sa_inv now a"
  by (simp add: sa_inv_def slot_leases_def leases_wf_def fences_wf_def)

lemma sa_inv_grant_fresh:
  assumes "sa_inv now' a" "req_mode req = Mutating \<longrightarrow> slot_leases now' a = []" "req_shard req = sa_shard a"
  shows "sa_inv now' (fst (grant_fresh now tok req a))"
proof -
  have "sa_inv now' (fst (issue_lease now tok req (a\<lparr>sa_generation := g\<rparr>)))" for g
    using assms by (intro sa_inv_issue_lease) (simp_all add: sa_inv_generation slot_leases_def)
  moreover have "sa_inv now' (fst (issue_lease now tok req a))"
    using assms by (rule sa_inv_issue_lease)
  ultimately show ?thesis using assms(1) by (simp add: grant_fresh_def split: option.splits)
qed

lemma sa_inv_grant_mutating:
  assumes "sa_inv now' a" "req_shard req = sa_shard a" "req_mode req = Mutating"
  shows "sa_inv now' (fst (grant_mutating now now' tok req a))"
proof (cases "active_mutating a now'")
  case None
  then have "slot_leases now' a = []"
    by (simp add: active_mutating_def find_None_iff slot_leases_def)
  then have "sa_inv now' (fst (grant_fresh now tok req a))"
    using assms by (intro sa_inv_grant_fresh) auto
  with None show ?thesis by (simp add: grant_mutating_def)
next
  case (Some blocker)
  then have b: "blocks_mutation_slot blocker now'" "blocker \<in> set (leases a)"
    by (auto simp: active_mutating_def dest: find_SomeD)
  have "sa_inv now' (a\<lparr>leases := update_first (\<lambda>l. lease_id l = lease_id blocker)
           (renewed_by_grant now req) (leases a)\<rparr>)"
  proof (rule sa_inv_update_first [OF assms(1)])
    fix l assume "l \<in> set (leases a)" "lease_id l = lease_id blocker"
    then have "l = blocker" using b assms(1) by (auto simp: sa_inv_def intro: distinct_ids_eq)
    with b show "lease_id (renewed_by_grant now req l) = lease_id l \<and>
        lease_shard (renewed_by_grant now req l) = lease_shard l \<and>
        (blocks_mutation_slot (renewed_by_grant now req l) now' \<longrightarrow> blocks_mutation_slot l now')"
      by (simp add: renewed_by_grant_def)
  qed
  with Some assms(1) show ?thesis by (auto simp: grant_mutating_def split: option.splits)
qed

lemma sa_inv_grant_shared:
  assumes "sa_inv now' a" "req_shard req = sa_shard a" "req_mode req \<noteq> Mutating"
  shows "sa_inv now' (fst (grant_shared now tok req a))"
proof -
  let ?own = "\<lambda>l. lease_holder l = req_holder req \<and> lease_mode l = req_mode req \<and> effective_state l now = Active"
  have "sa_inv now' (a\<lparr>leases := update_first ?own (renewed_by_grant now req) (leases a)\<rparr>)"
    using assms(3) by (intro sa_inv_update_first [OF assms(1)]) (simp add: renewed_by_grant_def blocks_iff)
  moreover have "sa_inv now' (fst (grant_fresh now tok req a))"
    using assms by (intro sa_inv_grant_fresh) auto
  ultimately show ?thesis by (simp add: grant_shared_def Let_def split: option.splits)
qed

lemma sa_inv_grant_shard_at:
  assumes i: "sa_inv now' a" and shard: "req_shard req = sa_shard a"
  shows "sa_inv now' (fst (grant_shard now now' tok req a))"
proof -
  have e: "sa_inv now' (expire_in_place a now)" using i by (rule sa_inv_expire)
  from e shard have "req_mode req = Mutating \<Longrightarrow> sa_inv now' (fst (grant_mutating now now' tok req (expire_in_place a now)))"
    by (intro sa_inv_grant_mutating) auto
  moreover from e shard have "req_mode req \<noteq> Mutating \<Longrightarrow> sa_inv now' (fst (grant_shared now tok req (expire_in_place a now)))"
    by (intro sa_inv_grant_shared) auto
  ultimately show ?thesis using i by (simp add: grant_shard_def)
qed

lemma sa_inv_grant_shard [inv_intros]:
  assumes "sa_inv t a" "t \<le> now" "now \<le> now'" "req_shard req = sa_shard a"
  shows "sa_inv now' (fst (grant_shard now now' tok req a))"
  using assms by (intro sa_inv_grant_shard_at) (meson order_trans sa_inv_mono)+

lemma sa_inv_renew_shard [inv_intros]:
  assumes "sa_inv t a" "t \<le> now"
  shows "sa_inv now (fst (renew_shard now lid ttl a))"
proof -
  let ?a1 = "expire_in_place a now"
  let ?f = "\<lambda>l. l\<lparr>expires_at_ms := now + ttl, attestation_seq := attestation_seq l + 1\<rparr>"
  have i: "sa_inv now a" using assms by (rule sa_inv_mono)
  then have e: "sa_inv now ?a1" by (rule sa_inv_expire)
  have "sa_inv now (?a1\<lparr>leases := update_first (\<lambda>l. lease_id l = lid) ?f (leases ?a1)\<rparr>)"
    if "List.find (\<lambda>l. lease_id l = lid) (leases ?a1) = Some lease" "lease_state lease = Active" for lease
  proof (rule sa_inv_update_first [OF e])
    from find_SomeD [OF that(1)] have l: "lease_id lease = lid" "lease \<in> set (leases ?a1)" by auto
    have "now < expires_at_ms lease"
      using l(2) that(2) by (auto dest: expire_lease_state)
    fix m assume "m \<in> set (leases ?a1)" "lease_id m = lid"
    then have "m = lease" using l e by (auto simp: sa_inv_def intro: distinct_ids_eq)
    then show "lease_id (?f m) = lease_id m \<and> lease_shard (?f m) = lease_shard m \<and>
        (blocks_mutation_slot (?f m) now \<longrightarrow> blocks_mutation_slot m now)"
      using \<open>now < expires_at_ms lease\<close> that(2) by (simp add: blocks_iff)
  qed
  with i e show ?thesis by (simp add: renew_shard_def Let_def split: option.splits)
qed

lemma fences_wf_push:
  assumes "fences_wf a" "tagged_next (next_fence_id a) = Some n" "fence_id fence = next_fence_id a"
    "next_fence_id a' = n" "fences a' = push_bounded kMaxFenceHistoryPerShard (fences a) fence"
  shows "fences_wf a'"
proof -
  have n: "next_fence_id a < n" using assms(2) by (rule tagged_next_greater)
  have sub: "set (fences a') \<subseteq> insert fence (set (fences a))" using assms(5) by (simp add: set_push_bounded)
  have fresh: "fence_id fence \<notin> fence_id ` set (fences a)" using assms(1,3) by (auto simp: fences_wf_def)
  have "\<forall>f \<in> set (fences a'). fence_id f < next_fence_id a'"
  proof
    fix f assume "f \<in> set (fences a')"
    with sub consider "f = fence" | "f \<in> set (fences a)" by auto
    then show "fence_id f < next_fence_id a'"
      using assms(1,3,4) n by cases (auto simp: fences_wf_def intro: less_trans)
  qed
  moreover have "distinct (map fence_id (fences a'))"
    using assms(1,5) fresh by (simp add: fences_wf_def distinct_map_push_bounded)
  moreover have "length (fences a') \<le> kMaxFenceHistoryPerShard"
    using assms(1,5) by (simp add: fences_wf_def length_push_bounded kMaxFenceHistoryPerShard_def)
  ultimately show ?thesis by (simp add: fences_wf_def)
qed

lemma sa_inv_request_fence_shard [inv_intros]:
  assumes "sa_inv t a" "t \<le> now"
  shows "sa_inv now (fst (request_fence_shard now shard tgt reason a))"
proof -
  let ?a1 = "expire_in_place a now"
  have i: "sa_inv now a" using assms by (rule sa_inv_mono)
  then have e: "sa_inv now ?a1" by (rule sa_inv_expire)
  have u: "sa_inv now (?a1\<lparr>leases := update_first (fence_target_lease tgt now)
      (\<lambda>l. l\<lparr>lease_state := Fencing\<rparr>) (leases ?a1)\<rparr>)"
    by (rule sa_inv_update_first [OF e])
      (auto simp: fence_target_lease_def blocks_iff effective_Active_iff)
  have "sa_inv now (?a1\<lparr>sa_generation := g, next_fence_id := n,
      leases := update_first (fence_target_lease tgt now) (\<lambda>l. l\<lparr>lease_state := Fencing\<rparr>) (leases ?a1),
      fences := push_bounded kMaxFenceHistoryPerShard (fences ?a1) fence\<rparr>)"
    if "tagged_next (next_fence_id ?a1) = Some n" "fence_id fence = next_fence_id ?a1" for g n fence
  proof -
    have "fences_wf (?a1\<lparr>sa_generation := g, next_fence_id := n,
      leases := update_first (fence_target_lease tgt now) (\<lambda>l. l\<lparr>lease_state := Fencing\<rparr>) (leases ?a1),
      fences := push_bounded kMaxFenceHistoryPerShard (fences ?a1) fence\<rparr>)"
      by (rule fences_wf_push [of ?a1 n fence]) (use that e in simp_all)
    with u show ?thesis by (simp add: sa_inv_def slot_leases_def leases_wf_def)
  qed
  with i e show ?thesis by (simp add: request_fence_shard_def new_fence_def Let_def split: option.splits)
qed

lemma sa_inv_acknowledge_fence_shard [inv_intros]:
  assumes "sa_inv t a" "t \<le> now"
  shows "sa_inv now (fst (acknowledge_fence_shard now holder fid a))"
proof -
  let ?g = "\<lambda>f. f\<lparr>acknowledged := True, acknowledged_at_ms := now\<rparr>"
  have i: "sa_inv now a" using assms by (rule sa_inv_mono)
  let ?fs = "update_first (\<lambda>f. fence_id f = fid) ?g (fences a)"
  have ids: "map fence_id ?fs = map fence_id (fences a)" by (rule map_update_first) simp
  then have img: "fence_id ` set ?fs = fence_id ` set (fences a)" by (metis set_map)
  have "\<forall>x \<in> fence_id ` set ?fs. x < next_fence_id a"
    unfolding img using i by (simp add: sa_inv_def fences_wf_def)
  then have bound: "\<forall>f \<in> set ?fs. fence_id f < next_fence_id a" by blast
  have fw: "fences_wf (a\<lparr>fences := ?fs, leases := ls\<rparr>)" for ls
    using i ids bound by (simp add: sa_inv_def fences_wf_def)
  have "sa_inv now (a\<lparr>fences := ?fs, leases := map (\<lambda>l. if lease_id l = fl \<and> lease_state l = Fencing
      then l\<lparr>lease_state := Fenced\<rparr> else l) (leases a)\<rparr>)" for fl
    by (rule sa_inv_map [OF i, where f = "\<lambda>l. if lease_id l = fl \<and> lease_state l = Fencing
      then l\<lparr>lease_state := Fenced\<rparr> else l"]) (simp_all add: blocks_iff fw)
  with i show ?thesis by (simp add: acknowledge_fence_shard_def split: option.splits)
qed

lemma sa_inv_revoke_shard [inv_intros]: "sa_inv now a \<Longrightarrow> sa_inv now (fst (revoke_shard lid reason a))"
  by (simp add: revoke_shard_def split: option.splits) (intro impI allI sa_inv_update_first; simp add: blocks_iff)

lemma sa_inv_reattest_shard [inv_intros]:
  assumes "sa_inv t a" "t \<le> now"
  shows "sa_inv now (fst (reattest_shard now holder tok a))"
proof -
  have e: "sa_inv now (expire_in_place a now)" using assms by (intro sa_inv_expire) (rule sa_inv_mono)
  have "sa_inv now (expire_in_place a now\<lparr>leases := update_first (\<lambda>l. lease_holder l = holder \<and> lease_token l = tok)
      (\<lambda>l. l\<lparr>attested := True, attestation_seq := attestation_seq l + 1\<rparr>) (leases (expire_in_place a now))\<rparr>)"
    by (rule sa_inv_update_first [OF e]) (simp add: blocks_iff)
  with e show ?thesis by (simp add: reattest_shard_def Let_def split: option.splits)
qed

lemma sa_inv_advance_epoch_shard [inv_intros]:
  assumes "sa_inv now a"
  shows "sa_inv now (fst (advance_epoch_shard epoch a))"
proof -
  let ?f = "\<lambda>l. if lease_state l = Active \<or> lease_state l = Fencing
     then l\<lparr>lease_state := Revoked, lease_reason := ''revoked by epoch advance''\<rparr> else l"
  have "sa_inv now (a\<lparr>sa_epoch := epoch, sa_generation := 1, leases := map ?f (leases a)\<rparr>)"
    using assms by (rule sa_inv_map [where f = ?f])
      (use assms in \<open>simp_all add: blocks_iff sa_inv_def fences_wf_def\<close>)
  with assms show ?thesis by (simp add: advance_epoch_shard_def)
qed

section \<open>The registry\<close>

lemma find_shard_in: "find_shard r shard = Some a \<Longrightarrow> (shard, a) \<in> set (shards r)"
  by (simp add: find_shard_def omap_find_map_of map_of_SomeD)

lemma registry_inv_find:
  "registry_inv now r \<Longrightarrow> find_shard r shard = Some a \<Longrightarrow> sa_shard a = shard \<and> sa_inv now a"
  by (drule find_shard_in) (auto simp: registry_inv_def)

lemma registry_inv_mono: "registry_inv now r \<Longrightarrow> now \<le> now' \<Longrightarrow> registry_inv now' r"
  by (auto simp: registry_inv_def intro: sa_inv_mono)

lemma registry_inv_put:
  "registry_inv now r \<Longrightarrow> sa_shard a = shard \<Longrightarrow> sa_inv now a \<Longrightarrow> registry_inv now (put_shard r shard a)"
  using set_omap_set [of shard a "shards r"] by (auto simp: registry_inv_def put_shard_def)

lemma shard_op_fields [simp]:
  "sa_shard (fst (renew_shard now lid ttl a)) = sa_shard a"
  "sa_shard (fst (request_fence_shard now shard tgt reason a)) = sa_shard a"
  "sa_shard (fst (acknowledge_fence_shard now holder fid a)) = sa_shard a"
  "sa_shard (fst (revoke_shard lid reason a)) = sa_shard a"
  "sa_shard (fst (reattest_shard now holder tok a)) = sa_shard a"
  "sa_shard (fst (advance_epoch_shard epoch a)) = sa_shard a"
  "sa_shard (fst (issue_lease now tok req a)) = sa_shard a"
  by (simp_all add: renew_shard_def request_fence_shard_def acknowledge_fence_shard_def revoke_shard_def
      reattest_shard_def advance_epoch_shard_def issue_lease_def Let_def split: option.splits)

lemma grant_shard_shard [simp]: "sa_shard (fst (grant_shard now now' tok req a)) = sa_shard a"
proof -
  have "sa_shard (fst (grant_fresh now tok req b)) = sa_shard b" for b
    by (simp add: grant_fresh_def split: option.splits)
  then show ?thesis
    by (simp add: grant_shard_def grant_mutating_def grant_shared_def Let_def split: option.splits)
qed

lemma registry_inv_with_shard:
  assumes "registry_inv t r" "t \<le> now"
    and "\<And>a. sa_inv t a \<Longrightarrow> sa_inv now (fst (f a))" "\<And>a. sa_shard (fst (f a)) = sa_shard a"
  shows "registry_inv now (fst (with_shard shard f r))"
proof (cases "find_shard r shard")
  case None
  then show ?thesis using assms by (auto simp: with_shard_def intro: registry_inv_mono)
next
  case (Some a)
  with assms(1) have "sa_shard a = shard" "sa_inv t a" by (auto dest: registry_inv_find)
  moreover have "registry_inv now r" using assms(1,2) by (rule registry_inv_mono)
  ultimately show ?thesis
    using Some assms(3,4) by (simp add: with_shard_def case_prod_beta registry_inv_put)
qed

lemma registry_inv_grant:
  assumes "registry_inv t r" "t \<le> now" "now \<le> now'"
  shows "registry_inv now' (fst (grant now now' tok req r))"
proof -
  have i: "registry_inv now' r" using assms by (meson order_trans registry_inv_mono)
  show ?thesis
  proof (cases "find_shard r (req_shard req)")
    case None
    with i show ?thesis by (simp add: grant_def)
  next
    case (Some a)
    with assms(1) have a: "sa_shard a = req_shard req" "sa_inv t a" by (auto dest: registry_inv_find)
    then have "sa_inv now' (fst (grant_shard now now' tok req a))"
      using assms by (intro sa_inv_grant_shard) auto
    with i a Some show ?thesis by (simp add: grant_def case_prod_beta registry_inv_put)
  qed
qed

lemma sa_inv_established:
  "sa_inv now \<lparr>sa_shard = s, sa_epoch = e, sa_generation = g, leases = [], fences = [],
     next_lease_id = n, next_fence_id = m\<rparr>"
  by (simp add: sa_inv_def slot_leases_def leases_wf_def fences_wf_def)

lemma registry_inv_establish: "registry_inv now r \<Longrightarrow> registry_inv now (fst (establish shard epoch r))"
  by (simp add: establish_def registry_inv_put sa_inv_established)

lemma registry_inv_expire_due:
  assumes "registry_inv t r" "t \<le> now"
  shows "registry_inv now (fst (expire_due now r))"
proof -
  have "registry_inv now r" using assms by (rule registry_inv_mono)
  then show ?thesis
    by (auto simp: registry_inv_def expire_due_def omap_wf_def comp_def case_prod_beta intro: sa_inv_expire)
qed

lemma authority_decode_never_ok [simp]:
  "authority_lease_from_json j \<noteq> Inl Ok" "fence_record_from_json j \<noteq> Inl Ok" "restore_lease s j \<noteq> Inl Ok"
  "load_shard j \<noteq> Inl Ok" "load_shards js m \<noteq> Inl Ok"
proof -
  show l: "authority_lease_from_json j \<noteq> Inl Ok" for j
    by (auto simp: authority_lease_from_json_def optional_name_def rbind_eq_Inl split: option.splits)
  show f: "fence_record_from_json j \<noteq> Inl Ok" for j
    by (auto simp: fence_record_from_json_def rbind_eq_Inl)
  show r: "restore_lease s j \<noteq> Inl Ok" for s j
    using l [of j] by (auto simp: restore_lease_def rbind_eq_Inl split: if_splits)
  show s: "load_shard j \<noteq> Inl Ok" for j
    using f r by (auto simp: load_shard_def optional_array_def rbind_eq_Inl split: option.splits dest!: map_result_Inl)
  show "load_shards js m \<noteq> Inl Ok"
    using s by (induction js arbitrary: m) (auto simp: rbind_eq_Inl)
qed

text \<open>A load that succeeds replaces the registry by what the document says; any other changes nothing.\<close>

lemma load_cases: "snd (registry_load j r) \<noteq> Ok \<and> fst (registry_load j r) = r \<or> snd (registry_load j r) = Ok \<and> (\<forall>r0. registry_load j r0 = registry_load j r)"
  by (auto simp: registry_load_def split: option.splits sum.splits)

lemma sound_load:
  assumes "registry_inv now r" "sound_document now j"
  shows "registry_inv now (fst (registry_load j r))"
proof (cases "snd (registry_load j r) = Ok")
  case True
  then have "registry_load j \<lparr>shards = [], reg_next_lease_id = 1, reg_next_fence_id = 1\<rparr> = registry_load j r"
    using load_cases [of j r] by blast
  then have "sound_document now j = (snd (registry_load j r) \<noteq> Ok \<or> registry_inv now (fst (registry_load j r)))"
    by (simp only: sound_document_def case_prod_beta)
  with True assms(2) show ?thesis by simp
next
  case False
  with assms(1) load_cases [of j r] show ?thesis by simp
qed

lemma timed_step_inv:
  assumes "registry_inv (fst s) (snd s)" "op_admissible s c"
  shows "registry_inv (fst (timed_step s c)) (snd (timed_step s c))"
proof -
  obtain t r where s: "s = (t, r)" by (cases s)
  from assms have r: "registry_inv t r" by (simp add: s)
  show ?thesis
  proof (cases c)
    case (Establish sh e)
    then show ?thesis using r by (simp add: s timed_step_def registry_inv_establish)
  next
    case (Grant now now' tok req)
    then show ?thesis using r assms(2)
      by (auto simp: s timed_step_def op_admissible_def clock_monotone_def intro: registry_inv_grant)
  next
    case (Renew now sh l ttl)
    then show ?thesis using r assms(2)
      by (auto simp: s timed_step_def op_admissible_def clock_monotone_def renew_def
          intro!: registry_inv_with_shard intro: inv_intros)
  next
    case (RequestFence now sh t' reason)
    then show ?thesis using r assms(2)
      by (auto simp: s timed_step_def op_admissible_def clock_monotone_def request_fence_def
          intro!: registry_inv_with_shard intro: inv_intros)
  next
    case (AcknowledgeFence now sh h f)
    then show ?thesis using r assms(2)
      by (auto simp: s timed_step_def op_admissible_def clock_monotone_def acknowledge_fence_def
          intro!: registry_inv_with_shard intro: inv_intros)
  next
    case (Revoke sh l reason)
    then show ?thesis using r
      by (auto simp: s timed_step_def revoke_def intro!: registry_inv_with_shard intro: inv_intros)
  next
    case (ExpireDue now)
    then show ?thesis using r assms(2)
      by (auto simp: s timed_step_def op_admissible_def clock_monotone_def intro: registry_inv_expire_due)
  next
    case (Reattest now sh h tok)
    then show ?thesis using r assms(2)
      by (auto simp: s timed_step_def op_admissible_def clock_monotone_def reattest_def
          intro!: registry_inv_with_shard intro: inv_intros)
  next
    case (AdvanceEpoch sh e)
    then show ?thesis using r
      by (auto simp: s timed_step_def advance_epoch_def intro!: registry_inv_with_shard intro: inv_intros)
  next
    case Clear
    then show ?thesis by (simp add: s timed_step_def registry_clear_def registry_inv_def)
  next
    case (Load j)
    then show ?thesis using r assms(2) sound_load [of t r j] by (simp add: s timed_step_def op_admissible_def load_sound_def)
  qed
qed

interpretation registry: invariant_machine timed_step op_admissible "\<lambda>s. registry_inv (fst s) (snd s)"
  by unfold_locales (rule timed_step_inv)

end
