(* ===== verification/Authority_Props.thy ===== *)
theory Authority_Props
  imports Authority_Inv
begin

text \<open>
  What the authority registry promises: one mutating authority per shard, the epoch/generation axis
  never moves back, a fence is a barrier, claims are accepted exactly for live attested leases,
  leases restored from storage authorise nothing until they are re-attested.
\<close>

section \<open>Specification vocabulary\<close>

definition empty_registry :: AuthorityRegistry where
  "empty_registry = \<lparr>shards = [], reg_next_lease_id = 1, reg_next_fence_id = 1\<rparr>"

definition run_ops :: "registry_op list \<Rightarrow> AuthorityRegistry \<Rightarrow> AuthorityRegistry" where
  "run_ops ops r = foldl (\<lambda>r c. apply_op c r) r ops"

definition readings :: "registry_op list \<Rightarrow> TimestampMs list" where
  "readings ops = concat (map clock_readings ops)"

text \<open>Every document that is loaded is sound at the reading of the clock before.\<close>

fun loads_sound :: "TimestampMs \<Rightarrow> registry_op list \<Rightarrow> bool" where
  "loads_sound t [] = True"
| "loads_sound t (c # ops) =
     ((case c of Load j \<Rightarrow> sound_document t j | _ \<Rightarrow> True) \<and> loads_sound (last (t # clock_readings c)) ops)"

text \<open>The lexicographic order on the authority axis (epoch, generation).\<close>

definition axis_le :: "ShardAuthority \<Rightarrow> ShardAuthority \<Rightarrow> bool" where
  "axis_le a b = (sa_epoch a < sa_epoch b \<or> (sa_epoch a = sa_epoch b \<and> sa_generation a \<le> sa_generation b))"

definition axis_less :: "ShardAuthority \<Rightarrow> ShardAuthority \<Rightarrow> bool" where
  "axis_less a b = (sa_epoch a < sa_epoch b \<or> (sa_epoch a = sa_epoch b \<and> sa_generation a < sa_generation b))"

section \<open>Reachable registries satisfy the invariant\<close>

lemma registry_inv_empty: "registry_inv t empty_registry"
  by (simp add: registry_inv_def empty_registry_def)

lemma snd_timed_run: "snd (foldl timed_step s ops) = run_ops ops (snd s)"
  by (induction ops arbitrary: s) (auto simp: run_ops_def timed_step_def)

lemma fst_timed_run: "fst (foldl timed_step s ops) = last (fst s # readings ops)"
  by (induction ops arbitrary: s) (auto simp: readings_def timed_step_def last_append)

lemma sorted_admissible: "sorted (fst s # readings ops) \<Longrightarrow> loads_sound (fst s) ops \<Longrightarrow> registry.admissible s ops"
proof (induction ops arbitrary: s)
  case Nil
  then show ?case by simp
next
  case (Cons c ops)
  have r: "readings (c # ops) = clock_readings c @ readings ops" by (simp add: readings_def)
  have "op_admissible s c"
    using Cons.prems by (simp add: r op_admissible_def load_sound_def clock_monotone_def sorted_append)
  moreover have "sorted (fst (timed_step s c) # readings ops)"
    using Cons.prems unfolding r timed_step_def
    by (auto simp: sorted_append)
  moreover have "loads_sound (fst (timed_step s c)) ops" using Cons.prems by (simp add: timed_step_def)
  ultimately show ?case using Cons.IH by simp
qed

lemma run_inv:
  assumes "sorted (t # readings ops)" "loads_sound t ops" "registry_inv t r"
  shows "registry_inv (last (t # readings ops)) (run_ops ops r)"
proof -
  have "registry.admissible (t, r) ops" using assms(1,2) by (intro sorted_admissible) simp_all
  with assms(3) registry.inv_run [of "(t, r)" ops] show ?thesis
    by (simp add: snd_timed_run fst_timed_run)
qed

section \<open>Claims\<close>

lemma validate_claim_Ok_iff:
  "(validate_claim now c m r = Ok) =
     (\<exists>a l. find_shard r (claim_shard c) = Some a \<and> claim_is_valid c \<and> claim_epoch c = sa_epoch a \<and>
        claim_generation c = sa_generation a \<and> List.find (claim_lease c) (leases a) = Some l \<and>
        is_live l now \<and> attested l \<and>
        (authority_allows_mutation m \<longrightarrow> authority_allows_mutation (lease_mode l)) \<and>
        (authority_allows_read m \<longrightarrow> authority_allows_read (lease_mode l)))"
  by (auto simp: validate_claim_def effective_Active_iff is_live_def split: option.splits)

lemma claim_lease_iff: "claim_lease c l = (lease_holder l = claim_incarnation c \<and> lease_token l = claim_token c)"
  by (simp add: claim_lease_def)

lemma valid_mutating_claim_blocks:
  assumes "validate_claim now c Mutating r = Ok"
  obtains a l where "find_shard r (claim_shard c) = Some a" "l \<in> set (slot_leases now a)"
    "lease_holder l = claim_incarnation c" "lease_token l = claim_token c"
    "claim_epoch c = sa_epoch a" "claim_generation c = sa_generation a"
proof -
  from assms obtain a l where *: "find_shard r (claim_shard c) = Some a"
      "List.find (claim_lease c) (leases a) = Some l" "is_live l now"
      "authority_allows_mutation (lease_mode l)"
      "claim_epoch c = sa_epoch a" "claim_generation c = sa_generation a"
    unfolding validate_claim_Ok_iff by (auto simp: authority_allows_mutation_def)
  from find_SomeD [OF *(2)] have "claim_lease c l" "l \<in> set (leases a)" by auto
  with * have "l \<in> set (slot_leases now a)"
    by (simp add: slot_leases_def blocks_iff is_live_def authority_allows_mutation_def)
  with * \<open>claim_lease c l\<close> that show ?thesis by (simp add: claim_lease_iff)
qed

lemma length_le_1_eq: "length xs \<le> 1 \<Longrightarrow> x \<in> set xs \<Longrightarrow> y \<in> set xs \<Longrightarrow> x = y"
  by (cases xs; cases "tl xs") auto

lemma single_writer:
  assumes "registry_inv now r" "claim_shard c = claim_shard d"
    and "validate_claim now c Mutating r = Ok" "validate_claim now d Mutating r = Ok"
  shows "c = d"
proof -
  from assms(3) obtain a l where c: "find_shard r (claim_shard c) = Some a" "l \<in> set (slot_leases now a)"
      "lease_holder l = claim_incarnation c" "lease_token l = claim_token c"
      "claim_epoch c = sa_epoch a" "claim_generation c = sa_generation a"
    by (rule valid_mutating_claim_blocks)
  from assms(4) obtain b m where d: "find_shard r (claim_shard d) = Some b" "m \<in> set (slot_leases now b)"
      "lease_holder m = claim_incarnation d" "lease_token m = claim_token d"
      "claim_epoch d = sa_epoch b" "claim_generation d = sa_generation b"
    by (rule valid_mutating_claim_blocks)
  from c d assms(2) have ab: "a = b" by simp
  have "length (slot_leases now a) \<le> 1" using assms(1) c(1) by (auto dest: registry_inv_find simp: sa_inv_def)
  then have "l = m" using c(2) d(2) ab by (auto intro: length_le_1_eq)
  with c d ab assms(2) show ?thesis by (cases c; cases d) simp
qed

text \<open>C1: At most one mutating authority. Start from an empty registry and apply any sequence of registry
  operations, loads included, whose clock readings never go back and in which every document that is loaded
  and can be read is sound, that is, satisfies the invariant of the registry when it is loaded (as every
  document does that such a registry wrote). Two claims for the same shard that the registry accepts for
  mutation at a later (or equal) time are then the same claim: same incarnation, same token, same epoch and
  generation.\<close>

theorem at_most_one_mutating_authority:
  assumes "sorted (t # readings ops)" "loads_sound t ops" "last (t # readings ops) \<le> now"
    and "claim_shard c = claim_shard d"
    and "validate_claim now c Mutating (run_ops ops empty_registry) = Ok"
    and "validate_claim now d Mutating (run_ops ops empty_registry) = Ok"
  shows "c = d"
proof (rule single_writer)
  have "registry_inv (last (t # readings ops)) (run_ops ops empty_registry)"
    using assms(1,2) registry_inv_empty by (rule run_inv)
  then show "registry_inv now (run_ops ops empty_registry)" using assms(3) by (rule registry_inv_mono)
qed (use assms in auto)

section \<open>The authority axis\<close>

lemma axis_le_refl [simp]: "axis_le a a"
  by (simp add: axis_le_def)

lemma axis_le_expire [simp]: "axis_le a (expire_in_place b now) = axis_le a b" "axis_le (expire_in_place a now) b = axis_le a b"
  by (simp_all add: axis_le_def)

lemma axis_issue_lease [simp]:
  "sa_epoch (fst (issue_lease now tok req a)) = sa_epoch a"
  "sa_generation (fst (issue_lease now tok req a)) = sa_generation a"
  by (simp_all add: issue_lease_def Let_def split: option.splits)

lemma axis_grant_fresh: "axis_le a (fst (grant_fresh now tok req a))"
  by (auto simp: grant_fresh_def axis_le_def dest: tagged_next_greater split: option.splits)

lemma axis_grant_shard: "axis_le a (fst (grant_shard now now' tok req a))"
  using axis_grant_fresh [of "expire_in_place a now" now tok req]
  by (auto simp: grant_shard_def grant_mutating_def grant_shared_def Let_def axis_le_def split: option.splits)

lemma axis_shard_ops:
  "axis_le a (fst (renew_shard now lid ttl a))"
  "axis_le a (fst (request_fence_shard now shard tgt reason a))"
  "axis_le a (fst (acknowledge_fence_shard now holder fid a))"
  "axis_le a (fst (revoke_shard lid reason a))"
  "axis_le a (fst (reattest_shard now holder tok a))"
  "axis_le a (fst (advance_epoch_shard epoch a))"
  by (auto simp: renew_shard_def request_fence_shard_def acknowledge_fence_shard_def revoke_shard_def
      reattest_shard_def advance_epoch_shard_def axis_le_def Let_def dest: tagged_next_greater
      split: option.splits)

lemma find_put_shard: "find_shard (put_shard r s a) s' = (if s' = s then Some a else find_shard r s')"
  by (simp add: find_shard_def put_shard_def)

lemma axis_with_shard:
  assumes "find_shard (fst (with_shard sh f r)) s = Some a'" "find_shard r s = Some a"
    "\<And>a. axis_le a (fst (f a))"
  shows "axis_le a a'"
  using assms by (auto simp: with_shard_def case_prod_beta find_put_shard split: option.splits if_splits)

lemma find_expire_due: "find_shard (fst (expire_due now r)) s = map_option (\<lambda>a. expire_in_place a now) (find_shard r s)"
proof -
  have "omap_find s (map (\<lambda>(k, a). (k, expire_in_place a now)) m) =
      map_option (\<lambda>a. expire_in_place a now) (omap_find s m)" for m
    by (induction m) auto
  then show ?thesis by (simp add: expire_due_def find_shard_def)
qed

text \<open>No operation of a registry in service moves the authority axis back: for every shard that exists before
  and after an operation other than a load, the pair (epoch, generation) is lexicographically not smaller afterwards.\<close>

theorem authority_axis_monotone:
  assumes "find_shard r s = Some a" "find_shard (apply_op c r) s = Some a'" "\<And>j. c \<noteq> Load j"
  shows "axis_le a a'"
proof (cases c)
  case (Establish sh e)
  with assms show ?thesis by (auto simp: establish_def find_put_shard split: if_splits)
next
  case (Grant now now' tok req)
  with assms axis_grant_shard show ?thesis
    by (auto simp: grant_def case_prod_beta find_put_shard split: option.splits if_splits)
next
  case (ExpireDue now)
  with assms show ?thesis by (auto simp: find_expire_due)
next
  case Clear
  with assms show ?thesis by (simp add: registry_clear_def find_shard_def)
qed (use assms in \<open>auto simp: renew_def request_fence_def acknowledge_fence_def revoke_def
      reattest_def advance_epoch_def axis_shard_ops elim!: axis_with_shard\<close>)

section \<open>Granting\<close>

lemma expire_lease_blocking: "blocks_mutation_slot l now' \<Longrightarrow> now \<le> now' \<Longrightarrow> expire_lease now l = l"
  by (auto simp: blocks_iff expire_lease_def)

lemma slot_leases_expire:
  assumes "now \<le> now'"
  shows "slot_leases now' (expire_in_place a now) = slot_leases now' a"
proof -
  have "filter (\<lambda>l. blocks_mutation_slot l now') (map (expire_lease now) ls) =
      filter (\<lambda>l. blocks_mutation_slot l now') ls" for ls
  proof (induction ls)
    case (Cons l ls)
    show ?case
    proof (cases "blocks_mutation_slot l now'")
      case True
      with Cons assms show ?thesis by (simp add: expire_lease_blocking)
    next
      case False
      then have "\<not> blocks_mutation_slot (expire_lease now l) now'" by (blast dest: blocks_expire_lease)
      with Cons False show ?thesis by simp
    qed
  qed simp
  then show ?thesis by (simp add: slot_leases_def)
qed

lemma find_by_id:
  assumes "leases_wf a" "l \<in> set (leases a)"
  shows "List.find (\<lambda>m. lease_id m = lease_id l) (leases a) = Some l"
proof (cases "List.find (\<lambda>m. lease_id m = lease_id l) (leases a)")
  case None
  with assms(2) show ?thesis by (auto simp: find_None_iff)
next
  case (Some m)
  with find_SomeD [OF Some] assms show ?thesis by (auto intro: distinct_ids_eq)
qed

lemma leases_wf_expire [simp]: "leases_wf (expire_in_place a now) = leases_wf a"
  by (simp add: leases_wf_def comp_def)

lemma active_mutating_slot: "active_mutating a now = (case slot_leases now a of [] \<Rightarrow> None | l # _ \<Rightarrow> Some l)"
proof -
  have "List.find P xs = (case filter P xs of [] \<Rightarrow> None | x # _ \<Rightarrow> Some x)" for P and xs :: "'a list"
    by (induction xs) auto
  then show ?thesis by (simp add: active_mutating_def slot_leases_def)
qed

lemma issue_lease_Inr:
  "snd (issue_lease now tok req a) = Inr l \<Longrightarrow> l = new_lease now tok req a"
  by (auto simp: issue_lease_def Let_def split: option.splits)

lemma grant_Inr_cases:
  assumes "grant now now' tok req r = (r', Inr l)"
  obtains a a' where "find_shard r (req_shard req) = Some a" "grant_shard now now' tok req a = (a', Inr l)"
    "r' = put_shard r (req_shard req) a'"
  using assms by (auto simp: grant_def Let_def split: option.splits prod.splits)

text \<open>A successful grant of mutating authority is either a renewal by the holder of the one lease
  that occupies the slot, which stays under its token and generation, or a fresh lease issued while
  no lease of the shard occupies the slot (every earlier holder is fenced, expired or revoked),
  under a new generation exactly one above the old one.\<close>

theorem mutating_grant_outcome:
  assumes "registry_inv t r" "t \<le> now" "now \<le> now'" "req_mode req = Mutating"
    and "grant now now' tok req r = (r', Inr l)"
  shows "\<exists>a a'. find_shard r (req_shard req) = Some a \<and> find_shard r' (req_shard req) = Some a' \<and>
    ((\<exists>old. slot_leases now' a = [old] \<and> lease_holder old = req_holder req \<and> lease_state old = Active \<and>
        l = renewed_by_grant now req old \<and> sa_generation a' = sa_generation a) \<or>
     (slot_leases now' a = [] \<and> unat (sa_generation a') = Suc (unat (sa_generation a)) \<and>
        l = new_lease now tok req (a\<lparr>sa_generation := sa_generation a'\<rparr>) \<and> l = last (leases a')))"
proof -
  from assms(5) obtain a a' where a: "find_shard r (req_shard req) = Some a"
      "grant_shard now now' tok req a = (a', Inr l)" "r' = put_shard r (req_shard req) a'"
    by (rule grant_Inr_cases)
  let ?e = "expire_in_place a now"
  have inv: "sa_inv now' a" using assms(1,2,3) a(1) by (meson order_trans registry_inv_find sa_inv_mono)
  then have one: "length (slot_leases now' a) \<le> 1" and wf: "leases_wf a" by (auto simp: sa_inv_def)
  from a(2) assms(4) have g: "grant_mutating now now' tok req ?e = (a', Inr l)"
    by (auto simp: grant_shard_def split: if_splits)
  have slots: "slot_leases now' ?e = slot_leases now' a" using assms(3) by (rule slot_leases_expire)
  show ?thesis
  proof (cases "slot_leases now' a")
    case Nil
    then have "active_mutating ?e now' = None" by (simp add: active_mutating_slot slots)
    with g have gf: "grant_fresh now tok req ?e = (a', Inr l)" by (simp add: grant_mutating_def)
    then obtain gen n where gen: "tagged_next (sa_generation a) = Some gen"
        and n: "tagged_next (next_lease_id a) = Some n"
        and l: "l = new_lease now tok req (?e\<lparr>sa_generation := gen\<rparr>)"
        and a': "a' = ?e\<lparr>sa_generation := gen, next_lease_id := n,
             leases := push_bounded kMaxLeaseHistoryPerShard (leases ?e) l\<rparr>"
      using assms(4) by (auto simp: grant_fresh_def issue_lease_def Let_def split: option.splits)
    have "l = last (leases a')" using a' by (simp add: last_push_bounded kMaxLeaseHistoryPerShard_def)
    moreover have "l = new_lease now tok req (a\<lparr>sa_generation := sa_generation a'\<rparr>)"
      using l a' by (simp add: new_lease_def)
    moreover have "unat (sa_generation a') = Suc (unat (sa_generation a))"
      using a' gen by (simp add: unat_tagged_next)
    ultimately show ?thesis using Nil a by (simp add: find_put_shard)
  next
    case (Cons old rest)
    with one have rest: "rest = []" by simp
    have act: "active_mutating ?e now' = Some old" using Cons by (simp add: active_mutating_slot slots)
    have "old \<in> set (slot_leases now' ?e)" using Cons slots by simp
    then have old: "old \<in> set (leases ?e)" by (simp add: slot_leases_def)
    have f: "List.find (\<lambda>m. lease_id m = lease_id old) (leases ?e) = Some old"
      using wf old by (intro find_by_id) simp_all
    with g act have "lease_holder old = req_holder req \<and> effective_state old now = Active \<and>
        l = renewed_by_grant now req old \<and> sa_generation a' = sa_generation a"
      by (auto simp: grant_mutating_def split: if_splits)
    then show ?thesis using Cons rest a by (auto simp: find_put_shard effective_Active_iff)
  qed
qed

section \<open>Fencing\<close>

lemma with_shard_Ok_cases:
  assumes "with_shard s f r = (r', Ok)"
  obtains a a' where "find_shard r s = Some a" "f a = (a', Ok)" "r' = put_shard r s a'"
  using assms by (auto simp: with_shard_def Let_def split: option.splits prod.splits)

lemma request_fence_shard_Ok:
  assumes "request_fence_shard now s tgt reason a = (a', Ok)"
  obtains holder g n where
    "List.find (fence_target_lease tgt now) (map (expire_lease now) (leases a)) = Some holder"
    "tagged_next (sa_generation a) = Some g" "tagged_next (next_fence_id a) = Some n"
    "a' = expire_in_place a now\<lparr>sa_generation := g, next_fence_id := n,
       leases := update_first (fence_target_lease tgt now) (\<lambda>l. l\<lparr>lease_state := Fencing\<rparr>)
         (map (expire_lease now) (leases a)),
       fences := push_bounded kMaxFenceHistoryPerShard (fences a)
         (new_fence now s tgt reason g (lease_id holder) (expire_in_place a now))\<rparr>"
  using assms by (auto simp: request_fence_shard_def Let_def split: if_splits option.splits)

text \<open>C10: Fencing invalidates every outstanding claim at once: a claim on the shard that was accepted
  before a successful \<^verbatim>\<open>request_fence\<close> is refused with \<^verbatim>\<open>StaleGeneration\<close> after it, at any
  time and for any required mode.\<close>

theorem fence_invalidates_claims:
  assumes "request_fence now s tgt reason r = (r', Ok)"
    and "claim_shard c = s" "validate_claim now0 c m r = Ok"
  shows "validate_claim now1 c m' r' = StaleGeneration"
proof -
  from assms(1) obtain a a' where a: "find_shard r s = Some a"
      "request_fence_shard now s tgt reason a = (a', Ok)" "r' = put_shard r s a'"
    unfolding request_fence_def by (rule with_shard_Ok_cases)
  from a(2) obtain g where g: "tagged_next (sa_generation a) = Some g" "sa_generation a' = g"
      "sa_epoch a' = sa_epoch a"
    by (rule request_fence_shard_Ok) simp
  then have "sa_generation a \<noteq> sa_generation a'" by (auto dest: tagged_next_greater)
  moreover from assms(2,3) a(1) have "claim_is_valid c" "claim_epoch c = sa_epoch a"
      "claim_generation c = sa_generation a" by (auto simp: validate_claim_Ok_iff)
  ultimately show ?thesis using a(3) g(3) assms(2) by (simp add: validate_claim_def find_put_shard)
qed

lemma request_fence_slot:
  assumes "sa_inv t a" "t \<le> now" "request_fence_shard now s tgt reason a = (a', Ok)"
  obtains l where "l \<in> set (leases a')" "lease_state l = Fencing" "lease_mode l = Mutating"
    "lease_holder l = tgt" "now < expires_at_ms l"
proof -
  from assms(3) obtain holder where h:
      "List.find (fence_target_lease tgt now) (map (expire_lease now) (leases a)) = Some holder"
      "leases a' = update_first (fence_target_lease tgt now) (\<lambda>l. l\<lparr>lease_state := Fencing\<rparr>)
         (map (expire_lease now) (leases a))"
    by (rule request_fence_shard_Ok) simp
  from find_SomeD [OF h(1)] have ex: "\<exists>l \<in> set (map (expire_lease now) (leases a)). fence_target_lease tgt now l"
    by blast
  from update_first_split [OF ex, of "\<lambda>l. l\<lparr>lease_state := Fencing\<rparr>"] obtain ys x zs where
      "fence_target_lease tgt now x"
      "leases a' = ys @ x\<lparr>lease_state := Fencing\<rparr> # zs"
    unfolding h(2) by metis
  then show ?thesis
    by (intro that [of "x\<lparr>lease_state := Fencing\<rparr>"]) (auto simp: fence_target_lease_def effective_Active_iff)
qed

lemma grant_blocked:
  assumes "registry_inv t r" "t \<le> now" "now \<le> now'" "req_mode req = Mutating"
    and "find_shard r (req_shard req) = Some a" "l \<in> set (slot_leases now' a)" "lease_state l = Fencing"
    and "incarnation_is_valid (req_holder req)" "0 < req_ttl_ms req" "req_ttl_ms req \<le> kMaxLeaseTtlMs"
  shows "snd (grant now now' tok req r) = Inl AuthorityConflict"
proof -
  have inv: "sa_inv now' a" using assms by (meson order_trans registry_inv_find sa_inv_mono)
  then have "slot_leases now' a = [l]"
    using assms(6) by (cases "slot_leases now' a") (auto simp: sa_inv_def)
  then have "active_mutating (expire_in_place a now) now' = Some l"
    using assms(3) by (simp add: active_mutating_slot slot_leases_expire)
  then have "snd (grant_mutating now now' tok req (expire_in_place a now)) = Inl AuthorityConflict"
    using assms(7) by (simp add: grant_mutating_def effective_Active_iff)
  then show ?thesis
    using assms by (simp add: grant_def case_prod_beta grant_shard_def not_less)
qed

text \<open>A requested fence keeps the mutation slot busy. After a successful \<^verbatim>\<open>request_fence\<close>, and
  until the fenced lease expires, no well-formed request for mutating authority on the shard is
  granted, neither to the fenced incarnation nor to anyone else: the registry answers
  \<^verbatim>\<open>AuthorityConflict\<close>.\<close>

theorem fence_keeps_slot_busy:
  assumes "registry_inv t r" "t \<le> now" "request_fence now s tgt reason r = (r', Ok)"
  shows "\<exists>a' l. find_shard r' s = Some a' \<and> l \<in> set (leases a') \<and> lease_holder l = tgt \<and>
    lease_state l = Fencing \<and> now < expires_at_ms l \<and>
    (\<forall>now1 now2 tok req. now \<le> now1 \<and> now1 \<le> now2 \<and> now2 < expires_at_ms l \<and> req_shard req = s \<and>
       req_mode req = Mutating \<and> incarnation_is_valid (req_holder req) \<and> 0 < req_ttl_ms req \<and>
       req_ttl_ms req \<le> kMaxLeaseTtlMs \<longrightarrow> snd (grant now1 now2 tok req r') = Inl AuthorityConflict)"
proof -
  from assms(3) obtain a a' where a: "find_shard r s = Some a"
      "request_fence_shard now s tgt reason a = (a', Ok)" "r' = put_shard r s a'"
    unfolding request_fence_def by (rule with_shard_Ok_cases)
  from a(1) assms(1) have "sa_inv t a" by (auto dest: registry_inv_find)
  from request_fence_slot [OF this assms(2) a(2)] obtain l where l: "l \<in> set (leases a')"
      "lease_state l = Fencing" "lease_mode l = Mutating" "lease_holder l = tgt" "now < expires_at_ms l" .
  have inv: "registry_inv now r'"
    using timed_step_inv [of "(t, r)" "RequestFence now s tgt reason"] assms
    by (simp add: timed_step_def op_admissible_def load_sound_def clock_monotone_def)
  have f: "find_shard r' s = Some a'" using a(3) by (simp add: find_put_shard)
  have "snd (grant now1 now2 tok req r') = Inl AuthorityConflict"
    if "now \<le> now1" "now1 \<le> now2" "now2 < expires_at_ms l" "req_shard req = s" "req_mode req = Mutating"
      "incarnation_is_valid (req_holder req)" "0 < req_ttl_ms req" "req_ttl_ms req \<le> kMaxLeaseTtlMs"
    for now1 now2 tok req
    using that f l by (intro grant_blocked [OF inv]) (auto simp: slot_leases_def blocks_iff)
  with f l show ?thesis by blast
qed

end
