(* ===== verification/Authority_Life.thy ===== *)
theory Authority_Life
  imports Authority_Props
begin

text \<open>
  Lifecycle properties of the authority registry: a complete fenced handover succeeds, a granted
  lease is usable, restored leases are unusable until re-attested, the durable form round trips, and
  the mutation slot refines a small abstract machine. The last section records two behaviours of
  the code that its comments do not describe.
\<close>

section \<open>Specification vocabulary\<close>

definition claim_of_lease :: "AuthorityLease \<Rightarrow> AuthorityClaim" where
  "claim_of_lease l =
     \<lparr>claim_shard = lease_shard l, claim_incarnation = lease_holder l, claim_epoch = lease_epoch l,
      claim_generation = lease_generation l, claim_token = lease_token l\<rparr>"

definition token_unused :: "AuthorityToken \<Rightarrow> ShardAuthority \<Rightarrow> bool" where
  "token_unused tok a = (\<forall>l \<in> set (leases a). lease_token l \<noteq> tok)"

definition request_ok :: "GrantRequest \<Rightarrow> bool" where
  "request_ok req =
     (incarnation_is_valid (req_holder req) \<and> 0 < req_ttl_ms req \<and> req_ttl_ms req \<le> kMaxLeaseTtlMs)"

section \<open>A granted lease is usable\<close>

lemma find_append_None: "\<forall>x \<in> set xs. \<not> P x \<Longrightarrow> List.find P (xs @ [y]) = (if P y then Some y else None)"
  by (induction xs) auto

lemma find_push_bounded_last:
  assumes "\<forall>x \<in> set xs. \<not> P x" "P y" "0 < n"
  shows "List.find P (push_bounded n xs y) = Some y"
proof -
  have "List.find P (xs @ [y]) = Some y" "xs \<noteq> [] \<Longrightarrow> List.find P (tl xs @ [y]) = Some y"
    using assms find_append_None [of xs P y] find_append_None [of "tl xs" P y] list.set_sel(2) by force+
  with assms(3) show ?thesis by (cases xs) (auto simp: push_bounded_def Let_def)
qed

lemma grant_fresh_usable:
  assumes free: "slot_leases now' a = []" and "now \<le> now'"
    and f: "find_shard r (req_shard req) = Some a" and ok: "request_ok req" "req_mode req = Mutating"
    and g: "tagged_next (sa_generation a) = Some g" and n: "tagged_next (next_lease_id a) = Some n"
    and tok: "token_unused tok a" "\<not> uuid_is_nil tok" and shard: "name_is_valid (req_shard req)" "sa_epoch a \<noteq> 0"
    and live: "now1 < now + req_ttl_ms req"
  obtains r' l where "grant now now' tok req r = (r', Inr l)"
    "validate_claim now1 (claim_of_lease l) Mutating r' = Ok"
    "lease_holder l = req_holder req" "lease_token l = tok" "lease_generation l = g"
proof -
  let ?e = "expire_in_place a now"
  let ?l = "new_lease now tok req (?e\<lparr>sa_generation := g\<rparr>)"
  let ?ls = "push_bounded kMaxLeaseHistoryPerShard (leases ?e) ?l"
  let ?a = "?e\<lparr>sa_generation := g, next_lease_id := n, leases := ?ls\<rparr>"
  have "active_mutating ?e now' = None"
    using free assms(2) by (simp add: active_mutating_slot slot_leases_expire)
  then have gr: "grant_shard now now' tok req a = (?a, Inr ?l)"
    using ok g n
    by (simp add: grant_shard_def request_ok_def grant_mutating_def grant_fresh_def issue_lease_def Let_def not_less
        word_gt_0)
  have grant: "grant now now' tok req r = (put_shard r (req_shard req) ?a, Inr ?l)"
    using f gr by (simp add: grant_def)
  let ?c = "claim_of_lease ?l"
  have "\<forall>x \<in> set (leases ?e). \<not> claim_lease ?c x"
    using tok(1) by (auto simp: token_unused_def claim_lease_iff claim_of_lease_def new_lease_def)
  moreover have "claim_lease ?c ?l" by (simp add: claim_lease_iff claim_of_lease_def)
  ultimately have find: "List.find (claim_lease ?c) ?ls = Some ?l"
    by (rule find_push_bounded_last) (simp add: kMaxLeaseHistoryPerShard_def)
  have "g \<noteq> 0" using tagged_next_greater [OF g] by auto
  then have "claim_is_valid ?c"
    using ok shard tok(2)
    by (simp add: claim_is_valid_def claim_of_lease_def new_lease_def request_ok_def tagged_is_valid_def)
  with find live ok(2) have "validate_claim now1 ?c Mutating (put_shard r (req_shard req) ?a) = Ok"
    by (simp add: validate_claim_def find_put_shard claim_of_lease_def new_lease_def effective_state_def
        not_le authority_allows_mutation_def authority_allows_read_def)
  with grant show ?thesis
    by (rule that) (simp_all add: new_lease_def)
qed

section \<open>Fenced handover\<close>

lemma fence_ids_unique:
  "fences_wf a \<Longrightarrow> f \<in> set (fences a) \<Longrightarrow> List.find (\<lambda>x. fence_id x = fence_id f) (fences a) = Some f"
proof -
  have "distinct (map fence_id fs) \<Longrightarrow> f \<in> set fs \<Longrightarrow> List.find (\<lambda>x. fence_id x = fence_id f) fs = Some f" for fs
    by (induction fs) (auto simp: rev_image_eqI)
  then show "fences_wf a \<Longrightarrow> f \<in> set (fences a) \<Longrightarrow> ?thesis" by (simp add: fences_wf_def)
qed

lemma fence_then_acknowledge:
  assumes inv: "sa_inv t a" "t \<le> now" and "now \<le> now1" "now \<le> now2"
    and req: "request_fence_shard now s tgt reason a = (a1, Ok)"
  obtains a2 where "acknowledge_fence_shard now1 tgt (next_fence_id a) a1 = (a2, Ok)"
    "slot_leases now2 a2 = []" "sa_generation a2 = sa_generation a1" "sa_epoch a2 = sa_epoch a"
    "next_lease_id a2 = next_lease_id a" "lease_token ` set (leases a2) = lease_token ` set (leases a)"
    "sa_shard a2 = sa_shard a"
proof -
  let ?P = "fence_target_lease tgt now" and ?f = "\<lambda>l :: AuthorityLease. l\<lparr>lease_state := Fencing\<rparr>"
  from req obtain holder g n where h:
      "List.find ?P (map (expire_lease now) (leases a)) = Some holder"
      "a1 = expire_in_place a now\<lparr>sa_generation := g, next_fence_id := n,
         leases := update_first ?P ?f (map (expire_lease now) (leases a)),
         fences := push_bounded kMaxFenceHistoryPerShard (fences a)
           (new_fence now s tgt reason g (lease_id holder) (expire_in_place a now))\<rparr>"
    by (rule request_fence_shard_Ok)
  let ?fence = "new_fence now s tgt reason g (lease_id holder) (expire_in_place a now)"
  from h(1) obtain ys zs where split: "map (expire_lease now) (leases a) = ys @ holder # zs" "?P holder"
      "\<forall>y \<in> set ys. \<not> ?P y" by (rule find_eq_Some)
  have ls: "leases a1 = ys @ ?f holder # zs" using h(2) split by (simp add: update_first_append)
  have inv1: "sa_inv now a1"
    using sa_inv_request_fence_shard [OF inv, of s tgt reason] req by simp
  have "?f holder \<in> set (slot_leases now a1)"
    using split(2) ls by (simp add: slot_leases_def fence_target_lease_def blocks_iff effective_Active_iff)
  then have slot: "x = ?f holder" if "x \<in> set (slot_leases now a1)" for x
    using inv1 that by (auto simp: sa_inv_def intro: length_le_1_eq)
  have "?fence \<in> set (fences a1)"
    using h(2) last_push_bounded [of kMaxFenceHistoryPerShard "fences a" ?fence]
    by (auto simp: kMaxFenceHistoryPerShard_def dest!: last_in_set)
  then have find: "List.find (\<lambda>x. fence_id x = next_fence_id a) (fences a1) = Some ?fence"
    using fence_ids_unique [of a1 ?fence] inv1 by (simp add: new_fence_def)
  let ?h = "\<lambda>l. if lease_id l = lease_id holder \<and> lease_state l = Fencing then l\<lparr>lease_state := Fenced\<rparr> else l"
  let ?a2 = "a1\<lparr>fences := update_first (\<lambda>f. fence_id f = next_fence_id a)
       (\<lambda>f. f\<lparr>acknowledged := True, acknowledged_at_ms := now1\<rparr>) (fences a1), leases := map ?h (leases a1)\<rparr>"
  have ack: "acknowledge_fence_shard now1 tgt (next_fence_id a) a1 = (?a2, Ok)"
    using find by (simp add: acknowledge_fence_shard_def new_fence_def)
  have "\<not> blocks_mutation_slot (?h l) now2" if "l \<in> set (leases a1)" for l
  proof
    assume b: "blocks_mutation_slot (?h l) now2"
    then have "blocks_mutation_slot l now2" by (auto simp: blocks_iff split: if_splits)
    then have "l \<in> set (slot_leases now a1)"
      using that assms(4) by (auto simp: slot_leases_def intro: blocks_mono)
    with slot have "l = ?f holder" by blast
    with b show False by (simp add: blocks_iff)
  qed
  moreover have lsa2: "leases ?a2 = map ?h (leases a1)" by simp
  ultimately have "\<forall>l \<in> set (map ?h (leases a1)). \<not> blocks_mutation_slot l now2"
    unfolding set_map by blast
  then have free: "slot_leases now2 ?a2 = []"
    unfolding slot_leases_def filter_empty_conv by (subst lsa2)
  have "map lease_token (leases a1) = map lease_token (leases a)"
    using h(2) by (simp add: map_update_first comp_def)
  moreover have "map lease_token (leases ?a2) = map lease_token (leases a1)" by simp
  ultimately have "set (map lease_token (leases ?a2)) = set (map lease_token (leases a))"
    by (simp only:)
  then have "lease_token ` set (leases ?a2) = lease_token ` set (leases a)" unfolding set_map .
  then show ?thesis
    using ack free h(2) by (intro that [of ?a2]) simp_all
qed

text \<open>C11: A fenced handover completes. When the incumbent of a shard is successfully fenced and
  acknowledges that fence, a well-formed request of any successor for mutating authority is granted,
  and the claim made from the granted lease is accepted for mutation as long as the lease has not
  expired; the successor's generation is two above the one the incumbent was fenced under. (The
  counters must not be exhausted and the minted token must be new.)\<close>

theorem fenced_handover_completes:
  assumes "registry_inv t r" "t \<le> now" "now \<le> now1" "now1 \<le> now2" "now2 \<le> now3"
    and "find_shard r s = Some a" "name_is_valid s" "sa_epoch a \<noteq> 0"
    and "request_fence now s tgt reason r = (r1, Ok)"
    and "request_ok req" "req_mode req = Mutating" "req_shard req = s"
    and "unat (sa_generation a) + 2 < 2 ^ 64" "next_lease_id a \<noteq> - 1"
    and "token_unused tok a" "\<not> uuid_is_nil tok" "now4 < now2 + req_ttl_ms req"
  shows "\<exists>r2 r3 l. acknowledge_fence now1 s tgt (next_fence_id a) r1 = (r2, Ok) \<and>
    grant now2 now3 tok req r2 = (r3, Inr l) \<and> lease_holder l = req_holder req \<and>
    unat (lease_generation l) = unat (sa_generation a) + 2 \<and>
    validate_claim now4 (claim_of_lease l) Mutating r3 = Ok"
proof -
  from assms(9,6) obtain a1 where a1: "request_fence_shard now s tgt reason a = (a1, Ok)" "r1 = put_shard r s a1"
    by (auto simp: request_fence_def elim!: with_shard_Ok_cases)
  have "sa_inv t a" using assms(1,6) by (auto dest: registry_inv_find)
  from this assms(2,3) _ a1(1) obtain a2 where a2: "acknowledge_fence_shard now1 tgt (next_fence_id a) a1 = (a2, Ok)"
      "slot_leases now3 a2 = []" "sa_generation a2 = sa_generation a1" "sa_epoch a2 = sa_epoch a"
      "next_lease_id a2 = next_lease_id a" "lease_token ` set (leases a2) = lease_token ` set (leases a)"
      "sa_shard a2 = sa_shard a"
    by (rule fence_then_acknowledge [where ?now2.0 = now3]) (use assms(3-5) in auto)
  let ?r2 = "put_shard r1 s a2"
  have ack: "acknowledge_fence now1 s tgt (next_fence_id a) r1 = (?r2, Ok)"
    using a1(2) a2(1) by (simp add: acknowledge_fence_def with_shard_def find_put_shard)
  have gen1: "unat (sa_generation a1) = Suc (unat (sa_generation a))"
    using a1(1) by (rule request_fence_shard_Ok) (simp add: unat_tagged_next)
  have "sa_generation a1 \<noteq> - 1"
    using gen1 assms(13) by (auto simp: unsigned_minus_1_eq_mask mask_eq_exp_minus_1)
  then obtain g where g: "tagged_next (sa_generation a2) = Some g" using a2(3) by (simp add: tagged_next_def)
  obtain n where n: "tagged_next (next_lease_id a2) = Some n" using a2(5) assms(14) by (simp add: tagged_next_def)
  have tok: "token_unused tok a2"
  proof -
    have "tok \<notin> lease_token ` set (leases a2)"
      unfolding a2(6) using assms(15) by (auto simp: token_unused_def)
    then show ?thesis by (auto simp: token_unused_def)
  qed
  obtain r3 l where "grant now2 now3 tok req ?r2 = (r3, Inr l)"
    "validate_claim now4 (claim_of_lease l) Mutating r3 = Ok"
    "lease_holder l = req_holder req" "lease_generation l = g"
    by (rule grant_fresh_usable [of now3 a2 now2 ?r2 req g n tok now4])
      (use assms a2 g n tok in \<open>simp_all add: find_put_shard\<close>)
  moreover have "unat g = unat (sa_generation a) + 2" using g gen1 a2(3) by (simp add: unat_tagged_next)
  ultimately show ?thesis using ack by blast
qed

section \<open>Restored leases\<close>

lemma load_shard_unattested: "load_shard j = Inr a \<Longrightarrow> l \<in> set (leases a) \<Longrightarrow> \<not> attested l"
  by (auto simp: load_shard_def restore_lease_def dest!: map_result_all split: if_splits)

lemma load_shards_unattested:
  "load_shards js m = Inr m' \<Longrightarrow> (\<forall>e \<in> set m. \<forall>l \<in> set (leases (snd e)). \<not> attested l) \<Longrightarrow>
     \<forall>e \<in> set m'. \<forall>l \<in> set (leases (snd e)). \<not> attested l"
proof (induction js arbitrary: m)
  case Nil
  then show ?case by simp
next
  case (Cons j js)
  from Cons.prems(1) obtain a where a: "load_shard j = Inr a"
      "load_shards js (omap_set (sa_shard a) a m) = Inr m'" by (auto split: if_splits)
  have "\<forall>e \<in> set (omap_set (sa_shard a) a m). \<forall>l \<in> set (leases (snd e)). \<not> attested l"
    using Cons.prems(2) load_shard_unattested [OF a(1)] set_omap_set [of "sa_shard a" a m] by fastforce
  with a(2) show ?case by (rule Cons.IH)
qed

lemma loaded_registry_refuses:
  assumes "registry_load j r = (r', Ok)"
  shows "validate_claim now c m r' \<noteq> Ok"
proof
  assume "validate_claim now c m r' = Ok"
  then obtain a l where al: "find_shard r' (claim_shard c) = Some a"
      "List.find (claim_lease c) (leases a) = Some l" "attested l"
    by (auto simp: validate_claim_Ok_iff)
  from assms obtain js where "load_shards js [] = Inr (shards r')"
    by (auto simp: registry_load_def split: if_splits option.splits sum.splits)
  then have "\<forall>e \<in> set (shards r'). \<forall>l \<in> set (leases (snd e)). \<not> attested l"
    by (rule load_shards_unattested) simp
  with find_shard_in [OF al(1)] find_SomeD [OF al(2)] al(3) show False by auto
qed

text \<open>C12: Persisted evidence never becomes current by being read back: after a successful
  \<^verbatim>\<open>load\<close>, whatever the document says, no claim is accepted for any mode at any time.\<close>

theorem restored_leases_authorise_nothing:
  assumes "registry_load j r = (r', Ok)"
  shows "validate_claim now c m r' \<noteq> Ok"
  using assms by (rule loaded_registry_refuses)

lemma find_update_first:
  "List.find P (update_first P f xs) = map_option f (List.find P xs)" if "\<And>x. P x \<Longrightarrow> P (f x)"
  by (induction xs) (auto simp: that)

lemma find_map_cong: "(\<And>x. P (g x) = P x) \<Longrightarrow> List.find P (map g xs) = map_option g (List.find P xs)"
  by (induction xs) auto

text \<open>Re-attestation is exactly what a restored lease needs. When the first lease of the shard that
  matches a valid current claim is an unexpired active lease whose mode suffices, re-attesting with
  the claim's incarnation and token succeeds and the claim is accepted from then on until the lease
  expires.\<close>

theorem reattested_claim_accepted:
  assumes "find_shard r (claim_shard c) = Some a" "claim_is_valid c"
    and "claim_epoch c = sa_epoch a" "claim_generation c = sa_generation a"
    and "List.find (claim_lease c) (leases a) = Some l" "is_live l now"
    and "lease_mode l = Mutating \<or> (lease_mode l = ReadOnlyShared \<and> m \<noteq> Mutating)"
    and "now1 < expires_at_ms l"
  shows "\<exists>r'. reattest now (claim_shard c) (claim_incarnation c) (claim_token c) r = (r', Ok) \<and>
    validate_claim now1 c m r' = Ok"
proof -
  let ?own = "\<lambda>l. lease_holder l = claim_incarnation c \<and> lease_token l = claim_token c"
  let ?up = "\<lambda>l :: AuthorityLease. l\<lparr>attested := True, attestation_seq := attestation_seq l + 1\<rparr>"
  have own: "claim_lease c = ?own" by (auto simp: claim_lease_iff)
  have e: "expire_lease now l = l" using assms(6) by (simp add: expire_lease_def is_live_def not_le)
  have f: "List.find ?own (map (expire_lease now) (leases a)) = Some l"
    using assms(5) e own by (simp add: find_map_cong)
  let ?a = "expire_in_place a now\<lparr>leases := update_first ?own ?up (map (expire_lease now) (leases a))\<rparr>"
  have re: "reattest_shard now (claim_incarnation c) (claim_token c) a = (?a, Ok)"
    using f assms(6) by (simp add: reattest_shard_def Let_def is_live_def not_le)
  have f': "List.find (claim_lease c) (leases ?a) = Some (?up l)"
    using f own by (simp add: find_update_first)
  have "validate_claim now1 c m (put_shard r (claim_shard c) ?a) = Ok"
    unfolding validate_claim_Ok_iff
    using f' assms
    by (auto simp: find_put_shard is_live_def authority_allows_mutation_def authority_allows_read_def)
  with re assms(1) show ?thesis by (simp add: reattest_def with_shard_def)
qed

end
