(* ===== verification/Authority_Store.thy ===== *)
theory Authority_Store
  imports Authority_Life
begin

text \<open>
  The durable form of the registry: leases, fences, shards and the whole registry round trip through
  their JSON encodings, up to the attestation flag, which a restored lease has lost.
\<close>

section \<open>Storable registries\<close>

definition lease_wf :: "AuthorityLease \<Rightarrow> bool" where
  "lease_wf l =
     (lease_id l \<noteq> 0 \<and> name_is_valid_text (lease_shard l) \<and> incarnation_wf (lease_holder l) \<and>
      lease_epoch l \<noteq> 0 \<and> lease_generation l \<noteq> 0 \<and> uuid_ok (lease_token l) \<and>
      (lease_campaign l = [] \<or> name_is_valid_text (lease_campaign l)))"

definition fence_wf :: "FenceRecord \<Rightarrow> bool" where
  "fence_wf f =
     (fence_id f \<noteq> 0 \<and> name_is_valid_text (fence_shard f) \<and> incarnation_wf (fence_target f) \<and>
      fence_epoch f \<noteq> 0 \<and> fence_generation f \<noteq> 0)"

definition shard_storable :: "ShardAuthority \<Rightarrow> bool" where
  "shard_storable a =
     (name_is_valid_text (sa_shard a) \<and> sa_epoch a \<noteq> 0 \<and> sa_generation a \<noteq> 0 \<and>
      list_all (\<lambda>l. lease_wf l \<and> lease_shard l = sa_shard a) (leases a) \<and> list_all fence_wf (fences a))"

definition registry_storable :: "AuthorityRegistry \<Rightarrow> bool" where
  "registry_storable r =
     (omap_wf (shards r) \<and> list_all (\<lambda>e. sa_shard (snd e) = fst e \<and> shard_storable (snd e)) (shards r))"

definition unattest :: "ShardAuthority \<Rightarrow> ShardAuthority" where
  "unattest a = a\<lparr>leases := map (\<lambda>l. l\<lparr>attested := False\<rparr>) (leases a)\<rparr>"

definition unattest_registry :: "AuthorityRegistry \<Rightarrow> AuthorityRegistry" where
  "unattest_registry r = r\<lparr>shards := map (\<lambda>e. (fst e, unattest (snd e))) (shards r)\<rparr>"

section \<open>Round trip\<close>

lemma mode_name_round_trip [codec_simps]: "mode_from_name (mode_name m) = Some m"
  by (cases m) (simp_all add: mode_from_name_def)

lemma lease_state_name_round_trip [codec_simps]: "lease_state_from_name (lease_state_name st) = Some st"
  by (cases st) (simp_all add: lease_state_from_name_def)

lemma json_find_set_if [codec_simps]:
  "json_find (set_if b k v j) k' = (if b \<and> k' = k then Some v else json_find j k')"
  by (simp add: set_if_def codec_simps)

lemma optional_name_campaign [codec_simps]:
  "c = [] \<or> name_is_valid_text c \<Longrightarrow>
     optional_name (if name_is_valid c then Some c else None) = Inr c"
  by (auto simp: optional_name_def name_is_valid_def name_parse_valid)

lemma lease_json_round_trip [codec_simps]:
  assumes "lease_wf l"
  shows "authority_lease_from_json (lease_to_json l) = Inr l"
proof -
  let ?j = "lease_to_json l"
  have find: "is_object ?j" "json_u64 ?j ''id'' = Some (lease_id l)"
    "json_string ?j ''shard'' = Some (lease_shard l)"
    "json_find ?j ''holder'' = Some (incarnation_to_json (lease_holder l))"
    "json_u64 ?j ''epoch'' = Some (lease_epoch l)" "json_u64 ?j ''generation'' = Some (lease_generation l)"
    "json_string ?j ''token'' = Some (to_compact_string (lease_token l))"
    "json_string ?j ''mode'' = Some (mode_name (lease_mode l))"
    "json_string ?j ''state'' = Some (lease_state_name (lease_state l))"
    "json_u64_or ?j ''issued_at_ms'' 0 = issued_at_ms l" "json_u64_or ?j ''expires_at_ms'' 0 = expires_at_ms l"
    "json_bool_or ?j ''attested'' False = attested l" "json_u64_or ?j ''attestation_seq'' 0 = attestation_seq l"
    "json_string ?j ''campaign'' = (if name_is_valid (lease_campaign l) then Some (lease_campaign l) else None)"
    "json_u64_or ?j ''handoff'' 0 = lease_handoff l" "json_string_or ?j ''reason'' [] = lease_reason l"
    by (simp_all add: lease_to_json_def Let_def json_field_defs codec_simps tagged_is_valid_def)
  show ?thesis
    using assms unfolding authority_lease_from_json_def lease_wf_def
    by (simp add: find codec_simps name_parse_valid)
qed

lemma fence_json_round_trip [codec_simps]:
  assumes "fence_wf f"
  shows "fence_record_from_json (fence_to_json f) = Inr f"
proof -
  let ?j = "fence_to_json f"
  have find: "is_object ?j" "json_u64 ?j ''id'' = Some (fence_id f)"
    "json_string ?j ''shard'' = Some (fence_shard f)"
    "json_find ?j ''target'' = Some (incarnation_to_json (fence_target f))"
    "json_u64 ?j ''epoch'' = Some (fence_epoch f)" "json_u64 ?j ''generation'' = Some (fence_generation f)"
    "json_u64_or ?j ''fenced_lease'' 0 = fenced_lease f" "json_u64_or ?j ''issued_at_ms'' 0 = fence_issued_at_ms f"
    "json_u64_or ?j ''acknowledged_at_ms'' 0 = acknowledged_at_ms f"
    "json_bool_or ?j ''acknowledged'' False = acknowledged f" "json_string_or ?j ''reason'' [] = fence_reason f"
    by (simp_all add: fence_to_json_def json_field_defs codec_simps)
  show ?thesis
    using assms unfolding fence_record_from_json_def fence_wf_def
    by (simp add: find codec_simps name_parse_valid)
qed

interpretation lease_codec: json_codec lease_to_json authority_lease_from_json lease_wf
  by unfold_locales (rule lease_json_round_trip)

interpretation fence_codec: json_codec fence_to_json fence_record_from_json fence_wf
  by unfold_locales (rule fence_json_round_trip)

lemma map_result_restore:
  "list_all (\<lambda>l. lease_wf l \<and> lease_shard l = s) ls \<Longrightarrow>
     map_result (restore_lease s) (map lease_to_json ls) = Inr (map (\<lambda>l. l\<lparr>attested := False\<rparr>) ls)"
  by (induction ls) (auto simp: restore_lease_def lease_json_round_trip)

lemma shard_json_round_trip:
  assumes "shard_storable a"
  shows "load_shard (shard_to_json a) = Inr (unattest a)"
proof -
  let ?j = "shard_to_json a"
  have find: "is_object ?j" "json_string ?j ''shard'' = Some (sa_shard a)"
    "json_u64 ?j ''epoch'' = Some (sa_epoch a)" "json_u64 ?j ''generation'' = Some (sa_generation a)"
    "optional_array ?j ''leases'' = Inr (map lease_to_json (leases a))"
    "optional_array ?j ''fences'' = Inr (map fence_to_json (fences a))"
    "json_u64_or ?j ''next_lease_id'' 1 = next_lease_id a" "json_u64_or ?j ''next_fence_id'' 1 = next_fence_id a"
    by (simp_all add: shard_to_json_def json_field_defs optional_array_def codec_simps)
  show ?thesis
    using assms unfolding load_shard_def shard_storable_def
    by (simp add: find codec_simps name_parse_valid map_result_restore fence_codec.array_round_trip unattest_def)
qed

lemma load_shards_sorted:
  assumes "omap_wf (acc @ m)" "list_all (\<lambda>e. sa_shard (snd e) = fst e \<and> shard_storable (snd e)) m"
  shows "load_shards (map (\<lambda>e. shard_to_json (snd e)) m) acc = Inr (acc @ map (\<lambda>e. (fst e, unattest (snd e))) m)"
  using assms
proof (induction m arbitrary: acc)
  case Nil
  then show ?case by simp
next
  case (Cons e m)
  obtain k a where e: "e = (k, a)" by (cases e)
  have less: "\<forall>x \<in> set (map fst acc). x < k"
    using Cons.prems(1) e by (simp add: omap_wf_def sorted_wrt_append)
  then have "omap_find k acc = None"
    by (auto simp: omap_find_map_of map_of_eq_None_iff)
  moreover have "sa_shard (unattest a) = k" using Cons.prems(2) e by (simp add: unattest_def)
  moreover have "omap_set k (unattest a) acc = acc @ [(k, unattest a)]" using less by (rule omap_set_last)
  moreover have "omap_wf ((acc @ [(k, unattest a)]) @ m)"
    using Cons.prems(1) e by (simp add: omap_wf_def)
  ultimately show ?case
    using Cons.IH [of "acc @ [(k, unattest a)]"] Cons.prems(2) e
    by (simp add: shard_json_round_trip)
qed

lemma registry_json_round_trip:
  assumes "registry_storable r"
  shows "registry_load (registry_to_json r) r0 = (unattest_registry r, Ok)"
proof -
  let ?j = "registry_to_json r"
  have find: "is_object ?j"
    "json_find ?j ''shards'' = Some (JArray (map (\<lambda>e. shard_to_json (snd e)) (shards r)))"
    "json_u64_or ?j ''next_lease_id'' 1 = reg_next_lease_id r" "json_u64_or ?j ''next_fence_id'' 1 = reg_next_fence_id r"
    by (simp_all add: registry_to_json_def json_field_defs codec_simps)
  have "load_shards (map (\<lambda>e. shard_to_json (snd e)) (shards r)) [] =
      Inr (map (\<lambda>e. (fst e, unattest (snd e))) (shards r))"
    using assms load_shards_sorted [of "[]" "shards r"] by (simp add: registry_storable_def)
  then have "registry_load ?j r0 =
      (\<lparr>shards = map (\<lambda>e. (fst e, unattest (snd e))) (shards r),
        reg_next_lease_id = reg_next_lease_id r, reg_next_fence_id = reg_next_fence_id r\<rparr>, Ok)"
    by (simp add: registry_load_def find codec_simps)
  then show ?thesis by (cases r) (simp add: unattest_registry_def)
qed

text \<open>C15: The durable form of the registry round trips: loading the encoding of a registry whose
  identities are valid gives the same registry with every lease unattested, whatever registry the
  document is loaded into.\<close>

theorem registry_round_trip:
  assumes "registry_storable r"
  shows "registry_load (registry_to_json r) r0 = (unattest_registry r, Ok)"
  using assms by (rule registry_json_round_trip)

section \<open>Documents of a registry are sound\<close>

lemma unattest_inv: "registry_inv now r \<Longrightarrow> registry_inv now (unattest_registry r)"
proof -
  have b: "blocks_mutation_slot (l\<lparr>attested := False\<rparr>) now = blocks_mutation_slot l now" for l
    by (simp add: blocks_iff)
  have "sa_inv now a \<Longrightarrow> sa_inv now (unattest a)" for a
    by (rule sa_inv_map [where f = "\<lambda>l. l\<lparr>attested := False\<rparr>" and a = a])
      (simp_all add: unattest_def b sa_inv_def fences_wf_def)
  moreover assume "registry_inv now r"
  ultimately show ?thesis
    by (auto simp: registry_inv_def unattest_registry_def omap_wf_def comp_def unattest_def)
qed

text \<open>What a registry that satisfies its invariant writes can be loaded again at any later time without harm.\<close>

lemma saved_document_sound:
  assumes "registry_inv t r" "t \<le> now" "registry_storable r"
  shows "sound_document now (registry_to_json r)"
  using unattest_inv [OF registry_inv_mono [OF assms(1,2)]]
  by (simp add: sound_document_def registry_json_round_trip [OF assms(3)])

end
