(* ===== verification/Authority_Slot.thy ===== *)
theory Authority_Slot
  imports Authority_Life
begin

text \<open>
  The mutation slot of a shard as a three-state abstract machine, the refinement of that machine by
  the registry's operations, the theorem that the slot changes hands only after the incumbent's
  lease has ended (invariant I3 of \<^verbatim>\<open>authority.hpp\<close>), and the one way round it: a lease erased
  by the history limit.
\<close>

section \<open>The abstract slot\<close>

datatype slot = Free | Held LeaseId | Closing LeaseId

text \<open>
  One step of the abstract slot. \<open>ended i\<close> says that lease \<open>i\<close> is known to have ended: an occupied
  slot is vacated only by the end of the lease that occupies it.
\<close>

inductive slot_step :: "(LeaseId \<Rightarrow> bool) \<Rightarrow> slot \<Rightarrow> slot \<Rightarrow> bool" for ended where
  keep: "slot_step ended s s"
| acquire: "slot_step ended Free (Held i)"
| fence: "slot_step ended (Held i) (Closing i)"
| release_held: "ended i \<Longrightarrow> slot_step ended (Held i) Free"
| release_closing: "ended i \<Longrightarrow> slot_step ended (Closing i) Free"

inductive_cases slot_step_HeldE: "slot_step ended (Held i) s"
inductive_cases slot_step_ClosingE: "slot_step ended (Closing i) s"

fun occupant :: "slot \<Rightarrow> LeaseId option" where
  "occupant Free = None"
| "occupant (Held i) = Some i"
| "occupant (Closing i) = Some i"

lemma slot_step_occupied:
  assumes "slot_step ended s s'" "occupant s = Some i"
  shows "occupant s' = Some i \<and> (s = Closing i \<longrightarrow> s' = Closing i) \<or> s' = Free \<and> ended i"
  using assms by (cases rule: slot_step.cases) auto

text \<open>
  What a component that implements the slot promises: every step of it is a step of the abstract
  slot. Its client obtains that the slot changes hands only after the incumbent's lease ended.
\<close>

locale fenced_slot =
  fixes slot :: "'s \<Rightarrow> slot"
    and step :: "'s \<Rightarrow> 's \<Rightarrow> bool"
    and ended :: "'s \<Rightarrow> LeaseId \<Rightarrow> bool"
  assumes refines: "step s s' \<Longrightarrow> slot_step (ended s') (slot s) (slot s')"
begin

lemma occupied_until_ended:
  assumes "step\<^sup>*\<^sup>* s s'" "occupant (slot s) = Some i"
  shows "occupant (slot s') = Some i \<and> (slot s = Closing i \<longrightarrow> slot s' = Closing i) \<or>
    (\<exists>m. step\<^sup>*\<^sup>* s m \<and> step\<^sup>*\<^sup>* m s' \<and> slot m = Free \<and> ended m i)"
  using assms(1)
proof (induction rule: rtranclp_induct)
  case base
  with assms(2) show ?case by blast
next
  case (step y z)
  then consider
      (occ) "occupant (slot y) = Some i" "slot s = Closing i \<longrightarrow> slot y = Closing i"
    | (free) m where "step\<^sup>*\<^sup>* s m" "step\<^sup>*\<^sup>* m y" "slot m = Free" "ended m i"
    by blast
  then show ?case
  proof cases
    case occ
    from slot_step_occupied [OF refines [OF step.hyps(2)] occ(1)] occ(2) step.hyps show ?thesis
      by (auto intro: rtranclp.rtrancl_into_rtrancl)
  next
    case free
    with step.hyps(2) show ?thesis by (auto intro: rtranclp.rtrancl_into_rtrancl)
  qed
qed

lemma handover_after_end:
  assumes "step\<^sup>*\<^sup>* s s'" "occupant (slot s) = Some i" "slot s' = Held j" "i \<noteq> j \<or> slot s = Closing i"
  shows "\<exists>m. step\<^sup>*\<^sup>* s m \<and> step\<^sup>*\<^sup>* m s' \<and> slot m = Free \<and> ended m i"
  using occupied_until_ended [OF assms(1,2)] assms(3,4) by auto

end

section \<open>The slot of a shard\<close>

definition slot_of :: "TimestampMs \<Rightarrow> ShardAuthority \<Rightarrow> slot" where
  "slot_of now a =
     (case active_mutating a now of
        None \<Rightarrow> Free
      | Some l \<Rightarrow> if lease_state l = Active then Held (lease_id l) else Closing (lease_id l))"

definition lease_ended :: "TimestampMs \<Rightarrow> ShardAuthority \<Rightarrow> LeaseId \<Rightarrow> bool" where
  "lease_ended now a i =
     list_ex (\<lambda>l. lease_id l = i \<and> effective_state l now \<in> {Fenced, Expired, Revoked}) (leases a)"

text \<open>
  The history limit can erase the lease that occupies the slot: the oldest lease goes when a new
  lease is stored in a full history.
\<close>

definition evicts_slot :: "TimestampMs \<Rightarrow> ShardAuthority \<Rightarrow> bool" where
  "evicts_slot now a =
     (case leases a of
        [] \<Rightarrow> False
      | l # ls \<Rightarrow> length ls + 1 \<ge> kMaxLeaseHistoryPerShard \<and> blocks_mutation_slot l now)"

text \<open>One shard over time: the clock advances, or one operation of the registry acts on the shard.\<close>

inductive shard_step :: "TimestampMs \<times> ShardAuthority \<Rightarrow> TimestampMs \<times> ShardAuthority \<Rightarrow> bool" where
  tick: "t \<le> t' \<Longrightarrow> shard_step (t, a) (t', a)"
| expire: "shard_step (t, a) (t, expire_in_place a t)"
| grant: "now \<le> t \<Longrightarrow> req_shard req = sa_shard a \<Longrightarrow> \<not> evicts_slot t a \<Longrightarrow>
     shard_step (t, a) (t, fst (grant_shard now t tok req a))"
| renew: "shard_step (t, a) (t, fst (renew_shard t lid ttl a))"
| request_fence: "shard_step (t, a) (t, fst (request_fence_shard t s tgt reason a))"
| acknowledge_fence: "shard_step (t, a) (t, fst (acknowledge_fence_shard t holder fid a))"
| revoke: "shard_step (t, a) (t, fst (revoke_shard lid reason a))"
| reattest: "shard_step (t, a) (t, fst (reattest_shard t holder tok a))"
| advance_epoch: "shard_step (t, a) (t, fst (advance_epoch_shard e a))"

section \<open>Leases evolve\<close>

text \<open>What every operation may do to a stored lease at time \<open>now\<close>.\<close>

definition evolves :: "TimestampMs \<Rightarrow> AuthorityLease \<Rightarrow> AuthorityLease \<Rightarrow> bool" where
  "evolves now l l' =
     (lease_id l' = lease_id l \<and> lease_mode l' = lease_mode l \<and>
      (blocks_mutation_slot l' now \<longrightarrow> blocks_mutation_slot l now \<and>
         (lease_state l' = lease_state l \<or> (lease_state l = Active \<and> lease_state l' = Fencing))))"

lemma evolves_refl [simp]: "evolves now l l"
  by (simp add: evolves_def)

lemma evolves_trans: "evolves now l l' \<Longrightarrow> evolves now l' l'' \<Longrightarrow> evolves now l l''"
  by (auto simp: evolves_def)

lemma evolves_map: "(\<And>l. l \<in> set ls \<Longrightarrow> evolves now l (f l)) \<Longrightarrow> list_all2 (evolves now) ls (map f ls)"
  by (simp add: list_all2_conv_all_nth)

lemma evolves_update_first:
  "(\<And>l. l \<in> set ls \<Longrightarrow> P l \<Longrightarrow> evolves now l (f l)) \<Longrightarrow> list_all2 (evolves now) ls (update_first P f ls)"
  by (induction ls) (auto intro: list_all2_refl)

lemma evolves_expire: "now \<le> t \<Longrightarrow> evolves t l (expire_lease now l)"
  by (auto simp: evolves_def blocks_iff expire_lease_def)

lemma slot_of_slot_leases:
  "slot_of now a =
     (case slot_leases now a of
        [] \<Rightarrow> Free
      | l # _ \<Rightarrow> if lease_state l = Active then Held (lease_id l) else Closing (lease_id l))"
  by (simp add: slot_of_def active_mutating_slot split: list.split)

lemma evolves_filter:
  assumes "list_all2 (evolves now) ls ls'" "filter (\<lambda>l. blocks_mutation_slot l now) ls = []"
  shows "filter (\<lambda>l. blocks_mutation_slot l now) ls' = []"
  using assms by (induction rule: list_all2_induct) (auto simp: evolves_def split: if_splits)

lemma evolves_filter_single:
  assumes "list_all2 (evolves now) ls ls'" "filter (\<lambda>l. blocks_mutation_slot l now) ls = [x]"
  shows "\<exists>x' \<in> set ls'. evolves now x x' \<and>
    filter (\<lambda>l. blocks_mutation_slot l now) ls' = (if blocks_mutation_slot x' now then [x'] else [])"
  using assms
proof (induction rule: list_all2_induct)
  case Nil
  then show ?case by simp
next
  case (Cons l ls l' ls')
  show ?case
  proof (cases "blocks_mutation_slot l now")
    case True
    with Cons.prems have x: "l = x" "filter (\<lambda>l. blocks_mutation_slot l now) ls = []" by simp_all
    from evolves_filter [OF Cons.hyps(2) x(2)] x(1) Cons.hyps(1) show ?thesis by auto
  next
    case False
    with Cons.hyps(1) have "\<not> blocks_mutation_slot l' now" by (auto simp: evolves_def)
    with False Cons show ?thesis by auto
  qed
qed

lemma evolved_ended:
  "blocks_mutation_slot x now \<Longrightarrow> evolves now x x' \<Longrightarrow> \<not> blocks_mutation_slot x' now \<Longrightarrow>
     effective_state x' now \<in> {Fenced, Expired, Revoked}"
  by (auto simp: evolves_def blocks_mutation_slot_def)

lemma evolves_slot_step:
  assumes "list_all2 (evolves now) (leases a) (leases a')" "length (slot_leases now a) \<le> 1"
  shows "slot_step (lease_ended now a') (slot_of now a) (slot_of now a')"
proof (cases "slot_leases now a")
  case Nil
  with evolves_filter [OF assms(1)] show ?thesis
    by (simp add: slot_of_slot_leases slot_leases_def slot_step.keep)
next
  case (Cons x rest)
  with assms(2) have x: "slot_leases now a = [x]" by simp
  from evolves_filter_single [OF assms(1) x [unfolded slot_leases_def]] obtain x' where x':
      "x' \<in> set (leases a')" "evolves now x x'"
      "slot_leases now a' = (if blocks_mutation_slot x' now then [x'] else [])"
    by (auto simp: slot_leases_def)
  have "x \<in> set (slot_leases now a)" using x by simp
  then have b: "blocks_mutation_slot x now" by (simp add: slot_leases_def)
  have ids: "lease_id x' = lease_id x" using x'(2) by (simp add: evolves_def)
  show ?thesis
  proof (cases "blocks_mutation_slot x' now")
    case True
    with x'(2) have "lease_state x' = lease_state x \<or> (lease_state x = Active \<and> lease_state x' = Fencing)"
      by (auto simp: evolves_def)
    with True x x'(3) ids show ?thesis
      by (auto simp: slot_of_slot_leases intro: slot_step.intros)
  next
    case False
    with evolved_ended [OF b x'(2)] x'(1) ids have "lease_ended now a' (lease_id x)"
      by (auto simp: lease_ended_def list_ex_iff)
    with False x x'(3) show ?thesis
      by (auto simp: slot_of_slot_leases intro: slot_step.intros)
  qed
qed

section \<open>Every shard operation is a step of the abstract slot\<close>

lemma evolves_expire_all: "now \<le> t \<Longrightarrow> list_all2 (evolves t) (leases a) (leases (expire_in_place a now))"
  by (simp add: evolves_map evolves_expire)

lemma evolves_list_trans:
  "list_all2 (evolves t) xs ys \<Longrightarrow> list_all2 (evolves t) ys zs \<Longrightarrow> list_all2 (evolves t) xs zs"
  by (rule list_all2_trans [where ?P1.0 = "evolves t" and ?P2.0 = "evolves t"]) (auto intro: evolves_trans)

lemma evolves_after_expire:
  fixes a :: ShardAuthority
  assumes "now \<le> t" "list_all2 (evolves t) (map (expire_lease now) (leases a)) ls"
  shows "list_all2 (evolves t) (leases a) ls"
  using evolves_list_trans [OF evolves_expire_all [OF assms(1)]] assms(2) by simp

lemma evolves_extended:
  "lease_state l = Active \<Longrightarrow> t < expires_at_ms l \<Longrightarrow> lease_id l' = lease_id l \<Longrightarrow>
     lease_mode l' = lease_mode l \<Longrightarrow> lease_state l' = Active \<Longrightarrow> evolves t l l'"
  by (simp add: evolves_def blocks_iff)

lemma evolves_update_found:
  "List.find P ls = Some x \<Longrightarrow> evolves t x (f x) \<Longrightarrow> list_all2 (evolves t) ls (update_first P f ls)"
  by (induction ls) (auto intro: list_all2_refl split: if_splits)

lemma expired_in_place_live:
  "l \<in> set (leases (expire_in_place a t)) \<Longrightarrow> lease_state l = Active \<Longrightarrow> t < expires_at_ms l"
  by (auto dest: expire_lease_state)

lemma shard_op_evolves:
  "list_all2 (evolves t) (leases a) (leases (fst (renew_shard t lid ttl a)))"
  "list_all2 (evolves t) (leases a) (leases (fst (request_fence_shard t s tgt reason a)))"
  "list_all2 (evolves t) (leases a) (leases (fst (acknowledge_fence_shard t holder fid a)))"
  "list_all2 (evolves t) (leases a) (leases (fst (revoke_shard lid reason a)))"
  "list_all2 (evolves t) (leases a) (leases (fst (reattest_shard t holder tok a)))"
  "list_all2 (evolves t) (leases a) (leases (fst (advance_epoch_shard e a)))"
proof -
  show "list_all2 (evolves t) (leases a) (leases (fst (revoke_shard lid reason a)))"
    by (auto simp: revoke_shard_def evolves_def blocks_iff list_all2_refl
        intro!: evolves_update_first split: option.splits)
  show "list_all2 (evolves t) (leases a) (leases (fst (advance_epoch_shard e a)))"
    by (auto simp: advance_epoch_shard_def evolves_def blocks_iff list_all2_refl intro!: evolves_map)
  show "list_all2 (evolves t) (leases a) (leases (fst (acknowledge_fence_shard t holder fid a)))"
    by (auto simp: acknowledge_fence_shard_def evolves_def blocks_iff list_all2_refl
        intro!: evolves_map split: option.splits)
  show "list_all2 (evolves t) (leases a) (leases (fst (request_fence_shard t s tgt reason a)))"
    by (auto simp: request_fence_shard_def Let_def evolves_def blocks_iff list_all2_refl fence_target_lease_def
        effective_Active_iff
        intro!: evolves_after_expire [OF order_refl] evolves_update_first split: option.splits)
  show "list_all2 (evolves t) (leases a) (leases (fst (reattest_shard t holder tok a)))"
    by (auto simp: reattest_shard_def Let_def evolves_def blocks_iff list_all2_refl
        intro!: evolves_after_expire [OF order_refl] evolves_update_first split: option.splits)
  show "list_all2 (evolves t) (leases a) (leases (fst (renew_shard t lid ttl a)))"
  proof (cases "List.find (\<lambda>l. lease_id l = lid) (leases (expire_in_place a t))")
    case (Some x)
    then have "lease_state x = Active \<Longrightarrow> t < expires_at_ms x"
      by (auto dest!: find_SomeD expire_lease_state)
    with Some show ?thesis
      by (auto simp: renew_shard_def Let_def list_all2_refl evolves_extended
          intro!: evolves_after_expire [OF order_refl] evolves_update_found)
  qed (auto simp: renew_shard_def Let_def list_all2_refl intro!: evolves_after_expire [OF order_refl])
qed

lemma slot_leases_push:
  assumes "\<not> evicts_slot t a"
  shows "slot_leases t (a\<lparr>leases := push_bounded kMaxLeaseHistoryPerShard (leases a) l\<rparr>) =
    slot_leases t a @ (if blocks_mutation_slot l t then [l] else [])"
  using assms
  by (cases "leases a") (auto simp: push_bounded_def Let_def slot_leases_def evicts_slot_def kMaxLeaseHistoryPerShard_def)

lemma slot_leases_cong: "leases a = leases b \<Longrightarrow> slot_leases t a = slot_leases t b"
  by (simp add: slot_leases_def)

lemma issue_lease_slots:
  assumes "\<not> evicts_slot t a"
  shows "slot_leases t (fst (issue_lease now tok req a)) = slot_leases t a \<or>
    req_mode req = Mutating \<and>
    slot_leases t (fst (issue_lease now tok req a)) = slot_leases t a @ [new_lease now tok req a]"
proof (cases "tagged_next (next_lease_id a)")
  case (Some n)
  then have "slot_leases t (fst (issue_lease now tok req a)) =
      slot_leases t (a\<lparr>leases := push_bounded kMaxLeaseHistoryPerShard (leases a) (new_lease now tok req a)\<rparr>)"
    by (intro slot_leases_cong) (simp add: issue_lease_def Let_def)
  with slot_leases_push [OF assms, of "new_lease now tok req a"] show ?thesis
    by (auto simp: blocks_iff new_lease_def)
qed (simp add: issue_lease_def)

lemma evicts_slot_expire: "now \<le> t \<Longrightarrow> evicts_slot t (expire_in_place a now) \<Longrightarrow> evicts_slot t a"
  by (cases "leases a") (auto simp: evicts_slot_def dest: blocks_expire_lease)

lemma evicts_slot_generation [simp]: "evicts_slot t (a\<lparr>sa_generation := g\<rparr>) = evicts_slot t a"
  by (simp add: evicts_slot_def)

lemma slot_leases_generation [simp]: "slot_leases t (a\<lparr>sa_generation := g\<rparr>) = slot_leases t a"
  by (simp add: slot_leases_def)

lemma grant_fresh_slots:
  assumes "\<not> evicts_slot t a"
  shows "slot_leases t (fst (grant_fresh now tok req a)) = slot_leases t a \<or>
    req_mode req = Mutating \<and>
    (\<exists>l. lease_state l = Active \<and> slot_leases t (fst (grant_fresh now tok req a)) = slot_leases t a @ [l])"
proof -
  have act: "lease_state (new_lease now tok req b) = Active" for b by (simp add: new_lease_def)
  have *: "slot_leases t (fst (issue_lease now tok req b)) = slot_leases t b \<or> req_mode req = Mutating \<and>
      (\<exists>l. lease_state l = Active \<and> slot_leases t (fst (issue_lease now tok req b)) = slot_leases t b @ [l])"
    if "\<not> evicts_slot t b" for b
    using issue_lease_slots [OF that, of now tok req] act by blast
  show ?thesis
    using * [OF assms] * [of "a\<lparr>sa_generation := g\<rparr>" for g] assms
    by (auto simp: grant_fresh_def split: option.splits)
qed

lemma grant_shard_slot_step:
  assumes "sa_inv t a" "now \<le> t" "\<not> evicts_slot t a"
  shows "slot_step (lease_ended t (fst (grant_shard now t tok req a))) (slot_of t a)
    (slot_of t (fst (grant_shard now t tok req a)))"
proof -
  let ?e = "expire_in_place a now"
  have one: "length (slot_leases t a) \<le> 1" using assms(1) by (simp add: sa_inv_def)
  have slots: "slot_leases t ?e = slot_leases t a" using assms(2) by (rule slot_leases_expire)
  have ev: "\<not> evicts_slot t ?e" using assms(2,3) by (blast dest: evicts_slot_expire)
  have evolved: "slot_step (lease_ended t b) (slot_of t a) (slot_of t b)"
    if "list_all2 (evolves t) (leases ?e) (leases b)" for b
    using that one assms(2) by (intro evolves_slot_step evolves_after_expire) simp_all
  have same: "slot_step (lease_ended t b) (slot_of t a) (slot_of t b)"
    if "slot_leases t b = slot_leases t a" for b
    using that by (simp add: slot_of_slot_leases slot_step.keep)
  have fresh: "slot_step (lease_ended t (fst (grant_fresh now tok req ?e))) (slot_of t a)
      (slot_of t (fst (grant_fresh now tok req ?e)))"
    if "req_mode req = Mutating \<longrightarrow> slot_leases t a = []"
    using grant_fresh_slots [OF ev, of now tok req] that same slots
    by (auto simp: slot_of_slot_leases intro: slot_step.acquire)
  have renewed: "evolves t l (renewed_by_grant now req l)" if "lease_state l = Active" "t < expires_at_ms l" for l
    using that by (intro evolves_extended) (simp_all add: renewed_by_grant_def)
  have mutating: "slot_step (lease_ended t (fst (grant_mutating now t tok req ?e))) (slot_of t a)
      (slot_of t (fst (grant_mutating now t tok req ?e)))"
  proof (cases "slot_leases t a")
    case Nil
    then have "active_mutating ?e t = None" by (simp add: active_mutating_slot slots)
    with fresh Nil show ?thesis by (simp add: grant_mutating_def)
  next
    case (Cons l rest)
    then have act: "active_mutating ?e t = Some l" by (simp add: active_mutating_slot slots)
    have "l \<in> set (slot_leases t ?e)" using Cons slots by simp
    then have l: "l \<in> set (leases ?e)" "blocks_mutation_slot l t" by (simp_all add: slot_leases_def)
    have f: "List.find (\<lambda>m. lease_id m = lease_id l) (leases ?e) = Some l"
      using assms(1) l(1) by (intro find_by_id) (simp_all add: sa_inv_def)
    have "list_all2 (evolves t) (leases ?e) (leases (fst (grant_mutating now t tok req ?e)))"
      using act f l(2) by (auto simp: grant_mutating_def list_all2_refl blocks_iff effective_Active_iff
          intro!: evolves_update_found renewed)
    then show ?thesis by (rule evolved)
  qed
  have shared: "slot_step (lease_ended t (fst (grant_shared now tok req ?e))) (slot_of t a)
      (slot_of t (fst (grant_shared now tok req ?e)))" if "req_mode req \<noteq> Mutating"
  proof (cases "List.find (\<lambda>l. lease_holder l = req_holder req \<and> lease_mode l = req_mode req \<and>
      effective_state l now = Active) (leases ?e)")
    case None
    with fresh that show ?thesis by (simp add: grant_shared_def)
  next
    case (Some l)
    then have "list_all2 (evolves t) (leases ?e) (leases (fst (grant_shared now tok req ?e)))"
      using that by (auto simp: grant_shared_def evolves_def blocks_iff renewed_by_grant_def
          intro!: evolves_update_first)
    then show ?thesis by (rule evolved)
  qed
  show ?thesis
    using mutating shared by (auto simp: grant_shard_def slot_step.keep)
qed

lemma shard_step_inv: "shard_step s s' \<Longrightarrow> sa_inv (fst s) (snd s) \<Longrightarrow> sa_inv (fst s') (snd s')"
  by (induction rule: shard_step.induct)
    (auto intro: inv_intros sa_inv_mono sa_inv_expire sa_inv_grant_shard_at)

lemma slot_step_tick:
  assumes "sa_inv t a" "t \<le> t'"
  shows "slot_step (lease_ended t' a) (slot_of t a) (slot_of t' a)"
proof -
  have e: "effective_state l t' = Expired"
    if "blocks_mutation_slot l t" "\<not> blocks_mutation_slot l t'" for l
    using that by (auto simp: blocks_iff effective_state_def)
  show ?thesis
  proof (cases "slot_leases t a")
    case Nil
    moreover have "length (slot_leases t' a) \<le> length (slot_leases t a)" using assms(2) by (rule slot_leases_mono)
    ultimately show ?thesis by (simp add: slot_of_slot_leases slot_step.keep)
  next
    case (Cons l rest)
    have f: "slot_leases t' a = filter (\<lambda>l. blocks_mutation_slot l t') (slot_leases t a)"
      unfolding slot_leases_def using assms(2) by (auto intro!: filter_cong dest: blocks_mono)
    have r: "rest = []" using Cons assms(1) by (simp add: sa_inv_def)
    have "l \<in> set (slot_leases t a)" using Cons by simp
    then have l: "l \<in> set (leases a)" "blocks_mutation_slot l t" by (simp_all add: slot_leases_def)
    have "lease_ended t' a (lease_id l)" if "\<not> blocks_mutation_slot l t'"
      using e [OF l(2) that] l(1) by (auto simp: lease_ended_def list_ex_iff)
    then show ?thesis
      using f Cons r by (auto simp: slot_of_slot_leases intro: slot_step.intros)
  qed
qed

lemma shard_step_refines:
  assumes "shard_step s s'" "sa_inv (fst s) (snd s)"
  shows "slot_step (lease_ended (fst s') (snd s')) (slot_of (fst s) (snd s)) (slot_of (fst s') (snd s'))"
  using assms
proof (induction rule: shard_step.induct)
  case (tick t t' a)
  then show ?case by (simp add: slot_step_tick)
next
  case (grant now t a req tok)
  then show ?case by (simp add: grant_shard_slot_step)
qed (auto simp: sa_inv_def intro!: evolves_slot_step shard_op_evolves evolves_expire_all)

interpretation shard_slot: fenced_slot
  "\<lambda>s. slot_of (fst s) (snd s)" "\<lambda>s s'. sa_inv (fst s) (snd s) \<and> shard_step s s'"
  "\<lambda>s. lease_ended (fst s) (snd s)"
  by unfold_locales (simp add: shard_step_refines)

lemma shard_steps_inv:
  assumes "shard_step\<^sup>*\<^sup>* s s'" "sa_inv (fst s) (snd s)"
  shows "(\<lambda>s s'. sa_inv (fst s) (snd s) \<and> shard_step s s')\<^sup>*\<^sup>* s s' \<and> sa_inv (fst s') (snd s')"
  using assms(1)
  by (induction rule: rtranclp_induct)
    (auto simp: assms(2) intro: shard_step_inv rtranclp.rtrancl_into_rtrancl)

text \<open>C14: The mutation slot of a shard refines the abstract slot. From a well-formed shard, the passing
  of time and every registry operation on the shard act on its slot (free, held by a lease, or
  closing) as one abstract step: the slot is kept, a free slot is acquired, a held slot starts
  closing, or it is vacated, and it is vacated only when the lease that occupied it is recorded as
  fenced, expired or revoked. (A grant into a full history whose oldest lease occupies the slot is
  excluded: see the eviction theorem below.)\<close>

theorem slot_refinement:
  assumes "sa_inv t a" "shard_step (t, a) (t', a')"
  shows "slot_step (lease_ended t' a') (slot_of t a) (slot_of t' a') \<and> sa_inv t' a'"
  using shard_step_refines [OF assms(2)] shard_step_inv [OF assms(2)] assms(1) by simp

text \<open>C9: No handover without the end of the incumbent, short of an eviction. Take any history of a well-formed
  shard (the passing of time and registry operations in any order) in which no grant is made while the
  history of leases is full and its oldest lease occupies the slot, the one case in which a grant erases the
  incumbent. When the slot is occupied by lease \<open>i\<close> and is later held by another lease (or by any lease, if it
  was already closing), the shard passed through a state in which the slot was free and lease \<open>i\<close> was
  recorded as fenced, expired or revoked.\<close>

theorem handover_after_incumbent_ended:
  assumes "sa_inv t a" "shard_step\<^sup>*\<^sup>* (t, a) (t', a')" "occupant (slot_of t a) = Some i"
    and "slot_of t' a' = Held j" "i \<noteq> j \<or> slot_of t a = Closing i"
  shows "\<exists>t1 b. shard_step\<^sup>*\<^sup>* (t, a) (t1, b) \<and> shard_step\<^sup>*\<^sup>* (t1, b) (t', a') \<and>
    slot_of t1 b = Free \<and> lease_ended t1 b i"
proof -
  let ?step = "\<lambda>s s'. sa_inv (fst s) (snd s) \<and> shard_step s s'"
  have run: "?step\<^sup>*\<^sup>* (t, a) (t', a')" using shard_steps_inv [OF assms(2)] assms(1) by simp
  have mono: "?step\<^sup>*\<^sup>* x y \<Longrightarrow> shard_step\<^sup>*\<^sup>* x y" for x y
    by (erule mono_rtranclp [rule_format, rotated]) blast
  obtain m where m: "?step\<^sup>*\<^sup>* (t, a) m" "?step\<^sup>*\<^sup>* m (t', a')" "slot_of (fst m) (snd m) = Free"
      "lease_ended (fst m) (snd m) i"
    using shard_slot.handover_after_end [OF run, of i j] assms(3-5) by fastforce
  then show ?thesis using mono [OF m(1)] mono [OF m(2)] by (cases m) auto
qed

section \<open>Eviction from the lease history\<close>

lemma find_shared_None:
  "\<forall>x \<in> set (leases a). \<not> (lease_holder x = h \<and> lease_mode x = m \<and> effective_state x now = Active) \<Longrightarrow>
     List.find (\<lambda>l. lease_holder l = h \<and> lease_mode l = m \<and> effective_state l now = Active) (map (expire_lease now) (leases a)) = None"
  by (auto simp: find_None_iff effective_Active_iff dest: expire_lease_state)

lemma effective_expire: "effective_state (expire_lease now l) now = Active \<longleftrightarrow> effective_state l now = Active"
  by (auto simp: effective_Active_iff expire_lease_def)

text \<open>A mutating request to a shard whose slot is free is granted.\<close>

lemma grant_into_free_slot:
  assumes "slot_leases now a = []" "now \<le> now2" "request_ok req" "req_mode req = Mutating"
    and "tagged_next (sa_generation a) = Some g" "tagged_next (next_lease_id a) = Some n"
  shows "\<exists>a' l. grant_shard now2 now2 tok req a = (a', Inr l) \<and> lease_holder l = req_holder req \<and> lease_mode l = Mutating \<and>
    fences a' = fences a"
proof -
  let ?e = "expire_in_place a now2"
  have "slot_leases now2 ?e = slot_leases now2 a" by (rule slot_leases_expire) simp
  also have "\<dots> = []" using assms(1) slot_leases_mono [OF assms(2), of a] by simp
  finally have "active_mutating ?e now2 = None" by (simp add: active_mutating_slot)
  with assms(3-6) show ?thesis
    by (auto simp: grant_shard_def request_ok_def grant_mutating_def grant_fresh_def issue_lease_def Let_def new_lease_def not_less word_gt_0)
qed

text \<open>C40: The history limit can free an occupied slot. Let a well-formed shard store
  \<^verbatim>\<open>kMaxLeaseHistoryPerShard\<close> leases, the oldest of them the live mutating lease, and let a newcomer, with
  no active read-only lease of its own and the quota of read-only leases not used up, ask for a read-only
  lease while the counters are not exhausted. The grant succeeds and erases the mutating lease: the slot it
  held is free afterwards, although the lease was neither fenced nor expired nor revoked. The next
  well-formed mutating request at any later time, from whomever, is granted, with no fence recorded for the
  erased holder.\<close>

theorem eviction_frees_held_slot:
  assumes "sa_inv now a" "leases a = l # ls" "length ls + 1 = kMaxLeaseHistoryPerShard"
    and "is_live l now" "lease_mode l = Mutating"
    and "request_ok req" "req_mode req = ReadOnlyShared"
    and "\<forall>x \<in> set (leases a). \<not> (lease_holder x = req_holder req \<and> lease_mode x = ReadOnlyShared \<and> effective_state x now = Active)"
    and "length (filter (\<lambda>x. lease_mode x = ReadOnlyShared \<and> effective_state x now = Active) (leases a)) < kMaxReadOnlyLeasesPerShard"
    and "tagged_next (next_lease_id a) = Some n" "tagged_next n = Some n2" "tagged_next (sa_generation a) = Some g"
    and "now \<le> now2" "request_ok req2" "req_mode req2 = Mutating"
  shows "\<exists>a'. grant_shard now now tok req a = (a', Inr (new_lease now tok req a)) \<and>
    slot_of now a = Held (lease_id l) \<and> slot_of now a' = Free \<and>
    (\<exists>a'' l2. grant_shard now2 now2 tok2 req2 a' = (a'', Inr l2) \<and> lease_holder l2 = req_holder req2 \<and> lease_mode l2 = Mutating \<and>
       fences a'' = fences a)"
proof -
  let ?e = "expire_in_place a now" and ?new = "new_lease now tok req a"
  have l: "expire_lease now l = l" "effective_state l now = Active" "blocks_mutation_slot l now"
    using assms(4,5) by (auto simp: expire_lease_def is_live_def effective_state_def blocks_iff)
  have "length (slot_leases now a) \<le> 1" using assms(1) by (simp add: sa_inv_def)
  then have one: "slot_leases now a = [l]" and rest: "filter (\<lambda>x. blocks_mutation_slot x now) ls = []"
    using assms(2) l(3) by (auto simp: slot_leases_def)
  have fresh: "grant_fresh now tok req ?e = issue_lease now tok req ?e"
    using assms(7,9) by (simp add: grant_fresh_def comp_def effective_expire)
  have new: "new_lease now tok req ?e = ?new" by (simp add: new_lease_def)
  let ?a' = "?e\<lparr>next_lease_id := n, leases := push_bounded kMaxLeaseHistoryPerShard (leases ?e) ?new\<rparr>"
  have grant: "grant_shard now now tok req a = (?a', Inr ?new)"
    using assms(6,7,10) find_shared_None [OF assms(8)] fresh new
    by (simp add: grant_shard_def request_ok_def grant_shared_def issue_lease_def Let_def not_less word_gt_0)
  have "leases ?a' = map (expire_lease now) ls @ [?new]"
    using assms(2,3) by (simp add: push_bounded_def Let_def)
  moreover have "\<not> blocks_mutation_slot ?new now"
    using assms(7) by (simp add: blocks_iff new_lease_def)
  moreover have "\<not> blocks_mutation_slot (expire_lease now x) now" if "x \<in> set ls" for x
    using that rest by (auto simp: filter_empty_conv dest: blocks_expire_lease)
  ultimately have free: "slot_leases now ?a' = []" by (auto simp: slot_leases_def filter_empty_conv)
  from grant_into_free_slot [OF free assms(13-15), of g n2 tok2] assms(11,12)
  obtain a'' l2 where "grant_shard now2 now2 tok2 req2 ?a' = (a'', Inr l2)" "lease_holder l2 = req_holder req2"
      "lease_mode l2 = Mutating" "fences a'' = fences a" by auto
  with grant one free assms(4) show ?thesis
    by (intro exI [of _ ?a']) (auto simp: slot_of_slot_leases is_live_def)
qed

end
