(* ===== verification/Authority_Examples.thy ===== *)
theory Authority_Examples
  imports Authority_Store Authority_Slot
begin

text \<open>
  A concrete deployment (one shard, one holder of mutating authority) on which the theorems of the
  authority registry are applied: their hypotheses hold there, and the definitions evaluate.
\<close>

definition ex_node :: "u8 \<Rightarrow> IncarnationId" where
  "ex_node n = \<lparr>component = ''node'', uuid = replicate 15 0 @ [n], boot = 1\<rparr>"

definition ex_token :: "u8 \<Rightarrow> AuthorityToken" where
  "ex_token n = replicate 15 7 @ [n]"

definition ex_request :: "u8 \<Rightarrow> AuthorityMode \<Rightarrow> GrantRequest" where
  "ex_request n mode = \<lparr>req_shard = ''s1'', req_holder = ex_node n, req_mode = mode, req_ttl_ms = 100,
     req_campaign = [], req_handoff = 0, req_reason = ''example''\<rparr>"

definition ex_ops :: "registry_op list" where
  "ex_ops = [Establish ''s1'' 1, Grant 10 10 (ex_token 1) (ex_request 1 Mutating)]"

definition ex_lease :: AuthorityLease where
  "ex_lease = \<lparr>lease_id = 1, lease_shard = ''s1'', lease_holder = ex_node 1, lease_epoch = 1, lease_generation = 2,
     lease_token = ex_token 1, lease_mode = Mutating, lease_state = Active, issued_at_ms = 10, expires_at_ms = 110,
     attested = True, attestation_seq = 1, lease_campaign = [], lease_handoff = 0, lease_reason = ''example''\<rparr>"

definition ex_shard :: ShardAuthority where
  "ex_shard = \<lparr>sa_shard = ''s1'', sa_epoch = 1, sa_generation = 2, leases = [ex_lease], fences = [],
     next_lease_id = 2, next_fence_id = 1\<rparr>"

definition ex_registry :: AuthorityRegistry where
  "ex_registry = \<lparr>shards = [(''s1'', ex_shard)], reg_next_lease_id = 1, reg_next_fence_id = 1\<rparr>"

lemma ex_run: "run_ops ex_ops empty_registry = ex_registry"
  by code_simp

lemma ex_inv: "registry_inv 10 ex_registry"
  by code_simp

lemma ex_claim_ok: "validate_claim 50 (claim_of_lease ex_lease) Mutating ex_registry = Ok"
  by code_simp

abbreviation ex_fenced :: AuthorityRegistry where
  "ex_fenced \<equiv> fst (request_fence 20 ''s1'' (ex_node 1) ''upgrade'' ex_registry)"

abbreviation ex_restored :: AuthorityRegistry where
  "ex_restored \<equiv> fst (registry_load (registry_to_json ex_registry) empty_registry)"

lemma ex_fence_ok: "request_fence 20 ''s1'' (ex_node 1) ''upgrade'' ex_registry = (ex_fenced, Ok)"
  by code_simp

lemma ex_grant_ok:
  "grant 200 201 (ex_token 2) (ex_request 2 Mutating) ex_registry =
     (fst (grant 200 201 (ex_token 2) (ex_request 2 Mutating) ex_registry),
      Inr (projr (snd (grant 200 201 (ex_token 2) (ex_request 2 Mutating) ex_registry))))"
  by code_simp

section \<open>Witnesses\<close>

definition ex_restart_ops :: "registry_op list" where
  "ex_restart_ops = ex_ops @ [Load (registry_to_json ex_registry), Reattest 20 ''s1'' (ex_node 1) (ex_token 1)]"

lemma ex_registry_storable: "registry_storable ex_registry"
  by code_simp

lemma ex_restart_sound: "loads_sound 0 ex_restart_ops"
  using saved_document_sound [OF ex_inv _ ex_registry_storable, of 10] by (simp add: ex_restart_ops_def ex_ops_def)

theorem at_most_one_mutating_authority_witness:
  "{d. claim_shard d = ''s1'' \<and> validate_claim 50 d Mutating (run_ops ex_restart_ops empty_registry) = Ok} =
     {claim_of_lease ex_lease}"
proof -
  have s: "sorted (0 # readings ex_restart_ops)" "last (0 # readings ex_restart_ops) \<le> 50"
    by (simp_all add: readings_def ex_restart_ops_def ex_ops_def)
  have c: "claim_shard (claim_of_lease ex_lease) = ''s1''" by code_simp
  have r: "run_ops ex_restart_ops empty_registry =
      fst (reattest 20 ''s1'' (ex_node 1) (ex_token 1) (unattest_registry ex_registry))"
    using ex_run registry_json_round_trip [OF ex_registry_storable, of ex_registry] by (simp add: run_ops_def ex_restart_ops_def)
  have v: "validate_claim 50 (claim_of_lease ex_lease) Mutating (run_ops ex_restart_ops empty_registry) = Ok"
    unfolding r by code_simp
  have "claim_of_lease ex_lease = d"
    if "claim_shard d = ''s1''" "validate_claim 50 d Mutating (run_ops ex_restart_ops empty_registry) = Ok" for d
    using s(1) ex_restart_sound s(2) c [folded that(1)] v that(2) by (rule at_most_one_mutating_authority)
  with c v show ?thesis by blast
qed

theorem authority_axis_monotone_witness:
  "axis_le ex_shard (the (find_shard (apply_op (AdvanceEpoch ''s1'' 2) ex_registry) ''s1''))"
proof (rule authority_axis_monotone)
  show "find_shard ex_registry ''s1'' = Some ex_shard" by code_simp
  show "find_shard (apply_op (AdvanceEpoch ''s1'' 2) ex_registry) ''s1'' =
      Some (the (find_shard (apply_op (AdvanceEpoch ''s1'' 2) ex_registry) ''s1''))" by code_simp
qed simp

theorem mutating_grant_outcome_witness:
  "\<exists>a a'. find_shard ex_registry ''s1'' = Some a \<and> sa_generation a = 2 \<and>
     find_shard (fst (grant 200 201 (ex_token 2) (ex_request 2 Mutating) ex_registry)) ''s1'' = Some a' \<and>
     slot_leases 201 a = [] \<and> unat (sa_generation a') = 3"
proof -
  have mode: "req_mode (ex_request 2 Mutating) = Mutating" "req_shard (ex_request 2 Mutating) = ''s1''"
    by (simp_all add: ex_request_def)
  have t: "10 \<le> (200 :: u64)" "200 \<le> (201 :: u64)" by simp_all
  have f: "find_shard ex_registry ''s1'' = Some ex_shard" by code_simp
  have g: "sa_generation ex_shard = 2" "slot_leases 201 ex_shard = []" by code_simp+
  show ?thesis
    using mutating_grant_outcome [OF ex_inv t mode(1) ex_grant_ok] unfolding mode(2) f
    using g by auto
qed

theorem fence_invalidates_claims_witness:
  "validate_claim 50 (claim_of_lease ex_lease) ReadOnlyShared ex_fenced = StaleGeneration"
proof (rule fence_invalidates_claims [OF ex_fence_ok])
  show "claim_shard (claim_of_lease ex_lease) = ''s1''" by code_simp
  show "validate_claim 50 (claim_of_lease ex_lease) Mutating ex_registry = Ok" by (rule ex_claim_ok)
qed

theorem fence_keeps_slot_busy_witness:
  "\<exists>a' l. find_shard ex_fenced ''s1'' = Some a' \<and> l \<in> set (leases a') \<and> lease_holder l = ex_node 1 \<and>
     lease_state l = Fencing"
proof -
  have "10 \<le> (20 :: u64)" by simp
  from fence_keeps_slot_busy [OF ex_inv this ex_fence_ok] show ?thesis by blast
qed

theorem fenced_handover_completes_witness:
  "\<exists>r2 r3 l. acknowledge_fence 30 ''s1'' (ex_node 1) 1 ex_fenced = (r2, Ok) \<and>
     grant 40 41 (ex_token 2) (ex_request 2 Mutating) r2 = (r3, Inr l) \<and> lease_holder l = ex_node 2 \<and>
     unat (lease_generation l) = 4 \<and> validate_claim 60 (claim_of_lease l) Mutating r3 = Ok"
proof -
  have t: "10 \<le> (20 :: u64)" "20 \<le> (30 :: u64)" "30 \<le> (40 :: u64)" "40 \<le> (41 :: u64)" by simp_all
  have f: "find_shard ex_registry ''s1'' = Some ex_shard" "name_is_valid ''s1''" "sa_epoch ex_shard \<noteq> 0"
    by code_simp+
  have q: "request_ok (ex_request 2 Mutating)" "req_mode (ex_request 2 Mutating) = Mutating"
      "req_shard (ex_request 2 Mutating) = ''s1''"
    by code_simp+
  have c: "unat (sa_generation ex_shard) + 2 < 2 ^ 64" "next_lease_id ex_shard \<noteq> - 1"
    by (simp_all add: ex_shard_def)
  have k: "token_unused (ex_token 2) ex_shard" "\<not> uuid_is_nil (ex_token 2)" by code_simp+
  have e: "(60 :: u64) < 40 + req_ttl_ms (ex_request 2 Mutating)" by code_simp
  have n: "next_fence_id ex_shard = 1" "req_holder (ex_request 2 Mutating) = ex_node 2"
      "unat (sa_generation ex_shard) = 2"
    by (simp_all add: ex_shard_def ex_request_def)
  show ?thesis
    using fenced_handover_completes [OF ex_inv t f ex_fence_ok q c k e] unfolding n by simp
qed

theorem restored_leases_authorise_nothing_witness:
  "validate_claim 50 (claim_of_lease ex_lease) Mutating ex_restored \<noteq> Ok"
proof (rule restored_leases_authorise_nothing)
  show "registry_load (registry_to_json ex_registry) empty_registry = (ex_restored, Ok)"
    by code_simp
qed

theorem registry_round_trip_witness:
  "registry_load (registry_to_json ex_registry) empty_registry = (unattest_registry ex_registry, Ok)"
  by (rule registry_round_trip) code_simp

theorem reattested_claim_accepted_witness:
  "\<exists>r'. reattest 40 ''s1'' (ex_node 1) (ex_token 1) (unattest_registry ex_registry) = (r', Ok) \<and>
     validate_claim 50 (claim_of_lease ex_lease) Mutating r' = Ok"
proof -
  let ?c = "claim_of_lease ex_lease" and ?l = "ex_lease\<lparr>attested := False\<rparr>"
  have c: "claim_shard ?c = ''s1''" "claim_incarnation ?c = ex_node 1" "claim_token ?c = ex_token 1" by code_simp+
  have f: "find_shard (unattest_registry ex_registry) (claim_shard ?c) = Some (unattest ex_shard)"
      "claim_is_valid ?c" "claim_epoch ?c = sa_epoch (unattest ex_shard)"
      "claim_generation ?c = sa_generation (unattest ex_shard)"
      "List.find (claim_lease ?c) (leases (unattest ex_shard)) = Some ?l"
      "is_live ?l 40"
    by code_simp+
  have "lease_mode ?l = Mutating \<or> (lease_mode ?l = ReadOnlyShared \<and> Mutating \<noteq> Mutating)" "50 < expires_at_ms ?l"
    by code_simp+
  from reattested_claim_accepted [OF f this] show ?thesis unfolding c .
qed

theorem slot_refinement_witness:
  "slot_step (lease_ended 20 (fst (request_fence_shard 20 ''s1'' (ex_node 1) ''upgrade'' ex_shard)))
     (Held 1) (Closing 1)"
proof -
  let ?a = "fst (request_fence_shard 20 ''s1'' (ex_node 1) ''upgrade'' ex_shard)"
  have "sa_inv 20 ex_shard" by code_simp
  moreover have "shard_step (20, ex_shard) (20, ?a)" by (rule shard_step.request_fence)
  moreover have "slot_of 20 ex_shard = Held 1" "slot_of 20 ?a = Closing 1" by code_simp+
  ultimately show ?thesis using slot_refinement [of 20 ex_shard 20 ?a] by simp
qed

theorem handover_after_incumbent_ended_witness:
  "\<exists>t b. shard_step\<^sup>*\<^sup>* (50, ex_shard) (t, b) \<and> slot_of t b = Free \<and> lease_ended t b 1"
proof -
  let ?a = "fst (grant_shard 200 201 (ex_token 2) (ex_request 2 Mutating) ex_shard)"
  have inv: "sa_inv 50 ex_shard" by code_simp
  have "shard_step (50, ex_shard) (201, ex_shard)" by (rule shard_step.tick) simp
  moreover have "shard_step (201, ex_shard) (201, ?a)"
    by (rule shard_step.grant) (simp, code_simp+)
  ultimately have run: "shard_step\<^sup>*\<^sup>* (50, ex_shard) (201, ?a)" by (meson converse_rtranclp_into_rtranclp r_into_rtranclp)
  have "occupant (slot_of 50 ex_shard) = Some 1" "slot_of 201 ?a = Held 2" by code_simp+
  from handover_after_incumbent_ended [OF inv run this] show ?thesis by auto
qed

text \<open>A full history: the live mutating lease is the oldest of 256 leases.\<close>

definition ex_old_lease :: "nat \<Rightarrow> AuthorityLease" where
  "ex_old_lease i = ex_lease\<lparr>lease_id := of_nat i, lease_mode := ReadOnlyShared, lease_state := Revoked\<rparr>"

definition ex_old_ids :: "nat list" where
  "ex_old_ids = [2..<257]"

lemma ex_old_ids: "set ex_old_ids = {2..<257}" "distinct ex_old_ids" "length ex_old_ids = 255"
  by (simp_all add: ex_old_ids_def del: upt_rec_numeral)

definition ex_full_shard :: ShardAuthority where
  "ex_full_shard = ex_shard\<lparr>next_lease_id := 300, leases := ex_lease # map ex_old_lease ex_old_ids\<rparr>"

lemma ex_old_lease_fields [simp]:
  "lease_id (ex_old_lease i) = of_nat i" "lease_mode (ex_old_lease i) = ReadOnlyShared" "lease_state (ex_old_lease i) = Revoked"
  "lease_shard (ex_old_lease i) = ''s1''" "effective_state (ex_old_lease i) now \<noteq> Active" "\<not> blocks_mutation_slot (ex_old_lease i) now"
  by (simp_all add: ex_old_lease_def ex_lease_def effective_state_def blocks_iff)

lemma ex_full_inv: "sa_inv 50 ex_full_shard"
proof -
  have u: "unat (of_nat k :: u64) = k" if "k < 257" for k
    using that by (simp add: unat_of_nat)
  have small: "(of_nat k :: u64) \<noteq> 1 \<and> (of_nat k :: u64) < 300" if "k \<in> set ex_old_ids" for k
    using that u [of k] unfolding ex_old_ids by (auto simp: word_less_nat_alt dest: arg_cong [where f = unat])
  have "inj_on (of_nat :: nat \<Rightarrow> u64) (set ex_old_ids)"
    unfolding ex_old_ids by (rule inj_onI) (metis atLeastLessThan_iff u)
  then have "distinct (map (\<lambda>k. of_nat k :: u64) ex_old_ids)" by (simp add: distinct_map ex_old_ids(2))
  moreover have "1 \<notin> set (map (\<lambda>k. of_nat k :: u64) ex_old_ids)" using small by (auto simp del: One_nat_def)
  moreover have ids: "map lease_id (leases ex_full_shard) = 1 # map (\<lambda>k. of_nat k) ex_old_ids"
    by (simp add: ex_full_shard_def ex_lease_def comp_def)
  ultimately have d: "distinct (map lease_id (leases ex_full_shard))" by (simp only: distinct.simps) simp
  have "i < 300" if "i \<in> set (map lease_id (leases ex_full_shard))" for i
    using that small unfolding ids by auto
  then have n: "\<forall>l \<in> set (leases ex_full_shard). lease_id l < next_lease_id ex_full_shard"
    by (simp add: ex_full_shard_def)
  have s: "\<forall>l \<in> set (leases ex_full_shard). lease_shard l = sa_shard ex_full_shard"
    by (auto simp: ex_full_shard_def ex_shard_def ex_lease_def)
  have "filter (\<lambda>l. blocks_mutation_slot l 50) (map ex_old_lease ks) = []" for ks by (induction ks) simp_all
  then have "length (slot_leases 50 ex_full_shard) \<le> 1" by (simp add: slot_leases_def ex_full_shard_def)
  with d n s show ?thesis
    by (simp add: sa_inv_def leases_wf_def) (simp add: fences_wf_def ex_full_shard_def ex_shard_def kMaxLeaseHistoryPerShard_def ex_old_ids(3))
qed

theorem eviction_frees_held_slot_witness:
  "\<exists>a'. grant_shard 50 50 (ex_token 2) (ex_request 2 ReadOnlyShared) ex_full_shard =
     (a', Inr (new_lease 50 (ex_token 2) (ex_request 2 ReadOnlyShared) ex_full_shard)) \<and>
     slot_of 50 ex_full_shard = Held 1 \<and> slot_of 50 a' = Free \<and>
     (\<exists>a'' l2. grant_shard 60 60 (ex_token 3) (ex_request 3 Mutating) a' = (a'', Inr l2) \<and> lease_holder l2 = ex_node 3 \<and>
       lease_mode l2 = Mutating \<and> fences a'' = [])"
proof -
  let ?r = "ex_request 2 ReadOnlyShared" and ?r2 = "ex_request 3 Mutating"
  have "leases ex_full_shard = ex_lease # map ex_old_lease ex_old_ids" by (simp add: ex_full_shard_def)
  note f = ex_full_inv this
  have n: "length (map ex_old_lease ex_old_ids) + 1 = kMaxLeaseHistoryPerShard" by (simp add: kMaxLeaseHistoryPerShard_def ex_old_ids(3))
  have l: "is_live ex_lease 50" "lease_mode ex_lease = Mutating" by code_simp+
  have r: "request_ok ?r" "req_mode ?r = ReadOnlyShared" "request_ok ?r2" "req_mode ?r2 = Mutating" "req_holder ?r2 = ex_node 3"
    by code_simp+
  have none: "\<forall>x \<in> set (leases ex_full_shard). \<not> (lease_holder x = req_holder ?r \<and> lease_mode x = ReadOnlyShared \<and> effective_state x 50 = Active)"
    using f(2) l(2) by auto
  have few: "length (filter (\<lambda>x. lease_mode x = ReadOnlyShared \<and> effective_state x 50 = Active) (leases ex_full_shard)) < kMaxReadOnlyLeasesPerShard"
    using f(2) l(2) by (simp add: filter_empty_conv [THEN iffD2] kMaxReadOnlyLeasesPerShard_def)
  have c: "tagged_next (next_lease_id ex_full_shard) = Some 301" "tagged_next 301 = Some (302 :: u64)"
      "tagged_next (sa_generation ex_full_shard) = Some 3" "(50 :: u64) \<le> 60" "fences ex_full_shard = []"
    by (simp_all add: ex_full_shard_def ex_shard_def tagged_next_def)
  from eviction_frees_held_slot [OF f n l r(1,2) none few c(1-4) r(3,4), of "ex_token 2" "ex_token 3"] r(5) c(5)
  show ?thesis by (simp add: ex_lease_def)
qed

section \<open>An expired fence that nobody acknowledged\<close>

definition ex_stale_fence_ops :: "registry_op list" where
  "ex_stale_fence_ops =
     ex_ops @ [RequestFence 20 ''s1'' (ex_node 1) ''upgrade'', Grant 200 200 (ex_token 2) (ex_request 1 Mutating)]"

text \<open>An unacknowledged fence outlives the lease it fenced. After a fenced lease expires without an
  acknowledgement and the same incarnation is granted a new mutating lease, that lease is live and
  holds the slot, but a request to fence it is refused as a duplicate of the old fence.\<close>

theorem stale_fence_shields_new_lease:
  "slot_of 210 (the (find_shard (run_ops ex_stale_fence_ops empty_registry) ''s1'')) = Held 2 \<and>
   snd (request_fence 210 ''s1'' (ex_node 1) ''upgrade'' (run_ops ex_stale_fence_ops empty_registry)) = DuplicateFrame"
  by code_simp

section \<open>A document with two holders\<close>

text \<open>
  \<^verbatim>\<open>load\<close> accepts a document in which two leases of a shard are active for mutation. After both holders have
  re-attested, the registry accepts both claims.
\<close>

definition ex_two_holders :: AuthorityRegistry where
  "ex_two_holders = \<lparr>shards = [(''s1'', ex_shard\<lparr>leases := [ex_lease, ex_lease\<lparr>lease_id := 2, lease_holder := ex_node 2, lease_token := ex_token 2\<rparr>],
     next_lease_id := 3\<rparr>)], reg_next_lease_id = 1, reg_next_fence_id = 1\<rparr>"

definition ex_two_ops :: "registry_op list" where
  "ex_two_ops = [Load (registry_to_json ex_two_holders), Reattest 20 ''s1'' (ex_node 1) (ex_token 1), Reattest 20 ''s1'' (ex_node 2) (ex_token 2)]"

theorem loaded_conflict_gives_two_writers:
  "\<not> sound_document 20 (registry_to_json ex_two_holders) \<and>
   validate_claim 50 (claim_of_lease ex_lease) Mutating (run_ops ex_two_ops empty_registry) = Ok \<and>
   validate_claim 50 (claim_of_lease (ex_lease\<lparr>lease_holder := ex_node 2, lease_token := ex_token 2\<rparr>)) Mutating
     (run_ops ex_two_ops empty_registry) = Ok"
proof -
  have st: "registry_storable ex_two_holders" by code_simp
  have load: "registry_load (registry_to_json ex_two_holders) r = (unattest_registry ex_two_holders, Ok)" for r
    using st by (rule registry_json_round_trip)
  have run: "run_ops ex_two_ops empty_registry =
      fst (reattest 20 ''s1'' (ex_node 2) (ex_token 2) (fst (reattest 20 ''s1'' (ex_node 1) (ex_token 1) (unattest_registry ex_two_holders))))"
    by (simp add: run_ops_def ex_two_ops_def load)
  have "\<not> registry_inv 20 (unattest_registry ex_two_holders)" by code_simp
  then have "\<not> sound_document 20 (registry_to_json ex_two_holders)" by (simp add: sound_document_def load)
  moreover have "validate_claim 50 (claim_of_lease ex_lease) Mutating (run_ops ex_two_ops empty_registry) = Ok"
    "validate_claim 50 (claim_of_lease (ex_lease\<lparr>lease_holder := ex_node 2, lease_token := ex_token 2\<rparr>)) Mutating
       (run_ops ex_two_ops empty_registry) = Ok"
    unfolding run by code_simp+
  ultimately show ?thesis by blast
qed

end
