(* ===== verification/Digest.thy ===== *)
theory Digest
  imports Strong_Types
begin

text \<open>
  Content digests and frame checksums: \<^verbatim>\<open>include/fabric/evolution/digest.hpp\<close> and
  \<^verbatim>\<open>src/digest.cpp\<close>. The streaming hasher is a record with the fields of the class, its loops
  are recursions over the data that is left, and its reference is the hash of the padded message
  cut into blocks. The table-driven checksum is related to the bit-serial one.
\<close>

section \<open>Digests and their hexadecimal form\<close>

type_synonym Digest = "u8 list"

definition digest_wf :: "Digest \<Rightarrow> bool" where
  "digest_wf d = (length d = 32)"

definition digest_zero :: Digest where
  "digest_zero = replicate 32 0"

definition digest_is_zero :: "Digest \<Rightarrow> bool" where
  "digest_is_zero d = list_all (\<lambda>b. b = 0) d"

definition to_hex :: "Digest \<Rightarrow> string" where
  "to_hex d = concat (map hex_of_byte d)"

definition to_short_hex :: "Digest \<Rightarrow> string" where
  "to_short_hex d = take 16 (to_hex d)"

fun hex_bytes :: "string \<Rightarrow> u8 list option" where
  "hex_bytes (h # l # text) =
     (if hex_value h < 0 \<or> hex_value l < 0 then None
      else map_option (\<lambda>bs. (push_bit 4 (word_of_int (hex_value h)) OR word_of_int (hex_value l)) # bs)
             (hex_bytes text))"
| "hex_bytes _ = Some []"

definition digest_from_hex :: "string \<Rightarrow> Digest option" where
  "digest_from_hex text = (if length text \<noteq> 64 then None else hex_bytes text)"

section \<open>SHA-256\<close>

definition kRoundConstants :: "u32 list" where
  "kRoundConstants = concat
    [[0x428a2f98, 0x71374491, 0xb5c0fbcf, 0xe9b5dba5, 0x3956c25b, 0x59f111f1, 0x923f82a4],
     [0xab1c5ed5, 0xd807aa98, 0x12835b01, 0x243185be, 0x550c7dc3, 0x72be5d74, 0x80deb1fe],
     [0x9bdc06a7, 0xc19bf174, 0xe49b69c1, 0xefbe4786, 0x0fc19dc6, 0x240ca1cc, 0x2de92c6f],
     [0x4a7484aa, 0x5cb0a9dc, 0x76f988da, 0x983e5152, 0xa831c66d, 0xb00327c8, 0xbf597fc7],
     [0xc6e00bf3, 0xd5a79147, 0x06ca6351, 0x14292967, 0x27b70a85, 0x2e1b2138, 0x4d2c6dfc],
     [0x53380d13, 0x650a7354, 0x766a0abb, 0x81c2c92e, 0x92722c85, 0xa2bfe8a1, 0xa81a664b],
     [0xc24b8b70, 0xc76c51a3, 0xd192e819, 0xd6990624, 0xf40e3585, 0x106aa070, 0x19a4c116],
     [0x1e376c08, 0x2748774c, 0x34b0bcb5, 0x391c0cb3, 0x4ed8aa4a, 0x5b9cca4f, 0x682e6ff3],
     [0x748f82ee, 0x78a5636f, 0x84c87814, 0x8cc70208, 0x90befffa, 0xa4506ceb, 0xbef9a3f7],
     [0xc67178f2]]"

definition rotr :: "u32 \<Rightarrow> nat \<Rightarrow> u32" where
  "rotr v count = drop_bit count v OR push_bit (32 - count) v"

record Sha256 =
  sha_state :: "u32 list"
  sha_buffer :: "u8 list"
  total_bytes :: u64
  buffer_used :: nat

definition sha_initial_state :: "u32 list" where
  "sha_initial_state =
    [0x6a09e667, 0xbb67ae85, 0x3c6ef372, 0xa54ff53a, 0x510e527f, 0x9b05688c, 0x1f83d9ab, 0x5be0cd19]"

definition sha_reset :: Sha256 where
  "sha_reset = \<lparr>sha_state = sha_initial_state, sha_buffer = replicate 64 0, total_bytes = 0, buffer_used = 0\<rparr>"

definition be_word :: "u8 list \<Rightarrow> nat \<Rightarrow> u32" where
  "be_word block offset =
     push_bit 24 (ucast (block ! offset)) OR push_bit 16 (ucast (block ! (offset + 1))) OR
     push_bit 8 (ucast (block ! (offset + 2))) OR ucast (block ! (offset + 3))"

definition schedule_next :: "u32 list \<Rightarrow> nat \<Rightarrow> u32 list" where
  "schedule_next w index =
     (let s0 = rotr (w ! (index - 15)) 7 XOR rotr (w ! (index - 15)) 18 XOR drop_bit 3 (w ! (index - 15));
          s1 = rotr (w ! (index - 2)) 17 XOR rotr (w ! (index - 2)) 19 XOR drop_bit 10 (w ! (index - 2))
      in w @ [w ! (index - 16) + s0 + w ! (index - 7) + s1])"

definition message_schedule :: "u8 list \<Rightarrow> u32 list" where
  "message_schedule block = foldl schedule_next (map (\<lambda>i. be_word block (i * 4)) [0..<16]) [16..<64]"

type_synonym sha_vars = "u32 \<times> u32 \<times> u32 \<times> u32 \<times> u32 \<times> u32 \<times> u32 \<times> u32"

fun sha_round :: "u32 \<Rightarrow> u32 \<Rightarrow> sha_vars \<Rightarrow> sha_vars" where
  "sha_round k w (a, b, c, d, e, f, g, h) =
     (let sigma1 = rotr e 6 XOR rotr e 11 XOR rotr e 25;
          choice = (e AND f) XOR ((NOT e) AND g);
          temp1 = h + sigma1 + choice + k + w;
          sigma0 = rotr a 2 XOR rotr a 13 XOR rotr a 22;
          majority = (a AND b) XOR (a AND c) XOR (b AND c);
          temp2 = sigma0 + majority
      in (temp1 + temp2, a, b, c, d + temp1, e, f, g))"

fun sha_rounds :: "u32 list \<Rightarrow> u32 list \<Rightarrow> sha_vars \<Rightarrow> sha_vars" where
  "sha_rounds (k # ks) (w # ws) v = sha_rounds ks ws (sha_round k w v)"
| "sha_rounds _ _ v = v"

definition compress_state :: "u8 list \<Rightarrow> u32 list \<Rightarrow> u32 list" where
  "compress_state block st =
     (let (a, b, c, d, e, f, g, h) =
        sha_rounds kRoundConstants (message_schedule block)
          (st ! 0, st ! 1, st ! 2, st ! 3, st ! 4, st ! 5, st ! 6, st ! 7)
      in [st ! 0 + a, st ! 1 + b, st ! 2 + c, st ! 3 + d, st ! 4 + e, st ! 5 + f, st ! 6 + g, st ! 7 + h])"

definition sha_compress :: "u8 list \<Rightarrow> Sha256 \<Rightarrow> Sha256" where
  "sha_compress block s = s\<lparr>sha_state := compress_state block (sha_state s)\<rparr>"

text \<open>
  The three loops of \<^verbatim>\<open>update\<close>: top up the buffer, hash whole blocks straight from the input,
  buffer the rest. Each returns the hasher and the data that is left.
\<close>

definition buffer_push :: "u8 \<Rightarrow> Sha256 \<Rightarrow> Sha256" where
  "buffer_push b s = s\<lparr>sha_buffer := (sha_buffer s)[buffer_used s := b], buffer_used := buffer_used s + 1\<rparr>"

fun sha_fill :: "Sha256 \<Rightarrow> u8 list \<Rightarrow> Sha256 \<times> u8 list" where
  "sha_fill s [] = (s, [])"
| "sha_fill s (b # bs) =
     (if buffer_used s < length (sha_buffer s) then sha_fill (buffer_push b s) bs else (s, b # bs))"

function sha_blocks :: "Sha256 \<Rightarrow> u8 list \<Rightarrow> Sha256 \<times> u8 list" where
  "sha_blocks s bs = (if length bs \<ge> 64 then sha_blocks (sha_compress (take 64 bs) s) (drop 64 bs) else (s, bs))"
  by auto
termination by (relation "measure (length \<circ> snd)") auto

declare sha_blocks.simps [simp del]

definition sha_update :: "Sha256 \<Rightarrow> u8 list \<Rightarrow> Sha256" where
  "sha_update s bs =
     (let s0 = s\<lparr>total_bytes := total_bytes s + of_nat (length bs)\<rparr>;
          (s1, rest) =
            (if buffer_used s0 \<noteq> 0 then
               (let (f, r) = sha_fill s0 bs in
                if buffer_used f = length (sha_buffer f)
                then (sha_compress (sha_buffer f) f\<lparr>buffer_used := 0\<rparr>, r) else (f, r))
             else (s0, bs));
          (s2, tail) = sha_blocks s1 rest
      in foldl (\<lambda>s b. buffer_push b s) s2 tail)"

text \<open>
  The padding loop of \<^verbatim>\<open>finalize\<close>, \<^verbatim>\<open>while (buffer_used_ != 56) update(zero)\<close>, with fuel: at
  most 64 single-byte updates bring the buffer from any fill level below 64 to 56, and the result is
  \<open>None\<close> if the fuel does not suffice.
\<close>

fun sha_pad_zeros :: "nat \<Rightarrow> Sha256 \<Rightarrow> Sha256 option" where
  "sha_pad_zeros fuel s =
     (if buffer_used s = 56 then Some s
      else case fuel of 0 \<Rightarrow> None | Suc n \<Rightarrow> sha_pad_zeros n (sha_update s [0]))"

declare sha_pad_zeros.simps [simp del]

definition be_bytes64 :: "u64 \<Rightarrow> u8 list" where
  "be_bytes64 w = map (\<lambda>i. ucast (drop_bit (8 * (7 - i)) w AND 0xFF)) [0..<8]"

definition be_bytes32 :: "u32 \<Rightarrow> u8 list" where
  "be_bytes32 w = [ucast (drop_bit 24 w AND 0xFF), ucast (drop_bit 16 w AND 0xFF), ucast (drop_bit 8 w AND 0xFF), ucast (w AND 0xFF)]"

definition sha_finalize :: "Sha256 \<Rightarrow> Digest option" where
  "sha_finalize s =
     (let bit_length = total_bytes s * 8 in
      case sha_pad_zeros 64 (sha_update s [0x80]) of
        None \<Rightarrow> None
      | Some p \<Rightarrow> Some (concat (map be_bytes32 (sha_state (sha_update p (be_bytes64 bit_length))))))"

definition sha256 :: "u8 list \<Rightarrow> Digest option" where
  "sha256 bs = sha_finalize (sha_update sha_reset bs)"

definition sha256_text :: "string \<Rightarrow> Digest option" where
  "sha256_text text = sha256 (map byte_of_char text)"

text \<open>The digest of a text; the hasher always returns, as shown below.\<close>

definition text_digest :: "string \<Rightarrow> Digest" where
  "text_digest t = (case sha256_text t of Some d \<Rightarrow> d | None \<Rightarrow> digest_zero)"

section \<open>CRC-32\<close>

definition crc_bit :: "u32 \<Rightarrow> u32" where
  "crc_bit v = (if v AND 1 \<noteq> 0 then 0xEDB88320 XOR drop_bit 1 v else drop_bit 1 v)"

definition build_crc_table :: "u32 list" where
  "build_crc_table = map (\<lambda>i. (crc_bit ^^ 8) (of_nat i)) [0..<256]"

definition crc_step :: "u32 \<Rightarrow> u8 \<Rightarrow> u32" where
  "crc_step crc b = build_crc_table ! unat ((crc XOR ucast b) AND 0xFF) XOR drop_bit 8 crc"

definition crc32 :: "u8 list \<Rightarrow> u32" where
  "crc32 bs = foldl crc_step 0xFFFFFFFF bs XOR 0xFFFFFFFF"

definition crc32_text :: "string \<Rightarrow> u32" where
  "crc32_text text = crc32 (map byte_of_char text)"

section \<open>Hexadecimal round trip\<close>

lemma length_to_hex: "length (to_hex d) = 2 * length d"
  by (induction d) (auto simp: to_hex_def hex_of_byte_def)

lemma hex_bytes_to_hex: "hex_bytes (to_hex d @ rest) = map_option ((@) d) (hex_bytes rest)"
proof (induction d)
  case Nil
  show ?case by (cases "hex_bytes rest") (simp_all add: to_hex_def)
next
  case (Cons b d)
  have h: "hex_value (kHexDigits ! unat (w AND 0x0F)) = int (unat (w AND 0x0F :: u8))" for w
    by (intro hex_value_digit unat_nibble)
  have join: "push_bit 4 (drop_bit 4 b) AND 240 OR b AND 15 = b" using nibbles_join [of b] by simp
  have "to_hex (b # d) @ rest = hex_of_byte b @ (to_hex d @ rest)" by (simp add: to_hex_def)
  then show ?case
    using Cons.IH
    by (simp add: hex_of_byte_def h nibble_word join del: of_int_of_nat_eq)
      (cases "hex_bytes rest"; simp)
qed

lemma digest_from_to_hex [codec_simps]: "digest_wf d \<Longrightarrow> digest_from_hex (to_hex d) = Some d"
  using hex_bytes_to_hex [of d "[]"] by (simp add: digest_from_hex_def length_to_hex digest_wf_def)

text \<open>Hexadecimal digests round trip: parsing the 64 digits printed for a 32-byte digest gives the
  digest back.\<close>

theorem digest_hex_round_trip:
  assumes "digest_wf d"
  shows "digest_from_hex (to_hex d) = Some d"
  using assms by (rule digest_from_to_hex)

section \<open>Streaming SHA-256 refines the hash of the padded message\<close>

text \<open>
  The reference: \<open>absorb\<close> compresses the whole 64-byte blocks of a message into the chaining state
  and keeps the rest; the padded message is the message, the bit 1, zeros up to 56 modulo 64 and
  the length in bits as 64 bits, most significant byte first.
\<close>

function absorb :: "u32 list \<Rightarrow> u8 list \<Rightarrow> u32 list \<times> u8 list" where
  "absorb st m = (if length m \<ge> 64 then absorb (compress_state (take 64 m) st) (drop 64 m) else (st, m))"
  by auto
termination by (relation "measure (length \<circ> snd)") auto

declare absorb.simps [simp del]

definition sha_padding :: "nat \<Rightarrow> u8 list" where
  "sha_padding n = 0x80 # replicate ((119 - n mod 64) mod 64) 0 @ be_bytes64 (of_nat n * 8)"

definition sha256_spec :: "u8 list \<Rightarrow> Digest" where
  "sha256_spec m = concat (map be_bytes32 (fst (absorb sha_initial_state (m @ sha_padding (length m)))))"

definition sha_represents :: "Sha256 \<Rightarrow> u8 list \<Rightarrow> bool" where
  "sha_represents s m =
     (absorb sha_initial_state m = (sha_state s, take (buffer_used s) (sha_buffer s)) \<and>
      length (sha_buffer s) = 64 \<and> buffer_used s < 64 \<and> total_bytes s = of_nat (length m))"

lemma absorb_short: "length m < 64 \<Longrightarrow> absorb st m = (st, m)"
  by (simp add: absorb.simps)

lemma absorb_long: "64 \<le> length m \<Longrightarrow> absorb st m = absorb (compress_state (take 64 m) st) (drop 64 m)"
  by (subst absorb.simps) simp

lemma absorb_append: "absorb st (m @ d) = (case absorb st m of (st', r) \<Rightarrow> absorb st' (r @ d))"
proof (induction st m rule: absorb.induct)
  case (1 st m)
  show ?case
  proof (cases "64 \<le> length m")
    case True
    then show ?thesis using 1 by (simp add: absorb_long [of m] absorb_long [of "m @ d"])
  qed (simp add: absorb_short)
qed

lemma absorb_rest: "length (snd (absorb st m)) = length m mod 64"
proof (induction st m rule: absorb.induct)
  case (1 st m)
  show ?case
  proof (cases "64 \<le> length m")
    case True
    then show ?thesis using 1 by (simp add: absorb_long [of m] le_mod_geq)
  qed (simp add: absorb_short)
qed

lemma sha_blocks_absorb:
  "sha_blocks s bs = (s\<lparr>sha_state := fst (absorb (sha_state s) bs)\<rparr>, snd (absorb (sha_state s) bs))"
proof (induction s bs rule: sha_blocks.induct)
  case (1 s bs)
  show ?case
  proof (cases "64 \<le> length bs")
    case True
    then show ?thesis using 1 by (simp add: sha_blocks.simps [of s bs] absorb_long [of bs] sha_compress_def)
  qed (simp add: sha_blocks.simps [of s bs] absorb_short)
qed

lemma foldl_buffer_push:
  assumes "buffer_used s + length bs \<le> length (sha_buffer s)"
  shows "foldl (\<lambda>s b. buffer_push b s) s bs =
    s\<lparr>sha_buffer := take (buffer_used s) (sha_buffer s) @ bs @ drop (buffer_used s + length bs) (sha_buffer s),
      buffer_used := buffer_used s + length bs\<rparr>"
  using assms
proof (induction bs arbitrary: s)
  case Nil
  then show ?case by simp
next
  case (Cons b bs)
  then show ?case
    by (simp add: buffer_push_def take_Suc_conv_app_nth list_update_append)
qed

lemma sha_fill_split:
  "buffer_used s \<le> length (sha_buffer s) \<Longrightarrow>
   sha_fill s bs = (foldl (\<lambda>s b. buffer_push b s) s (take (length (sha_buffer s) - buffer_used s) bs),
     drop (length (sha_buffer s) - buffer_used s) bs)"
proof (induction s bs rule: sha_fill.induct)
  case (1 s)
  then show ?case by simp
next
  case (2 s b bs)
  show ?case
  proof (cases "buffer_used s < length (sha_buffer s)")
    case True
    then obtain n where n: "length (sha_buffer s) - buffer_used s = Suc n" by (metis Suc_diff_Suc)
    then have "length (sha_buffer s) - Suc (buffer_used s) = n" by simp
    then show ?thesis using 2 True n by (simp add: buffer_push_def)
  qed (use 2 in simp)
qed


lemma sha_update_represents:
  assumes "sha_represents s m"
  shows "sha_represents (sha_update s d) (m @ d)"
proof -
  let ?s0 = "s\<lparr>total_bytes := total_bytes s + of_nat (length d)\<rparr>" and ?n = "buffer_used s"
  let ?b = "take ?n (sha_buffer s)" and ?st = "sha_state s"
  have rep: "absorb sha_initial_state m = (?st, ?b)" "length (sha_buffer s) = 64" "?n < 64"
      "total_bytes s = of_nat (length m)"
    using assms by (simp_all add: sha_represents_def)
  have total: "total_bytes s + of_nat (length d) = of_nat (length (m @ d))" using rep(4) by simp
  have abs: "absorb sha_initial_state (m @ d) = absorb ?st (?b @ d)" using rep(1) absorb_append [of sha_initial_state m d] by simp
  have fin: "sha_represents (foldl (\<lambda>s b. buffer_push b s) (t\<lparr>sha_state := fst (absorb (sha_state t) r)\<rparr>)
      (snd (absorb (sha_state t) r))) (m @ d)"
    if "absorb ?st (?b @ d) = absorb (sha_state t) r" "length (sha_buffer t) = 64" "buffer_used t = 0"
      "total_bytes t = of_nat (length (m @ d))" for t r
  proof -
    let ?t = "t\<lparr>sha_state := fst (absorb (sha_state t) r)\<rparr>" and ?r = "snd (absorb (sha_state t) r)"
    have r: "length ?r < 64" by (simp add: absorb_rest)
    then have push: "foldl (\<lambda>s b. buffer_push b s) ?t ?r =
        ?t\<lparr>sha_buffer := ?r @ drop (length ?r) (sha_buffer t), buffer_used := length ?r\<rparr>"
      using that(2,3) by (simp add: foldl_buffer_push)
    show ?thesis
      unfolding push sha_represents_def using r abs that by simp
  qed
  consider (empty) "?n = 0" | (fits) "?n \<noteq> 0" "?n + length d < 64" | (full) "?n \<noteq> 0" "64 \<le> ?n + length d"
    by linarith
  then show ?thesis
  proof cases
    case empty
    then have "sha_update s d = foldl (\<lambda>s b. buffer_push b s) (?s0\<lparr>sha_state := fst (absorb (sha_state ?s0) d)\<rparr>)
        (snd (absorb (sha_state ?s0) d))"
      by (simp add: sha_update_def sha_blocks_absorb)
    with fin [of ?s0 d] empty rep(2) total show ?thesis by simp
  next
    case fits
    let ?f = "?s0\<lparr>sha_buffer := ?b @ d @ drop (?n + length d) (sha_buffer s), buffer_used := ?n + length d\<rparr>"
    have "sha_fill ?s0 d = (?f, [])" using fits rep by (simp add: sha_fill_split foldl_buffer_push)
    then have "sha_update s d = ?f"
      using fits rep by (simp add: sha_update_def sha_blocks_absorb absorb_short)
    with fits rep total abs show ?thesis by (simp add: sha_represents_def absorb_short)
  next
    case full
    let ?k = "64 - ?n"
    let ?f = "?s0\<lparr>sha_buffer := ?b @ take ?k d, buffer_used := 64\<rparr>"
    let ?t = "sha_compress (?b @ take ?k d) ?f\<lparr>buffer_used := 0\<rparr>"
    have "sha_fill ?s0 d = (?f, drop ?k d)"
      using full rep by (simp add: sha_fill_split foldl_buffer_push min_absorb2)
    then have "sha_update s d = foldl (\<lambda>s b. buffer_push b s) (?t\<lparr>sha_state := fst (absorb (sha_state ?t) (drop ?k d))\<rparr>)
        (snd (absorb (sha_state ?t) (drop ?k d)))"
      using full rep by (simp add: sha_update_def sha_blocks_absorb sha_compress_def)
    moreover have "absorb ?st (?b @ d) = absorb (sha_state ?t) (drop ?k d)"
      using full rep by (simp add: absorb_long sha_compress_def)
    ultimately show ?thesis using fin [of ?t "drop ?k d"] full rep total by (simp add: sha_compress_def)
  qed
qed

lemma sha_reset_represents: "sha_represents sha_reset []"
  by (simp add: sha_represents_def sha_reset_def absorb_short)

lemma sha_represents_used: "sha_represents s m \<Longrightarrow> buffer_used s = length m mod 64"
  using absorb_rest [of sha_initial_state m] by (simp add: sha_represents_def)

lemma pad_count: "n < 64 \<Longrightarrow> (120 - n) mod 64 = (if n \<le> 56 then 56 - n else 120 - (n :: nat))"
  by (auto simp: le_mod_geq)

lemma pad_count_Suc:
  assumes "n < 64" "n \<noteq> 56"
  shows "(120 - n) mod 64 = Suc ((120 - Suc n mod 64) mod 64)"
proof (cases "n = 63")
  case False
  with assms(1) have "Suc n mod 64 = Suc n" by simp
  with False assms show ?thesis
    using pad_count [of n] pad_count [of "Suc n"] by (cases "n < 56") simp_all
qed simp

lemma sha_pad_zeros_represents:
  assumes "sha_represents s m" "(120 - length m mod 64) mod 64 \<le> fuel"
  shows "\<exists>p. sha_pad_zeros fuel s = Some p \<and> sha_represents p (m @ replicate ((120 - length m mod 64) mod 64) 0)"
  using assms
proof (induction fuel arbitrary: s m)
  case 0
  then have "length m mod 64 = 56" using pad_count [of "length m mod 64"] by (simp split: if_splits)
  with 0 show ?case by (simp add: sha_represents_used sha_pad_zeros.simps [of 0])
next
  case (Suc fuel)
  show ?case
  proof (cases "length m mod 64 = 56")
    case True
    with Suc.prems(1) show ?thesis by (simp add: sha_represents_used sha_pad_zeros.simps [of "Suc fuel" s])
  next
    case False
    let ?k = "(120 - length m mod 64) mod 64" and ?k' = "(120 - length (m @ [0 :: u8]) mod 64) mod 64"
    have k: "?k = Suc ?k'" using False pad_count_Suc [of "length m mod 64"] by (simp add: mod_Suc_eq)
    have "sha_represents (sha_update s [0]) (m @ [0])" using Suc.prems(1) by (rule sha_update_represents)
    with Suc.IH [of "sha_update s [0]" "m @ [0]"] k Suc.prems(2) obtain p where
        "sha_pad_zeros fuel (sha_update s [0]) = Some p" "sha_represents p ((m @ [0]) @ replicate ?k' 0)"
      by auto
    then show ?thesis using k False Suc.prems(1)
      by (simp add: sha_represents_used sha_pad_zeros.simps [of "Suc fuel" s])
  qed
qed

lemma sha_finalize_spec:
  assumes "sha_represents s m"
  shows "sha_finalize s = Some (sha256_spec m)"
proof -
  let ?m1 = "m @ [0x80]"
  let ?z = "(120 - length ?m1 mod 64) mod 64"
  have "sha_represents (sha_update s [0x80]) ?m1" using assms by (rule sha_update_represents)
  then obtain p where p: "sha_pad_zeros 64 (sha_update s [0x80]) = Some p" "sha_represents p (?m1 @ replicate ?z 0)"
    using sha_pad_zeros_represents [of "sha_update s [0x80]" ?m1 64] by (meson less_imp_le mod_less_divisor zero_less_numeral)
  have z: "?z = (119 - length m mod 64) mod 64" by (simp add: mod_Suc)
  have "sha_represents (sha_update p (be_bytes64 (total_bytes s * 8))) (m @ sha_padding (length m))"
  proof -
    have "total_bytes s = of_nat (length m)" using assms by (simp add: sha_represents_def)
    then show ?thesis
      using sha_update_represents [OF p(2), of "be_bytes64 (total_bytes s * 8)"]
      unfolding z sha_padding_def by simp
  qed
  then have "sha_state (sha_update p (be_bytes64 (total_bytes s * 8))) =
      fst (absorb sha_initial_state (m @ sha_padding (length m)))"
    by (simp add: sha_represents_def)
  then show ?thesis using p(1) by (simp add: sha_finalize_def sha256_spec_def Let_def)
qed

text \<open>Streaming SHA-256 is the hash of the padded message, however the message is cut: feeding any
  sequence of chunks to a fresh hasher and finalising always returns, and returns the digest
  specified for the concatenation of the chunks. In particular the one-shot \<^verbatim>\<open>sha256\<close> is the
  specified digest.\<close>

theorem sha256_chunking:
  "sha_finalize (foldl sha_update sha_reset chunks) = Some (sha256_spec (concat chunks)) \<and>
   sha256 bs = Some (sha256_spec bs)"
proof -
  have "sha_represents (foldl sha_update s chunks) (m @ concat chunks)" if "sha_represents s m" for s m
    using that
  proof (induction chunks arbitrary: s m)
    case (Cons c chunks)
    with Cons.IH [OF sha_update_represents [OF Cons.prems, of c]] show ?case by simp
  qed simp
  from sha_finalize_spec [OF this [OF sha_reset_represents]]
  have "sha_finalize (foldl sha_update sha_reset chunks) = Some (sha256_spec (concat chunks))" by simp
  moreover have "sha256 bs = Some (sha256_spec bs)"
    using sha_finalize_spec [OF sha_update_represents [OF sha_reset_represents, of bs]] by (simp add: sha256_def)
  ultimately show ?thesis by blast
qed

lemma length_compress_state: "length (compress_state b st) = 8"
  by (simp add: compress_state_def split: prod.split)

lemma length_absorb: "length st = 8 \<Longrightarrow> length (fst (absorb st m)) = 8"
proof (induction st m rule: absorb.induct)
  case (1 st m)
  then show ?case
    by (cases "64 \<le> length m") (simp_all add: absorb_long [of m st] absorb_short [of m] length_compress_state)
qed

lemma digest_wf_sha256_spec: "digest_wf (sha256_spec m)"
proof -
  have "length (concat (map be_bytes32 xs)) = 4 * length xs" for xs
    by (induction xs) (simp_all add: be_bytes32_def)
  then show ?thesis
    using length_absorb [of sha_initial_state "m @ sha_padding (length m)"]
    by (simp add: digest_wf_def sha256_spec_def sha_initial_state_def)
qed

lemma sha256_is_spec: "sha256 bs = Some (sha256_spec bs)"
  using sha_finalize_spec [OF sha_update_represents [OF sha_reset_represents, of bs]] by (simp add: sha256_def)

lemma digest_wf_text_digest: "digest_wf (text_digest t)"
  by (simp add: text_digest_def sha256_text_def sha256_is_spec digest_wf_sha256_spec)

section \<open>The table-driven CRC is the bit-serial CRC\<close>

definition crc_byte :: "u32 \<Rightarrow> u8 \<Rightarrow> u32" where
  "crc_byte crc b = (crc_bit ^^ 8) (crc XOR ucast b)"

definition crc32_spec :: "u8 list \<Rightarrow> u32" where
  "crc32_spec bs = foldl crc_byte 0xFFFFFFFF bs XOR 0xFFFFFFFF"

lemma crc_bit_alt: "crc_bit v = drop_bit 1 v XOR (if bit v 0 then 0xEDB88320 else 0)"
  by (auto simp: crc_bit_def one_and_eq and_one_eq mod_2_eq_odd bit_0 xor.commute)

lemma crc_bit_xor: "crc_bit (x XOR y) = crc_bit x XOR crc_bit y"
  by (simp add: crc_bit_alt bit_xor_iff xor.assoc xor.left_commute drop_bit_xor)

lemma crc_bits_xor: "(crc_bit ^^ n) (x XOR y) = (crc_bit ^^ n) x XOR (crc_bit ^^ n) y"
  by (induction n arbitrary: x y) (simp_all add: crc_bit_xor)

lemma crc_bits_push: "n + k \<le> 32 \<Longrightarrow> take_bit k v = v \<Longrightarrow> (crc_bit ^^ n) (push_bit n v) = v"
proof (induction n)
  case (Suc n)
  have "crc_bit (push_bit (Suc n) v) = push_bit n v"
  proof -
    have "drop_bit 1 (push_bit (Suc n) v) = push_bit n v"
    proof (rule bit_word_eqI)
      fix i assume i: "i < LENGTH(32)"
      have "bit v (31 - n) \<Longrightarrow> 31 - n < k" using Suc.prems(2) by (metis bit_take_bit_iff)
      then have "\<not> bit v (31 - n)" using Suc.prems(1) by linarith
      then show "bit (drop_bit 1 (push_bit (Suc n) v)) i = bit (push_bit n v) i"
        using i by (cases "i = 31") (auto simp: bit_simps simp del: push_bit_Suc)
    qed
    then show ?thesis by (simp add: crc_bit_alt bit_push_bit_iff del: push_bit_Suc)
  qed
  then show ?case using Suc by (simp add: funpow_swap1)
qed simp

lemma nth_crc_table: "i < 256 \<Longrightarrow> build_crc_table ! i = (crc_bit ^^ 8) (of_nat i)"
  by (simp add: build_crc_table_def)

lemma crc_step_byte: "crc_step crc b = crc_byte crc b"
proof -
  let ?x = "crc XOR ucast b"
  have split: "?x = take_bit 8 ?x XOR push_bit 8 (drop_bit 8 crc)"
    by (rule bit_word_eqI) (auto simp: bit_simps dest: bit_imp_le_length)
  have "unat (take_bit 8 ?x) < 256"
    using take_bit_nat_less_exp [of 8 "unat ?x"] by (simp add: unsigned_take_bit_eq del: take_bit_xor)
  then have "crc_step crc b = (crc_bit ^^ 8) (take_bit 8 ?x) XOR drop_bit 8 crc"
    by (simp add: crc_step_def and_255 nth_crc_table)
  moreover have "take_bit 24 (drop_bit 8 crc) = drop_bit 8 crc"
  proof (rule bit_word_eqI)
    fix n
    show "bit (take_bit 24 (drop_bit 8 crc)) n = bit (drop_bit 8 crc) n"
      using bit_imp_le_length [of crc "8 + n"] by (auto simp: bit_simps)
  qed
  then have "drop_bit 8 crc = (crc_bit ^^ 8) (push_bit 8 (drop_bit 8 crc))"
    by (intro crc_bits_push [symmetric, where k = 24]) simp_all
  ultimately show ?thesis
    unfolding crc_byte_def by (metis split crc_bits_xor)
qed

text \<open>The table-driven checksum computes the bit-serial CRC-32 (reflected polynomial
  \<^verbatim>\<open>0xEDB88320\<close>) of every byte sequence.\<close>

theorem crc32_table_correct: "crc32 bs = crc32_spec bs"
proof -
  have "crc_step = crc_byte" by (intro ext) (rule crc_step_byte)
  then show ?thesis by (simp add: crc32_def crc32_spec_def)
qed

section \<open>Errors the CRC detects\<close>

lemma crc_bit_inj: "crc_bit x = crc_bit y \<Longrightarrow> x = y"
proof -
  assume eq: "crc_bit x = crc_bit y"
  have top: "bit (crc_bit v) 31 = bit v 0" for v
    by (auto simp: crc_bit_alt bit_simps dest: bit_imp_le_length)
  have low: "bit (crc_bit v) i = (bit v (Suc i) \<noteq> (bit v 0 \<and> bit (0xEDB88320 :: u32) i))" for v i
    by (simp add: crc_bit_alt bit_simps)
  show "x = y"
  proof (rule bit_word_eqI)
    fix i assume "i < LENGTH(32)"
    show "bit x i = bit y i"
    proof (cases i)
      case 0
      then show ?thesis using top [of x] top [of y] eq by simp
    next
      case (Suc j)
      then show ?thesis using low [of x j] low [of y j] top [of x] top [of y] eq by auto
    qed
  qed
qed

lemma crc_bits_inj: "(crc_bit ^^ n) x = (crc_bit ^^ n) y \<Longrightarrow> x = y"
  by (induction n arbitrary: x y) (auto dest: crc_bit_inj)

lemma xor_cancel_right: "x XOR z = y XOR z \<Longrightarrow> x = (y :: 'a::len word)"
  by (drule arg_cong [where f = "\<lambda>w. w XOR z"]) (simp add: xor.assoc)

lemma crc_byte_inj: "crc_byte c b = crc_byte c' b \<Longrightarrow> c = c'"
  unfolding crc_byte_def by (drule crc_bits_inj) (rule xor_cancel_right)

lemma crc_suffix_inj: "foldl crc_byte c s = foldl crc_byte c' s \<Longrightarrow> c = c'"
  by (induction s arbitrary: c c') (auto dest: crc_byte_inj)

text \<open>Up to four bytes shift into the register one after the other: their effect is one xor.\<close>

fun le_word :: "u8 list \<Rightarrow> u32" where
  "le_word [] = 0"
| "le_word (b # bs) = ucast b XOR push_bit 8 (le_word bs)"

lemma le_word_bound: "bit (le_word bs) i \<Longrightarrow> i < 8 * length bs"
proof (induction bs arbitrary: i)
  case (Cons b bs)
  then consider "bit b i" | "8 \<le> i" "bit (le_word bs) (i - 8)" by (auto simp: bit_simps)
  then show ?case
  proof cases
    case 1
    then have "i < 8" using bit_imp_le_length [of b i] by simp
    then show ?thesis by simp
  next
    case 2
    with Cons.IH [of "i - 8"] show ?thesis by simp
  qed
qed simp

lemma take_bit_le_word: "take_bit (8 * length bs) (le_word bs) = le_word bs"
  by (rule bit_word_eqI) (auto simp: bit_simps dest: le_word_bound)

lemma crc_bytes_xor:
  "length bs \<le> 4 \<Longrightarrow> foldl crc_byte c bs = (crc_bit ^^ (8 * length bs)) (c XOR le_word bs)"
proof (induction bs arbitrary: c)
  case (Cons b bs)
  have "(crc_bit ^^ 8) (push_bit 8 (le_word bs)) = le_word bs"
    using Cons.prems take_bit_le_word [of bs] by (intro crc_bits_push [where k = "8 * length bs"]) simp_all
  then have *: "crc_byte c b XOR le_word bs = (crc_bit ^^ 8) (c XOR le_word (b # bs))"
    by (simp add: crc_byte_def crc_bits_xor xor.assoc)
  have "foldl crc_byte c (b # bs) = (crc_bit ^^ (8 * length bs)) (crc_byte c b XOR le_word bs)"
    using Cons by simp
  also have "\<dots> = (crc_bit ^^ (8 * length bs + 8)) (c XOR le_word (b # bs))"
    unfolding * by (simp only: funpow_add comp_def)
  finally show ?case by (simp add: add.commute)
qed simp

lemma le_word_inj: "length bs = length bs' \<Longrightarrow> length bs \<le> 4 \<Longrightarrow> le_word bs = le_word bs' \<Longrightarrow> bs = bs'"
proof (induction bs bs' rule: list_induct2)
  case (Cons b bs b' bs')
  have eq: "bit (le_word (b # bs)) i = bit (le_word (b' # bs')) i" for i using Cons.prems by simp
  have "bit b i = bit b' i" if "i < 8" for i
    using eq [of i] that by (simp add: bit_simps)
  then have "b = b'" by (intro bit_word_eqI) simp
  moreover have "bit (le_word bs) i = bit (le_word bs') i" if "i < 24" for i
    using eq [of "i + 8"] that bit_imp_le_length [of b "i + 8"] bit_imp_le_length [of b' "i + 8"]
    by (auto simp: bit_simps)
  moreover have "i < 24" if "bit (le_word bs) i \<or> bit (le_word bs') i" for i
    using that Cons.hyps Cons.prems le_word_bound [of bs i] le_word_bound [of bs' i] by auto
  ultimately have "le_word bs = le_word bs'" by (intro bit_word_eqI) blast
  with Cons \<open>b = b'\<close> show ?case by simp
qed simp

lemma crc32_burst:
  assumes "length bs = length bs'" "length bs \<le> 4" "bs \<noteq> bs'"
  shows "crc32 (p @ bs @ s) \<noteq> crc32 (p @ bs' @ s)"
proof
  assume eq: "crc32 (p @ bs @ s) = crc32 (p @ bs' @ s)"
  have "crc_step = crc_byte" by (intro ext) (rule crc_step_byte)
  then have "foldl crc_byte (foldl crc_byte (foldl crc_byte 0xFFFFFFFF p) bs) s =
      foldl crc_byte (foldl crc_byte (foldl crc_byte 0xFFFFFFFF p) bs') s"
    using xor_cancel_right [OF eq [unfolded crc32_def]] by simp
  then have "foldl crc_byte (foldl crc_byte 0xFFFFFFFF p) bs = foldl crc_byte (foldl crc_byte 0xFFFFFFFF p) bs'"
    by (rule crc_suffix_inj)
  then have "foldl crc_byte 0xFFFFFFFF p XOR le_word bs = foldl crc_byte 0xFFFFFFFF p XOR le_word bs'"
    using assms(1,2) crc_bits_inj by (simp add: crc_bytes_xor)
  then have "le_word bs = le_word bs'"
    unfolding xor.commute [of "foldl crc_byte 0xFFFFFFFF p"] by (rule xor_cancel_right)
  with assms le_word_inj show False by blast
qed

lemma crc32_text_burst:
  assumes "length bs = length bs'" "length bs \<le> 4" "bs \<noteq> bs'"
  shows "crc32_text (p @ bs' @ s) \<noteq> crc32_text (p @ bs @ s)"
proof -
  have "map byte_of_char bs \<noteq> map byte_of_char bs'"
    using assms(3) by (metis char_of_byte_of_char injI inj_map_eq_map)
  with crc32_burst [of "map byte_of_char bs" "map byte_of_char bs'"] assms(1,2) show ?thesis
    by (metis crc32_text_def length_map map_append)
qed

text \<open>The checksum detects every corruption confined to four consecutive bytes: two sequences of the
  same length that agree before and after a window of at most four bytes and differ inside it have
  different checksums.\<close>

theorem crc32_detects_burst:
  assumes "length bs = length bs'" "length bs \<le> 4" "bs \<noteq> bs'"
  shows "crc32 (p @ bs @ s) \<noteq> crc32 (p @ bs' @ s)"
  using assms by (rule crc32_burst)

section \<open>Witnesses\<close>

theorem digest_hex_round_trip_witness: "digest_from_hex (to_hex (replicate 32 0xAB)) = Some (replicate 32 0xAB)"
  by (rule digest_hex_round_trip) (simp add: digest_wf_def)

theorem crc32_detects_burst_witness: "crc32 ([1, 2] @ [3, 4] @ [5]) \<noteq> crc32 ([1, 2] @ [3, 8] @ [5])"
  by (rule crc32_detects_burst) simp_all

end
