(* ===== verification/Framing.thy ===== *)
theory Framing
  imports Digest Status_Codes "HOL-Library.Sublist"
begin

text \<open>
  The bounded frame codec of \<^verbatim>\<open>include/fabric/evolution/framing.hpp\<close> and
  \<^verbatim>\<open>src/framing.cpp\<close>. Sizes (\<^verbatim>\<open>std::size_t\<close>) are natural numbers, and the one place where
  they could overflow is the checked addition. The decoder is a record with its buffer and limits;
  its loop walks over the buffer by the offset \<open>consumed\<close>.
\<close>

record FrameLimits =
  max_payload_bytes :: nat
  max_buffered_bytes :: nat

definition default_limits :: FrameLimits where
  "default_limits = \<lparr>max_payload_bytes = 1024 * 1024, max_buffered_bytes = 4 * 1024 * 1024\<rparr>"

record Frame =
  payload :: string
  flags :: u8

datatype FrameFlags = FlagNone | FlagResponse | FlagCompressed

fun flag_bits :: "FrameFlags \<Rightarrow> u8" where
  "flag_bits FlagNone = 0"
| "flag_bits FlagResponse = 1"
| "flag_bits FlagCompressed = 2"

definition has_flag :: "Frame \<Rightarrow> FrameFlags \<Rightarrow> bool" where
  "has_flag f fl = (flags f AND flag_bits fl \<noteq> 0)"

definition kFrameHeaderBytes :: nat where
  "kFrameHeaderBytes = 20"

definition kMagic :: string where
  "kMagic = ''FXF1''"

definition kFrameVersion :: u8 where
  "kFrameVersion = 1"

definition encode_frame :: "string \<Rightarrow> u8 \<Rightarrow> FrameLimits \<Rightarrow> string Result" where
  "encode_frame body fl limits =
     (if length body > max_payload_bytes limits then Inl BoundsExceeded
      else
        let o1 = kMagic;
            o2 = append_u8 o1 kFrameVersion;
            o3 = append_u8 o2 fl;
            o4 = append_u16_le o3 0;
            o5 = append_u32_le o4 (of_nat (length body));
            o6 = append_u32_le o5 (crc32_text o5);
            o7 = append_u32_le o6 (crc32_text body)
        in if length o7 \<noteq> kFrameHeaderBytes then Inl Internal else Inr (o7 @ body))"

record FrameDecoder =
  dec_buffer :: string
  dec_limits :: FrameLimits

definition decoder_reset :: "FrameDecoder \<Rightarrow> FrameDecoder" where
  "decoder_reset d = d\<lparr>dec_buffer := []\<rparr>"

definition decoder_finish :: "FrameDecoder \<Rightarrow> Status" where
  "decoder_finish d = (if dec_buffer d \<noteq> [] then Malformed else Ok)"

text \<open>The loop of \<^verbatim>\<open>feed\<close>: the status, the buffer that is left and the frames appended so far.\<close>

function feed_loop :: "FrameLimits \<Rightarrow> string \<Rightarrow> nat \<Rightarrow> Frame list \<Rightarrow> Status \<times> string \<times> Frame list" where
  "feed_loop limits buffer consumed out =
     (let finished = (Ok, (if consumed \<noteq> 0 then drop consumed buffer else buffer), out) in
      if length buffer - consumed \<ge> kFrameHeaderBytes then
        let bytes = drop consumed buffer in
        if take 4 bytes \<noteq> kMagic then (ProtocolViolation, [], out)
        else if byte_of_char (bytes ! 4) \<noteq> kFrameVersion then (ProtocolViolation, [], out)
        else if crc32_text (take 12 bytes) \<noteq> read_u32_le (drop 12 bytes) then (ProtocolViolation, [], out)
        else
          let payload_bytes = unat (read_u32_le (drop 8 bytes)) in
          if payload_bytes > max_payload_bytes limits then (BoundsExceeded, [], out)
          else
            case size_add consumed
                   (case size_add kFrameHeaderBytes payload_bytes of None \<Rightarrow> 2 ^ 64 - 1 | Some n \<Rightarrow> n) of
              None \<Rightarrow> (BoundsExceeded, [], out)
            | Some frame_end \<Rightarrow>
                if length buffer < frame_end then finished
                else
                  let body = take payload_bytes (drop kFrameHeaderBytes bytes) in
                  if crc32_text body \<noteq> read_u32_le (drop 16 bytes) then (IntegrityFailure, [], out)
                  else feed_loop limits buffer frame_end (out @ [\<lparr>payload = body, flags = byte_of_char (bytes ! 5)\<rparr>])
      else finished)"
  by pat_completeness auto
termination
  by (relation "measure (\<lambda>(limits, buffer, consumed, out). length buffer - consumed)")
    (auto simp: size_add_def kFrameHeaderBytes_def split: option.splits if_splits)

declare feed_loop.simps [simp del]

definition decoder_feed :: "string \<Rightarrow> FrameDecoder \<Rightarrow> Frame list \<Rightarrow> FrameDecoder \<times> Frame list \<times> Status" where
  "decoder_feed chunk d out =
     (if chunk = [] then (d, out, Ok)
      else
        case size_add (length (dec_buffer d)) (length chunk) of
          None \<Rightarrow> (decoder_reset d, out, BoundsExceeded)
        | Some combined \<Rightarrow>
            if combined > max_buffered_bytes (dec_limits d) then (decoder_reset d, out, BoundsExceeded)
            else
              let (s, rest, frames) = feed_loop (dec_limits d) (dec_buffer d @ chunk) 0 out
              in (d\<lparr>dec_buffer := rest\<rparr>, frames, s))"

section \<open>Encoded frames\<close>

definition frame_head :: "string \<Rightarrow> u8 \<Rightarrow> string" where
  "frame_head body fl =
     kMagic @ [char_of_byte kFrameVersion, char_of_byte fl] @ append_u16_le [] 0 @ append_u32_le [] (of_nat (length body))"

definition frame_bytes :: "Frame \<Rightarrow> string" where
  "frame_bytes f =
     frame_head (payload f) (flags f) @ append_u32_le [] (crc32_text (frame_head (payload f) (flags f))) @
     append_u32_le [] (crc32_text (payload f)) @ payload f"

definition frame_ok :: "FrameLimits \<Rightarrow> Frame \<Rightarrow> bool" where
  "frame_ok limits f = (length (payload f) \<le> max_payload_bytes limits \<and> length (payload f) < 2 ^ 32)"

lemma length_frame_head [simp]: "length (frame_head body fl) = 12"
  by (simp add: frame_head_def kMagic_def)

lemma length_frame_bytes: "length (frame_bytes f) = 20 + length (payload f)"
  by (simp add: frame_bytes_def)

lemma encode_frame_bytes:
  "encode_frame (payload f) (flags f) limits =
     (if length (payload f) > max_payload_bytes limits then Inl BoundsExceeded else Inr (frame_bytes f))"
proof -
  have h: "append_u32_le (append_u16_le (append_u8 (append_u8 kMagic kFrameVersion) fl) 0) n =
      kMagic @ [char_of_byte kFrameVersion, char_of_byte fl] @ append_u16_le [] 0 @ append_u32_le [] n" for fl n
    by (simp add: append_u32_le_eq [of "append_u16_le _ _"] append_u16_le_eq [of "kMagic @ _"]
        append_u32_le_eq [of "kMagic @ _"] append_u8_def)
  have "append_u32_le (append_u32_le (frame_head body fl) c) d = frame_head body fl @ append_u32_le [] c @ append_u32_le [] d"
    for body fl c d
    by (simp add: append_u32_le_eq [of "append_u32_le _ _"] append_u32_le_eq [of "frame_head _ _"]
        append_u32_le_eq [of "frame_head _ _ @ _"])
  then show ?thesis
    unfolding encode_frame_def frame_bytes_def Let_def h frame_head_def [symmetric]
    by (simp add: kFrameHeaderBytes_def)
qed

section \<open>Decoding encoded frames\<close>

lemma frame_bytes_fields:
  assumes "frame_ok limits f"
  shows "take 4 (frame_bytes f @ q) = kMagic" "byte_of_char ((frame_bytes f @ q) ! 4) = kFrameVersion"
    "byte_of_char ((frame_bytes f @ q) ! 5) = flags f"
    "take 12 (frame_bytes f @ q) = frame_head (payload f) (flags f)"
    "read_u32_le (drop 12 (frame_bytes f @ q)) = crc32_text (frame_head (payload f) (flags f))"
    "unat (read_u32_le (drop 8 (frame_bytes f @ q))) = length (payload f)"
    "read_u32_le (drop 16 (frame_bytes f @ q)) = crc32_text (payload f)"
    "take (length (payload f)) (drop 20 (frame_bytes f @ q)) = payload f"
proof -
  let ?h = "frame_head (payload f) (flags f)" and ?n = "of_nat (length (payload f)) :: u32"
  have m: "length kMagic = 4" by (simp add: kMagic_def)
  show "take 4 (frame_bytes f @ q) = kMagic"
    using m by (simp add: frame_bytes_def frame_head_def)
  show "byte_of_char ((frame_bytes f @ q) ! 4) = kFrameVersion" "byte_of_char ((frame_bytes f @ q) ! 5) = flags f"
    using m by (simp_all add: frame_bytes_def frame_head_def nth_append)
  show "take 12 (frame_bytes f @ q) = ?h" by (simp add: frame_bytes_def)
  show "read_u32_le (drop 12 (frame_bytes f @ q)) = crc32_text ?h"
    by (simp add: frame_bytes_def read_append_u32)
  have "drop 8 (frame_bytes f @ q) = append_u32_le [] ?n @ drop 12 (frame_bytes f @ q)"
    using m by (simp add: frame_bytes_def frame_head_def)
  then have "read_u32_le (drop 8 (frame_bytes f @ q)) = ?n" by (simp add: read_append_u32)
  moreover have "unat ?n = length (payload f)"
    using assms by (simp add: frame_ok_def unat_of_nat)
  ultimately show "unat (read_u32_le (drop 8 (frame_bytes f @ q))) = length (payload f)" by simp
  show "read_u32_le (drop 16 (frame_bytes f @ q)) = crc32_text (payload f)"
    by (simp add: frame_bytes_def read_append_u32)
  show "take (length (payload f)) (drop 20 (frame_bytes f @ q)) = payload f"
    by (simp add: frame_bytes_def)
qed

lemma read_u32_le_prefix: "k + 4 \<le> length q \<Longrightarrow> read_u32_le (drop k (q @ r)) = read_u32_le (drop k q)"
  by (simp add: read_u32_le_def nth_append upt_rec)

lemma feed_loop_frame:
  assumes "frame_ok limits f" "length (pre @ frame_bytes f @ q) < 2 ^ 64"
  shows "feed_loop limits (pre @ frame_bytes f @ q) (length pre) out =
    feed_loop limits (pre @ frame_bytes f @ q) (length (pre @ frame_bytes f)) (out @ [f])"
proof -
  have l: "kFrameHeaderBytes \<le> length (pre @ frame_bytes f @ q) - length pre"
    by (simp add: kFrameHeaderBytes_def length_frame_bytes)
  have d: "drop (length pre) (pre @ frame_bytes f @ q) = frame_bytes f @ q" by simp
  have p: "\<not> length (payload f) > max_payload_bytes limits" using assms(1) by (simp add: frame_ok_def)
  have e: "size_add (length pre) (case size_add kFrameHeaderBytes (length (payload f)) of None \<Rightarrow> 2 ^ 64 - 1 | Some n \<Rightarrow> n) =
      Some (length (pre @ frame_bytes f))"
    using assms(2) by (simp add: size_add_def kFrameHeaderBytes_def length_frame_bytes)
  have b: "take (length (payload f)) (drop kFrameHeaderBytes (frame_bytes f @ q)) = payload f"
    using frame_bytes_fields(8) [OF assms(1)] by (simp only: kFrameHeaderBytes_def)
  have f: "\<lparr>payload = payload f, flags = flags f\<rparr> = f" by simp
  have n: "\<not> length (pre @ frame_bytes f @ q) < length (pre @ frame_bytes f)" by simp
  show ?thesis
    by (subst feed_loop.simps)
      (simp only: Let_def d frame_bytes_fields(1-7) [OF assms(1)] e option.case l p b f n if_True if_False simp_thms)
qed

text \<open>A buffer that ends inside a frame: the loop stops and keeps the rest.\<close>

lemma feed_loop_partial:
  assumes "frame_ok limits f" "strict_prefix q (frame_bytes f)" "length (pre @ frame_bytes f) < 2 ^ 64"
  shows "feed_loop limits (pre @ q) (length pre) out = (Ok, q, out)"
proof (cases "length q \<ge> 20")
  case False
  then show ?thesis by (subst feed_loop.simps) (simp add: Let_def kFrameHeaderBytes_def)
next
  case True
  from assms(2) obtain r where r: "frame_bytes f = q @ r" "r \<noteq> []" by (auto simp: strict_prefix_def prefix_def)
  have rd: "read_u32_le (drop k q) = read_u32_le (drop k (frame_bytes f @ []))" if "k \<le> 16" for k
    using that True r(1) read_u32_le_prefix [of k q r] by simp
  have nth: "q ! 4 = (frame_bytes f @ []) ! 4" using True r(1) by (simp add: nth_append)
  have tk: "take k q = take k (frame_bytes f @ [])" if "k \<le> 20" for k using that True r(1) by simp
  have rds: "read_u32_le (drop 12 q) = read_u32_le (drop 12 (frame_bytes f @ []))"
      "read_u32_le (drop 8 q) = read_u32_le (drop 8 (frame_bytes f @ []))"
      "read_u32_le (drop 16 q) = read_u32_le (drop 16 (frame_bytes f @ []))"
    by (rule rd; simp)+
  have tks: "take 4 q = take 4 (frame_bytes f @ [])" "take 12 q = take 12 (frame_bytes f @ [])"
    by (rule tk; simp)+
  have d: "drop (length pre) (pre @ q) = q" by simp
  have p: "\<not> length (payload f) > max_payload_bytes limits" using assms(1) by (simp add: frame_ok_def)
  have e: "size_add (length pre) (case size_add kFrameHeaderBytes (length (payload f)) of None \<Rightarrow> 2 ^ 64 - 1 | Some n \<Rightarrow> n) =
      Some (length (pre @ frame_bytes f))"
    using assms(3) by (simp add: size_add_def kFrameHeaderBytes_def length_frame_bytes)
  have n: "length (pre @ q) < length (pre @ frame_bytes f)" using r by simp
  have l: "kFrameHeaderBytes \<le> length (pre @ q) - length pre" using True by (simp add: kFrameHeaderBytes_def)
  have "feed_loop limits (pre @ q) (length pre) out =
      (Ok, (if length pre \<noteq> 0 then drop (length pre) (pre @ q) else pre @ q), out)"
    by (subst feed_loop.simps)
      (simp only: Let_def d rds tks nth frame_bytes_fields(1-7) [OF assms(1)] e option.case l p n if_True if_False simp_thms)
  then show ?thesis by simp
qed


section \<open>Streams of frames\<close>

abbreviation stream_of :: "Frame list \<Rightarrow> string" where
  "stream_of fs \<equiv> concat (map frame_bytes fs)"

text \<open>What may be buffered while the frames \<open>fs\<close> are still to come: a proper part of the next frame.\<close>

definition pending :: "string \<Rightarrow> Frame list \<Rightarrow> bool" where
  "pending q fs = (case fs of [] \<Rightarrow> q = [] | f # _ \<Rightarrow> strict_prefix q (frame_bytes f))"

lemma frame_bytes_nonempty [simp]: "frame_bytes f \<noteq> []"
  using length_frame_bytes [of f] by (metis length_0_conv add_is_0 zero_neq_numeral)

lemma prefix_stream_split:
  assumes "prefix p (stream_of fs)"
  obtains gs hs q where "fs = gs @ hs" "p = stream_of gs @ q" "pending q hs"
proof -
  from assms have "\<exists>gs hs q. fs = gs @ hs \<and> p = stream_of gs @ q \<and> pending q hs"
  proof (induction fs arbitrary: p)
    case Nil
    then show ?case by (auto simp: pending_def)
  next
    case (Cons f fs)
    show ?case
    proof (cases "prefix (frame_bytes f) p")
      case True
      then obtain p' where p': "p = frame_bytes f @ p'" by (auto simp: prefix_def)
      with Cons.prems have "prefix p' (stream_of fs)" by simp
      then obtain gs hs q where "fs = gs @ hs" "p' = stream_of gs @ q" "pending q hs" using Cons.IH by blast
      with p' have "f # fs = (f # gs) @ hs \<and> p = stream_of (f # gs) @ q \<and> pending q hs" by simp
      then show ?thesis by blast
    next
      case False
      with Cons.prems have "strict_prefix p (frame_bytes f)"
        by (auto simp: strict_prefix_def prefix_append)
      then have "f # fs = [] @ (f # fs) \<and> p = stream_of [] @ p \<and> pending p (f # fs)" by (simp add: pending_def)
      then show ?thesis by blast
    qed
  qed
  with that show thesis by blast
qed

lemma length_pending:
  assumes "pending q fs" "list_all (frame_ok limits) fs"
  shows "length q < kFrameHeaderBytes + max_payload_bytes limits"
proof (cases fs)
  case Nil
  with assms show ?thesis by (simp add: pending_def kFrameHeaderBytes_def)
next
  case (Cons f fs')
  with assms have "length q < length (frame_bytes f)" "length (payload f) \<le> max_payload_bytes limits"
    by (auto simp: pending_def frame_ok_def dest: prefix_length_less)
  then show ?thesis by (simp add: length_frame_bytes kFrameHeaderBytes_def)
qed

lemma feed_loop_pending:
  assumes "pending q hs" "list_all (frame_ok limits) hs"
    and "length pre + kFrameHeaderBytes + max_payload_bytes limits < 2 ^ 64"
  shows "feed_loop limits (pre @ q) (length pre) out = (Ok, q, out)"
proof (cases hs)
  case Nil
  with assms(1) have "q = []" by (simp add: pending_def)
  then show ?thesis by (subst feed_loop.simps) (simp add: Let_def kFrameHeaderBytes_def)
next
  case (Cons f hs')
  with assms have "frame_ok limits f" "strict_prefix q (frame_bytes f)" by (auto simp: pending_def)
  moreover from this(1) assms(3) have "length (pre @ frame_bytes f) < 2 ^ 64"
    by (simp add: length_frame_bytes frame_ok_def kFrameHeaderBytes_def)
  ultimately show ?thesis by (rule feed_loop_partial)
qed

lemma feed_loop_stream:
  assumes "list_all (frame_ok limits) (gs @ hs)" "pending q hs"
    and "length (pre @ stream_of gs @ q) + kFrameHeaderBytes + max_payload_bytes limits < 2 ^ 64"
  shows "feed_loop limits (pre @ stream_of gs @ q) (length pre) out = (Ok, q, out @ gs)"
  using assms
proof (induction gs arbitrary: pre out)
  case Nil
  then show ?case by (simp add: feed_loop_pending)
next
  case (Cons g gs)
  have "feed_loop limits (pre @ frame_bytes g @ stream_of gs @ q) (length pre) out =
      feed_loop limits (pre @ frame_bytes g @ stream_of gs @ q) (length (pre @ frame_bytes g)) (out @ [g])"
    using Cons.prems by (intro feed_loop_frame) simp_all
  with Cons.IH [of "pre @ frame_bytes g" "out @ [g]"] Cons.prems show ?case by simp
qed

text \<open>Feeding one chunk after the other, stopping at the first refusal.\<close>

fun feed_all :: "string list \<Rightarrow> FrameDecoder \<Rightarrow> Frame list \<Rightarrow> FrameDecoder \<times> Frame list \<times> Status" where
  "feed_all [] d out = (d, out, Ok)"
| "feed_all (c # cs) d out =
     (case decoder_feed c d out of (d', out', s) \<Rightarrow> if s = Ok then feed_all cs d' out' else (d', out', s))"

definition chunk_fits :: "FrameLimits \<Rightarrow> string \<Rightarrow> bool" where
  "chunk_fits limits c =
     (kFrameHeaderBytes + max_payload_bytes limits + length c \<le> max_buffered_bytes limits)"

definition limits_ok :: "FrameLimits \<Rightarrow> bool" where
  "limits_ok limits =
     (max_buffered_bytes limits + kFrameHeaderBytes + max_payload_bytes limits < 2 ^ 64)"

lemma decoder_feed_stream:
  assumes "list_all (frame_ok (dec_limits d)) (gs @ hs)" "pending q hs" "dec_buffer d @ c = stream_of gs @ q"
    and "length (dec_buffer d) + length c \<le> max_buffered_bytes (dec_limits d)" "limits_ok (dec_limits d)" "c \<noteq> []"
  shows "decoder_feed c d out = (d\<lparr>dec_buffer := q\<rparr>, out @ gs, Ok)"
proof -
  have len: "length (stream_of gs @ q) = length (dec_buffer d) + length c" using assms(3) by (metis length_append)
  then have "length ([] @ stream_of gs @ q) + kFrameHeaderBytes + max_payload_bytes (dec_limits d) < 2 ^ 64"
    using assms(4,5) by (simp add: limits_ok_def)
  from feed_loop_stream [OF assms(1,2) this, of out]
  have loop: "feed_loop (dec_limits d) (dec_buffer d @ c) 0 out = (Ok, q, out @ gs)" using assms(3) by simp
  have "size_add (length (dec_buffer d)) (length c) = Some (length (dec_buffer d) + length c)"
    using assms(4,5) by (simp add: size_add_def limits_ok_def)
  with loop assms(4,6) show ?thesis by (simp add: decoder_feed_def)
qed

lemma feed_all_stream:
  assumes "list_all (frame_ok (dec_limits d)) fs" "pending (dec_buffer d) fs"
    and "dec_buffer d @ concat chunks = stream_of fs" "list_all (chunk_fits (dec_limits d)) chunks"
    and "limits_ok (dec_limits d)"
  shows "feed_all chunks d out = (d\<lparr>dec_buffer := []\<rparr>, out @ fs, Ok)"
  using assms
proof (induction chunks arbitrary: d fs out)
  case Nil
  then have "fs = []" by (cases fs) (auto simp: pending_def strict_prefix_def)
  with Nil show ?case by (simp add: pending_def)
next
  case (Cons c cs)
  show ?case
  proof (cases "c = []")
    case True
    with Cons show ?thesis by (simp add: decoder_feed_def)
  next
    case False
    have "prefix (dec_buffer d @ c) (stream_of fs)" using Cons.prems(3) by (metis append_assoc concat.simps(2) prefixI)
    then obtain gs hs q where s: "fs = gs @ hs" "dec_buffer d @ c = stream_of gs @ q" "pending q hs"
      by (rule prefix_stream_split)
    have "length (dec_buffer d) + length c \<le> max_buffered_bytes (dec_limits d)"
      using length_pending [OF Cons.prems(2,1)] Cons.prems(4) by (simp add: chunk_fits_def)
    then have feed: "decoder_feed c d out = (d\<lparr>dec_buffer := q\<rparr>, out @ gs, Ok)"
      using Cons.prems(1,5) s False by (intro decoder_feed_stream) simp_all
    have "stream_of gs @ q @ concat cs = stream_of gs @ stream_of hs"
      using Cons.prems(3) s(1) arg_cong [OF s(2), of "\<lambda>x. x @ concat cs"] by simp
    then have "q @ concat cs = stream_of hs" by simp
    then have "feed_all cs (d\<lparr>dec_buffer := q\<rparr>) (out @ gs) = (d\<lparr>dec_buffer := []\<rparr>, (out @ gs) @ hs, Ok)"
      using Cons.IH [of "d\<lparr>dec_buffer := q\<rparr>" hs "out @ gs"] Cons.prems s by simp
    with feed s(1) show ?thesis by simp
  qed
qed

text \<open>The frame decoder inverts the encoder on every fragmentation. Encode any sequence of frames
  whose payloads are within the limits, cut the resulting byte stream into chunks at any places (each
  chunk leaving room in the buffer for one partial frame), and feed the chunks to a fresh decoder:
  every call succeeds, exactly the encoded frames come out in order, nothing stays buffered and the
  end of the stream is accepted.\<close>

theorem frame_stream_round_trip:
  assumes "map_result (\<lambda>f. encode_frame (payload f) (flags f) limits) fs = Inr encoded"
    and "list_all (\<lambda>f. length (payload f) < 2 ^ 32) fs"
    and "concat chunks = concat encoded" "list_all (chunk_fits limits) chunks" "limits_ok limits"
  shows "\<exists>d. feed_all chunks \<lparr>dec_buffer = [], dec_limits = limits\<rparr> [] = (d, fs, Ok) \<and> decoder_finish d = Ok"
proof -
  have enc: "encoded = map frame_bytes fs \<and> list_all (frame_ok limits) fs"
    using assms(1,2)
  proof (induction fs arbitrary: encoded)
    case (Cons f fs)
    then show ?case by (auto simp: encode_frame_bytes frame_ok_def split: if_splits)
  qed simp
  have "pending [] fs" by (cases fs) (simp_all add: pending_def strict_prefix_def frame_bytes_nonempty [symmetric])
  with enc assms feed_all_stream [of "\<lparr>dec_buffer = [], dec_limits = limits\<rparr>" fs chunks "[]"] show ?thesis
    by (simp add: decoder_finish_def)
qed

section \<open>Damaged frames\<close>

text \<open>The four bytes can be read back from the word.\<close>

lemma word_bytes_bit:
  fixes a b c d :: u8
  defines "v \<equiv> (ucast a OR push_bit 8 (ucast b) OR push_bit 16 (ucast c) OR push_bit 24 (ucast d) :: u32)"
  assumes "k < 8"
  shows "bit v k = bit a k" "bit v (8 + k) = bit b k" "bit v (16 + k) = bit c k" "bit v (24 + k) = bit d k"
  using assms(2) unfolding v_def by (simp_all add: bit_simps) (auto dest: bit_imp_le_length)

lemma read_u32_le_bytes:
  "read_u32_le (a # b # c # d # r) =
     ucast (byte_of_char a) OR push_bit 8 (ucast (byte_of_char b)) OR push_bit 16 (ucast (byte_of_char c)) OR
     push_bit 24 (ucast (byte_of_char d))"
  by (simp add: read_u32_le_def upt_rec or.assoc)

lemma read_u32_le_inject:
  assumes "read_u32_le (a # b # c # d # r) = read_u32_le (a' # b' # c' # d' # r')"
  shows "[a, b, c, d] = [a', b', c', d']"
proof -
  have byte: "x = y" if "\<And>k. k < 8 \<Longrightarrow> bit (byte_of_char x) k = bit (byte_of_char y) k" for x y
  proof -
    have "byte_of_char x = byte_of_char y" using that by (intro bit_word_eqI) simp
    then show ?thesis by (metis char_of_byte_of_char)
  qed
  note bytes = word_bytes_bit [of _ "byte_of_char a" "byte_of_char b" "byte_of_char c" "byte_of_char d", folded read_u32_le_bytes [of a b c d r]]
    and bytes' = word_bytes_bit [of _ "byte_of_char a'" "byte_of_char b'" "byte_of_char c'" "byte_of_char d'", folded read_u32_le_bytes [of a' b' c' d' r']]
  have "a = a'" "b = b'" "c = c'" "d = d'"
    by (rule byte, use bytes bytes' assms in metis)+
  then show ?thesis by simp
qed

lemma read_u32_le_differs:
  assumes "length xs = length ys" "4 \<le> length xs" "take 4 xs \<noteq> take 4 ys"
  shows "read_u32_le xs \<noteq> read_u32_le ys"
proof -
  from assms obtain a b c d r a' b' c' d' r' where "xs = a # b # c # d # r" "ys = a' # b' # c' # d' # r'"
    by (auto simp: numeral_eq_Suc Suc_le_length_iff length_Suc_conv)
  with assms(3) read_u32_le_inject [of a b c d r a' b' c' d' r'] show ?thesis by auto
qed

lemma feed_loop_bad_header:
  assumes "20 \<le> length q" "crc32_text (take 12 q) \<noteq> read_u32_le (drop 12 q)"
  shows "feed_loop limits q 0 out = (ProtocolViolation, [], out)"
  by (subst feed_loop.simps) (use assms in \<open>simp add: Let_def kFrameHeaderBytes_def\<close>)

lemma feed_loop_bad_body:
  assumes "frame_ok limits f" "take 16 q = take 16 (frame_bytes f)" "length q = length (frame_bytes f)"
    and "crc32_text (drop 20 q) \<noteq> read_u32_le (drop 16 q)" "length q < 2 ^ 64"
  shows "feed_loop limits q 0 out = (IntegrityFailure, [], out)"
proof -
  have n: "length q = 20 + length (payload f)" using assms(3) by (simp add: length_frame_bytes)
  have t: "take k q = take k (frame_bytes f @ [])" if "k \<le> 16" for k
    using arg_cong [OF assms(2), of "take k"] that by (simp add: min_absorb1)
  have rd: "read_u32_le (drop k q) = read_u32_le (drop k (frame_bytes f @ []))" if "k \<le> 12" for k
  proof -
    have "read_u32_le (drop k x) = read_u32_le (drop k (take 16 x))" if "20 \<le> length x" for x
      using that \<open>k \<le> 12\<close> read_u32_le_prefix [of k "take 16 x" "drop 16 x"] by simp
    from this [of q] this [of "frame_bytes f"] assms(2) n show ?thesis by (simp add: length_frame_bytes)
  qed
  have i: "q ! k = (frame_bytes f @ []) ! k" if "k < 16" for k
    using arg_cong [OF assms(2), of "\<lambda>x. x ! k"] that by simp
  have "size_add 0 (case size_add kFrameHeaderBytes (length (payload f)) of None \<Rightarrow> 2 ^ 64 - 1 | Some m \<Rightarrow> m) = Some (length q)"
    using assms(5) n by (simp add: size_add_def kFrameHeaderBytes_def)
  moreover have "take (length (payload f)) (drop kFrameHeaderBytes q) = drop 20 q" using n by (simp add: kFrameHeaderBytes_def)
  moreover have "\<not> length (payload f) > max_payload_bytes limits" using assms(1) by (simp add: frame_ok_def)
  ultimately show ?thesis
    using frame_bytes_fields(1-6) [OF assms(1), of "[]"] t [of 4] t [of 12] rd [of 8] rd [of 12] i [of 4] n assms(4)
    by (subst feed_loop.simps) (simp add: Let_def kFrameHeaderBytes_def)
qed

text \<open>A range of a frame that lies within one of its four fields: the checked header, its checksum, the
  payload checksum, or the payload.\<close>

definition within_field :: "nat \<Rightarrow> nat \<Rightarrow> bool" where
  "within_field i j = (j \<le> 12 \<or> 12 \<le> i \<and> j \<le> 16 \<or> 16 \<le> i \<and> j \<le> 20 \<or> 20 \<le> i)"

lemma take_burst:
  assumes "length bs = length bs'"
  shows "n \<le> length p \<Longrightarrow> take n (p @ bs' @ s) = take n (p @ bs @ s)"
    "length p + length bs \<le> n \<Longrightarrow> drop n (p @ bs' @ s) = drop n (p @ bs @ s)"
    "length p + length bs \<le> n \<Longrightarrow> take n (p @ x @ s) = p @ take (n - length p) (x @ s)"
  using assms by simp_all

text \<open>A damaged frame is refused. Change any bytes of an encoded frame inside a window of at most four
  bytes that lies within one of its fields (the checked header, its checksum, the payload checksum or
  the payload): the decoder reports an error, delivers no frame and drops its buffer.\<close>

theorem damaged_frame_refused:
  fixes f :: Frame
  assumes "encode_frame (payload f) (flags f) limits = Inr (p @ bs @ s)" "length (payload f) < 2 ^ 32"
    and "length bs' = length bs" "length bs \<le> 4" "bs' \<noteq> bs" "within_field (length p) (length p + length bs)"
    and "length (p @ bs @ s) \<le> max_buffered_bytes limits" "limits_ok limits"
  shows "\<exists>e \<in> {ProtocolViolation, IntegrityFailure}.
    decoder_feed (p @ bs' @ s) \<lparr>dec_buffer = [], dec_limits = limits\<rparr> [] = (\<lparr>dec_buffer = [], dec_limits = limits\<rparr>, [], e)"
proof -
  let ?q = "p @ bs' @ s"
  have f: "frame_bytes f = p @ bs @ s" "frame_ok limits f"
    using assms(1,2) by (auto simp: encode_frame_bytes frame_ok_def split: if_splits)
  have len: "length ?q = length (frame_bytes f)" "20 \<le> length ?q" "length ?q < 2 ^ 64"
    using f(1) assms(3,7,8) length_frame_bytes [of f] by (simp_all add: limits_ok_def)
  note fields = frame_bytes_fields [OF f(2), of "[]", unfolded append_Nil2 f(1)]
  note burst = take_burst [of bs bs', OF assms(3) [symmetric]]
  have h: "feed_loop limits ?q 0 [] = (ProtocolViolation, [], [])" if "crc32_text (take 12 ?q) \<noteq> read_u32_le (drop 12 ?q)"
    using len(2) that by (rule feed_loop_bad_header)
  have b: "feed_loop limits ?q 0 [] = (IntegrityFailure, [], [])"
    if "16 \<le> length p" "crc32_text (drop 20 ?q) \<noteq> read_u32_le (drop 16 ?q)"
    using f len that burst(1) [of 16 p s] by (intro feed_loop_bad_body [of limits f]) simp_all
  consider "length p + length bs \<le> 12" | "12 \<le> length p" "length p + length bs \<le> 16"
    | "16 \<le> length p" "length p + length bs \<le> 20" | "20 \<le> length p"
    using assms(6) by (auto simp: within_field_def)
  then have "\<exists>e \<in> {ProtocolViolation, IntegrityFailure}. feed_loop limits ?q 0 [] = (e, [], [])"
  proof cases
    case 1
    have "crc32_text (take 12 ?q) \<noteq> crc32_text (take 12 (p @ bs @ s))"
      using 1 assms(3-5) crc32_text_burst [of bs bs' p "take (12 - length p - length bs) s"] by simp
    with 1 fields(4,5) burst(2) [of p 12 s] show ?thesis using h by simp
  next
    case 2
    have "read_u32_le (drop 12 ?q) \<noteq> read_u32_le (drop 12 (p @ bs @ s))"
      using 2 assms(3,5) len by (intro read_u32_le_differs) auto
    with 2 fields(4,5) burst(1) [of 12 p s] show ?thesis using h by simp
  next
    case 3
    have "read_u32_le (drop 16 ?q) \<noteq> read_u32_le (drop 16 (p @ bs @ s))"
      using 3 assms(3,5) len by (intro read_u32_le_differs) auto
    moreover have "drop 20 (p @ bs @ s) = payload f"
      using fields(8) f(1) length_frame_bytes [of f] by simp
    ultimately show ?thesis using 3 fields(7) burst(2) [of p 20 s] b by simp
  next
    case 4
    have "drop 20 (p @ bs @ s) = payload f" using fields(8) f(1) length_frame_bytes [of f] by simp
    moreover have "crc32_text (drop 20 ?q) \<noteq> crc32_text (drop 20 (p @ bs @ s))"
      using 4 assms(3-5) crc32_text_burst [of bs bs' "drop 20 p" s] by simp
    moreover have "read_u32_le (drop 16 ?q) = read_u32_le (drop 16 (p @ bs @ s))"
      using 4 read_u32_le_prefix [of 16 p] by simp
    ultimately show ?thesis using 4 fields(7) b by simp
  qed
  moreover have "size_add 0 (length ?q) = Some (length ?q)" "?q \<noteq> []" "\<not> length ?q > max_buffered_bytes limits"
    using len assms(3,7) by (auto simp: size_add_def)
  ultimately show ?thesis by (auto simp: decoder_feed_def)
qed

section \<open>Concrete streams\<close>

definition ex_limits :: FrameLimits where
  "ex_limits = \<lparr>max_payload_bytes = 16, max_buffered_bytes = 256\<rparr>"

definition ex_frames :: "Frame list" where
  "ex_frames = [\<lparr>payload = ''ping'', flags = 0\<rparr>, \<lparr>payload = [], flags = 1\<rparr>]"

definition ex_encoded :: "string list" where
  "ex_encoded = map frame_bytes ex_frames"

theorem frame_stream_round_trip_witness:
  "\<exists>d. feed_all [take 7 (concat ex_encoded), take 20 (drop 7 (concat ex_encoded)), drop 27 (concat ex_encoded)]
      \<lparr>dec_buffer = [], dec_limits = ex_limits\<rparr> [] = (d, ex_frames, Ok) \<and> decoder_finish d = Ok"
proof -
  have "map_result (\<lambda>f. encode_frame (payload f) (flags f) ex_limits) ex_frames = Inr ex_encoded"
    by (simp add: ex_frames_def ex_encoded_def encode_frame_bytes ex_limits_def)
  then show ?thesis
    by (rule frame_stream_round_trip)
      (simp_all add: ex_frames_def ex_encoded_def chunk_fits_def limits_ok_def ex_limits_def kFrameHeaderBytes_def
        length_frame_bytes drop_drop [symmetric] del: drop_drop)
qed

theorem damaged_frame_refused_witness:
  "\<exists>e \<in> {ProtocolViolation, IntegrityFailure}.
     decoder_feed (take 20 (frame_bytes (hd ex_frames)) @ ''pong'')
       \<lparr>dec_buffer = [], dec_limits = ex_limits\<rparr> [] = (\<lparr>dec_buffer = [], dec_limits = ex_limits\<rparr>, [], e)"
proof -
  have d: "drop 20 (frame_bytes (hd ex_frames)) = ''ping''" by (simp add: ex_frames_def frame_bytes_def)
  have "take 20 (frame_bytes (hd ex_frames)) @ ''ping'' @ [] = frame_bytes (hd ex_frames)"
    using append_take_drop_id [of 20 "frame_bytes (hd ex_frames)"] unfolding d by simp
  then have "encode_frame (payload (hd ex_frames)) (flags (hd ex_frames)) ex_limits =
      Inr (take 20 (frame_bytes (hd ex_frames)) @ ''ping'' @ [])"
    unfolding encode_frame_bytes by (simp add: ex_frames_def ex_limits_def)
  from damaged_frame_refused [OF this, of "''pong''"] show ?thesis
    by (simp add: ex_frames_def ex_limits_def within_field_def limits_ok_def kFrameHeaderBytes_def length_frame_bytes)
qed

end
