(* ===== verification/Json_Text.thy ===== *)
theory Json_Text
  imports Json_Model Text_Codec
begin

text \<open>
  The canonical text of a JSON value: the writer half of \<^verbatim>\<open>src/json.cpp\<close>. The shortest decimal
  form of a finite double (\<^verbatim>\<open>std::to_chars(double)\<close>) is the parameter \<open>dtoa\<close> of the definitions,
  applied to the 64-bit pattern of the double.
\<close>

definition escape_char :: "char \<Rightarrow> string" where
  "escape_char raw =
     (let c = of_char raw :: nat in
      if c = 0x22 then [CHR 0x5C, CHR 0x22]
      else if c = 0x5C then [CHR 0x5C, CHR 0x5C]
      else if c = 0x08 then [CHR 0x5C, CHR ''b'']
      else if c = 0x0C then [CHR 0x5C, CHR ''f'']
      else if c = 0x0A then [CHR 0x5C, CHR ''n'']
      else if c = 0x0D then [CHR 0x5C, CHR ''r'']
      else if c = 0x09 then [CHR 0x5C, CHR ''t'']
      else if c < 0x20 then [CHR 0x5C, CHR ''u'', CHR ''0'', CHR ''0'', kHexDigits ! (c div 16), kHexDigits ! (c mod 16)]
      else [raw])"

definition append_escaped :: "string \<Rightarrow> string" where
  "append_escaped text = [CHR 0x22] @ concat (map escape_char text) @ [CHR 0x22]"

definition is_finite_double :: "u64 \<Rightarrow> bool" where
  "is_finite_double w = (drop_bit 52 w AND 0x7FF \<noteq> 0x7FF)"

definition append_double :: "(u64 \<Rightarrow> string) \<Rightarrow> u64 \<Rightarrow> string" where
  "append_double dtoa w =
     (if \<not> is_finite_double w then ''null''
      else dtoa w @ (if list_ex (\<lambda>c. c \<in> {CHR ''.'', CHR ''e'', CHR ''E''}) (dtoa w) then [] else ''.0''))"

definition append_u64 :: "u64 \<Rightarrow> string" where
  "append_u64 w = nat_to_string (unat w)"

definition append_i64 :: "u64 \<Rightarrow> string" where
  "append_i64 w =
     (if sint w < 0 then CHR ''-'' # nat_to_string (nat (- sint w)) else nat_to_string (nat (sint w)))"

definition pad :: "bool \<Rightarrow> nat \<Rightarrow> string" where
  "pad pretty indent = (if pretty then replicate (indent * 2) (CHR '' '') else [])"

definition newline_pad :: "bool \<Rightarrow> nat \<Rightarrow> string" where
  "newline_pad pretty indent = (if pretty then CHR 0x0A # pad pretty indent else [])"

fun join_comma :: "string list \<Rightarrow> string" where
  "join_comma [] = []"
| "join_comma [x] = x"
| "join_comma (x # xs) = x @ '','' @ join_comma xs"

fun dump_value :: "(u64 \<Rightarrow> string) \<Rightarrow> bool \<Rightarrow> nat \<Rightarrow> json \<Rightarrow> string" where
  "dump_value dtoa pretty indent JNull = ''null''"
| "dump_value dtoa pretty indent (JBool b) = (if b then ''true'' else ''false'')"
| "dump_value dtoa pretty indent (JInt w) = append_i64 w"
| "dump_value dtoa pretty indent (JUInt w) = append_u64 w"
| "dump_value dtoa pretty indent (JDouble w) = append_double dtoa w"
| "dump_value dtoa pretty indent (JString t) = append_escaped t"
| "dump_value dtoa pretty indent (JArray xs) =
     (if xs = [] then ''[]''
      else ''['' @ join_comma (map (\<lambda>x. newline_pad pretty (indent + 1) @ dump_value dtoa pretty (indent + 1) x) xs) @
             newline_pad pretty indent @ '']'')"
| "dump_value dtoa pretty indent (JObject m) =
     (if m = [] then ''{}''
      else ''{'' @ join_comma (map (\<lambda>(k, v). newline_pad pretty (indent + 1) @ append_escaped k @ '':'' @
               (if pretty then '' '' else []) @ dump_value dtoa pretty (indent + 1) v) m) @
             newline_pad pretty indent @ ''}'')"

definition dump :: "(u64 \<Rightarrow> string) \<Rightarrow> json \<Rightarrow> string" where
  "dump dtoa j = dump_value dtoa False 0 j"

definition dump_pretty :: "(u64 \<Rightarrow> string) \<Rightarrow> json \<Rightarrow> string" where
  "dump_pretty dtoa j = dump_value dtoa True 0 j"

end
