(* ===== verification/Versions.thy ===== *)
theory Versions
  imports Text_Codec
begin

text \<open>
  Software, protocol and schema versions: \<^verbatim>\<open>include/fabric/evolution/versions.hpp\<close> and
  \<^verbatim>\<open>src/versions.cpp\<close>.
\<close>

datatype SoftwareVersion =
  SoftwareVersion (sv_major: u16) (sv_minor: u16) (sv_patch: u16) (sv_build: string)

datatype ProtocolVersion = ProtocolVersion (pv_major: u16) (pv_minor: u16)

type_synonym SchemaVersion = u32

definition is_build_char :: "char \<Rightarrow> bool" where
  "is_build_char ch =
     (let c = (of_char ch :: nat) in
      (97 \<le> c \<and> c \<le> 122) \<or> (65 \<le> c \<and> c \<le> 90) \<or> (48 \<le> c \<and> c \<le> 57) \<or>
      ch = CHR ''.'' \<or> ch = CHR ''-'' \<or> ch = CHR ''_'')"

definition parse_component :: "string \<Rightarrow> u16 option" where
  "parse_component text =
     (if text = [] \<or> length text > 5 then None
      else case from_chars_all (2 ^ 32 - 1) text of
             None \<Rightarrow> None
           | Some value \<Rightarrow> if value > 65535 then None else Some (of_nat value))"

definition sv_is_valid :: "SoftwareVersion \<Rightarrow> bool" where
  "sv_is_valid v = (sv_major v \<noteq> 0 \<or> sv_minor v \<noteq> 0 \<or> sv_patch v \<noteq> 0 \<or> sv_build v \<noteq> [])"

definition software_version_parse :: "string \<Rightarrow> SoftwareVersion option" where
  "software_version_parse text =
     (if length text > 96 then None
      else
        let numeric = takeWhile (\<lambda>c. c \<noteq> CHR ''+'') text;
            tail = dropWhile (\<lambda>c. c \<noteq> CHR ''+'') text;
            build = (case tail of [] \<Rightarrow> [] | _ # b \<Rightarrow> b)
        in if tail \<noteq> [] \<and> (build = [] \<or> \<not> list_all is_build_char build) then None
           else case split numeric (CHR ''.'') of
                  [a, b, c] \<Rightarrow>
                    (case (parse_component a, parse_component b, parse_component c) of
                       (Some x, Some y, Some z) \<Rightarrow> Some (SoftwareVersion x y z build)
                     | _ \<Rightarrow> None)
                | _ \<Rightarrow> None)"

definition software_version_to_string :: "SoftwareVersion \<Rightarrow> string" where
  "software_version_to_string v =
     nat_to_string (unat (sv_major v)) @ ''.'' @ nat_to_string (unat (sv_minor v)) @ ''.'' @
     nat_to_string (unat (sv_patch v)) @ (if sv_build v \<noteq> [] then ''+'' @ sv_build v else [])"

definition same_release :: "SoftwareVersion \<Rightarrow> SoftwareVersion \<Rightarrow> bool" where
  "same_release v w = (sv_major v = sv_major w \<and> sv_minor v = sv_minor w \<and> sv_patch v = sv_patch w)"

text \<open>The three-way comparison \<^verbatim>\<open>operator<=>\<close> of software versions.\<close>

datatype ordering = Less | Equal | Greater

definition compare3 :: "'a::linorder \<Rightarrow> 'a \<Rightarrow> ordering" where
  "compare3 a b = (if a < b then Less else if a = b then Equal else Greater)"

definition software_version_compare :: "SoftwareVersion \<Rightarrow> SoftwareVersion \<Rightarrow> ordering" where
  "software_version_compare lhs rhs =
     (case compare3 (sv_major lhs) (sv_major rhs) of
        Equal \<Rightarrow>
          (case compare3 (sv_minor lhs) (sv_minor rhs) of
             Equal \<Rightarrow>
               (case compare3 (sv_patch lhs) (sv_patch rhs) of
                  Equal \<Rightarrow> compare3 (sv_build lhs) (sv_build rhs)
                | cmp \<Rightarrow> cmp)
           | cmp \<Rightarrow> cmp)
      | cmp \<Rightarrow> cmp)"

instantiation SoftwareVersion :: linorder
begin

definition less_SoftwareVersion :: "SoftwareVersion \<Rightarrow> SoftwareVersion \<Rightarrow> bool" where
  "less_SoftwareVersion v w = (software_version_compare v w = Less)"

definition less_eq_SoftwareVersion :: "SoftwareVersion \<Rightarrow> SoftwareVersion \<Rightarrow> bool" where
  "less_eq_SoftwareVersion v w = (software_version_compare v w \<noteq> Greater)"

instance
proof
  fix x y z :: SoftwareVersion
  note defs = less_SoftwareVersion_def less_eq_SoftwareVersion_def software_version_compare_def compare3_def
  show "(x < y) = (x \<le> y \<and> \<not> y \<le> x)" by (auto simp: defs)
  show "x \<le> x" by (simp add: defs)
  show "x \<le> y \<Longrightarrow> y \<le> z \<Longrightarrow> x \<le> z"
    by (auto simp: defs split: if_splits intro: less_trans)
  show "x \<le> y \<Longrightarrow> y \<le> x \<Longrightarrow> x = y"
    by (cases x; cases y) (auto simp: defs split: if_splits)
  show "x \<le> y \<or> y \<le> x" by (auto simp: defs)
qed

end

definition pv_is_valid :: "ProtocolVersion \<Rightarrow> bool" where
  "pv_is_valid v = (pv_major v \<noteq> 0)"

definition compatible_with :: "ProtocolVersion \<Rightarrow> ProtocolVersion \<Rightarrow> bool" where
  "compatible_with v w = (pv_major v = pv_major w)"

definition protocol_version_parse :: "string \<Rightarrow> ProtocolVersion option" where
  "protocol_version_parse text =
     (if length text > 32 then None
      else case split text (CHR ''.'') of
             [a, b] \<Rightarrow>
               (case (parse_component a, parse_component b) of
                  (Some x, Some y) \<Rightarrow> Some (ProtocolVersion x y)
                | _ \<Rightarrow> None)
           | _ \<Rightarrow> None)"

definition negotiate :: "ProtocolVersion \<Rightarrow> ProtocolVersion \<Rightarrow> ProtocolVersion" where
  "negotiate v w = ProtocolVersion (pv_major v) (min (pv_minor v) (pv_minor w))"

definition protocol_version_to_string :: "ProtocolVersion \<Rightarrow> string" where
  "protocol_version_to_string v = nat_to_string (unat (pv_major v)) @ ''.'' @ nat_to_string (unat (pv_minor v))"

section \<open>Lemmas\<close>

lemma u16_bound: "unat (w :: u16) \<le> 65535"
proof -
  have "unat w < 2 ^ LENGTH(16)" by (rule unsigned_less)
  then show ?thesis by simp
qed

lemma length_u16_text: "length (nat_to_string (unat (w :: u16))) \<le> 5"
  using u16_bound [of w] by (intro length_nat_to_string) simp_all

lemma parse_component_round_trip: "parse_component (nat_to_string (unat (w :: u16))) = Some w"
  using u16_bound [of w] length_u16_text [of w]
  by (simp add: parse_component_def from_chars_all_nat_to_string)

lemma dot_plus_not_digit [simp]: "\<not> is_digit (CHR ''.'')" "\<not> is_digit (CHR ''+'')"
  by (simp_all add: is_digit_def)

lemma protocol_version_round_trip: "protocol_version_parse (protocol_version_to_string v) = Some v"
proof -
  have "split (protocol_version_to_string v) (CHR ''.'') =
      [nat_to_string (unat (pv_major v)), nat_to_string (unat (pv_minor v))]"
    by (simp add: protocol_version_to_string_def split_part split_no_separator digits_not_separator)
  moreover have "length (protocol_version_to_string v) \<le> 32"
    using length_u16_text [of "pv_major v"] length_u16_text [of "pv_minor v"]
    by (simp add: protocol_version_to_string_def)
  ultimately show ?thesis
    by (simp add: protocol_version_parse_def parse_component_round_trip)
qed

lemma takeWhile_plus:
  "CHR ''+'' \<notin> set s \<Longrightarrow> takeWhile (\<lambda>c. c \<noteq> CHR ''+'') (s @ (if b \<noteq> [] then CHR ''+'' # b else [])) = s"
  by (induction s) auto

lemma dropWhile_plus:
  "CHR ''+'' \<notin> set s \<Longrightarrow> dropWhile (\<lambda>c. c \<noteq> CHR ''+'') (s @ (if b \<noteq> [] then CHR ''+'' # b else [])) =
     (if b \<noteq> [] then CHR ''+'' # b else [])"
  by (induction s) auto

lemma software_version_round_trip:
  assumes "list_all is_build_char (sv_build v)" "length (sv_build v) \<le> 78"
  shows "software_version_parse (software_version_to_string v) = Some v"
proof -
  let ?n = "nat_to_string (unat (sv_major v)) @ ''.'' @ nat_to_string (unat (sv_minor v)) @ ''.'' @
            nat_to_string (unat (sv_patch v))"
  have t: "software_version_to_string v = ?n @ (if sv_build v \<noteq> [] then CHR ''+'' # sv_build v else [])"
    by (simp add: software_version_to_string_def)
  have np: "CHR ''+'' \<notin> set ?n" by (simp add: digits_not_separator)
  have s: "split ?n (CHR ''.'') = [nat_to_string (unat (sv_major v)), nat_to_string (unat (sv_minor v)),
      nat_to_string (unat (sv_patch v))]"
    by (simp add: split_part split_no_separator digits_not_separator)
  have l: "length (software_version_to_string v) \<le> 96"
    using length_u16_text [of "sv_major v"] length_u16_text [of "sv_minor v"]
      length_u16_text [of "sv_patch v"] assms(2) unfolding t by simp
  have tw: "takeWhile (\<lambda>c. c \<noteq> CHR ''+'') (software_version_to_string v) = ?n"
    unfolding t using np by (rule takeWhile_plus)
  have dw: "dropWhile (\<lambda>c. c \<noteq> CHR ''+'') (software_version_to_string v) =
      (if sv_build v \<noteq> [] then CHR ''+'' # sv_build v else [])"
    unfolding t using np by (rule dropWhile_plus)
  show ?thesis
    unfolding software_version_parse_def Let_def tw dw s
    using l assms(1) by (cases v) (simp add: parse_component_round_trip)
qed

lemma software_version_compare_Equal: "(software_version_compare v w = Equal) = (v = w)"
  by (cases v; cases w) (auto simp: software_version_compare_def compare3_def)

lemma negotiate_commute: "compatible_with v w \<Longrightarrow> negotiate v w = negotiate w v"
  by (simp add: negotiate_def compatible_with_def min.commute)

lemma negotiate_lower: "pv_minor (negotiate v w) \<le> pv_minor v \<and> pv_minor (negotiate v w) \<le> pv_minor w"
  by (simp add: negotiate_def)

end
