(* ===== verification/Migration.thy ===== *)
theory Migration
  imports Json_Text Ids Versions Digest
begin

text \<open>
  Versioned state and deterministic state migration: \<^verbatim>\<open>include/fabric/evolution/migration.hpp\<close>,
  \<^verbatim>\<open>src/migration.cpp\<close> and the step declaration of \<^verbatim>\<open>manifest.hpp\<close>. The document is a record
  with its sorted field map; the migrators return the document together with the result, as the C++
  functions update their reference argument. \<open>args.at(name)\<close> in the reverse migration throws
  \<^verbatim>\<open>std::out_of_range\<close> on a missing argument, so its result type has an outcome for the exception.
  \<open>dtoa\<close> is the formatting of doubles that the canonical JSON text relies on.
\<close>

section \<open>State documents\<close>

definition kMaxStateKeyBytes :: nat where
  "kMaxStateKeyBytes = 256"

definition kMaxStateValueBytes :: nat where
  "kMaxStateValueBytes = 64 * 1024"

definition kMaxStateFields :: nat where
  "kMaxStateFields = 100000"

definition kMaxMigrationArgumentBytes :: nat where
  "kMaxMigrationArgumentBytes = 4096"

record StateDocument =
  doc_schema :: SchemaVersion
  doc_fields :: "(string, string) omap"

definition set_schema :: "SchemaVersion \<Rightarrow> StateDocument \<Rightarrow> StateDocument \<times> Status" where
  "set_schema s d = (if \<not> tagged_is_valid s then (d, InvalidArgument) else (d\<lparr>doc_schema := s\<rparr>, Ok))"

definition doc_put :: "string \<Rightarrow> string \<Rightarrow> StateDocument \<Rightarrow> StateDocument \<times> Status" where
  "doc_put key val d =
     (if key = [] \<or> length key > kMaxStateKeyBytes then (d, BoundsExceeded)
      else if length val > kMaxStateValueBytes then (d, BoundsExceeded)
      else if omap_find key (doc_fields d) = None \<and> length (doc_fields d) \<ge> kMaxStateFields then (d, ResourceExhausted)
      else (d\<lparr>doc_fields := omap_set key val (doc_fields d)\<rparr>, Ok))"

definition doc_remove :: "string \<Rightarrow> StateDocument \<Rightarrow> StateDocument \<times> Status" where
  "doc_remove key d =
     (case omap_find key (doc_fields d) of
        None \<Rightarrow> (d, NotFound)
      | Some _ \<Rightarrow> (d\<lparr>doc_fields := omap_erase key (doc_fields d)\<rparr>, Ok))"

definition doc_get :: "string \<Rightarrow> StateDocument \<Rightarrow> string option" where
  "doc_get key d = omap_find key (doc_fields d)"

definition doc_contains :: "string \<Rightarrow> StateDocument \<Rightarrow> bool" where
  "doc_contains key d = (omap_find key (doc_fields d) \<noteq> None)"

definition doc_to_json :: "StateDocument \<Rightarrow> json" where
  "doc_to_json d =
     json_set (json_set (JObject [])
       ''schema'' (JUInt (ucast (doc_schema d))))
       ''fields'' (foldl (\<lambda>j (k, v). json_set j k (JString v)) (JObject []) (doc_fields d))"

definition doc_digest :: "(u64 \<Rightarrow> string) \<Rightarrow> StateDocument \<Rightarrow> Digest" where
  "doc_digest dtoa d = text_digest (dump dtoa (doc_to_json d))"

fun put_fields :: "(string \<times> json) list \<Rightarrow> StateDocument \<Rightarrow> StateDocument Result" where
  "put_fields [] d = Inr d"
| "put_fields ((k, v) # es) d =
     rbind (require (try_string v) Malformed) (\<lambda>t.
       case doc_put k t d of (d', s) \<Rightarrow> if s \<noteq> Ok then Inl s else put_fields es d')"

definition doc_from_json :: "json \<Rightarrow> StateDocument Result" where
  "doc_from_json j =
     rbind (guard (is_object j) Malformed) (\<lambda>_.
     rbind (require (positive (json_u64 j ''schema'')) Malformed) (\<lambda>s.
     rbind (guard (s \<le> 0xFFFFFFFF) Malformed) (\<lambda>_.
     rbind (require (json_find j ''fields'') Malformed) (\<lambda>f.
     rbind (require (try_object f) Malformed) (\<lambda>obj.
     if length obj > kMaxStateFields then Inl BoundsExceeded
     else put_fields obj \<lparr>doc_schema = ucast s, doc_fields = []\<rparr>)))))"

section \<open>Migration steps\<close>

record MigrationStepSpec =
  ms_id :: MigrationStepId
  ms_from :: SchemaVersion
  ms_to :: SchemaVersion
  ms_function :: string
  ms_parameters :: json
  ms_deterministic :: bool
  ms_reversible :: bool
  ms_irreversible_boundary :: bool
  ms_evidence_digest :: Digest
  ms_description :: string

datatype MigrationOpKind =
    Identity | AddField | RenameField | RemoveField | WrapValue | UnwrapValue | LowercaseField

fun op_kind_name :: "MigrationOpKind \<Rightarrow> string" where
  "op_kind_name Identity = ''identity''"
| "op_kind_name AddField = ''add_field''"
| "op_kind_name RenameField = ''rename_field''"
| "op_kind_name RemoveField = ''remove_field''"
| "op_kind_name WrapValue = ''wrap_value''"
| "op_kind_name UnwrapValue = ''unwrap_value''"
| "op_kind_name LowercaseField = ''lowercase_field''"

type_synonym migration_args = "(string, string) omap"

record ResolvedMigration =
  rm_spec :: MigrationStepSpec
  rm_kind :: MigrationOpKind
  rm_args :: migration_args

definition require_arg :: "migration_args \<Rightarrow> string \<Rightarrow> string Result" where
  "require_arg args name =
     (case omap_find name args of
        None \<Rightarrow> Inl Unsupported
      | Some v \<Rightarrow> if v = [] then Inl Unsupported else Inr v)"

definition argument_is_true :: "migration_args \<Rightarrow> string \<Rightarrow> bool" where
  "argument_is_true args name =
     (case omap_find name args of None \<Rightarrow> False | Some v \<Rightarrow> v = ''true'' \<or> v = ''1'')"

definition field_is_optional :: "ResolvedMigration \<Rightarrow> bool" where
  "field_is_optional r = argument_is_true (rm_args r) ''optional''"

fun read_args_loop :: "(string \<times> json) list \<Rightarrow> migration_args \<Rightarrow> migration_args Result" where
  "read_args_loop [] args = Inr args"
| "read_args_loop ((k, v) # es) args =
     (case try_string v of
        None \<Rightarrow> Inl Unsupported
      | Some t \<Rightarrow>
          if length k > kMaxStateKeyBytes \<or> length t > kMaxMigrationArgumentBytes then Inl BoundsExceeded
          else read_args_loop es (omap_set k t args))"

definition read_args :: "MigrationStepSpec \<Rightarrow> migration_args Result" where
  "read_args spec =
     (case try_object (ms_parameters spec) of
        None \<Rightarrow> if is_null (ms_parameters spec) then Inr [] else Inl Unsupported
      | Some obj \<Rightarrow> read_args_loop obj [])"

definition op_kind_of :: "string \<Rightarrow> MigrationOpKind option" where
  "op_kind_of fn =
     (if fn = ''identity'' then Some Identity
      else if fn = ''add_field'' then Some AddField
      else if fn = ''rename_field'' then Some RenameField
      else if fn = ''remove_field'' then Some RemoveField
      else if fn = ''wrap_value'' then Some WrapValue
      else if fn = ''unwrap_value'' then Some UnwrapValue
      else if fn = ''lowercase_field'' then Some LowercaseField
      else None)"

definition resolve_migration_step :: "MigrationStepSpec \<Rightarrow> ResolvedMigration Result" where
  "resolve_migration_step spec =
     rbind (read_args spec) (\<lambda>args.
     rbind (require (op_kind_of (ms_function spec)) Unsupported) (\<lambda>kind.
     rbind (guard (ms_deterministic spec) Unsupported) (\<lambda>_.
     Inr \<lparr>rm_spec = spec, rm_kind = kind, rm_args = args\<rparr>)))"

definition lower_char :: "char \<Rightarrow> char" where
  "lower_char ch =
     (let c = of_char ch :: nat in if 65 \<le> c \<and> c \<le> 90 then char_of (c - 65 + 97) else ch)"

text \<open>An operation that needs arguments answers the first missing one; the document is untouched.\<close>

definition with_args :: "'a Result \<Rightarrow> ('a \<Rightarrow> StateDocument \<times> Status) \<Rightarrow> StateDocument \<Rightarrow> StateDocument \<times> Status" where
  "with_args r f d = (case r of Inl e \<Rightarrow> (d, e) | Inr x \<Rightarrow> f x)"

definition wrap_args :: "migration_args \<Rightarrow> (string \<times> string \<times> string) Result" where
  "wrap_args args =
     rbind (require_arg args ''key'') (\<lambda>k.
     rbind (require_arg args ''prefix'') (\<lambda>p.
     rbind (require_arg args ''suffix'') (\<lambda>s. Inr (k, p, s))))"

definition unwrap_text :: "string \<Rightarrow> string \<Rightarrow> string \<Rightarrow> string option" where
  "unwrap_text p s text =
     (if length text < length p + length s \<or> take (length p) text \<noteq> p \<or> drop (length text - length s) text \<noteq> s
      then None else Some (take (length text - length p - length s) (drop (length p) text)))"

fun apply_kind :: "MigrationOpKind \<Rightarrow> ResolvedMigration \<Rightarrow> StateDocument \<Rightarrow> StateDocument \<times> Status" where
  "apply_kind Identity r d = (d, Ok)"
| "apply_kind AddField r d =
     with_args (rbind (require_arg (rm_args r) ''key'') (\<lambda>k. rbind (require_arg (rm_args r) ''value'') (\<lambda>v. Inr (k, v))))
       (\<lambda>(k, v). doc_put k v d) d"
| "apply_kind RenameField r d =
     with_args (rbind (require_arg (rm_args r) ''from'') (\<lambda>f. rbind (require_arg (rm_args r) ''to'') (\<lambda>t. Inr (f, t))))
       (\<lambda>(f, t).
          case doc_get f d of
            None \<Rightarrow> (d, if field_is_optional r then Ok else MigrationFailure)
          | Some v \<Rightarrow>
              if doc_contains t d then (d, MigrationFailure)
              else (case doc_put t v d of (d', s) \<Rightarrow> if s \<noteq> Ok then (d', s) else doc_remove f d')) d"
| "apply_kind RemoveField r d =
     with_args (require_arg (rm_args r) ''key'')
       (\<lambda>k. if \<not> doc_contains k d then (d, if field_is_optional r then Ok else MigrationFailure)
            else doc_remove k d) d"
| "apply_kind WrapValue r d =
     with_args (wrap_args (rm_args r))
       (\<lambda>(k, p, s).
          case doc_get k d of
            None \<Rightarrow> (d, if field_is_optional r then Ok else MigrationFailure)
          | Some v \<Rightarrow> doc_put k (p @ v @ s) d) d"
| "apply_kind UnwrapValue r d =
     with_args (wrap_args (rm_args r))
       (\<lambda>(k, p, s).
          case doc_get k d of
            None \<Rightarrow> (d, MigrationFailure)
          | Some text \<Rightarrow>
              (case unwrap_text p s text of
                 None \<Rightarrow> (d, MigrationFailure)
               | Some u \<Rightarrow> doc_put k u d)) d"
| "apply_kind LowercaseField r d =
     with_args (require_arg (rm_args r) ''key'')
       (\<lambda>k. case doc_get k d of
              None \<Rightarrow> (d, MigrationFailure)
            | Some v \<Rightarrow> doc_put k (map lower_char v) d) d"

definition apply_forward :: "ResolvedMigration \<Rightarrow> StateDocument \<Rightarrow> StateDocument \<times> Status" where
  "apply_forward r d = apply_kind (rm_kind r) r d"

section \<open>Migrating a document\<close>

definition step_to_json :: "MigrationStepSpec \<Rightarrow> json" where
  "step_to_json s =
     json_set (json_set (json_set (json_set (json_set (json_set (json_set (json_set (json_set (json_set (JObject [])
       ''id'' (JString (ms_id s)))
       ''from'' (JUInt (ucast (ms_from s))))
       ''to'' (JUInt (ucast (ms_to s))))
       ''function'' (JString (ms_function s)))
       ''parameters'' (ms_parameters s))
       ''deterministic'' (JBool (ms_deterministic s)))
       ''reversible'' (JBool (ms_reversible s)))
       ''irreversible_boundary'' (JBool (ms_irreversible_boundary s)))
       ''evidence_digest'' (JString (to_hex (ms_evidence_digest s))))
       ''description'' (JString (ms_description s))"

definition migration_evidence_digest :: "(u64 \<Rightarrow> string) \<Rightarrow> MigrationStepSpec \<Rightarrow> Digest \<Rightarrow> Digest" where
  "migration_evidence_digest dtoa spec before =
     text_digest (dump dtoa
       (json_set (json_set (JObject [])
         ''step'' (step_to_json (spec\<lparr>ms_evidence_digest := digest_zero\<rparr>)))
         ''state_digest_before'' (JString (to_hex before))))"

record MigrationStepRecord =
  sr_step :: MigrationStepId
  sr_from :: SchemaVersion
  sr_to :: SchemaVersion
  sr_digest_before :: Digest
  sr_digest_after :: Digest
  sr_evidence_digest :: Digest
  sr_irreversible_boundary :: bool

record MigrationOutcome =
  mo_from :: SchemaVersion
  mo_to :: SchemaVersion
  mo_steps :: "MigrationStepRecord list"
  mo_digest_before :: Digest
  mo_digest_after :: Digest
  mo_crossed :: bool
  mo_boundaries :: "MigrationStepId list"

text \<open>The body of the forward loop: one declared step on the working copy.\<close>

definition forward_step :: "(u64 \<Rightarrow> string) \<Rightarrow> MigrationStepSpec \<Rightarrow> StateDocument \<Rightarrow> (StateDocument \<times> MigrationStepRecord) Result" where
  "forward_step dtoa spec working =
     rbind (resolve_migration_step spec) (\<lambda>resolved.
     let before = doc_digest dtoa working in
     rbind (guard (digest_is_zero (ms_evidence_digest spec) \<or>
                   migration_evidence_digest dtoa spec before = ms_evidence_digest spec) IntegrityFailure) (\<lambda>_.
     case apply_forward resolved working of
       (w1, s1) \<Rightarrow>
         if s1 \<noteq> Ok then Inl s1
         else (case set_schema (ms_to spec) w1 of
                 (w2, s2) \<Rightarrow>
                   if s2 \<noteq> Ok then Inl s2
                   else Inr (w2, \<lparr>sr_step = ms_id spec, sr_from = ms_from spec, sr_to = ms_to spec,
                                  sr_digest_before = before, sr_digest_after = doc_digest dtoa w2,
                                  sr_evidence_digest = ms_evidence_digest spec,
                                  sr_irreversible_boundary = ms_irreversible_boundary spec\<rparr>))))"

fun forward_loop ::
  "(u64 \<Rightarrow> string) \<Rightarrow> MigrationStepSpec list \<Rightarrow> StateDocument \<Rightarrow> SchemaVersion \<Rightarrow> MigrationOutcome \<Rightarrow>
     (StateDocument \<times> SchemaVersion \<times> MigrationOutcome) Result" where
  "forward_loop dtoa [] working current out = Inr (working, current, out)"
| "forward_loop dtoa (spec # path) working current out =
     (if ms_from spec \<noteq> current then Inl MigrationFailure
      else rbind (forward_step dtoa spec working) (\<lambda>(w, rec).
        forward_loop dtoa path w (ms_to spec)
          (let o1 = out\<lparr>mo_steps := mo_steps out @ [rec]\<rparr> in
           if ms_irreversible_boundary spec
           then o1\<lparr>mo_crossed := True, mo_boundaries := mo_boundaries o1 @ [ms_id spec]\<rparr> else o1)))"

definition empty_outcome :: "(u64 \<Rightarrow> string) \<Rightarrow> StateDocument \<Rightarrow> MigrationOutcome" where
  "empty_outcome dtoa d =
     \<lparr>mo_from = doc_schema d, mo_to = 0, mo_steps = [], mo_digest_before = doc_digest dtoa d,
      mo_digest_after = digest_zero, mo_crossed = False, mo_boundaries = []\<rparr>"

definition finish_outcome ::
  "(u64 \<Rightarrow> string) \<Rightarrow> StateDocument \<times> SchemaVersion \<times> MigrationOutcome \<Rightarrow> MigrationOutcome" where
  "finish_outcome dtoa x =
     (case x of (w, current, out) \<Rightarrow> out\<lparr>mo_to := current, mo_digest_after := doc_digest dtoa w\<rparr>)"

definition migrate_forward ::
  "(u64 \<Rightarrow> string) \<Rightarrow> MigrationStepSpec list \<Rightarrow> StateDocument \<Rightarrow> StateDocument \<times> MigrationOutcome Result" where
  "migrate_forward dtoa path d =
     (case forward_loop dtoa path d (doc_schema d) (empty_outcome dtoa d) of
        Inl e \<Rightarrow> (d, Inl e)
      | Inr x \<Rightarrow> (fst x, Inr (finish_outcome dtoa x)))"

text \<open>Reversal: a result, or the exception of \<^verbatim>\<open>std::map::at\<close>.\<close>

datatype 'a raising = Throws | Returns 'a

fun reverse_step :: "ResolvedMigration \<Rightarrow> ResolvedMigration Result raising" where
  "reverse_step r =
     (case rm_kind r of
        Identity \<Rightarrow> Returns (Inr r)
      | AddField \<Rightarrow>
          (case omap_find ''key'' (rm_args r) of
             None \<Rightarrow> Throws
           | Some k \<Rightarrow> Returns (Inr (r\<lparr>rm_kind := RemoveField, rm_args := [(''key'', k)]\<rparr>)))
      | RenameField \<Rightarrow>
          (case (omap_find ''to'' (rm_args r), omap_find ''from'' (rm_args r)) of
             (Some t, Some f) \<Rightarrow> Returns (Inr (r\<lparr>rm_args := omap_set ''to'' f (omap_set ''from'' t [])\<rparr>))
           | _ \<Rightarrow> Throws)
      | WrapValue \<Rightarrow> Returns (Inr (r\<lparr>rm_kind := UnwrapValue\<rparr>))
      | _ \<Rightarrow> Returns (Inl IrreversibleBoundary))"

declare reverse_step.simps [simp del]

definition backward_step ::
  "(u64 \<Rightarrow> string) \<Rightarrow> MigrationStepSpec \<Rightarrow> StateDocument \<Rightarrow> (StateDocument \<times> MigrationStepRecord) Result raising" where
  "backward_step dtoa spec working =
     (case resolve_migration_step spec of
        Inl e \<Rightarrow> Returns (Inl e)
      | Inr resolved \<Rightarrow>
          if ms_irreversible_boundary spec \<or> \<not> ms_reversible spec then Returns (Inl IrreversibleBoundary)
          else
            (case reverse_step resolved of
               Throws \<Rightarrow> Throws
             | Returns (Inl e) \<Rightarrow> Returns (Inl e)
             | Returns (Inr rvs) \<Rightarrow>
                 (case apply_forward rvs working of
                    (w1, s1) \<Rightarrow>
                      if s1 \<noteq> Ok then Returns (Inl s1)
                      else (case set_schema (ms_from spec) w1 of
                              (w2, s2) \<Rightarrow>
                                if s2 \<noteq> Ok then Returns (Inl s2)
                                else Returns (Inr (w2,
                                  \<lparr>sr_step = ms_id spec, sr_from = ms_to spec, sr_to = ms_from spec,
                                   sr_digest_before = doc_digest dtoa working, sr_digest_after = doc_digest dtoa w2,
                                   sr_evidence_digest = digest_zero, sr_irreversible_boundary = False\<rparr>))))))"

fun backward_loop ::
  "(u64 \<Rightarrow> string) \<Rightarrow> MigrationStepSpec list \<Rightarrow> StateDocument \<Rightarrow> SchemaVersion \<Rightarrow> MigrationOutcome \<Rightarrow>
     (StateDocument \<times> SchemaVersion \<times> MigrationOutcome) Result raising" where
  "backward_loop dtoa [] working current out = Returns (Inr (working, current, out))"
| "backward_loop dtoa (spec # path) working current out =
     (if ms_to spec \<noteq> current then Returns (Inl MigrationFailure)
      else
        (case backward_step dtoa spec working of
           Throws \<Rightarrow> Throws
         | Returns (Inl e) \<Rightarrow> Returns (Inl e)
         | Returns (Inr (w, rec)) \<Rightarrow>
             backward_loop dtoa path w (ms_from spec) (out\<lparr>mo_steps := mo_steps out @ [rec]\<rparr>)))"

definition migrate_backward ::
  "(u64 \<Rightarrow> string) \<Rightarrow> MigrationStepSpec list \<Rightarrow> StateDocument \<Rightarrow> (StateDocument \<times> MigrationOutcome Result) raising" where
  "migrate_backward dtoa path d =
     (case backward_loop dtoa (rev path) d (doc_schema d) (empty_outcome dtoa d) of
        Throws \<Rightarrow> Throws
      | Returns (Inl e) \<Rightarrow> Returns (d, Inl e)
      | Returns (Inr x) \<Rightarrow> Returns (fst x, Inr (finish_outcome dtoa x)))"

end
