(* ===== verification/Migration_Props.thy ===== *)
theory Migration_Props
  imports Migration
begin

text \<open>
  What the state migrator promises: it is atomic, its outcome is a gapless chain of digests bound to
  the declared evidence, a forward migration of reversible steps is undone exactly by the backward
  migration, and no backward migration crosses an irreversible boundary; and where it does not keep
  the promise that every reversible function has an exact inverse.
\<close>

section \<open>Well-formed documents\<close>

definition doc_wf :: "StateDocument \<Rightarrow> bool" where
  "doc_wf d =
     (omap_wf (doc_fields d) \<and> length (doc_fields d) \<le> kMaxStateFields \<and>
      list_all (\<lambda>(k, v). k \<noteq> [] \<and> length k \<le> kMaxStateKeyBytes \<and> length v \<le> kMaxStateValueBytes) (doc_fields d))"

lemma doc_put_wf: "doc_wf d \<Longrightarrow> doc_wf (fst (doc_put k v d))"
  using set_omap_set [of k v "doc_fields d"]
  by (fastforce simp: doc_put_def doc_wf_def length_omap_set list_all_iff)

lemma set_omap_erase: "set (omap_erase k m) \<subseteq> set m"
  by (induction k m rule: omap_erase.induct) auto

lemma length_omap_erase: "omap_find k m = Some v \<Longrightarrow> Suc (length (omap_erase k m)) = length m"
  by (induction k m rule: omap_erase.induct) (auto split: if_splits)

lemma length_omap_erase_le: "length (omap_erase k m) \<le> length m"
  by (induction k m rule: omap_erase.induct) auto

lemma doc_remove_wf: "doc_wf d \<Longrightarrow> doc_wf (fst (doc_remove k d))"
  using set_omap_erase [of k "doc_fields d"] length_omap_erase_le [of k "doc_fields d"]
  by (fastforce simp: doc_remove_def doc_wf_def list_all_iff split: option.splits)

lemma doc_put_Ok:
  "(doc_put k v d = (d', Ok)) =
     (k \<noteq> [] \<and> length k \<le> kMaxStateKeyBytes \<and> length v \<le> kMaxStateValueBytes \<and>
      (omap_find k (doc_fields d) = None \<longrightarrow> length (doc_fields d) < kMaxStateFields) \<and>
      d' = d\<lparr>doc_fields := omap_set k v (doc_fields d)\<rparr>)"
  by (auto simp: doc_put_def)

lemma doc_wf_field:
  assumes "doc_wf d" "omap_find k (doc_fields d) = Some v"
  shows "k \<noteq> []" "length k \<le> kMaxStateKeyBytes" "length v \<le> kMaxStateValueBytes"
  using assms by (auto simp: doc_wf_def list_all_iff omap_find_map_of dest!: map_of_SomeD)

lemma doc_wf_omap [simp]: "doc_wf d \<Longrightarrow> omap_wf (doc_fields d)"
  by (simp add: doc_wf_def)

lemma with_args_Ok: "(with_args r f d = (d', Ok)) = ((\<exists>x. r = Inr x \<and> f x = (d', Ok)) \<or> (r = Inl Ok \<and> d' = d))"
  by (cases r) (auto simp: with_args_def)

lemma require_arg_Inr [simp]: "(require_arg args n = Inr v) = (omap_find n args = Some v \<and> v \<noteq> [])"
  by (auto simp: require_arg_def split: option.splits)

lemma require_arg_never_ok [simp]: "require_arg args n \<noteq> Inl Ok"
  by (simp add: require_arg_def split: option.splits)

lemma wrap_args_Inr:
  "(wrap_args args = Inr (k, p, s)) =
     (omap_find ''key'' args = Some k \<and> omap_find ''prefix'' args = Some p \<and> omap_find ''suffix'' args = Some s \<and>
      k \<noteq> [] \<and> p \<noteq> [] \<and> s \<noteq> [])"
  by (auto simp: wrap_args_def)

lemma wrap_args_never_ok [simp]: "wrap_args args \<noteq> Inl Ok"
  by (auto simp: wrap_args_def rbind_eq_Inl)

lemma apply_kind_wf: "doc_wf d \<Longrightarrow> doc_wf (fst (apply_kind kind r d))"
  by (cases kind) (auto simp: with_args_def case_prod_beta doc_put_wf doc_remove_wf split: sum.splits option.splits)

section \<open>Exact inverses\<close>

text \<open>
  The steps that the reverse migration undoes exactly on a given document: reversible ones whose
  field is present (renaming, wrapping) or absent (adding).
\<close>

definition invertible :: "MigrationStepSpec \<Rightarrow> StateDocument \<Rightarrow> bool" where
  "invertible spec d =
     (ms_reversible spec \<and> \<not> ms_irreversible_boundary spec \<and>
      (case resolve_migration_step spec of
         Inl _ \<Rightarrow> False
       | Inr r \<Rightarrow>
           (case rm_kind r of
              Identity \<Rightarrow> True
            | AddField \<Rightarrow> (case omap_find ''key'' (rm_args r) of None \<Rightarrow> False | Some k \<Rightarrow> \<not> doc_contains k d)
            | RenameField \<Rightarrow> (case omap_find ''from'' (rm_args r) of None \<Rightarrow> False | Some k \<Rightarrow> doc_contains k d)
            | WrapValue \<Rightarrow> (case omap_find ''key'' (rm_args r) of None \<Rightarrow> False | Some k \<Rightarrow> doc_contains k d)
            | _ \<Rightarrow> False)))"

lemma unwrap_wrapped [simp]: "unwrap_text p s (p @ v @ s) = Some v"
  by (simp add: unwrap_text_def)

lemma add_inverse:
  assumes "doc_wf d" "rm_kind r = AddField" "omap_find ''key'' (rm_args r) = Some k" "\<not> doc_contains k d"
    and "apply_forward r d = (w, Ok)"
  shows "\<exists>q. reverse_step r = Returns (Inr q) \<and> apply_forward q w = (d, Ok)"
proof -
  from assms obtain v where v: "k \<noteq> []" "doc_put k v d = (w, Ok)"
    by (auto simp: apply_forward_def with_args_Ok rbind_eq_Inl)
  then have w: "w = d\<lparr>doc_fields := omap_set k v (doc_fields d)\<rparr>" by (simp add: doc_put_Ok)
  have "omap_erase k (omap_set k v (doc_fields d)) = doc_fields d"
    using assms(1,4) by (intro om.erase_store) (simp_all add: doc_contains_def)
  with assms(2,3) v(1) w show ?thesis
    by (simp add: apply_forward_def with_args_def require_arg_def doc_contains_def doc_remove_def reverse_step.simps)
qed

lemma rename_inverse:
  assumes "doc_wf d" "rm_kind r = RenameField" "omap_find ''from'' (rm_args r) = Some f" "doc_contains f d"
    and "apply_forward r d = (w, Ok)"
  shows "\<exists>q. reverse_step r = Returns (Inr q) \<and> apply_forward q w = (d, Ok)"
proof -
  from assms(4) obtain v where v: "omap_find f (doc_fields d) = Some v" by (auto simp: doc_contains_def)
  from assms v obtain t where t: "omap_find ''to'' (rm_args r) = Some t" "t \<noteq> []" "f \<noteq> []"
      "omap_find t (doc_fields d) = None" "length (doc_fields d) < kMaxStateFields" "length v \<le> kMaxStateValueBytes"
      "w = d\<lparr>doc_fields := omap_erase f (omap_set t v (doc_fields d))\<rparr>"
    by (auto simp: apply_forward_def with_args_Ok rbind_eq_Inl doc_get_def doc_contains_def doc_remove_def doc_put_Ok
        split: if_splits prod.splits option.splits)
  have wf: "omap_wf (doc_fields d)" using assms(1) by simp
  have ft: "f \<noteq> t" using v t(4) by auto
  have w: "omap_find t (doc_fields w) = Some v" "omap_find f (doc_fields w) = None"
    using t(7) wf ft by (simp_all add: omap_find_erase omap_wf_set)
  have len: "length (doc_fields w) = length (doc_fields d)"
    using length_omap_erase [of f "omap_set t v (doc_fields d)" v] length_omap_set [OF wf, of t v] t(4,7) v ft by simp
  have key: "length f \<le> kMaxStateKeyBytes" using doc_wf_field [OF assms(1) v] by simp
  have "omap_erase t (omap_set f v (doc_fields w)) = doc_fields d"
    using om.store_erase_rename [OF wf v t(4)] t(7) by simp
  moreover have "doc_put f v w = (w\<lparr>doc_fields := omap_set f v (doc_fields w)\<rparr>, Ok)"
    using t key len by (simp add: doc_put_Ok)
  moreover have "w\<lparr>doc_fields := doc_fields d\<rparr> = d" using t(7) by simp
  ultimately show ?thesis
    using assms(2,3) t(1-3) w ft
    by (simp add: apply_forward_def with_args_def require_arg_def doc_get_def doc_contains_def doc_remove_def
        reverse_step.simps)
qed

lemma wrap_inverse:
  assumes "doc_wf d" "rm_kind r = WrapValue" "omap_find ''key'' (rm_args r) = Some k" "doc_contains k d"
    and "apply_forward r d = (w, Ok)"
  shows "\<exists>q. reverse_step r = Returns (Inr q) \<and> apply_forward q w = (d, Ok)"
proof -
  from assms(4) obtain v where v: "omap_find k (doc_fields d) = Some v" by (auto simp: doc_contains_def)
  from assms v obtain p s where ps: "wrap_args (rm_args r) = Inr (k, p, s)" "doc_put k (p @ v @ s) d = (w, Ok)"
    by (auto simp: apply_forward_def with_args_Ok wrap_args_Inr doc_get_def split: option.splits)
  have wf: "omap_wf (doc_fields d)" using assms(1) by simp
  have w: "w = d\<lparr>doc_fields := omap_set k (p @ v @ s) (doc_fields d)\<rparr>" using ps(2) by (simp add: doc_put_Ok)
  have "omap_set k v (doc_fields w) = doc_fields d"
    using w wf v by (simp add: om.store_store_same om.store_same)
  moreover have "doc_put k v w = (w\<lparr>doc_fields := omap_set k v (doc_fields w)\<rparr>, Ok)"
    using doc_wf_field [OF assms(1) v] w by (simp add: doc_put_Ok)
  moreover have "w\<lparr>doc_fields := doc_fields d\<rparr> = d" using w by simp
  ultimately show ?thesis
    using assms(2) ps(1) w by (simp add: apply_forward_def with_args_def doc_get_def reverse_step.simps)
qed

lemma forward_step_Inr:
  assumes "forward_step dtoa spec d = Inr (w, rec)"
  obtains r w1 where "resolve_migration_step spec = Inr r" "apply_forward r d = (w1, Ok)" "ms_to spec \<noteq> 0"
    "w = w1\<lparr>doc_schema := ms_to spec\<rparr>" "sr_step rec = ms_id spec"
    "sr_digest_before rec = doc_digest dtoa d" "sr_digest_after rec = doc_digest dtoa w"
    "digest_is_zero (ms_evidence_digest spec) \<or>
       ms_evidence_digest spec = migration_evidence_digest dtoa spec (doc_digest dtoa d)"
proof -
  from assms obtain r where r: "resolve_migration_step spec = Inr r"
    by (cases "resolve_migration_step spec") (auto simp: forward_step_def)
  obtain w1 s1 where a: "apply_forward r d = (w1, s1)" by (cases "apply_forward r d")
  show ?thesis
    using assms r a
    by (intro that [of r w1]) (auto simp: forward_step_def Let_def set_schema_def tagged_is_valid_def split: if_splits)
qed

lemma apply_kind_schema: "doc_schema (fst (apply_kind kind r d)) = doc_schema d"
  by (cases kind) (auto simp: with_args_def case_prod_beta doc_put_def doc_remove_def split: sum.splits option.splits)

lemma apply_forward_keeps:
  assumes "apply_forward r d = (w, s)"
  shows "doc_schema w = doc_schema d" "doc_wf d \<Longrightarrow> doc_wf w"
  using assms apply_kind_schema [of "rm_kind r" r d] apply_kind_wf [of d "rm_kind r" r] by (simp_all add: apply_forward_def)

text \<open>No operation reads the schema version, so it commutes with setting it.\<close>

definition reschema :: "SchemaVersion \<Rightarrow> StateDocument \<times> Status \<Rightarrow> StateDocument \<times> Status" where
  "reschema c x = ((fst x)\<lparr>doc_schema := c\<rparr>, snd x)"

lemma reschema_ops [simp]:
  "doc_put k v (d\<lparr>doc_schema := c\<rparr>) = reschema c (doc_put k v d)"
  "doc_remove k (d\<lparr>doc_schema := c\<rparr>) = reschema c (doc_remove k d)"
  "doc_get k (d\<lparr>doc_schema := c\<rparr>) = doc_get k d"
  "doc_contains k (d\<lparr>doc_schema := c\<rparr>) = doc_contains k d"
  "reschema c (w, s) = (w\<lparr>doc_schema := c\<rparr>, s)"
  by (auto simp: reschema_def doc_put_def doc_remove_def doc_get_def doc_contains_def split: option.splits)

lemma with_args_reschema:
  "(\<And>x. f' x = reschema c (f x)) \<Longrightarrow> with_args r f' (d\<lparr>doc_schema := c\<rparr>) = reschema c (with_args r f d)"
  by (cases r) (simp_all add: with_args_def)

lemma apply_kind_reschema: "apply_kind kind r (d\<lparr>doc_schema := c\<rparr>) = reschema c (apply_kind kind r d)"
  by (cases kind) (auto simp: case_prod_beta reschema_def intro!: with_args_reschema [unfolded reschema_def] split: option.splits)

lemma invertible_reverse:
  assumes "doc_wf d" "invertible spec d" "resolve_migration_step spec = Inr r" "apply_forward r d = (w, Ok)"
  shows "\<exists>q. reverse_step r = Returns (Inr q) \<and> apply_forward q w = (d, Ok)"
proof (cases "rm_kind r")
  case Identity
  then show ?thesis using assms(4) by (simp add: apply_forward_def reverse_step.simps)
next
  case AddField
  with assms show ?thesis
    by (auto simp: invertible_def split: option.splits intro!: add_inverse [of d r])
next
  case RenameField
  with assms show ?thesis
    by (auto simp: invertible_def split: option.splits intro!: rename_inverse [of d r])
next
  case WrapValue
  with assms show ?thesis
    by (auto simp: invertible_def split: option.splits intro!: wrap_inverse [of d r])
qed (use assms in \<open>auto simp: invertible_def\<close>)

definition reversed_record :: "MigrationStepRecord \<Rightarrow> MigrationStepSpec \<Rightarrow> MigrationStepRecord" where
  "reversed_record rec spec =
     \<lparr>sr_step = ms_id spec, sr_from = ms_to spec, sr_to = ms_from spec, sr_digest_before = sr_digest_after rec,
      sr_digest_after = sr_digest_before rec, sr_evidence_digest = digest_zero, sr_irreversible_boundary = False\<rparr>"

lemma backward_undoes_step:
  assumes "doc_wf d" "invertible spec d" "doc_schema d = ms_from spec" "ms_from spec \<noteq> 0"
    and "forward_step dtoa spec d = Inr (w, rec)"
  shows "backward_step dtoa spec w = Returns (Inr (d, reversed_record rec spec))"
proof -
  from assms(5) obtain r w1 where f: "resolve_migration_step spec = Inr r" "apply_forward r d = (w1, Ok)"
      "w = w1\<lparr>doc_schema := ms_to spec\<rparr>" "sr_digest_before rec = doc_digest dtoa d"
      "sr_digest_after rec = doc_digest dtoa w"
    by (rule forward_step_Inr)
  from invertible_reverse [OF assms(1,2) f(1,2)] obtain q where
      q: "reverse_step r = Returns (Inr q)" "apply_forward q w1 = (d, Ok)" by blast
  have "apply_forward q w = (d\<lparr>doc_schema := ms_to spec\<rparr>, Ok)"
    using q(2) f(3) by (simp add: apply_forward_def apply_kind_reschema)
  moreover have "d\<lparr>doc_schema := ms_from spec\<rparr> = d" using assms(3) by (metis StateDocument.surjective StateDocument.update_convs(1))
  moreover have "ms_reversible spec" "\<not> ms_irreversible_boundary spec" using assms(2) by (simp_all add: invertible_def)
  ultimately show ?thesis
    using f q(1) assms(4) by (simp add: backward_step_def set_schema_def tagged_is_valid_def reversed_record_def)
qed

fun path_invertible :: "(u64 \<Rightarrow> string) \<Rightarrow> MigrationStepSpec list \<Rightarrow> StateDocument \<Rightarrow> bool" where
  "path_invertible dtoa [] d = True"
| "path_invertible dtoa (spec # path) d =
     (invertible spec d \<and>
      (case forward_step dtoa spec d of Inl _ \<Rightarrow> False | Inr (w, _) \<Rightarrow> path_invertible dtoa path w))"

lemma forward_step_keeps:
  assumes "forward_step dtoa spec d = Inr (w, rec)"
  shows "doc_schema w = ms_to spec" "ms_to spec \<noteq> 0" "doc_wf d \<Longrightarrow> doc_wf w"
proof -
  from assms obtain r w1 where f: "apply_forward r d = (w1, Ok)" "ms_to spec \<noteq> 0" "w = w1\<lparr>doc_schema := ms_to spec\<rparr>"
    by (rule forward_step_Inr)
  then show "doc_schema w = ms_to spec" "ms_to spec \<noteq> 0" by simp_all
  show "doc_wf d \<Longrightarrow> doc_wf w" using apply_forward_keeps(2) [OF f(1)] f(3) by (simp add: doc_wf_def)
qed

lemma backward_loop_append:
  "backward_loop dtoa (xs @ ys) w c out =
     (case backward_loop dtoa xs w c out of
        Throws \<Rightarrow> Throws
      | Returns (Inl e) \<Rightarrow> Returns (Inl e)
      | Returns (Inr (w', c', out')) \<Rightarrow> backward_loop dtoa ys w' c' out')"
  by (induction xs arbitrary: w c out) (auto split: raising.splits sum.splits)

lemma backward_undoes_loop:
  assumes "forward_loop dtoa path d c out = Inr (d', c', out')" "path_invertible dtoa path d" "doc_wf d"
    and "doc_schema d = c" "c \<noteq> 0"
  shows "\<exists>steps. backward_loop dtoa (rev path) d' c' o0 = Returns (Inr (d, c, o0\<lparr>mo_steps := mo_steps o0 @ steps\<rparr>))"
  using assms
proof (induction path arbitrary: d c out o0)
  case Nil
  then show ?case by (intro exI [of _ "[]"]) simp
next
  case (Cons spec path)
  from Cons.prems(1) obtain w rec out1 where f: "ms_from spec = c" "forward_step dtoa spec d = Inr (w, rec)"
      "forward_loop dtoa path w (ms_to spec) out1 = Inr (d', c', out')"
    by (auto simp: Let_def split: if_splits)
  have inv: "invertible spec d" "path_invertible dtoa path w" using Cons.prems(2) f(2) by simp_all
  have w: "doc_wf w" "doc_schema w = ms_to spec" "ms_to spec \<noteq> 0"
    using forward_step_keeps [OF f(2)] Cons.prems(3) by simp_all
  from Cons.IH [OF f(3) inv(2) w] obtain steps where
      b: "backward_loop dtoa (rev path) d' c' o0 = Returns (Inr (w, ms_to spec, o0\<lparr>mo_steps := mo_steps o0 @ steps\<rparr>))"
    by blast
  have "backward_step dtoa spec w = Returns (Inr (d, reversed_record rec spec))"
    using Cons.prems(3-5) inv(1) f by (intro backward_undoes_step) simp_all
  with b f(1) show ?case
    by (intro exI [of _ "steps @ [reversed_record rec spec]"]) (simp add: backward_loop_append)
qed

lemma forward_loop_Cons:
  assumes "forward_loop dtoa (spec # path) d c out = Inr (d', c', out')"
  obtains w rec out1 where "ms_from spec = c" "forward_step dtoa spec d = Inr (w, rec)"
    "forward_loop dtoa path w (ms_to spec) out1 = Inr (d', c', out')"
    "mo_from out1 = mo_from out" "mo_digest_before out1 = mo_digest_before out" "mo_steps out1 = mo_steps out @ [rec]"
    "mo_boundaries out1 = mo_boundaries out @ (if ms_irreversible_boundary spec then [ms_id spec] else [])"
    "mo_crossed out1 = (mo_crossed out \<or> ms_irreversible_boundary spec)"
proof (cases "ms_irreversible_boundary spec")
  case True
  with assms show ?thesis by (auto simp: Let_def intro!: that split: if_splits)
next
  case False
  with assms show ?thesis by (auto simp: Let_def intro!: that split: if_splits)
qed

lemma forward_loop_frame:
  assumes "forward_loop dtoa path d c out = Inr (d', c', out')" "doc_schema d = c"
  shows "mo_from out' = mo_from out \<and> mo_digest_before out' = mo_digest_before out \<and> doc_schema d' = c'"
  using assms
proof (induction path arbitrary: d c out)
  case (Cons spec path)
  from Cons.prems(1) obtain w rec out1 where f: "forward_step dtoa spec d = Inr (w, rec)"
      "forward_loop dtoa path w (ms_to spec) out1 = Inr (d', c', out')"
      "mo_from out1 = mo_from out" "mo_digest_before out1 = mo_digest_before out"
    by (rule forward_loop_Cons)
  from Cons.IH [OF f(2) forward_step_keeps(1) [OF f(1)]] f(3,4) show ?case by simp
qed simp

text \<open>C31: A reversible migration is undone exactly. When a forward migration of a well-formed document
  succeeds and each of its steps is declared reversible, crosses no irreversible boundary and acts on
  a field that is present (renaming, wrapping) or absent (adding), the backward migration over the
  same path succeeds, throws nothing, and returns the original document; its outcome has the schema
  versions and digests of the forward outcome exchanged.\<close>

theorem migration_round_trip:
  assumes "migrate_forward dtoa path d = (d', Inr o1)" "path_invertible dtoa path d" "doc_wf d" "doc_schema d \<noteq> 0"
  shows "\<exists>o2. migrate_backward dtoa path d' = Returns (d, Inr o2) \<and> mo_from o2 = mo_to o1 \<and> mo_to o2 = mo_from o1 \<and>
    mo_digest_before o2 = mo_digest_after o1 \<and> mo_digest_after o2 = mo_digest_before o1"
proof -
  from assms(1) obtain c' out' where f: "forward_loop dtoa path d (doc_schema d) (empty_outcome dtoa d) = Inr (d', c', out')"
      "o1 = finish_outcome dtoa (d', c', out')"
    by (auto simp: migrate_forward_def split: sum.splits prod.splits)
  note frame = forward_loop_frame [OF f(1) refl]
  from backward_undoes_loop [OF f(1) assms(2,3) refl assms(4), of "empty_outcome dtoa d'"] obtain steps where
      "backward_loop dtoa (rev path) d' c' (empty_outcome dtoa d') =
        Returns (Inr (d, doc_schema d, (empty_outcome dtoa d')\<lparr>mo_steps := mo_steps (empty_outcome dtoa d') @ steps\<rparr>))"
    by blast
  with frame f(2) show ?thesis
    by (simp add: migrate_backward_def finish_outcome_def empty_outcome_def)
qed

section \<open>Boundaries\<close>

lemma backward_step_boundary:
  "ms_irreversible_boundary spec \<or> \<not> ms_reversible spec \<Longrightarrow>
     \<exists>e. backward_step dtoa spec w = Returns (Inl e) \<and>
       ((\<exists>r. resolve_migration_step spec = Inr r) \<longrightarrow> e = IrreversibleBoundary)"
  by (cases "resolve_migration_step spec") (auto simp: backward_step_def)

lemma backward_loop_boundary:
  assumes "spec \<in> set path" "ms_irreversible_boundary spec \<or> \<not> ms_reversible spec"
  shows "backward_loop dtoa path w c out \<noteq> Returns (Inr x)"
  using assms(1)
proof (induction path arbitrary: w c out)
  case (Cons s path)
  then show ?case
    using backward_step_boundary [OF assms(2), of dtoa w]
    by (auto split: raising.splits sum.splits)
qed simp

text \<open>C32: No downgrade across an irreversible boundary. A backward migration over a path that contains a
  step marked irreversible, or not reversible, never returns a migrated document: it refuses and hands back
  the document as it was, steps after the boundary that it had undone included, or it throws. When the path is the one a forward migration has just
  taken and the steps after the boundary can be undone, the refusal is exactly
  \<^verbatim>\<open>IrreversibleBoundary\<close>.\<close>

theorem no_downgrade_across_boundary:
  assumes "ms_irreversible_boundary spec \<or> \<not> ms_reversible spec"
  shows "(migrate_backward dtoa (pre @ spec # post) d' = Throws \<or>
      (\<exists>e. migrate_backward dtoa (pre @ spec # post) d' = Returns (d', Inl e))) \<and>
    (forward_step dtoa spec d = Inr (w, rec) \<and> doc_wf d \<and> path_invertible dtoa post w \<and>
      migrate_forward dtoa post w = (d', Inr o1) \<longrightarrow>
      migrate_backward dtoa (pre @ spec # post) d' = Returns (d', Inl IrreversibleBoundary))"
proof (intro conjI impI; (elim conjE)?)
  have never: "backward_loop dtoa (rev (pre @ spec # post)) d' c out \<noteq> Returns (Inr y)" for c out y
    using assms by (intro backward_loop_boundary [of spec]) simp_all
  show "migrate_backward dtoa (pre @ spec # post) d' = Throws \<or>
      (\<exists>e. migrate_backward dtoa (pre @ spec # post) d' = Returns (d', Inl e))"
    using never by (auto simp: migrate_backward_def split: raising.splits sum.splits)
next
  assume f: "forward_step dtoa spec d = Inr (w, rec)" and wf: "doc_wf d" and p: "path_invertible dtoa post w"
    and m: "migrate_forward dtoa post w = (d', Inr o1)"
  note w = forward_step_keeps [OF f]
  from f obtain r where r: "resolve_migration_step spec = Inr r" by (rule forward_step_Inr)
  from m obtain c' out' where l: "forward_loop dtoa post w (doc_schema w) (empty_outcome dtoa w) = Inr (d', c', out')"
    by (auto simp: migrate_forward_def split: sum.splits prod.splits)
  have c': "doc_schema d' = c'" using forward_loop_frame [OF l refl] by simp
  from backward_undoes_loop [OF l p w(3) [OF wf] refl] w(1,2) obtain steps where
      "backward_loop dtoa (rev post) d' c' (empty_outcome dtoa d') =
        Returns (Inr (w, ms_to spec, (empty_outcome dtoa d')\<lparr>mo_steps := mo_steps (empty_outcome dtoa d') @ steps\<rparr>))"
    by fastforce
  with backward_step_boundary [OF assms, of dtoa w] r c'
  show "migrate_backward dtoa (pre @ spec # post) d' = Returns (d', Inl IrreversibleBoundary)"
    by (auto simp: migrate_backward_def backward_loop_append)
qed

section \<open>The outcome of a forward migration\<close>

text \<open>The records of a migration form a chain from one digest to another.\<close>

fun digest_chain :: "Digest \<Rightarrow> MigrationStepRecord list \<Rightarrow> Digest \<Rightarrow> bool" where
  "digest_chain a [] b = (a = b)"
| "digest_chain a (r # rs) b = (sr_digest_before r = a \<and> digest_chain (sr_digest_after r) rs b)"

definition evidence_bound :: "(u64 \<Rightarrow> string) \<Rightarrow> MigrationStepSpec \<Rightarrow> MigrationStepRecord \<Rightarrow> bool" where
  "evidence_bound dtoa spec rec =
     (sr_step rec = ms_id spec \<and>
      (digest_is_zero (ms_evidence_digest spec) \<or>
       ms_evidence_digest spec = migration_evidence_digest dtoa spec (sr_digest_before rec)))"

lemma forward_loop_outcome:
  assumes "forward_loop dtoa path d c out = Inr (d', c', out')"
  shows "\<exists>recs. mo_steps out' = mo_steps out @ recs \<and> list_all2 (evidence_bound dtoa) path recs \<and>
    digest_chain (doc_digest dtoa d) recs (doc_digest dtoa d') \<and>
    mo_boundaries out' = mo_boundaries out @ map ms_id (filter ms_irreversible_boundary path) \<and>
    mo_crossed out' = (mo_crossed out \<or> list_ex ms_irreversible_boundary path)"
  using assms
proof (induction path arbitrary: d c out)
  case (Cons spec path)
  from Cons.prems obtain w rec out1 where f: "forward_step dtoa spec d = Inr (w, rec)"
      "forward_loop dtoa path w (ms_to spec) out1 = Inr (d', c', out')" "mo_steps out1 = mo_steps out @ [rec]"
      "mo_boundaries out1 = mo_boundaries out @ (if ms_irreversible_boundary spec then [ms_id spec] else [])"
      "mo_crossed out1 = (mo_crossed out \<or> ms_irreversible_boundary spec)"
    by (rule forward_loop_Cons)
  from f(1) have rec: "evidence_bound dtoa spec rec" "sr_digest_before rec = doc_digest dtoa d"
      "sr_digest_after rec = doc_digest dtoa w"
    by (auto simp: evidence_bound_def elim!: forward_step_Inr)
  from Cons.IH [OF f(2)] obtain recs where "mo_steps out' = mo_steps out1 @ recs"
      "list_all2 (evidence_bound dtoa) path recs" "digest_chain (doc_digest dtoa w) recs (doc_digest dtoa d')"
      "mo_boundaries out' = mo_boundaries out1 @ map ms_id (filter ms_irreversible_boundary path)"
      "mo_crossed out' = (mo_crossed out1 \<or> list_ex ms_irreversible_boundary path)" by blast
  with f rec show ?case by (intro exI [of _ "rec # recs"]) auto
qed simp

text \<open>A forward migration is atomic and accountable. If it fails the document is unchanged. If it
  succeeds there is one record per declared step, in order, each record's evidence digest either
  absent or equal to the digest recomputed from the step and the state it was applied to; the
  records chain the digest of the old document to the digest of the new one without a gap; and the
  irreversible boundaries reported are exactly those declared on the path.\<close>

theorem migrate_forward_accountable:
  "case migrate_forward dtoa path d of
     (d', Inl e) \<Rightarrow> d' = d
   | (d', Inr res) \<Rightarrow>
       list_all2 (evidence_bound dtoa) path (mo_steps res) \<and>
       mo_digest_before res = doc_digest dtoa d \<and> mo_digest_after res = doc_digest dtoa d' \<and>
       digest_chain (mo_digest_before res) (mo_steps res) (mo_digest_after res) \<and>
       mo_boundaries res = map ms_id (filter ms_irreversible_boundary path) \<and>
       mo_crossed res = list_ex ms_irreversible_boundary path \<and>
       mo_from res = doc_schema d \<and> mo_to res = doc_schema d'"
proof (cases "forward_loop dtoa path d (doc_schema d) (empty_outcome dtoa d)")
  case (Inl e)
  then show ?thesis by (simp add: migrate_forward_def)
next
  case (Inr x)
  obtain d' c' out' where x: "x = (d', c', out')" by (cases x)
  from forward_loop_outcome [OF Inr [unfolded x]] forward_loop_frame [OF Inr [unfolded x]]
  show ?thesis using Inr x by (auto simp: migrate_forward_def finish_outcome_def empty_outcome_def)
qed

section \<open>Reversible steps without an exact inverse\<close>

text \<open>Adding a field that already exists is not undone. The forward step overwrites the old value and
  the backward step removes the field: the document that comes back lacks it, although the step is
  declared reversible and both migrations succeed.\<close>

theorem add_field_overwrite_not_undone:
  assumes "resolve_migration_step spec = Inr r" "rm_kind r = AddField" "ms_reversible spec"
    and "\<not> ms_irreversible_boundary spec" "doc_wf d" "ms_from spec \<noteq> 0"
    and "omap_find ''key'' (rm_args r) = Some k" "doc_contains k d" "forward_step dtoa spec d = Inr (w, rec)"
  shows "\<exists>w' rec'. backward_step dtoa spec w = Returns (Inr (w', rec')) \<and> \<not> doc_contains k w'"
proof -
  from assms(9,1) obtain w1 where f: "apply_forward r d = (w1, Ok)" "w = w1\<lparr>doc_schema := ms_to spec\<rparr>"
    by (auto elim!: forward_step_Inr)
  from f(1) assms(2,7) obtain v where v: "k \<noteq> []" "w1 = d\<lparr>doc_fields := omap_set k v (doc_fields d)\<rparr>"
    by (auto simp: apply_forward_def with_args_Ok rbind_eq_Inl doc_put_Ok)
  let ?w' = "w\<lparr>doc_fields := omap_erase k (doc_fields w), doc_schema := ms_from spec\<rparr>"
  have "omap_wf (doc_fields w)" using f(2) v(2) assms(5) by (simp add: omap_wf_set)
  then have "\<not> doc_contains k ?w'" by (simp add: doc_contains_def omap_find_erase)
  moreover have "\<exists>rec'. backward_step dtoa spec w = Returns (Inr (?w', rec'))"
    using assms f v
    by (simp add: backward_step_def reverse_step.simps apply_forward_def with_args_def require_arg_def doc_contains_def
        doc_remove_def set_schema_def tagged_is_valid_def)
  ultimately show ?thesis by blast
qed

text \<open>A reverse migration can throw. A declared step that adds or renames a field without naming it
  passes resolution, and reversing it looks the missing argument up with \<^verbatim>\<open>std::map::at\<close>, which
  throws instead of refusing.\<close>

theorem reverse_with_missing_argument_throws:
  assumes "resolve_migration_step spec = Inr r" "rm_kind r = AddField" "omap_find ''key'' (rm_args r) = None"
    and "ms_reversible spec" "\<not> ms_irreversible_boundary spec" "ms_to spec = doc_schema d"
  shows "migrate_backward dtoa (pre @ [spec]) d = Throws"
  using assms by (simp add: migrate_backward_def backward_step_def reverse_step.simps)

section \<open>Witnesses\<close>

definition ex_doc :: StateDocument where
  "ex_doc = \<lparr>doc_schema = 1, doc_fields = [(''a'', ''x'')]\<rparr>"

definition ex_step :: "nat \<Rightarrow> string \<Rightarrow> (string \<times> json) list \<Rightarrow> bool \<Rightarrow> MigrationStepSpec" where
  "ex_step n fn params rvs =
     \<lparr>ms_id = ''step'', ms_from = of_nat n, ms_to = of_nat (n + 1), ms_function = fn, ms_parameters = JObject params,
      ms_deterministic = True, ms_reversible = rvs, ms_irreversible_boundary = \<not> rvs,
      ms_evidence_digest = digest_zero, ms_description = []\<rparr>"

abbreviation ex_rename :: MigrationStepSpec where
  "ex_rename \<equiv> ex_step 1 ''rename_field'' [(''from'', JString ''a''), (''to'', JString ''b'')] True"

abbreviation ex_wrap :: MigrationStepSpec where
  "ex_wrap \<equiv> ex_step 2 ''wrap_value''
     [(''key'', JString ''b''), (''prefix'', JString ''<''), (''suffix'', JString ''>'')] True"

definition ex_doc_renamed :: StateDocument where
  "ex_doc_renamed = \<lparr>doc_schema = 2, doc_fields = [(''b'', ''x'')]\<rparr>"

definition ex_doc_wrapped :: StateDocument where
  "ex_doc_wrapped = \<lparr>doc_schema = 3, doc_fields = [(''b'', ''<x>'')]\<rparr>"

lemmas migration_eval =
  ex_step_def resolve_migration_step_def read_args_def try_object_def try_string_def op_kind_of_def
  kMaxStateKeyBytes_def kMaxMigrationArgumentBytes_def kMaxStateValueBytes_def kMaxStateFields_def

lemma ex_resolve:
  "resolve_migration_step ex_rename = Inr \<lparr>rm_spec = ex_rename, rm_kind = RenameField, rm_args = [(''from'', ''a''), (''to'', ''b'')]\<rparr>"
  "resolve_migration_step ex_wrap =
     Inr \<lparr>rm_spec = ex_wrap, rm_kind = WrapValue, rm_args = [(''key'', ''b''), (''prefix'', ''<''), (''suffix'', ''>'')]\<rparr>"
  by (simp_all add: migration_eval)

lemmas migration_apply =
  apply_forward_def with_args_def require_arg_def wrap_args_def doc_get_def doc_contains_def doc_put_def doc_remove_def
  kMaxStateKeyBytes_def kMaxStateValueBytes_def kMaxStateFields_def

lemma digest_zero_is_zero: "digest_is_zero digest_zero"
  by (simp add: digest_is_zero_def digest_zero_def list_all_iff)

lemma ex_forward:
  "\<exists>rec. forward_step dtoa ex_rename ex_doc = Inr (ex_doc_renamed, rec)"
  "\<exists>rec. forward_step dtoa ex_wrap ex_doc_renamed = Inr (ex_doc_wrapped, rec)"
  unfolding forward_step_def ex_resolve
  by (simp_all add: migration_apply ex_doc_def ex_doc_renamed_def ex_doc_wrapped_def ex_step_def digest_zero_is_zero Let_def
      set_schema_def tagged_is_valid_def)

lemma ex_forward_path:
  "\<exists>o1. migrate_forward dtoa [ex_rename, ex_wrap] ex_doc = (ex_doc_wrapped, Inr o1)"
proof -
  obtain r1 r2 where "forward_step dtoa ex_rename ex_doc = Inr (ex_doc_renamed, r1)"
      "forward_step dtoa ex_wrap ex_doc_renamed = Inr (ex_doc_wrapped, r2)"
    using ex_forward by blast
  moreover have "ms_from ex_rename = doc_schema ex_doc" "ms_from ex_wrap = ms_to ex_rename"
    by (simp_all add: ex_step_def ex_doc_def)
  ultimately show ?thesis by (simp add: migrate_forward_def)
qed

lemma ex_path_invertible: "path_invertible dtoa [ex_rename, ex_wrap] ex_doc"
proof -
  obtain r1 r2 where f: "forward_step dtoa ex_rename ex_doc = Inr (ex_doc_renamed, r1)"
      "forward_step dtoa ex_wrap ex_doc_renamed = Inr (ex_doc_wrapped, r2)"
    using ex_forward by blast
  have "invertible ex_rename ex_doc" "invertible ex_wrap ex_doc_renamed"
    unfolding invertible_def ex_resolve
    by (simp_all add: ex_step_def doc_contains_def ex_doc_def ex_doc_renamed_def)
  with f show ?thesis by simp
qed

lemma ex_doc_wf: "doc_wf ex_doc" "doc_schema ex_doc \<noteq> 0"
  by (simp_all add: doc_wf_def ex_doc_def kMaxStateFields_def kMaxStateKeyBytes_def kMaxStateValueBytes_def)

theorem migration_round_trip_witness:
  "\<exists>o2. migrate_backward (\<lambda>_. ''0'') [ex_rename, ex_wrap] ex_doc_wrapped = Returns (ex_doc, Inr o2)"
proof -
  obtain o1 where "migrate_forward (\<lambda>_. ''0'') [ex_rename, ex_wrap] ex_doc = (ex_doc_wrapped, Inr o1)"
    using ex_forward_path by blast
  from migration_round_trip [OF this ex_path_invertible ex_doc_wf] show ?thesis by blast
qed

abbreviation ex_drop :: MigrationStepSpec where
  "ex_drop \<equiv> ex_step 1 ''remove_field'' [(''key'', JString ''a'')] False"

theorem no_downgrade_across_boundary_witness:
  "migrate_backward (\<lambda>_. ''0'') ([] @ ex_drop # []) \<lparr>doc_schema = 2, doc_fields = []\<rparr> =
     Returns (\<lparr>doc_schema = 2, doc_fields = []\<rparr>, Inl IrreversibleBoundary)"
proof -
  let ?d = "\<lparr>doc_schema = 2, doc_fields = []\<rparr>"
  have b: "ms_irreversible_boundary ex_drop \<or> \<not> ms_reversible ex_drop" by (simp add: ex_step_def)
  have r: "resolve_migration_step ex_drop = Inr \<lparr>rm_spec = ex_drop, rm_kind = RemoveField, rm_args = [(''key'', ''a'')]\<rparr>"
    by (simp add: migration_eval)
  have "\<exists>rec. forward_step (\<lambda>_. ''0'') ex_drop ex_doc = Inr (?d, rec)"
    unfolding forward_step_def r
    by (simp add: migration_apply ex_doc_def ex_step_def digest_zero_is_zero Let_def set_schema_def tagged_is_valid_def)
  then obtain rec where f: "forward_step (\<lambda>_. ''0'') ex_drop ex_doc = Inr (?d, rec)" ..
  have m: "migrate_forward (\<lambda>_. ''0'') [] ?d = (?d, Inr (finish_outcome (\<lambda>_. ''0'') (?d, 2, empty_outcome (\<lambda>_. ''0'') ?d)))"
    by (simp add: migrate_forward_def)
  have p: "path_invertible (\<lambda>_. ''0'') [] ?d" by simp
  from no_downgrade_across_boundary [OF b] f m p ex_doc_wf(1) show ?thesis by blast
qed

abbreviation ex_add :: "(string \<times> json) list \<Rightarrow> MigrationStepSpec" where
  "ex_add params \<equiv> ex_step 1 ''add_field'' params True"

theorem add_field_overwrite_not_undone_witness:
  "\<exists>w' rec'. backward_step (\<lambda>_. ''0'') (ex_add [(''key'', JString ''a''), (''value'', JString ''y'')])
     \<lparr>doc_schema = 2, doc_fields = [(''a'', ''y'')]\<rparr> = Returns (Inr (w', rec')) \<and> \<not> doc_contains ''a'' w'"
proof -
  let ?s = "ex_add [(''key'', JString ''a''), (''value'', JString ''y'')]"
  let ?r = "\<lparr>rm_spec = ?s, rm_kind = AddField, rm_args = [(''key'', ''a''), (''value'', ''y'')]\<rparr>"
  have r: "resolve_migration_step ?s = Inr ?r" by (simp add: migration_eval)
  have f: "\<exists>rec. forward_step (\<lambda>_. ''0'') ?s ex_doc = Inr (\<lparr>doc_schema = 2, doc_fields = [(''a'', ''y'')]\<rparr>, rec)"
    unfolding forward_step_def r
    by (simp add: migration_apply ex_doc_def ex_step_def digest_zero_is_zero Let_def set_schema_def tagged_is_valid_def)
  then obtain rec where f: "forward_step (\<lambda>_. ''0'') ?s ex_doc = Inr (\<lparr>doc_schema = 2, doc_fields = [(''a'', ''y'')]\<rparr>, rec)" ..
  show ?thesis
    by (rule add_field_overwrite_not_undone [OF r _ _ _ ex_doc_wf(1) _ _ _ f])
      (simp_all add: ex_step_def ex_doc_def doc_contains_def)
qed

theorem reverse_with_missing_argument_throws_witness:
  "migrate_backward (\<lambda>_. ''0'') ([] @ [ex_add []]) \<lparr>doc_schema = 2, doc_fields = []\<rparr> = Throws"
proof -
  have r: "resolve_migration_step (ex_add []) = Inr \<lparr>rm_spec = ex_add [], rm_kind = AddField, rm_args = []\<rparr>"
    by (simp add: migration_eval)
  show ?thesis
    by (rule reverse_with_missing_argument_throws [OF r]) (simp_all add: ex_step_def)
qed

end
