(* ===== verification/Migration_Journal.thy ===== *)
theory Migration_Journal
  imports Migration_Props
begin

text \<open>
  The bounded journal of applied migrations (class \<^verbatim>\<open>MigrationJournal\<close> of
  \<^verbatim>\<open>src/migration.cpp\<close>) and the durable forms of the journal and of the state document.
\<close>

section \<open>The journal\<close>

record MigrationJournalRecord =
  jr_shard :: ShardId
  jr_component :: ComponentId
  jr_step :: MigrationStepId
  jr_from :: SchemaVersion
  jr_to :: SchemaVersion
  jr_state_digest_after :: Digest
  jr_applied_at_ms :: TimestampMs
  jr_irreversible_boundary :: bool

record MigrationJournal =
  records :: "MigrationJournalRecord list"
  capacity :: nat

definition new_journal :: "nat \<Rightarrow> MigrationJournal" where
  "new_journal cap = \<lparr>records = [], capacity = (if cap = 0 then 1 else cap)\<rparr>"

definition has_applied ::
  "ShardId \<Rightarrow> ComponentId \<Rightarrow> MigrationStepId \<Rightarrow> SchemaVersion \<Rightarrow> SchemaVersion \<Rightarrow> MigrationJournal \<Rightarrow> bool" where
  "has_applied sh c st f t j =
     list_ex (\<lambda>r. jr_shard r = sh \<and> jr_component r = c \<and> jr_step r = st \<and> jr_from r = f \<and> jr_to r = t) (records j)"

definition journal_record :: "MigrationJournalRecord \<Rightarrow> MigrationJournal \<Rightarrow> MigrationJournal \<times> Status" where
  "journal_record e j =
     (if \<not> name_is_valid (jr_shard e) \<or> \<not> name_is_valid (jr_component e) \<or> \<not> name_is_valid (jr_step e)
      then (j, InvalidArgument)
      else if \<not> tagged_is_valid (jr_from e) \<or> \<not> tagged_is_valid (jr_to e) then (j, InvalidArgument)
      else (j\<lparr>records := trim_front (capacity j) (records j @ [e])\<rparr>, Ok))"

definition for_component :: "ShardId \<Rightarrow> ComponentId \<Rightarrow> MigrationJournal \<Rightarrow> MigrationJournalRecord list" where
  "for_component sh c j = filter (\<lambda>r. jr_shard r = sh \<and> jr_component r = c) (records j)"

definition highest_schema :: "ShardId \<Rightarrow> ComponentId \<Rightarrow> MigrationJournal \<Rightarrow> SchemaVersion option" where
  "highest_schema sh c j =
     foldl (\<lambda>highest r.
        if jr_shard r \<noteq> sh \<or> jr_component r \<noteq> c then highest
        else case highest of
               None \<Rightarrow> Some (jr_to r)
             | Some h \<Rightarrow> if jr_to r > h then Some (jr_to r) else highest) None (records j)"

definition irreversible_crossed :: "ShardId \<Rightarrow> ComponentId \<Rightarrow> MigrationJournal \<Rightarrow> bool" where
  "irreversible_crossed sh c j =
     list_ex (\<lambda>r. jr_shard r = sh \<and> jr_component r = c \<and> jr_irreversible_boundary r) (records j)"

definition journal_clear :: "MigrationJournal \<Rightarrow> MigrationJournal" where
  "journal_clear j = j\<lparr>records := []\<rparr>"

definition journal_entry_to_json :: "MigrationJournalRecord \<Rightarrow> json" where
  "journal_entry_to_json r =
     json_set (json_set (json_set (json_set (json_set (json_set (json_set (json_set (JObject [])
       ''shard'' (JString (jr_shard r)))
       ''component'' (JString (jr_component r)))
       ''step'' (JString (jr_step r)))
       ''from'' (JUInt (ucast (jr_from r))))
       ''to'' (JUInt (ucast (jr_to r))))
       ''state_digest_after'' (JString (to_hex (jr_state_digest_after r))))
       ''applied_at_ms'' (JUInt (jr_applied_at_ms r)))
       ''irreversible_boundary'' (JBool (jr_irreversible_boundary r))"

definition journal_to_json :: "MigrationJournal \<Rightarrow> json" where
  "journal_to_json j = json_set (JObject []) ''records'' (JArray (map journal_entry_to_json (records j)))"

text \<open>\<^verbatim>\<open>if (!x.has_value() || *x == 0 || *x > UINT32_MAX)\<close>, then the narrowing cast.\<close>

definition schema_field :: "json \<Rightarrow> string \<Rightarrow> SchemaVersion Result" where
  "schema_field j key =
     rbind (require (positive (json_u64 j key)) Malformed) (\<lambda>v.
     rbind (guard (v \<le> 0xFFFFFFFF) Malformed) (\<lambda>_. Inr (ucast v)))"

definition journal_entry_from_json :: "json \<Rightarrow> MigrationJournalRecord Result" where
  "journal_entry_from_json j =
     rbind (guard (is_object j) Malformed) (\<lambda>_.
     rbind (require (json_string j ''shard'') Malformed) (\<lambda>shard_text.
     rbind (require (json_string j ''component'') Malformed) (\<lambda>component_text.
     rbind (require (json_string j ''step'') Malformed) (\<lambda>step_text.
     rbind (require (name_parse shard_text) Malformed) (\<lambda>sh.
     rbind (require (name_parse component_text) Malformed) (\<lambda>c.
     rbind (require (name_parse step_text) Malformed) (\<lambda>st.
     rbind (schema_field j ''from'') (\<lambda>f.
     rbind (schema_field j ''to'') (\<lambda>t.
     rbind (case json_string j ''state_digest_after'' of
              None \<Rightarrow> Inr digest_zero | Some h \<Rightarrow> require (digest_from_hex h) Malformed) (\<lambda>d.
     Inr \<lparr>jr_shard = sh, jr_component = c, jr_step = st, jr_from = f, jr_to = t, jr_state_digest_after = d,
          jr_applied_at_ms = json_u64_or j ''applied_at_ms'' 0,
          jr_irreversible_boundary = json_bool_or j ''irreversible_boundary'' False\<rparr>))))))))))"

definition journal_load :: "json \<Rightarrow> MigrationJournal \<Rightarrow> MigrationJournal \<times> Status" where
  "journal_load v j =
     (if \<not> is_object v then (j, Malformed)
      else case json_find v ''records'' of
             None \<Rightarrow> (j, Malformed)
           | Some a \<Rightarrow>
               if \<not> is_array a then (j, Malformed)
               else (case map_result journal_entry_from_json (map (json_at a) [0..<json_size a]) of
                       Inl e \<Rightarrow> (j, e)
                     | Inr loaded \<Rightarrow> (j\<lparr>records := trim_front (capacity j) loaded\<rparr>, Ok)))"

section \<open>Round trips\<close>

definition journal_entry_wf :: "MigrationJournalRecord \<Rightarrow> bool" where
  "journal_entry_wf r =
     (name_is_valid_text (jr_shard r) \<and> name_is_valid_text (jr_component r) \<and> name_is_valid_text (jr_step r) \<and>
      jr_from r \<noteq> 0 \<and> jr_to r \<noteq> 0 \<and> digest_wf (jr_state_digest_after r))"

lemma schema_field_round_trip [codec_simps]:
  "json_find j key = Some (JUInt (ucast s)) \<Longrightarrow> s \<noteq> 0 \<Longrightarrow> schema_field j key = Inr s"
  by (simp add: schema_field_def json_u64_def codec_simps)

lemma journal_entry_round_trip:
  assumes "journal_entry_wf r"
  shows "journal_entry_from_json (journal_entry_to_json r) = Inr r"
proof -
  let ?j = "journal_entry_to_json r"
  have find: "is_object ?j" "json_string ?j ''shard'' = Some (jr_shard r)"
    "json_string ?j ''component'' = Some (jr_component r)" "json_string ?j ''step'' = Some (jr_step r)"
    "json_string ?j ''state_digest_after'' = Some (to_hex (jr_state_digest_after r))"
    "json_u64_or ?j ''applied_at_ms'' 0 = jr_applied_at_ms r"
    "json_bool_or ?j ''irreversible_boundary'' False = jr_irreversible_boundary r"
    by (simp_all add: journal_entry_to_json_def json_field_defs codec_simps)
  have "json_find ?j ''from'' = Some (JUInt (ucast (jr_from r)))" "json_find ?j ''to'' = Some (JUInt (ucast (jr_to r)))"
    by (simp_all add: journal_entry_to_json_def codec_simps)
  with assms have "schema_field ?j ''from'' = Inr (jr_from r)" "schema_field ?j ''to'' = Inr (jr_to r)"
    by (simp_all add: schema_field_round_trip journal_entry_wf_def)
  with assms show ?thesis
    unfolding journal_entry_from_json_def journal_entry_wf_def
    by (simp add: find codec_simps name_parse_valid)
qed

interpretation journal_codec: json_codec journal_entry_to_json journal_entry_from_json journal_entry_wf
  by unfold_locales (rule journal_entry_round_trip)

text \<open>The migration journal round trips: loading the encoding of a journal with valid entries, into any
  journal of a capacity that holds them, restores exactly its entries in order.\<close>

theorem journal_round_trip:
  assumes "list_all journal_entry_wf (records j)" "length (records j) \<le> capacity j0"
  shows "journal_load (journal_to_json j) j0 = (j0\<lparr>records := records j\<rparr>, Ok)"
  using assms journal_codec.array_round_trip [of "records j"]
  by (simp add: journal_load_def journal_to_json_def codec_simps json_elements trim_front_drop)

text \<open>Recording keeps the newest entries: a recorded entry is reported as applied, the journal holds the
  last \<^verbatim>\<open>capacity\<close> entries of its history, and an entry with an invalid identity or schema version
  is refused without a change.\<close>

theorem journal_record_keeps_newest:
  assumes "0 < capacity j" "journal_record e j = (j', s)"
  shows "s = Ok \<and> records j' = drop (length (records j) + 1 - capacity j) (records j @ [e]) \<and>
      length (records j') = min (capacity j) (length (records j) + 1) \<and>
      has_applied (jr_shard e) (jr_component e) (jr_step e) (jr_from e) (jr_to e) j' \<or>
    s = InvalidArgument \<and> j' = j"
proof (cases "s = Ok")
  case True
  with assms(2) have r: "records j' = drop (length (records j) + 1 - capacity j) (records j @ [e])"
    by (auto simp: journal_record_def trim_front_drop split: if_splits)
  then have "e \<in> set (records j')" using assms(1) by (simp add: drop_Cons')
  then have "has_applied (jr_shard e) (jr_component e) (jr_step e) (jr_from e) (jr_to e) j'"
    by (auto simp: has_applied_def list_ex_iff)
  with r True assms(1) show ?thesis by auto
next
  case False
  with assms(2) show ?thesis by (auto simp: journal_record_def split: if_splits)
qed

lemma highest_fold:
  "foldl (\<lambda>highest r. if \<not> P r then highest
      else case highest of None \<Rightarrow> Some (f r) | Some h \<Rightarrow> if f r > h then Some (f r) else highest) acc rs =
   (let vs = (case acc of None \<Rightarrow> [] | Some h \<Rightarrow> [h]) @ map f (filter P rs) in
    if vs = [] then None else Some (Max (set vs)))"
  for f :: "'a \<Rightarrow> 'b::linorder"
proof (induction rs arbitrary: acc)
  case Nil
  then show ?case by (simp split: option.splits)
next
  case (Cons r rs)
  show ?case
  proof (cases "P r")
    case False
    then show ?thesis using Cons.IH [of acc] by simp
  next
    case True
    show ?thesis
    proof (cases acc)
      case None
      with True show ?thesis using Cons.IH [of "Some (f r)"] by simp
    next
      case (Some h)
      have "Max (insert h (insert (f r) S)) = Max (insert (max h (f r)) S)" if "finite S" for S
        using that by (cases "S = {}") (simp_all add: max.assoc)
      with True Some show ?thesis
        using Cons.IH [of "Some (max h (f r))"] by (auto simp: max_def split: if_splits)
    qed
  qed
qed

text \<open>The highest schema reported for a component is the maximum of the target schemas of its journal
  entries, and nothing is reported exactly when the component has no entry.\<close>

theorem highest_schema_is_max:
  "highest_schema sh c j =
     (if for_component sh c j = [] then None else Some (Max (jr_to ` set (for_component sh c j))))"
  using highest_fold [of "\<lambda>r. jr_shard r = sh \<and> jr_component r = c" jr_to None "records j"]
  by (auto simp: highest_schema_def for_component_def Let_def)

section \<open>Documents\<close>

lemma json_set_sorted:
  assumes "omap_wf (m @ [(k, v)])"
  shows "json_set (JObject (map (\<lambda>(k, v). (k, JString v)) m)) k (JString v) =
    JObject (map (\<lambda>(k, v). (k, JString v)) (m @ [(k, v)]))"
proof -
  have "\<forall>x \<in> set (map fst m). x < k" using assms by (simp add: omap_wf_def sorted_wrt_append)
  then have "omap_set k (JString v) (map (\<lambda>(k, v). (k, JString v)) m) = map (\<lambda>(k, v). (k, JString v)) m @ [(k, JString v)]"
    by (induction m) auto
  then show ?thesis by (simp add: json_set_def Let_def)
qed

lemma json_of_fields:
  "omap_wf (m0 @ m) \<Longrightarrow>
     foldl (\<lambda>j (k, v). json_set j k (JString v)) (JObject (map (\<lambda>(k, v). (k, JString v)) m0)) m =
     JObject (map (\<lambda>(k, v). (k, JString v)) (m0 @ m))"
proof (induction m arbitrary: m0)
  case (Cons e m)
  obtain k v where e: "e = (k, v)" by (cases e)
  have "omap_wf (m0 @ [(k, v)])" using Cons.prems e by (simp add: omap_wf_def sorted_wrt_append)
  with Cons.IH [of "m0 @ [(k, v)]"] Cons.prems e show ?case by (simp add: json_set_sorted)
qed simp

lemma put_fields_sorted:
  assumes "doc_wf \<lparr>doc_schema = s, doc_fields = m0 @ m\<rparr>"
  shows "put_fields (map (\<lambda>(k, v). (k, JString v)) m) \<lparr>doc_schema = s, doc_fields = m0\<rparr> =
    Inr \<lparr>doc_schema = s, doc_fields = m0 @ m\<rparr>"
  using assms
proof (induction m arbitrary: m0)
  case (Cons e m)
  obtain k v where e: "e = (k, v)" by (cases e)
  have lt: "\<forall>x \<in> set (map fst m0). x < k" using Cons.prems e by (simp add: doc_wf_def omap_wf_def sorted_wrt_append)
  then have "omap_set k v m0 = m0 @ [(k, v)]" by (rule omap_set_last)
  moreover have "k \<noteq> []" "length k \<le> kMaxStateKeyBytes" "length v \<le> kMaxStateValueBytes" "length m0 < kMaxStateFields"
    using Cons.prems e by (auto simp: doc_wf_def)
  ultimately have "doc_put k v \<lparr>doc_schema = s, doc_fields = m0\<rparr> = (\<lparr>doc_schema = s, doc_fields = m0 @ [(k, v)]\<rparr>, Ok)"
    by (simp add: doc_put_Ok)
  with Cons.IH [of "m0 @ [(k, v)]"] Cons.prems e show ?case by (simp add: codec_simps)
qed simp

text \<open>State documents round trip through their canonical JSON value: decoding the encoding of a
  well-formed document with a positive schema version gives the document back, field for field.\<close>

theorem document_round_trip:
  assumes "doc_wf d" "doc_schema d \<noteq> 0"
  shows "doc_from_json (doc_to_json d) = Inr d"
proof -
  let ?f = "map (\<lambda>(k, v). (k, JString v)) (doc_fields d)"
  have f: "foldl (\<lambda>j (k, v). json_set j k (JString v)) (JObject []) (doc_fields d) = JObject ?f"
    using json_of_fields [of "[]" "doc_fields d"] assms(1) by simp
  have j: "is_object (doc_to_json d)" "json_u64 (doc_to_json d) ''schema'' = Some (ucast (doc_schema d))"
      "json_find (doc_to_json d) ''fields'' = Some (JObject ?f)"
    by (simp_all add: doc_to_json_def json_u64_def codec_simps f)
  have "put_fields ?f \<lparr>doc_schema = doc_schema d, doc_fields = []\<rparr> = Inr d"
    using put_fields_sorted [of "doc_schema d" "[]" "doc_fields d"] assms(1) by (cases d) simp
  with assms j show ?thesis
    by (simp add: doc_from_json_def codec_simps try_object_def doc_wf_def not_less)
qed

section \<open>Witnesses\<close>

definition ex_entry :: "SchemaVersion \<Rightarrow> MigrationJournalRecord" where
  "ex_entry t = \<lparr>jr_shard = ''s1'', jr_component = ''node'', jr_step = ''step'', jr_from = 1, jr_to = t,
     jr_state_digest_after = digest_zero, jr_applied_at_ms = 5, jr_irreversible_boundary = False\<rparr>"

theorem journal_round_trip_witness:
  "journal_load (journal_to_json \<lparr>records = [ex_entry 2, ex_entry 3], capacity = 2\<rparr>) (new_journal 4096) =
     (\<lparr>records = [ex_entry 2, ex_entry 3], capacity = 4096\<rparr>, Ok)"
proof -
  have "list_all journal_entry_wf (records \<lparr>records = [ex_entry 2, ex_entry 3], capacity = 2\<rparr>)" by code_simp
  from journal_round_trip [OF this, of "new_journal 4096"] show ?thesis by (simp add: new_journal_def)
qed

theorem journal_record_keeps_newest_witness:
  "has_applied ''s1'' ''node'' ''step'' 1 3 (fst (journal_record (ex_entry 3) \<lparr>records = [ex_entry 2], capacity = 1\<rparr>))"
proof -
  let ?j = "\<lparr>records = [ex_entry 2], capacity = 1\<rparr>"
  have "0 < capacity ?j" "journal_record (ex_entry 3) ?j = (fst (journal_record (ex_entry 3) ?j), Ok)" by (simp, code_simp)
  from journal_record_keeps_newest [OF this] show ?thesis by (simp add: ex_entry_def)
qed

theorem document_round_trip_witness: "doc_from_json (doc_to_json ex_doc) = Inr ex_doc"
  using ex_doc_wf by (rule document_round_trip)

end
