(* ===== verification/Features.thy ===== *)
theory Features
  imports Status_Codes
begin

text \<open>
  Protocol features and feature sets: \<^verbatim>\<open>include/fabric/evolution/features.hpp\<close> and
  \<^verbatim>\<open>src/features.cpp\<close>. A feature set is the 64-bit word \<^verbatim>\<open>bits_\<close>; feature \<open>f\<close> is bit
  \<open>feature_index f\<close>.
\<close>

datatype Feature =
    SnapshotTransfer | IncrementalCatchUp | ReadOnlySharedAuthority | SchemaMigration
  | ProtocolNegotiation | ForwardRecoveryFeature | ChecksummedRecords | LeaseReattestation
  | FencedStaleRejection | ReverseMigration | CompactSnapshotEncoding | PipelinedCatchUp
  | EpochAttestation | DurableHandoffJournal

type_synonym FeatureSet = u64

fun feature_index :: "Feature \<Rightarrow> nat" where
  "feature_index SnapshotTransfer = 0"
| "feature_index IncrementalCatchUp = 1"
| "feature_index ReadOnlySharedAuthority = 2"
| "feature_index SchemaMigration = 3"
| "feature_index ProtocolNegotiation = 4"
| "feature_index ForwardRecoveryFeature = 5"
| "feature_index ChecksummedRecords = 6"
| "feature_index LeaseReattestation = 7"
| "feature_index FencedStaleRejection = 8"
| "feature_index ReverseMigration = 9"
| "feature_index CompactSnapshotEncoding = 10"
| "feature_index PipelinedCatchUp = 11"
| "feature_index EpochAttestation = 12"
| "feature_index DurableHandoffJournal = 13"

definition kFeatureTable :: "(Feature \<times> string) list" where
  "kFeatureTable =
     [(SnapshotTransfer, ''snapshot_transfer''),
      (IncrementalCatchUp, ''incremental_catch_up''),
      (ReadOnlySharedAuthority, ''read_only_shared_authority''),
      (SchemaMigration, ''schema_migration''),
      (ProtocolNegotiation, ''protocol_negotiation''),
      (ForwardRecoveryFeature, ''forward_recovery''),
      (ChecksummedRecords, ''checksummed_records''),
      (LeaseReattestation, ''lease_reattestation''),
      (FencedStaleRejection, ''fenced_stale_rejection''),
      (ReverseMigration, ''reverse_migration''),
      (CompactSnapshotEncoding, ''compact_snapshot_encoding''),
      (PipelinedCatchUp, ''pipelined_catch_up''),
      (EpochAttestation, ''epoch_attestation''),
      (DurableHandoffJournal, ''durable_handoff_journal'')]"

definition feature_name :: "Feature \<Rightarrow> string" where
  "feature_name feature =
     (case List.find (\<lambda>e. fst e = feature) kFeatureTable of
        None \<Rightarrow> ''unknown'' | Some entry \<Rightarrow> snd entry)"

definition feature_from_name :: "string \<Rightarrow> Feature option" where
  "feature_from_name name = map_option fst (List.find (\<lambda>e. snd e = name) kFeatureTable)"

definition fs_none :: FeatureSet where
  "fs_none = 0"

definition fs_of :: "Feature \<Rightarrow> FeatureSet" where
  "fs_of feature = push_bit (feature_index feature) 1"

definition fs_contains :: "FeatureSet \<Rightarrow> Feature \<Rightarrow> bool" where
  "fs_contains bits feature = (bits AND push_bit (feature_index feature) 1 \<noteq> 0)"

definition fs_contains_all :: "FeatureSet \<Rightarrow> FeatureSet \<Rightarrow> bool" where
  "fs_contains_all bits other = (bits AND other = other)"

definition fs_intersects :: "FeatureSet \<Rightarrow> FeatureSet \<Rightarrow> bool" where
  "fs_intersects bits other = (bits AND other \<noteq> 0)"

definition fs_intersect :: "FeatureSet \<Rightarrow> FeatureSet \<Rightarrow> FeatureSet" where
  "fs_intersect bits other = bits AND other"

definition fs_unite :: "FeatureSet \<Rightarrow> FeatureSet \<Rightarrow> FeatureSet" where
  "fs_unite bits other = bits OR other"

definition fs_without :: "FeatureSet \<Rightarrow> FeatureSet \<Rightarrow> FeatureSet" where
  "fs_without bits other = bits AND NOT other"

definition fs_add :: "FeatureSet \<Rightarrow> Feature \<Rightarrow> FeatureSet" where
  "fs_add bits feature = bits OR push_bit (feature_index feature) 1"

definition fs_names :: "FeatureSet \<Rightarrow> string list" where
  "fs_names bits = map snd (filter (\<lambda>e. fs_contains bits (fst e)) kFeatureTable)"

fun fs_from_names_loop :: "string list \<Rightarrow> FeatureSet \<Rightarrow> FeatureSet option" where
  "fs_from_names_loop [] acc = Some acc"
| "fs_from_names_loop (name # names) acc =
     (case feature_from_name name of
        None \<Rightarrow> None
      | Some feature \<Rightarrow> fs_from_names_loop names (fs_add acc feature))"

definition fs_from_names :: "string list \<Rightarrow> FeatureSet option" where
  "fs_from_names names = fs_from_names_loop names fs_none"

section \<open>Lemmas\<close>

lemma fs_contains_bit: "fs_contains bits f = bit bits (feature_index f)"
  by (simp add: fs_contains_def bit_iff_and_push_bit_not_eq_0)

lemma feature_index_inject: "(feature_index f = feature_index g) = (f = g)"
  by (cases f; cases g) simp_all

lemma fs_contains_ops:
  "fs_contains (fs_intersect a b) f = (fs_contains a f \<and> fs_contains b f)"
  "fs_contains (fs_unite a b) f = (fs_contains a f \<or> fs_contains b f)"
  "fs_contains (fs_without a b) f = (fs_contains a f \<and> \<not> fs_contains b f)"
  "fs_contains (fs_add a g) f = (f = g \<or> fs_contains a f)"
  "\<not> fs_contains fs_none f"
proof -
  have i: "feature_index f < 64" by (cases f) simp_all
  show "fs_contains (fs_intersect a b) f = (fs_contains a f \<and> fs_contains b f)"
    "fs_contains (fs_unite a b) f = (fs_contains a f \<or> fs_contains b f)"
    "fs_contains (fs_without a b) f = (fs_contains a f \<and> \<not> fs_contains b f)"
    "fs_contains (fs_add a g) f = (f = g \<or> fs_contains a f)"
    "\<not> fs_contains fs_none f"
    using i
    by (auto simp: fs_contains_bit fs_intersect_def fs_unite_def fs_without_def fs_add_def fs_none_def
        bit_simps feature_index_inject)
qed

lemma fs_contains_all_mono: "fs_contains_all a b \<Longrightarrow> fs_contains b f \<Longrightarrow> fs_contains a f"
  by (metis fs_contains_all_def fs_contains_ops(1) fs_intersect_def)

lemma distinct_feature_names: "distinct (map snd kFeatureTable)"
  unfolding kFeatureTable_def by code_simp

lemma find_by_snd:
  "distinct (map snd es) \<Longrightarrow> e \<in> set es \<Longrightarrow> List.find (\<lambda>x. snd x = snd e) es = Some e"
  by (induction es) (auto simp: rev_image_eqI)

lemma feature_table_names: "e \<in> set kFeatureTable \<Longrightarrow> feature_from_name (snd e) = Some (fst e)"
  unfolding feature_from_name_def by (simp add: find_by_snd distinct_feature_names)

lemma fs_from_names_loop_table:
  "set es \<subseteq> set kFeatureTable \<Longrightarrow>
     fs_from_names_loop (map snd es) acc = Some (foldl fs_add acc (map fst es))"
  by (induction es arbitrary: acc) (auto simp: feature_table_names)

lemma fs_contains_foldl_add: "fs_contains (foldl fs_add acc fs) f = (f \<in> set fs \<or> fs_contains acc f)"
  by (induction fs arbitrary: acc) (auto simp: fs_contains_ops)

lemma feature_in_table: "\<exists>n. (f, n) \<in> set kFeatureTable"
  by (cases f) (auto simp: kFeatureTable_def)

text \<open>Printing and re-reading a set keeps exactly the known features.\<close>

lemma fs_names_round_trip:
  "\<exists>s. fs_from_names (fs_names bits) = Some s \<and> (\<forall>f. fs_contains s f = fs_contains bits f)"
proof -
  let ?es = "filter (\<lambda>e. fs_contains bits (fst e)) kFeatureTable"
  have "fs_from_names (fs_names bits) = Some (foldl fs_add fs_none (map fst ?es))"
    unfolding fs_from_names_def fs_names_def by (rule fs_from_names_loop_table) auto
  moreover have "fs_contains (foldl fs_add fs_none (map fst ?es)) f = fs_contains bits f" for f
    using feature_in_table [of f] by (force simp: fs_contains_foldl_add fs_contains_ops)
  ultimately show ?thesis by blast
qed

lemma bit_foldl_add:
  "bit (foldl fs_add acc fs) n = (bit acc n \<or> (n < 64 \<and> n \<in> feature_index ` set fs))"
  by (induction fs arbitrary: acc) (auto simp: fs_add_def bit_simps)

lemma feature_index_less: "feature_index f < 14"
  by (cases f) simp_all

lemma fs_decoded_known_only: "fs_from_names names = Some s \<Longrightarrow> bit s n \<Longrightarrow> n < 14"
proof -
  have *: "fs_from_names_loop names acc = Some s \<Longrightarrow> \<exists>fs. s = foldl fs_add acc fs" for acc
  proof (induction names arbitrary: acc)
    case Nil
    then have "s = foldl fs_add acc []" by simp
    then show ?case by blast
  next
    case (Cons nm names)
    then obtain f where "fs_from_names_loop names (fs_add acc f) = Some s"
      by (auto split: option.splits)
    then obtain fs where "s = foldl fs_add (fs_add acc f) fs" using Cons.IH by blast
    then have "s = foldl fs_add acc (f # fs)" by simp
    then show ?case by blast
  qed
  assume "fs_from_names names = Some s" "bit s n"
  with * [of fs_none] obtain fs where "s = foldl fs_add fs_none fs" by (auto simp: fs_from_names_def)
  with \<open>bit s n\<close> show ?thesis using feature_index_less by (auto simp: bit_foldl_add fs_none_def)
qed

end
