(* ===== verification/Record_Fields.thy ===== *)
theory Record_Fields
  imports Json_Text Features Versions Ids Digest
begin

text \<open>
  Field codecs that the records of \<^verbatim>\<open>src/protocol.cpp\<close>, \<^verbatim>\<open>src/compatibility.cpp\<close> and
  \<^verbatim>\<open>src/manifest.cpp\<close> share: arrays of feature names, version and schema fields, and the digest of
  the canonical text of a value.
\<close>

definition feature_array :: "FeatureSet \<Rightarrow> json" where
  "feature_array features = JArray (map JString (fs_names features))"

text \<open>An array of strings, decoded by index.\<close>

definition string_elements :: "json \<Rightarrow> string list Result" where
  "string_elements a =
     (if \<not> is_array a then Inl Malformed
      else map_result (\<lambda>e. require (try_string e) Malformed) (map (json_at a) [0..<json_size a]))"

definition features_from_array :: "json \<Rightarrow> FeatureSet Result" where
  "features_from_array a =
     rbind (string_elements a) (\<lambda>names. require (fs_from_names names) Malformed)"

text \<open>\<^verbatim>\<open>if (const Json* features = value.find(key)) { ... }\<close>\<close>

definition optional_features :: "json \<Rightarrow> string \<Rightarrow> FeatureSet Result" where
  "optional_features j key =
     (case json_find j key of None \<Rightarrow> Inr fs_none | Some a \<Rightarrow> features_from_array a)"

definition software_field :: "json \<Rightarrow> string \<Rightarrow> SoftwareVersion Result" where
  "software_field j key =
     rbind (require (json_string j key) Malformed) (\<lambda>text. require (software_version_parse text) Malformed)"

definition protocol_field :: "json \<Rightarrow> string \<Rightarrow> ProtocolVersion Result" where
  "protocol_field j key =
     rbind (require (json_string j key) Malformed) (\<lambda>text. require (protocol_version_parse text) Malformed)"

definition name_field :: "json \<Rightarrow> string \<Rightarrow> string Result" where
  "name_field j key =
     rbind (require (json_string j key) Malformed) (\<lambda>text. require (name_parse text) Malformed)"

definition schema_version_field :: "json \<Rightarrow> string \<Rightarrow> SchemaVersion Result" where
  "schema_version_field j key =
     rbind (require (json_u64 j key) Malformed) (\<lambda>v.
     if v = 0 \<or> v > 0xFFFFFFFF then Inl Malformed else Inr (ucast v))"

definition digest_field :: "json \<Rightarrow> string \<Rightarrow> Digest Result" where
  "digest_field j key =
     (case json_string j key of None \<Rightarrow> Inr digest_zero | Some t \<Rightarrow> require (digest_from_hex t) Malformed)"

section \<open>Round trips\<close>

text \<open>A feature set of known features only, and a version that its parser accepts.\<close>

definition features_known :: "FeatureSet \<Rightarrow> bool" where
  "features_known s = (take_bit 14 s = s)"

definition software_wf :: "SoftwareVersion \<Rightarrow> bool" where
  "software_wf v = (list_all is_build_char (sv_build v) \<and> length (sv_build v) \<le> 78)"

lemma feature_of_index: "n < 14 \<Longrightarrow> \<exists>f. feature_index f = n"
proof -
  have "list_all (\<lambda>n. list_ex (\<lambda>e. feature_index (fst e) = n) kFeatureTable) [0..<14]" by code_simp
  then show "n < 14 \<Longrightarrow> ?thesis" by (auto simp: list_all_iff list_ex_iff)
qed

lemma features_eqI:
  assumes "features_known s" "features_known t" "\<And>f. fs_contains s f = fs_contains t f"
  shows "s = t"
proof (rule bit_word_eqI)
  fix n assume "n < LENGTH(64)"
  show "bit s n = bit t n"
  proof (cases "n < 14")
    case True
    then obtain f where "feature_index f = n" using feature_of_index by blast
    with assms(3) [of f] show ?thesis by (simp add: fs_contains_bit)
  next
    case False
    have "\<not> bit u n" if "features_known u" for u
      using that False by (metis bit_take_bit_iff features_known_def)
    with assms(1,2) show ?thesis by simp
  qed
qed

lemma features_known_decoded: "fs_from_names names = Some s \<Longrightarrow> features_known s"
  unfolding features_known_def
  by (rule bit_word_eqI) (auto simp: bit_simps dest: fs_decoded_known_only)

lemma feature_names_inverse: "features_known s \<Longrightarrow> fs_from_names (fs_names s) = Some s"
  using fs_names_round_trip [of s] features_known_decoded features_eqI by metis

lemma string_elements_array [codec_simps]: "string_elements (JArray (map JString ts)) = Inr ts"
proof -
  have "map_result (\<lambda>e. require (try_string e) Malformed) (map JString ts) = Inr ts"
    by (induction ts) (simp_all add: codec_simps)
  then show ?thesis by (simp add: string_elements_def codec_simps json_elements)
qed

lemma feature_array_round_trip [codec_simps]: "features_known s \<Longrightarrow> features_from_array (feature_array s) = Inr s"
  by (simp add: features_from_array_def feature_array_def codec_simps feature_names_inverse)

lemma optional_features_round_trip:
  "json_find j key = Some (feature_array s) \<Longrightarrow> features_known s \<Longrightarrow> optional_features j key = Inr s"
  by (simp add: optional_features_def codec_simps)

lemma software_field_round_trip:
  "json_string j key = Some (software_version_to_string v) \<Longrightarrow> software_wf v \<Longrightarrow> software_field j key = Inr v"
  by (simp add: software_field_def software_version_round_trip software_wf_def)

lemma protocol_field_round_trip:
  "json_string j key = Some (protocol_version_to_string v) \<Longrightarrow> protocol_field j key = Inr v"
  by (simp add: protocol_field_def protocol_version_round_trip)

lemma name_field_round_trip: "json_string j key = Some t \<Longrightarrow> name_is_valid_text t \<Longrightarrow> name_field j key = Inr t"
  by (simp add: name_field_def name_parse_valid)

lemma schema_version_field_round_trip:
  "json_u64 j key = Some (ucast (v :: u32)) \<Longrightarrow> v \<noteq> 0 \<Longrightarrow> schema_version_field j key = Inr v"
  using ucast_u32_le [of v] by (simp add: schema_version_field_def codec_simps not_less)

lemma digest_field_round_trip: "json_string j key = Some (to_hex d) \<Longrightarrow> digest_wf d \<Longrightarrow> digest_field j key = Inr d"
  by (simp add: digest_field_def codec_simps)

lemmas field_round_trips =
  optional_features_round_trip software_field_round_trip protocol_field_round_trip name_field_round_trip
  schema_version_field_round_trip digest_field_round_trip

lemma field_never_ok [simp]:
  "string_elements a \<noteq> Inl Ok" "optional_features j key \<noteq> Inl Ok" "software_field j key \<noteq> Inl Ok"
  "protocol_field j key \<noteq> Inl Ok" "name_field j key \<noteq> Inl Ok" "schema_version_field j key \<noteq> Inl Ok" "digest_field j key \<noteq> Inl Ok"
proof -
  show s: "string_elements a \<noteq> Inl Ok" for a by (auto simp: string_elements_def dest!: map_result_Inl)
  show "optional_features j key \<noteq> Inl Ok"
    by (auto simp: optional_features_def features_from_array_def rbind_eq_Inl s split: option.splits)
  show "software_field j key \<noteq> Inl Ok" "protocol_field j key \<noteq> Inl Ok" "name_field j key \<noteq> Inl Ok"
    "schema_version_field j key \<noteq> Inl Ok" "digest_field j key \<noteq> Inl Ok"
    by (auto simp: software_field_def protocol_field_def name_field_def schema_version_field_def digest_field_def
        rbind_eq_Inl split: option.splits if_splits)
qed

end
