(* ===== verification/Json_Parse.thy ===== *)
theory Json_Parse
  imports Json_Text
begin

text \<open>
  The strict recursive-descent parser of \<^verbatim>\<open>src/json.cpp\<close>. The position \<^verbatim>\<open>index_\<close> of the parser is
  the text that is still to be read; a failed parse is \<open>None\<close> (the message and the offset it is
  reported with are not modelled). Decimal floating point (\<^verbatim>\<open>std::from_chars(double)\<close>) is the
  parameter \<open>strtod\<close>, from the token to the 64-bit pattern of the double. The nesting level is bounded
  by \<^verbatim>\<open>max_depth\<close>, so the recursion is structural in the levels that are left; the loop over the
  entries of a container takes fuel, one more than the length of the text, which it never exhausts.

  The main result is that the parser inverts both printers up to the representation of non-negative
  signed integers, which are read back as unsigned ones.
\<close>

record JsonParseLimits =
  max_bytes :: nat
  max_depth :: nat
  max_string_bytes :: nat
  max_container_entries :: nat

definition default_parse_limits :: JsonParseLimits where
  "default_parse_limits =
     \<lparr>max_bytes = 4 * 1024 * 1024, max_depth = 64, max_string_bytes = 1024 * 1024, max_container_entries = 65536\<rparr>"

definition is_space :: "char \<Rightarrow> bool" where
  "is_space c = (c = CHR '' '' \<or> c = CHR 0x09 \<or> c = CHR 0x0A \<or> c = CHR 0x0D)"

definition skip_whitespace :: "string \<Rightarrow> string" where
  "skip_whitespace s = dropWhile is_space s"

definition literal :: "string \<Rightarrow> json \<Rightarrow> string \<Rightarrow> (json \<times> string) option" where
  "literal word result s = (if take (length word) s = word then Some (result, drop (length word) s) else None)"

section \<open>Strings\<close>

definition append_utf8 :: "u32 \<Rightarrow> string" where
  "append_utf8 code_point =
     (let byte = (\<lambda>w :: u32. char_of_byte (ucast w)) in
      if code_point \<le> 0x7F then [byte code_point]
      else if code_point \<le> 0x7FF then
        [byte (0xC0 OR drop_bit 6 code_point), byte (0x80 OR (code_point AND 0x3F))]
      else if code_point \<le> 0xFFFF then
        [byte (0xE0 OR drop_bit 12 code_point), byte (0x80 OR (drop_bit 6 code_point AND 0x3F)),
         byte (0x80 OR (code_point AND 0x3F))]
      else
        [byte (0xF0 OR drop_bit 18 code_point), byte (0x80 OR (drop_bit 12 code_point AND 0x3F)),
         byte (0x80 OR (drop_bit 6 code_point AND 0x3F)), byte (0x80 OR (code_point AND 0x3F))])"

definition hex_digit :: "char \<Rightarrow> u32 option" where
  "hex_digit c =
     (let n = of_char c :: nat in
      if 48 \<le> n \<and> n \<le> 57 then Some (of_nat (n - 48))
      else if 97 \<le> n \<and> n \<le> 102 then Some (of_nat (n - 97 + 10))
      else if 65 \<le> n \<and> n \<le> 70 then Some (of_nat (n - 65 + 10))
      else None)"

fun hex_value4 :: "u32 \<Rightarrow> string \<Rightarrow> u32 option" where
  "hex_value4 v [] = Some v"
| "hex_value4 v (c # cs) =
     (case hex_digit c of None \<Rightarrow> None | Some d \<Rightarrow> hex_value4 (push_bit 4 v OR d) cs)"

definition parse_hex4 :: "string \<Rightarrow> (u32 \<times> string) option" where
  "parse_hex4 s =
     (if length s < 4 then None
      else case hex_value4 0 (take 4 s) of None \<Rightarrow> None | Some v \<Rightarrow> Some (v, drop 4 s))"

text \<open>The rest of a \<^verbatim>\<open>\u\<close> escape: the bytes it stands for and the text after it.\<close>

definition parse_unicode :: "string \<Rightarrow> (string \<times> string) option" where
  "parse_unicode s =
     (case parse_hex4 s of
        None \<Rightarrow> None
      | Some (code, s1) \<Rightarrow>
          if 0xD800 \<le> code \<and> code \<le> 0xDBFF then
            (if take 2 s1 \<noteq> [CHR 0x5C, CHR ''u''] then None
             else case parse_hex4 (drop 2 s1) of
                    None \<Rightarrow> None
                  | Some (second, s2) \<Rightarrow>
                      if second < 0xDC00 \<or> second > 0xDFFF then None
                      else Some (append_utf8 (0x10000 + push_bit 10 (code - 0xD800) + (second - 0xDC00)), s2))
          else if 0xDC00 \<le> code \<and> code \<le> 0xDFFF then None
          else Some (append_utf8 code, s1))"

definition parse_escape :: "string \<Rightarrow> (string \<times> string) option" where
  "parse_escape s =
     (case s of
        [] \<Rightarrow> None
      | e # s' \<Rightarrow>
          if e = CHR 0x22 then Some ([CHR 0x22], s')
          else if e = CHR 0x5C then Some ([CHR 0x5C], s')
          else if e = CHR ''/'' then Some (''/'', s')
          else if e = CHR ''b'' then Some ([CHR 0x08], s')
          else if e = CHR ''f'' then Some ([CHR 0x0C], s')
          else if e = CHR ''n'' then Some ([CHR 0x0A], s')
          else if e = CHR ''r'' then Some ([CHR 0x0D], s')
          else if e = CHR ''t'' then Some ([CHR 0x09], s')
          else if e = CHR ''u'' then parse_unicode s'
          else None)"

text \<open>One character of a string, not the closing quote.\<close>

definition parse_char :: "string \<Rightarrow> (string \<times> string) option" where
  "parse_char s =
     (case s of
        [] \<Rightarrow> None
      | c # s' \<Rightarrow>
          if (of_char c :: nat) < 0x20 then None
          else if c \<noteq> CHR 0x5C then Some ([c], s')
          else parse_escape s')"

lemma parse_hex4_shorter: "parse_hex4 s = Some (v, r) \<Longrightarrow> length r < length s"
  by (auto simp: parse_hex4_def split: if_splits option.splits)

lemma parse_unicode_shorter: "parse_unicode s = Some (v, r) \<Longrightarrow> length r < length s"
  by (auto simp: parse_unicode_def split: if_splits option.splits dest!: parse_hex4_shorter)

lemma parse_char_shorter: "parse_char s = Some (v, r) \<Longrightarrow> length r < length s"
  by (auto simp: parse_char_def parse_escape_def split: if_splits list.splits dest!: parse_unicode_shorter)

function parse_string_loop :: "JsonParseLimits \<Rightarrow> string \<Rightarrow> string \<Rightarrow> (string \<times> string) option" where
  "parse_string_loop limits s out =
     (case s of
        [] \<Rightarrow> None
      | c # s' \<Rightarrow>
          if c = CHR 0x22 then Some (out, s')
          else case parse_char s of
                 None \<Rightarrow> None
               | Some (bytes, r) \<Rightarrow>
                   if length (out @ bytes) > max_string_bytes limits then None
                   else parse_string_loop limits r (out @ bytes))"
  by pat_completeness auto
termination
  by (relation "measure (\<lambda>(limits, s, out). length s)") (auto dest!: parse_char_shorter)

declare parse_string_loop.simps [simp del]

definition parse_string :: "JsonParseLimits \<Rightarrow> string \<Rightarrow> (string \<times> string) option" where
  "parse_string limits s = parse_string_loop limits (tl s) []"

section \<open>Numbers\<close>

text \<open>The number grammar: the rest of the text after the token, and whether the token is integral.\<close>

definition scan_integer :: "string \<Rightarrow> string option" where
  "scan_integer s =
     (let s1 = (case s of c # r \<Rightarrow> if c = CHR ''-'' then r else s | [] \<Rightarrow> s) in
      case s1 of
        [] \<Rightarrow> None
      | c # r \<Rightarrow>
          if \<not> is_digit c then None
          else if c = CHR ''0'' then
            (case r of d # _ \<Rightarrow> if is_digit d then None else Some r | [] \<Rightarrow> Some r)
          else Some (dropWhile is_digit s1))"

definition scan_digits :: "string \<Rightarrow> string option" where
  "scan_digits s =
     (case s of [] \<Rightarrow> None | c # _ \<Rightarrow> if is_digit c then Some (dropWhile is_digit s) else None)"

definition scan_fraction :: "string \<Rightarrow> (bool \<times> string) option" where
  "scan_fraction s =
     (case s of
        c # r \<Rightarrow> if c = CHR ''.'' then map_option (Pair True) (scan_digits r) else Some (False, s)
      | [] \<Rightarrow> Some (False, s))"

definition scan_exponent :: "string \<Rightarrow> (bool \<times> string) option" where
  "scan_exponent s =
     (case s of
        c # r \<Rightarrow>
          if c = CHR ''e'' \<or> c = CHR ''E'' then
            map_option (Pair True)
              (scan_digits (case r of d # r' \<Rightarrow> if d = CHR ''+'' \<or> d = CHR ''-'' then r' else r | [] \<Rightarrow> r))
          else Some (False, s)
      | [] \<Rightarrow> Some (False, s))"

definition scan_number :: "string \<Rightarrow> (bool \<times> string) option" where
  "scan_number s =
     (case scan_integer s of
        None \<Rightarrow> None
      | Some s1 \<Rightarrow>
          (case scan_fraction s1 of
             None \<Rightarrow> None
           | Some (frac, s2) \<Rightarrow>
               (case scan_exponent s2 of
                  None \<Rightarrow> None
                | Some (expo, s3) \<Rightarrow> Some (\<not> frac \<and> \<not> expo, s3))))"

text \<open>\<^verbatim>\<open>std::from_chars\<close> on a whole integral token.\<close>

definition integral_value :: "string \<Rightarrow> json option" where
  "integral_value token =
     (case token of
        c # digits \<Rightarrow>
          if c = CHR ''-'' then
            map_option (\<lambda>n. JInt (word_of_int (- int n))) (from_chars_all (2 ^ 63) digits)
          else map_option (\<lambda>n. JUInt (of_nat n)) (from_chars_all (2 ^ 64 - 1) token)
      | [] \<Rightarrow> None)"

definition parse_number :: "(string \<Rightarrow> u64 option) \<Rightarrow> string \<Rightarrow> (json \<times> string) option" where
  "parse_number strtod s =
     (case scan_number s of
        None \<Rightarrow> None
      | Some (integral, r) \<Rightarrow>
          (let token = take (length s - length r) s in
           case (if integral then integral_value token else None) of
             Some j \<Rightarrow> Some (j, r)
           | None \<Rightarrow> (case strtod token of None \<Rightarrow> None | Some w \<Rightarrow> Some (JDouble w, r))))"

section \<open>Containers and values\<close>

text \<open>The loops over the entries of a container, given the parser of one entry value.\<close>

fun parse_members ::
  "JsonParseLimits \<Rightarrow> (string \<Rightarrow> (json \<times> string) option) \<Rightarrow> nat \<Rightarrow> (string, json) omap \<Rightarrow> string \<Rightarrow>
     (json \<times> string) option" where
  "parse_members limits pv 0 m s = None"
| "parse_members limits pv (Suc fuel) m s =
     (let s0 = skip_whitespace s in
      if s0 = [] \<or> hd s0 \<noteq> CHR 0x22 then None
      else case parse_string limits s0 of
             None \<Rightarrow> None
           | Some (key, s1) \<Rightarrow>
               if length m \<ge> max_container_entries limits then None
               else if omap_find key m \<noteq> None then None
               else
                 let s2 = skip_whitespace s1 in
                 if s2 = [] \<or> hd s2 \<noteq> CHR '':'' then None
                 else case pv (skip_whitespace (tl s2)) of
                        None \<Rightarrow> None
                      | Some (v, s3) \<Rightarrow>
                          (case skip_whitespace s3 of
                             [] \<Rightarrow> None
                           | c # s4 \<Rightarrow>
                               if c = CHR '','' then parse_members limits pv fuel (omap_set key v m) s4
                               else if c = CHR ''}'' then Some (JObject (omap_set key v m), s4)
                               else None))"

definition parse_object ::
  "JsonParseLimits \<Rightarrow> (string \<Rightarrow> (json \<times> string) option) \<Rightarrow> string \<Rightarrow> (json \<times> string) option" where
  "parse_object limits pv s =
     (let s1 = skip_whitespace (tl s) in
      if s1 \<noteq> [] \<and> hd s1 = CHR ''}'' then Some (JObject [], tl s1)
      else parse_members limits pv (Suc (length s1)) [] s1)"

fun parse_elements ::
  "JsonParseLimits \<Rightarrow> (string \<Rightarrow> (json \<times> string) option) \<Rightarrow> nat \<Rightarrow> json list \<Rightarrow> string \<Rightarrow>
     (json \<times> string) option" where
  "parse_elements limits pv 0 xs s = None"
| "parse_elements limits pv (Suc fuel) xs s =
     (let s0 = skip_whitespace s in
      if length xs \<ge> max_container_entries limits then None
      else case pv s0 of
             None \<Rightarrow> None
           | Some (v, s1) \<Rightarrow>
               (case skip_whitespace s1 of
                  [] \<Rightarrow> None
                | c # s2 \<Rightarrow>
                    if c = CHR '','' then parse_elements limits pv fuel (xs @ [v]) s2
                    else if c = CHR '']'' then Some (JArray (xs @ [v]), s2)
                    else None))"

definition parse_array ::
  "JsonParseLimits \<Rightarrow> (string \<Rightarrow> (json \<times> string) option) \<Rightarrow> string \<Rightarrow> (json \<times> string) option" where
  "parse_array limits pv s =
     (let s1 = skip_whitespace (tl s) in
      if s1 \<noteq> [] \<and> hd s1 = CHR '']'' then Some (JArray [], tl s1)
      else parse_elements limits pv (Suc (length s1)) [] s1)"

text \<open>\<open>levels\<close> is \<^verbatim>\<open>max_depth + 1 - depth\<close>.\<close>

primrec parse_value ::
  "(string \<Rightarrow> u64 option) \<Rightarrow> JsonParseLimits \<Rightarrow> nat \<Rightarrow> string \<Rightarrow> (json \<times> string) option" where
  "parse_value strtod limits 0 s = None"
| "parse_value strtod limits (Suc levels) s =
     (case s of
        [] \<Rightarrow> None
      | c # _ \<Rightarrow>
          if c = CHR ''{'' then parse_object limits (parse_value strtod limits levels) s
          else if c = CHR ''['' then parse_array limits (parse_value strtod limits levels) s
          else if c = CHR 0x22 then map_option (map_prod JString id) (parse_string limits s)
          else if c = CHR ''t'' then literal ''true'' (JBool True) s
          else if c = CHR ''f'' then literal ''false'' (JBool False) s
          else if c = CHR ''n'' then literal ''null'' JNull s
          else parse_number strtod s)"

definition parser_run :: "(string \<Rightarrow> u64 option) \<Rightarrow> JsonParseLimits \<Rightarrow> string \<Rightarrow> json option" where
  "parser_run strtod limits text =
     (let s = skip_whitespace text in
      if s = [] then None
      else case parse_value strtod limits (Suc (max_depth limits)) s of
             None \<Rightarrow> None
           | Some (v, r) \<Rightarrow> if skip_whitespace r \<noteq> [] then None else Some v)"

definition parse_json :: "(string \<Rightarrow> u64 option) \<Rightarrow> JsonParseLimits \<Rightarrow> string \<Rightarrow> json option" where
  "parse_json strtod limits text =
     (if length text > max_bytes limits then None else parser_run strtod limits text)"

section \<open>Progress and fuel\<close>

definition consumes :: "(string \<Rightarrow> (json \<times> string) option) \<Rightarrow> bool" where
  "consumes pv = (\<forall>s v r. pv s = Some (v, r) \<longrightarrow> length r < length s)"

lemma consumesD: "consumes pv \<Longrightarrow> pv s = Some (v, r) \<Longrightarrow> length r < length s"
  by (simp add: consumes_def)

lemma length_skip_whitespace: "length (skip_whitespace s) \<le> length s"
  by (simp add: skip_whitespace_def length_dropWhile_le)

lemma skip_whitespace_ConsD: "skip_whitespace s = c # r \<Longrightarrow> length r < length s"
  using length_skip_whitespace [of s] by simp

lemma parse_string_loop_shorter: "parse_string_loop limits s out = Some (v, r) \<Longrightarrow> length r < length s"
proof (induction "length s" arbitrary: s out rule: less_induct)
  case less
  show ?case
  proof (cases s)
    case Nil
    with less.prems show ?thesis by (simp add: parse_string_loop.simps)
  next
    case (Cons c s')
    show ?thesis
    proof (cases "c = CHR 0x22")
      case True
      with less.prems Cons show ?thesis by (simp add: parse_string_loop.simps)
    next
      case False
      with less.prems Cons obtain bytes r' where h: "parse_char s = Some (bytes, r')"
          "parse_string_loop limits r' (out @ bytes) = Some (v, r)"
        by (subst (asm) parse_string_loop.simps) (auto split: if_splits option.splits)
      from less.hyps [OF parse_char_shorter [OF h(1)] h(2)] parse_char_shorter [OF h(1)] show ?thesis by simp
    qed
  qed
qed

lemma parse_string_shorter: "parse_string limits s = Some (v, r) \<Longrightarrow> length r < length s"
  unfolding parse_string_def by (cases s) (auto dest: parse_string_loop_shorter)

lemma parse_elements_consumes:
  assumes "consumes pv" "parse_elements limits pv fuel xs s = Some (v, r)"
  shows "length r < length s"
  using assms(2)
proof (induction fuel arbitrary: xs s)
  case (Suc fuel)
  from Suc.prems obtain x s1 c s2 where h: "pv (skip_whitespace s) = Some (x, s1)" "skip_whitespace s1 = c # s2"
    "(c = CHR '','' \<and> parse_elements limits pv fuel (xs @ [x]) s2 = Some (v, r)) \<or> r = s2"
    by (auto simp: Let_def split: if_splits option.splits list.splits)
  have "length s2 < length s"
    using consumesD [OF assms(1) h(1)] skip_whitespace_ConsD [OF h(2)] length_skip_whitespace [of s] by simp
  with h(3) Suc.IH [of "xs @ [x]" s2] show ?case by auto
qed simp

lemma parse_elements_fuel:
  assumes "consumes pv" "length s < fuel"
  shows "parse_elements limits pv (fuel + k) xs s = parse_elements limits pv fuel xs s"
  using assms(2)
proof (induction fuel arbitrary: xs s)
  case (Suc fuel)
  have "parse_elements limits pv (fuel + k) (xs @ [x]) s2 = parse_elements limits pv fuel (xs @ [x]) s2"
    if "pv (skip_whitespace s) = Some (x, s1)" "skip_whitespace s1 = c # s2" for x s1 c s2
    using Suc consumesD [OF assms(1) that(1)] skip_whitespace_ConsD [OF that(2)] length_skip_whitespace [of s] by simp
  then show ?case by (simp add: Let_def split: option.split list.split)
qed simp

lemma parse_members_consumes:
  assumes "consumes pv" "parse_members limits pv fuel m s = Some (v, r)"
  shows "length r < length s"
  using assms(2)
proof (induction fuel arbitrary: m s)
  case (Suc fuel)
  from Suc.prems obtain key s1 x s3 c s4 where h: "parse_string limits (skip_whitespace s) = Some (key, s1)"
    "pv (skip_whitespace (tl (skip_whitespace s1))) = Some (x, s3)" "skip_whitespace s3 = c # s4"
    "(c = CHR '','' \<and> parse_members limits pv fuel (omap_set key x m) s4 = Some (v, r)) \<or> r = s4"
    by (auto simp: Let_def split: if_splits option.splits list.splits)
  have "length s4 < length s"
    using parse_string_shorter [OF h(1)] consumesD [OF assms(1) h(2)] skip_whitespace_ConsD [OF h(3)]
      length_skip_whitespace [of s] length_skip_whitespace [of s1] length_skip_whitespace [of "tl (skip_whitespace s1)"]
    by simp
  with h(4) Suc.IH [of "omap_set key x m" s4] show ?case by auto
qed simp

lemma parse_members_fuel:
  assumes "consumes pv" "length s < fuel"
  shows "parse_members limits pv (fuel + k) m s = parse_members limits pv fuel m s"
  using assms(2)
proof (induction fuel arbitrary: m s)
  case (Suc fuel)
  have "parse_members limits pv (fuel + k) (omap_set key x m) s4 = parse_members limits pv fuel (omap_set key x m) s4"
    if "parse_string limits (skip_whitespace s) = Some (key, s1)"
      "pv (skip_whitespace (tl (skip_whitespace s1))) = Some (x, s3)" "skip_whitespace s3 = c # s4" for key s1 x s3 c s4
    using Suc parse_string_shorter [OF that(1)] consumesD [OF assms(1) that(2)] skip_whitespace_ConsD [OF that(3)]
      length_skip_whitespace [of s] length_skip_whitespace [of s1] length_skip_whitespace [of "tl (skip_whitespace s1)"]
    by simp
  then show ?case by (simp add: Let_def split: option.split list.split)
qed simp

lemma dropWhile_shorter: "s \<noteq> [] \<Longrightarrow> P (hd s) \<Longrightarrow> length (dropWhile P s) < length s"
  by (cases s) (simp_all add: length_dropWhile_le less_Suc_eq_le)

lemma scan_digits_shorter: "scan_digits s = Some r \<Longrightarrow> length r < length s"
  by (auto simp: scan_digits_def less_Suc_eq_le length_dropWhile_le split: list.splits if_splits)

lemma scan_integer_shorter: "scan_integer s = Some r \<Longrightarrow> length r < length s"
  by (auto simp: scan_integer_def Let_def less_Suc_eq_le length_dropWhile_le le_SucI split: list.splits if_splits)

lemma scan_number_shorter:
  assumes "scan_number s = Some (b, r)"
  shows "length r < length s"
proof -
  from assms obtain s1 f s2 e where h: "scan_integer s = Some s1" "scan_fraction s1 = Some (f, s2)" "scan_exponent s2 = Some (e, r)"
    by (fastforce simp: scan_number_def split: option.splits)
  have "length s2 \<le> length s1"
    using h(2) by (auto simp: scan_fraction_def split: list.splits if_splits dest!: scan_digits_shorter)
  moreover have "length r \<le> length s2"
    using h(3) by (auto simp: scan_exponent_def split: list.splits if_splits dest!: scan_digits_shorter)
  ultimately show ?thesis using scan_integer_shorter [OF h(1)] by simp
qed

lemma parse_number_consumes: "parse_number strtod s = Some (v, r) \<Longrightarrow> length r < length s"
  by (auto simp: parse_number_def Let_def split: option.splits if_splits dest!: scan_number_shorter)

lemma literal_consumes: "word \<noteq> [] \<Longrightarrow> literal word j s = Some (v, r) \<Longrightarrow> length r < length s"
  by (cases s) (auto simp: literal_def split: if_splits)

lemma parse_value_consumes: "consumes (parse_value strtod limits levels)"
proof (induction levels)
  case (Suc levels)
  show ?case unfolding consumes_def
  proof (intro allI impI)
    fix s v r assume a: "parse_value strtod limits (Suc levels) s = Some (v, r)"
    have ws: "length (skip_whitespace (tl s)) < length s" if "s \<noteq> []"
      using that length_skip_whitespace [of "tl s"] by (cases s) simp_all
    have "length r < length s" if "parse_object limits (parse_value strtod limits levels) s = Some (v, r)" "s \<noteq> []"
      using that ws
      by (fastforce simp: parse_object_def Let_def simp del: parse_members.simps split: if_splits
          dest: parse_members_consumes [OF Suc])
    moreover have "length r < length s" if "parse_array limits (parse_value strtod limits levels) s = Some (v, r)" "s \<noteq> []"
      using that ws
      by (fastforce simp: parse_array_def Let_def simp del: parse_elements.simps split: if_splits
          dest: parse_elements_consumes [OF Suc])
    ultimately show "length r < length s" using a
      by (auto split: list.splits if_splits dest!: parse_string_shorter parse_number_consumes
          literal_consumes [rotated])
  qed
qed (simp add: consumes_def)

section \<open>Reading back what the printers write\<close>

text \<open>A rest that cannot extend a number token, and a text that starts a value.\<close>

definition number_ends :: "string \<Rightarrow> bool" where
  "number_ends r = (r = [] \<or> \<not> is_digit (hd r) \<and> hd r \<notin> {CHR ''.'', CHR ''e'', CHR ''E''})"

definition value_start :: "string \<Rightarrow> bool" where
  "value_start t = (t \<noteq> [] \<and> \<not> is_space (hd t) \<and> hd t \<noteq> CHR '']'' \<and> hd t \<noteq> CHR ''}'')"

lemma number_endsD: "number_ends (c # r) \<Longrightarrow> \<not> is_digit c \<and> c \<noteq> CHR ''.'' \<and> c \<noteq> CHR ''e'' \<and> c \<noteq> CHR ''E''"
  by (simp add: number_ends_def)

lemma dropWhile_digits_append: "number_ends r \<Longrightarrow> dropWhile is_digit (t @ r) = dropWhile is_digit t @ r"
  by (cases r) (auto simp: dropWhile_append dest: number_endsD)

lemma scan_digits_append: "number_ends r \<Longrightarrow> scan_digits t = Some u \<Longrightarrow> scan_digits (t @ r) = Some (u @ r)"
  using dropWhile_digits_append [of r t] by (cases t) (auto simp: scan_digits_def split: if_splits)

lemma scan_integer_append: "number_ends r \<Longrightarrow> scan_integer t = Some u \<Longrightarrow> scan_integer (t @ r) = Some (u @ r)"
  by (cases r; cases t; cases "tl t")
    (auto simp: scan_integer_def Let_def dropWhile_append split: if_splits list.splits dest: number_endsD)

lemma scan_fraction_append:
  "number_ends r \<Longrightarrow> scan_fraction t = Some (f, u) \<Longrightarrow> scan_fraction (t @ r) = Some (f, u @ r)"
  by (cases t; cases r) (auto simp: scan_fraction_def scan_digits_append split: if_splits dest: number_endsD)

lemma scan_exponent_append:
  assumes "number_ends r" "scan_exponent t = Some (e, u)"
  shows "scan_exponent (t @ r) = Some (e, u @ r)"
proof (cases t)
  case Nil
  with assms show ?thesis by (cases r) (auto simp: scan_exponent_def dest: number_endsD)
next
  case (Cons c t')
  show ?thesis
  proof (cases t')
    case Nil
    with assms(2) Cons show ?thesis by (auto simp: scan_exponent_def scan_digits_def split: if_splits)
  next
    case (Cons d t'')
    with assms \<open>t = c # t'\<close> show ?thesis
      using scan_digits_append [OF assms(1), of "d # t''"] scan_digits_append [OF assms(1), of t'']
      by (auto simp: scan_exponent_def split: if_splits)
  qed
qed

lemma scan_number_append:
  assumes "number_ends r" "scan_number t = Some (b, u)"
  shows "scan_number (t @ r) = Some (b, u @ r)"
proof -
  from assms(2) obtain s1 f s2 e where h: "scan_integer t = Some s1" "scan_fraction s1 = Some (f, s2)"
      "scan_exponent s2 = Some (e, u)" "b = (\<not> f \<and> \<not> e)"
    by (fastforce simp: scan_number_def split: option.splits)
  then show ?thesis
    by (simp add: scan_number_def scan_integer_append [OF assms(1)] scan_fraction_append [OF assms(1)]
        scan_exponent_append [OF assms(1)])
qed

lemma scan_number_start: "scan_number t = Some x \<Longrightarrow> t \<noteq> [] \<and> (is_digit (hd t) \<or> hd t = CHR ''-'')"
  by (cases t) (auto simp: scan_number_def scan_integer_def Let_def split: option.splits if_splits list.splits)

lemma digit_not_special:
  "is_digit c \<or> c = CHR ''-'' \<Longrightarrow> c \<notin> {CHR ''{'', CHR ''['', CHR 0x22, CHR ''t'', CHR ''f'', CHR ''n'', CHR '']'', CHR ''}''} \<and> \<not> is_space c"
  by (auto simp: is_digit_def is_space_def)

lemma parse_value_number:
  assumes "scan_number t = Some (b, [])" "number_ends r"
  shows "parse_value strtod limits (Suc n) (t @ r) =
    (case (if b then integral_value t else None) of
       Some j \<Rightarrow> Some (j, r)
     | None \<Rightarrow> (case strtod t of None \<Rightarrow> None | Some w \<Rightarrow> Some (JDouble w, r)))" "value_start t"
proof -
  from scan_number_start [OF assms(1)] obtain c t' where t: "t = c # t'" "is_digit c \<or> c = CHR ''-''" by (cases t) auto
  show "value_start t" using digit_not_special [OF t(2)] t(1) by (simp add: value_start_def)
  have "parse_value strtod limits (Suc n) (t @ r) = parse_number strtod (t @ r)"
    using digit_not_special [OF t(2)] t(1) by simp
  moreover have "take (length (t @ r) - length r) (t @ r) = t" by simp
  ultimately show "parse_value strtod limits (Suc n) (t @ r) =
    (case (if b then integral_value t else None) of
       Some j \<Rightarrow> Some (j, r)
     | None \<Rightarrow> (case strtod t of None \<Rightarrow> None | Some w \<Rightarrow> Some (JDouble w, r)))"
    using scan_number_append [OF assms(2,1)] unfolding parse_number_def Let_def
    by (simp only: option.case prod.case append_Nil)
qed

lemma nat_to_string_hd: "n \<noteq> 0 \<Longrightarrow> hd (nat_to_string n) \<noteq> CHR ''0''"
proof (induction n rule: nat_to_string.induct)
  case (1 n)
  show ?case
  proof (cases "n < 10")
    case True
    have "digit_char n = CHR ''0'' \<Longrightarrow> n = 0" using digit_char_simps(2) [of n] True by (simp add: digit_value_def)
    with True "1.prems" show ?thesis by (auto simp: nat_to_string.simps [of n])
  next
    case False
    with 1 show ?thesis by (simp add: nat_to_string.simps [of n] dvd_div_eq_0_iff)
  qed
qed

lemma scan_decimal: "scan_number (nat_to_string n) = Some (True, [])" "scan_number (CHR ''-'' # nat_to_string n) = Some (True, [])"
proof -
  obtain c t where t: "nat_to_string n = c # t" by (cases "nat_to_string n") auto
  then have d: "is_digit c" "\<forall>x \<in> set (nat_to_string n). is_digit x" using nat_to_string_digits [of n] by auto
  then have m: "c \<noteq> CHR ''-''" by (auto simp: is_digit_def)
  have dw: "dropWhile is_digit (c # t) = []" using d t by (simp add: dropWhile_eq_Nil_conv)
  have z: "t = []" if "c = CHR ''0''"
    using that nat_to_string_hd [of n] t by (cases "n = 0") (auto simp: nat_to_string.simps [of 0])
  have i: "scan_integer (nat_to_string n) = Some []" "scan_integer (CHR ''-'' # nat_to_string n) = Some []"
    unfolding t using d m dw z by (auto simp: scan_integer_def)
  then show "scan_number (nat_to_string n) = Some (True, [])" "scan_number (CHR ''-'' # nat_to_string n) = Some (True, [])"
    by (simp_all add: scan_number_def scan_fraction_def scan_exponent_def)
qed

lemma integral_decimal:
  "n < 2 ^ 64 \<Longrightarrow> integral_value (nat_to_string n) = Some (JUInt (of_nat n))"
  "n \<le> 2 ^ 63 \<Longrightarrow> integral_value (CHR ''-'' # nat_to_string n) = Some (JInt (word_of_int (- int n)))"
proof -
  obtain c t where t: "nat_to_string n = c # t" by (cases "nat_to_string n") auto
  then have "c \<noteq> CHR ''-''" using nat_to_string_digits [of n] by (auto simp: is_digit_def)
  with t show "n < 2 ^ 64 \<Longrightarrow> integral_value (nat_to_string n) = Some (JUInt (of_nat n))"
    using from_chars_all_nat_to_string [of n "2 ^ 64 - 1"] by (simp add: integral_value_def)
  show "n \<le> 2 ^ 63 \<Longrightarrow> integral_value (CHR ''-'' # nat_to_string n) = Some (JInt (word_of_int (- int n)))"
    using from_chars_all_nat_to_string [of n "2 ^ 63"] by (simp add: integral_value_def)
qed

subsection \<open>Strings\<close>

lemma parse_hex4_append: "parse_hex4 s = Some (v, u) \<Longrightarrow> parse_hex4 (s @ r) = Some (v, u @ r)"
  by (auto simp: parse_hex4_def split: if_splits option.splits)

lemma parse_unicode_append:
  assumes "parse_unicode s = Some (v, u)"
  shows "parse_unicode (s @ r) = Some (v, u @ r)"
proof -
  from assms obtain code s1 where h: "parse_hex4 s = Some (code, s1)"
    by (auto simp: parse_unicode_def split: option.splits)
  have "length s1 \<ge> 2" if "take 2 s1 = [CHR 0x5C, CHR ''u'']"
    using arg_cong [OF that, of length] by simp
  with assms h parse_hex4_append [OF h, of r] show ?thesis
    by (auto simp: parse_unicode_def parse_hex4_append split: if_splits option.splits)
qed

lemma parse_char_append: "parse_char s = Some (v, u) \<Longrightarrow> parse_char (s @ r) = Some (v, u @ r)"
  by (auto simp: parse_char_def parse_escape_def parse_unicode_append split: if_splits list.splits)

lemma hex_digit_kHexDigits: "k < 16 \<Longrightarrow> hex_digit (kHexDigits ! k) = Some (of_nat k)"
proof -
  have "list_all (\<lambda>k. hex_digit (kHexDigits ! k) = Some (of_nat k)) [0..<16]"
    by (simp add: upt_rec kHexDigits_def hex_digit_def)
  then show "k < 16 \<Longrightarrow> ?thesis" by (simp add: list_all_iff)
qed

lemma hex_value4_control: "n < 32 \<Longrightarrow> hex_value4 0 [CHR ''0'', CHR ''0'', kHexDigits ! (n div 16), kHexDigits ! (n mod 16)] = Some (of_nat n)"
proof -
  assume n: "n < 32"
  have z: "hex_digit (CHR ''0'') = Some 0" by (simp add: hex_digit_def)
  have "hex_value4 0 [CHR ''0'', CHR ''0'', kHexDigits ! (n div 16), kHexDigits ! (n mod 16)] =
     Some (push_bit 4 (of_nat (n div 16)) OR of_nat (n mod 16))"
    using n by (simp add: z hex_digit_kHexDigits)
  also have "(push_bit 4 (of_nat (n div 16)) OR of_nat (n mod 16) :: u32) = of_nat n"
  proof -
    have "(of_nat (n mod 16) :: u32) = take_bit 4 (of_nat n)" 
      using of_nat_take_bit [of 4 n, where 'a = "32 word"] by (simp add: take_bit_eq_mod [of 4 n])
    moreover have "(of_nat (n div 16) :: u32) = drop_bit 4 (of_nat n)"
      using n by (simp add: word_unat_eq_iff unat_div unat_of_nat drop_bit_eq_div)
    ultimately show ?thesis by (simp only:) (rule bit_word_eqI, auto simp: bit_simps)
  qed
  finally show ?thesis .
qed

lemma escape_cases:
  "escape_char c = [c] \<and> 32 \<le> (of_char c :: nat) \<and> c \<noteq> CHR 0x22 \<and> c \<noteq> CHR 0x5C \<or>
   (\<exists>e. escape_char c = [CHR 0x5C, e] \<and> (\<forall>r. parse_escape (e # r) = Some ([c], r))) \<or>
   (of_char c :: nat) < 32 \<and>
     escape_char c = [CHR 0x5C, CHR ''u'', CHR ''0'', CHR ''0'', kHexDigits ! (of_char c div 16), kHexDigits ! (of_char c mod 16)]"
proof -
  have char: "c = d" if "(of_char c :: nat) = of_char d" for d using that by simp
  consider "c = CHR 0x22" | "c = CHR 0x5C" | "c = CHR 0x08" | "c = CHR 0x0C" | "c = CHR 0x0A" | "c = CHR 0x0D" | "c = CHR 0x09"
    | "c \<notin> {CHR 0x22, CHR 0x5C, CHR 0x08, CHR 0x0C, CHR 0x0A, CHR 0x0D, CHR 0x09}" by auto
  then show ?thesis
  proof cases
    case 8
    then have "(of_char c :: nat) \<notin> {0x22, 0x5C, 0x08, 0x0C, 0x0A, 0x0D, 0x09}"
      using char [of "CHR 0x22"] char [of "CHR 0x5C"] char [of "CHR 0x08"] char [of "CHR 0x0C"] char [of "CHR 0x0A"]
        char [of "CHR 0x0D"] char [of "CHR 0x09"] by auto
    with 8 show ?thesis by (simp add: escape_char_def Let_def)
  qed (simp_all add: escape_char_def parse_escape_def)
qed

lemma parse_escaped_char: "parse_char (escape_char c @ r) = Some ([c], r)"
  using escape_cases [of c]
proof (elim disjE exE conjE)
  let ?n = "of_char c :: nat"
  assume n: "?n < 32" and e: "escape_char c = [CHR 0x5C, CHR ''u'', CHR ''0'', CHR ''0'', kHexDigits ! (?n div 16), kHexDigits ! (?n mod 16)]"
  have "parse_hex4 ([CHR ''0'', CHR ''0'', kHexDigits ! (?n div 16), kHexDigits ! (?n mod 16)] @ r) = Some (of_nat ?n, r)"
    using hex_value4_control [OF n] by (simp add: parse_hex4_def)
  moreover have u: "unat (of_nat ?n :: u32) = ?n" using n by (simp add: unat_of_nat)
  then have "(of_nat ?n :: u32) \<le> 0x7F" "\<not> 0xD800 \<le> (of_nat ?n :: u32)" "\<not> 0xDC00 \<le> (of_nat ?n :: u32)"
    using n by (simp_all add: word_le_nat_alt)
  moreover have "char_of_byte (ucast (of_nat ?n :: u32)) = c"
    using n u by (simp add: char_of_byte_def unsigned_ucast_eq take_bit_eq_mod)
  ultimately show ?thesis
    by (simp add: e parse_char_def parse_escape_def parse_unicode_def append_utf8_def)
qed (simp_all add: parse_char_def)

lemma escape_char_start: "\<exists>d t. escape_char c = d # t \<and> d \<noteq> CHR 0x22"
  using escape_cases [of c] by auto

lemma parse_string_loop_escaped:
  assumes "length (out @ t) \<le> max_string_bytes limits"
  shows "parse_string_loop limits (concat (map escape_char t) @ CHR 0x22 # r) out = Some (out @ t, r)"
  using assms
proof (induction t arbitrary: out)
  case Nil
  then show ?case by (simp add: parse_string_loop.simps)
next
  case (Cons c t)
  let ?s = "concat (map escape_char t) @ CHR 0x22 # r"
  obtain d e where d: "escape_char c = d # e" "d \<noteq> CHR 0x22" using escape_char_start [of c] by blast
  have p: "parse_char (d # e @ ?s) = Some ([c], ?s)" using parse_escaped_char [of c ?s] unfolding d(1) by simp
  have "parse_string_loop limits (d # e @ ?s) out = parse_string_loop limits ?s (out @ [c])"
    using Cons.prems d(2) p by (subst parse_string_loop.simps) simp
  with Cons.IH [of "out @ [c]"] Cons.prems d(1) show ?case by simp
qed

lemma parse_string_escaped:
  "length t \<le> max_string_bytes limits \<Longrightarrow> parse_string limits (append_escaped t @ r) = Some (t, r)"
  using parse_string_loop_escaped [of "[]" t limits r] by (simp add: parse_string_def append_escaped_def)

lemma hd_append_escaped: "hd (append_escaped t @ r) = CHR 0x22" "append_escaped t \<noteq> []"
  by (simp_all add: append_escaped_def)

subsection \<open>Containers\<close>

definition spaces :: "string \<Rightarrow> bool" where
  "spaces w = list_all is_space w"

lemma skip_spaces: "spaces w \<Longrightarrow> skip_whitespace (w @ s) = skip_whitespace s"
  by (simp add: spaces_def skip_whitespace_def list_all_iff)

lemma skip_start: "t \<noteq> [] \<Longrightarrow> \<not> is_space (hd t) \<Longrightarrow> skip_whitespace t = t"
  by (cases t) (simp_all add: skip_whitespace_def)

lemma value_start_append: "value_start t \<Longrightarrow> value_start (t @ r)"
  by (cases t) (simp_all add: value_start_def)

lemma skip_value: "spaces w \<Longrightarrow> value_start t \<Longrightarrow> skip_whitespace (w @ t @ r) = t @ r"
  using value_start_append [of t r] by (simp add: skip_spaces skip_start value_start_def)

lemma skip_whitespace_idem: "skip_whitespace (skip_whitespace s) = skip_whitespace s"
  by (simp add: skip_whitespace_def)

lemma skip_punct: "c \<in> {CHR '','', CHR '']'', CHR ''}'', CHR '':''} \<Longrightarrow> spaces w \<Longrightarrow> skip_whitespace (w @ c # r) = c # r"
  by (subst skip_spaces) (auto simp: skip_whitespace_def is_space_def)

lemma parse_elements_skip: "parse_elements limits pv n xs (skip_whitespace s) = parse_elements limits pv n xs s"
  by (cases n) (simp_all add: skip_whitespace_idem)

lemma parse_members_skip: "parse_members limits pv n m (skip_whitespace s) = parse_members limits pv n m s"
  by (cases n) (simp_all add: skip_whitespace_idem)

lemma spaces_ends: "spaces w \<Longrightarrow> c \<in> {CHR '','', CHR '']'', CHR ''}''} \<Longrightarrow> number_ends (w @ c # r)"
  by (cases w) (auto simp: spaces_def number_ends_def is_space_def is_digit_def)

lemma join_comma_Cons: "xs \<noteq> [] \<Longrightarrow> join_comma (x # xs) = x @ '','' @ join_comma xs"
  by (cases xs) simp_all

lemma parse_elements_printed:
  assumes "\<And>x r. x \<in> set xs \<Longrightarrow> number_ends r \<Longrightarrow> pv (d x @ r) = Some (c x, r)"
    and "\<And>x. x \<in> set xs \<Longrightarrow> value_start (d x)" "spaces w" "spaces w'"
    and "xs \<noteq> []" "length acc + length xs \<le> max_container_entries limits" "length xs \<le> fuel"
  shows "parse_elements limits pv fuel acc (join_comma (map (\<lambda>x. w @ d x) xs) @ w' @ CHR '']'' # r) =
    Some (JArray (acc @ map c xs), r)"
  using assms
proof (induction xs arbitrary: acc fuel)
  case (Cons x xs)
  then obtain f where f: "fuel = Suc f" by (cases fuel) auto
  have s: "skip_whitespace (w @ d x @ u) = d x @ u" for u using Cons.prems by (intro skip_value) simp_all
  show ?case
  proof (cases "xs = []")
    case True
    have "pv (d x @ w' @ CHR '']'' # r) = Some (c x, w' @ CHR '']'' # r)"
      using Cons.prems spaces_ends by simp
    with True f Cons.prems s skip_punct [of "CHR '']''" w' r] show ?thesis by simp
  next
    case False
    let ?u = "join_comma (map (\<lambda>x. w @ d x) xs) @ w' @ CHR '']'' # r"
    have "pv (d x @ CHR '','' # ?u) = Some (c x, CHR '','' # ?u)"
      using Cons.prems spaces_ends [of "[]" "CHR '',''" ?u] by (simp add: spaces_def)
    moreover have "skip_whitespace (CHR '','' # ?u) = CHR '','' # ?u"
      using skip_punct [of "CHR '',''" "[]" ?u] by (simp add: spaces_def)
    ultimately show ?thesis
      using False f Cons.prems s [of "CHR '','' # ?u"] Cons.IH [of "acc @ [c x]" f]
      by (simp add: join_comma_Cons)
  qed
qed simp

lemma parse_members_printed:
  assumes "\<And>k v r. (k, v) \<in> set m \<Longrightarrow> number_ends r \<Longrightarrow> pv (d v @ r) = Some (c v, r)"
    and "\<And>k v. (k, v) \<in> set m \<Longrightarrow> value_start (d v)" "spaces w" "spaces w'" "spaces sp"
    and "\<And>k v. (k, v) \<in> set m \<Longrightarrow> length k \<le> max_string_bytes limits"
    and "m \<noteq> []" "length acc + length m \<le> max_container_entries limits" "length m \<le> fuel" "omap_wf (acc @ map (map_prod id c) m)"
  shows "parse_members limits pv fuel acc
      (join_comma (map (\<lambda>(k, v). w @ append_escaped k @ '':'' @ sp @ d v) m) @ w' @ CHR ''}'' # r) =
    Some (JObject (acc @ map (map_prod id c) m), r)"
  using assms
proof (induction m arbitrary: acc fuel)
  case (Cons e m)
  obtain k v where e: "e = (k, v)" by (cases e)
  from Cons.prems obtain f where f: "fuel = Suc f" by (cases fuel) auto
  have lt: "\<forall>x \<in> set (map fst acc). x < k" using Cons.prems(10) e by (auto simp: omap_wf_def sorted_wrt_append)
  then have set: "omap_set k (c v) acc = acc @ [(k, c v)]" by (rule omap_set_last)
  have new: "omap_find k acc = None" using lt by (force simp: omap_find_map_of map_of_eq_None_iff)
  have s: "skip_whitespace (w @ append_escaped k @ u) = append_escaped k @ u" for u
    using Cons.prems(3) skip_start [of "append_escaped k @ u"] hd_append_escaped(1) [of k u] hd_append_escaped(2) [of k]
    by (simp add: skip_spaces is_space_def)
  have key: "parse_string limits (append_escaped k @ u) = Some (k, u)" for u
    using Cons.prems(6) [of k v] e by (intro parse_string_escaped) simp
  have colon: "skip_whitespace (CHR '':'' # u) = CHR '':'' # u" for u
    using skip_punct [of "CHR '':''" "[]" u] by (simp add: spaces_def)
  have val: "skip_whitespace (sp @ d v @ u) = d v @ u" for u
    using Cons.prems(2) [of k v] Cons.prems(5) e by (intro skip_value) simp_all
  have pv: "pv (d v @ u) = Some (c v, u)" if "number_ends u" for u using Cons.prems(1) [of k v u] e that by simp
  note step = f e s key colon val new set hd_append_escaped
  show ?case
  proof (cases "m = []")
    case True
    have "pv (d v @ w' @ CHR ''}'' # r) = Some (c v, w' @ CHR ''}'' # r)"
      using Cons.prems(4) spaces_ends by (intro pv) simp
    with True Cons.prems skip_punct [of "CHR ''}''" w' r] show ?thesis by (simp add: step)
  next
    case False
    let ?u = "join_comma (map (\<lambda>(k, v). w @ append_escaped k @ '':'' @ sp @ d v) m) @ w' @ CHR ''}'' # r"
    have "pv (d v @ CHR '','' # ?u) = Some (c v, CHR '','' # ?u)"
      using spaces_ends [of "[]" "CHR '',''" ?u] by (intro pv) (simp add: spaces_def)
    moreover have "skip_whitespace (CHR '','' # ?u) = CHR '','' # ?u"
      using skip_punct [of "CHR '',''" "[]" ?u] by (simp add: spaces_def)
    moreover have "parse_members limits pv f (acc @ [(k, c v)]) ?u = Some (JObject ((acc @ [(k, c v)]) @ map (map_prod id c) m), r)"
    proof (rule Cons.IH)
      fix k' v' r' assume "(k', v') \<in> set m"
      then have i: "(k', v') \<in> set (e # m)" by simp
      show "value_start (d v')" "length k' \<le> max_string_bytes limits" using Cons.prems(2,6) [OF i] by auto
      show "number_ends r' \<Longrightarrow> pv (d v' @ r') = Some (c v', r')" using Cons.prems(1) [OF i] by simp
    qed (use False Cons.prems(3-5,8-10) f e in simp_all)
    ultimately show ?thesis
      using False Cons.prems(8) by (simp add: step join_comma_Cons id_def)
  qed
qed simp

subsection \<open>Values\<close>

text \<open>What a printed value reads back as: a non-negative signed integer is read as an unsigned one, and a
  double that is not finite was printed as \<^verbatim>\<open>null\<close>.\<close>

primrec json_canon :: "json \<Rightarrow> json" where
  "json_canon JNull = JNull"
| "json_canon (JBool b) = JBool b"
| "json_canon (JInt w) = (if sint w < 0 then JInt w else JUInt w)"
| "json_canon (JUInt w) = JUInt w"
| "json_canon (JDouble w) = (if is_finite_double w then JDouble w else JNull)"
| "json_canon (JString t) = JString t"
| "json_canon (JArray xs) = JArray (map json_canon xs)"
| "json_canon (JObject m) = JObject (map (map_prod id json_canon) m)"

text \<open>A value within the limits of the parser, with \<open>n\<close> levels left. The library functions for doubles
  are asked to agree on the doubles of the value only.\<close>

definition double_text_ok :: "(u64 \<Rightarrow> string) \<Rightarrow> (string \<Rightarrow> u64 option) \<Rightarrow> u64 \<Rightarrow> bool" where
  "double_text_ok dtoa strtod w =
     (is_finite_double w \<longrightarrow>
       scan_number (append_double dtoa w) = Some (False, []) \<and> strtod (append_double dtoa w) = Some w)"

primrec json_fits :: "(u64 \<Rightarrow> string) \<Rightarrow> (string \<Rightarrow> u64 option) \<Rightarrow> JsonParseLimits \<Rightarrow> json \<Rightarrow> nat \<Rightarrow> bool" where
  "json_fits dtoa strtod limits JNull n = (n > 0)"
| "json_fits dtoa strtod limits (JBool b) n = (n > 0)"
| "json_fits dtoa strtod limits (JInt w) n = (n > 0)"
| "json_fits dtoa strtod limits (JUInt w) n = (n > 0)"
| "json_fits dtoa strtod limits (JDouble w) n = (n > 0 \<and> double_text_ok dtoa strtod w)"
| "json_fits dtoa strtod limits (JString t) n = (n > 0 \<and> length t \<le> max_string_bytes limits)"
| "json_fits dtoa strtod limits (JArray xs) n =
     (n > 0 \<and> length xs \<le> max_container_entries limits \<and>
      list_all (\<lambda>fits. fits (n - 1)) (map (json_fits dtoa strtod limits) xs))"
| "json_fits dtoa strtod limits (JObject m) n =
     (n > 0 \<and> length m \<le> max_container_entries limits \<and> omap_wf m \<and>
      list_all (\<lambda>(k, fits). length k \<le> max_string_bytes limits \<and> fits (n - 1))
        (map (map_prod id (json_fits dtoa strtod limits)) m))"

lemma spaces_newline_pad: "spaces (newline_pad pretty indent)"
  by (auto simp: spaces_def newline_pad_def pad_def is_space_def list_all_iff)

lemma parse_printed_int:
  assumes "number_ends r"
  shows "parse_value strtod limits (Suc n) (append_i64 w @ r) = Some (json_canon (JInt w), r)" "value_start (append_i64 w)"
proof -
  have s: "- (2 ^ 63) \<le> sint w" "sint w < 2 ^ 63" using sint_range_size [of w] by (simp_all add: word_size)
  have "parse_value strtod limits (Suc n) (append_i64 w @ r) = Some (json_canon (JInt w), r) \<and> value_start (append_i64 w)"
  proof (cases "sint w < 0")
    case True
    then have m: "nat (- sint w) \<le> 2 ^ 63" using s by (simp add: nat_le_iff)
    have "word_of_int (- int (nat (- sint w))) = w" using True by simp
    with True parse_value_number(1) [OF scan_decimal(2) assms, of strtod limits n "nat (- sint w)"]
      parse_value_number(2) [OF scan_decimal(2) assms, of "nat (- sint w)"] integral_decimal(2) [OF m]
    show ?thesis by (simp add: append_i64_def)
  next
    case False
    then have m: "nat (sint w) < 2 ^ 64" using s by (simp add: nat_less_iff)
    have "of_nat (nat (sint w)) = w" using False by (simp add: of_nat_nat)
    with False parse_value_number(1) [OF scan_decimal(1) assms, of strtod limits n "nat (sint w)"]
      parse_value_number(2) [OF scan_decimal(1) assms, of "nat (sint w)"] integral_decimal(1) [OF m]
    show ?thesis by (simp add: append_i64_def)
  qed
  then show "parse_value strtod limits (Suc n) (append_i64 w @ r) = Some (json_canon (JInt w), r)" "value_start (append_i64 w)"
    by simp_all
qed

lemma parse_printed_uint:
  assumes "number_ends r"
  shows "parse_value strtod limits (Suc n) (append_u64 w @ r) = Some (JUInt w, r)" "value_start (append_u64 w)"
proof -
  have m: "unat w < 2 ^ 64" using unsigned_less [of w] by simp
  from parse_value_number(1) [OF scan_decimal(1) assms, of strtod limits n "unat w"]
    parse_value_number(2) [OF scan_decimal(1) assms, of "unat w"] integral_decimal(1) [OF m]
  show "parse_value strtod limits (Suc n) (append_u64 w @ r) = Some (JUInt w, r)" "value_start (append_u64 w)"
    by (simp_all add: append_u64_def)
qed

lemma parse_printed_null: "parse_value strtod limits (Suc n) (''null'' @ r) = Some (JNull, r)"
  by (simp add: literal_def)

lemma parse_printed_double:
  assumes "number_ends r" "double_text_ok dtoa strtod w"
  shows "parse_value strtod limits (Suc n) (append_double dtoa w @ r) = Some (json_canon (JDouble w), r) \<and>
    value_start (append_double dtoa w)"
proof (cases "is_finite_double w")
  case True
  with assms(2) have "scan_number (append_double dtoa w) = Some (False, [])" "strtod (append_double dtoa w) = Some w"
    by (simp_all add: double_text_ok_def)
  with True parse_value_number(1) [OF this(1) assms(1), of strtod limits n] parse_value_number(2) [OF this(1) assms(1)] show ?thesis by simp
next
  case False
  then have "append_double dtoa w = ''null''" by (simp add: append_double_def)
  with False parse_printed_null [of strtod limits n r] show ?thesis
    by (simp add: value_start_def is_space_def del: parse_value.simps)
qed

lemma value_start_container: "value_start (CHR ''['' # t)" "value_start (CHR ''{'' # t)"
  by (simp_all add: value_start_def is_space_def)

lemma dump_value_start:
  assumes "json_fits dtoa strtod limits j n"
  shows "value_start (dump_value dtoa pretty indent j)"
proof -
  have e: "number_ends []" by (simp add: number_ends_def)
  have "value_start (append_double dtoa w)" if "double_text_ok dtoa strtod w" for w
    using parse_printed_double [OF e that] by blast
  then show ?thesis
    using assms
    by (cases j)
      (simp_all add: parse_printed_int(2) [OF e] parse_printed_uint(2) [OF e] value_start_container,
       simp_all add: value_start_def is_space_def append_escaped_def)
qed

lemma parse_printed_array:
  assumes "\<And>x r. x \<in> set xs \<Longrightarrow> number_ends r \<Longrightarrow> pv (d x @ r) = Some (c x, r)"
    and "\<And>x. x \<in> set xs \<Longrightarrow> value_start (d x)" "spaces w" "spaces w'"
    and "xs \<noteq> []" "length xs \<le> max_container_entries limits" "consumes pv"
  shows "parse_array limits pv (CHR ''['' # join_comma (map (\<lambda>x. w @ d x) xs) @ w' @ CHR '']'' # r) =
    Some (JArray (map c xs), r)"
proof -
  let ?t = "join_comma (map (\<lambda>x. w @ d x) xs) @ w' @ CHR '']'' # r"
  obtain x ys where xs: "xs = x # ys" using assms(5) by (cases xs) auto
  have vs: "value_start (d x)" using assms(2) xs by simp
  have "\<exists>u. ?t = w @ d x @ u" unfolding xs by (cases ys) simp_all
  then obtain u where "?t = w @ d x @ u" by blast
  then have s: "skip_whitespace ?t = d x @ u" using skip_value [OF assms(3) vs] by simp
  then have h: "\<not> (skip_whitespace ?t \<noteq> [] \<and> hd (skip_whitespace ?t) = CHR '']'')"
    using value_start_append [OF vs, of u] by (simp add: value_start_def)
  have "parse_elements limits pv (Suc (length (skip_whitespace ?t)) + length xs) [] ?t = Some (JArray ([] @ map c xs), r)"
    using assms by (intro parse_elements_printed) simp_all
  then have "parse_elements limits pv (Suc (length (skip_whitespace ?t))) [] (skip_whitespace ?t) = Some (JArray (map c xs), r)"
    using parse_elements_fuel [OF assms(7), of "skip_whitespace ?t" "Suc (length (skip_whitespace ?t))" limits "length xs" "[]"]
    by (simp only: parse_elements_skip append_Nil lessI)
  with h show ?thesis unfolding parse_array_def Let_def list.sel by (simp only: if_False)
qed

lemma parse_printed_object:
  assumes "\<And>k v r. (k, v) \<in> set m \<Longrightarrow> number_ends r \<Longrightarrow> pv (d v @ r) = Some (c v, r)"
    and "\<And>k v. (k, v) \<in> set m \<Longrightarrow> value_start (d v)" "spaces w" "spaces w'" "spaces sp"
    and "\<And>k v. (k, v) \<in> set m \<Longrightarrow> length k \<le> max_string_bytes limits"
    and "m \<noteq> []" "length m \<le> max_container_entries limits" "omap_wf m" "consumes pv"
  shows "parse_object limits pv
      (CHR ''{'' # join_comma (map (\<lambda>(k, v). w @ append_escaped k @ '':'' @ sp @ d v) m) @ w' @ CHR ''}'' # r) =
    Some (JObject (map (map_prod id c) m), r)"
proof -
  let ?t = "join_comma (map (\<lambda>(k, v). w @ append_escaped k @ '':'' @ sp @ d v) m) @ w' @ CHR ''}'' # r"
  obtain k v ys where m: "m = (k, v) # ys" using assms(7) by (cases m) auto
  have "\<exists>u. ?t = w @ append_escaped k @ u" unfolding m by (cases ys) simp_all
  then obtain u where "?t = w @ append_escaped k @ u" by blast
  then have s: "skip_whitespace ?t = append_escaped k @ u"
    using skip_start [of "append_escaped k @ u"] hd_append_escaped(1) [of k u] hd_append_escaped(2) [of k] assms(3)
    by (simp add: skip_spaces is_space_def)
  have h: "\<not> (skip_whitespace ?t \<noteq> [] \<and> hd (skip_whitespace ?t) = CHR ''}'')"
    unfolding s using hd_append_escaped(1) [of k u] by simp
  have "map fst (map (map_prod id c) m) = map fst m" by (simp add: comp_def)
  then have "omap_wf ([] @ map (map_prod id c) m)" using assms(9) by (simp only: omap_wf_def append_Nil)
  then have "parse_members limits pv (Suc (length (skip_whitespace ?t)) + length m) [] ?t =
      Some (JObject ([] @ map (map_prod id c) m), r)"
    using assms(1-8) by (intro parse_members_printed) (auto; fail)+
  then have "parse_members limits pv (Suc (length (skip_whitespace ?t))) [] (skip_whitespace ?t) =
      Some (JObject (map (map_prod id c) m), r)"
    using parse_members_fuel [OF assms(10), of "skip_whitespace ?t" "Suc (length (skip_whitespace ?t))" limits "length m" "[]"]
    by (simp only: parse_members_skip append_Nil lessI)
  with h show ?thesis unfolding parse_object_def Let_def list.sel by (simp only: if_False)
qed

lemma parse_printed_value:
  assumes "json_fits dtoa strtod limits j n" "number_ends r"
  shows "parse_value strtod limits n (dump_value dtoa pretty indent j @ r) = Some (json_canon j, r)"
  using assms
proof (induction j arbitrary: n indent r)
  case (JInt w)
  then show ?case using parse_printed_int(1) [of r strtod limits "n - 1" w] by (cases n) (simp_all del: parse_value.simps)
next
  case (JUInt w)
  then show ?case using parse_printed_uint(1) [of r strtod limits "n - 1" w] by (cases n) (simp_all del: parse_value.simps)
next
  case (JDouble w)
  then show ?case using parse_printed_double [of r dtoa strtod w limits "n - 1"] by (cases n) (simp_all del: parse_value.simps)
next
  case (JString t)
  then show ?case using parse_string_escaped [of t limits r]
    by (cases n) (simp_all add: append_escaped_def)
next
  case (JArray xs)
  let ?d = "dump_value dtoa pretty (indent + 1)" and ?w = "newline_pad pretty (indent + 1)"
  obtain n' where n: "n = Suc n'" using JArray.prems by (cases n) auto
  have fit: "json_fits dtoa strtod limits x n'" if "x \<in> set xs" for x
    using JArray.prems that n by (simp add: list_all_iff)
  show ?case
  proof (cases "xs = []")
    case True
    then show ?thesis using n by (simp add: parse_array_def skip_whitespace_def is_space_def)
  next
    case False
    have "parse_array limits (parse_value strtod limits n')
        (CHR ''['' # join_comma (map (\<lambda>x. ?w @ ?d x) xs) @ newline_pad pretty indent @ CHR '']'' # r) =
      Some (JArray (map json_canon xs), r)"
      using JArray fit False n dump_value_start [OF fit]
      by (intro parse_printed_array) (simp_all add: spaces_newline_pad parse_value_consumes)
    with False n show ?thesis by simp
  qed
next
  case (JObject m)
  let ?d = "dump_value dtoa pretty (indent + 1)" and ?w = "newline_pad pretty (indent + 1)"
    and ?sp = "if pretty then '' '' else []"
  obtain n' where n: "n = Suc n'" using JObject.prems by (cases n) auto
  have fit: "json_fits dtoa strtod limits v n' \<and> length k \<le> max_string_bytes limits" if "(k, v) \<in> set m" for k v
    using JObject.prems that n by (auto simp: list_all_iff)
  have ih: "parse_value strtod limits n' (?d v @ u) = Some (json_canon v, u)" if "(k, v) \<in> set m" "number_ends u" for k v u
    using JObject.IH [of "(k, v)" v] that fit [of k v] by (simp add: snds.simps)
  show ?case
  proof (cases "m = []")
    case True
    then show ?thesis using n by (simp add: parse_object_def skip_whitespace_def is_space_def)
  next
    case False
    have "parse_object limits (parse_value strtod limits n')
        (CHR ''{'' # join_comma (map (\<lambda>(k, v). ?w @ append_escaped k @ '':'' @ ?sp @ ?d v) m) @ newline_pad pretty indent @ CHR ''}'' # r) =
      Some (JObject (map (map_prod id json_canon) m), r)"
    proof (rule parse_printed_object)
      fix k v u assume i: "(k, v) \<in> set m"
      show "value_start (?d v)" "length k \<le> max_string_bytes limits"
        using fit [OF i] dump_value_start by blast+
      show "number_ends u \<Longrightarrow> parse_value strtod limits n' (?d v @ u) = Some (json_canon v, u)" using ih [OF i] .
    qed (use False JObject.prems n in \<open>simp_all add: spaces_newline_pad [unfolded spaces_def] parse_value_consumes spaces_def is_space_def\<close>)
    with False n show ?thesis by simp
  qed
next
  case JNull
  then show ?case by (cases n) (simp_all add: literal_def)
next
  case (JBool b)
  then show ?case by (cases n; cases b) (simp_all add: literal_def)
qed

lemma dump_canon: "dump_value dtoa pretty indent (json_canon j) = dump_value dtoa pretty indent j"
proof (induction j arbitrary: indent)
  case (JInt w)
  have "unat w = nat (sint w)" if "\<not> sint w < 0"
    using that sint_range_size [of w] by (simp add: unat_eq_nat_uint uint_sint take_bit_int_eq_self word_size)
  then show ?case by (simp add: append_i64_def append_u64_def)
next
  case (JDouble w)
  then show ?case by (simp add: append_double_def)
next
  case (JArray xs)
  then show ?case by (simp cong: map_cong)
next
  case (JObject m)
  have "map (\<lambda>(k, v). newline_pad pretty (indent + 1) @ append_escaped k @ '':'' @ (if pretty then '' '' else []) @
        dump_value dtoa pretty (indent + 1) v) (map (map_prod id json_canon) m) =
      map (\<lambda>(k, v). newline_pad pretty (indent + 1) @ append_escaped k @ '':'' @ (if pretty then '' '' else []) @
        dump_value dtoa pretty (indent + 1) v) m"
    using JObject by (auto simp: snds.simps)
  then show ?case by (simp only: json_canon.simps dump_value.simps map_is_Nil_conv)
qed simp_all

lemma parse_printed:
  assumes "json_fits dtoa strtod limits j (Suc (max_depth limits))"
    and "text \<in> {dump dtoa j, dump_pretty dtoa j}" "length text \<le> max_bytes limits"
  shows "parse_json strtod limits text = Some (json_canon j) \<and> dump dtoa (json_canon j) = dump dtoa j"
proof -
  from assms(2) obtain pretty where t: "text = dump_value dtoa pretty 0 j" by (auto simp: dump_def dump_pretty_def)
  have vs: "value_start text" using dump_value_start [OF assms(1)] t by simp
  have "skip_whitespace text = text" using vs by (intro skip_start) (simp_all add: value_start_def)
  moreover have "parse_value strtod limits (Suc (max_depth limits)) (text @ []) = Some (json_canon j, [])"
    unfolding t by (rule parse_printed_value [OF assms(1)]) (simp add: number_ends_def)
  moreover have "skip_whitespace [] = []" by (simp add: skip_whitespace_def)
  ultimately have "parse_json strtod limits text = Some (json_canon j)"
    using assms(3) vs by (simp add: parse_json_def parser_run_def value_start_def del: parse_value.simps)
  then show ?thesis by (simp add: dump_def dump_canon)
qed

text \<open>C35: The parser inverts the printers. A value within the limits of the parser, printed compactly or
  prettily into a text within the byte limit, is accepted and reads back as the same value, except that
  a non-negative signed integer becomes unsigned and a double that is not finite becomes null; that
  value prints to the same text. (The library conversions of doubles are assumed to agree on the
  doubles that occur in the value.)\<close>

theorem parse_inverts_print:
  assumes "json_fits dtoa strtod limits j (Suc (max_depth limits))"
    and "text \<in> {dump dtoa j, dump_pretty dtoa j}" "length text \<le> max_bytes limits"
  shows "parse_json strtod limits text = Some (json_canon j) \<and> dump dtoa (json_canon j) = dump dtoa j"
  using assms by (rule parse_printed)

text \<open>More fuel than the entry loops of objects and arrays are given (one more than the length of the text)
  changes nothing, at every nesting level and from every position.\<close>

lemma parser_fuel_suffices:
  "parse_members limits (parse_value strtod limits levels) (Suc (length s) + k) m s =
     parse_members limits (parse_value strtod limits levels) (Suc (length s)) m s \<and>
   parse_elements limits (parse_value strtod limits levels) (Suc (length s) + k) xs s =
     parse_elements limits (parse_value strtod limits levels) (Suc (length s)) xs s"
  using parse_members_fuel [OF parse_value_consumes, of s "Suc (length s)" limits strtod limits levels k m]
    parse_elements_fuel [OF parse_value_consumes, of s "Suc (length s)" limits strtod limits levels k xs]
  by (simp del: parse_members.simps parse_elements.simps)

section \<open>Witness\<close>

definition ex_json :: json where
  "ex_json = JObject [(''a'', JArray [JInt 5, JInt (- 7), JNull]), (''b'', JString [CHR 0x22, CHR 0x01]), (''c'', JDouble 0x3FF8000000000000)]"

definition ex_dtoa :: "u64 \<Rightarrow> string" where
  "ex_dtoa w = ''1.5''"

definition ex_strtod :: "string \<Rightarrow> u64 option" where
  "ex_strtod t = (if t = ''1.5'' then Some 0x3FF8000000000000 else None)"

definition ex_parse_limits :: JsonParseLimits where
  "ex_parse_limits = \<lparr>max_bytes = 200, max_depth = 2, max_string_bytes = 8, max_container_entries = 4\<rparr>"

theorem parse_inverts_print_witness:
  "parse_json ex_strtod ex_parse_limits (dump_pretty ex_dtoa ex_json) = Some (json_canon ex_json)"
proof -
  have "double_text_ok ex_dtoa ex_strtod 0x3FF8000000000000" by code_simp
  then have "json_fits ex_dtoa ex_strtod ex_parse_limits ex_json (Suc (max_depth ex_parse_limits))"
    by (simp add: ex_json_def ex_parse_limits_def omap_wf_def)
  moreover have "length (dump_pretty ex_dtoa ex_json) \<le> max_bytes ex_parse_limits" by code_simp
  ultimately show ?thesis using parse_inverts_print [of ex_dtoa ex_strtod ex_parse_limits ex_json] by blast
qed

end
