(* ===== verification/Compatibility.thy ===== *)
theory Compatibility
  imports Record_Fields Json_Parse
begin

text \<open>
  Consumed compatibility decisions: \<^verbatim>\<open>include/fabric/evolution/compatibility.hpp\<close> and
  \<^verbatim>\<open>src/compatibility.cpp\<close>. The decision with its evidence digest and codec, the in-memory and the
  JSON registry (which share their lookup), and the check of declared evidence against the registry.
  The registry a deployment supplies is the interface \<open>compatibility_source\<close>; both shipped registries
  are instances of it. Opening the registry file is not modelled.
\<close>

datatype CompatibilityVerdict = VerdictUnsupported | SupportedWithConstraints | Supported

fun verdict_name :: "CompatibilityVerdict \<Rightarrow> string" where
  "verdict_name VerdictUnsupported = ''unsupported''"
| "verdict_name SupportedWithConstraints = ''supported_with_constraints''"
| "verdict_name Supported = ''supported''"

definition compatibility_verdict_from :: "string \<Rightarrow> CompatibilityVerdict option" where
  "compatibility_verdict_from text =
     (if text = ''unsupported'' then Some VerdictUnsupported
      else if text = ''supported_with_constraints'' then Some SupportedWithConstraints
      else if text = ''supported'' then Some Supported
      else None)"

record CompatibilityConstraint =
  cc_name :: string
  cc_value :: string

record CompatibilityDecision =
  cd_decision_id :: string
  cd_registry :: string
  cd_subject :: ComponentId
  cd_source :: SoftwareVersion
  cd_target :: SoftwareVersion
  cd_source_protocol :: ProtocolVersion
  cd_target_protocol :: ProtocolVersion
  cd_source_schema :: SchemaVersion
  cd_target_schema :: SchemaVersion
  cd_verdict :: CompatibilityVerdict
  cd_rollback_permitted :: bool
  cd_max_mixed_version_operations :: u64
  cd_max_mixed_version_ms :: u64
  cd_certified_features :: FeatureSet
  cd_constraints :: "CompatibilityConstraint list"
  cd_decided_at :: EpochNumber
  cd_evidence_digest :: Digest

definition constraint_to_json :: "CompatibilityConstraint \<Rightarrow> json" where
  "constraint_to_json c = json_set (json_set (JObject []) ''name'' (JString (cc_name c))) ''value'' (JString (cc_value c))"

definition constraint_array :: "CompatibilityConstraint list \<Rightarrow> json" where
  "constraint_array cs = JArray (map constraint_to_json cs)"

text \<open>Every field except the evidence digest, in the order \<^verbatim>\<open>compute_digest\<close> and \<^verbatim>\<open>to_json\<close> set them.\<close>

definition decision_body :: "CompatibilityDecision \<Rightarrow> json" where
  "decision_body d =
     json_set (json_set (json_set (json_set (json_set (json_set (json_set (json_set
     (json_set (json_set (json_set (json_set (json_set (json_set (json_set (json_set (JObject [])
       ''decision_id'' (JString (cd_decision_id d)))
       ''registry'' (JString (cd_registry d)))
       ''subject'' (JString (cd_subject d)))
       ''source'' (JString (software_version_to_string (cd_source d))))
       ''target'' (JString (software_version_to_string (cd_target d))))
       ''source_protocol'' (JString (protocol_version_to_string (cd_source_protocol d))))
       ''target_protocol'' (JString (protocol_version_to_string (cd_target_protocol d))))
       ''source_schema'' (JUInt (ucast (cd_source_schema d))))
       ''target_schema'' (JUInt (ucast (cd_target_schema d))))
       ''verdict'' (JString (verdict_name (cd_verdict d))))
       ''rollback_permitted'' (JBool (cd_rollback_permitted d)))
       ''max_mixed_version_operations'' (JUInt (cd_max_mixed_version_operations d)))
       ''max_mixed_version_ms'' (JUInt (cd_max_mixed_version_ms d)))
       ''certified_features'' (feature_array (cd_certified_features d)))
       ''constraints'' (constraint_array (cd_constraints d)))
       ''decided_at'' (JUInt (cd_decided_at d))"

definition decision_digest :: "(u64 \<Rightarrow> string) \<Rightarrow> CompatibilityDecision \<Rightarrow> Digest" where
  "decision_digest dtoa d = text_digest (dump dtoa (decision_body d))"

definition decision_seal :: "(u64 \<Rightarrow> string) \<Rightarrow> CompatibilityDecision \<Rightarrow> CompatibilityDecision" where
  "decision_seal dtoa d = d\<lparr>cd_evidence_digest := decision_digest dtoa d\<rparr>"

definition decision_verify :: "(u64 \<Rightarrow> string) \<Rightarrow> CompatibilityDecision \<Rightarrow> Status" where
  "decision_verify dtoa d = (if decision_digest dtoa d \<noteq> cd_evidence_digest d then IntegrityFailure else Ok)"

definition decision_to_json :: "CompatibilityDecision \<Rightarrow> json" where
  "decision_to_json d = json_set (decision_body d) ''evidence_digest'' (JString (to_hex (cd_evidence_digest d)))"

definition constraint_from_json :: "json \<Rightarrow> CompatibilityConstraint Result" where
  "constraint_from_json j =
     rbind (require (json_string j ''name'') Malformed) (\<lambda>n.
     rbind (require (json_string j ''value'') Malformed) (\<lambda>v.
     Inr \<lparr>cc_name = n, cc_value = v\<rparr>))"

definition require_u64 :: "json \<Rightarrow> string \<Rightarrow> u64 Result" where
  "require_u64 j key = require (json_u64 j key) Malformed"

text \<open>The last step of the decoder: a recorded digest must verify, an absent one is computed.\<close>

definition check_evidence_digest :: "(u64 \<Rightarrow> string) \<Rightarrow> json \<Rightarrow> CompatibilityDecision \<Rightarrow> CompatibilityDecision Result" where
  "check_evidence_digest dtoa j d =
     (case json_string j ''evidence_digest'' of
        Some text \<Rightarrow>
          rbind (require (digest_from_hex text) Malformed) (\<lambda>g.
          let d' = d\<lparr>cd_evidence_digest := g\<rparr> in
          if decision_verify dtoa d' \<noteq> Ok then Inl (decision_verify dtoa d') else Inr d')
      | None \<Rightarrow> Inr (decision_seal dtoa d))"

definition compatibility_decision_from_json :: "(u64 \<Rightarrow> string) \<Rightarrow> json \<Rightarrow> CompatibilityDecision Result" where
  "compatibility_decision_from_json dtoa j =
     rbind (guard (is_object j) Malformed) (\<lambda>_.
     rbind (require (json_string j ''decision_id'') Malformed) (\<lambda>i.
     rbind (guard (i \<noteq> []) Malformed) (\<lambda>_.
     rbind (name_field j ''subject'') (\<lambda>s.
     rbind (software_field j ''source'') (\<lambda>vs.
     rbind (software_field j ''target'') (\<lambda>vt.
     rbind (protocol_field j ''source_protocol'') (\<lambda>ps.
     rbind (protocol_field j ''target_protocol'') (\<lambda>pt.
     rbind (schema_version_field j ''source_schema'') (\<lambda>ss.
     rbind (schema_version_field j ''target_schema'') (\<lambda>st.
     rbind (require (json_string j ''verdict'') Malformed) (\<lambda>verdict_text.
     rbind (require (compatibility_verdict_from verdict_text) Malformed) (\<lambda>v.
     rbind (require_u64 j ''max_mixed_version_operations'') (\<lambda>ops.
     rbind (require_u64 j ''max_mixed_version_ms'') (\<lambda>ms.
     rbind (optional_features j ''certified_features'') (\<lambda>f.
     rbind (optional_elements j ''constraints'' constraint_from_json) (\<lambda>cs.
     check_evidence_digest dtoa j
       \<lparr>cd_decision_id = i, cd_registry = json_string_or j ''registry'' ''fabric-compatibility-registry'',
        cd_subject = s, cd_source = vs, cd_target = vt, cd_source_protocol = ps, cd_target_protocol = pt,
        cd_source_schema = ss, cd_target_schema = st, cd_verdict = v,
        cd_rollback_permitted = json_bool_or j ''rollback_permitted'' False,
        cd_max_mixed_version_operations = ops, cd_max_mixed_version_ms = ms, cd_certified_features = f,
        cd_constraints = cs, cd_decided_at = json_u64_or j ''decided_at'' 1, cd_evidence_digest = digest_zero\<rparr>))))))))))))))))"

section \<open>Registries\<close>

definition registry_add :: "CompatibilityDecision \<Rightarrow> CompatibilityDecision list \<Rightarrow> CompatibilityDecision list" where
  "registry_add d ds = ds @ [d]"

definition registry_decide ::
  "CompatibilityDecision list \<Rightarrow> ComponentId \<Rightarrow> SoftwareVersion \<Rightarrow> SoftwareVersion \<Rightarrow> CompatibilityDecision Result" where
  "registry_decide ds subject source target =
     (case List.find (\<lambda>d. cd_subject d = subject \<and> cd_source d = source \<and> cd_target d = target) ds of
        Some d \<Rightarrow> Inr d
      | None \<Rightarrow> Inl CompatibilityInsufficient)"

record JsonCompatibilityRegistry =
  jr_registry_name :: string
  jr_decisions :: "CompatibilityDecision list"

definition registry_from_json :: "(u64 \<Rightarrow> string) \<Rightarrow> json \<Rightarrow> JsonCompatibilityRegistry Result" where
  "registry_from_json dtoa j =
     rbind (guard (is_object j) Malformed) (\<lambda>_.
     rbind (require (json_find j ''decisions'') Malformed) (\<lambda>a.
     rbind (guard (is_array a) Malformed) (\<lambda>_.
     rbind (map_result (compatibility_decision_from_json dtoa) (map (json_at a) [0..<json_size a])) (\<lambda>ds.
     Inr \<lparr>jr_registry_name = json_string_or j ''registry'' ''fabric-compatibility-registry'', jr_decisions = ds\<rparr>))))"

definition registry_parse ::
  "(u64 \<Rightarrow> string) \<Rightarrow> (string \<Rightarrow> u64 option) \<Rightarrow> string \<Rightarrow> JsonCompatibilityRegistry Result" where
  "registry_parse dtoa strtod text =
     rbind (require (parse_json strtod default_parse_limits text) Malformed) (registry_from_json dtoa)"

definition json_registry_decide ::
  "JsonCompatibilityRegistry \<Rightarrow> ComponentId \<Rightarrow> SoftwareVersion \<Rightarrow> SoftwareVersion \<Rightarrow> CompatibilityDecision Result" where
  "json_registry_decide r subject source target = registry_decide (jr_decisions r) subject source target"

section \<open>Evidence\<close>

datatype EvidencePolicy = RequireExactMatch | AllowRefreshIfVerdictUnchanged

record EvidenceCheck =
  ec_satisfied :: bool
  ec_refreshed :: bool
  ec_effective :: CompatibilityDecision
  ec_differences :: "string list"

text \<open>The registry is its \<^verbatim>\<open>decide\<close> operation.\<close>

definition verify_evidence ::
  "CompatibilityDecision \<Rightarrow>
     (ComponentId \<Rightarrow> SoftwareVersion \<Rightarrow> SoftwareVersion \<Rightarrow> CompatibilityDecision Result) \<Rightarrow> EvidencePolicy \<Rightarrow> EvidenceCheck" where
  "verify_evidence declared decide policy =
     (let check = \<lparr>ec_satisfied = False, ec_refreshed = False, ec_effective = declared, ec_differences = []\<rparr> in
      case decide (cd_subject declared) (cd_source declared) (cd_target declared) of
        Inl _ \<Rightarrow> check
      | Inr fresh \<Rightarrow>
          if cd_evidence_digest fresh = cd_evidence_digest declared
          then check\<lparr>ec_satisfied := True, ec_effective := fresh\<rparr>
          else
            let differing = check\<lparr>ec_differences :=
                  (if cd_verdict fresh \<noteq> cd_verdict declared
                   then [''verdict '' @ verdict_name (cd_verdict declared) @ '' -> '' @ verdict_name (cd_verdict fresh)] else []) @
                  [''evidence digest '' @ to_short_hex (cd_evidence_digest declared) @ '' -> '' @
                   to_short_hex (cd_evidence_digest fresh)]\<rparr> in
            if policy = RequireExactMatch then differing
            else if cd_verdict fresh = cd_verdict declared
            then differing\<lparr>ec_satisfied := True, ec_refreshed := True, ec_effective := fresh\<rparr>
            else differing)"

section \<open>Sealed decisions\<close>

lemma decision_digest_ignores [simp]:
  "decision_digest dtoa (d\<lparr>cd_evidence_digest := g\<rparr>) = decision_digest dtoa d"
  by (simp add: decision_digest_def decision_body_def)

lemma decision_seal_verifies: "decision_verify dtoa (decision_seal dtoa d) = Ok"
  by (simp add: decision_verify_def decision_seal_def)

lemma check_evidence_digest_verifies: "check_evidence_digest dtoa j d = Inr d' \<Longrightarrow> decision_verify dtoa d' = Ok"
  by (auto simp: check_evidence_digest_def Let_def decision_seal_verifies split: option.splits if_splits)

lemma decoded_decision_verifies:
  "compatibility_decision_from_json dtoa j = Inr d \<Longrightarrow> decision_verify dtoa d = Ok"
  by (auto simp: compatibility_decision_from_json_def dest: check_evidence_digest_verifies)

lemma constraint_round_trip: "constraint_from_json (constraint_to_json c) = Inr c"
  by (simp add: constraint_from_json_def constraint_to_json_def json_field_defs codec_simps)

interpretation constraint_codec: json_codec constraint_to_json constraint_from_json "\<lambda>_. True"
  by unfold_locales (rule constraint_round_trip)

lemma verdict_round_trip: "compatibility_verdict_from (verdict_name v) = Some v"
  by (cases v) (simp_all add: compatibility_verdict_from_def)

definition decision_wf :: "CompatibilityDecision \<Rightarrow> bool" where
  "decision_wf d =
     (cd_decision_id d \<noteq> [] \<and> name_is_valid_text (cd_subject d) \<and> software_wf (cd_source d) \<and> software_wf (cd_target d) \<and>
      cd_source_schema d \<noteq> 0 \<and> cd_target_schema d \<noteq> 0 \<and> features_known (cd_certified_features d) \<and>
      digest_wf (cd_evidence_digest d))"

text \<open>Decoding any object that carries the fields of a decision.\<close>

lemma decision_fields_decode:
  assumes "decision_wf d" "is_object j" "\<And>k. k \<noteq> ''evidence_digest'' \<Longrightarrow> json_find j k = json_find (decision_body d) k"
  shows "compatibility_decision_from_json dtoa j = check_evidence_digest dtoa j (d\<lparr>cd_evidence_digest := digest_zero\<rparr>)"
proof -
  have find: "json_string j ''decision_id'' = Some (cd_decision_id d)" "json_string j ''subject'' = Some (cd_subject d)"
    "json_string j ''source'' = Some (software_version_to_string (cd_source d))"
    "json_string j ''target'' = Some (software_version_to_string (cd_target d))"
    "json_string j ''source_protocol'' = Some (protocol_version_to_string (cd_source_protocol d))"
    "json_string j ''target_protocol'' = Some (protocol_version_to_string (cd_target_protocol d))"
    "json_u64 j ''source_schema'' = Some (ucast (cd_source_schema d))"
    "json_u64 j ''target_schema'' = Some (ucast (cd_target_schema d))"
    "json_string j ''verdict'' = Some (verdict_name (cd_verdict d))"
    "json_u64 j ''max_mixed_version_operations'' = Some (cd_max_mixed_version_operations d)"
    "json_u64 j ''max_mixed_version_ms'' = Some (cd_max_mixed_version_ms d)"
    "json_find j ''certified_features'' = Some (feature_array (cd_certified_features d))"
    "json_find j ''constraints'' = Some (constraint_array (cd_constraints d))"
    "json_string_or j ''registry'' ''fabric-compatibility-registry'' = cd_registry d"
    "json_bool_or j ''rollback_permitted'' False = cd_rollback_permitted d"
    "json_u64_or j ''decided_at'' 1 = cd_decided_at d"
    by (simp_all add: json_field_defs assms(3)) (simp_all add: decision_body_def codec_simps)
  have "optional_elements j ''constraints'' constraint_from_json = Inr (cd_constraints d)"
    using constraint_codec.array_round_trip [of "cd_constraints d"]
    by (simp add: optional_elements_def find constraint_array_def codec_simps json_elements list_all_iff)
  then show ?thesis
    using assms(1,2) unfolding compatibility_decision_from_json_def decision_wf_def
    by (cases d) (simp add: find field_round_trips verdict_round_trip require_u64_def)
qed

lemma decision_json_round_trip:
  assumes "decision_wf d" "decision_verify dtoa d = Ok"
  shows "compatibility_decision_from_json dtoa (decision_to_json d) = Inr d"
proof -
  have "compatibility_decision_from_json dtoa (decision_to_json d) =
      check_evidence_digest dtoa (decision_to_json d) (d\<lparr>cd_evidence_digest := digest_zero\<rparr>)"
    using assms(1) by (rule decision_fields_decode) (simp_all add: decision_to_json_def codec_simps)
  moreover have "json_string (decision_to_json d) ''evidence_digest'' = Some (to_hex (cd_evidence_digest d))"
    by (simp add: decision_to_json_def json_string_def codec_simps)
  ultimately show ?thesis
    using assms by (simp add: check_evidence_digest_def decision_wf_def codec_simps decision_verify_def Let_def)
qed

interpretation decision_codec:
  json_codec decision_to_json "compatibility_decision_from_json dtoa" "\<lambda>d. decision_wf d \<and> decision_verify dtoa d = Ok" for dtoa
  by unfold_locales (simp add: decision_json_round_trip)

section \<open>Interface: sources of compatibility decisions\<close>

text \<open>What a deployment's registry promises: a decision it returns is about the pair it was asked for.\<close>

locale compatibility_source =
  fixes decide :: "ComponentId \<Rightarrow> SoftwareVersion \<Rightarrow> SoftwareVersion \<Rightarrow> CompatibilityDecision Result"
  assumes decides_question:
    "decide subject source target = Inr d \<Longrightarrow> cd_subject d = subject \<and> cd_source d = source \<and> cd_target d = target"
begin

lemma satisfied_current:
  assumes "ec_satisfied (verify_evidence declared decide policy)"
  shows "\<exists>d. decide (cd_subject declared) (cd_source declared) (cd_target declared) = Inr d \<and>
    ec_effective (verify_evidence declared decide policy) = d \<and>
    cd_subject d = cd_subject declared \<and> cd_source d = cd_source declared \<and> cd_target d = cd_target declared \<and>
    (cd_evidence_digest d = cd_evidence_digest declared \<or>
     policy = AllowRefreshIfVerdictUnchanged \<and> cd_verdict d = cd_verdict declared \<and>
     ec_refreshed (verify_evidence declared decide policy))"
proof (cases "decide (cd_subject declared) (cd_source declared) (cd_target declared)")
  case (Inl e)
  with assms show ?thesis by (simp add: verify_evidence_def)
next
  case (Inr d)
  with assms decides_question [OF Inr] show ?thesis
    by (cases policy) (auto simp: verify_evidence_def Let_def split: if_splits)
qed

end

lemma registry_decide_Inr:
  "registry_decide ds s v w = Inr d \<Longrightarrow> d \<in> set ds \<and> cd_subject d = s \<and> cd_source d = v \<and> cd_target d = w"
  by (auto simp: registry_decide_def split: option.splits dest: find_SomeD)

interpretation static_registry: compatibility_source "registry_decide ds" for ds
  by unfold_locales (drule registry_decide_Inr, simp)

interpretation json_registry: compatibility_source "json_registry_decide r" for r
  by unfold_locales (simp add: json_registry_decide_def, drule registry_decide_Inr, simp)

text \<open>C28: Accepted compatibility evidence is current and intact. When the evidence a manifest declares is
  accepted against a registry document, the effective decision is one the document holds for exactly
  that component and version pair, its recorded digest matches its content, and it is either the
  declared evidence itself (by digest) or, if the policy allows a refresh, another decision with the
  same verdict, reported as a refresh. The dates of the two decisions are not compared: the other decision may be
  older than the declared one.\<close>

theorem accepted_evidence_is_current:
  assumes "registry_from_json dtoa j = Inr r" "ec_satisfied (verify_evidence declared (json_registry_decide r) policy)"
  shows "\<exists>d \<in> set (jr_decisions r). ec_effective (verify_evidence declared (json_registry_decide r) policy) = d \<and>
    decision_verify dtoa d = Ok \<and>
    cd_subject d = cd_subject declared \<and> cd_source d = cd_source declared \<and> cd_target d = cd_target declared \<and>
    (cd_evidence_digest d = cd_evidence_digest declared \<or>
     policy = AllowRefreshIfVerdictUnchanged \<and> cd_verdict d = cd_verdict declared \<and>
     ec_refreshed (verify_evidence declared (json_registry_decide r) policy))"
proof -
  obtain d where d: "json_registry_decide r (cd_subject declared) (cd_source declared) (cd_target declared) = Inr d"
    "ec_effective (verify_evidence declared (json_registry_decide r) policy) = d"
    "cd_subject d = cd_subject declared" "cd_source d = cd_source declared" "cd_target d = cd_target declared"
    "cd_evidence_digest d = cd_evidence_digest declared \<or>
     policy = AllowRefreshIfVerdictUnchanged \<and> cd_verdict d = cd_verdict declared \<and>
     ec_refreshed (verify_evidence declared (json_registry_decide r) policy)"
    using json_registry.satisfied_current [OF assms(2)] by blast
  have i: "d \<in> set (jr_decisions r)" using d(1) registry_decide_Inr unfolding json_registry_decide_def by blast
  from assms(1) obtain xs where "map_result (compatibility_decision_from_json dtoa) xs = Inr (jr_decisions r)"
    by (auto simp: registry_from_json_def)
  then have "list_all (\<lambda>d. decision_verify dtoa d = Ok) (jr_decisions r)"
    by (auto simp: list_all_iff dest!: map_result_all dest: decoded_decision_verifies)
  then have "decision_verify dtoa d = Ok" using i by (simp add: list_all_iff)
  with d i show ?thesis by blast
qed

definition example_decision :: CompatibilityDecision where
  "example_decision =
     \<lparr>cd_decision_id = ''dec-1'', cd_registry = ''registry'', cd_subject = ''router'',
      cd_source = SoftwareVersion 1 0 0 [],
      cd_target = SoftwareVersion 1 1 0 [],
      cd_source_protocol = ProtocolVersion 1 0, cd_target_protocol = ProtocolVersion 1 1,
      cd_source_schema = 1, cd_target_schema = 2, cd_verdict = Supported, cd_rollback_permitted = True,
      cd_max_mixed_version_operations = 10, cd_max_mixed_version_ms = 100, cd_certified_features = 0,
      cd_constraints = [], cd_decided_at = 1, cd_evidence_digest = digest_zero\<rparr>"

definition example_registry_document :: json where
  "example_registry_document = json_set (JObject []) ''decisions'' (JArray [decision_body example_decision])"

lemma example_registry_loads:
  "registry_from_json dtoa example_registry_document =
     Inr \<lparr>jr_registry_name = ''fabric-compatibility-registry'', jr_decisions = [decision_seal dtoa example_decision]\<rparr>"
proof -
  have wf: "decision_wf example_decision" by code_simp
  have "compatibility_decision_from_json dtoa (decision_body example_decision) =
      check_evidence_digest dtoa (decision_body example_decision) (example_decision\<lparr>cd_evidence_digest := digest_zero\<rparr>)"
    using wf by (rule decision_fields_decode) (simp_all add: decision_body_def codec_simps)
  also have "\<dots> = Inr (decision_seal dtoa example_decision)"
    by (simp add: check_evidence_digest_def decision_body_def json_string_def codec_simps) (simp add: example_decision_def)
  finally show ?thesis
    by (simp add: registry_from_json_def example_registry_document_def json_field_defs codec_simps json_elements)
qed

text \<open>The date of the declared evidence does not matter: \<open>d\<close> is accepted as its refresh whenever it was decided.\<close>

lemma older_decision_refreshes:
  assumes "decide (cd_subject d) (cd_source d) (cd_target d) = Inr d" "cd_evidence_digest d \<noteq> g"
  shows "ec_satisfied (verify_evidence (d\<lparr>cd_decided_at := t, cd_evidence_digest := g\<rparr>) decide AllowRefreshIfVerdictUnchanged) \<and>
    ec_refreshed (verify_evidence (d\<lparr>cd_decided_at := t, cd_evidence_digest := g\<rparr>) decide AllowRefreshIfVerdictUnchanged) \<and>
    ec_effective (verify_evidence (d\<lparr>cd_decided_at := t, cd_evidence_digest := g\<rparr>) decide AllowRefreshIfVerdictUnchanged) = d"
  using assms by (simp add: verify_evidence_def Let_def)

theorem accepted_evidence_is_current_witness:
  "\<exists>d. ec_effective (verify_evidence (decision_seal (\<lambda>_. []) example_decision)
      (json_registry_decide \<lparr>jr_registry_name = ''fabric-compatibility-registry'',
         jr_decisions = [decision_seal (\<lambda>_. []) example_decision]\<rparr>) RequireExactMatch) = d \<and>
    decision_verify (\<lambda>_. []) d = Ok \<and> cd_subject d = ''router''"
proof -
  have "ec_satisfied (verify_evidence (decision_seal (\<lambda>_. []) example_decision)
      (json_registry_decide \<lparr>jr_registry_name = ''fabric-compatibility-registry'',
         jr_decisions = [decision_seal (\<lambda>_. []) example_decision]\<rparr>) RequireExactMatch)"
    by (simp add: verify_evidence_def json_registry_decide_def registry_decide_def decision_seal_def)
  moreover have "cd_subject (decision_seal (\<lambda>_. []) example_decision) = ''router''"
    by (simp add: decision_seal_def example_decision_def)
  ultimately show ?thesis
    using accepted_evidence_is_current [OF example_registry_loads] by metis
qed

end
