(* ===== verification/Protocol.thy ===== *)
theory Protocol
  imports Record_Fields
begin

text \<open>
  Mixed-version protocol negotiation: \<^verbatim>\<open>include/fabric/evolution/protocol.hpp\<close> and
  \<^verbatim>\<open>src/protocol.cpp\<close>, with the \<^verbatim>\<open>ProtocolPath\<close> of \<^verbatim>\<open>manifest.hpp\<close>. The hello of a participant
  and its codec, the two-party and the group negotiation. The results: what a usable group negotiation
  guarantees, that it does not depend on the order of the participants, and that the group
  negotiation of two participants agrees with the two-party one.
\<close>

record ProtocolHello =
  he_component :: ComponentId
  he_incarnation :: IncarnationId
  he_software :: SoftwareVersion
  he_protocol :: ProtocolVersion
  he_schema :: SchemaVersion
  he_features :: FeatureSet
  he_epoch :: EpochNumber
  he_generation :: Generation
  he_holds_authority :: bool

record ProtocolPath =
  path_accepted :: "ProtocolVersion list"
  path_required_features :: FeatureSet
  path_allowed_features :: FeatureSet

definition path_accepts :: "ProtocolPath \<Rightarrow> ProtocolVersion \<Rightarrow> bool" where
  "path_accepts path version = (version \<in> set (path_accepted path))"

definition schema_allowed :: "SchemaVersion list \<Rightarrow> SchemaVersion \<Rightarrow> bool" where
  "schema_allowed allowed schema = (schema \<in> set allowed)"

definition hello_is_valid :: "ProtocolHello \<Rightarrow> bool" where
  "hello_is_valid h =
     (name_is_valid (he_component h) \<and> incarnation_is_valid (he_incarnation h) \<and> sv_is_valid (he_software h) \<and>
      pv_is_valid (he_protocol h) \<and> he_schema h \<noteq> 0)"

definition hello_to_json :: "ProtocolHello \<Rightarrow> json" where
  "hello_to_json h =
     json_set (json_set (json_set (json_set (json_set (json_set (json_set (json_set (json_set (JObject [])
       ''component'' (JString (he_component h)))
       ''incarnation'' (incarnation_to_json (he_incarnation h)))
       ''software'' (JString (software_version_to_string (he_software h))))
       ''protocol'' (JString (protocol_version_to_string (he_protocol h))))
       ''schema'' (JUInt (ucast (he_schema h))))
       ''features'' (feature_array (he_features h)))
       ''epoch'' (JUInt (he_epoch h)))
       ''generation'' (JUInt (he_generation h)))
       ''holds_authority'' (JBool (he_holds_authority h))"

definition protocol_hello_from_json :: "json \<Rightarrow> ProtocolHello Result" where
  "protocol_hello_from_json j =
     rbind (guard (is_object j) Malformed) (\<lambda>_.
     rbind (name_field j ''component'') (\<lambda>c.
     rbind (require (json_find j ''incarnation'') Malformed) (\<lambda>ij.
     rbind (incarnation_from_json ij) (\<lambda>i.
     rbind (software_field j ''software'') (\<lambda>sw.
     rbind (protocol_field j ''protocol'') (\<lambda>p.
     rbind (schema_version_field j ''schema'') (\<lambda>s.
     rbind (optional_features j ''features'') (\<lambda>f.
     Inr \<lparr>he_component = c, he_incarnation = i, he_software = sw, he_protocol = p, he_schema = s,
          he_features = f, he_epoch = json_u64_or j ''epoch'' 0,
          he_generation = json_u64_or j ''generation'' 0,
          he_holds_authority = json_bool_or j ''holds_authority'' False\<rparr>))))))))"

datatype NegotiationMode = Refused | Restricted | Compatible

fun negotiation_mode_name :: "NegotiationMode \<Rightarrow> string" where
  "negotiation_mode_name Refused = ''refused''"
| "negotiation_mode_name Restricted = ''restricted''"
| "negotiation_mode_name Compatible = ''compatible''"

record NegotiatedProtocol =
  np_mode :: NegotiationMode
  np_effective :: ProtocolVersion
  np_enabled :: FeatureSet
  np_disabled :: FeatureSet
  np_missing_required :: FeatureSet
  np_refusals :: "string list"
  np_rationale :: string

definition np_initial :: NegotiatedProtocol where
  "np_initial = \<lparr>np_mode = Refused, np_effective = ProtocolVersion 0 0, np_enabled = fs_none, np_disabled = fs_none,
     np_missing_required = fs_none, np_refusals = [], np_rationale = []\<rparr>"

definition usable :: "NegotiatedProtocol \<Rightarrow> bool" where
  "usable n = (np_mode n \<noteq> Refused)"

definition np_supports :: "NegotiatedProtocol \<Rightarrow> Feature \<Rightarrow> bool" where
  "np_supports n f = fs_contains (np_enabled n) f"

definition negotiated_to_json :: "NegotiatedProtocol \<Rightarrow> json" where
  "negotiated_to_json n =
     json_set (json_set (json_set (json_set (json_set (json_set (JObject [])
       ''mode'' (JString (negotiation_mode_name (np_mode n))))
       ''effective'' (JString (protocol_version_to_string (np_effective n))))
       ''enabled_features'' (feature_array (np_enabled n)))
       ''disabled_features'' (feature_array (np_disabled n)))
       ''refusals'' (JArray (map JString (np_refusals n))))
       ''rationale'' (JString (np_rationale n))"

definition schema_refusal :: "ProtocolHello \<Rightarrow> string" where
  "schema_refusal h =
     he_component h @ '' reports schema '' @ nat_to_string (unat (he_schema h)) @ '' which the manifest does not list''"

definition major_mismatch :: "ProtocolVersion \<Rightarrow> ProtocolVersion \<Rightarrow> string" where
  "major_mismatch v w =
     ''protocol major mismatch: '' @ protocol_version_to_string v @ '' vs '' @ protocol_version_to_string w"

definition off_path :: "ProtocolVersion \<Rightarrow> string" where
  "off_path v =
     ''effective protocol version '' @ protocol_version_to_string v @ '' is not on the manifest negotiation path''"

text \<open>The last part of both negotiations: features against the path, then the mode.\<close>

definition conclude :: "ProtocolPath \<Rightarrow> ProtocolVersion \<Rightarrow> FeatureSet \<Rightarrow> bool \<Rightarrow> string \<Rightarrow> NegotiatedProtocol" where
  "conclude path effective enabled all_at_effective agreement =
     (let missing = fs_without (path_required_features path) enabled in
      if missing \<noteq> 0 then
        np_initial\<lparr>np_missing_required := missing,
          np_refusals := map (\<lambda>n. ''required feature not supported by every participant: '' @ n) (fs_names missing),
          np_rationale := ''refused: the manifest requires features the participants do not jointly support''\<rparr>
      else
        np_initial\<lparr>np_effective := effective, np_enabled := enabled,
          np_disabled := fs_without (path_allowed_features path) enabled,
          np_mode := (if all_at_effective then Compatible else Restricted),
          np_rationale :=
            (if all_at_effective then agreement
             else ''restricted: operating at the lower common protocol version '' @ protocol_version_to_string effective)\<rparr>)"

definition negotiate_pair :: "ProtocolHello \<Rightarrow> ProtocolHello \<Rightarrow> ProtocolPath \<Rightarrow> SchemaVersion list \<Rightarrow> NegotiatedProtocol" where
  "negotiate_pair local peer path allowed_schemas =
     (if \<not> hello_is_valid local \<or> \<not> hello_is_valid peer then
        np_initial\<lparr>np_refusals := [''participant hello is incomplete''],
          np_rationale := ''refused: a participant did not present a complete hello''\<rparr>
      else if \<not> compatible_with (he_protocol local) (he_protocol peer) then
        np_initial\<lparr>np_refusals := [major_mismatch (he_protocol local) (he_protocol peer)],
          np_rationale := ''refused: protocol major versions differ''\<rparr>
      else
        let effective = negotiate (he_protocol local) (he_protocol peer) in
        if \<not> path_accepts path effective then
          np_initial\<lparr>np_refusals := [off_path effective],
            np_rationale := ''refused: negotiated protocol version is not declared''\<rparr>
        else
          let refusals = (if schema_allowed allowed_schemas (he_schema local) then [] else [schema_refusal local]) @
                (if schema_allowed allowed_schemas (he_schema peer) then [] else [schema_refusal peer]) in
          if refusals \<noteq> [] then
            np_initial\<lparr>np_refusals := refusals,
              np_rationale := ''refused: a participant reports a schema outside the declared migration envelope''\<rparr>
          else
            conclude path effective
              (fs_intersect (fs_intersect (he_features local) (he_features peer)) (path_allowed_features path))
              (effective = he_protocol local \<and> effective = he_protocol peer)
              ''compatible: participants agree on protocol and features'')"

record GroupNegotiationRequest =
  gr_participants :: "ProtocolHello list"
  gr_required_participants :: "ComponentId list"
  gr_path :: ProtocolPath
  gr_allowed_schemas :: "SchemaVersion list"

text \<open>The loop over the participants: an early refusal, or the common version, features and refusals.\<close>

fun group_loop ::
  "SchemaVersion list \<Rightarrow> ProtocolHello list \<Rightarrow> ProtocolVersion \<Rightarrow> FeatureSet \<Rightarrow> string list \<Rightarrow>
     NegotiatedProtocol + ProtocolVersion \<times> FeatureSet \<times> string list" where
  "group_loop allowed [] effective common refusals = Inr (effective, common, refusals)"
| "group_loop allowed (h # hs) effective common refusals =
     (if \<not> hello_is_valid h then
        Inl (np_initial\<lparr>np_refusals := refusals @ [''participant hello is incomplete: '' @ he_component h],
          np_rationale := ''refused: a participant did not present a complete hello''\<rparr>)
      else if \<not> compatible_with effective (he_protocol h) then
        Inl (np_initial\<lparr>np_refusals := refusals @ [major_mismatch effective (he_protocol h)],
          np_rationale := ''refused: protocol major versions differ across participants''\<rparr>)
      else
        group_loop allowed hs (negotiate effective (he_protocol h)) (fs_intersect common (he_features h))
          (if schema_allowed allowed (he_schema h) then refusals else refusals @ [schema_refusal h]))"

definition absent_participants :: "GroupNegotiationRequest \<Rightarrow> ComponentId list" where
  "absent_participants r =
     filter (\<lambda>c. \<not> list_ex (\<lambda>h. he_component h = c) (gr_participants r)) (gr_required_participants r)"

definition negotiate_group :: "GroupNegotiationRequest \<Rightarrow> NegotiatedProtocol" where
  "negotiate_group r =
     (case gr_participants r of
        [] \<Rightarrow> np_initial\<lparr>np_refusals := [''no participants presented a hello''], np_rationale := ''refused: no participants''\<rparr>
      | front # _ \<Rightarrow>
          if absent_participants r \<noteq> [] then
            np_initial\<lparr>np_refusals :=
                map (\<lambda>c. ''required participant did not present a hello: '' @ c) (absent_participants r),
              np_rationale := ''refused: a required participant is absent''\<rparr>
          else
            (case group_loop (gr_allowed_schemas r) (gr_participants r) (he_protocol front) (he_features front) [] of
               Inl refused \<Rightarrow> refused
             | Inr (effective, common, refusals) \<Rightarrow>
                 if refusals \<noteq> [] then
                   np_initial\<lparr>np_refusals := refusals,
                     np_rationale := ''refused: a participant reports a schema outside the declared migration envelope''\<rparr>
                 else if \<not> path_accepts (gr_path r) effective then
                   np_initial\<lparr>np_refusals := [off_path effective],
                     np_rationale := ''refused: negotiated protocol version is not declared''\<rparr>
                 else
                   conclude (gr_path r) effective (fs_intersect common (path_allowed_features (gr_path r)))
                     (list_all (\<lambda>h. he_protocol h = effective) (gr_participants r))
                     ''compatible: all participants agree on protocol and features''))"

section \<open>What a negotiation guarantees\<close>

lemma conclude_usable: "usable (conclude path e f b t) = (fs_without (path_required_features path) f = 0)"
  by (simp add: conclude_def Let_def usable_def np_initial_def)

lemma conclude_fields:
  assumes "usable (conclude path e f b t)"
  shows "np_effective (conclude path e f b t) = e" "np_enabled (conclude path e f b t) = f"
    "np_disabled (conclude path e f b t) = fs_without (path_allowed_features path) f"
proof -
  have "fs_without (path_required_features path) f = 0" using assms by (simp add: conclude_usable)
  then show "np_effective (conclude path e f b t) = e" "np_enabled (conclude path e f b t) = f"
    "np_disabled (conclude path e f b t) = fs_without (path_allowed_features path) f"
    by (simp_all add: conclude_def)
qed

lemma refused_not_usable [simp]: "\<not> usable (np_initial\<lparr>np_refusals := x, np_rationale := y\<rparr>)"
  by (simp add: usable_def np_initial_def)

lemma fs_without_empty: "fs_without a b = 0 \<Longrightarrow> fs_contains a f \<Longrightarrow> fs_contains b f"
  using fs_contains_ops(3,5) by (metis fs_none_def)

lemma negotiate_fields: "pv_major (negotiate v w) = pv_major v" "pv_minor (negotiate v w) = min (pv_minor v) (pv_minor w)"
  by (simp_all add: negotiate_def)

lemma group_loop_Inr:
  "group_loop allowed hs effective common refusals = Inr (e, c, rs) \<longleftrightarrow>
     (\<forall>h \<in> set hs. hello_is_valid h \<and> pv_major (he_protocol h) = pv_major effective) \<and>
     e = ProtocolVersion (pv_major effective) (Min (insert (pv_minor effective) ((pv_minor \<circ> he_protocol) ` set hs))) \<and>
     (\<forall>n. bit c n = (bit common n \<and> (\<forall>h \<in> set hs. bit (he_features h) n))) \<and>
     rs = refusals @ map schema_refusal (filter (\<lambda>h. \<not> schema_allowed allowed (he_schema h)) hs)"
proof (induction hs arbitrary: effective common refusals)
  case Nil
  have "(common = c) = (\<forall>n. bit c n = bit common n)" by (auto intro: bit_eqI)
  then show ?case by (cases effective) auto
next
  case (Cons h hs)
  show ?case
  proof (cases "hello_is_valid h \<and> pv_major (he_protocol h) = pv_major effective")
    case False
    then show ?thesis by (auto simp: compatible_with_def)
  next
    case True
    let ?S = "(pv_minor \<circ> he_protocol) ` set hs"
    have "Min (insert (min a b) S) = Min (insert a (insert b S))" if "finite S" for a b :: u16 and S
      using that by (cases "S = {}") (simp_all add: min.assoc)
    then have min: "Min (insert (pv_minor (negotiate effective (he_protocol h))) ?S) =
        Min (insert (pv_minor effective) ((pv_minor \<circ> he_protocol) ` set (h # hs)))"
      by (simp add: negotiate_fields)
    have bits: "(bit (fs_intersect common (he_features h)) n \<and> (\<forall>h \<in> set hs. bit (he_features h) n)) =
        (bit common n \<and> (\<forall>h \<in> set (h # hs). bit (he_features h) n))" for n
      by (auto simp: fs_intersect_def bit_simps)
    have rs: "(if schema_allowed allowed (he_schema h) then refusals else refusals @ [schema_refusal h]) @
        map schema_refusal (filter (\<lambda>h. \<not> schema_allowed allowed (he_schema h)) hs) =
      refusals @ map schema_refusal (filter (\<lambda>h. \<not> schema_allowed allowed (he_schema h)) (h # hs))"
      by simp
    have eq: "group_loop allowed (h # hs) effective common refusals =
        group_loop allowed hs (negotiate effective (he_protocol h)) (fs_intersect common (he_features h))
          (if schema_allowed allowed (he_schema h) then refusals else refusals @ [schema_refusal h])"
      using True by (simp add: compatible_with_def)
    show ?thesis unfolding eq Cons.IH min bits rs negotiate_fields(1) using True by simp
  qed
qed

text \<open>A description of a group that negotiates, without the loop: the participants agree on the major
  version and list only declared schemas; the effective minor is the least one.\<close>

definition group_agrees :: "GroupNegotiationRequest \<Rightarrow> bool" where
  "group_agrees r =
     (gr_participants r \<noteq> [] \<and> set (gr_required_participants r) \<subseteq> he_component ` set (gr_participants r) \<and>
      (\<forall>h \<in> set (gr_participants r). hello_is_valid h \<and> he_schema h \<in> set (gr_allowed_schemas r) \<and>
         (\<forall>h' \<in> set (gr_participants r). pv_major (he_protocol h') = pv_major (he_protocol h))))"

definition group_version :: "ProtocolHello set \<Rightarrow> ProtocolVersion" where
  "group_version hs = ProtocolVersion (Min ((pv_major \<circ> he_protocol) ` hs)) (Min ((pv_minor \<circ> he_protocol) ` hs))"

lemma absent_participants_Nil:
  "(absent_participants r = []) = (set (gr_required_participants r) \<subseteq> he_component ` set (gr_participants r))"
  by (auto simp: absent_participants_def filter_empty_conv list_ex_iff)

lemma group_loop_agrees:
  assumes "gr_participants r = front # rest" "group_agrees r"
  obtains c where "group_loop (gr_allowed_schemas r) (front # rest) (he_protocol front) (he_features front) [] =
      Inr (group_version (set (gr_participants r)), c, [])"
    "\<And>n. bit c n = (\<forall>h \<in> set (gr_participants r). bit (he_features h) n)"
proof -
  let ?ps = "set (gr_participants r)" and ?c = "foldl fs_intersect (he_features front) (map he_features rest)"
  have bits: "bit (foldl fs_intersect a (map he_features hs)) n = (bit a n \<and> (\<forall>h \<in> set hs. bit (he_features h) n))" for a hs n
    by (induction hs arbitrary: a) (auto simp: fs_intersect_def bit_simps)
  have maj: "pv_major (he_protocol h) = pv_major (he_protocol front)" if "h \<in> ?ps" for h
    using assms that by (auto simp: group_agrees_def)
  have "(pv_major \<circ> he_protocol) ` ?ps = (\<lambda>_. pv_major (he_protocol front)) ` ?ps"
    using maj by (intro image_cong) simp_all
  then have "(pv_major \<circ> he_protocol) ` ?ps = {pv_major (he_protocol front)}" using assms(1) by (simp add: image_constant_conv)
  then have v: "group_version ?ps = ProtocolVersion (pv_major (he_protocol front)) (Min ((pv_minor \<circ> he_protocol) ` ?ps))"
    by (simp add: group_version_def)
  have ins: "insert (pv_minor (he_protocol front)) ((pv_minor \<circ> he_protocol) ` set (front # rest)) = (pv_minor \<circ> he_protocol) ` ?ps"
    using assms(1) by auto
  have "group_loop (gr_allowed_schemas r) (front # rest) (he_protocol front) (he_features front) [] =
      Inr (group_version ?ps, ?c, [])"
    unfolding group_loop_Inr v ins
  proof (intro conjI ballI allI)
    fix h assume "h \<in> set (front # rest)"
    then have h: "h \<in> ?ps" using assms(1) by simp
    show "hello_is_valid h" using assms(2) h by (simp add: group_agrees_def)
    show "pv_major (he_protocol h) = pv_major (he_protocol front)" using maj [OF h] .
  next
    have "schema_allowed (gr_allowed_schemas r) (he_schema h)" if "h \<in> set (front # rest)" for h
      using assms that by (auto simp: group_agrees_def schema_allowed_def)
    then have "filter (\<lambda>h. \<not> schema_allowed (gr_allowed_schemas r) (he_schema h)) (front # rest) = []"
      by (simp only: filter_empty_conv) blast
    then show "[] = [] @ map schema_refusal (filter (\<lambda>h. \<not> schema_allowed (gr_allowed_schemas r) (he_schema h)) (front # rest))"
      by (simp only: list.map append_Nil)
  qed (auto simp: bits)
  moreover have "bit ?c n = (\<forall>h \<in> ?ps. bit (he_features h) n)" for n unfolding bits using assms(1) by simp
  ultimately show thesis by (rule that)
qed

lemma group_usable_agrees:
  assumes "usable (negotiate_group r)"
  shows "group_agrees r"
proof -
  obtain front rest where ps: "gr_participants r = front # rest"
    using assms by (cases "gr_participants r") (simp_all add: negotiate_group_def)
  have ab: "absent_participants r = []" using assms ps by (auto simp: negotiate_group_def split: if_splits)
  obtain e c rs where l: "group_loop (gr_allowed_schemas r) (front # rest) (he_protocol front) (he_features front) [] = Inr (e, c, rs)"
  proof (cases "group_loop (gr_allowed_schemas r) (front # rest) (he_protocol front) (he_features front) []")
    case (Inl x)
    have "\<not> usable x" if "group_loop al hs v f rs = Inl x" for al hs v f rs
      using that by (induction al hs v f rs rule: group_loop.induct) (auto split: if_splits)
    with Inl assms ps ab show ?thesis by (simp add: negotiate_group_def del: group_loop.simps)
  qed (use that in auto)
  have "rs = []" using assms ps ab l by (auto simp: negotiate_group_def simp del: group_loop.simps split: if_splits)
  with l ab ps show ?thesis
    unfolding group_loop_Inr group_agrees_def absent_participants_Nil by (auto simp: filter_empty_conv schema_allowed_def split: if_splits)
qed

definition group_result :: "ProtocolPath \<Rightarrow> FeatureSet \<Rightarrow> ProtocolHello set \<Rightarrow> NegotiatedProtocol" where
  "group_result path common hs =
     (let e = group_version hs in
      if \<not> path_accepts path e then
        np_initial\<lparr>np_refusals := [off_path e], np_rationale := ''refused: negotiated protocol version is not declared''\<rparr>
      else conclude path e (fs_intersect common (path_allowed_features path))
        (\<forall>h \<in> hs. he_protocol h = e) ''compatible: all participants agree on protocol and features'')"

lemma negotiate_group_agrees:
  assumes "group_agrees r"
  obtains c where "\<And>n. bit c n = (\<forall>h \<in> set (gr_participants r). bit (he_features h) n)"
    "negotiate_group r = group_result (gr_path r) c (set (gr_participants r))"
proof -
  obtain front rest where ps: "gr_participants r = front # rest"
    using assms by (cases "gr_participants r") (simp_all add: group_agrees_def)
  obtain c where c: "group_loop (gr_allowed_schemas r) (front # rest) (he_protocol front) (he_features front) [] =
      Inr (group_version (set (gr_participants r)), c, [])" "\<And>n. bit c n = (\<forall>h \<in> set (gr_participants r). bit (he_features h) n)"
    using group_loop_agrees [OF ps assms] by blast
  have "absent_participants r = []" using assms by (simp add: absent_participants_Nil group_agrees_def)
  with c(1) ps have "negotiate_group r = group_result (gr_path r) c (set (gr_participants r))"
    by (simp add: negotiate_group_def group_result_def Let_def list_all_iff del: group_loop.simps)
  with c(2) show thesis using that by blast
qed

lemma group_loop_Inl:
  "group_loop al hs v f rs = Inl x \<Longrightarrow> x\<lparr>np_refusals := [], np_rationale := []\<rparr> = np_initial"
  by (induction al hs v f rs rule: group_loop.induct) (auto simp: np_initial_def split: if_splits)

text \<open>A group that does not agree is refused, and the result carries nothing but the reasons.\<close>

lemma disagreeing_group_refused:
  assumes "\<not> group_agrees r"
  shows "(negotiate_group r)\<lparr>np_refusals := [], np_rationale := []\<rparr> = np_initial"
proof (cases "gr_participants r")
  case Nil
  then show ?thesis by (simp add: negotiate_group_def np_initial_def)
next
  case (Cons front rest)
  let ?l = "group_loop (gr_allowed_schemas r) (front # rest) (he_protocol front) (he_features front) []"
  have "rs \<noteq> []" if "?l = Inr (e, c, rs)" "absent_participants r = []" for e c rs
  proof
    assume "rs = []"
    with that(1) have "\<forall>h \<in> set (front # rest). hello_is_valid h \<and> pv_major (he_protocol h) = pv_major (he_protocol front)"
      "filter (\<lambda>h. \<not> schema_allowed (gr_allowed_schemas r) (he_schema h)) (front # rest) = []"
      unfolding group_loop_Inr by simp_all
    then have "group_agrees r"
      using Cons that(2) unfolding filter_empty_conv group_agrees_def absent_participants_Nil schema_allowed_def by simp
    with assms show False by simp
  qed
  with Cons group_loop_Inl [of "gr_allowed_schemas r" "front # rest" "he_protocol front" "he_features front" "[]"]
  show ?thesis
    by (auto simp: negotiate_group_def np_initial_def simp del: group_loop.simps split: sum.split)
qed

text \<open>C27: A usable group negotiation is justified by every participant. The required participants are
  present; every participant is complete, on a declared schema and on the effective major version; the
  effective version is on the path and its minor is the least one offered; a feature is enabled exactly
  when the path allows it and every participant supports it; and the required features are enabled.\<close>

theorem usable_negotiation_justified:
  assumes "usable (negotiate_group r)"
  shows "set (gr_required_participants r) \<subseteq> he_component ` set (gr_participants r) \<and>
    (\<forall>h \<in> set (gr_participants r). hello_is_valid h \<and> he_schema h \<in> set (gr_allowed_schemas r) \<and>
       pv_major (he_protocol h) = pv_major (np_effective (negotiate_group r)) \<and>
       pv_minor (np_effective (negotiate_group r)) \<le> pv_minor (he_protocol h)) \<and>
    (\<exists>h \<in> set (gr_participants r). he_protocol h = np_effective (negotiate_group r)) \<and>
    path_accepts (gr_path r) (np_effective (negotiate_group r)) \<and>
    (\<forall>f. np_supports (negotiate_group r) f =
       (fs_contains (path_allowed_features (gr_path r)) f \<and> (\<forall>h \<in> set (gr_participants r). fs_contains (he_features h) f))) \<and>
    (\<forall>f. fs_contains (path_required_features (gr_path r)) f \<longrightarrow> np_supports (negotiate_group r) f)"
proof -
  let ?ps = "set (gr_participants r)" and ?e = "group_version (set (gr_participants r))" and ?n = "negotiate_group r"
  have ag: "group_agrees r" using assms by (rule group_usable_agrees)
  obtain c where c: "\<And>n. bit c n = (\<forall>h \<in> ?ps. bit (he_features h) n)"
    "?n = group_result (gr_path r) c ?ps"
    using negotiate_group_agrees [OF ag] by blast
  let ?f = "fs_intersect c (path_allowed_features (gr_path r))"
  have acc: "path_accepts (gr_path r) ?e" using assms unfolding c(2) by (auto simp: group_result_def Let_def split: if_splits)
  then have n: "?n = conclude (gr_path r) ?e ?f (\<forall>h \<in> ?ps. he_protocol h = ?e)
      ''compatible: all participants agree on protocol and features''"
    unfolding c(2) by (simp add: group_result_def Let_def)
  have use: "fs_without (path_required_features (gr_path r)) ?f = 0" using assms unfolding n conclude_usable .
  have fields: "np_effective ?n = ?e" "np_enabled ?n = ?f" using assms unfolding n by (simp_all add: conclude_fields)
  have ps: "?ps \<noteq> {}" using ag by (simp add: group_agrees_def)
  then obtain h0 where h0: "h0 \<in> ?ps" by (meson ex_in_conv)
  have same: "pv_major (he_protocol h) = pv_major (he_protocol h0)" if "h \<in> ?ps" for h
    using ag that h0 unfolding group_agrees_def by blast
  have maj: "pv_major (he_protocol h) = pv_major ?e" if "h \<in> ?ps" for h
  proof -
    have "(pv_major \<circ> he_protocol) ` ?ps = (\<lambda>_. pv_major (he_protocol h0)) ` ?ps" using same by (intro image_cong) simp_all
    then have "(pv_major \<circ> he_protocol) ` ?ps = {pv_major (he_protocol h0)}" using ps by (simp add: image_constant_conv)
    then show ?thesis using same [OF that] by (simp add: group_version_def)
  qed
  have "Min ((pv_minor \<circ> he_protocol) ` ?ps) \<in> (pv_minor \<circ> he_protocol) ` ?ps" using ps by (intro Min_in) auto
  then obtain h where h: "h \<in> ?ps" "pv_minor (he_protocol h) = pv_minor ?e" by (auto simp: group_version_def)
  then have "he_protocol h = ?e" using maj [of h] by (simp add: ProtocolVersion.expand)
  moreover have "pv_minor ?e \<le> pv_minor (he_protocol h)" if "h \<in> ?ps" for h
    using that by (simp add: group_version_def)
  moreover have "np_supports ?n f = (fs_contains (path_allowed_features (gr_path r)) f \<and> (\<forall>h \<in> ?ps. fs_contains (he_features h) f))" for f
    unfolding np_supports_def fields fs_contains_bit by (auto simp: fs_intersect_def bit_and_iff c(1))
  moreover have "np_supports ?n f" if "fs_contains (path_required_features (gr_path r)) f" for f
    unfolding np_supports_def fields using fs_without_empty [OF use that] .
  ultimately show ?thesis
    using ag acc maj h(1) unfolding fields(1) group_agrees_def by blast
qed

text \<open>Group negotiation does not depend on the order in which the participants answer, nor on repeated
  answers: for the same set of hellos the mode, the effective version and the enabled, disabled and
  missing features are the same.\<close>

theorem negotiation_order_irrelevant:
  fixes r :: GroupNegotiationRequest
  assumes "set ps = set qs"
  shows "(negotiate_group (r\<lparr>gr_participants := ps\<rparr>))\<lparr>np_refusals := [], np_rationale := []\<rparr> =
    (negotiate_group (r\<lparr>gr_participants := qs\<rparr>))\<lparr>np_refusals := [], np_rationale := []\<rparr>"
proof -
  let ?p = "r\<lparr>gr_participants := ps\<rparr>" and ?q = "r\<lparr>gr_participants := qs\<rparr>"
  have nonempty: "(ps = []) = (qs = [])" using assms by (metis set_empty)
  have same: "group_agrees ?p = group_agrees ?q"
    by (cases r) (simp only: group_agrees_def GroupNegotiationRequest.simps assms nonempty)
  show ?thesis
  proof (cases "group_agrees ?p")
    case False
    then show ?thesis using same disagreeing_group_refused [of ?p] disagreeing_group_refused [of ?q] by simp
  next
    case True
    have sel: "gr_participants ?p = ps" "gr_path ?p = gr_path r" "gr_participants ?q = qs" "gr_path ?q = gr_path r"
      by simp_all
    obtain c where c: "\<And>n. bit c n = (\<forall>h \<in> set (gr_participants ?p). bit (he_features h) n)"
        "negotiate_group ?p = group_result (gr_path ?p) c (set (gr_participants ?p))"
      using True by (rule negotiate_group_agrees) blast
    obtain d where d: "\<And>n. bit d n = (\<forall>h \<in> set (gr_participants ?q). bit (he_features h) n)"
        "negotiate_group ?q = group_result (gr_path ?q) d (set (gr_participants ?q))"
      using True [unfolded same] by (rule negotiate_group_agrees) blast
    have "bit c n = bit d n" for n unfolding c(1) d(1) sel assms ..
    then have "c = d" by (intro bit_eqI) simp
    then show ?thesis unfolding c(2) d(2) sel assms by (simp only:)
  qed
qed

text \<open>The two-party negotiation is the group negotiation of the two hellos: same mode, effective version
  and enabled, disabled and missing features, on every input.\<close>

theorem pair_negotiation_is_group_negotiation:
  "(negotiate_pair local peer path allowed)\<lparr>np_refusals := [], np_rationale := []\<rparr> =
   (negotiate_group \<lparr>gr_participants = [local, peer], gr_required_participants = [], gr_path = path,
      gr_allowed_schemas = allowed\<rparr>)\<lparr>np_refusals := [], np_rationale := []\<rparr>"
proof (cases "hello_is_valid local \<and> hello_is_valid peer \<and> compatible_with (he_protocol local) (he_protocol peer)")
  case False
  then show ?thesis
    by (auto simp: negotiate_pair_def negotiate_group_def absent_participants_def np_initial_def compatible_with_def
        negotiate_def)
next
  case True
  let ?e = "negotiate (he_protocol local) (he_protocol peer)"
  have e: "negotiate (negotiate (he_protocol local) (he_protocol local)) (he_protocol peer) = ?e"
    by (simp add: negotiate_def)
  have f: "fs_intersect (fs_intersect (he_features local) (he_features local)) (he_features peer) =
      fs_intersect (he_features local) (he_features peer)"
    by (simp add: fs_intersect_def)
  have c: "compatible_with (he_protocol local) (he_protocol local)"
    "compatible_with (negotiate (he_protocol local) (he_protocol local)) (he_protocol peer)"
    using True by (simp_all add: compatible_with_def negotiate_def)
  have m: "(he_protocol local = ?e \<and> he_protocol peer = ?e) = (?e = he_protocol local \<and> ?e = he_protocol peer)" by metis
  show ?thesis
    unfolding negotiate_pair_def negotiate_group_def absent_participants_def
    using True c
    by (auto simp: Let_def e f m [symmetric] conclude_def np_initial_def)
qed

section \<open>Hellos\<close>

definition hello_wf :: "ProtocolHello \<Rightarrow> bool" where
  "hello_wf h =
     (name_is_valid_text (he_component h) \<and> incarnation_wf (he_incarnation h) \<and> software_wf (he_software h) \<and>
      he_schema h \<noteq> 0 \<and> features_known (he_features h))"

lemma hello_json_round_trip:
  assumes "hello_wf h"
  shows "protocol_hello_from_json (hello_to_json h) = Inr h"
proof -
  let ?j = "hello_to_json h"
  have find: "is_object ?j" "json_string ?j ''component'' = Some (he_component h)"
    "json_find ?j ''incarnation'' = Some (incarnation_to_json (he_incarnation h))"
    "json_string ?j ''software'' = Some (software_version_to_string (he_software h))"
    "json_string ?j ''protocol'' = Some (protocol_version_to_string (he_protocol h))"
    "json_u64 ?j ''schema'' = Some (ucast (he_schema h))"
    "json_find ?j ''features'' = Some (feature_array (he_features h))"
    "json_u64_or ?j ''epoch'' 0 = he_epoch h" "json_u64_or ?j ''generation'' 0 = he_generation h"
    "json_bool_or ?j ''holds_authority'' False = he_holds_authority h"
    by (simp_all add: hello_to_json_def json_field_defs codec_simps)
  show ?thesis
    using assms unfolding protocol_hello_from_json_def hello_wf_def
    by (simp add: find field_round_trips incarnation_codec.round_trip)
qed

interpretation hello_codec: json_codec hello_to_json protocol_hello_from_json hello_wf
  by unfold_locales (rule hello_json_round_trip)

section \<open>Witnesses\<close>

definition ex_hello :: "ComponentId \<Rightarrow> u16 \<Rightarrow> FeatureSet \<Rightarrow> ProtocolHello" where
  "ex_hello c minor fs = \<lparr>he_component = c, he_incarnation = \<lparr>component = c, uuid = replicate 16 1, boot = 1\<rparr>,
     he_software = SoftwareVersion 1 0 0 [], he_protocol = ProtocolVersion 2 minor, he_schema = 1, he_features = fs,
     he_epoch = 1, he_generation = 1, he_holds_authority = False\<rparr>"

definition ex_group :: "ProtocolHello list \<Rightarrow> GroupNegotiationRequest" where
  "ex_group ps = \<lparr>gr_participants = ps, gr_required_participants = [''node-a''],
     gr_path = \<lparr>path_accepted = [ProtocolVersion 2 1], path_required_features = 1, path_allowed_features = 3\<rparr>,
     gr_allowed_schemas = [1, 2]\<rparr>"

theorem usable_negotiation_justified_witness:
  "np_supports (negotiate_group (ex_group [ex_hello ''node-a'' 1 7, ex_hello ''node-b'' 3 5])) SnapshotTransfer \<and>
   he_protocol (ex_hello ''node-a'' 1 7) = np_effective (negotiate_group (ex_group [ex_hello ''node-a'' 1 7, ex_hello ''node-b'' 3 5]))"
proof -
  let ?r = "ex_group [ex_hello ''node-a'' 1 7, ex_hello ''node-b'' 3 5]"
  have u: "usable (negotiate_group ?r)" by code_simp
  have "fs_contains (path_required_features (gr_path ?r)) SnapshotTransfer" by code_simp
  then have "np_supports (negotiate_group ?r) SnapshotTransfer" using usable_negotiation_justified [OF u] by blast
  moreover have "he_protocol (ex_hello ''node-a'' 1 7) = np_effective (negotiate_group ?r)" by code_simp
  ultimately show ?thesis by blast
qed

theorem negotiation_order_irrelevant_witness:
  "(negotiate_group (ex_group [ex_hello ''node-b'' 3 5, ex_hello ''node-a'' 1 7]))\<lparr>np_refusals := [], np_rationale := []\<rparr> =
   (negotiate_group (ex_group [ex_hello ''node-a'' 1 7, ex_hello ''node-b'' 3 5]))\<lparr>np_refusals := [], np_rationale := []\<rparr>"
  using negotiation_order_irrelevant [of "[ex_hello ''node-b'' 3 5, ex_hello ''node-a'' 1 7]"
      "[ex_hello ''node-a'' 1 7, ex_hello ''node-b'' 3 5]" "ex_group []"]
  by (simp add: ex_group_def insert_commute)

end
