(* ===== verification/Handoff.thy ===== *)
theory Handoff
  imports Authority Digest
begin

text \<open>
  The handoff lifecycle: \<^verbatim>\<open>include/fabric/evolution/handoff.hpp\<close> and \<^verbatim>\<open>src/handoff.cpp\<close>.
  The phases and their transition check, the durable handoff record and its JSON encoding; the order
  in which an accepted sequence of transitions visits the phases, and the round trip of the record.
\<close>

section \<open>Phases\<close>

datatype HandoffPhase =
    NotStarted | Prepared | SnapshotSynchronized | CaughtUp | ReadinessVerified | PredecessorFenced
  | AuthorityTransferred | SuccessorVerified | PredecessorRetired | PhaseFailed | PhaseAborted

definition kForwardPhases :: "HandoffPhase list" where
  "kForwardPhases =
     [NotStarted, Prepared, SnapshotSynchronized, CaughtUp, ReadinessVerified, PredecessorFenced,
      AuthorityTransferred, SuccessorVerified, PredecessorRetired]"

fun phase_name :: "HandoffPhase \<Rightarrow> string" where
  "phase_name NotStarted = ''not_started''"
| "phase_name Prepared = ''prepared''"
| "phase_name SnapshotSynchronized = ''snapshot_synchronized''"
| "phase_name CaughtUp = ''caught_up''"
| "phase_name ReadinessVerified = ''readiness_verified''"
| "phase_name PredecessorFenced = ''predecessor_fenced''"
| "phase_name AuthorityTransferred = ''authority_transferred''"
| "phase_name SuccessorVerified = ''successor_verified''"
| "phase_name PredecessorRetired = ''predecessor_retired''"
| "phase_name PhaseFailed = ''failed''"
| "phase_name PhaseAborted = ''aborted''"

definition handoff_phase_from :: "string \<Rightarrow> HandoffPhase option" where
  "handoff_phase_from text =
     (case List.find (\<lambda>p. phase_name p = text) kForwardPhases of
        Some p \<Rightarrow> Some p
      | None \<Rightarrow>
          if text = ''failed'' then Some PhaseFailed
          else if text = ''aborted'' then Some PhaseAborted
          else None)"

definition is_forward_phase :: "HandoffPhase \<Rightarrow> bool" where
  "is_forward_phase p = (p \<noteq> PhaseFailed \<and> p \<noteq> PhaseAborted)"

fun index_of :: "'a \<Rightarrow> 'a list \<Rightarrow> nat \<Rightarrow> int" where
  "index_of x [] i = -1"
| "index_of x (y # ys) i = (if y = x then int i else index_of x ys (Suc i))"

definition phase_rank :: "HandoffPhase \<Rightarrow> int" where
  "phase_rank p = index_of p kForwardPhases 0"

definition next_phase :: "HandoffPhase \<Rightarrow> HandoffPhase option" where
  "next_phase p =
     (if \<not> is_forward_phase p then None
      else
        let rank = phase_rank p in
        if rank < 0 \<or> nat rank + 1 \<ge> length kForwardPhases then None
        else Some (kForwardPhases ! (nat rank + 1)))"

definition is_terminal_phase :: "HandoffPhase \<Rightarrow> bool" where
  "is_terminal_phase p = (p = PredecessorRetired \<or> p = PhaseFailed \<or> p = PhaseAborted)"

definition is_authority_transition_window :: "HandoffPhase \<Rightarrow> bool" where
  "is_authority_transition_window p = (p = PredecessorFenced \<or> p = AuthorityTransferred)"

definition validate_handoff_transition :: "HandoffPhase \<Rightarrow> HandoffPhase \<Rightarrow> Status" where
  "validate_handoff_transition from to =
     (if from = to then Ok
      else if \<not> is_forward_phase from \<and> from \<noteq> NotStarted then IllegalTransition
      else if to = PhaseFailed \<or> to = PhaseAborted then Ok
      else if next_phase from = None \<or> next_phase from \<noteq> Some to then IllegalTransition
      else Ok)"

section \<open>Handoff records\<close>

record PhaseTransition =
  pt_from :: HandoffPhase
  pt_to :: HandoffPhase
  pt_at_ms :: TimestampMs
  pt_attempt :: AttemptNumber
  pt_note :: string

record HandoffRecord =
  ho_id :: HandoffId
  ho_campaign :: CampaignId
  ho_shard :: ShardId
  ho_manifest :: ManifestId
  ho_manifest_digest :: Digest
  ho_predecessor :: IncarnationId
  ho_previous_predecessor :: IncarnationId
  ho_successor :: IncarnationId
  ho_phase :: HandoffPhase
  ho_attempt :: AttemptNumber
  ho_epoch :: EpochNumber
  ho_generation :: Generation
  ho_snapshot :: SnapshotId
  ho_snapshot_digest :: Digest
  ho_snapshot_lsn :: LogSequenceNumber
  ho_target_lsn :: LogSequenceNumber
  ho_token :: AuthorityToken
  ho_fence :: FenceId
  ho_started_at_ms :: TimestampMs
  ho_updated_at_ms :: TimestampMs
  ho_last_error :: string
  ho_history :: "PhaseTransition list"

definition reached :: "HandoffRecord \<Rightarrow> HandoffPhase \<Rightarrow> bool" where
  "reached r other = (phase_rank (ho_phase r) \<ge> phase_rank other \<and> is_forward_phase (ho_phase r))"

definition kMaxHandoffHistoryEntries :: nat where
  "kMaxHandoffHistoryEntries = 256"

definition transition_to_json :: "PhaseTransition \<Rightarrow> json" where
  "transition_to_json t =
     json_set (json_set (json_set (json_set (json_set (JObject [])
       ''from'' (JString (phase_name (pt_from t))))
       ''to'' (JString (phase_name (pt_to t))))
       ''at_ms'' (JUInt (pt_at_ms t)))
       ''attempt'' (JUInt (ucast (pt_attempt t))))
       ''note'' (JString (pt_note t))"

definition handoff_to_json :: "HandoffRecord \<Rightarrow> json" where
  "handoff_to_json r =
     (let j1 = json_set (JObject []) ''id'' (JUInt (ho_id r));
          j2 = json_set j1 ''campaign'' (JString (ho_campaign r));
          j3 = json_set j2 ''shard'' (JString (ho_shard r));
          j4 = json_set j3 ''manifest'' (JString (ho_manifest r));
          j5 = json_set j4 ''manifest_digest'' (JString (to_hex (ho_manifest_digest r)));
          j6 = json_set j5 ''predecessor'' (incarnation_to_json (ho_predecessor r));
          j7 = set_if (incarnation_is_valid (ho_previous_predecessor r)) ''previous_predecessor''
                 (incarnation_to_json (ho_previous_predecessor r)) j6;
          j8 = json_set j7 ''successor'' (incarnation_to_json (ho_successor r));
          j9 = json_set j8 ''phase'' (JString (phase_name (ho_phase r)));
          j10 = json_set j9 ''attempt'' (JUInt (ucast (ho_attempt r)));
          j11 = json_set j10 ''epoch'' (JUInt (ho_epoch r));
          j12 = json_set j11 ''generation'' (JUInt (ho_generation r));
          j13 = json_set j12 ''snapshot'' (JUInt (ho_snapshot r));
          j14 = json_set j13 ''snapshot_digest'' (JString (to_hex (ho_snapshot_digest r)));
          j15 = json_set j14 ''snapshot_lsn'' (JUInt (ho_snapshot_lsn r));
          j16 = json_set j15 ''target_lsn'' (JUInt (ho_target_lsn r));
          j17 = json_set j16 ''token'' (JString (to_compact_string (ho_token r)));
          j18 = json_set j17 ''fence'' (JUInt (ho_fence r));
          j19 = json_set j18 ''started_at_ms'' (JUInt (ho_started_at_ms r));
          j20 = json_set j19 ''updated_at_ms'' (JUInt (ho_updated_at_ms r));
          j21 = json_set j20 ''last_error'' (JString (ho_last_error r))
      in json_set j21 ''history'' (JArray (map transition_to_json (ho_history r))))"

text \<open>An optional digest or token field that must parse when it is present as a string.\<close>

definition optional_digest :: "string option \<Rightarrow> Digest Result" where
  "optional_digest x = (case x of None \<Rightarrow> Inr digest_zero | Some t \<Rightarrow> require (digest_from_hex t) Malformed)"

definition optional_token :: "string option \<Rightarrow> AuthorityToken Result" where
  "optional_token x = (case x of None \<Rightarrow> Inr uuid_nil | Some t \<Rightarrow> require (uuid_parse t) Malformed)"

definition transition_from_json :: "json \<Rightarrow> PhaseTransition Result" where
  "transition_from_json j =
     rbind (require (json_string j ''from'') Malformed) (\<lambda>from.
     rbind (require (json_string j ''to'') Malformed) (\<lambda>to.
     rbind (require (handoff_phase_from from) Malformed) (\<lambda>f.
     rbind (require (handoff_phase_from to) Malformed) (\<lambda>t.
     Inr \<lparr>pt_from = f, pt_to = t, pt_at_ms = json_u64_or j ''at_ms'' 0,
          pt_attempt = ucast (json_u64_or j ''attempt'' 1), pt_note = json_string_or j ''note'' []\<rparr>))))"

definition previous_from_json :: "json \<Rightarrow> IncarnationId" where
  "previous_from_json j =
     (case json_find j ''previous_predecessor'' of
        None \<Rightarrow> incarnation_none
      | Some p \<Rightarrow> (case incarnation_from_json p of Inl _ \<Rightarrow> incarnation_none | Inr i \<Rightarrow> i))"

definition handoff_record_from_json :: "json \<Rightarrow> HandoffRecord Result" where
  "handoff_record_from_json j =
     rbind (guard (is_object j) Malformed) (\<lambda>_.
     rbind (require (positive (json_u64 j ''id'')) Malformed) (\<lambda>i.
     rbind (require (json_string j ''campaign'') Malformed) (\<lambda>campaign_text.
     rbind (require (json_string j ''shard'') Malformed) (\<lambda>shard_text.
     rbind (require (json_string j ''manifest'') Malformed) (\<lambda>manifest_text.
     rbind (require (name_parse campaign_text) Malformed) (\<lambda>c.
     rbind (require (name_parse shard_text) Malformed) (\<lambda>s.
     rbind (require (name_parse manifest_text) Malformed) (\<lambda>m.
     rbind (optional_digest (json_string j ''manifest_digest'')) (\<lambda>md.
     rbind (require (json_find j ''predecessor'') Malformed) (\<lambda>pj.
     rbind (require (json_find j ''successor'') Malformed) (\<lambda>sj.
     rbind (incarnation_from_json pj) (\<lambda>p.
     rbind (incarnation_from_json sj) (\<lambda>su.
     rbind (require (json_string j ''phase'') Malformed) (\<lambda>phase_text.
     rbind (require (handoff_phase_from phase_text) Malformed) (\<lambda>ph.
     rbind (optional_digest (json_string j ''snapshot_digest'')) (\<lambda>sd.
     rbind (optional_token (json_string j ''token'')) (\<lambda>t.
     rbind (optional_elements j ''history'' transition_from_json) (\<lambda>h.
     Inr \<lparr>ho_id = i, ho_campaign = c, ho_shard = s, ho_manifest = m, ho_manifest_digest = md,
          ho_predecessor = p, ho_previous_predecessor = previous_from_json j, ho_successor = su,
          ho_phase = ph, ho_attempt = ucast (json_u64_or j ''attempt'' 1),
          ho_epoch = json_u64_or j ''epoch'' 0, ho_generation = json_u64_or j ''generation'' 0,
          ho_snapshot = json_u64_or j ''snapshot'' 0, ho_snapshot_digest = sd,
          ho_snapshot_lsn = json_u64_or j ''snapshot_lsn'' 0, ho_target_lsn = json_u64_or j ''target_lsn'' 0,
          ho_token = t, ho_fence = json_u64_or j ''fence'' 0,
          ho_started_at_ms = json_u64_or j ''started_at_ms'' 0,
          ho_updated_at_ms = json_u64_or j ''updated_at_ms'' 0,
          ho_last_error = json_string_or j ''last_error'' [], ho_history = h\<rparr>))))))))))))))))))"

section \<open>The order of the phases\<close>

lemma phase_rank_simps [simp]:
  "phase_rank NotStarted = 0" "phase_rank Prepared = 1" "phase_rank SnapshotSynchronized = 2"
  "phase_rank CaughtUp = 3" "phase_rank ReadinessVerified = 4" "phase_rank PredecessorFenced = 5"
  "phase_rank AuthorityTransferred = 6" "phase_rank SuccessorVerified = 7" "phase_rank PredecessorRetired = 8"
  "phase_rank PhaseFailed = -1" "phase_rank PhaseAborted = -1"
  by (simp_all add: phase_rank_def kForwardPhases_def)

lemma next_phase_rank: "next_phase p = Some q \<Longrightarrow> phase_rank q = phase_rank p + 1 \<and> is_forward_phase q"
  by (cases p) (auto simp: next_phase_def Let_def is_forward_phase_def kForwardPhases_def)

lemma phase_rank_inj: "is_forward_phase p \<Longrightarrow> is_forward_phase q \<Longrightarrow> phase_rank p = phase_rank q \<Longrightarrow> p = q"
  by (cases p; cases q) (simp_all add: is_forward_phase_def)

text \<open>A sequence of phases in which every step passes the transition check.\<close>

fun accepted_phases :: "HandoffPhase list \<Rightarrow> bool" where
  "accepted_phases (p # q # ps) = (validate_handoff_transition p q = Ok \<and> accepted_phases (q # ps))"
| "accepted_phases _ = True"

lemma validate_Ok_cases:
  "validate_handoff_transition p q = Ok \<Longrightarrow>
     q = p \<or> (is_forward_phase p \<and> \<not> is_forward_phase q) \<or> next_phase p = Some q"
  by (auto simp: validate_handoff_transition_def is_forward_phase_def split: if_splits)

lemma accepted_stuck:
  "accepted_phases (p # ps) \<Longrightarrow> \<not> is_forward_phase p \<Longrightarrow> set ps \<subseteq> {p}"
proof (induction ps arbitrary: p)
  case (Cons q ps)
  then have "q = p" by (auto dest!: validate_Ok_cases simp: next_phase_def)
  with Cons show ?case by auto
qed simp

lemma length_forward [simp]: "length kForwardPhases = 9"
  by (simp add: kForwardPhases_def)

lemma drop_forward: "i < 9 \<Longrightarrow> drop i kForwardPhases = kForwardPhases ! i # drop (Suc i) kForwardPhases"
  by (simp add: Cons_nth_drop_Suc)

lemma nth_rank: "is_forward_phase p \<Longrightarrow> phase_rank p = int i \<Longrightarrow> i < 9 \<and> kForwardPhases ! i = p"
  by (cases p) (auto simp: is_forward_phase_def kForwardPhases_def)

lemma remdups_adj_const: "set ps \<subseteq> {p} \<Longrightarrow> remdups_adj (p # ps) = [p]"
  by (induction ps) (auto split: if_splits)

lemma accepted_from:
  assumes "accepted_phases (p # ps)" "is_forward_phase p" "phase_rank p = int i"
  shows "\<exists>k e. remdups_adj (p # ps) = take (Suc k) (drop i kForwardPhases) @ e \<and>
    (e = [] \<or> e = [PhaseFailed] \<or> e = [PhaseAborted])"
  using assms
proof (induction ps arbitrary: p i)
  case Nil
  with nth_rank [OF Nil.prems(2,3)] show ?case
    by (intro exI [of _ 0] exI [of _ "[]"]) (simp add: drop_forward)
next
  case (Cons q ps)
  note i = nth_rank [OF Cons.prems(2,3)]
  from Cons.prems(1) have "validate_handoff_transition p q = Ok" and acc: "accepted_phases (q # ps)" by simp_all
  from validate_Ok_cases [OF this(1)] Cons.prems(2) consider
    (same) "q = p" | (terminal) "\<not> is_forward_phase q" | (forward) "next_phase p = Some q"
    by blast
  then show ?case
  proof cases
    case same
    with Cons.IH [of p i] Cons.prems acc show ?thesis by simp
  next
    case terminal
    then have "remdups_adj (q # ps) = [q]" using accepted_stuck [OF acc] by (intro remdups_adj_const) simp
    moreover have "p \<noteq> q" using terminal Cons.prems(2) by auto
    ultimately show ?thesis
      using i terminal by (intro exI [of _ 0] exI [of _ "[q]"]) (simp add: drop_forward is_forward_phase_def)
  next
    case forward
    with next_phase_rank [OF forward] Cons.prems(3) have q: "is_forward_phase q" "phase_rank q = int (Suc i)" by simp_all
    from Cons.IH [OF acc q] obtain k e where ke:
        "remdups_adj (q # ps) = take (Suc k) (drop (Suc i) kForwardPhases) @ e"
        "e = [] \<or> e = [PhaseFailed] \<or> e = [PhaseAborted]" by blast
    have "p \<noteq> q" using q(2) Cons.prems(3) by auto
    with ke i show ?thesis by (intro exI [of _ "Suc k"] exI [of _ e]) (simp add: drop_forward)
  qed
qed

text \<open>A handoff visits its phases in the fixed order. Whatever sequence of phase changes the
  transition check accepts from \<^verbatim>\<open>NotStarted\<close>, the distinct phases visited are an initial segment
  of the forward order (no phase is skipped, none is revisited), possibly followed by exactly one of
  \<^verbatim>\<open>Failed\<close> or \<^verbatim>\<open>Aborted\<close>, which is then never left.\<close>

theorem handoff_phases_in_order:
  assumes "accepted_phases (NotStarted # ps)"
  shows "\<exists>k e. remdups_adj (NotStarted # ps) = take (Suc k) kForwardPhases @ e \<and>
    (e = [] \<or> e = [PhaseFailed] \<or> e = [PhaseAborted])"
  using accepted_from [OF assms, of 0] by (simp add: is_forward_phase_def)

text \<open>
  The transition check lets a retired handoff, a terminal phase by \<^verbatim>\<open>is_terminal_phase\<close>, be moved
  to \<^verbatim>\<open>Failed\<close> or \<^verbatim>\<open>Aborted\<close>.
\<close>

lemma retired_handoff_may_fail:
  "is_terminal_phase PredecessorRetired \<and> validate_handoff_transition PredecessorRetired PhaseFailed = Ok \<and>
   validate_handoff_transition PredecessorRetired PhaseAborted = Ok"
  by (simp add: is_terminal_phase_def validate_handoff_transition_def is_forward_phase_def)

section \<open>Round trip of the record\<close>

lemma phase_name_round_trip [codec_simps]: "handoff_phase_from (phase_name p) = Some p"
  by (cases p) (simp_all add: handoff_phase_from_def kForwardPhases_def)

lemma transition_round_trip [codec_simps]: "transition_from_json (transition_to_json t) = Inr t"
  by (simp add: transition_from_json_def transition_to_json_def json_field_defs codec_simps)

interpretation transition_codec: json_codec transition_to_json transition_from_json "\<lambda>_. True"
  by unfold_locales (rule transition_round_trip)

definition handoff_wf :: "HandoffRecord \<Rightarrow> bool" where
  "handoff_wf r =
     (ho_id r \<noteq> 0 \<and> name_is_valid_text (ho_campaign r) \<and> name_is_valid_text (ho_shard r) \<and>
      name_is_valid_text (ho_manifest r) \<and> digest_wf (ho_manifest_digest r) \<and> digest_wf (ho_snapshot_digest r) \<and>
      incarnation_wf (ho_predecessor r) \<and> incarnation_wf (ho_successor r) \<and> uuid_wf (ho_token r) \<and>
      (ho_previous_predecessor r = incarnation_none \<or> incarnation_wf (ho_previous_predecessor r)))"

lemma previous_round_trip:
  assumes "json_find j ''previous_predecessor'' = (if incarnation_is_valid i then Some (incarnation_to_json i) else None)"
    and "i = incarnation_none \<or> incarnation_wf i"
  shows "previous_from_json j = i"
  using assms incarnation_wf_valid
  by (auto simp: previous_from_json_def incarnation_none_def incarnation_is_valid_def name_is_valid_def
      incarnation_codec.round_trip split: if_splits)

lemma handoff_json_round_trip:
  assumes "handoff_wf r"
  shows "handoff_record_from_json (handoff_to_json r) = Inr r"
proof -
  let ?j = "handoff_to_json r"
  have find: "is_object ?j" "json_u64 ?j ''id'' = Some (ho_id r)" "json_string ?j ''campaign'' = Some (ho_campaign r)"
    "json_string ?j ''shard'' = Some (ho_shard r)" "json_string ?j ''manifest'' = Some (ho_manifest r)"
    "json_string ?j ''manifest_digest'' = Some (to_hex (ho_manifest_digest r))"
    "json_find ?j ''predecessor'' = Some (incarnation_to_json (ho_predecessor r))"
    "json_find ?j ''successor'' = Some (incarnation_to_json (ho_successor r))"
    "json_string ?j ''phase'' = Some (phase_name (ho_phase r))"
    "json_string ?j ''snapshot_digest'' = Some (to_hex (ho_snapshot_digest r))"
    "json_string ?j ''token'' = Some (to_compact_string (ho_token r))"
    "json_find ?j ''history'' = Some (JArray (map transition_to_json (ho_history r)))"
    "json_u64_or ?j ''attempt'' 1 = ucast (ho_attempt r)" "json_u64_or ?j ''epoch'' 0 = ho_epoch r"
    "json_u64_or ?j ''generation'' 0 = ho_generation r" "json_u64_or ?j ''snapshot'' 0 = ho_snapshot r"
    "json_u64_or ?j ''snapshot_lsn'' 0 = ho_snapshot_lsn r" "json_u64_or ?j ''target_lsn'' 0 = ho_target_lsn r"
    "json_u64_or ?j ''fence'' 0 = ho_fence r" "json_u64_or ?j ''started_at_ms'' 0 = ho_started_at_ms r"
    "json_u64_or ?j ''updated_at_ms'' 0 = ho_updated_at_ms r" "json_string_or ?j ''last_error'' [] = ho_last_error r"
    by (simp_all add: handoff_to_json_def Let_def json_field_defs codec_simps set_if_def)
  have prev: "json_find ?j ''previous_predecessor'' =
      (if incarnation_is_valid (ho_previous_predecessor r)
       then Some (incarnation_to_json (ho_previous_predecessor r)) else None)"
    by (simp add: handoff_to_json_def Let_def codec_simps set_if_def)
  have "previous_from_json ?j = ho_previous_predecessor r"
    using prev assms by (intro previous_round_trip) (simp_all add: handoff_wf_def)
  moreover have "optional_elements ?j ''history'' transition_from_json = Inr (ho_history r)"
    using transition_codec.array_round_trip [of "ho_history r"]
    by (simp add: optional_elements_def find codec_simps json_elements list_all_iff)
  ultimately show ?thesis
    using assms unfolding handoff_record_from_json_def handoff_wf_def
    by (simp add: find codec_simps name_parse_valid optional_digest_def optional_token_def uuid_parse_compact
        incarnation_codec.round_trip)
qed

interpretation handoff_codec: json_codec handoff_to_json handoff_record_from_json handoff_wf
  by unfold_locales (rule handoff_json_round_trip)

text \<open>The durable handoff record round trips: decoding the encoding of a record with valid identities
  gives the same record, history included, and two such records with the same encoding are equal.\<close>

theorem handoff_record_round_trip:
  assumes "handoff_wf r"
  shows "handoff_record_from_json (handoff_to_json r) = Inr r \<and>
    {q. handoff_wf q \<and> handoff_to_json q = handoff_to_json r} = {r}"
  using assms handoff_codec.round_trip handoff_codec.encode_injective by blast

section \<open>Witnesses\<close>

theorem handoff_phases_in_order_witness:
  "\<exists>k e. remdups_adj [NotStarted, Prepared, Prepared, SnapshotSynchronized, PhaseFailed, PhaseFailed] =
     take (Suc k) kForwardPhases @ e \<and> (e = [] \<or> e = [PhaseFailed] \<or> e = [PhaseAborted])"
  by (rule handoff_phases_in_order) code_simp

definition ex_handoff :: HandoffRecord where
  "ex_handoff =
     \<lparr>ho_id = 7, ho_campaign = ''c1'', ho_shard = ''s1'', ho_manifest = ''m1'', ho_manifest_digest = digest_zero,
      ho_predecessor = \<lparr>component = ''node'', uuid = replicate 15 0 @ [1], boot = 1\<rparr>,
      ho_previous_predecessor = incarnation_none,
      ho_successor = \<lparr>component = ''node'', uuid = replicate 15 0 @ [2], boot = 2\<rparr>,
      ho_phase = Prepared, ho_attempt = 1, ho_epoch = 3, ho_generation = 4, ho_snapshot = 0,
      ho_snapshot_digest = digest_zero, ho_snapshot_lsn = 0, ho_target_lsn = 0, ho_token = uuid_nil,
      ho_fence = 0, ho_started_at_ms = 10, ho_updated_at_ms = 12, ho_last_error = [],
      ho_history = [\<lparr>pt_from = NotStarted, pt_to = Prepared, pt_at_ms = 12, pt_attempt = 1, pt_note = ''ok''\<rparr>]\<rparr>"

theorem handoff_record_round_trip_witness:
  "handoff_record_from_json (handoff_to_json ex_handoff) = Inr ex_handoff"
proof -
  have "handoff_wf ex_handoff" by code_simp
  from handoff_record_round_trip [OF this] show ?thesis by blast
qed

end
