(* ===== verification/Campaign.thy ===== *)
theory Campaign
  imports Handoff
begin

text \<open>
  The evolution campaign state machine: \<^verbatim>\<open>include/fabric/evolution/campaign.hpp\<close> and
  \<^verbatim>\<open>src/campaign.cpp\<close>. The decision function, the durable record with its JSON encoding and the
  accounting of the mixed-version window; sequences of decided actions, and what they can reach.
\<close>

section \<open>States, actions and records\<close>

datatype CampaignState =
    Planned | Preflighting | Running | Paused | Aborting | Aborted | ForwardRecovery | Completed | Failed

datatype CampaignAction =
    Plan | Preflight | Start | Pause | Resume | Abort | Complete | Fail | EnterForwardRecovery | ConfirmAbort

definition campaign_states :: "CampaignState list" where
  "campaign_states =
     [Planned, Preflighting, Running, Paused, Aborting, Aborted, ForwardRecovery, Completed, Failed]"

fun campaign_state_name :: "CampaignState \<Rightarrow> string" where
  "campaign_state_name Planned = ''planned''"
| "campaign_state_name Preflighting = ''preflighting''"
| "campaign_state_name Running = ''running''"
| "campaign_state_name Paused = ''paused''"
| "campaign_state_name Aborting = ''aborting''"
| "campaign_state_name Aborted = ''aborted''"
| "campaign_state_name ForwardRecovery = ''forward_recovery''"
| "campaign_state_name Completed = ''completed''"
| "campaign_state_name Failed = ''failed''"

definition campaign_state_from :: "string \<Rightarrow> CampaignState option" where
  "campaign_state_from text = List.find (\<lambda>s. campaign_state_name s = text) campaign_states"

definition is_terminal_state :: "CampaignState \<Rightarrow> bool" where
  "is_terminal_state s = (s = Aborted \<or> s = Completed \<or> s = Failed)"

fun campaign_action_name :: "CampaignAction \<Rightarrow> string" where
  "campaign_action_name Plan = ''plan''"
| "campaign_action_name Preflight = ''preflight''"
| "campaign_action_name Start = ''start''"
| "campaign_action_name Pause = ''pause''"
| "campaign_action_name Resume = ''resume''"
| "campaign_action_name Abort = ''abort''"
| "campaign_action_name Complete = ''complete''"
| "campaign_action_name Fail = ''fail''"
| "campaign_action_name EnterForwardRecovery = ''forward_recovery''"
| "campaign_action_name ConfirmAbort = ''confirm_abort''"

record CampaignEvent =
  ev_from :: CampaignState
  ev_to :: CampaignState
  ev_action :: CampaignAction
  ev_at_ms :: TimestampMs
  ev_detail :: string

record CampaignRecord =
  ca_id :: CampaignId
  ca_manifest :: ManifestId
  ca_manifest_digest :: Digest
  ca_shard :: ShardId
  ca_state :: CampaignState
  ca_handoff :: HandoffId
  ca_revision :: Revision
  ca_epoch :: EpochNumber
  ca_generation :: Generation
  operations_in_window :: u64
  window_started_at_ms :: TimestampMs
  ca_updated_at_ms :: TimestampMs
  irreversible_boundary_crossed :: bool
  crossed_boundaries :: "MigrationStepId list"
  ca_detail :: string
  ca_events :: "CampaignEvent list"

definition kMaxCampaignEvents :: nat where
  "kMaxCampaignEvents = 256"

record ActionDecision =
  accepted :: bool
  next_state :: CampaignState
  deferred :: bool
  dec_rule :: string
  dec_reason :: string

section \<open>The decision function\<close>

definition accept :: "CampaignState \<Rightarrow> string \<Rightarrow> string \<Rightarrow> ActionDecision" where
  "accept to rl why = \<lparr>accepted = True, next_state = to, deferred = False, dec_rule = rl, dec_reason = why\<rparr>"

definition reject :: "CampaignRecord \<Rightarrow> string \<Rightarrow> string \<Rightarrow> ActionDecision" where
  "reject r rl why = \<lparr>accepted = False, next_state = ca_state r, deferred = False, dec_rule = rl, dec_reason = why\<rparr>"

fun decide_action :: "CampaignRecord \<Rightarrow> CampaignAction \<Rightarrow> HandoffRecord \<Rightarrow> bool \<Rightarrow> ActionDecision" where
  "decide_action r Plan h x = reject r ''campaign.plan_once'' ''the campaign has already been planned''"
| "decide_action r Preflight h x =
     (if ca_state r \<noteq> Planned
      then reject r ''campaign.preflight_from_planned'' ''preflight only applies to a planned campaign''
      else accept Preflighting ''campaign.preflight_from_planned'' ''preflight is permitted for a planned campaign'')"
| "decide_action r Start h x =
     (if ca_state r \<noteq> Preflighting \<and> ca_state r \<noteq> Paused
      then reject r ''campaign.start_requires_preflight''
             ''a campaign may only start after preflight, or resume from paused''
      else accept Running ''campaign.start_requires_preflight'' ''the campaign enters the running state'')"
| "decide_action r Pause h x =
     (if ca_state r \<noteq> Running
      then reject r ''campaign.pause_from_running'' ''only a running campaign can be paused''
      else if is_authority_transition_window (ho_phase h)
      then \<lparr>accepted = False, next_state = Running, deferred = True,
            dec_rule = ''campaign.pause_deferred_in_authority_window'',
            dec_reason = ''authority is mid-transfer; pausing here could leave a shard without an owner, so the '' @
                     ''request is deferred to the next phase boundary''\<rparr>
      else accept Paused ''campaign.pause_from_running'' ''the campaign pauses at a safe phase boundary'')"
| "decide_action r Resume h x =
     (if ca_state r \<noteq> Paused
      then reject r ''campaign.resume_from_paused'' ''only a paused campaign can be resumed''
      else accept Running ''campaign.resume_from_paused'' ''the campaign resumes'')"
| "decide_action r Abort h x =
     (if ca_state r = Aborting
      then accept Aborting ''campaign.abort_idempotent'' ''the campaign is already aborting''
      else if x \<or> irreversible_boundary_crossed r \<or> reached h AuthorityTransferred
      then accept ForwardRecovery ''campaign.abort_forward_recovery''
             (''an irreversible migration boundary has been crossed or authority has already moved, so '' @
              ''rolling back is unsafe and the campaign continues forward instead'')
      else accept Aborting ''campaign.abort_reversible''
             ''no irreversible boundary has been crossed, so the campaign can roll back'')"
| "decide_action r Complete h x =
     (if ca_state r \<noteq> Running \<and> ca_state r \<noteq> ForwardRecovery
      then reject r ''campaign.complete_from_running''
             ''a campaign can only complete from running or forward recovery''
      else if \<not> reached h SuccessorVerified
      then reject r ''campaign.complete_requires_verified_successor''
             ''the successor has not been verified as authoritative''
      else accept Completed ''campaign.complete_requires_verified_successor''
             ''the successor is verified and the predecessor is retired'')"
| "decide_action r Fail h x =
     accept Failed ''campaign.fail_on_error'' ''the campaign cannot make progress safely''"
| "decide_action r EnterForwardRecovery h x =
     accept ForwardRecovery ''campaign.forward_recovery''
       ''the campaign continues forward because rollback is unsafe''"
| "decide_action r ConfirmAbort h x =
     (if ca_state r \<noteq> Aborting
      then reject r ''campaign.confirm_abort_from_aborting''
             ''only a campaign that is aborting can be confirmed as aborted''
      else accept Aborted ''campaign.confirm_abort_from_aborting'' ''rollback completed and the campaign is aborted'')"

definition evaluate_campaign_action ::
  "CampaignRecord \<Rightarrow> CampaignAction \<Rightarrow> HandoffRecord \<Rightarrow> bool \<Rightarrow> ManifestId \<Rightarrow> ActionDecision" where
  "evaluate_campaign_action r action h irreversible_crossed manifest_id =
     (if ca_manifest r \<noteq> manifest_id
      then reject r ''campaign.manifest_binding''
             ''the campaign is bound to a different manifest than the one supplied''
      else if is_terminal_state (ca_state r)
      then reject r ''campaign.terminal'' ''the campaign has already reached a terminal state''
      else decide_action r action h irreversible_crossed)"

section \<open>JSON encoding\<close>

definition event_to_json :: "CampaignEvent \<Rightarrow> json" where
  "event_to_json e =
     json_set (json_set (json_set (json_set (json_set (JObject [])
       ''from'' (JString (campaign_state_name (ev_from e))))
       ''to'' (JString (campaign_state_name (ev_to e))))
       ''action'' (JString (campaign_action_name (ev_action e))))
       ''at_ms'' (JUInt (ev_at_ms e)))
       ''detail'' (JString (ev_detail e))"

definition campaign_to_json :: "CampaignRecord \<Rightarrow> json" where
  "campaign_to_json r =
     (let j1 = json_set (JObject []) ''id'' (JString (ca_id r));
          j2 = json_set j1 ''manifest'' (JString (ca_manifest r));
          j3 = json_set j2 ''manifest_digest'' (JString (to_hex (ca_manifest_digest r)));
          j4 = json_set j3 ''shard'' (JString (ca_shard r));
          j5 = json_set j4 ''state'' (JString (campaign_state_name (ca_state r)));
          j6 = json_set j5 ''handoff'' (JUInt (ca_handoff r));
          j7 = json_set j6 ''revision'' (JUInt (ca_revision r));
          j8 = json_set j7 ''epoch'' (JUInt (ca_epoch r));
          j9 = json_set j8 ''generation'' (JUInt (ca_generation r));
          j10 = json_set j9 ''operations_in_window'' (JUInt (operations_in_window r));
          j11 = json_set j10 ''window_started_at_ms'' (JUInt (window_started_at_ms r));
          j12 = json_set j11 ''updated_at_ms'' (JUInt (ca_updated_at_ms r));
          j13 = json_set j12 ''irreversible_boundary_crossed'' (JBool (irreversible_boundary_crossed r));
          j14 = json_set j13 ''crossed_boundaries'' (JArray (map JString (crossed_boundaries r)));
          j15 = json_set j14 ''detail'' (JString (ca_detail r))
      in json_set j15 ''events'' (JArray (map event_to_json (ca_events r))))"

definition action_from_name :: "string \<Rightarrow> CampaignAction option" where
  "action_from_name action =
     (if action = ''plan'' then Some Plan
      else if action = ''preflight'' then Some Preflight
      else if action = ''start'' then Some Start
      else if action = ''pause'' then Some Pause
      else if action = ''resume'' then Some Resume
      else if action = ''abort'' then Some Abort
      else if action = ''complete'' then Some Complete
      else if action = ''fail'' then Some Fail
      else if action = ''forward_recovery'' then Some EnterForwardRecovery
      else if action = ''confirm_abort'' then Some ConfirmAbort
      else None)"

definition event_from_json :: "json \<Rightarrow> CampaignEvent Result" where
  "event_from_json j =
     rbind (require (json_string j ''from'') Malformed) (\<lambda>from.
     rbind (require (json_string j ''to'') Malformed) (\<lambda>to.
     rbind (require (json_string j ''action'') Malformed) (\<lambda>action.
     rbind (require (campaign_state_from from) Malformed) (\<lambda>f.
     rbind (require (campaign_state_from to) Malformed) (\<lambda>t.
     rbind (require (action_from_name action) Malformed) (\<lambda>a.
     Inr \<lparr>ev_from = f, ev_to = t, ev_action = a, ev_at_ms = json_u64_or j ''at_ms'' 0,
          ev_detail = json_string_or j ''detail'' []\<rparr>))))))"

definition boundary_from_json :: "json \<Rightarrow> MigrationStepId Result" where
  "boundary_from_json j = rbind (require (try_string j) Malformed) (\<lambda>t. require (name_parse t) Malformed)"

definition campaign_record_from_json :: "json \<Rightarrow> CampaignRecord Result" where
  "campaign_record_from_json j =
     rbind (guard (is_object j) Malformed) (\<lambda>_.
     rbind (require (json_string j ''id'') Malformed) (\<lambda>id_text.
     rbind (require (json_string j ''manifest'') Malformed) (\<lambda>manifest_text.
     rbind (require (json_string j ''shard'') Malformed) (\<lambda>shard_text.
     rbind (require (name_parse id_text) Malformed) (\<lambda>i.
     rbind (require (name_parse manifest_text) Malformed) (\<lambda>m.
     rbind (require (name_parse shard_text) Malformed) (\<lambda>s.
     rbind (optional_digest (json_string j ''manifest_digest'')) (\<lambda>d.
     rbind (require (json_string j ''state'') Malformed) (\<lambda>state_text.
     rbind (require (campaign_state_from state_text) Malformed) (\<lambda>st.
     rbind (optional_elements j ''crossed_boundaries'' boundary_from_json) (\<lambda>bs.
     rbind (optional_elements j ''events'' event_from_json) (\<lambda>es.
     Inr \<lparr>ca_id = i, ca_manifest = m, ca_manifest_digest = d, ca_shard = s, ca_state = st,
          ca_handoff = json_u64_or j ''handoff'' 0, ca_revision = json_u64_or j ''revision'' 1,
          ca_epoch = json_u64_or j ''epoch'' 0, ca_generation = json_u64_or j ''generation'' 0,
          operations_in_window = json_u64_or j ''operations_in_window'' 0,
          window_started_at_ms = json_u64_or j ''window_started_at_ms'' 0,
          ca_updated_at_ms = json_u64_or j ''updated_at_ms'' 0,
          irreversible_boundary_crossed = json_bool_or j ''irreversible_boundary_crossed'' False,
          crossed_boundaries = bs, ca_detail = json_string_or j ''detail'' [], ca_events = es\<rparr>))))))))))))"

section \<open>The mixed-version window\<close>

record MixedVersionWindow =
  max_duration_ms :: u64
  max_operations :: u64
  min_participants :: u32
  require_read_only_shared_phase :: bool

record WindowStatus =
  ws_open :: bool
  ws_opened_at_ms :: TimestampMs
  ws_operations :: u64
  ws_operation_limit :: u64
  ws_duration_limit_ms :: u64
  ws_elapsed_ms :: u64
  ws_exhausted :: bool
  ws_reason :: string

definition evaluate_window :: "CampaignRecord \<Rightarrow> MixedVersionWindow \<Rightarrow> TimestampMs \<Rightarrow> WindowStatus" where
  "evaluate_window r w now =
     (let s0 = \<lparr>ws_open = False, ws_opened_at_ms = 0, ws_operations = 0, ws_operation_limit = max_operations w,
                ws_duration_limit_ms = max_duration_ms w, ws_elapsed_ms = 0, ws_exhausted = False, ws_reason = []\<rparr> in
      if window_started_at_ms r = 0 then s0\<lparr>ws_open := False, ws_reason := ''the mixed-version window has not opened''\<rparr>
      else
        let s1 = s0\<lparr>ws_open := True, ws_opened_at_ms := window_started_at_ms r, ws_operations := operations_in_window r,
                   ws_elapsed_ms := (if now > window_started_at_ms r then now - window_started_at_ms r else 0)\<rparr> in
        if max_operations w \<noteq> 0 \<and> ws_operations s1 > max_operations w
        then s1\<lparr>ws_exhausted := True, ws_reason := ''the mixed-version operation budget is exhausted''\<rparr>
        else if max_duration_ms w \<noteq> 0 \<and> ws_elapsed_ms s1 > max_duration_ms w
        then s1\<lparr>ws_exhausted := True, ws_reason := ''the mixed-version time budget is exhausted''\<rparr>
        else s1\<lparr>ws_reason := ''the mixed-version window is open''\<rparr>)"

section \<open>Sequences of decided actions\<close>

text \<open>One request to the campaign and the sequence of states a campaign goes through when every decided
  next state is stored.\<close>

record ActionRequest =
  rq_action :: CampaignAction
  rq_handoff :: HandoffRecord
  rq_irreversible :: bool
  rq_manifest :: ManifestId

definition decide :: "CampaignRecord \<Rightarrow> ActionRequest \<Rightarrow> ActionDecision" where
  "decide r q = evaluate_campaign_action r (rq_action q) (rq_handoff q) (rq_irreversible q) (rq_manifest q)"

definition campaign_after :: "CampaignRecord \<Rightarrow> ActionRequest \<Rightarrow> CampaignRecord" where
  "campaign_after r q = r\<lparr>ca_state := next_state (decide r q)\<rparr>"

lemmas campaign_decision_defs = decide_def evaluate_campaign_action_def accept_def reject_def

lemma rejected_keeps_state: "\<not> accepted (decide r q) \<Longrightarrow> next_state (decide r q) = ca_state r"
  by (cases "rq_action q") (auto simp: campaign_decision_defs split: if_splits)

lemma terminal_keeps_state: "is_terminal_state (ca_state r) \<Longrightarrow> next_state (decide r q) = ca_state r"
  by (simp add: campaign_decision_defs)

lemma no_rollback_step:
  assumes "irreversible_boundary_crossed r" "ca_state r \<notin> {Aborting, Aborted}"
  shows "next_state (decide r q) \<notin> {Aborting, Aborted}"
  using assms by (cases "rq_action q") (auto simp: campaign_decision_defs)

definition no_rollback :: "CampaignRecord \<Rightarrow> bool" where
  "no_rollback r = (irreversible_boundary_crossed r \<and> ca_state r \<notin> {Aborting, Aborted})"

interpretation campaign: invariant_machine campaign_after "\<lambda>_ _. True" no_rollback
  by unfold_locales (auto simp: no_rollback_def campaign_after_def no_rollback_step simp del: insert_iff)

lemma campaign_admissible: "campaign.admissible r qs"
  by (induction qs arbitrary: r) simp_all

text \<open>C29: No rollback across an irreversible boundary. Once a campaign that is not already aborting has
  recorded an irreversible boundary as crossed, no sequence of actions, whatever the handoffs, flags
  and manifests they are evaluated with, brings it to \<^verbatim>\<open>Aborting\<close> or \<^verbatim>\<open>Aborted\<close>.\<close>

theorem no_rollback_after_boundary:
  assumes "irreversible_boundary_crossed r" "ca_state r \<noteq> Aborting" "ca_state r \<noteq> Aborted"
  shows "ca_state (foldl campaign_after r qs) \<noteq> Aborting \<and> ca_state (foldl campaign_after r qs) \<noteq> Aborted"
  using campaign.inv_run [OF _ campaign_admissible, of r qs] assms by (auto simp: no_rollback_def)

lemma terminal_stays: "is_terminal_state (ca_state s) \<Longrightarrow> ca_state (foldl campaign_after s qs) = ca_state s"
proof (induction qs arbitrary: s)
  case (Cons q qs)
  have "ca_state (campaign_after s q) = ca_state s"
    using Cons.prems by (simp add: campaign_after_def terminal_keeps_state)
  with Cons show ?case by simp
qed simp

text \<open>C30: A campaign completes only with a verified successor, and a finished campaign stays finished: a
  decision that moves a campaign to \<^verbatim>\<open>Completed\<close> is a \<^verbatim>\<open>Complete\<close> action on a running or
  forward-recovering campaign whose handoff has reached \<^verbatim>\<open>SuccessorVerified\<close>; and no sequence of
  actions changes a terminal state, be it \<^verbatim>\<open>Completed\<close>, \<^verbatim>\<open>Aborted\<close> or \<^verbatim>\<open>Failed\<close>.\<close>

theorem completion_requires_verified_successor:
  "(next_state (decide r q) = Completed \<and> ca_state r \<noteq> Completed \<longrightarrow>
      rq_action q = Complete \<and> accepted (decide r q) \<and> (ca_state r = Running \<or> ca_state r = ForwardRecovery) \<and>
      ca_manifest r = rq_manifest q \<and> ho_phase (rq_handoff q) \<in> {SuccessorVerified, PredecessorRetired}) \<and>
   (is_terminal_state (ca_state s) \<longrightarrow> ca_state (foldl campaign_after s qs) = ca_state s)"
proof -
  have reach: "ho_phase h \<in> {SuccessorVerified, PredecessorRetired}" if "reached h SuccessorVerified" for h
    using that by (cases "ho_phase h") (simp_all add: reached_def is_forward_phase_def)
  then show ?thesis
    using terminal_stays [of s qs] by (cases "rq_action q") (auto simp: campaign_decision_defs split: if_splits)
qed

text \<open>Pausing never splits an authority transfer: a running campaign whose handoff is between the
  fence and the transfer answers a pause with a deferral and keeps running; in every other phase the
  pause is accepted.\<close>

theorem pause_deferred_in_transfer_window:
  assumes "ca_state r = Running" "rq_action q = Pause" "rq_manifest q = ca_manifest r"
  shows "(deferred (decide r q) = (ho_phase (rq_handoff q) = PredecessorFenced \<or> ho_phase (rq_handoff q) = AuthorityTransferred)) \<and>
    next_state (decide r q) = (if deferred (decide r q) then Running else Paused) \<and>
    accepted (decide r q) = (\<not> deferred (decide r q))"
  using assms by (simp add: campaign_decision_defs is_terminal_state_def is_authority_transition_window_def)

text \<open>A failed handoff hides a completed transfer. Authority has moved once a handoff passed
  \<^verbatim>\<open>AuthorityTransferred\<close>, but when the handoff is then marked \<^verbatim>\<open>Failed\<close> or \<^verbatim>\<open>Aborted\<close> an
  abort of the running campaign is decided as a reversible rollback unless a boundary was recorded,
  while the same abort one phase change earlier is decided as forward recovery.\<close>

theorem failed_handoff_hides_transfer:
  assumes "ca_state r = Running" "ca_manifest r = m" "\<not> irreversible_boundary_crossed r"
    and "ho_phase h = AuthorityTransferred" "p \<in> {PhaseFailed, PhaseAborted}"
  shows "next_state (evaluate_campaign_action r Abort h False m) = ForwardRecovery \<and>
    validate_handoff_transition (ho_phase h) p = Ok \<and>
    next_state (evaluate_campaign_action r Abort (h\<lparr>ho_phase := p\<rparr>) False m) = Aborting"
  using assms
  by (auto simp: campaign_decision_defs is_terminal_state_def reached_def is_forward_phase_def
      validate_handoff_transition_def)

section \<open>The window only fills up\<close>

lemma window_exhausted_iff:
  "ws_exhausted (evaluate_window r w now) =
     (window_started_at_ms r \<noteq> 0 \<and>
      (max_operations w \<noteq> 0 \<and> operations_in_window r > max_operations w \<or>
       max_duration_ms w \<noteq> 0 \<and> unat (max_duration_ms w) + unat (window_started_at_ms r) < unat now))"
proof -
  have "now - s > d \<longleftrightarrow> unat d + unat s < unat now" if "s < now" for s d :: u64
    using that by (auto simp: word_less_nat_alt unat_sub_if')
  moreover have "\<not> unat d + unat s < unat now" if "\<not> s < now" for s d :: u64
    using that by (simp add: word_less_nat_alt)
  ultimately show ?thesis by (auto simp: evaluate_window_def Let_def)
qed

text \<open>An exhausted mixed-version window stays exhausted: later evaluations with at least as many
  operations report exhaustion too, with no wrap-around of the elapsed time.\<close>

theorem window_exhaustion_persists:
  assumes "ws_exhausted (evaluate_window r w now)" "now \<le> now'"
    and "window_started_at_ms r' = window_started_at_ms r" "operations_in_window r \<le> operations_in_window r'"
  shows "ws_exhausted (evaluate_window r' w now')"
  using assms unfolding window_exhausted_iff by (auto simp: word_le_nat_alt word_less_nat_alt)

section \<open>Round trip of the record\<close>

lemma campaign_state_round_trip [codec_simps]: "campaign_state_from (campaign_state_name s) = Some s"
  by (cases s) (simp_all add: campaign_state_from_def campaign_states_def)

lemma action_round_trip [codec_simps]: "action_from_name (campaign_action_name a) = Some a"
  by (cases a) (simp_all add: action_from_name_def)

interpretation event_codec: json_codec event_to_json event_from_json "\<lambda>_. True"
  by unfold_locales (simp add: event_from_json_def event_to_json_def json_field_defs codec_simps)

interpretation boundary_codec: json_codec JString boundary_from_json name_is_valid_text
  by unfold_locales (simp add: boundary_from_json_def codec_simps name_parse_valid)

definition campaign_wf :: "CampaignRecord \<Rightarrow> bool" where
  "campaign_wf r =
     (name_is_valid_text (ca_id r) \<and> name_is_valid_text (ca_manifest r) \<and> name_is_valid_text (ca_shard r) \<and>
      digest_wf (ca_manifest_digest r) \<and> list_all name_is_valid_text (crossed_boundaries r))"

lemma campaign_json_round_trip:
  assumes "campaign_wf r"
  shows "campaign_record_from_json (campaign_to_json r) = Inr r"
proof -
  let ?j = "campaign_to_json r"
  have find: "is_object ?j" "json_string ?j ''id'' = Some (ca_id r)" "json_string ?j ''manifest'' = Some (ca_manifest r)"
    "json_string ?j ''shard'' = Some (ca_shard r)"
    "json_string ?j ''manifest_digest'' = Some (to_hex (ca_manifest_digest r))"
    "json_string ?j ''state'' = Some (campaign_state_name (ca_state r))"
    "json_find ?j ''crossed_boundaries'' = Some (JArray (map JString (crossed_boundaries r)))"
    "json_find ?j ''events'' = Some (JArray (map event_to_json (ca_events r)))"
    "json_u64_or ?j ''handoff'' 0 = ca_handoff r" "json_u64_or ?j ''revision'' 1 = ca_revision r"
    "json_u64_or ?j ''epoch'' 0 = ca_epoch r" "json_u64_or ?j ''generation'' 0 = ca_generation r"
    "json_u64_or ?j ''operations_in_window'' 0 = operations_in_window r"
    "json_u64_or ?j ''window_started_at_ms'' 0 = window_started_at_ms r"
    "json_u64_or ?j ''updated_at_ms'' 0 = ca_updated_at_ms r"
    "json_bool_or ?j ''irreversible_boundary_crossed'' False = irreversible_boundary_crossed r"
    "json_string_or ?j ''detail'' [] = ca_detail r"
    by (simp_all add: campaign_to_json_def Let_def json_field_defs codec_simps)
  have "optional_elements ?j ''events'' event_from_json = Inr (ca_events r)"
    using event_codec.array_round_trip [of "ca_events r"]
    by (simp add: optional_elements_def find codec_simps json_elements list_all_iff)
  moreover have "optional_elements ?j ''crossed_boundaries'' boundary_from_json = Inr (crossed_boundaries r)"
    using boundary_codec.array_round_trip [of "crossed_boundaries r"] assms
    by (simp add: optional_elements_def find codec_simps json_elements campaign_wf_def)
  ultimately show ?thesis
    using assms unfolding campaign_record_from_json_def campaign_wf_def
    by (simp add: find codec_simps name_parse_valid optional_digest_def)
qed

interpretation campaign_codec: json_codec campaign_to_json campaign_record_from_json campaign_wf
  by unfold_locales (rule campaign_json_round_trip)

text \<open>The durable campaign record round trips: decoding the encoding of a record with valid identities
  gives the same record, crossed boundaries and events included, and two such records with the same
  encoding are equal.\<close>

theorem campaign_record_round_trip:
  assumes "campaign_wf r"
  shows "campaign_record_from_json (campaign_to_json r) = Inr r \<and>
    {q. campaign_wf q \<and> campaign_to_json q = campaign_to_json r} = {r}"
  using assms campaign_codec.round_trip campaign_codec.encode_injective by blast

section \<open>Witnesses\<close>

definition ex_campaign :: "CampaignState \<Rightarrow> bool \<Rightarrow> CampaignRecord" where
  "ex_campaign s crossed =
     \<lparr>ca_id = ''c1'', ca_manifest = ''m1'', ca_manifest_digest = digest_zero, ca_shard = ''s1'', ca_state = s,
      ca_handoff = 7, ca_revision = 1, ca_epoch = 3, ca_generation = 4, operations_in_window = 5,
      window_started_at_ms = 100, ca_updated_at_ms = 120, irreversible_boundary_crossed = crossed,
      crossed_boundaries = [''b1''], ca_detail = [],
      ca_events = [\<lparr>ev_from = Planned, ev_to = Preflighting, ev_action = Preflight, ev_at_ms = 90, ev_detail = []\<rparr>]\<rparr>"

definition ex_action :: "CampaignAction \<Rightarrow> HandoffPhase \<Rightarrow> ActionRequest" where
  "ex_action a p = \<lparr>rq_action = a, rq_handoff = ex_handoff\<lparr>ho_phase := p\<rparr>, rq_irreversible = False, rq_manifest = ''m1''\<rparr>"

theorem no_rollback_after_boundary_witness:
  "ca_state (foldl campaign_after (ex_campaign Running True) [ex_action Abort Prepared, ex_action ConfirmAbort Prepared]) \<noteq> Aborting \<and>
   ca_state (foldl campaign_after (ex_campaign Running True) [ex_action Abort Prepared, ex_action ConfirmAbort Prepared]) \<noteq> Aborted"
  by (rule no_rollback_after_boundary) (simp_all add: ex_campaign_def)

theorem completion_requires_verified_successor_witness:
  "ca_state (foldl campaign_after (campaign_after (ex_campaign Running False) (ex_action Complete SuccessorVerified))
     [ex_action Fail SuccessorVerified]) = Completed \<and>
   ca_state (foldl campaign_after (ex_campaign Failed False) [ex_action Abort Prepared, ex_action Resume Prepared]) = Failed \<and>
   ho_phase (rq_handoff (ex_action Complete SuccessorVerified)) \<in> {SuccessorVerified, PredecessorRetired}"
proof -
  have c: "next_state (decide (ex_campaign Running False) (ex_action Complete SuccessorVerified)) = Completed"
    "ca_state (ex_campaign Running False) \<noteq> Completed" by code_simp+
  have t: "is_terminal_state (ca_state (ex_campaign Failed False))" "ca_state (ex_campaign Failed False) = Failed" by code_simp+
  have d: "ca_state (campaign_after (ex_campaign Running False) (ex_action Complete SuccessorVerified)) = Completed"
    using c(1) by (simp add: campaign_after_def)
  from completion_requires_verified_successor [of "ex_campaign Running False" "ex_action Complete SuccessorVerified" "ex_campaign Failed False"
        "[ex_action Abort Prepared, ex_action Resume Prepared]"] c t
    completion_requires_verified_successor [of _ _ "campaign_after (ex_campaign Running False) (ex_action Complete SuccessorVerified)" "[ex_action Fail SuccessorVerified]"] d
  show ?thesis by (simp add: is_terminal_state_def del: foldl.simps)
qed

theorem pause_deferred_in_transfer_window_witness:
  "deferred (decide (ex_campaign Running False) (ex_action Pause PredecessorFenced)) \<and>
   next_state (decide (ex_campaign Running False) (ex_action Pause Prepared)) = Paused"
proof -
  have s: "ca_state (ex_campaign Running False) = Running" by (simp add: ex_campaign_def)
  have q: "rq_action (ex_action Pause p) = Pause" "rq_manifest (ex_action Pause p) = ca_manifest (ex_campaign Running False)"
      "ho_phase (rq_handoff (ex_action Pause p)) = p" for p
    by (simp_all add: ex_action_def ex_campaign_def)
  show ?thesis
    using pause_deferred_in_transfer_window [OF s q(1,2), of PredecessorFenced]
      pause_deferred_in_transfer_window [OF s q(1,2), of Prepared] by (simp add: q(3))
qed

theorem failed_handoff_hides_transfer_witness:
  "next_state (evaluate_campaign_action (ex_campaign Running False) Abort
     (ex_handoff\<lparr>ho_phase := AuthorityTransferred, ho_phase := PhaseFailed\<rparr>) False ''m1'') = Aborting"
  using failed_handoff_hides_transfer [of "ex_campaign Running False" "''m1''" "ex_handoff\<lparr>ho_phase := AuthorityTransferred\<rparr>" PhaseFailed]
  by (simp add: ex_campaign_def)

theorem window_exhaustion_persists_witness:
  "ws_exhausted (evaluate_window (ex_campaign Running False)
     \<lparr>max_duration_ms = 50, max_operations = 9, min_participants = 1, require_read_only_shared_phase = True\<rparr> 300)"
  by (rule window_exhaustion_persists [of "ex_campaign Running False" _ 200])
    (simp_all add: window_exhausted_iff ex_campaign_def)

theorem campaign_record_round_trip_witness:
  "campaign_record_from_json (campaign_to_json (ex_campaign Paused True)) = Inr (ex_campaign Paused True)"
proof -
  have "campaign_wf (ex_campaign Paused True)" by code_simp
  from campaign_record_round_trip [OF this] show ?thesis by blast
qed

end
