(* ===== verification/Manifest.thy ===== *)
theory Manifest
  imports Compatibility Protocol Campaign Migration
begin

text \<open>
  The evolution manifest: \<^verbatim>\<open>include/fabric/evolution/manifest.hpp\<close> and \<^verbatim>\<open>src/manifest.cpp\<close>. Its
  records, the queries on the declared migration steps, the cross-field validation in the order the
  code checks it, the digest and the JSON codec. The migration path is shown to be the unique
  contiguous chain of declared steps, whatever the loop guard, and a manifest that validates to have
  the properties the rest of the runtime relies on.
\<close>

section \<open>Records\<close>

record ComponentSpec =
  cs_id :: ComponentId
  cs_software :: SoftwareVersion
  cs_protocol :: ProtocolVersion
  cs_schema :: SchemaVersion
  cs_features :: FeatureSet
  cs_artifact_digest :: Digest
  cs_host :: string
  cs_port :: u16

definition spec_is_valid :: "ComponentSpec \<Rightarrow> bool" where
  "spec_is_valid s =
     (name_is_valid (cs_id s) \<and> sv_is_valid (cs_software s) \<and> pv_is_valid (cs_protocol s) \<and>
      tagged_is_valid (cs_schema s) \<and> cs_host s \<noteq> [] \<and> cs_port s \<noteq> 0)"

datatype RollbackKind = RollbackToPredecessor | RollbackIfNoBoundaryCrossed | ForwardRecoveryOnly

fun rollback_kind_name :: "RollbackKind \<Rightarrow> string" where
  "rollback_kind_name RollbackToPredecessor = ''rollback_to_predecessor''"
| "rollback_kind_name RollbackIfNoBoundaryCrossed = ''rollback_if_no_boundary_crossed''"
| "rollback_kind_name ForwardRecoveryOnly = ''forward_recovery_only''"

definition rollback_kind_from :: "string \<Rightarrow> RollbackKind option" where
  "rollback_kind_from text =
     (if text = ''rollback_to_predecessor'' then Some RollbackToPredecessor
      else if text = ''rollback_if_no_boundary_crossed'' then Some RollbackIfNoBoundaryCrossed
      else if text = ''forward_recovery_only'' then Some ForwardRecoveryOnly
      else None)"

record RollbackStrategy =
  rs_kind :: RollbackKind
  rs_recovery_plan :: string
  rs_boundaries :: "MigrationStepId list"

definition declares :: "RollbackStrategy \<Rightarrow> MigrationStepId \<Rightarrow> bool" where
  "declares s step = (step \<in> set (rs_boundaries s))"

record EvolutionManifest =
  mf_id :: ManifestId
  mf_campaign :: CampaignId
  mf_shard :: ShardId
  mf_revision :: Revision
  mf_source :: ComponentSpec
  mf_target :: ComponentSpec
  mf_window :: MixedVersionWindow
  mf_compatibility :: CompatibilityDecision
  mf_migrations :: "MigrationStepSpec list"
  mf_protocol :: ProtocolPath
  mf_rollback :: RollbackStrategy
  mf_digest :: Digest

section \<open>Queries\<close>

definition effective_window :: "EvolutionManifest \<Rightarrow> MixedVersionWindow" where
  "effective_window m =
     (let w = mf_window m; c = mf_compatibility m;
          w1 = (if cd_max_mixed_version_ms c \<noteq> 0
                then w\<lparr>max_duration_ms := min (max_duration_ms w) (cd_max_mixed_version_ms c)\<rparr> else w) in
      if cd_max_mixed_version_operations c \<noteq> 0
      then w1\<lparr>max_operations := min (max_operations w1) (cd_max_mixed_version_operations c)\<rparr> else w1)"

definition step_from :: "EvolutionManifest \<Rightarrow> SchemaVersion \<Rightarrow> MigrationStepSpec option" where
  "step_from m schema = List.find (\<lambda>s. ms_from s = schema) (mf_migrations m)"

definition step_to :: "EvolutionManifest \<Rightarrow> SchemaVersion \<Rightarrow> MigrationStepSpec option" where
  "step_to m schema = List.find (\<lambda>s. ms_to s = schema) (mf_migrations m)"

text \<open>
  The loop \<^verbatim>\<open>while (current != to && guard <= migrations.size())\<close>: the first argument is the number
  of rounds the guard still allows; the answer is the path if \<^verbatim>\<open>current\<close> reached \<^verbatim>\<open>to\<close>.
\<close>

fun path_loop :: "nat \<Rightarrow> EvolutionManifest \<Rightarrow> SchemaVersion \<Rightarrow> SchemaVersion \<Rightarrow> MigrationStepSpec list \<Rightarrow> MigrationStepSpec list" where
  "path_loop rounds m current to path =
     (if current = to then path
      else case rounds of
        0 \<Rightarrow> []
      | Suc n \<Rightarrow>
          (case step_from m current of
             None \<Rightarrow> []
           | Some step \<Rightarrow>
               if ms_to step \<le> current then []
               else path_loop n m (ms_to step) to (path @ [step])))"

definition migration_path :: "EvolutionManifest \<Rightarrow> SchemaVersion \<Rightarrow> SchemaVersion \<Rightarrow> MigrationStepSpec list" where
  "migration_path m from to =
     (if from = to then [] else if to < from then []
      else path_loop (length (mf_migrations m) + 1) m from to [])"

definition crosses_irreversible_boundary :: "EvolutionManifest \<Rightarrow> SchemaVersion \<Rightarrow> SchemaVersion \<Rightarrow> bool" where
  "crosses_irreversible_boundary m from to = list_ex ms_irreversible_boundary (migration_path m from to)"

section \<open>Validation\<close>

definition kMaxMixedVersionWindowMs :: u64 where
  "kMaxMixedVersionWindowMs = 30 * 24 * 60 * 60 * 1000"

definition kMaxMixedVersionOperations :: u64 where
  "kMaxMixedVersionOperations = 10000000000"

definition kMaxMigrationSteps :: nat where
  "kMaxMigrationSteps = 128"

text \<open>Checks run in sequence: the first refusal is the answer.\<close>

definition status_then :: "Status \<Rightarrow> Status \<Rightarrow> Status" where
  "status_then s t = (if s \<noteq> Ok then s else t)"

definition validate_identity :: "EvolutionManifest \<Rightarrow> Status" where
  "validate_identity m =
     (let s = mf_source m; t = mf_target m in
      if \<not> name_is_valid (mf_id m) then InvalidArgument
      else if \<not> name_is_valid (mf_campaign m) then InvalidArgument
      else if \<not> name_is_valid (mf_shard m) then InvalidArgument
      else if \<not> spec_is_valid s then InvalidArgument
      else if \<not> spec_is_valid t then InvalidArgument
      else if cs_id s = cs_id t \<and> cs_host s = cs_host t \<and> cs_port s = cs_port t then InvalidArgument
      else if length (mf_migrations m) > kMaxMigrationSteps then BoundsExceeded
      else Ok)"

definition validate_compatibility :: "(u64 \<Rightarrow> string) \<Rightarrow> EvolutionManifest \<Rightarrow> Status" where
  "validate_compatibility dtoa m =
     (let c = mf_compatibility m; s = mf_source m; t = mf_target m in
      if decision_verify dtoa c \<noteq> Ok then decision_verify dtoa c
      else if cd_verdict c = VerdictUnsupported then CompatibilityInsufficient
      else if cd_subject c \<noteq> cs_id s then CompatibilityInsufficient
      else if cd_source c \<noteq> cs_software s \<or> cd_target c \<noteq> cs_software t then CompatibilityInsufficient
      else if cd_source_protocol c \<noteq> cs_protocol s \<or> cd_target_protocol c \<noteq> cs_protocol t then CompatibilityInsufficient
      else if cd_source_schema c \<noteq> cs_schema s \<or> cd_target_schema c \<noteq> cs_schema t then CompatibilityInsufficient
      else Ok)"

text \<open>The loop over the steps; \<open>ids\<close> holds the step ids seen so far.\<close>

fun validate_steps :: "RollbackStrategy \<Rightarrow> MigrationStepId set \<Rightarrow> MigrationStepSpec list \<Rightarrow> Status" where
  "validate_steps rb ids [] = Ok"
| "validate_steps rb ids (step # steps) =
     (if \<not> name_is_valid (ms_id step) then InvalidArgument
      else if ms_id step \<in> ids then InvalidArgument
      else if ms_function step = [] then InvalidArgument
      else if \<not> tagged_is_valid (ms_from step) \<or> \<not> tagged_is_valid (ms_to step) \<or> ms_to step \<le> ms_from step then Malformed
      else if ms_irreversible_boundary step \<and> ms_reversible step then Malformed
      else if \<not> ms_deterministic step then Malformed
      else if ms_irreversible_boundary step \<and> \<not> declares rb (ms_id step) then IrreversibleBoundary
      else validate_steps rb (insert (ms_id step) ids) steps)"

definition validate_chain :: "EvolutionManifest \<Rightarrow> Status" where
  "validate_chain m =
     (let from = cs_schema (mf_source m); to = cs_schema (mf_target m) in
      if from \<noteq> to then (if migration_path m from to = [] then MigrationFailure else Ok)
      else if mf_migrations m \<noteq> [] then Malformed
      else Ok)"

definition validate_rollback :: "EvolutionManifest \<Rightarrow> Status" where
  "validate_rollback m =
     (let rb = mf_rollback m;
          crosses = crosses_irreversible_boundary m (cs_schema (mf_source m)) (cs_schema (mf_target m)) in
      if rs_kind rb = ForwardRecoveryOnly \<and> rs_recovery_plan rb = [] then Malformed
      else if rs_kind rb = ForwardRecoveryOnly \<and> \<not> crosses then Malformed
      else if rs_kind rb = RollbackToPredecessor \<and> crosses then IrreversibleBoundary
      else if \<not> list_all (\<lambda>b. list_ex (\<lambda>s. ms_id s = b \<and> ms_irreversible_boundary s) (mf_migrations m)) (rs_boundaries rb)
      then IrreversibleBoundary
      else Ok)"

definition validate_protocol :: "EvolutionManifest \<Rightarrow> Status" where
  "validate_protocol m =
     (let p = mf_protocol m; s = mf_source m; t = mf_target m; c = mf_compatibility m in
      if path_accepted p = [] then InvalidArgument
      else if \<not> path_accepts p (cs_protocol s) then UnsupportedProtocol
      else if \<not> path_accepts p (cs_protocol t) then UnsupportedProtocol
      else if \<not> list_all (\<lambda>v. compatible_with v (cs_protocol s) \<and> compatible_with v (cs_protocol t)) (path_accepted p)
      then UnsupportedProtocol
      else if \<not> fs_contains_all (path_required_features p) (path_required_features p) then InvalidArgument
      else if \<not> fs_contains_all (path_allowed_features p) (path_required_features p) then FeatureNotNegotiated
      else if \<not> fs_contains_all (fs_intersect (cs_features s) (cs_features t)) (path_required_features p) then FeatureNotNegotiated
      else if \<not> fs_contains_all (cd_certified_features c) (path_required_features p) then CompatibilityInsufficient
      else if fs_without (path_allowed_features p) (cd_certified_features c) \<noteq> 0 then CompatibilityInsufficient
      else Ok)"

definition validate_window :: "EvolutionManifest \<Rightarrow> Status" where
  "validate_window m =
     (let w = mf_window m; c = mf_compatibility m; rb = mf_rollback m in
      if max_duration_ms w = 0 then InvalidArgument
      else if max_duration_ms w > kMaxMixedVersionWindowMs then BoundsExceeded
      else if max_operations w = 0 then InvalidArgument
      else if max_operations w > kMaxMixedVersionOperations then BoundsExceeded
      else if min_participants w = 0 then InvalidArgument
      else if cd_verdict c = Supported \<and> \<not> cd_rollback_permitted c \<and> rs_kind rb = RollbackToPredecessor
      then CompatibilityInsufficient
      else if rs_kind rb \<noteq> ForwardRecoveryOnly \<and> rs_recovery_plan rb = [] then InvalidArgument
      else Ok)"

definition manifest_validate :: "(u64 \<Rightarrow> string) \<Rightarrow> EvolutionManifest \<Rightarrow> Status" where
  "manifest_validate dtoa m =
     status_then (validate_identity m)
     (status_then (validate_compatibility dtoa m)
     (status_then (validate_steps (mf_rollback m) {} (mf_migrations m))
     (status_then (validate_chain m)
     (status_then (validate_rollback m)
     (status_then (validate_protocol m)
     (validate_window m))))))"

section \<open>Codec\<close>

definition window_to_json :: "MixedVersionWindow \<Rightarrow> json" where
  "window_to_json w =
     json_set (json_set (json_set (json_set (JObject [])
       ''max_duration_ms'' (JUInt (max_duration_ms w)))
       ''max_operations'' (JUInt (max_operations w)))
       ''min_participants'' (JUInt (ucast (min_participants w))))
       ''require_read_only_shared_phase'' (JBool (require_read_only_shared_phase w))"

definition path_to_json :: "ProtocolPath \<Rightarrow> json" where
  "path_to_json p =
     json_set (json_set (json_set (JObject [])
       ''accepted'' (JArray (map (\<lambda>v. JString (protocol_version_to_string v)) (path_accepted p))))
       ''required_features'' (feature_array (path_required_features p)))
       ''allowed_features'' (feature_array (path_allowed_features p))"

definition rollback_to_json :: "RollbackStrategy \<Rightarrow> json" where
  "rollback_to_json r =
     json_set (json_set (json_set (JObject [])
       ''kind'' (JString (rollback_kind_name (rs_kind r))))
       ''recovery_plan'' (JString (rs_recovery_plan r)))
       ''declared_irreversible_boundaries'' (JArray (map JString (rs_boundaries r)))"

definition component_spec_to_json :: "ComponentSpec \<Rightarrow> json" where
  "component_spec_to_json s =
     json_set (json_set (json_set (json_set (json_set (json_set (json_set (json_set (JObject [])
       ''id'' (JString (cs_id s)))
       ''software'' (JString (software_version_to_string (cs_software s))))
       ''protocol'' (JString (protocol_version_to_string (cs_protocol s))))
       ''schema'' (JUInt (ucast (cs_schema s))))
       ''features'' (feature_array (cs_features s)))
       ''artifact_digest'' (JString (to_hex (cs_artifact_digest s))))
       ''host'' (JString (cs_host s)))
       ''port'' (JUInt (ucast (cs_port s)))"

definition migration_step_to_json :: "MigrationStepSpec \<Rightarrow> json" where
  "migration_step_to_json s =
     json_set (json_set (json_set (json_set (json_set (json_set (json_set (json_set (json_set (json_set (JObject [])
       ''id'' (JString (ms_id s)))
       ''from'' (JUInt (ucast (ms_from s))))
       ''to'' (JUInt (ucast (ms_to s))))
       ''function'' (JString (ms_function s)))
       ''parameters'' (ms_parameters s))
       ''deterministic'' (JBool (ms_deterministic s)))
       ''reversible'' (JBool (ms_reversible s)))
       ''irreversible_boundary'' (JBool (ms_irreversible_boundary s)))
       ''evidence_digest'' (JString (to_hex (ms_evidence_digest s))))
       ''description'' (JString (ms_description s))"

text \<open>Every field except the digest, in the order \<^verbatim>\<open>compute_digest\<close> and \<^verbatim>\<open>to_json\<close> set them.\<close>

definition manifest_body :: "EvolutionManifest \<Rightarrow> json" where
  "manifest_body m =
     json_set (json_set (json_set (json_set (json_set (json_set (json_set (json_set (json_set (json_set (json_set (JObject [])
       ''id'' (JString (mf_id m)))
       ''campaign'' (JString (mf_campaign m)))
       ''shard'' (JString (mf_shard m)))
       ''revision'' (JUInt (mf_revision m)))
       ''source'' (component_spec_to_json (mf_source m)))
       ''target'' (component_spec_to_json (mf_target m)))
       ''compatibility'' (decision_to_json (mf_compatibility m)))
       ''window'' (window_to_json (mf_window m)))
       ''migrations'' (JArray (map migration_step_to_json (mf_migrations m))))
       ''protocol'' (path_to_json (mf_protocol m)))
       ''rollback'' (rollback_to_json (mf_rollback m))"

definition manifest_digest :: "(u64 \<Rightarrow> string) \<Rightarrow> EvolutionManifest \<Rightarrow> Digest" where
  "manifest_digest dtoa m = text_digest (dump dtoa (manifest_body m))"

definition manifest_seal :: "(u64 \<Rightarrow> string) \<Rightarrow> EvolutionManifest \<Rightarrow> EvolutionManifest Result" where
  "manifest_seal dtoa m =
     (if manifest_validate dtoa m \<noteq> Ok then Inl (manifest_validate dtoa m)
      else Inr (m\<lparr>mf_digest := manifest_digest dtoa m\<rparr>))"

definition manifest_verify_digest :: "(u64 \<Rightarrow> string) \<Rightarrow> EvolutionManifest \<Rightarrow> Status" where
  "manifest_verify_digest dtoa m = (if manifest_digest dtoa m \<noteq> mf_digest m then IntegrityFailure else Ok)"

definition manifest_to_json :: "EvolutionManifest \<Rightarrow> json" where
  "manifest_to_json m = json_set (manifest_body m) ''digest'' (JString (to_hex (mf_digest m)))"

definition features_from :: "json \<Rightarrow> FeatureSet Result" where
  "features_from v = (if is_null v then Inr fs_none else features_from_array v)"

text \<open>\<^verbatim>\<open>if (const Json* v = value.find(key)) { ... features_from(*v) ... }\<close>\<close>

definition features_field :: "json \<Rightarrow> string \<Rightarrow> FeatureSet Result" where
  "features_field j key = (case json_find j key of None \<Rightarrow> Inr fs_none | Some v \<Rightarrow> features_from v)"

definition non_empty_string :: "json \<Rightarrow> string \<Rightarrow> string Result" where
  "non_empty_string j key =
     rbind (require (json_string j key) Malformed) (\<lambda>t. if t = [] then Inl Malformed else Inr t)"

definition port_field :: "json \<Rightarrow> u16 Result" where
  "port_field j =
     rbind (require (json_u64 j ''port'') Malformed) (\<lambda>p. if p = 0 \<or> p > 65535 then Inl Malformed else Inr (ucast p))"

definition component_spec_from_json :: "json \<Rightarrow> ComponentSpec Result" where
  "component_spec_from_json j =
     rbind (guard (is_object j) Malformed) (\<lambda>_.
     rbind (name_field j ''id'') (\<lambda>i.
     rbind (software_field j ''software'') (\<lambda>sv.
     rbind (protocol_field j ''protocol'') (\<lambda>pv.
     rbind (schema_version_field j ''schema'') (\<lambda>sc.
     rbind (features_field j ''features'') (\<lambda>fs.
     rbind (digest_field j ''artifact_digest'') (\<lambda>ad.
     rbind (non_empty_string j ''host'') (\<lambda>h.
     rbind (port_field j) (\<lambda>p.
     Inr \<lparr>cs_id = i, cs_software = sv, cs_protocol = pv, cs_schema = sc, cs_features = fs,
       cs_artifact_digest = ad, cs_host = h, cs_port = p\<rparr>)))))))))"

definition parameters_field :: "json \<Rightarrow> json Result" where
  "parameters_field j =
     (case json_find j ''parameters'' of
        None \<Rightarrow> Inr (JObject [])
      | Some p \<Rightarrow> if is_object p then Inr p else Inl Malformed)"

definition migration_step_from_json :: "json \<Rightarrow> MigrationStepSpec Result" where
  "migration_step_from_json j =
     rbind (guard (is_object j) Malformed) (\<lambda>_.
     rbind (name_field j ''id'') (\<lambda>i.
     rbind (schema_version_field j ''from'') (\<lambda>f.
     rbind (schema_version_field j ''to'') (\<lambda>t.
     rbind (non_empty_string j ''function'') (\<lambda>fn.
     rbind (parameters_field j) (\<lambda>ps.
     rbind (digest_field j ''evidence_digest'') (\<lambda>e.
     Inr \<lparr>ms_id = i, ms_from = f, ms_to = t, ms_function = fn, ms_parameters = ps,
       ms_deterministic = json_bool_or j ''deterministic'' True,
       ms_reversible = json_bool_or j ''reversible'' True,
       ms_irreversible_boundary = json_bool_or j ''irreversible_boundary'' False,
       ms_evidence_digest = e, ms_description = json_string_or j ''description'' []\<rparr>)))))))"

definition object_field :: "json \<Rightarrow> string \<Rightarrow> json Result" where
  "object_field j key =
     (case json_find j key of None \<Rightarrow> Inl Malformed | Some v \<Rightarrow> if is_object v then Inr v else Inl Malformed)"

definition window_from_json :: "json \<Rightarrow> MixedVersionWindow Result" where
  "window_from_json j =
     rbind (schema_version_field j ''min_participants'') (\<lambda>n.
     Inr \<lparr>max_duration_ms = json_u64_or j ''max_duration_ms'' 0, max_operations = json_u64_or j ''max_operations'' 0,
       min_participants = n,
       require_read_only_shared_phase = json_bool_or j ''require_read_only_shared_phase'' True\<rparr>)"

definition migrations_from_json :: "json \<Rightarrow> MigrationStepSpec list Result" where
  "migrations_from_json j =
     (case json_find j ''migrations'' of
        None \<Rightarrow> Inl Malformed
      | Some a \<Rightarrow> if is_array a then map_result migration_step_from_json (map (json_at a) [0..<json_size a]) else Inl Malformed)"

definition accepted_from_json :: "json \<Rightarrow> ProtocolVersion list Result" where
  "accepted_from_json j =
     (case json_find j ''accepted'' of
        None \<Rightarrow> Inl Malformed
      | Some a \<Rightarrow>
          if \<not> is_array a \<or> json_size a = 0 then Inl Malformed
          else map_result (\<lambda>e. rbind (require (try_string e) Malformed) (\<lambda>t. require (protocol_version_parse t) Malformed))
                 (map (json_at a) [0..<json_size a]))"

definition path_from_json :: "json \<Rightarrow> ProtocolPath Result" where
  "path_from_json j =
     rbind (accepted_from_json j) (\<lambda>a.
     rbind (features_field j ''required_features'') (\<lambda>r.
     rbind (features_field j ''allowed_features'') (\<lambda>l.
     Inr \<lparr>path_accepted = a, path_required_features = r, path_allowed_features = l\<rparr>)))"

definition rollback_from_json :: "json \<Rightarrow> RollbackStrategy Result" where
  "rollback_from_json j =
     rbind (require (json_string j ''kind'') Malformed) (\<lambda>t.
     rbind (require (rollback_kind_from t) Malformed) (\<lambda>k.
     rbind (optional_elements j ''declared_irreversible_boundaries''
        (\<lambda>e. rbind (require (try_string e) Malformed) (\<lambda>t. require (name_parse t) Malformed))) (\<lambda>bs.
     Inr \<lparr>rs_kind = k, rs_recovery_plan = json_string_or j ''recovery_plan'' [], rs_boundaries = bs\<rparr>)))"

text \<open>The last step of the decoder: a recorded digest must verify, without one the manifest is sealed.\<close>

definition check_manifest_digest :: "(u64 \<Rightarrow> string) \<Rightarrow> json \<Rightarrow> EvolutionManifest \<Rightarrow> EvolutionManifest Result" where
  "check_manifest_digest dtoa j m =
     (case json_string j ''digest'' of
        Some text \<Rightarrow>
          rbind (require (digest_from_hex text) Malformed) (\<lambda>g.
          let m' = m\<lparr>mf_digest := g\<rparr> in
          if manifest_verify_digest dtoa m' \<noteq> Ok then Inl (manifest_verify_digest dtoa m') else Inr m')
      | None \<Rightarrow> manifest_seal dtoa m)"

definition manifest_from_json :: "(u64 \<Rightarrow> string) \<Rightarrow> json \<Rightarrow> EvolutionManifest Result" where
  "manifest_from_json dtoa j =
     rbind (guard (is_object j) Malformed) (\<lambda>_.
     rbind (name_field j ''id'') (\<lambda>i.
     rbind (name_field j ''campaign'') (\<lambda>c.
     rbind (name_field j ''shard'') (\<lambda>sh.
     rbind (require (json_find j ''source'') Malformed) (\<lambda>sj.
     rbind (require (json_find j ''target'') Malformed) (\<lambda>tj.
     rbind (component_spec_from_json sj) (\<lambda>s.
     rbind (component_spec_from_json tj) (\<lambda>t.
     rbind (require (json_find j ''compatibility'') Malformed) (\<lambda>dj.
     rbind (compatibility_decision_from_json dtoa dj) (\<lambda>d.
     rbind (object_field j ''window'') (\<lambda>wj.
     rbind (window_from_json wj) (\<lambda>w.
     rbind (migrations_from_json j) (\<lambda>ms.
     rbind (object_field j ''protocol'') (\<lambda>pj.
     rbind (path_from_json pj) (\<lambda>p.
     rbind (object_field j ''rollback'') (\<lambda>rj.
     rbind (rollback_from_json rj) (\<lambda>r.
     check_manifest_digest dtoa j
       \<lparr>mf_id = i, mf_campaign = c, mf_shard = sh, mf_revision = json_u64_or j ''revision'' 1,
        mf_source = s, mf_target = t, mf_window = w, mf_compatibility = d, mf_migrations = ms,
        mf_protocol = p, mf_rollback = r, mf_digest = digest_zero\<rparr>)))))))))))))))))"

definition manifest_from_json_text ::
  "(u64 \<Rightarrow> string) \<Rightarrow> (string \<Rightarrow> u64 option) \<Rightarrow> string \<Rightarrow> EvolutionManifest Result" where
  "manifest_from_json_text dtoa strtod text =
     rbind (require (parse_json strtod default_parse_limits text) Malformed) (manifest_from_json dtoa)"

section \<open>The migration path\<close>

text \<open>
  Reference definition of a path: any chain of declared steps that starts at \<open>s\<close>, is contiguous, advances with
  every step and ends at \<open>t\<close>. It knows nothing of the order in which the steps are declared.
\<close>

inductive step_chain :: "EvolutionManifest \<Rightarrow> SchemaVersion \<Rightarrow> MigrationStepSpec list \<Rightarrow> SchemaVersion \<Rightarrow> bool"
  for m :: EvolutionManifest where
  step_chain_end: "step_chain m s [] s"
| step_chain_step: "st \<in> set (mf_migrations m) \<Longrightarrow> ms_from st = s \<Longrightarrow> s < ms_to st \<Longrightarrow> step_chain m (ms_to st) p t \<Longrightarrow>
    step_chain m s (st # p) t"

text \<open>
  The chain the code follows: the first declared step of each schema. It has no guard.
\<close>

inductive declared_chain :: "EvolutionManifest \<Rightarrow> SchemaVersion \<Rightarrow> MigrationStepSpec list \<Rightarrow> SchemaVersion \<Rightarrow> bool"
  for m :: EvolutionManifest where
  chain_end: "declared_chain m s [] s"
| chain_step: "step_from m s = Some st \<Longrightarrow> s < ms_to st \<Longrightarrow> declared_chain m (ms_to st) p t \<Longrightarrow> declared_chain m s (st # p) t"

inductive_cases declared_chain_NilE: "declared_chain m s [] t"
inductive_cases declared_chain_ConsE: "declared_chain m s (st # p) t"

declare path_loop.simps [simp del]

lemma step_from_Some: "step_from m s = Some st \<Longrightarrow> st \<in> set (mf_migrations m) \<and> ms_from st = s"
  unfolding step_from_def by (drule find_SomeD) auto

lemma chain_le: "declared_chain m s p t \<Longrightarrow> s \<le> t"
  by (induction rule: declared_chain.induct) auto

lemma chain_strict: "declared_chain m s (st # p) t \<Longrightarrow> s < t"
  by (auto elim!: declared_chain_ConsE dest: chain_le)

lemma chain_steps:
  "declared_chain m s p t \<Longrightarrow> set p \<subseteq> set (mf_migrations m) \<and> (\<forall>st \<in> set p. s \<le> ms_from st) \<and> distinct p"
proof (induction rule: declared_chain.induct)
  case (chain_step s st p t)
  then have "s \<le> ms_from x" if "x \<in> set p" for x using that by fastforce
  moreover have "st \<notin> set p" using chain_step step_from_Some [OF chain_step(1)] by fastforce
  ultimately show ?case using chain_step step_from_Some [OF chain_step(1)] by auto
qed simp

lemma chain_length: "declared_chain m s p t \<Longrightarrow> length p \<le> length (mf_migrations m)"
  using chain_steps by (metis card_length card_mono distinct_card finite_set le_trans)

lemma chain_unique: "declared_chain m s p t \<Longrightarrow> declared_chain m s q t \<Longrightarrow> p = q"
proof (induction arbitrary: q rule: declared_chain.induct)
  case (chain_end s)
  then show ?case by (cases q) (auto dest: chain_strict)
next
  case (chain_step s st p t)
  then have "s \<noteq> t" using chain_le by fastforce
  with chain_step.prems obtain st' q' where "q = st' # q'" by (cases q) (auto elim: declared_chain_NilE)
  with chain_step.prems chain_step.hyps have "declared_chain m (ms_to st) q' t" "st' = st"
    by (auto elim: declared_chain_ConsE)
  with chain_step.IH \<open>q = st' # q'\<close> show ?case by simp
qed

lemma path_loop_finds: "declared_chain m c p t \<Longrightarrow> length p \<le> n \<Longrightarrow> path_loop n m c t acc = acc @ p"
proof (induction arbitrary: n acc rule: declared_chain.induct)
  case (chain_end s)
  then show ?case by (simp add: path_loop.simps)
next
  case (chain_step s st p t)
  then obtain k where "n = Suc k" by (cases n) auto
  moreover have "s \<noteq> t" using chain_step chain_le by fastforce
  ultimately show ?case using chain_step by (simp add: path_loop.simps [of "Suc k"])
qed

lemma path_loop_chain: "path_loop n m c t acc = [] \<or> (\<exists>p. path_loop n m c t acc = acc @ p \<and> declared_chain m c p t)"
proof (induction n arbitrary: c acc)
  case 0
  then show ?case using chain_end by (auto simp: path_loop.simps)
next
  case (Suc n)
  show ?case
  proof (cases "c = t \<or> step_from m c = None \<or> (\<exists>st. step_from m c = Some st \<and> ms_to st \<le> c)")
    case True
    then show ?thesis using chain_end by (auto simp: path_loop.simps)
  next
    case False
    then obtain st where st: "step_from m c = Some st" "c < ms_to st" by (metis not_None_eq not_less)
    with False have "path_loop (Suc n) m c t acc = path_loop n m (ms_to st) t (acc @ [st])"
      by (simp add: path_loop.simps [of "Suc n"])
    with Suc [of "ms_to st" "acc @ [st]"] st show ?thesis using chain_step by (metis append.assoc append_Cons append_Nil)
  qed
qed

lemma migration_path_finds: "declared_chain m from p to \<Longrightarrow> migration_path m from to = p"
proof (cases p)
  case Nil
  then show "declared_chain m from p to \<Longrightarrow> ?thesis" by (auto simp: migration_path_def elim: declared_chain_NilE)
next
  case (Cons st q)
  assume c: "declared_chain m from p to"
  then have "from < to" using Cons by (auto dest: chain_strict)
  then show ?thesis using path_loop_finds [OF c] chain_length [OF c] by (auto simp: migration_path_def)
qed

lemma migration_path_chain: "migration_path m from to \<noteq> [] \<Longrightarrow> declared_chain m from (migration_path m from to) to"
  using path_loop_chain [of "length (mf_migrations m) + 1" m "from" to "[]"]
  by (auto simp: migration_path_def split: if_splits)

lemma declared_step_chain: "declared_chain m s p t \<Longrightarrow> step_chain m s p t"
  by (induction rule: declared_chain.induct) (auto dest: step_from_Some intro: step_chain.intros)

lemma only_step_from:
  assumes "distinct (map ms_from (mf_migrations m))" "st \<in> set (mf_migrations m)"
  shows "step_from m (ms_from st) = Some st"
proof -
  have "distinct (map ms_from xs) \<Longrightarrow> st \<in> set xs \<Longrightarrow> List.find (\<lambda>s. ms_from s = ms_from st) xs = Some st" for xs
    by (induction xs) (auto simp: rev_image_eqI)
  with assms show ?thesis by (simp add: step_from_def)
qed

lemma step_chain_declared:
  assumes "distinct (map ms_from (mf_migrations m))"
  shows "step_chain m s p t \<Longrightarrow> declared_chain m s p t"
  by (induction rule: step_chain.induct) (use only_step_from [OF assms] in \<open>auto intro: declared_chain.intros\<close>)

lemma declared_chain_iff: "declared_chain m from p to \<longleftrightarrow> p = migration_path m from to \<and> (p = []) = (from = to)"
proof
  assume c: "declared_chain m from p to"
  then have "(p = []) = (from = to)" by (cases p) (auto elim: declared_chain_NilE dest: chain_strict)
  with c show "p = migration_path m from to \<and> (p = []) = (from = to)" by (simp add: migration_path_finds)
next
  assume "p = migration_path m from to \<and> (p = []) = (from = to)"
  then show "declared_chain m from p to" using migration_path_chain chain_end by (cases "p = []") auto
qed

text \<open>C33: The migration path a manifest answers is a chain of its declared steps. Whenever it is not empty, it is
  contiguous, advances with every step and leads from the one schema to the other. When no two declared steps
  leave the same schema, it is the chain: a list of steps is such a chain exactly when it is the path that is
  answered, empty precisely between equal schemas; so a chain is found whenever there is one, and the loop
  guard of \<^verbatim>\<open>migrations.size()\<close> never cuts one off.\<close>

theorem migration_path_is_declared_chain:
  "(migration_path m from to \<noteq> [] \<longrightarrow> step_chain m from (migration_path m from to) to) \<and>
   (distinct (map ms_from (mf_migrations m)) \<longrightarrow>
     (step_chain m from p to \<longleftrightarrow> p = migration_path m from to \<and> (p = []) = (from = to)))"
  using migration_path_chain declared_step_chain step_chain_declared declared_chain_iff by blast

section \<open>What validation guarantees\<close>

lemma status_then_Ok [simp]: "(status_then s t = Ok) = (s = Ok \<and> t = Ok)"
  by (simp add: status_then_def)

lemma validate_steps_Ok:
  "validate_steps rb ids steps = Ok \<Longrightarrow> st \<in> set steps \<Longrightarrow>
     ms_from st < ms_to st \<and> ms_deterministic st \<and> ms_function st \<noteq> [] \<and>
     (ms_irreversible_boundary st \<longrightarrow> \<not> ms_reversible st \<and> declares rb (ms_id st))"
  by (induction steps arbitrary: ids) (auto split: if_splits)

lemma validate_steps_distinct:
  "validate_steps rb ids steps = Ok \<Longrightarrow> distinct (map ms_id steps) \<and> (\<forall>st \<in> set steps. ms_id st \<notin> ids)"
proof (induction steps arbitrary: ids)
  case (Cons st steps)
  then have "ms_id st \<notin> ids" "validate_steps rb (insert (ms_id st) ids) steps = Ok" by (simp_all split: if_splits)
  with Cons.IH [of "insert (ms_id st) ids"] show ?case by auto
qed simp

lemma validate_chain_Ok:
  assumes "validate_chain m = Ok"
  shows "declared_chain m (cs_schema (mf_source m))
     (migration_path m (cs_schema (mf_source m)) (cs_schema (mf_target m))) (cs_schema (mf_target m))"
proof (cases "cs_schema (mf_source m) = cs_schema (mf_target m)")
  case True
  then show ?thesis using chain_end by (simp add: migration_path_def)
next
  case False
  with assms show ?thesis by (intro migration_path_chain) (auto simp: validate_chain_def Let_def split: if_splits)
qed

lemma validate_rollback_Ok:
  assumes "validate_rollback m = Ok"
  shows "rs_kind (mf_rollback m) = RollbackToPredecessor \<Longrightarrow>
      \<not> crosses_irreversible_boundary m (cs_schema (mf_source m)) (cs_schema (mf_target m))"
    and "rs_kind (mf_rollback m) = ForwardRecoveryOnly \<Longrightarrow>
      crosses_irreversible_boundary m (cs_schema (mf_source m)) (cs_schema (mf_target m))"
    and "declares (mf_rollback m) i \<Longrightarrow> \<exists>st \<in> set (mf_migrations m). ms_id st = i \<and> ms_irreversible_boundary st"
  using assms by (auto simp: validate_rollback_def Let_def declares_def list_all_iff list_ex_iff split: if_splits)

lemma declared_boundary_irreversible:
  assumes "validate_steps (mf_rollback m) {} (mf_migrations m) = Ok" "validate_rollback m = Ok"
    and "st \<in> set (mf_migrations m)" "declares (mf_rollback m) (ms_id st)"
  shows "ms_irreversible_boundary st"
proof -
  obtain st' where "st' \<in> set (mf_migrations m)" "ms_id st' = ms_id st" "ms_irreversible_boundary st'"
    using validate_rollback_Ok(3) [OF assms(2,4)] by blast
  moreover have "inj_on ms_id (set (mf_migrations m))"
    using validate_steps_distinct [OF assms(1)] by (simp add: distinct_map)
  ultimately show ?thesis using assms(3) by (metis inj_onD)
qed

text \<open>C24: A manifest that validates never crosses a boundary it does not declare. Its migration path is a
  contiguous chain of at most 128 declared steps from the source to the target schema; every step on it
  advances the schema, is deterministic and names a function; a step on it is an irreversible boundary
  exactly when the rollback strategy declares it; a strategy of rolling back to the predecessor has no
  irreversible step on the path, and forward recovery only is chosen only when there is one.\<close>

theorem validated_manifest_crosses_only_declared_boundaries:
  assumes "manifest_validate dtoa m = Ok"
    and "path = migration_path m (cs_schema (mf_source m)) (cs_schema (mf_target m))"
  shows "declared_chain m (cs_schema (mf_source m)) path (cs_schema (mf_target m)) \<and>
    length path \<le> 128 \<and>
    (\<forall>st \<in> set path. ms_from st < ms_to st \<and> ms_deterministic st \<and> ms_function st \<noteq> [] \<and>
      (ms_irreversible_boundary st = declares (mf_rollback m) (ms_id st))) \<and>
    (rs_kind (mf_rollback m) = RollbackToPredecessor \<longrightarrow> \<not> list_ex ms_irreversible_boundary path) \<and>
    (rs_kind (mf_rollback m) = ForwardRecoveryOnly \<longrightarrow> list_ex ms_irreversible_boundary path)"
proof -
  have v: "validate_identity m = Ok" "validate_steps (mf_rollback m) {} (mf_migrations m) = Ok"
    "validate_chain m = Ok" "validate_rollback m = Ok"
    using assms(1) by (simp_all add: manifest_validate_def)
  have c: "declared_chain m (cs_schema (mf_source m)) path (cs_schema (mf_target m))"
    using validate_chain_Ok [OF v(3)] assms(2) by simp
  moreover have "length path \<le> 128"
    using chain_length [OF c] v(1) by (auto simp: validate_identity_def Let_def kMaxMigrationSteps_def split: if_splits)
  moreover have "\<forall>st \<in> set path. ms_from st < ms_to st \<and> ms_deterministic st \<and> ms_function st \<noteq> [] \<and>
      (ms_irreversible_boundary st = declares (mf_rollback m) (ms_id st))"
    using chain_steps [OF c] validate_steps_Ok [OF v(2)] declared_boundary_irreversible [OF v(2,4)] by blast
  ultimately show ?thesis
    using validate_rollback_Ok(1,2) [OF v(4)] assms(2) by (simp add: crosses_irreversible_boundary_def)
qed

lemma bit_u64: "bit (a :: u64) n \<Longrightarrow> n < 64"
  using bit_imp_le_length [of a n] by simp

lemma fs_contains_all_bit: "fs_contains_all a b = (\<forall>n. bit b n \<longrightarrow> bit a n)"
  unfolding fs_contains_all_def by (auto simp: bit_eq_iff bit_simps dest: bit_u64)

lemma fs_without_zero: "(fs_without a b = 0) = (\<forall>n. bit a n \<longrightarrow> bit b n)"
  unfolding fs_without_def by (auto simp: bit_eq_iff bit_simps dest: bit_u64)

lemma negotiated_is_one: "compatible_with v w \<Longrightarrow> negotiate v w = v \<or> negotiate v w = w"
  by (cases v; cases w) (auto simp: compatible_with_def negotiate_def min_def)

lemma validate_protocol_Ok:
  assumes "validate_protocol m = Ok"
  shows "path_accepts (mf_protocol m) (cs_protocol (mf_source m))" "path_accepts (mf_protocol m) (cs_protocol (mf_target m))"
    "compatible_with (cs_protocol (mf_source m)) (cs_protocol (mf_target m))"
    "fs_contains_all (fs_intersect (fs_intersect (cs_features (mf_source m)) (cs_features (mf_target m)))
       (path_allowed_features (mf_protocol m))) (path_required_features (mf_protocol m))"
    "fs_contains_all (cd_certified_features (mf_compatibility m)) (path_allowed_features (mf_protocol m))"
proof -
  let ?p = "mf_protocol m" and ?s = "mf_source m" and ?t = "mf_target m"
  have v: "path_accepts ?p (cs_protocol ?s)" "path_accepts ?p (cs_protocol ?t)"
    "list_all (\<lambda>v. compatible_with v (cs_protocol ?s) \<and> compatible_with v (cs_protocol ?t)) (path_accepted ?p)"
    "fs_contains_all (path_allowed_features ?p) (path_required_features ?p)"
    "fs_contains_all (fs_intersect (cs_features ?s) (cs_features ?t)) (path_required_features ?p)"
    "fs_without (path_allowed_features ?p) (cd_certified_features (mf_compatibility m)) = 0"
    using assms unfolding validate_protocol_def Let_def by (simp_all split: if_splits)
  show "path_accepts ?p (cs_protocol ?s)" "path_accepts ?p (cs_protocol ?t)" by fact+
  show "compatible_with (cs_protocol ?s) (cs_protocol ?t)"
    using v(1,3) unfolding path_accepts_def list_all_iff by blast
  show "fs_contains_all (fs_intersect (fs_intersect (cs_features ?s) (cs_features ?t)) (path_allowed_features ?p))
      (path_required_features ?p)"
    using v(4,5) unfolding fs_contains_all_bit fs_intersect_def by (simp add: bit_simps)
  show "fs_contains_all (cd_certified_features (mf_compatibility m)) (path_allowed_features ?p)"
    using v(6) by (simp add: fs_contains_all_bit fs_without_zero)
qed

text \<open>A validated manifest can be negotiated by the participants it names. Two valid hellos that
  present the protocol version, features and schema of the manifest's source and target negotiate to a
  usable protocol on the manifest's path whenever both schemas are listed; every feature the manifest
  requires is then enabled, and no feature is enabled that the compatibility evidence has not certified.\<close>

theorem validated_manifest_negotiates:
  assumes "manifest_validate dtoa m = Ok" "hello_is_valid a" "hello_is_valid b"
    and "he_protocol a = cs_protocol (mf_source m)" "he_features a = cs_features (mf_source m)"
    and "he_protocol b = cs_protocol (mf_target m)" "he_features b = cs_features (mf_target m)"
    and "he_schema a \<in> set allowed" "he_schema b \<in> set allowed"
  shows "usable (negotiate_pair a b (mf_protocol m) allowed) \<and>
    path_accepts (mf_protocol m) (np_effective (negotiate_pair a b (mf_protocol m) allowed)) \<and>
    fs_contains_all (np_enabled (negotiate_pair a b (mf_protocol m) allowed)) (path_required_features (mf_protocol m)) \<and>
    fs_contains_all (cd_certified_features (mf_compatibility m)) (np_enabled (negotiate_pair a b (mf_protocol m) allowed))"
proof -
  have "validate_protocol m = Ok" using assms(1) by (simp add: manifest_validate_def)
  note p = validate_protocol_Ok [OF this, folded assms(4-7)]
  let ?e = "fs_intersect (fs_intersect (he_features a) (he_features b)) (path_allowed_features (mf_protocol m))"
  have acc: "path_accepts (mf_protocol m) (negotiate (he_protocol a) (he_protocol b))"
    using p(1,2) negotiated_is_one [OF p(3)] by auto
  then have n: "negotiate_pair a b (mf_protocol m) allowed =
      conclude (mf_protocol m) (negotiate (he_protocol a) (he_protocol b)) ?e
        (negotiate (he_protocol a) (he_protocol b) = he_protocol a \<and> negotiate (he_protocol a) (he_protocol b) = he_protocol b)
        ''compatible: participants agree on protocol and features''"
    using assms(2,3,8,9) p(3) by (simp add: negotiate_pair_def schema_allowed_def Let_def)
  have u: "usable (negotiate_pair a b (mf_protocol m) allowed)"
    using p(4) by (simp add: n conclude_usable fs_contains_all_bit fs_without_zero)
  have "np_effective (negotiate_pair a b (mf_protocol m) allowed) = negotiate (he_protocol a) (he_protocol b)"
    "np_enabled (negotiate_pair a b (mf_protocol m) allowed) = ?e"
    using conclude_fields [OF u [unfolded n]] by (simp_all add: n)
  moreover have "fs_contains_all (cd_certified_features (mf_compatibility m)) ?e"
    using p(5) by (auto simp: fs_contains_all_bit fs_intersect_def bit_simps)
  ultimately show ?thesis using acc p(4) u by simp
qed

text \<open>C34: The mixed-version window a validated manifest runs under is bounded on both sides: the
  effective duration and operation count are positive, no larger than the manifest declares, no larger
  than thirty days and ten billion operations, and no larger than the compatibility evidence allows
  where it states a limit.\<close>

theorem effective_window_bounds:
  assumes "manifest_validate dtoa m = Ok" and "w = effective_window m" and "c = mf_compatibility m"
  shows "0 < max_duration_ms w \<and> max_duration_ms w \<le> max_duration_ms (mf_window m) \<and>
    unat (max_duration_ms w) \<le> 30 * 24 * 60 * 60 * 1000 \<and>
    0 < max_operations w \<and> max_operations w \<le> max_operations (mf_window m) \<and>
    unat (max_operations w) \<le> 10000000000 \<and>
    (cd_max_mixed_version_ms c \<noteq> 0 \<longrightarrow> max_duration_ms w \<le> cd_max_mixed_version_ms c) \<and>
    (cd_max_mixed_version_operations c \<noteq> 0 \<longrightarrow> max_operations w \<le> cd_max_mixed_version_operations c)"
proof -
  have "validate_window m = Ok" using assms(1) by (simp add: manifest_validate_def)
  then have v: "0 < max_duration_ms (mf_window m)" "max_duration_ms (mf_window m) \<le> kMaxMixedVersionWindowMs"
    "0 < max_operations (mf_window m)" "max_operations (mf_window m) \<le> kMaxMixedVersionOperations"
    by (auto simp: validate_window_def Let_def word_greater_zero_iff split: if_splits)
  have d: "max_duration_ms w = (if cd_max_mixed_version_ms c \<noteq> 0
      then min (max_duration_ms (mf_window m)) (cd_max_mixed_version_ms c) else max_duration_ms (mf_window m))"
    and o: "max_operations w = (if cd_max_mixed_version_operations c \<noteq> 0
      then min (max_operations (mf_window m)) (cd_max_mixed_version_operations c) else max_operations (mf_window m))"
    by (simp_all add: assms(2,3) effective_window_def Let_def)
  have le: "max_duration_ms w \<le> max_duration_ms (mf_window m)" "max_operations w \<le> max_operations (mf_window m)"
    unfolding d o by simp_all
  have "0 < max_duration_ms w" "0 < max_operations w"
    using v(1,3) unfolding d o by (auto simp: min_def word_greater_zero_iff)
  moreover have "unat (max_duration_ms w) \<le> 30 * 24 * 60 * 60 * 1000"
    using order_trans [OF le(1) v(2)] by (simp add: word_le_nat_alt kMaxMixedVersionWindowMs_def)
  moreover have "unat (max_operations w) \<le> 10000000000"
    using order_trans [OF le(2) v(4)] by (simp add: word_le_nat_alt kMaxMixedVersionOperations_def)
  ultimately show ?thesis using le unfolding d o by simp
qed

section \<open>Round trip\<close>

definition spec_wf :: "ComponentSpec \<Rightarrow> bool" where
  "spec_wf s = (name_is_valid_text (cs_id s) \<and> software_wf (cs_software s) \<and> cs_schema s \<noteq> 0 \<and>
     features_known (cs_features s) \<and> digest_wf (cs_artifact_digest s) \<and> cs_host s \<noteq> [] \<and> cs_port s \<noteq> 0)"

definition step_wf :: "MigrationStepSpec \<Rightarrow> bool" where
  "step_wf s = (name_is_valid_text (ms_id s) \<and> ms_from s \<noteq> 0 \<and> ms_to s \<noteq> 0 \<and> ms_function s \<noteq> [] \<and>
     is_object (ms_parameters s) \<and> digest_wf (ms_evidence_digest s))"

definition manifest_wf :: "EvolutionManifest \<Rightarrow> bool" where
  "manifest_wf m = (name_is_valid_text (mf_id m) \<and> name_is_valid_text (mf_campaign m) \<and> name_is_valid_text (mf_shard m) \<and>
     spec_wf (mf_source m) \<and> spec_wf (mf_target m) \<and> decision_wf (mf_compatibility m) \<and>
     min_participants (mf_window m) \<noteq> 0 \<and> list_all step_wf (mf_migrations m) \<and> path_accepted (mf_protocol m) \<noteq> [] \<and>
     features_known (path_required_features (mf_protocol m)) \<and> features_known (path_allowed_features (mf_protocol m)) \<and>
     list_all name_is_valid_text (rs_boundaries (mf_rollback m)) \<and> digest_wf (mf_digest m))"

lemma features_field_round_trip:
  "json_find j key = Some (feature_array s) \<Longrightarrow> features_known s \<Longrightarrow> features_field j key = Inr s"
  by (simp add: features_field_def features_from_def codec_simps) (simp add: feature_array_def is_null_def)

lemma non_empty_string_round_trip: "json_string j key = Some t \<Longrightarrow> t \<noteq> [] \<Longrightarrow> non_empty_string j key = Inr t"
  by (simp add: non_empty_string_def)

lemma u16_through_u64: "ucast (ucast (w :: u16) :: u64) = w" "(ucast w :: u64) \<le> 65535" "((ucast w :: u64) = 0) = (w = 0)"
proof -
  show e: "ucast (ucast (w :: u16) :: u64) = w" by (rule bit_word_eqI) (auto simp: bit_simps)
  show "(ucast w :: u64) \<le> 65535"
    using u16_bound [of w] by (simp add: word_le_nat_alt unsigned_ucast_eq take_bit_nat_eq_self)
  show "((ucast w :: u64) = 0) = (w = 0)" using e by (metis ucast_0)
qed

lemma port_field_round_trip: "json_u64 j ''port'' = Some (ucast (p :: u16)) \<Longrightarrow> p \<noteq> 0 \<Longrightarrow> port_field j = Inr p"
  by (simp add: port_field_def u16_through_u64 not_less)

lemma component_spec_round_trip:
  assumes "spec_wf s" shows "component_spec_from_json (component_spec_to_json s) = Inr s"
proof -
  let ?j = "component_spec_to_json s"
  have f: "json_string ?j ''id'' = Some (cs_id s)" "json_string ?j ''software'' = Some (software_version_to_string (cs_software s))"
    "json_string ?j ''protocol'' = Some (protocol_version_to_string (cs_protocol s))"
    "json_u64 ?j ''schema'' = Some (ucast (cs_schema s))" "json_find ?j ''features'' = Some (feature_array (cs_features s))"
    "json_string ?j ''artifact_digest'' = Some (to_hex (cs_artifact_digest s))" "json_string ?j ''host'' = Some (cs_host s)"
    "json_u64 ?j ''port'' = Some (ucast (cs_port s))" "is_object ?j"
    by (simp_all add: component_spec_to_json_def json_field_defs codec_simps)
  show ?thesis
    using assms unfolding component_spec_from_json_def spec_wf_def
    by (simp add: f field_round_trips features_field_round_trip [OF f(5)] non_empty_string_round_trip [OF f(7)]
        port_field_round_trip [OF f(8)])
qed

lemma migration_step_round_trip:
  assumes "step_wf s" shows "migration_step_from_json (migration_step_to_json s) = Inr s"
proof -
  let ?j = "migration_step_to_json s"
  have f: "json_string ?j ''id'' = Some (ms_id s)" "json_u64 ?j ''from'' = Some (ucast (ms_from s))"
    "json_u64 ?j ''to'' = Some (ucast (ms_to s))" "json_string ?j ''function'' = Some (ms_function s)"
    "json_find ?j ''parameters'' = Some (ms_parameters s)" "json_string ?j ''evidence_digest'' = Some (to_hex (ms_evidence_digest s))"
    "json_bool_or ?j ''deterministic'' True = ms_deterministic s" "json_bool_or ?j ''reversible'' True = ms_reversible s"
    "json_bool_or ?j ''irreversible_boundary'' False = ms_irreversible_boundary s"
    "json_string_or ?j ''description'' [] = ms_description s" "is_object ?j"
    by (simp_all add: migration_step_to_json_def json_field_defs codec_simps)
  show ?thesis
    using assms unfolding migration_step_from_json_def step_wf_def
    by (simp add: f field_round_trips non_empty_string_round_trip [OF f(4)] parameters_field_def)
qed

interpretation component_spec_codec: json_codec component_spec_to_json component_spec_from_json spec_wf
  by unfold_locales (rule component_spec_round_trip)

interpretation migration_step_codec: json_codec migration_step_to_json migration_step_from_json step_wf
  by unfold_locales (rule migration_step_round_trip)

lemma window_round_trip: "min_participants w \<noteq> 0 \<Longrightarrow> window_from_json (window_to_json w) = Inr w"
proof -
  let ?j = "window_to_json w"
  have f: "json_u64 ?j ''min_participants'' = Some (ucast (min_participants w))"
    "json_u64_or ?j ''max_duration_ms'' 0 = max_duration_ms w" "json_u64_or ?j ''max_operations'' 0 = max_operations w"
    "json_bool_or ?j ''require_read_only_shared_phase'' True = require_read_only_shared_phase w"
    by (simp_all add: window_to_json_def json_field_defs codec_simps)
  show "min_participants w \<noteq> 0 \<Longrightarrow> ?thesis" by (simp add: window_from_json_def f schema_version_field_round_trip [OF f(1)])
qed

lemma map_result_strings:
  "list_all (\<lambda>x. f (g x) = Some x) xs \<Longrightarrow>
     map_result (\<lambda>e. rbind (require (try_string e) Malformed) (\<lambda>t. require (f t) Malformed)) (map (\<lambda>x. JString (g x)) xs) = Inr xs"
  by (induction xs) (simp_all add: codec_simps)

lemma path_round_trip:
  assumes "path_accepted p \<noteq> []" "features_known (path_required_features p)" "features_known (path_allowed_features p)"
  shows "path_from_json (path_to_json p) = Inr p"
proof -
  let ?j = "path_to_json p"
  have f: "json_find ?j ''accepted'' = Some (JArray (map (\<lambda>v. JString (protocol_version_to_string v)) (path_accepted p)))"
    "json_find ?j ''required_features'' = Some (feature_array (path_required_features p))"
    "json_find ?j ''allowed_features'' = Some (feature_array (path_allowed_features p))"
    by (simp_all add: path_to_json_def codec_simps)
  have "accepted_from_json ?j = Inr (path_accepted p)"
    using assms(1) map_result_strings [of protocol_version_parse protocol_version_to_string "path_accepted p"]
    by (simp add: accepted_from_json_def f codec_simps json_elements protocol_version_round_trip list_all_iff)
      (simp add: json_size_def try_array_def)
  then show ?thesis using assms(2,3) by (simp add: path_from_json_def features_field_round_trip f)
qed

lemma rollback_kind_round_trip: "rollback_kind_from (rollback_kind_name k) = Some k"
  by (cases k) (simp_all add: rollback_kind_from_def)

lemma rollback_round_trip:
  assumes "list_all name_is_valid_text (rs_boundaries r)" shows "rollback_from_json (rollback_to_json r) = Inr r"
proof -
  let ?j = "rollback_to_json r"
  have f: "json_string ?j ''kind'' = Some (rollback_kind_name (rs_kind r))" "json_string_or ?j ''recovery_plan'' [] = rs_recovery_plan r"
    "json_find ?j ''declared_irreversible_boundaries'' = Some (JArray (map JString (rs_boundaries r)))"
    by (simp_all add: rollback_to_json_def json_field_defs codec_simps)
  have "map_result (\<lambda>e. rbind (require (try_string e) Malformed) (\<lambda>t. require (name_parse t) Malformed))
      (map (\<lambda>x. JString x) (rs_boundaries r)) = Inr (rs_boundaries r)"
    using assms by (intro map_result_strings) (simp add: list_all_iff name_parse_valid)
  then show ?thesis
    by (simp add: rollback_from_json_def f rollback_kind_round_trip optional_elements_def codec_simps json_elements)
qed

lemma manifest_digest_ignores [simp]: "manifest_digest dtoa (m\<lparr>mf_digest := g\<rparr>) = manifest_digest dtoa m"
  by (simp add: manifest_digest_def manifest_body_def)

text \<open>Reading back a written manifest gives the same manifest. Every manifest with well-formed fields
  whose compatibility evidence and own digest verify decodes from its JSON form to itself, every field
  of it included.\<close>

theorem manifest_json_round_trip:
  assumes "manifest_wf m" "decision_verify dtoa (mf_compatibility m) = Ok" "manifest_verify_digest dtoa m = Ok"
  shows "manifest_from_json dtoa (manifest_to_json m) = Inr m"
proof -
  let ?j = "manifest_to_json m"
  let ?r = "\<lparr>mf_id = mf_id m, mf_campaign = mf_campaign m, mf_shard = mf_shard m, mf_revision = mf_revision m,
      mf_source = mf_source m, mf_target = mf_target m, mf_window = mf_window m, mf_compatibility = mf_compatibility m,
      mf_migrations = mf_migrations m, mf_protocol = mf_protocol m, mf_rollback = mf_rollback m, mf_digest = digest_zero\<rparr>"
  have f: "json_string ?j ''id'' = Some (mf_id m)" "json_string ?j ''campaign'' = Some (mf_campaign m)"
    "json_string ?j ''shard'' = Some (mf_shard m)" "json_u64_or ?j ''revision'' 1 = mf_revision m"
    "json_find ?j ''source'' = Some (component_spec_to_json (mf_source m))"
    "json_find ?j ''target'' = Some (component_spec_to_json (mf_target m))"
    "json_find ?j ''compatibility'' = Some (decision_to_json (mf_compatibility m))"
    "json_find ?j ''migrations'' = Some (JArray (map migration_step_to_json (mf_migrations m)))"
    "object_field ?j ''window'' = Inr (window_to_json (mf_window m))"
    "object_field ?j ''protocol'' = Inr (path_to_json (mf_protocol m))"
    "object_field ?j ''rollback'' = Inr (rollback_to_json (mf_rollback m))"
    "json_string ?j ''digest'' = Some (to_hex (mf_digest m))" "is_object ?j"
    by (simp_all add: manifest_to_json_def manifest_body_def json_field_defs object_field_def codec_simps)
      (simp_all add: window_to_json_def path_to_json_def rollback_to_json_def codec_simps)
  have "migrations_from_json ?j = Inr (mf_migrations m)"
    using assms(1) migration_step_codec.array_round_trip [of "mf_migrations m"]
    by (simp add: migrations_from_json_def f codec_simps json_elements manifest_wf_def)
  moreover have "?r = m\<lparr>mf_digest := digest_zero\<rparr>" by (cases m) simp
  then have "check_manifest_digest dtoa ?j ?r = Inr m"
    unfolding \<open>?r = m\<lparr>mf_digest := digest_zero\<rparr>\<close> using assms by (simp add: check_manifest_digest_def f codec_simps manifest_wf_def Let_def manifest_verify_digest_def)
  moreover have "compatibility_decision_from_json dtoa (decision_to_json (mf_compatibility m)) = Inr (mf_compatibility m)"
    using assms(1,2) by (intro decision_json_round_trip) (simp_all add: manifest_wf_def)
  ultimately show ?thesis
    using assms(1) unfolding manifest_from_json_def manifest_wf_def
    by (simp add: f name_field_round_trip component_spec_round_trip window_round_trip path_round_trip rollback_round_trip)
qed

section \<open>An example manifest\<close>

definition example_spec :: "string \<Rightarrow> u16 \<Rightarrow> u32 \<Rightarrow> ComponentSpec" where
  "example_spec host minor schema =
     \<lparr>cs_id = ''router'', cs_software = SoftwareVersion 1 minor 0 [], cs_protocol = ProtocolVersion 1 minor,
      cs_schema = schema, cs_features = 0, cs_artifact_digest = digest_zero, cs_host = host, cs_port = 9000\<rparr>"

definition example_step :: MigrationStepSpec where
  "example_step = \<lparr>ms_id = ''step-1'', ms_from = 1, ms_to = 2, ms_function = ''identity'', ms_parameters = JObject [],
     ms_deterministic = True, ms_reversible = True, ms_irreversible_boundary = False,
     ms_evidence_digest = digest_zero, ms_description = []\<rparr>"

definition example_manifest :: "CompatibilityDecision \<Rightarrow> EvolutionManifest" where
  "example_manifest d =
     \<lparr>mf_id = ''manifest-1'', mf_campaign = ''campaign-1'', mf_shard = ''shard-1'', mf_revision = 1,
      mf_source = example_spec ''old'' 0 1, mf_target = example_spec ''new'' 1 2,
      mf_window = \<lparr>max_duration_ms = 1000, max_operations = 500, min_participants = 2, require_read_only_shared_phase = True\<rparr>,
      mf_compatibility = d, mf_migrations = [example_step],
      mf_protocol = \<lparr>path_accepted = [ProtocolVersion 1 0, ProtocolVersion 1 1], path_required_features = 0, path_allowed_features = 0\<rparr>,
      mf_rollback = \<lparr>rs_kind = RollbackToPredecessor, rs_recovery_plan = ''restart'', rs_boundaries = []\<rparr>,
      mf_digest = digest_zero\<rparr>"

lemma example_names_valid: "name_is_valid_text ''manifest-1''" "name_is_valid_text ''campaign-1''" "name_is_valid_text ''shard-1''"
  "name_is_valid_text ''router''" "name_is_valid_text ''step-1''"
  by code_simp+

lemma example_schemas_ascend [simp]: "\<not> (2 :: u32) \<le> 1"
  by code_simp

lemma example_path: "migration_path (example_manifest d) 1 2 = [example_step]"
  by (simp add: migration_path_def example_manifest_def path_loop.simps step_from_def) (simp add: example_step_def)

text \<open>The example validates for every verdict that is acceptable to the code.\<close>

lemma example_manifest_validates_with:
  assumes "v \<noteq> VerdictUnsupported" "v = Supported \<Longrightarrow> p"
    and "d = example_decision\<lparr>cd_verdict := v, cd_rollback_permitted := p\<rparr>"
  shows "manifest_validate dtoa (example_manifest (decision_seal dtoa d)) = Ok"
proof -
  let ?m = "example_manifest (decision_seal dtoa d)"
  have "validate_identity ?m = Ok"
    by (simp add: validate_identity_def Let_def example_manifest_def example_spec_def spec_is_valid_def
        example_names_valid name_is_valid_def sv_is_valid_def pv_is_valid_def tagged_is_valid_def kMaxMigrationSteps_def)
  moreover have "validate_compatibility dtoa ?m = Ok"
    using decision_seal_verifies [of dtoa d] assms
    by (simp add: validate_compatibility_def Let_def example_manifest_def example_spec_def)
      (simp add: decision_seal_def example_decision_def)
  moreover have "validate_steps (mf_rollback ?m) {} (mf_migrations ?m) = Ok"
    by (simp add: example_manifest_def example_step_def example_names_valid name_is_valid_def tagged_is_valid_def)
  moreover have "validate_chain ?m = Ok" "validate_rollback ?m = Ok"
    using example_path [of "decision_seal dtoa d"]
    by (simp_all add: validate_chain_def validate_rollback_def Let_def crosses_irreversible_boundary_def)
      (simp_all add: example_manifest_def example_spec_def example_step_def)
  moreover have "validate_protocol ?m = Ok"
    by (simp add: validate_protocol_def Let_def example_manifest_def example_spec_def path_accepts_def compatible_with_def
        fs_contains_all_def fs_without_def)
  moreover have "validate_window ?m = Ok"
    using assms by (auto simp: validate_window_def Let_def example_manifest_def kMaxMixedVersionWindowMs_def kMaxMixedVersionOperations_def
        decision_seal_def)
  ultimately show ?thesis by (simp add: manifest_validate_def)
qed

lemma example_manifest_validates:
  "manifest_validate dtoa (example_manifest (decision_seal dtoa example_decision)) = Ok"
  by (rule example_manifest_validates_with [of Supported True]) (simp_all add: example_decision_def)

theorem migration_path_is_declared_chain_witness:
  "step_chain (example_manifest example_decision) 1 (migration_path (example_manifest example_decision) 1 2) 2 \<and>
   {p. step_chain (example_manifest example_decision) 1 p 2} = {[example_step]}"
proof -
  have "distinct (map ms_from (mf_migrations (example_manifest example_decision)))" by (simp add: example_manifest_def)
  with migration_path_is_declared_chain [of "example_manifest example_decision" 1 2] show ?thesis by (auto simp: example_path)
qed

text \<open>
  When two declared steps leave the same schema, only the first is followed: the path from 1 to 3 is not found
  although the declared steps contain one.
\<close>

lemma shadowed_step_hides_path:
  fixes d :: CompatibilityDecision
  defines "st a b \<equiv> example_step\<lparr>ms_from := a, ms_to := b\<rparr>"
  defines "m \<equiv> (example_manifest d)\<lparr>mf_migrations := [st 1 5, st 1 2, st 2 3]\<rparr>"
  shows "step_chain m 1 [st 1 2, st 2 3] 3" "migration_path m 1 3 = []"
proof -
  show "step_chain m 1 [st 1 2, st 2 3] 3"
    by (intro step_chain.intros) (simp_all add: m_def st_def step_chain.intros)
  show "migration_path m 1 3 = []"
    by (simp add: migration_path_def path_loop.simps step_from_def m_def st_def)
qed

theorem validated_manifest_crosses_only_declared_boundaries_witness:
  "declared_chain (example_manifest (decision_seal (\<lambda>_. []) example_decision)) 1 [example_step] 2 \<and>
   \<not> ms_irreversible_boundary example_step"
proof -
  let ?m = "example_manifest (decision_seal (\<lambda>_. []) example_decision)"
  have f: "cs_schema (mf_source ?m) = 1" "cs_schema (mf_target ?m) = 2" "rs_kind (mf_rollback ?m) = RollbackToPredecessor"
    by (simp_all add: example_manifest_def example_spec_def)
  show ?thesis
    using validated_manifest_crosses_only_declared_boundaries [OF example_manifest_validates refl, of "\<lambda>_. []"]
    unfolding f example_path by auto
qed

theorem validated_manifest_negotiates_witness:
  "usable (negotiate_pair
      ((ex_hello ''router'' 0 0)\<lparr>he_protocol := ProtocolVersion 1 0\<rparr>) ((ex_hello ''router'' 1 0)\<lparr>he_protocol := ProtocolVersion 1 1\<rparr>)
      (mf_protocol (example_manifest (decision_seal (\<lambda>_. []) example_decision))) [1, 2])"
proof -
  have v: "hello_is_valid ((ex_hello ''router'' n 0)\<lparr>he_protocol := ProtocolVersion 1 n\<rparr>)" for n
    by (simp add: hello_is_valid_def ex_hello_def name_is_valid_def sv_is_valid_def pv_is_valid_def
        incarnation_is_valid_def uuid_is_nil_def tagged_is_valid_def numeral_eq_Suc)
  show ?thesis
    using validated_manifest_negotiates [OF example_manifest_validates [of "\<lambda>_. []"] v [of 0] v [of 1], of "[1, 2]"]
    by (simp add: example_manifest_def example_spec_def ex_hello_def)
qed

theorem effective_window_bounds_witness:
  "max_duration_ms (effective_window (example_manifest (decision_seal (\<lambda>_. []) example_decision))) \<le> 100 \<and>
   max_operations (effective_window (example_manifest (decision_seal (\<lambda>_. []) example_decision))) \<le> 10"
proof -
  let ?m = "example_manifest (decision_seal (\<lambda>_. []) example_decision)"
  have "cd_max_mixed_version_ms (mf_compatibility ?m) = 100" "cd_max_mixed_version_operations (mf_compatibility ?m) = 10"
    by (simp_all add: example_manifest_def decision_seal_def example_decision_def)
  then show ?thesis
    using effective_window_bounds [OF example_manifest_validates refl refl, of "\<lambda>_. []"] by simp
qed

theorem manifest_json_round_trip_witness:
  "\<exists>m. mf_id m = ''manifest-1'' \<and> manifest_from_json (\<lambda>_. []) (manifest_to_json m) = Inr m"
proof -
  let ?d = "decision_seal (\<lambda>_. []) example_decision"
  let ?m = "(example_manifest ?d)\<lparr>mf_digest := manifest_digest (\<lambda>_. []) (example_manifest ?d)\<rparr>"
  have "decision_wf ?d"
    by (simp add: decision_wf_def decision_seal_def decision_digest_def digest_wf_text_digest)
      (simp add: example_decision_def example_names_valid software_wf_def features_known_def)
  then have "manifest_wf ?m"
    by (simp add: manifest_wf_def manifest_digest_def digest_wf_text_digest)
      (simp add: example_manifest_def example_spec_def example_step_def spec_wf_def step_wf_def example_names_valid
        software_wf_def features_known_def digest_wf_def digest_zero_def codec_simps)
  moreover have "decision_verify (\<lambda>_. []) (mf_compatibility ?m) = Ok"
    using decision_seal_verifies by (simp add: example_manifest_def)
  ultimately have "manifest_from_json (\<lambda>_. []) (manifest_to_json ?m) = Inr ?m"
    by (intro manifest_json_round_trip) (simp_all add: manifest_verify_digest_def)
  moreover have "mf_id ?m = ''manifest-1''" by (simp add: example_manifest_def)
  ultimately show ?thesis by blast
qed

section \<open>Gaps in the validation\<close>

text \<open>
  The evidence may forbid rolling back, but \<^verbatim>\<open>validate\<close> consults that flag only for the verdict
  \<open>Supported\<close>: with the weaker verdict \<open>SupportedWithConstraints\<close> a manifest that rolls back to the
  predecessor validates against evidence that does not permit it.
\<close>

lemma constrained_rollback_refusal_ignored:
  "manifest_validate dtoa (example_manifest (decision_seal dtoa
     (example_decision\<lparr>cd_verdict := SupportedWithConstraints, cd_rollback_permitted := False\<rparr>))) = Ok"
  by (rule example_manifest_validates_with [of SupportedWithConstraints False]) simp_all

end
