(* ===== verification/Durable_Store.thy ===== *)
theory Durable_Store
  imports Status_Codes Strong_Types Text_Codec Digest
begin

text \<open>
  Durable persistence: \<^verbatim>\<open>include/fabric/evolution/persistence.hpp\<close> and \<^verbatim>\<open>src/persistence.cpp\<close>.
  Integrity files (fixed header, CRC and digest, atomic replacement, backup copy) and record logs
  (length-prefixed, checksummed records, read up to the first damage).

  The file system is a map from paths to contents. How the operating system treats one call is the
  argument \<open>io\<close>: whether a file opens, how many bytes reach it, whether flush, copy and rename
  succeed. A writing operation answers its status and the file systems it goes through, one for every
  durable effect in program order (a write or copy goes through every prefix), so a crash leaves one
  of them. The file lock and the creation of directories are not modelled.
\<close>

type_synonym FileSystem = "string \<rightharpoonup> string"

record IoOutcome =
  io_open :: bool            \<comment> \<open>\<^verbatim>\<open>fopen\<close> succeeds\<close>
  io_written :: nat          \<comment> \<open>bytes \<^verbatim>\<open>fwrite\<close> gets out before it gives up\<close>
  io_flush :: bool           \<comment> \<open>\<^verbatim>\<open>fflush\<close>, \<^verbatim>\<open>fsync\<close> and \<^verbatim>\<open>fclose\<close> succeed\<close>
  io_rename :: bool
  io_copied :: nat           \<comment> \<open>bytes \<^verbatim>\<open>copy_file\<close> gets out before it gives up\<close>

section \<open>Constants\<close>

definition integrity_magic :: string where
  "integrity_magic = ''FABEVO1'' @ [CHR 0x00]"

definition kFormatVersion :: u32 where
  "kFormatVersion = 1"

definition kRecordMagic :: string where
  "kRecordMagic = ''FXR1''"

definition kRecordHeaderBytes :: nat where
  "kRecordHeaderBytes = 24"

definition kIntegrityHeaderBytes :: nat where
  "kIntegrityHeaderBytes = 128"

definition kMaxIntegrityPayloadBytes :: nat where
  "kMaxIntegrityPayloadBytes = 64 * 1024 * 1024"

definition kMaxRecordBytes :: nat where
  "kMaxRecordBytes = 8 * 1024 * 1024"

definition kMaxLogRecords :: nat where
  "kMaxLogRecords = 1000000"

definition size_max :: nat where
  "size_max = 2 ^ 64 - 1"

definition backup_path :: "string \<Rightarrow> string" where
  "backup_path path = path @ ''.prev''"

definition temporary_path :: "nat \<Rightarrow> string \<Rightarrow> string" where
  "temporary_path pid path = path @ ''.tmp-'' @ nat_to_string pid"

section \<open>Integrity files\<close>

record IntegrityFileInfo =
  if_format_version :: u32
  if_payload_bytes :: u64
  if_payload_crc32 :: u32
  if_payload_digest :: Digest
  if_previous_digest :: Digest

definition path_exists :: "FileSystem \<Rightarrow> string \<Rightarrow> bool" where
  "path_exists fs path = (fs path \<noteq> None)"

definition read_binary_file :: "FileSystem \<Rightarrow> string \<Rightarrow> string Result" where
  "read_binary_file fs path =
     (case fs path of
        None \<Rightarrow> Inl IoFailure
      | Some contents \<Rightarrow>
          if length contents > kMaxIntegrityPayloadBytes + kIntegrityHeaderBytes then Inl BoundsExceeded else Inr contents)"

definition verify_integrity_bytes :: "string \<Rightarrow> (IntegrityFileInfo \<times> string) Result" where
  "verify_integrity_bytes raw =
     (if length raw < kIntegrityHeaderBytes then Inl IntegrityFailure
      else if take 8 raw \<noteq> integrity_magic then Inl IntegrityFailure
      else
        let format_version = read_u32_le (drop 8 raw); header_bytes = read_u32_le (drop 12 raw) in
        if format_version \<noteq> kFormatVersion then Inl IntegrityFailure
        else if unat header_bytes \<noteq> kIntegrityHeaderBytes then Inl IntegrityFailure
        else
          let payload_bytes = read_u64_le (drop 16 raw); payload_crc = read_u32_le (drop 24 raw) in
          if unat payload_bytes > kMaxIntegrityPayloadBytes then Inl BoundsExceeded
          else if size_add (unat payload_bytes) kIntegrityHeaderBytes \<noteq> Some (length raw) then Inl IntegrityFailure
          else
            let digest_bytes = map byte_of_char (take 32 (drop 32 raw));
                previous_bytes = map byte_of_char (take 32 (drop 64 raw));
                payload = take (unat payload_bytes) (drop kIntegrityHeaderBytes raw) in
            if crc32_text payload \<noteq> payload_crc then Inl IntegrityFailure
            else if text_digest payload \<noteq> digest_bytes then Inl IntegrityFailure
            else Inr (\<lparr>if_format_version = format_version, if_payload_bytes = payload_bytes, if_payload_crc32 = payload_crc,
                       if_payload_digest = digest_bytes, if_previous_digest = previous_bytes\<rparr>, payload))"

text \<open>\<^verbatim>\<open>std::memcpy(out.data() + offset, bytes, ...)\<close>\<close>

definition put_bytes :: "nat \<Rightarrow> string \<Rightarrow> string \<Rightarrow> string" where
  "put_bytes offset bytes out = take offset out @ bytes @ drop (offset + length bytes) out"

definition encode_integrity_file :: "string \<Rightarrow> Digest \<Rightarrow> string" where
  "encode_integrity_file payload previous_digest =
     (let header_tail =
            append_u32_le (append_u32_le (append_u64_le (append_u32_le (append_u32_le []
              kFormatVersion) (of_nat kIntegrityHeaderBytes)) (of_nat (length payload))) (crc32_text payload)) 0;
          out1 = put_bytes 0 integrity_magic (replicate kIntegrityHeaderBytes (CHR 0x00));
          out2 = put_bytes 8 header_tail out1;
          out3 = put_bytes 32 (map char_of_byte (text_digest payload)) out2;
          out4 = put_bytes 64 (map char_of_byte previous_digest) out3 in
      out4 @ payload)"

definition read_integrity_file :: "FileSystem \<Rightarrow> string \<Rightarrow> (IntegrityFileInfo \<times> string) Result" where
  "read_integrity_file fs path = rbind (read_binary_file fs path) verify_integrity_bytes"

text \<open>The file systems that writing \<open>bytes\<close> behind the contents \<open>old\<close> goes through, up to \<open>n\<close> bytes.\<close>

definition write_states :: "FileSystem \<Rightarrow> string \<Rightarrow> string \<Rightarrow> string \<Rightarrow> nat \<Rightarrow> FileSystem list" where
  "write_states fs path old bytes n = map (\<lambda>k. fs(path \<mapsto> old @ take k bytes)) [0..<Suc (min n (length bytes))]"

text \<open>
  Open, write, flush, close the temporary file and rename it over the target; on a failure the
  temporary file is removed. The answer has the file systems the operation goes through.
\<close>

definition install_bytes :: "IoOutcome \<Rightarrow> nat \<Rightarrow> string \<Rightarrow> string \<Rightarrow> FileSystem \<Rightarrow> Status \<times> FileSystem list" where
  "install_bytes io pid path bytes fs =
     (let tmp = temporary_path pid path in
      if \<not> io_open io then (IoFailure, [fs])
      else if bytes \<noteq> [] \<and> io_written io < length bytes
      then (IoFailure, [fs] @ write_states fs tmp [] bytes (io_written io) @ [fs(tmp := None)])
      else if \<not> io_flush io
      then (IoFailure, [fs] @ write_states fs tmp [] bytes (length bytes) @ [fs(tmp := None)])
      else if \<not> io_rename io
      then (IoFailure, [fs] @ write_states fs tmp [] bytes (length bytes) @ [fs(tmp := None)])
      else (Ok, [fs] @ write_states fs tmp [] bytes (length bytes) @ [fs(tmp := None, path \<mapsto> bytes)]))"

definition write_bytes_atomic :: "IoOutcome \<Rightarrow> nat \<Rightarrow> string \<Rightarrow> string \<Rightarrow> FileSystem \<Rightarrow> Status \<times> FileSystem list" where
  "write_bytes_atomic io pid path bytes fs = install_bytes io pid path bytes fs"

definition write_integrity_file ::
  "IoOutcome \<Rightarrow> nat \<Rightarrow> string \<Rightarrow> string \<Rightarrow> bool \<Rightarrow> FileSystem \<Rightarrow> Status \<times> FileSystem list" where
  "write_integrity_file io pid path payload keep_backup fs =
     (if length payload > kMaxIntegrityPayloadBytes then (BoundsExceeded, [fs])
      else
        case (if path_exists fs path then read_integrity_file fs path else Inl NotFound) of
          Inl _ \<Rightarrow> install_bytes io pid path (encode_integrity_file payload digest_zero) fs
        | Inr (previous_info, _) \<Rightarrow>
            let encoded = encode_integrity_file payload (if_payload_digest previous_info); old = the (fs path) in
            if \<not> keep_backup then install_bytes io pid path encoded fs
            else
              let copying = write_states fs (backup_path path) [] old (io_copied io) in
              if io_copied io < length old then (IoFailure, [fs] @ copying)
              else
                let (status, states) = install_bytes io pid path encoded (fs(backup_path path \<mapsto> old)) in
                (status, [fs] @ copying @ states))"

record RecoveryOutcome =
  ro_payload :: string
  ro_info :: IntegrityFileInfo
  ro_from_backup :: bool

definition read_integrity_file_with_recovery :: "FileSystem \<Rightarrow> string \<Rightarrow> bool \<Rightarrow> RecoveryOutcome Result" where
  "read_integrity_file_with_recovery fs path allow_backup =
     (case read_integrity_file fs path of
        Inr (info, payload) \<Rightarrow> Inr \<lparr>ro_payload = payload, ro_info = info, ro_from_backup = False\<rparr>
      | Inl e \<Rightarrow>
          if \<not> allow_backup then Inl e
          else if \<not> path_exists fs (backup_path path) then Inl e
          else
            (case read_integrity_file fs (backup_path path) of
               Inl e' \<Rightarrow> Inl e'
             | Inr (info, payload) \<Rightarrow> Inr \<lparr>ro_payload = payload, ro_info = info, ro_from_backup = True\<rparr>))"

definition remove_file :: "FileSystem \<Rightarrow> string \<Rightarrow> FileSystem" where
  "remove_file fs path = fs(path := None)"

section \<open>Record logs\<close>

definition encode_record :: "string \<Rightarrow> string" where
  "encode_record payload =
     append_u32_le (append_u32_le (append_u64_le (append_u32_le kRecordMagic kFormatVersion)
       (of_nat (length payload))) (crc32_text payload)) 0 @ payload"

text \<open>
  \<^verbatim>\<open>append_record\<close>: header and payload go through one stream, so a crash or a failed write leaves a
  prefix of the encoded record at the end of the file. The appended bytes are never taken back.
\<close>

definition append_record :: "IoOutcome \<Rightarrow> string \<Rightarrow> string \<Rightarrow> FileSystem \<Rightarrow> Status \<times> FileSystem list" where
  "append_record io path payload fs =
     (if length payload > kMaxRecordBytes then (BoundsExceeded, [fs])
      else if \<not> io_open io then (IoFailure, [fs])
      else
        let old = (case fs path of None \<Rightarrow> [] | Some c \<Rightarrow> c); bytes = encode_record payload in
        if io_written io < length bytes then (IoFailure, [fs] @ write_states fs path old bytes (io_written io))
        else if \<not> io_flush io then (IoFailure, [fs] @ write_states fs path old bytes (length bytes))
        else (Ok, [fs] @ write_states fs path old bytes (length bytes)))"

record LogReadReport =
  lr_records :: "string list"
  lr_total_records :: nat
  lr_damaged_tail_bytes :: nat
  lr_truncated :: bool
  lr_damaged :: bool

definition report_empty :: LogReadReport where
  "report_empty = \<lparr>lr_records = [], lr_total_records = 0, lr_damaged_tail_bytes = 0, lr_truncated = False, lr_damaged = False\<rparr>"

definition truncated_report :: "LogReadReport \<Rightarrow> nat \<Rightarrow> LogReadReport" where
  "truncated_report r n = r\<lparr>lr_truncated := True, lr_damaged_tail_bytes := n\<rparr>"

definition damaged_report :: "LogReadReport \<Rightarrow> nat \<Rightarrow> LogReadReport" where
  "damaged_report r n = r\<lparr>lr_damaged := True, lr_damaged_tail_bytes := n\<rparr>"

definition push_record :: "LogReadReport \<Rightarrow> string \<Rightarrow> LogReadReport" where
  "push_record r payload = r\<lparr>lr_records := lr_records r @ [payload], lr_total_records := lr_total_records r + 1\<rparr>"

text \<open>The loop \<^verbatim>\<open>while (offset < contents.size())\<close>.\<close>

function read_loop :: "string \<Rightarrow> nat \<Rightarrow> LogReadReport \<Rightarrow> LogReadReport Result" where
  "read_loop contents offset report =
     (if length contents \<le> offset then Inr report
      else if lr_total_records report \<ge> kMaxLogRecords then Inl ResourceExhausted
      else
        let rest = length contents - offset; bytes = drop offset contents in
        if rest < kRecordHeaderBytes then Inr (truncated_report report rest)
        else if take 4 bytes \<noteq> kRecordMagic then Inr (damaged_report report rest)
        else if read_u32_le (drop 4 bytes) \<noteq> kFormatVersion then Inr (damaged_report report rest)
        else
          let len = unat (read_u64_le (drop 8 bytes)); recorded_crc = read_u32_le (drop 16 bytes) in
          if len > kMaxRecordBytes then Inr (damaged_report report rest)
          else
            (case size_add offset (case size_add kRecordHeaderBytes len of Some s \<Rightarrow> s | None \<Rightarrow> size_max) of
               None \<Rightarrow> Inr (truncated_report report rest)
             | Some end \<Rightarrow>
                 if end > length contents then Inr (truncated_report report rest)
                 else
                   let payload = take len (drop (offset + kRecordHeaderBytes) contents) in
                   if crc32_text payload \<noteq> recorded_crc then Inr (damaged_report report rest)
                   else read_loop contents end (push_record report payload)))"
  by pat_completeness auto
termination
  by (relation "measure (\<lambda>(contents, offset, _). length contents - offset)")
    (auto simp: size_add_def kRecordHeaderBytes_def size_max_def split: if_splits option.splits)

definition read_records :: "FileSystem \<Rightarrow> string \<Rightarrow> LogReadReport Result" where
  "read_records fs path =
     (if \<not> path_exists fs path then Inr report_empty
      else rbind (read_binary_file fs path) (\<lambda>contents. read_loop contents 0 report_empty))"

declare read_loop.simps [simp del]

lemma size_add_alt: "size_add a b = (if a + b \<le> size_max then Some (a + b) else None)"
  by (auto simp: size_add_def size_max_def)

section \<open>Record logs: what reading gives back\<close>

definition record_head :: "string \<Rightarrow> string" where
  "record_head p = kRecordMagic @ append_u32_le [] kFormatVersion @ append_u64_le [] (of_nat (length p)) @
     append_u32_le [] (crc32_text p) @ append_u32_le [] 0"

lemma encode_record_layout: "encode_record p = record_head p @ p"
proof -
  have a: "append_u32_le kRecordMagic v = kRecordMagic @ append_u32_le [] v" for v by (rule append_u32_le_eq)
  have b: "append_u64_le (kRecordMagic @ x) v = kRecordMagic @ x @ append_u64_le [] v" for x v
    using append_u64_le_eq [of "kRecordMagic @ x"] by simp
  have c: "append_u32_le (kRecordMagic @ x) v = kRecordMagic @ x @ append_u32_le [] v" for x v
    using append_u32_le_eq [of "kRecordMagic @ x"] by simp
  show ?thesis by (simp add: encode_record_def record_head_def a b c)
qed

lemma length_record_head [simp]: "length (record_head p) = 24"
  by (simp add: record_head_def kRecordMagic_def)

lemma length_encode_record: "length (encode_record p) = 24 + length p"
  by (simp add: encode_record_layout)

lemma unat_length: "length p \<le> kMaxRecordBytes \<Longrightarrow> unat (of_nat (length p) :: u64) = length p"
  by (simp add: kMaxRecordBytes_def unat_of_nat take_bit_nat_eq_self)

lemma record_head_fields:
  "take 4 (record_head p @ q) = kRecordMagic" "read_u32_le (drop 4 (record_head p @ q)) = kFormatVersion"
  "read_u64_le (drop 8 (record_head p @ q)) = of_nat (length p)" "read_u32_le (drop 16 (record_head p @ q)) = crc32_text p"
proof -
  show "take 4 (record_head p @ q) = kRecordMagic" by (simp add: record_head_def kRecordMagic_def)
  have "drop 4 (record_head p @ q) = append_u32_le [] kFormatVersion @ drop 8 (record_head p @ q)"
    "drop 8 (record_head p @ q) = append_u64_le [] (of_nat (length p)) @ drop 16 (record_head p @ q)"
    "drop 16 (record_head p @ q) = append_u32_le [] (crc32_text p) @ drop 20 (record_head p @ q)"
    by (simp_all add: record_head_def kRecordMagic_def)
  then show "read_u32_le (drop 4 (record_head p @ q)) = kFormatVersion"
    "read_u64_le (drop 8 (record_head p @ q)) = of_nat (length p)" "read_u32_le (drop 16 (record_head p @ q)) = crc32_text p"
    by (metis read_append_u32, metis read_append_u64, metis read_append_u32)
qed

text \<open>One round of the loop at a complete record header.\<close>

lemma read_loop_step:
  assumes "drop off c = record_head p @ q" "length p \<le> kMaxRecordBytes" "lr_total_records r < kMaxLogRecords" "length c \<le> size_max"
  shows "read_loop c off r =
    (if length q < length p then Inr (truncated_report r (24 + length q))
     else if crc32_text (take (length p) q) \<noteq> crc32_text p then Inr (damaged_report r (24 + length q))
     else read_loop c (off + (24 + length p)) (push_record r (take (length p) q)))"
proof -
  have l: "length c - off = 24 + length q" using arg_cong [OF assms(1), of length] by simp
  then have n: "length c = off + (24 + length q)" by simp
  have d: "drop (off + 24) c = q" using arg_cong [OF assms(1), of "drop 24"] by (simp add: add.commute)
  have c: "size_add 24 (length p) = Some (24 + length p)"
    using assms(2) by (simp add: size_add_alt kMaxRecordBytes_def size_max_def)
  have e: "(case size_add off (24 + length p) of None \<Rightarrow> x | Some end \<Rightarrow> if length c < end then x else f end) =
      (if length q < length p then x else f (off + (24 + length p)))" for x and f :: "nat \<Rightarrow> LogReadReport Result"
    using assms(4) by (auto simp: size_add_alt n)
  show ?thesis
    unfolding read_loop.simps [of c off r] Let_def l assms(1) record_head_fields unat_length [OF assms(2)] kRecordHeaderBytes_def c
      option.case e d
    using assms(2,3) n by simp
qed

lemma read_loop_records:
  assumes "\<forall>p \<in> set ps. length p \<le> kMaxRecordBytes" "lr_total_records r + length ps \<le> kMaxLogRecords"
    and "contents = pre @ concat (map encode_record ps) @ suf" "length contents \<le> size_max"
  shows "read_loop contents (length pre) r =
     read_loop contents (length (pre @ concat (map encode_record ps)))
       (r\<lparr>lr_records := lr_records r @ ps, lr_total_records := lr_total_records r + length ps\<rparr>)"
  using assms
proof (induction ps arbitrary: pre r)
  case (Cons p ps)
  have "read_loop contents (length pre) r = read_loop contents (length (pre @ encode_record p)) (push_record r p)"
    using Cons.prems read_loop_step [of "length pre" contents p "p @ concat (map encode_record ps) @ suf" r]
    by (simp add: encode_record_layout [of p])
  also have "\<dots> = read_loop contents (length ((pre @ encode_record p) @ concat (map encode_record ps)))
      ((push_record r p)\<lparr>lr_records := lr_records (push_record r p) @ ps,
         lr_total_records := lr_total_records (push_record r p) + length ps\<rparr>)"
    using Cons.prems by (intro Cons.IH) (simp_all add: push_record_def)
  finally show ?case by (simp add: push_record_def)
qed simp

text \<open>The loop at a torn record: a proper prefix of an encoded record ends the log.\<close>

lemma read_loop_torn:
  assumes "length p \<le> kMaxRecordBytes" "lr_total_records r < kMaxLogRecords" "0 < k" "k < length (encode_record p)"
    and "length (pre @ encode_record p) \<le> size_max"
  shows "read_loop (pre @ take k (encode_record p)) (length pre) r = Inr (truncated_report r k)"
proof (cases "k < 24")
  case True
  then show ?thesis using assms by (subst read_loop.simps) (simp add: Let_def kRecordHeaderBytes_def min_def not_le)
next
  case False
  then have "take k (encode_record p) = record_head p @ take (k - 24) p" by (simp add: encode_record_layout)
  then show ?thesis
    using read_loop_step [of "length pre" "pre @ take k (encode_record p)" p "take (k - 24) p" r] assms False
    by (auto simp: length_encode_record)
qed

lemma read_loop_end: "length contents \<le> offset \<Longrightarrow> read_loop contents offset r = Inr r"
  by (simp add: read_loop.simps)

definition log_bytes :: "string list \<Rightarrow> string" where
  "log_bytes ps = concat (map encode_record ps)"

definition log_fits :: "string list \<Rightarrow> bool" where
  "log_fits ps = (list_all (\<lambda>p. length p \<le> kMaxRecordBytes) ps \<and> length ps \<le> kMaxLogRecords \<and>
     length (log_bytes ps) \<le> kMaxIntegrityPayloadBytes + kIntegrityHeaderBytes)"

definition intact_report :: "string list \<Rightarrow> LogReadReport" where
  "intact_report ps = report_empty\<lparr>lr_records := ps, lr_total_records := length ps\<rparr>"

lemma fits_size: "n \<le> kMaxIntegrityPayloadBytes + kIntegrityHeaderBytes \<Longrightarrow> n \<le> size_max"
  by (simp add: kMaxIntegrityPayloadBytes_def kIntegrityHeaderBytes_def size_max_def)

lemma log_bytes_append [simp]: "log_bytes (ps @ [p]) = log_bytes ps @ encode_record p" "log_bytes [] = []"
  by (simp_all add: log_bytes_def)

lemma read_loop_log:
  assumes "list_all (\<lambda>p. length p \<le> kMaxRecordBytes) ps" "length ps \<le> kMaxLogRecords"
    and "length (log_bytes ps @ suf) \<le> size_max"
  shows "read_loop (log_bytes ps @ suf) 0 report_empty = read_loop (log_bytes ps @ suf) (length (log_bytes ps)) (intact_report ps)"
  using read_loop_records [of ps report_empty "log_bytes ps @ suf" "[]" suf] assms
  by (simp add: list_all_iff log_bytes_def intact_report_def report_empty_def)

text \<open>Reading an intact log, whole or cut anywhere inside its last record.\<close>

lemma read_torn_log:
  assumes "log_fits (ps @ [p])" "k < length (encode_record p)" "fs path = Some (log_bytes ps @ take k (encode_record p))"
  shows "read_records fs path = Inr (if k = 0 then intact_report ps else truncated_report (intact_report ps) k)"
proof -
  let ?c = "log_bytes ps @ take k (encode_record p)"
  have s: "length (log_bytes ps @ encode_record p) \<le> size_max" using assms(1) by (intro fits_size) (simp add: log_fits_def)
  have fits: "length ?c \<le> kMaxIntegrityPayloadBytes + kIntegrityHeaderBytes" using assms(1,2) by (simp add: log_fits_def)
  have "read_loop ?c 0 report_empty = read_loop ?c (length (log_bytes ps)) (intact_report ps)"
    using assms(1) fits_size [OF fits] by (intro read_loop_log) (simp_all add: log_fits_def)
  also have "\<dots> = Inr (if k = 0 then intact_report ps else truncated_report (intact_report ps) k)"
    using assms s read_loop_torn [of p "intact_report ps" k "log_bytes ps"]
    by (auto simp: read_loop_end log_fits_def intact_report_def)
  finally show ?thesis
    using assms(3) fits by (simp add: read_records_def path_exists_def read_binary_file_def not_less)
qed

lemma read_intact_log:
  assumes "log_fits ps" "fs path = Some (log_bytes ps)"
  shows "read_records fs path = Inr (intact_report ps)"
proof -
  have fits: "length (log_bytes ps) \<le> kMaxIntegrityPayloadBytes + kIntegrityHeaderBytes" using assms(1) by (simp add: log_fits_def)
  have "read_loop (log_bytes ps @ []) 0 report_empty = read_loop (log_bytes ps @ []) (length (log_bytes ps)) (intact_report ps)"
    using assms(1) fits_size [OF fits] by (intro read_loop_log) (simp_all add: log_fits_def)
  then have "read_loop (log_bytes ps) 0 report_empty = Inr (intact_report ps)" by (simp add: read_loop_end)
  then show ?thesis using assms(2) fits by (simp add: read_records_def path_exists_def read_binary_file_def not_less)
qed

section \<open>Appending\<close>

definition log_holds :: "FileSystem \<Rightarrow> string \<Rightarrow> string list \<Rightarrow> bool" where
  "log_holds fs path ps = (fs path = Some (log_bytes ps) \<or> fs path = None \<and> ps = [])"

lemma log_holds_old: "log_holds fs path ps \<Longrightarrow> (case fs path of None \<Rightarrow> [] | Some c \<Rightarrow> c) = log_bytes ps"
  by (auto simp: log_holds_def)

lemma read_held_log: "log_fits ps \<Longrightarrow> log_holds fs path ps \<Longrightarrow> read_records fs path = Inr (intact_report ps)"
  using read_intact_log [of ps fs path]
  by (auto simp: log_holds_def read_records_def path_exists_def intact_report_def report_empty_def)

lemma log_fits_butlast: "log_fits (ps @ [p]) \<Longrightarrow> log_fits ps"
  by (simp add: log_fits_def)

lemma write_states_prefix: "s \<in> set (write_states fs path old bytes n) \<Longrightarrow> \<exists>k \<le> length bytes. s = fs(path \<mapsto> old @ take k bytes)"
proof -
  assume "s \<in> set (write_states fs path old bytes n)"
  then obtain k where "k < Suc (min n (length bytes))" "s = fs(path \<mapsto> old @ take k bytes)"
    by (auto simp: write_states_def simp del: upt_Suc)
  then show ?thesis by (intro exI [of _ k]) simp
qed

lemma last_write_states: "write_states fs path old bytes (length bytes) \<noteq> [] \<and>
    last (write_states fs path old bytes (length bytes)) = fs(path \<mapsto> old @ bytes)"
  by (simp add: write_states_def)

lemma append_record_states:
  assumes "append_record io path p fs = (st, states)" "log_holds fs path ps" "s \<in> set states"
  shows "s = fs \<or> (\<exists>k \<le> length (encode_record p). s = fs(path \<mapsto> log_bytes ps @ take k (encode_record p)))"
  using assms(1,3) unfolding append_record_def log_holds_old [OF assms(2)] Let_def
  by (auto split: if_splits dest!: write_states_prefix)

lemma append_record_Ok:
  assumes "append_record io path p fs = (Ok, states)"
  shows "last states = fs(path \<mapsto> (case fs path of None \<Rightarrow> [] | Some c \<Rightarrow> c) @ encode_record p) \<and> length p \<le> kMaxRecordBytes"
  using assms last_write_states unfolding append_record_def Let_def by (auto split: if_splits)

lemma append_crash_reads:
  assumes "log_fits (ps @ [p])" "log_holds fs path ps" "append_record io path p fs = (st, states)"
  shows "(\<forall>s \<in> set states. \<exists>report. read_records s path = Inr report \<and> lr_records report \<in> {ps, ps @ [p]} \<and> \<not> lr_damaged report) \<and>
    (st = Ok \<longrightarrow> log_holds (last states) path (ps @ [p]) \<and> read_records (last states) path = Inr (intact_report (ps @ [p])))"
proof (intro conjI ballI impI)
  fix s assume "s \<in> set states"
  then consider "s = fs" | k where "k \<le> length (encode_record p)" "s = fs(path \<mapsto> log_bytes ps @ take k (encode_record p))"
    using append_record_states [OF assms(3,2)] by blast
  then show "\<exists>report. read_records s path = Inr report \<and> lr_records report \<in> {ps, ps @ [p]} \<and> \<not> lr_damaged report"
  proof cases
    case 1
    then show ?thesis using read_held_log [OF log_fits_butlast] assms(1,2) by (auto simp: intact_report_def report_empty_def)
  next
    case (2 k)
    show ?thesis
    proof (cases "k < length (encode_record p)")
      case True
      then show ?thesis using read_torn_log [OF assms(1) True, of s path] 2
        by (auto simp: intact_report_def report_empty_def truncated_report_def)
    next
      case False
      then show ?thesis using read_intact_log [OF assms(1), of s path] 2 by (auto simp: intact_report_def report_empty_def)
    qed
  qed
next
  assume "st = Ok"
  then have "last states = fs(path \<mapsto> log_bytes ps @ encode_record p)"
    using append_record_Ok [of io path p fs states] assms(3) log_holds_old [OF assms(2)] by simp
  then show "log_holds (last states) path (ps @ [p])" by (simp add: log_holds_def)
  then show "read_records (last states) path = Inr (intact_report (ps @ [p]))" by (rule read_held_log [OF assms(1)])
qed

text \<open>Appending to a record log is crash safe. Wherever the append is cut off, by a failed call or by a
  crash after any byte, reading the log answers without refusing, reports no damaged record, and gives
  the records that were there before, with or without the new one; once the append has returned
  success the log reads back intact with the new record at its end.\<close>

theorem record_append_crash_safe:
  assumes "log_fits (ps @ [p])" "log_holds fs path ps" "append_record io path p fs = (st, states)"
  shows "(\<forall>s \<in> set states. \<exists>report. read_records s path = Inr report \<and> lr_records report \<in> {ps, ps @ [p]} \<and> \<not> lr_damaged report) \<and>
    (st = Ok \<longrightarrow> log_holds (last states) path (ps @ [p]) \<and> read_records (last states) path = Inr (intact_report (ps @ [p])))"
  using assms by (rule append_crash_reads)

text \<open>A damaged record ends the log. When up to four consecutive bytes of the payload of one record are
  altered, whatever follows it, reading gives exactly the records before it, flags the damage and
  counts every byte from the damaged record on.\<close>

theorem damaged_record_ends_log:
  assumes "log_fits (ps @ [a @ bs @ c])" "length bs' = length bs" "length bs \<le> 4" "bs' \<noteq> bs"
    and "contents = log_bytes ps @ record_head (a @ bs @ c) @ a @ bs' @ c @ rest"
    and "length contents \<le> kMaxIntegrityPayloadBytes + kIntegrityHeaderBytes" "fs path = Some contents"
  shows "read_records fs path = Inr (damaged_report (intact_report ps) (length contents - length (log_bytes ps)))"
proof -
  let ?p = "a @ bs @ c"
  have f: "list_all (\<lambda>p. length p \<le> kMaxRecordBytes) ps" "length ps < kMaxLogRecords" "length ?p \<le> kMaxRecordBytes"
    using assms(1) by (simp_all add: log_fits_def)
  have "read_loop contents 0 report_empty = read_loop contents (length (log_bytes ps)) (intact_report ps)"
    using f fits_size [OF assms(6)] read_loop_log [of ps "record_head ?p @ a @ bs' @ c @ rest"] by (simp add: assms(5))
  also have "\<dots> = Inr (damaged_report (intact_report ps) (24 + length (a @ bs' @ c @ rest)))"
    using read_loop_step [of "length (log_bytes ps)" contents ?p "a @ bs' @ c @ rest" "intact_report ps"] f
      fits_size [OF assms(6)] crc32_text_burst [of bs bs' a c] assms(2-4)
    by (simp add: assms(5) intact_report_def)
  finally show ?thesis
    using assms(6,7) by (simp add: read_records_def path_exists_def read_binary_file_def not_less assms(5))
qed

text \<open>A torn tail swallows what is appended after it. Nothing removes the remains of an append that was
  cut off, so a later append that reports success is not read back: if one byte of a torn record is
  left behind the records of a log, a record appended after it is lost whatever it holds, and the
  log reports damage from the torn byte on.\<close>

theorem append_after_torn_tail_lost:
  assumes "log_fits (ps @ [q])" "log_fits ps" "fs path = Some (log_bytes ps @ take 1 (encode_record q))"
    and "append_record io path p fs = (Ok, states)" "length ps < kMaxLogRecords"
    and "length (log_bytes ps) + 1 + length (encode_record p) \<le> kMaxIntegrityPayloadBytes + kIntegrityHeaderBytes"
  shows "read_records (last states) path = Inr (damaged_report (intact_report ps) (1 + length (encode_record p)))"
proof -
  let ?c = "log_bytes ps @ CHR ''F'' # encode_record p"
  have "take 1 (encode_record q) = ''F''" by (simp add: encode_record_layout record_head_def kRecordMagic_def)
  then have l: "last states path = Some ?c" using append_record_Ok [OF assms(4)] assms(3) by simp
  have fits: "length ?c \<le> kMaxIntegrityPayloadBytes + kIntegrityHeaderBytes" using assms(6) by simp
  have "read_loop ?c 0 report_empty = read_loop ?c (length (log_bytes ps)) (intact_report ps)"
    using assms(2) fits_size [OF fits] by (intro read_loop_log) (simp_all add: log_fits_def)
  also have "\<dots> = Inr (damaged_report (intact_report ps) (1 + length (encode_record p)))"
    using assms(5)
    by (subst read_loop.simps)
      (simp add: Let_def encode_record_layout record_head_def kRecordMagic_def kRecordHeaderBytes_def intact_report_def)
  finally show ?thesis using l fits by (simp add: read_records_def path_exists_def read_binary_file_def not_less)
qed

section \<open>Integrity files\<close>

definition integrity_head :: "string \<Rightarrow> string" where
  "integrity_head p = integrity_magic @ append_u32_le [] kFormatVersion @ append_u32_le [] (of_nat kIntegrityHeaderBytes) @
     append_u64_le [] (of_nat (length p)) @ append_u32_le [] (crc32_text p) @ append_u32_le [] 0"

lemma put_bytes_replace: "length a = offset \<Longrightarrow> length b = length bytes \<Longrightarrow> put_bytes offset bytes (a @ b @ c) = a @ bytes @ c"
  by (simp add: put_bytes_def)

lemma length_text_digest [simp]: "length (text_digest t) = 32"
  using digest_wf_text_digest [of t] by (simp add: digest_wf_def)

lemma length_integrity_head [simp]: "length (integrity_head p) = 32" "length integrity_magic = 8"
  by (simp_all add: integrity_head_def integrity_magic_def)

lemma encode_integrity_layout:
  assumes "digest_wf prev"
  shows "encode_integrity_file p prev =
    integrity_head p @ map char_of_byte (text_digest p) @ map char_of_byte prev @ replicate 32 (CHR 0x00) @ p"
proof -
  let ?z = "\<lambda>n. replicate n (CHR 0x00)"
  let ?t = "append_u32_le [] kFormatVersion @ append_u32_le [] (of_nat kIntegrityHeaderBytes) @
     append_u64_le [] (of_nat (length p)) @ append_u32_le [] (crc32_text p) @ append_u32_le [] 0"
  have t: "append_u32_le (append_u32_le (append_u64_le (append_u32_le (append_u32_le []
      kFormatVersion) (of_nat kIntegrityHeaderBytes)) (of_nat (length p))) (crc32_text p)) 0 = ?t"
    by (simp add: append_u32_le_eq [of "append_u32_le _ _"] append_u64_le_eq [of "append_u32_le _ _"]
        append_u32_le_eq [of "append_u64_le _ _"] append_u32_le_eq [of "_ @ _"] append_u64_le_eq [of "_ @ _"])
  have z: "?z kIntegrityHeaderBytes = ?z 8 @ ?z 24 @ ?z 32 @ ?z 32 @ ?z 32"
    by (simp add: kIntegrityHeaderBytes_def replicate_add [symmetric])
  have 1: "put_bytes 0 integrity_magic (?z kIntegrityHeaderBytes) = integrity_magic @ ?z 24 @ ?z 32 @ ?z 32 @ ?z 32"
    unfolding z using put_bytes_replace [of "[]" 0 "?z 8" integrity_magic] by simp
  have 2: "put_bytes 8 ?t (integrity_magic @ ?z 24 @ ?z 32 @ ?z 32 @ ?z 32) = integrity_head p @ ?z 32 @ ?z 32 @ ?z 32"
    using put_bytes_replace [of integrity_magic 8 "?z 24" ?t] by (simp add: integrity_head_def)
  have 3: "put_bytes 32 (map char_of_byte (text_digest p)) (integrity_head p @ ?z 32 @ ?z 32 @ ?z 32) =
      integrity_head p @ map char_of_byte (text_digest p) @ ?z 32 @ ?z 32"
    by (intro put_bytes_replace) simp_all
  have 4: "put_bytes 64 (map char_of_byte prev) (integrity_head p @ map char_of_byte (text_digest p) @ ?z 32 @ ?z 32) =
      integrity_head p @ map char_of_byte (text_digest p) @ map char_of_byte prev @ ?z 32"
    using put_bytes_replace [of "integrity_head p @ map char_of_byte (text_digest p)" 64 "?z 32" "map char_of_byte prev" "?z 32"] assms
    by (simp add: digest_wf_def)
  show ?thesis unfolding encode_integrity_file_def Let_def t 1 2 3 4 by simp
qed

lemma integrity_head_fields:
  "take 8 (integrity_head p @ q) = integrity_magic" "read_u32_le (drop 8 (integrity_head p @ q)) = kFormatVersion"
  "read_u32_le (drop 12 (integrity_head p @ q)) = of_nat kIntegrityHeaderBytes"
  "read_u64_le (drop 16 (integrity_head p @ q)) = of_nat (length p)" "read_u32_le (drop 24 (integrity_head p @ q)) = crc32_text p"
proof -
  show "take 8 (integrity_head p @ q) = integrity_magic" by (simp add: integrity_head_def)
  have "drop 8 (integrity_head p @ q) = append_u32_le [] kFormatVersion @ drop 12 (integrity_head p @ q)"
    "drop 12 (integrity_head p @ q) = append_u32_le [] (of_nat kIntegrityHeaderBytes) @ drop 16 (integrity_head p @ q)"
    "drop 16 (integrity_head p @ q) = append_u64_le [] (of_nat (length p)) @ drop 24 (integrity_head p @ q)"
    "drop 24 (integrity_head p @ q) = append_u32_le [] (crc32_text p) @ drop 28 (integrity_head p @ q)"
    by (simp_all add: integrity_head_def)
  then show "read_u32_le (drop 8 (integrity_head p @ q)) = kFormatVersion"
    "read_u32_le (drop 12 (integrity_head p @ q)) = of_nat kIntegrityHeaderBytes"
    "read_u64_le (drop 16 (integrity_head p @ q)) = of_nat (length p)" "read_u32_le (drop 24 (integrity_head p @ q)) = crc32_text p"
    by (metis read_append_u32, metis read_append_u32, metis read_append_u64, metis read_append_u32)
qed

definition info_of :: "string \<Rightarrow> Digest \<Rightarrow> IntegrityFileInfo" where
  "info_of p prev = \<lparr>if_format_version = kFormatVersion, if_payload_bytes = of_nat (length p),
     if_payload_crc32 = crc32_text p, if_payload_digest = text_digest p, if_previous_digest = prev\<rparr>"

lemma verify_encoded:
  assumes "digest_wf prev" "length p \<le> kMaxIntegrityPayloadBytes"
  shows "verify_integrity_bytes (encode_integrity_file p prev) = Inr (info_of p prev, p)"
proof -
  define q where "q = map char_of_byte (text_digest p) @ map char_of_byte prev @ replicate 32 (CHR 0x00) @ p"
  have r: "encode_integrity_file p prev = integrity_head p @ q" using encode_integrity_layout [OF assms(1)] by (simp add: q_def)
  have l: "length (integrity_head p @ q) = length p + 128" using assms(1) by (simp add: q_def digest_wf_def)
  have u: "unat (of_nat (length p) :: u64) = length p" "unat (of_nat kIntegrityHeaderBytes :: u32) = kIntegrityHeaderBytes"
    using assms(2) by (simp_all add: kMaxIntegrityPayloadBytes_def kIntegrityHeaderBytes_def unat_of_nat take_bit_nat_eq_self)
  have c: "size_add (length p) kIntegrityHeaderBytes = Some (length p + 128)"
    using assms(2) by (simp add: size_add_alt size_max_def kMaxIntegrityPayloadBytes_def kIntegrityHeaderBytes_def)
  have d: "map byte_of_char (take 32 (drop 32 (integrity_head p @ q))) = text_digest p"
    "map byte_of_char (take 32 (drop 64 (integrity_head p @ q))) = prev"
    "take (length p) (drop kIntegrityHeaderBytes (integrity_head p @ q)) = p"
    using assms(1) by (simp_all add: q_def digest_wf_def kIntegrityHeaderBytes_def comp_def)
  show ?thesis
    unfolding r verify_integrity_bytes_def Let_def integrity_head_fields u c l d
    using assms(2) by (simp add: kIntegrityHeaderBytes_def info_of_def)
qed

text \<open>A file that verifies holds a payload of the recorded length, checksum and digest.\<close>

lemma verified_bytes:
  assumes "verify_integrity_bytes raw = Inr (info, p)"
  shows "p = drop kIntegrityHeaderBytes raw \<and> if_payload_digest info = text_digest p \<and> if_payload_crc32 info = crc32_text p \<and>
    unat (if_payload_bytes info) = length p \<and> length p \<le> kMaxIntegrityPayloadBytes"
  using assms unfolding verify_integrity_bytes_def Let_def
  by (auto simp: size_add_alt kIntegrityHeaderBytes_def split: if_splits)

lemma distinct_paths [simp]:
  "temporary_path pid path \<noteq> path" "path \<noteq> temporary_path pid path" "backup_path path \<noteq> path" "path \<noteq> backup_path path"
  "temporary_path pid path \<noteq> backup_path path" "backup_path path \<noteq> temporary_path pid path"
  by (simp_all add: temporary_path_def backup_path_def)

lemma read_integrity_file_cong: "s path = fs path \<Longrightarrow> read_integrity_file s path = read_integrity_file fs path"
  by (simp add: read_integrity_file_def read_binary_file_def)

lemma recovery_cong:
  assumes "s path = fs path" "s (backup_path path) = fs (backup_path path) \<or> (\<exists>x. read_integrity_file fs path = Inr x)"
  shows "read_integrity_file_with_recovery s path allow = read_integrity_file_with_recovery fs path allow"
  using assms read_integrity_file_cong [of s path fs] read_integrity_file_cong [of s "backup_path path" fs]
  by (auto simp: read_integrity_file_with_recovery_def path_exists_def split: sum.splits)

lemma read_installed:
  assumes "digest_wf prev" "length p \<le> kMaxIntegrityPayloadBytes" "s path = Some (encode_integrity_file p prev)"
  shows "read_integrity_file s path = Inr (info_of p prev, p)"
proof -
  have "length (encode_integrity_file p prev) = 128 + length p"
    using assms(1) by (simp add: encode_integrity_layout digest_wf_def)
  then show ?thesis
    using assms verify_encoded by (simp add: read_integrity_file_def read_binary_file_def kIntegrityHeaderBytes_def)
qed

lemma install_bytes_states:
  assumes "install_bytes io pid path bytes fs = (st, states)" "s \<in> set states"
  shows "(\<exists>x. s = fs(temporary_path pid path := x)) \<or> s = fs(temporary_path pid path := None, path \<mapsto> bytes)"
proof -
  have "\<exists>x. fs = fs(temporary_path pid path := x)" by (intro exI [of _ "fs (temporary_path pid path)"]) simp
  with assms show ?thesis
    unfolding install_bytes_def Let_def by (auto split: if_splits dest!: write_states_prefix)
qed

lemma install_bytes_last:
  assumes "install_bytes io pid path bytes fs = (st, states)"
  shows "states \<noteq> []" "st = Ok \<Longrightarrow> last states = fs(temporary_path pid path := None, path \<mapsto> bytes)"
    "st \<noteq> Ok \<Longrightarrow> \<exists>x. last states = fs(temporary_path pid path := x)"
proof -
  have e: "\<exists>x. fs = fs(temporary_path pid path := x)" by (intro exI [of _ "fs (temporary_path pid path)"]) simp
  show "states \<noteq> []" "st = Ok \<Longrightarrow> last states = fs(temporary_path pid path := None, path \<mapsto> bytes)"
    "st \<noteq> Ok \<Longrightarrow> \<exists>x. last states = fs(temporary_path pid path := x)"
    using assms e unfolding install_bytes_def Let_def by (auto split: if_splits)
qed

text \<open>The digest of the record being replaced, which the new one carries.\<close>

definition previous_digest :: "FileSystem \<Rightarrow> string \<Rightarrow> Digest" where
  "previous_digest fs path = (case read_integrity_file fs path of Inr (info, _) \<Rightarrow> if_payload_digest info | Inl _ \<Rightarrow> digest_zero)"

lemma digest_wf_previous: "digest_wf (previous_digest fs path)"
proof (cases "read_integrity_file fs path")
  case (Inr x)
  obtain info p where x: "x = (info, p)" by (cases x)
  with Inr obtain raw where "verify_integrity_bytes raw = Inr (info, p)" by (auto simp: read_integrity_file_def rbind_eq_Inr)
  then show ?thesis using verified_bytes Inr x digest_wf_text_digest by (auto simp: previous_digest_def)
qed (simp add: previous_digest_def digest_zero_def digest_wf_def)

lemma read_integrity_exists: "read_integrity_file fs path = Inr x \<Longrightarrow> path_exists fs path"
  by (auto simp: read_integrity_file_def read_binary_file_def path_exists_def split: option.splits)

lemma write_integrity_cases:
  assumes "write_integrity_file io pid path payload keep fs = (st, states)" "length payload \<le> kMaxIntegrityPayloadBytes"
  defines "new \<equiv> encode_integrity_file payload (previous_digest fs path)"
    and "copying \<equiv> write_states fs (backup_path path) [] (the (fs path)) (io_copied io)"
  shows "install_bytes io pid path new fs = (st, states) \<or>
    (\<exists>x. read_integrity_file fs path = Inr x) \<and>
      (st = IoFailure \<and> states = [fs] @ copying \<or>
       (\<exists>states'. install_bytes io pid path new (fs(backup_path path \<mapsto> the (fs path))) = (st, states') \<and> states = [fs] @ copying @ states'))"
proof (cases "read_integrity_file fs path")
  case (Inl e)
  then show ?thesis
    using assms(1,2) by (simp add: write_integrity_file_def new_def previous_digest_def split: if_splits)
next
  case (Inr x)
  obtain info p where x: "x = (info, p)" by (cases x)
  show ?thesis
    using assms(1,2) Inr read_integrity_exists [OF Inr] x
    by (auto simp: write_integrity_file_def new_def copying_def previous_digest_def Let_def split: if_splits prod.splits)
qed

text \<open>Every state of a write either has the old file in place, and the old backup unless the old file was
  intact, or has the new one.\<close>

lemma write_integrity_states:
  assumes "write_integrity_file io pid path payload keep fs = (st, states)" "length payload \<le> kMaxIntegrityPayloadBytes"
  defines "new \<equiv> encode_integrity_file payload (previous_digest fs path)"
  shows "s \<in> set states \<Longrightarrow> s path = fs path \<and>
        (s (backup_path path) = fs (backup_path path) \<or> (\<exists>x. read_integrity_file fs path = Inr x)) \<or> s path = Some new"
    and "last states path = (if st = Ok then Some new else fs path)"
  unfolding atomize_imp atomize_conj
  using write_integrity_cases [OF assms(1,2), folded new_def]
proof (elim disjE conjE exE)
  assume i: "install_bytes io pid path new fs = (st, states)"
  show "(s \<in> set states \<longrightarrow> s path = fs path \<and>
        (s (backup_path path) = fs (backup_path path) \<or> (\<exists>x. read_integrity_file fs path = Inr x)) \<or> s path = Some new) \<and>
    last states path = (if st = Ok then Some new else fs path)"
    using install_bytes_states [OF i, of s] install_bytes_last(2,3) [OF i] by (auto split: if_splits)
next
  fix x assume "read_integrity_file fs path = Inr x" "st = IoFailure"
    "states = [fs] @ write_states fs (backup_path path) [] (the (fs path)) (io_copied io)"
  then show "(s \<in> set states \<longrightarrow> s path = fs path \<and>
        (s (backup_path path) = fs (backup_path path) \<or> (\<exists>x. read_integrity_file fs path = Inr x)) \<or> s path = Some new) \<and>
    last states path = (if st = Ok then Some new else fs path)"
    by (auto simp: write_states_def last_map dest!: write_states_prefix)
next
  fix x states' assume r: "read_integrity_file fs path = Inr x"
    and i: "install_bytes io pid path new (fs(backup_path path \<mapsto> the (fs path))) = (st, states')"
    and "states = [fs] @ write_states fs (backup_path path) [] (the (fs path)) (io_copied io) @ states'"
  then show "(s \<in> set states \<longrightarrow> s path = fs path \<and>
        (s (backup_path path) = fs (backup_path path) \<or> (\<exists>x. read_integrity_file fs path = Inr x)) \<or> s path = Some new) \<and>
    last states path = (if st = Ok then Some new else fs path)"
    using install_bytes_states [OF i, of s] install_bytes_last [OF i]
    by (auto split: if_splits dest!: write_states_prefix)
qed

text \<open>C26: Replacing an integrity file is crash safe. If the file could be read back before, from the primary
  copy or the backup, then at every moment of a replacement, whichever call fails and wherever the
  process dies, it can be read back and gives the old payload or the new one. After success it is the
  new payload, read from the primary copy, linked to the digest of the record it replaced; after a
  failure the primary copy is as it was.\<close>

theorem integrity_write_crash_safe:
  assumes "read_integrity_file_with_recovery fs path True = Inr old"
    and "write_integrity_file io pid path payload keep fs = (st, states)"
  shows "(\<forall>s \<in> set states. \<exists>out. read_integrity_file_with_recovery s path True = Inr out \<and>
      ro_payload out \<in> {ro_payload old, payload}) \<and>
    (if st = Ok then read_integrity_file (last states) path = Inr (info_of payload (previous_digest fs path), payload)
     else last states path = fs path)"
proof (cases "length payload \<le> kMaxIntegrityPayloadBytes")
  case False
  then show ?thesis using assms by (auto simp: write_integrity_file_def split: if_splits)
next
  case True
  note w = write_integrity_states [OF assms(2) True]
  have new: "read_integrity_file s path = Inr (info_of payload (previous_digest fs path), payload)"
    if "s path = Some (encode_integrity_file payload (previous_digest fs path))" for s
    using digest_wf_previous True that by (rule read_installed)
  have "\<exists>out. read_integrity_file_with_recovery s path True = Inr out \<and> ro_payload out \<in> {ro_payload old, payload}"
    if "s \<in> set states" for s
    using w(1) [OF that]
  proof
    assume "s path = fs path \<and> (s (backup_path path) = fs (backup_path path) \<or> (\<exists>x. read_integrity_file fs path = Inr x))"
    then show ?thesis using recovery_cong [of s path fs] assms(1) by auto
  next
    assume "s path = Some (encode_integrity_file payload (previous_digest fs path))"
    then show ?thesis using new by (auto simp: read_integrity_file_with_recovery_def)
  qed
  then show ?thesis using w(2) new [of "last states"] by auto
qed

section \<open>Witnesses\<close>

definition good_io :: IoOutcome where
  "good_io = \<lparr>io_open = True, io_written = 1000, io_flush = True, io_rename = True, io_copied = 1000\<rparr>"

lemma small_logs_fit: "log_fits [''a'', ''b'']" "log_fits [''xyz'']"
  by (simp_all add: log_fits_def log_bytes_def length_encode_record kMaxRecordBytes_def kMaxLogRecords_def
      kMaxIntegrityPayloadBytes_def kIntegrityHeaderBytes_def)

theorem record_append_crash_safe_witness:
  "read_records (last (snd (append_record good_io ''log'' ''b'' [''log'' \<mapsto> log_bytes [''a'']]))) ''log'' =
     Inr (intact_report [''a'', ''b''])"
proof -
  have "fst (append_record good_io ''log'' ''b'' [''log'' \<mapsto> log_bytes [''a'']]) = Ok"
    by (simp add: append_record_def good_io_def length_encode_record kMaxRecordBytes_def)
  then show ?thesis
    using record_append_crash_safe [of "[''a'']" "''b''" "[''log'' \<mapsto> log_bytes [''a'']]" "''log''" good_io] small_logs_fit(1)
    by (cases "append_record good_io ''log'' ''b'' [''log'' \<mapsto> log_bytes [''a'']]") (simp add: log_holds_def)
qed

theorem append_after_torn_tail_lost_witness:
  "read_records (last (snd (append_record good_io ''log'' ''b'' [''log'' \<mapsto> log_bytes [''a''] @ take 1 (encode_record ''b'')]))) ''log'' =
     Inr (damaged_report (intact_report [''a'']) 26)"
proof -
  let ?a = "append_record good_io ''log'' ''b'' [''log'' \<mapsto> log_bytes [''a''] @ take 1 (encode_record ''b'')]"
  have "fst ?a = Ok" by (simp add: append_record_def good_io_def length_encode_record kMaxRecordBytes_def Let_def)
  then have "?a = (Ok, snd ?a)" by (metis prod.collapse)
  from append_after_torn_tail_lost [OF _ _ _ this, of "[''a'']" "''b''"] small_logs_fit(1) show ?thesis
    by (simp add: log_fits_def log_bytes_def length_encode_record kMaxLogRecords_def kMaxIntegrityPayloadBytes_def
        kIntegrityHeaderBytes_def)
qed

theorem damaged_record_ends_log_witness:
  "read_records [''log'' \<mapsto> record_head ''xyz'' @ ''xYz''] ''log'' = Inr (damaged_report (intact_report []) 27)"
  using damaged_record_ends_log [of "[]" "''x''" "''y''" "''z''" "''Y''" "record_head ''xyz'' @ ''xYz''" "[]"
      "[''log'' \<mapsto> record_head ''xyz'' @ ''xYz'']" "''log''"] small_logs_fit(2)
  by (simp add: kMaxIntegrityPayloadBytes_def)

theorem integrity_write_crash_safe_witness:
  "\<exists>info. read_integrity_file (last (snd (write_integrity_file good_io 7 ''state'' ''new'' True
      [''state'' \<mapsto> encode_integrity_file ''old'' digest_zero]))) ''state'' = Inr (info, ''new'')"
proof -
  let ?fs = "[''state'' \<mapsto> encode_integrity_file ''old'' digest_zero]"
  let ?w = "write_integrity_file good_io 7 ''state'' ''new'' True ?fs"
  have wf: "digest_wf digest_zero" by (simp add: digest_wf_def digest_zero_def)
  have l: "length (encode_integrity_file p d) = 128 + length p" if "digest_wf d" for p d
    using that by (simp add: encode_integrity_layout digest_wf_def)
  have r: "read_integrity_file ?fs ''state'' = Inr (info_of ''old'' digest_zero, ''old'')"
    by (rule read_installed [OF wf]) (simp_all add: kMaxIntegrityPayloadBytes_def)
  then have "fst ?w = Ok"
    using l [OF wf, of "''old''"] l [OF digest_wf_text_digest, of "''new''" "''old''"]
    by (simp add: write_integrity_file_def path_exists_def install_bytes_def good_io_def Let_def info_of_def
        kMaxIntegrityPayloadBytes_def)
  moreover have "read_integrity_file_with_recovery ?fs ''state'' True =
      Inr \<lparr>ro_payload = ''old'', ro_info = info_of ''old'' digest_zero, ro_from_backup = False\<rparr>"
    by (simp add: read_integrity_file_with_recovery_def r)
  ultimately show ?thesis
    using integrity_write_crash_safe [of ?fs "''state''" _ good_io 7 "''new''" True] by (cases ?w) auto
qed

end
