(* ===== verification/Epoch_Log.thy ===== *)
theory Epoch_Log
  imports Durable_Store Json_Parse Record_Fields
begin

text \<open>
  The durable epoch journal: \<^verbatim>\<open>include/fabric/evolution/epoch_log.hpp\<close> and \<^verbatim>\<open>src/epoch_log.cpp\<close>.
  The event codec, appending, replaying and compacting over the record log of \<open>Durable_Store\<close>. A
  journal operation answers its status, the journal object and the file systems it goes through, so
  that what a replay finds after a crash at any point can be stated. Diagnostics are not modelled.
\<close>

datatype EpochEventKind =
    ShardEstablished | LeaseGranted | LeaseRenewed | FenceRequested | FenceAcknowledged | LeaseRevoked
  | EpochAdvanced | HandoffPhaseEvent | CampaignTransition | MigrationApplied | Reconciliation | Refusal

fun epoch_event_kind_name :: "EpochEventKind \<Rightarrow> string" where
  "epoch_event_kind_name ShardEstablished = ''shard_established''"
| "epoch_event_kind_name LeaseGranted = ''lease_granted''"
| "epoch_event_kind_name LeaseRenewed = ''lease_renewed''"
| "epoch_event_kind_name FenceRequested = ''fence_requested''"
| "epoch_event_kind_name FenceAcknowledged = ''fence_acknowledged''"
| "epoch_event_kind_name LeaseRevoked = ''lease_revoked''"
| "epoch_event_kind_name EpochAdvanced = ''epoch_advanced''"
| "epoch_event_kind_name HandoffPhaseEvent = ''handoff_phase''"
| "epoch_event_kind_name CampaignTransition = ''campaign_transition''"
| "epoch_event_kind_name MigrationApplied = ''migration_applied''"
| "epoch_event_kind_name Reconciliation = ''reconciliation''"
| "epoch_event_kind_name Refusal = ''refusal''"

text \<open>The kinds in the order of their numbers.\<close>

definition epoch_event_kinds :: "EpochEventKind list" where
  "epoch_event_kinds =
     [ShardEstablished, LeaseGranted, LeaseRenewed, FenceRequested, FenceAcknowledged, LeaseRevoked,
      EpochAdvanced, HandoffPhaseEvent, CampaignTransition, MigrationApplied, Reconciliation, Refusal]"

definition epoch_event_kind_from :: "string \<Rightarrow> EpochEventKind option" where
  "epoch_event_kind_from text = List.find (\<lambda>k. epoch_event_kind_name k = text) epoch_event_kinds"

record EpochEvent =
  ee_kind :: EpochEventKind
  ee_shard :: ShardId
  ee_epoch :: EpochNumber
  ee_generation :: Generation
  ee_at_ms :: TimestampMs
  ee_payload :: json

definition epoch_event_to_json :: "EpochEvent \<Rightarrow> json" where
  "epoch_event_to_json e =
     json_set (json_set (json_set (json_set (json_set (json_set (JObject [])
       ''kind'' (JString (epoch_event_kind_name (ee_kind e))))
       ''shard'' (JString (ee_shard e)))
       ''epoch'' (JUInt (ee_epoch e)))
       ''generation'' (JUInt (ee_generation e)))
       ''at_ms'' (JUInt (ee_at_ms e)))
       ''payload'' (ee_payload e)"

definition epoch_event_from_json :: "json \<Rightarrow> EpochEvent Result" where
  "epoch_event_from_json j =
     rbind (guard (is_object j) Malformed) (\<lambda>_.
     rbind (require (json_string j ''kind'') Malformed) (\<lambda>t.
     rbind (require (epoch_event_kind_from t) Malformed) (\<lambda>k.
     rbind (case json_string j ''shard'' of None \<Rightarrow> Inr [] | Some s \<Rightarrow> require (name_parse s) Malformed) (\<lambda>sh.
     rbind (case json_find j ''payload'' of
              None \<Rightarrow> Inr (JObject [])
            | Some p \<Rightarrow> if is_object p then Inr p else Inl Malformed) (\<lambda>p.
     Inr \<lparr>ee_kind = k, ee_shard = sh, ee_epoch = json_u64_or j ''epoch'' 0,
       ee_generation = json_u64_or j ''generation'' 0, ee_at_ms = json_u64_or j ''at_ms'' 0, ee_payload = p\<rparr>)))))"

definition encode_epoch_event :: "(u64 \<Rightarrow> string) \<Rightarrow> EpochEvent \<Rightarrow> string" where
  "encode_epoch_event dtoa e = dump dtoa (epoch_event_to_json e)"

record EpochLog =
  el_path :: string
  el_capacity :: nat
  el_events :: "EpochEvent list"
  el_replayed_records :: nat
  el_tail_damaged :: bool

definition epoch_log_new :: "string \<Rightarrow> nat \<Rightarrow> EpochLog" where
  "epoch_log_new path capacity =
     \<lparr>el_path = path, el_capacity = (if capacity = 0 then 1 else capacity), el_events = [],
      el_replayed_records = 0, el_tail_damaged = False\<rparr>"

definition kept_events :: "EpochLog \<Rightarrow> EpochEvent list" where
  "kept_events l =
     (let keep = (if el_capacity l div 2 = 0 then 1 else el_capacity l div 2);
          start = (if length (el_events l) > keep then length (el_events l) - keep else 0) in
      drop start (el_events l))"

definition epoch_log_compact ::
  "(u64 \<Rightarrow> string) \<Rightarrow> IoOutcome \<Rightarrow> nat \<Rightarrow> EpochLog \<Rightarrow> FileSystem \<Rightarrow> Status \<times> EpochLog \<times> FileSystem list" where
  "epoch_log_compact dtoa io pid l fs =
     (let retained = kept_events l; encoded = map (encode_epoch_event dtoa) retained in
      if list_ex (\<lambda>r. length r > kMaxRecordBytes) encoded then (BoundsExceeded, l, [fs])
      else
        case write_bytes_atomic io pid (el_path l) (concat (map encode_record encoded)) fs of
          (written, states) \<Rightarrow>
            if written \<noteq> Ok then (written, l, states) else (Ok, l\<lparr>el_events := retained\<rparr>, states))"

text \<open>The product \<^verbatim>\<open>capacity_ * 2\<close> is of type \<^verbatim>\<open>std::size_t\<close>.\<close>

definition epoch_log_append ::
  "(u64 \<Rightarrow> string) \<Rightarrow> IoOutcome \<Rightarrow> IoOutcome \<Rightarrow> nat \<Rightarrow> EpochLog \<Rightarrow> EpochEvent \<Rightarrow> FileSystem \<Rightarrow> Status \<times> EpochLog \<times> FileSystem list" where
  "epoch_log_append dtoa io io_compact pid l e fs =
     (case append_record io (el_path l) (encode_epoch_event dtoa e) fs of
        (appended, states) \<Rightarrow>
          if appended \<noteq> Ok then (appended, l, states)
          else
            let l' = l\<lparr>el_events := el_events l @ [e]\<rparr> in
            if length (el_events l') > (el_capacity l' * 2) mod 2 ^ 64
            then (case epoch_log_compact dtoa io_compact pid l' (last states) of
                    (compacted, l'', states') \<Rightarrow> (compacted, l'', states @ states'))
            else (Ok, l', states))"

text \<open>The loop over the records: the decoded events, and whether a record was not an event.\<close>

fun replay_records :: "(string \<Rightarrow> u64 option) \<Rightarrow> string list \<Rightarrow> EpochEvent list \<Rightarrow> EpochEvent list \<times> bool" where
  "replay_records strtod [] events = (events, False)"
| "replay_records strtod (r # rs) events =
     (case parse_json strtod default_parse_limits r of
        None \<Rightarrow> (events, True)
      | Some j \<Rightarrow>
          (case epoch_event_from_json j of
             Inl _ \<Rightarrow> (events, True)
           | Inr e \<Rightarrow> replay_records strtod rs (events @ [e])))"

definition epoch_log_replay :: "(string \<Rightarrow> u64 option) \<Rightarrow> EpochLog \<Rightarrow> FileSystem \<Rightarrow> Status \<times> EpochLog" where
  "epoch_log_replay strtod l fs =
     (let cleared = l\<lparr>el_events := [], el_replayed_records := 0, el_tail_damaged := False\<rparr> in
      case read_records fs (el_path l) of
        Inl e \<Rightarrow> (e, cleared)
      | Inr read \<Rightarrow>
          (case replay_records strtod (lr_records read) [] of
             (events, stopped) \<Rightarrow>
               (Ok, cleared\<lparr>el_replayed_records := lr_total_records read,
                  el_tail_damaged := (lr_truncated read \<or> lr_damaged read \<or> stopped),
                  el_events := trim_front (el_capacity l) events\<rparr>)))"

section \<open>Codec\<close>

lemma json_canon_set: "json_canon (json_set j k v) = json_set (json_canon j) k (json_canon v)"
proof -
  have "map (map_prod id json_canon) (omap_set k v m) = omap_set k (json_canon v) (map (map_prod id json_canon) m)" for m
    by (induction m) auto
  then show ?thesis by (cases j) (auto simp: json_set_def try_object_def Let_def)
qed

lemma event_kind_round_trip: "epoch_event_kind_from (epoch_event_kind_name k) = Some k"
  by (cases k) (simp_all add: epoch_event_kind_from_def epoch_event_kinds_def)

lemma epoch_event_round_trip:
  assumes "name_is_valid_text (ee_shard e)" "is_object (ee_payload e)"
  shows "epoch_event_from_json (epoch_event_to_json e) = Inr e"
proof -
  let ?j = "epoch_event_to_json e"
  have f: "json_string ?j ''kind'' = Some (epoch_event_kind_name (ee_kind e))" "json_string ?j ''shard'' = Some (ee_shard e)"
    "json_u64_or ?j ''epoch'' 0 = ee_epoch e" "json_u64_or ?j ''generation'' 0 = ee_generation e"
    "json_u64_or ?j ''at_ms'' 0 = ee_at_ms e" "json_find ?j ''payload'' = Some (ee_payload e)" "is_object ?j"
    by (simp_all add: epoch_event_to_json_def json_field_defs codec_simps)
  show ?thesis using assms by (simp add: epoch_event_from_json_def f event_kind_round_trip name_parse_valid)
qed

interpretation epoch_event_codec:
  json_codec epoch_event_to_json epoch_event_from_json "\<lambda>e. name_is_valid_text (ee_shard e) \<and> is_object (ee_payload e)"
  by unfold_locales (simp add: epoch_event_round_trip)

text \<open>An event that the journal can read back: its payload survives printing, and its text is within the
  limits of the parser.\<close>

definition event_ok :: "(u64 \<Rightarrow> string) \<Rightarrow> (string \<Rightarrow> u64 option) \<Rightarrow> EpochEvent \<Rightarrow> bool" where
  "event_ok dtoa strtod e =
     (name_is_valid_text (ee_shard e) \<and> is_object (ee_payload e) \<and> json_canon (ee_payload e) = ee_payload e \<and>
      json_fits dtoa strtod default_parse_limits (epoch_event_to_json e) (Suc (max_depth default_parse_limits)) \<and>
      length (encode_epoch_event dtoa e) \<le> max_bytes default_parse_limits)"

lemma event_text_round_trip:
  assumes "event_ok dtoa strtod e"
  shows "parse_json strtod default_parse_limits (encode_epoch_event dtoa e) = Some (epoch_event_to_json e)"
proof -
  have "json_canon (epoch_event_to_json e) = epoch_event_to_json e"
    using assms by (simp add: epoch_event_to_json_def json_canon_set event_ok_def)
  then show ?thesis
    using parse_printed [of dtoa strtod default_parse_limits "epoch_event_to_json e" "encode_epoch_event dtoa e"] assms
    by (simp add: event_ok_def encode_epoch_event_def)
qed

lemma replay_encoded:
  "\<forall>e \<in> set evs. event_ok dtoa strtod e \<Longrightarrow> replay_records strtod (map (encode_epoch_event dtoa) evs) acc = (acc @ evs, False)"
proof (induction evs arbitrary: acc)
  case (Cons e evs)
  then have "epoch_event_from_json (epoch_event_to_json e) = Inr e" by (simp add: event_ok_def epoch_event_round_trip)
  with Cons show ?case by (simp add: event_text_round_trip)
qed simp

section \<open>Durability\<close>

definition journal_holds :: "(u64 \<Rightarrow> string) \<Rightarrow> FileSystem \<Rightarrow> string \<Rightarrow> EpochEvent list \<Rightarrow> bool" where
  "journal_holds dtoa fs path evs = log_holds fs path (map (encode_epoch_event dtoa) evs)"

definition journal_fits :: "(u64 \<Rightarrow> string) \<Rightarrow> (string \<Rightarrow> u64 option) \<Rightarrow> EpochEvent list \<Rightarrow> bool" where
  "journal_fits dtoa strtod evs = (list_all (event_ok dtoa strtod) evs \<and> log_fits (map (encode_epoch_event dtoa) evs))"

lemma log_fits_suffix: "log_fits (xs @ ys) \<Longrightarrow> log_fits ys" "log_fits (xs @ ys) \<Longrightarrow> log_fits xs"
  by (simp_all add: log_fits_def log_bytes_def)

lemma journal_fits_parts: "journal_fits dtoa strtod (xs @ ys) \<Longrightarrow> journal_fits dtoa strtod xs \<and> journal_fits dtoa strtod ys"
  by (auto simp: journal_fits_def dest: log_fits_suffix)

text \<open>A replay of a report whose records are encoded events.\<close>

lemma replay_report:
  assumes "read_records fs (el_path l) = Inr r" "lr_records r = map (encode_epoch_event dtoa) evs" "list_all (event_ok dtoa strtod) evs"
  shows "\<exists>l1. epoch_log_replay strtod l fs = (Ok, l1) \<and> el_events l1 = trim_front (el_capacity l) evs \<and>
    el_tail_damaged l1 = (lr_truncated r \<or> lr_damaged r)"
  using assms replay_encoded [of evs dtoa strtod "[]"]
  by (simp add: epoch_log_replay_def Let_def list_all_iff)

lemma replay_held:
  assumes "journal_fits dtoa strtod evs" "journal_holds dtoa fs (el_path l) evs"
  shows "\<exists>l1. epoch_log_replay strtod l fs = (Ok, l1) \<and> el_events l1 = trim_front (el_capacity l) evs \<and> \<not> el_tail_damaged l1"
proof -
  have "read_records fs (el_path l) = Inr (intact_report (map (encode_epoch_event dtoa) evs))"
    using assms by (intro read_held_log) (simp_all add: journal_fits_def journal_holds_def)
  from replay_report [OF this, of dtoa evs strtod] assms(1) show ?thesis
    by (simp add: intact_report_def report_empty_def journal_fits_def)
qed

lemma kept_events_suffix:
  "\<exists>pre. el_events l = pre @ kept_events l" "el_events l \<noteq> [] \<Longrightarrow> kept_events l \<noteq> [] \<and> last (kept_events l) = last (el_events l)"
proof -
  let ?k = "if el_capacity l div 2 = 0 then 1 else el_capacity l div 2"
  let ?s = "if length (el_events l) > ?k then length (el_events l) - ?k else 0"
  have k: "kept_events l = drop ?s (el_events l)" by (simp add: kept_events_def Let_def)
  show "\<exists>pre. el_events l = pre @ kept_events l" unfolding k by (metis append_take_drop_id)
  assume "el_events l \<noteq> []"
  then have "?s < length (el_events l)" by auto
  then show "kept_events l \<noteq> [] \<and> last (kept_events l) = last (el_events l)" unfolding k by simp
qed

lemma last_trim_front: "0 < cap \<Longrightarrow> xs \<noteq> [] \<Longrightarrow> trim_front cap xs \<noteq> [] \<and> last (trim_front cap xs) = last xs"
  by (cases xs) (auto simp: trim_front_drop last_drop)

lemma compact_states:
  assumes "epoch_log_compact dtoa io pid l fs = (st, l', states)" "journal_holds dtoa fs (el_path l) evs"
  shows "s \<in> set states \<Longrightarrow> journal_holds dtoa s (el_path l) evs \<or> journal_holds dtoa s (el_path l) (kept_events l)"
    and "st = Ok \<Longrightarrow> states \<noteq> [] \<and> l' = l\<lparr>el_events := kept_events l\<rparr> \<and> journal_holds dtoa (last states) (el_path l) (kept_events l)"
proof -
  let ?b = "concat (map encode_record (map (encode_epoch_event dtoa) (kept_events l)))"
  have b: "journal_holds dtoa (fs(t := x, el_path l \<mapsto> ?b)) (el_path l) (kept_events l)" for t x
    by (simp add: journal_holds_def log_holds_def log_bytes_def)
  have old: "journal_holds dtoa (fs(temporary_path pid (el_path l) := x)) (el_path l) evs" for x
    using assms(2) by (simp add: journal_holds_def log_holds_def)
  consider "st = BoundsExceeded" "states = [fs]"
    | w where "install_bytes io pid (el_path l) ?b fs = (w, states)" "if w = Ok then st = Ok \<and> l' = l\<lparr>el_events := kept_events l\<rparr> else st = w"
    using assms(1) unfolding epoch_log_compact_def Let_def write_bytes_atomic_def by (auto split: if_splits prod.splits)
  then have "(s \<in> set states \<longrightarrow> journal_holds dtoa s (el_path l) evs \<or> journal_holds dtoa s (el_path l) (kept_events l)) \<and>
    (st = Ok \<longrightarrow> states \<noteq> [] \<and> l' = l\<lparr>el_events := kept_events l\<rparr> \<and> journal_holds dtoa (last states) (el_path l) (kept_events l))"
  proof cases
    case 1
    then show ?thesis using assms(2) by auto
  next
    case (2 w)
    then show ?thesis
      using install_bytes_states [OF 2(1), of s] install_bytes_last(1,2) [OF 2(1)] b old by (auto split: if_splits)
  qed
  then show "s \<in> set states \<Longrightarrow> journal_holds dtoa s (el_path l) evs \<or> journal_holds dtoa s (el_path l) (kept_events l)"
    "st = Ok \<Longrightarrow> states \<noteq> [] \<and> l' = l\<lparr>el_events := kept_events l\<rparr> \<and> journal_holds dtoa (last states) (el_path l) (kept_events l)"
    by blast+
qed

lemma append_record_last: "append_record io path p fs = (st, states) \<Longrightarrow> states \<noteq> []"
  unfolding append_record_def Let_def by (auto split: if_splits)

text \<open>The states of an append proper, before any compaction.\<close>

lemma append_replays:
  assumes "journal_fits dtoa strtod (evs @ [e])" "journal_holds dtoa fs (el_path l) evs"
    and "append_record io (el_path l) (encode_epoch_event dtoa e) fs = (st, states)" "s \<in> set states"
  shows "\<exists>l1. epoch_log_replay strtod l s = (Ok, l1) \<and> el_events l1 \<in> trim_front (el_capacity l) ` {evs, evs @ [e]}"
proof -
  let ?enc = "map (encode_epoch_event dtoa)"
  have fits: "log_fits (?enc evs @ [encode_epoch_event dtoa e])" using assms(1) by (simp add: journal_fits_def)
  obtain r where r: "read_records s (el_path l) = Inr r" "lr_records r \<in> {?enc evs, ?enc evs @ [encode_epoch_event dtoa e]}"
    using append_crash_reads [OF fits _ assms(3)] assms(2,4) unfolding journal_holds_def by blast
  then have "lr_records r = ?enc evs \<or> lr_records r = ?enc (evs @ [e])" by simp
  then obtain evs' where "evs' \<in> {evs, evs @ [e]}" "lr_records r = ?enc evs'" by blast
  moreover from this have "list_all (event_ok dtoa strtod) evs'" using assms(1) by (auto simp: journal_fits_def)
  ultimately show ?thesis using replay_report [OF r(1)] by fastforce
qed

lemma append_Ok_holds:
  assumes "append_record io path (encode_epoch_event dtoa e) fs = (Ok, states)" "journal_holds dtoa fs path evs"
  shows "journal_holds dtoa (last states) path (evs @ [e])"
  using append_record_Ok [OF assms(1)] log_holds_old [of fs path "map (encode_epoch_event dtoa) evs"] assms(2)
  by (simp add: journal_holds_def) (simp add: log_holds_def log_bytes_def)

lemma journal_append_states:
  assumes "epoch_log_append dtoa io io_compact pid l e fs = (st, l', states)" "journal_holds dtoa fs (el_path l) evs"
  defines "l2 \<equiv> l\<lparr>el_events := el_events l @ [e]\<rparr>"
  shows "(\<forall>s \<in> set states. (\<exists>a sa. append_record io (el_path l) (encode_epoch_event dtoa e) fs = (a, sa) \<and> s \<in> set sa) \<or>
       journal_holds dtoa s (el_path l) (evs @ [e]) \<or> journal_holds dtoa s (el_path l) (kept_events l2)) \<and>
    (st = Ok \<longrightarrow> l' = l2 \<and> journal_holds dtoa (last states) (el_path l) (evs @ [e]) \<or>
       el_events l' = kept_events l2 \<and> journal_holds dtoa (last states) (el_path l) (kept_events l2))"
proof -
  obtain a sa where a: "append_record io (el_path l) (encode_epoch_event dtoa e) fs = (a, sa)" by fastforce
  have appended: "states = sa \<Longrightarrow> \<forall>s \<in> set states. (\<exists>a sa. append_record io (el_path l) (encode_epoch_event dtoa e) fs = (a, sa) \<and> s \<in> set sa)"
    using a by blast
  show ?thesis
  proof (cases "a = Ok")
    case False
    then have "st = a" "states = sa" using assms(1) by (simp_all add: epoch_log_append_def a)
    with False appended show ?thesis by blast
  next
    case True
    then have h: "journal_holds dtoa (last sa) (el_path l) (evs @ [e])"
      using append_Ok_holds [of io "el_path l" dtoa e fs sa] a assms(2) by simp
    show ?thesis
    proof (cases "length (el_events l2) > (el_capacity l2 * 2) mod 2 ^ 64")
      case False
      then have "l' = l2" "states = sa" using assms(1) True by (simp_all add: epoch_log_append_def a l2_def)
      with h appended show ?thesis by blast
    next
      case big: True
      obtain c lc sc where c: "epoch_log_compact dtoa io_compact pid l2 (last sa) = (c, lc, sc)" by (metis prod_cases3)
      then have e: "st = c" "l' = lc" "states = sa @ sc" using assms(1) True big by (simp_all add: epoch_log_append_def a l2_def)
      have p: "el_path l2 = el_path l" by (simp add: l2_def)
      note cs = compact_states [OF c h [folded p], unfolded p]
      have "last states = last sc" "el_events l' = kept_events l2" if "st = Ok" using cs(2) that e by simp_all
      with cs e a show ?thesis by auto
    qed
  qed
qed

lemma kept_fits: "journal_fits dtoa strtod (old @ el_events l) \<Longrightarrow> journal_fits dtoa strtod (kept_events l)"
  using kept_events_suffix(1) [of l] journal_fits_parts by metis

text \<open>C25: An acknowledged journal event is durable, within the limits of the reader. Let the events in the file and
  the appended one be such that the reader accepts them (\<open>journal_fits\<close>): each has a non-empty shard and prints to a
  document within the default parser limits (4 MiB, nesting depth), and the records together stay within the
  size limits of a log file; and let the capacity be positive. Starting from a journal file that holds the events
  in memory behind any older ones, and whatever fails or wherever the process dies during an append and
  the compaction it may trigger, replaying the file succeeds and gives the most recent events of the
  journal before or after the append, or of the compacted tail. Once the append has returned success
  the file again holds the events in memory, and a replay, with no damage reported, ends with the
  appended event. Without these limits the claim fails: an append accepts events above 4 MiB, which stop the replay
  (\<open>oversized_event_stops_replay\<close>).\<close>

theorem journal_append_durable:
  assumes "journal_fits dtoa strtod (old @ el_events l @ [e])" "journal_holds dtoa fs (el_path l) (old @ el_events l)"
    and "epoch_log_append dtoa io io_compact pid l e fs = (st, l', states)" "0 < el_capacity l"
  shows "(\<forall>s \<in> set states. \<exists>l1. epoch_log_replay strtod l s = (Ok, l1) \<and>
      el_events l1 \<in> trim_front (el_capacity l) `
        {old @ el_events l, old @ el_events l @ [e], kept_events (l\<lparr>el_events := el_events l @ [e]\<rparr>)}) \<and>
    (st = Ok \<longrightarrow> (\<exists>older. journal_holds dtoa (last states) (el_path l) (older @ el_events l')) \<and>
      (\<exists>l1. epoch_log_replay strtod l (last states) = (Ok, l1) \<and> \<not> el_tail_damaged l1 \<and>
        el_events l1 \<noteq> [] \<and> last (el_events l1) = e))"
proof -
  let ?A = "old @ el_events l" and ?l = "l\<lparr>el_events := el_events l @ [e]\<rparr>"
  have fits: "journal_fits dtoa strtod (?A @ [e])" using assms(1) by simp
  have kept: "journal_fits dtoa strtod (kept_events ?l)" "kept_events ?l \<noteq> []" "last (kept_events ?l) = e"
    using kept_fits [of dtoa strtod old ?l] kept_events_suffix(2) [of ?l] assms(1) by simp_all
  have held: "\<exists>l1. epoch_log_replay strtod l s = (Ok, l1) \<and> el_events l1 = trim_front (el_capacity l) evs \<and> \<not> el_tail_damaged l1 \<and>
      el_events l1 \<noteq> [] \<and> last (el_events l1) = e"
    if "evs = ?A @ [e] \<or> evs = kept_events ?l" "journal_holds dtoa s (el_path l) evs" for s evs
    using that fits kept replay_held [of dtoa strtod evs s l] last_trim_front [OF assms(4), of evs] by auto
  note w = journal_append_states [OF assms(3,2)]
  have "\<exists>l1. epoch_log_replay strtod l s = (Ok, l1) \<and>
      el_events l1 \<in> trim_front (el_capacity l) ` {?A, ?A @ [e], kept_events ?l}" if "s \<in> set states" for s
    using bspec [OF conjunct1 [OF w] that] append_replays [OF fits assms(2)] held [of "?A @ [e]" s] held [of "kept_events ?l" s]
    by (elim disjE exE conjE) (fastforce, fastforce, fastforce)
  moreover have "(\<exists>older. journal_holds dtoa (last states) (el_path l) (older @ el_events l')) \<and>
      (\<exists>l1. epoch_log_replay strtod l (last states) = (Ok, l1) \<and> \<not> el_tail_damaged l1 \<and> el_events l1 \<noteq> [] \<and> last (el_events l1) = e)"
    if "st = Ok"
    using mp [OF conjunct2 [OF w] that]
  proof
    assume h: "l' = ?l \<and> journal_holds dtoa (last states) (el_path l) (?A @ [e])"
    then have "journal_holds dtoa (last states) (el_path l) (old @ el_events l')" by simp
    with h held [of "?A @ [e]" "last states"] show ?thesis by blast
  next
    assume h: "el_events l' = kept_events ?l \<and> journal_holds dtoa (last states) (el_path l) (kept_events ?l)"
    then have "journal_holds dtoa (last states) (el_path l) ([] @ el_events l')" by simp
    with h held [of "kept_events ?l" "last states"] show ?thesis by blast
  qed
  ultimately show ?thesis by simp
qed

definition example_event :: EpochEvent where
  "example_event = \<lparr>ee_kind = LeaseGranted, ee_shard = ''shard-1'', ee_epoch = 3, ee_generation = 2, ee_at_ms = 17,
     ee_payload = JObject []\<rparr>"

lemma example_event_json: "epoch_event_to_json example_event =
    JObject [(''at_ms'', JUInt 17), (''epoch'', JUInt 3), (''generation'', JUInt 2), (''kind'', JString ''lease_granted''),
      (''payload'', JObject []), (''shard'', JString ''shard-1'')]"
  by code_simp

lemma example_event_length: "length (encode_epoch_event (\<lambda>_. []) example_event) = 91"
  by code_simp

lemma example_journal_fits: "journal_fits (\<lambda>_. []) (\<lambda>_. None) [example_event]"
proof -
  have "name_is_valid_text (ee_shard example_event)" by code_simp
  moreover have "json_fits (\<lambda>_. []) (\<lambda>_. None) default_parse_limits (epoch_event_to_json example_event) (Suc (max_depth default_parse_limits))"
    unfolding example_event_json by (simp add: default_parse_limits_def omap_wf_def)
  ultimately have "event_ok (\<lambda>_. []) (\<lambda>_. None) example_event"
    by (simp add: event_ok_def example_event_length default_parse_limits_def) (simp add: example_event_def is_object_def)
  then show ?thesis
    by (simp add: journal_fits_def log_fits_def log_bytes_def length_encode_record example_event_length kMaxRecordBytes_def
        kMaxLogRecords_def kMaxIntegrityPayloadBytes_def kIntegrityHeaderBytes_def)
qed

theorem journal_append_durable_witness:
  "\<exists>l1. epoch_log_replay (\<lambda>_. None) (epoch_log_new ''journal'' 4)
      (last (snd (snd (epoch_log_append (\<lambda>_. []) good_io good_io 7 (epoch_log_new ''journal'' 4) example_event Map.empty)))) = (Ok, l1) \<and>
    last (el_events l1) = example_event"
proof -
  let ?a = "epoch_log_append (\<lambda>_. []) good_io good_io 7 (epoch_log_new ''journal'' 4) example_event Map.empty"
  have "fst ?a = Ok"
    by (simp add: epoch_log_append_def append_record_def length_encode_record example_event_length good_io_def kMaxRecordBytes_def
        epoch_log_new_def)
  moreover have "journal_fits (\<lambda>_. []) (\<lambda>_. None) ([] @ el_events (epoch_log_new ''journal'' 4) @ [example_event])"
    using example_journal_fits by (simp add: epoch_log_new_def)
  moreover have "journal_holds (\<lambda>_. []) Map.empty (el_path (epoch_log_new ''journal'' 4)) ([] @ el_events (epoch_log_new ''journal'' 4))"
    by (simp add: journal_holds_def log_holds_def epoch_log_new_def)
  moreover have "0 < el_capacity (epoch_log_new ''journal'' 4)" by (simp add: epoch_log_new_def)
  ultimately show ?thesis
    using journal_append_durable [of "\<lambda>_. []" "\<lambda>_. None" "[]" "epoch_log_new ''journal'' 4" example_event Map.empty good_io good_io 7]
    by (cases ?a) auto
qed

section \<open>Events that are acknowledged and not replayed\<close>

text \<open>
  The journal accepts records of up to 8 MiB and reads them back with the default limits of the
  parser, 4 MiB. An event whose text lies between the two is appended with success, and a replay stops
  in front of it: it and every later event are missing.
\<close>

lemma oversized_event_stops_replay:
  assumes "journal_fits dtoa strtod evs" "max_bytes default_parse_limits < length (encode_epoch_event dtoa e)"
    and "log_fits (map (encode_epoch_event dtoa) (evs @ e # later))" "journal_holds dtoa fs (el_path l) (evs @ e # later)"
  shows "\<exists>l1. epoch_log_replay strtod l fs = (Ok, l1) \<and> el_events l1 = trim_front (el_capacity l) evs \<and> el_tail_damaged l1"
proof -
  have "read_records fs (el_path l) = Inr (intact_report (map (encode_epoch_event dtoa) (evs @ e # later)))"
    using assms(3,4) unfolding journal_holds_def by (rule read_held_log)
  moreover have "parse_json strtod default_parse_limits (encode_epoch_event dtoa e) = None"
    using assms(2) by (simp add: parse_json_def)
  moreover have "replay_records strtod (map (encode_epoch_event dtoa) evs @ rest) acc = replay_records strtod rest (acc @ evs)" for rest acc
    using assms(1) unfolding journal_fits_def
  proof (induction evs arbitrary: acc)
    case (Cons x evs)
    then have "event_ok dtoa strtod x" by simp
    then have "epoch_event_from_json (epoch_event_to_json x) = Inr x" by (simp add: event_ok_def epoch_event_round_trip)
    with Cons \<open>event_ok dtoa strtod x\<close> show ?case by (simp add: event_text_round_trip log_fits_def log_bytes_def)
  qed simp
  ultimately show ?thesis by (simp add: epoch_log_replay_def Let_def intact_report_def report_empty_def)
qed

end
