(* ===== verification/Rpc.thy ===== *)
theory Rpc
  imports Status_Codes Json_Parse
begin

text \<open>
  The messages of the remote procedure calls: \<^verbatim>\<open>RpcRequest\<close>, \<^verbatim>\<open>RpcResponse\<close> and their JSON texts in
  \<^verbatim>\<open>include/fabric/evolution/transport.hpp\<close> and \<^verbatim>\<open>src/transport.cpp\<close>, with \<^verbatim>\<open>Status::to_json\<close> and
  \<^verbatim>\<open>Json::object(initializer_list)\<close>. A status is its code; the human-readable message and the detail
  object that go on the wire beside it are arguments of the encoder, and the decoder drops them.
  The connections that carry them are in \<open>Connection\<close>.
\<close>

definition json_object :: "(string \<times> json) list \<Rightarrow> json" where
  "json_object values = foldl (\<lambda>j (k, v). json_set j k v) (JObject []) values"

record RpcRequest =
  rq_id :: string
  rq_op :: string
  rq_body :: json

record RpcResponse =
  rs_id :: string
  rs_op :: string
  rs_status :: Status
  rs_body :: json
  rs_suppress_response :: bool

definition decode_rpc_request :: "(string \<Rightarrow> u64 option) \<Rightarrow> string \<Rightarrow> RpcRequest Result" where
  "decode_rpc_request strtod payload =
     rbind (require (parse_json strtod default_parse_limits payload) Malformed) (\<lambda>document.
     rbind (guard (is_object document) Malformed) (\<lambda>_.
     let request_id = json_string_or document ''id'' [] in
     rbind (require (json_string document ''op'') Malformed) (\<lambda>op.
     rbind (guard (op \<noteq> []) Malformed) (\<lambda>_.
     rbind (guard (length request_id \<le> 128) BoundsExceeded) (\<lambda>_.
     case json_find document ''body'' of
       None \<Rightarrow> Inr \<lparr>rq_id = request_id, rq_op = op, rq_body = JObject []\<rparr>
     | Some body \<Rightarrow>
         if is_object body then Inr \<lparr>rq_id = request_id, rq_op = op, rq_body = body\<rparr> else Inl Malformed)))))"

definition status_to_json :: "Status \<Rightarrow> string \<Rightarrow> json \<Rightarrow> json" where
  "status_to_json code message detail =
     (let out = json_set (json_set (JObject []) ''code'' (JString (error_code_name code))) ''message'' (JString message) in
      if is_null detail then out else json_set out ''detail'' detail)"

definition response_document :: "string \<Rightarrow> json \<Rightarrow> RpcResponse \<Rightarrow> json" where
  "response_document message detail response =
     json_set (json_set (json_set (json_set (JObject [])
       ''id'' (JString (rs_id response)))
       ''op'' (JString (rs_op response)))
       ''status'' (status_to_json (rs_status response) message detail))
       ''body'' (rs_body response)"

definition encode_rpc_response :: "(u64 \<Rightarrow> string) \<Rightarrow> string \<Rightarrow> json \<Rightarrow> RpcResponse \<Rightarrow> string" where
  "encode_rpc_response dtoa message detail response = dump dtoa (response_document message detail response)"

text \<open>The request document that \<^verbatim>\<open>rpc_call\<close> sends, and the decoding of the frame it receives.\<close>

definition request_document :: "RpcRequest \<Rightarrow> json" where
  "request_document request =
     json_set (json_set (json_set (JObject [])
       ''id'' (JString (rq_id request)))
       ''op'' (JString (rq_op request)))
       ''body'' (rq_body request)"

definition encode_rpc_request :: "(u64 \<Rightarrow> string) \<Rightarrow> RpcRequest \<Rightarrow> string" where
  "encode_rpc_request dtoa request = dump dtoa (request_document request)"

text \<open>The codes in the order of their numbers, as the loop over the enumeration visits them.\<close>

definition error_codes :: "ErrorCode list" where
  "error_codes =
     [Ok, InvalidArgument, Malformed, BoundsExceeded, NotFound, AlreadyExists, Conflict, StaleEpoch, StaleGeneration,
      StaleIncarnation, StaleAuthority, NotAuthoritative, AuthorityConflict, CompatibilityInsufficient,
      IrreversibleBoundary, UnsupportedProtocol, FeatureNotNegotiated, MigrationFailure, IntegrityFailure, IoFailure,
      Cancelled, ShuttingDown, DeadlineExceeded, ProtocolViolation, DuplicateFrame, NotReady, IllegalTransition,
      ResourceExhausted, Unsupported, Internal]"

definition error_code_from_name :: "string \<Rightarrow> ErrorCode option" where
  "error_code_from_name text = List.find (\<lambda>c. error_code_name c = text) error_codes"

definition decode_rpc_response :: "(string \<Rightarrow> u64 option) \<Rightarrow> string \<Rightarrow> RpcResponse Result" where
  "decode_rpc_response strtod payload =
     rbind (require (parse_json strtod default_parse_limits payload) Malformed) (\<lambda>document.
     rbind (guard (is_object document) Malformed) (\<lambda>_.
     rbind (require (json_find document ''status'') Malformed) (\<lambda>status.
     rbind (guard (is_object status) Malformed) (\<lambda>_.
     rbind (require (json_string status ''code'') Malformed) (\<lambda>code_text.
     rbind (require (error_code_from_name code_text) Malformed) (\<lambda>code.
     Inr \<lparr>rs_id = json_string_or document ''id'' [], rs_op = json_string_or document ''op'' [], rs_status = code,
          rs_body = (case json_find document ''body'' of None \<Rightarrow> JObject [] | Some body \<Rightarrow> body),
          rs_suppress_response = False\<rparr>))))))"

section \<open>Round trips\<close>

lemma error_code_name_round_trip: "error_code_from_name (error_code_name c) = Some c"
  by (cases c) (simp_all add: error_code_from_name_def error_codes_def)

text \<open>A message that the parser reads back as it was printed: within the limits of the parser, and without
  the numbers that change their form in print.\<close>

definition prints_back :: "(u64 \<Rightarrow> string) \<Rightarrow> (string \<Rightarrow> u64 option) \<Rightarrow> json \<Rightarrow> bool" where
  "prints_back dtoa strtod j =
     (json_fits dtoa strtod default_parse_limits j (Suc (max_depth default_parse_limits)) \<and>
      length (dump dtoa j) \<le> max_bytes default_parse_limits \<and> json_canon j = j)"

lemma parse_prints_back: "prints_back dtoa strtod j \<Longrightarrow> parse_json strtod default_parse_limits (dump dtoa j) = Some j"
  using parse_printed [of dtoa strtod default_parse_limits j "dump dtoa j"] by (simp add: prints_back_def)

text \<open>A request reaches the server as the client built it, and a response reaches the client with the
  status code and the body the handler gave: decoding inverts encoding on both sides, for every message that
  fits the limits of the parser.\<close>

theorem rpc_round_trip:
  assumes "prints_back dtoa strtod (request_document req)" "rq_op req \<noteq> []" "length (rq_id req) \<le> 128" "is_object (rq_body req)"
    and "prints_back dtoa strtod (response_document message detail resp)"
  shows "decode_rpc_request strtod (encode_rpc_request dtoa req) = Inr req \<and>
    decode_rpc_response strtod (encode_rpc_response dtoa message detail resp) = Inr (resp\<lparr>rs_suppress_response := False\<rparr>)"
proof
  let ?q = "request_document req" and ?r = "response_document message detail resp"
  have q: "is_object ?q" "json_string_or ?q ''id'' [] = rq_id req" "json_string ?q ''op'' = Some (rq_op req)"
    "json_find ?q ''body'' = Some (rq_body req)"
    by (simp_all add: request_document_def json_field_defs codec_simps)
  show "decode_rpc_request strtod (encode_rpc_request dtoa req) = Inr req"
    using assms(2-4) by (simp add: decode_rpc_request_def encode_rpc_request_def parse_prints_back [OF assms(1)] q Let_def)
  have c: "is_object (status_to_json (rs_status resp) message detail)"
    "json_string (status_to_json (rs_status resp) message detail) ''code'' = Some (error_code_name (rs_status resp))"
    by (simp_all add: status_to_json_def Let_def json_field_defs codec_simps)
  have r: "is_object ?r" "json_string_or ?r ''id'' [] = rs_id resp" "json_string_or ?r ''op'' [] = rs_op resp"
    "json_find ?r ''body'' = Some (rs_body resp)" "json_find ?r ''status'' = Some (status_to_json (rs_status resp) message detail)"
    by (simp_all add: response_document_def json_field_defs codec_simps)
  show "decode_rpc_response strtod (encode_rpc_response dtoa message detail resp) = Inr (resp\<lparr>rs_suppress_response := False\<rparr>)"
    by (simp add: decode_rpc_response_def encode_rpc_response_def parse_prints_back [OF assms(5)] r c error_code_name_round_trip)
qed

end
