(* ===== verification/Disk.thy ===== *)
theory Disk
  imports Durable_Store
begin

text \<open>
  The storage of one process: the file system of \<open>Durable_Store\<close> with how the operating system answers
  the successive file operations of the process, the process identifier that names temporary files, and
  the file systems gone through so far. The node and the controller carry one such disk, so that what a
  crash at any moment leaves behind can be stated of a whole request.
\<close>

record Disk =
  dk_fs :: FileSystem
  dk_io :: "nat \<Rightarrow> IoOutcome"        \<comment> \<open>the outcome of the \<open>n\<close>-th file operation\<close>
  dk_calls :: nat
  dk_pid :: nat
  dk_trace :: "FileSystem list"

definition disk_call :: "(IoOutcome \<Rightarrow> FileSystem \<Rightarrow> Status \<times> FileSystem list) \<Rightarrow> Disk \<Rightarrow> Status \<times> Disk" where
  "disk_call f d =
     (case f (dk_io d (dk_calls d)) (dk_fs d) of
        (status, states) \<Rightarrow>
          (status, d\<lparr>dk_fs := last states, dk_calls := Suc (dk_calls d), dk_trace := dk_trace d @ states\<rparr>))"

definition disk_write_integrity :: "string \<Rightarrow> string \<Rightarrow> bool \<Rightarrow> Disk \<Rightarrow> Status \<times> Disk" where
  "disk_write_integrity path payload keep_backup d =
     disk_call (\<lambda>io. write_integrity_file io (dk_pid d) path payload keep_backup) d"

definition disk_write_atomic :: "string \<Rightarrow> string \<Rightarrow> Disk \<Rightarrow> Status \<times> Disk" where
  "disk_write_atomic path bytes d = disk_call (\<lambda>io. write_bytes_atomic io (dk_pid d) path bytes) d"

definition disk_append :: "string \<Rightarrow> string \<Rightarrow> Disk \<Rightarrow> Status \<times> Disk" where
  "disk_append path payload d = disk_call (\<lambda>io. append_record io path payload) d"

section \<open>A disk that answers\<close>

definition reliable :: "Disk \<Rightarrow> bool" where
  "reliable d =
     (\<forall>k. io_open (dk_io d k) \<and> io_flush (dk_io d k) \<and> io_rename (dk_io d k) \<and>
        io_written (dk_io d k) \<ge> kMaxIntegrityPayloadBytes + kIntegrityHeaderBytes \<and>
        io_copied (dk_io d k) \<ge> kMaxIntegrityPayloadBytes + kIntegrityHeaderBytes)"

lemma disk_call_frame: "disk_call f d = (st, d') \<Longrightarrow> reliable d' = reliable d \<and> dk_pid d' = dk_pid d \<and> dk_io d' = dk_io d"
  by (auto simp: disk_call_def reliable_def split: prod.splits)

lemmas disk_defs = disk_write_integrity_def disk_write_atomic_def disk_append_def

lemma disk_frame:
  "disk_write_integrity path payload keep d = (st, d') \<Longrightarrow> reliable d' = reliable d"
  "disk_write_atomic path bytes d = (st, d') \<Longrightarrow> reliable d' = reliable d"
  "disk_append path payload d = (st, d') \<Longrightarrow> reliable d' = reliable d"
  unfolding disk_defs by (auto dest: disk_call_frame)

lemma reliable_install:
  assumes "reliable d" "length bytes \<le> kMaxIntegrityPayloadBytes + kIntegrityHeaderBytes"
  shows "fst (install_bytes (dk_io d k) pid path bytes fs) = Ok"
  using assms unfolding reliable_def install_bytes_def Let_def
  by (auto simp: not_less dest!: spec [of _ k])

lemma reliable_write_atomic:
  assumes "reliable d" "length bytes \<le> kMaxIntegrityPayloadBytes + kIntegrityHeaderBytes"
  shows "fst (disk_write_atomic path bytes d) = Ok"
  using reliable_install [OF assms]
  by (auto simp: disk_defs disk_call_def write_bytes_atomic_def split: prod.splits) (metis fst_conv)

lemma reliable_append:
  assumes "reliable d" "length payload \<le> kMaxRecordBytes"
  shows "fst (disk_append path payload d) = Ok"
proof -
  have "24 + length payload \<le> kMaxIntegrityPayloadBytes + kIntegrityHeaderBytes"
    using assms(2) by (simp add: kMaxRecordBytes_def kMaxIntegrityPayloadBytes_def kIntegrityHeaderBytes_def)
  moreover have "kMaxIntegrityPayloadBytes + kIntegrityHeaderBytes \<le> io_written (dk_io d (dk_calls d))" "io_open (dk_io d (dk_calls d))"
    "io_flush (dk_io d (dk_calls d))" using assms(1) by (auto simp: reliable_def)
  ultimately have "fst (append_record (dk_io d (dk_calls d)) path payload (dk_fs d)) = Ok"
    using assms(2) by (simp add: append_record_def length_encode_record Let_def)
  then show ?thesis by (auto simp: disk_defs disk_call_def split: prod.splits)
qed

lemma reliable_write_integrity:
  assumes "reliable d" "length payload \<le> kMaxIntegrityPayloadBytes"
  shows "fst (disk_write_integrity path payload keep d) = Ok"
proof -
  let ?io = "dk_io d (dk_calls d)" and ?fs = "dk_fs d"
  obtain st states where w: "write_integrity_file ?io (dk_pid d) path payload keep ?fs = (st, states)" by fastforce
  let ?new = "encode_integrity_file payload (previous_digest ?fs path)"
  have len: "length ?new \<le> kMaxIntegrityPayloadBytes + kIntegrityHeaderBytes"
    using assms(2) digest_wf_previous [of ?fs path] by (simp add: encode_integrity_layout digest_wf_def kIntegrityHeaderBytes_def)
  have inst: "fst (install_bytes ?io (dk_pid d) path ?new fs) = Ok" for fs by (rule reliable_install [OF assms(1) len])
  have "st = Ok"
  proof (cases "read_integrity_file ?fs path")
    case (Inl e)
    with w assms(2) inst [of ?fs] show ?thesis by (auto simp: write_integrity_file_def previous_digest_def split: if_splits)
  next
    case (Inr x)
    obtain info p where x: "x = (info, p)" by (cases x)
    from Inr obtain old where old: "?fs path = Some old" "length old \<le> kMaxIntegrityPayloadBytes + kIntegrityHeaderBytes"
      by (auto simp: read_integrity_file_def read_binary_file_def split: option.splits if_splits)
    have "\<not> io_copied ?io < length old" using assms(1) old(2) by (auto simp: reliable_def not_less intro: le_trans)
    with w assms(2) Inr x old(1) inst show ?thesis
      by (auto simp: write_integrity_file_def previous_digest_def path_exists_def Let_def split: if_splits prod.splits) (metis fst_conv)+
  qed
  with w show ?thesis by (simp add: disk_defs disk_call_def)
qed

section \<open>What a sequence of operations goes through\<close>

definition extends :: "Disk \<Rightarrow> Disk \<Rightarrow> FileSystem list \<Rightarrow> bool" where
  "extends d d' states = (dk_trace d' = dk_trace d @ states \<and> dk_fs d' = last (dk_fs d # states))"

lemma extends_trans: "extends a b xs \<Longrightarrow> extends b c ys \<Longrightarrow> extends a c (xs @ ys)"
  by (auto simp: extends_def)

definition away :: "string set \<Rightarrow> Disk \<Rightarrow> Disk \<Rightarrow> bool" where
  "away P d d' = (\<exists>states. extends d d' states \<and> (\<forall>s \<in> set states. \<forall>p \<in> P. s p = dk_fs d p))"

lemma away_fs: "away P d d' \<Longrightarrow> p \<in> P \<Longrightarrow> dk_fs d' p = dk_fs d p"
  by (auto simp: away_def extends_def)

lemma away_trans: "away P a b \<Longrightarrow> away P b c \<Longrightarrow> away P a c"
proof -
  assume ab: "away P a b" and bc: "away P b c"
  from ab obtain xs where x: "extends a b xs" "\<forall>s \<in> set xs. \<forall>p \<in> P. s p = dk_fs a p" by (auto simp: away_def)
  from bc obtain ys where y: "extends b c ys" "\<forall>s \<in> set ys. \<forall>p \<in> P. s p = dk_fs b p" by (auto simp: away_def)
  have "\<forall>s \<in> set (xs @ ys). \<forall>p \<in> P. s p = dk_fs a p" using x(2) y(2) away_fs [OF ab] by auto
  with extends_trans [OF x(1) y(1)] show ?thesis unfolding away_def by blast
qed

lemma disk_call_extends:
  assumes "disk_call f d = (st, d')" "\<And>io fs. snd (f io fs) \<noteq> []"
  shows "\<exists>io states. f io (dk_fs d) = (st, states) \<and> states \<noteq> [] \<and> extends d d' states"
proof -
  obtain st' states where f: "f (dk_io d (dk_calls d)) (dk_fs d) = (st', states)" by fastforce
  with assms(2) have "states \<noteq> []" by (metis snd_conv)
  moreover have "st' = st" "extends d d' states" using assms(1) f \<open>states \<noteq> []\<close> by (auto simp: disk_call_def extends_def)
  ultimately show ?thesis using f by blast
qed

lemma writes_go_somewhere:
  "snd (install_bytes io pid path bytes fs) \<noteq> []" "snd (append_record io path payload fs) \<noteq> []"
  "snd (write_integrity_file io pid path payload keep fs) \<noteq> []"
proof -
  show i: "snd (install_bytes io pid path bytes fs) \<noteq> []" for bytes fs
    using install_bytes_last(1) by (metis prod.collapse)
  show "snd (append_record io path payload fs) \<noteq> []" by (simp add: append_record_def Let_def)
  show "snd (write_integrity_file io pid path payload keep fs) \<noteq> []"
    by (auto simp: write_integrity_file_def Let_def i split: prod.splits sum.splits)
qed

lemma append_away:
  assumes "disk_append path payload d = (st, d')" "path \<notin> P"
  shows "away P d d'"
proof -
  obtain io states where a: "append_record io path payload (dk_fs d) = (st, states)" "extends d d' states"
    using disk_call_extends [OF assms(1) [unfolded disk_append_def]] writes_go_somewhere(2) by blast
  have "s p = dk_fs d p" if "s \<in> set states" "p \<in> P" for s p
    using a(1) that assms(2) unfolding append_record_def Let_def
    by (auto split: if_splits dest!: write_states_prefix)
  with a(2) show ?thesis by (auto simp: away_def)
qed

lemma write_atomic_away:
  assumes "disk_write_atomic path bytes d = (st, d')" "path \<notin> P" "temporary_path (dk_pid d) path \<notin> P"
  shows "away P d d'"
proof -
  obtain io states where a: "install_bytes io (dk_pid d) path bytes (dk_fs d) = (st, states)" "extends d d' states"
    using disk_call_extends [OF assms(1) [unfolded disk_write_atomic_def write_bytes_atomic_def]] writes_go_somewhere(1) by blast
  have "s p = dk_fs d p" if "s \<in> set states" "p \<in> P" for s p
    using install_bytes_states [OF a(1) that(1)] assms(2,3) that(2) by auto
  with a(2) show ?thesis by (auto simp: away_def)
qed

lemma write_integrity_extends:
  assumes "disk_write_integrity path payload keep d = (st, d')"
  shows "\<exists>io states. write_integrity_file io (dk_pid d) path payload keep (dk_fs d) = (st, states) \<and> states \<noteq> [] \<and> extends d d' states"
  using disk_call_extends [OF assms [unfolded disk_write_integrity_def]] writes_go_somewhere(3) by blast

text \<open>After a successful replacement the file reads back.\<close>

lemma write_integrity_installs:
  assumes "disk_write_integrity path payload keep d = (Ok, d')" "length payload \<le> kMaxIntegrityPayloadBytes"
  shows "path_exists (dk_fs d') path \<and> (\<exists>info. read_integrity_file (dk_fs d') path = Inr (info, payload))"
proof -
  from write_integrity_extends [OF assms(1)] obtain io states where
    i: "write_integrity_file io (dk_pid d) path payload keep (dk_fs d) = (Ok, states)" "states \<noteq> []" "extends d d' states" by blast
  then have fs: "dk_fs d' path = Some (encode_integrity_file payload (previous_digest (dk_fs d) path))"
    using write_integrity_states(2) [OF i(1) assms(2)] by (simp add: extends_def)
  then have "read_integrity_file (dk_fs d') path = Inr (info_of payload (previous_digest (dk_fs d) path), payload)"
    using assms(2) digest_wf_previous by (intro read_installed)
  with fs show ?thesis by (simp add: path_exists_def)
qed

end
