(* ===== verification/Node.thy ===== *)
theory Node
  imports Rpc Disk Manifest Migration_Journal Authority_Store
begin

text \<open>
  The replicated control-plane node, its data and its durable state:
  \<^verbatim>\<open>include/fabric/evolution/node.hpp\<close> and \<^verbatim>\<open>src/node.cpp\<close>. The object is the record
  \<open>ControlPlaneNode\<close>; the disk it works on is one of its fields, so that a restart is a fresh object on
  the disk of the old one. A method answers its status and the object. The clock is the function from the
  number of a reading within one request to its value; the two words of the random generator that a boot draws are an argument of
  \<open>node_open\<close>, as are the answers of the operating system to the creation of the directory and to the
  lock on it. The options of the socket server are not modelled. The requests are in \<open>Node_Ops\<close>.
\<close>

section \<open>Data\<close>

datatype NodeLifecycle =
    NodeUnopened | NodeRecovering | NodeServing | NodeFenced | NodeRetired | NodeStopped

fun lifecycle_name :: "NodeLifecycle \<Rightarrow> string" where
  "lifecycle_name NodeUnopened = ''unopened''"
| "lifecycle_name NodeRecovering = ''recovering''"
| "lifecycle_name NodeServing = ''serving''"
| "lifecycle_name NodeFenced = ''fenced''"
| "lifecycle_name NodeRetired = ''retired''"
| "lifecycle_name NodeStopped = ''stopped''"

record NodeReport =
  nr_component :: ComponentId
  nr_incarnation :: IncarnationId
  nr_shard :: ShardId
  nr_software :: SoftwareVersion
  nr_protocol :: ProtocolVersion
  nr_schema :: SchemaVersion
  nr_features :: FeatureSet
  nr_epoch :: EpochNumber
  nr_generation :: Generation
  nr_lsn :: LogSequenceNumber
  nr_mode :: AuthorityMode
  nr_token :: AuthorityToken
  nr_lease_expires_at_ms :: TimestampMs
  nr_has_authority :: bool
  nr_lease_confirmed :: bool
  nr_lifecycle :: NodeLifecycle
  nr_writes_applied :: u64
  nr_writes_refused :: u64
  nr_reads_served :: u64
  nr_state_digest :: Digest
  nr_recorded_snapshot_digest :: Digest
  nr_oldest_logged_lsn :: LogSequenceNumber

record SourceBinding =
  sb_source :: IncarnationId
  sb_epoch :: EpochNumber
  sb_generation :: Generation
  sb_token :: AuthorityToken
  sb_schema :: SchemaVersion
  sb_handoff :: HandoffId

definition binding_matches :: "SourceBinding \<Rightarrow> SourceBinding \<Rightarrow> bool" where
  "binding_matches b other =
     (sb_source b = sb_source other \<and> sb_epoch b = sb_epoch other \<and> sb_generation b = sb_generation other \<and>
      sb_token b = sb_token other \<and> sb_schema b = sb_schema other)"

record ReplicationRecord =
  rr_lsn :: LogSequenceNumber
  rr_key :: string
  rr_value :: string
  rr_epoch :: EpochNumber
  rr_generation :: Generation
  rr_origin :: IncarnationId
  rr_digest :: Digest

record FaultRule =
  fault_op :: string
  fault_action :: string
  fault_remaining :: u32

record NodeOptions =
  opt_component :: ComponentId
  opt_shard :: ShardId
  opt_state_directory :: string
  opt_software :: SoftwareVersion
  opt_protocol :: ProtocolVersion
  opt_schema :: SchemaVersion
  opt_features :: FeatureSet
  opt_lease_ttl_ms :: TimestampMs
  opt_max_log_records :: nat
  opt_max_records_per_response :: nat

record ControlPlaneNode =
  nd_options :: NodeOptions
  nd_incarnation :: IncarnationId
  nd_boot_counter :: BootCounter
  nd_lifecycle :: NodeLifecycle
  nd_document :: StateDocument
  nd_lsn :: LogSequenceNumber
  nd_operation_id :: u64
  nd_records :: "ReplicationRecord list"
  nd_journal :: MigrationJournal
  nd_lease :: "AuthorityLease option"
  nd_lease_confirmed :: bool
  nd_retired_marker :: bool
  nd_last_fence_id :: FenceId
  nd_expected_source :: "SourceBinding option"
  nd_recorded_snapshot_digest :: Digest
  nd_last_snapshot_id :: SnapshotId
  nd_last_snapshot_lsn :: LogSequenceNumber
  nd_current_handoff :: HandoffId
  nd_faults :: "FaultRule list"
  nd_writes_applied :: u64
  nd_writes_refused :: u64
  nd_reads_served :: u64
  nd_serving :: bool            \<comment> \<open>\<^verbatim>\<open>server_ != nullptr\<close>\<close>
  nd_port :: u16
  nd_disk :: Disk

definition node_new :: "NodeOptions \<Rightarrow> Disk \<Rightarrow> ControlPlaneNode" where
  "node_new options disk =
     \<lparr>nd_options = options, nd_incarnation = incarnation_none, nd_boot_counter = 0, nd_lifecycle = NodeUnopened,
      nd_document = \<lparr>doc_schema = 0, doc_fields = []\<rparr>, nd_lsn = 0, nd_operation_id = 0, nd_records = [],
      nd_journal = new_journal 1024, nd_lease = None, nd_lease_confirmed = False, nd_retired_marker = False,
      nd_last_fence_id = 0, nd_expected_source = None, nd_recorded_snapshot_digest = digest_zero,
      nd_last_snapshot_id = 0, nd_last_snapshot_lsn = 0, nd_current_handoff = 0, nd_faults = [],
      nd_writes_applied = 0, nd_writes_refused = 0, nd_reads_served = 0, nd_serving = False, nd_port = 0,
      nd_disk = disk\<rparr>"

text \<open>A file operation of the node, and \<^verbatim>\<open>if (!status.ok()) return status;\<close> after a step on the object.\<close>

definition on_disk :: "(Disk \<Rightarrow> Status \<times> Disk) \<Rightarrow> ControlPlaneNode \<Rightarrow> Status \<times> ControlPlaneNode" where
  "on_disk f n = (case f (nd_disk n) of (status, d) \<Rightarrow> (status, n\<lparr>nd_disk := d\<rparr>))"

definition and_then :: "Status \<times> 'n \<Rightarrow> ('n \<Rightarrow> Status \<times> 'n) \<Rightarrow> Status \<times> 'n" where
  "and_then r f = (case r of (status, n) \<Rightarrow> if status \<noteq> Ok then (status, n) else f n)"

section \<open>Records and bindings\<close>

text \<open>The uuid made of two words of the random generator.\<close>

definition random_uuid :: "u64 \<Rightarrow> u64 \<Rightarrow> Uuid128" where
  "random_uuid w0 w1 =
     (let bytes = bytes_le64 w0 @ bytes_le64 w1 in
      if uuid_is_nil bytes then bytes[15 := 1] else bytes)"

definition fields_to_json :: "(string, string) omap \<Rightarrow> json" where
  "fields_to_json m = foldl (\<lambda>j (k, v). json_set j k (JString v)) (JObject []) m"

definition snapshot_digest :: "(u64 \<Rightarrow> string) \<Rightarrow> StateDocument \<Rightarrow> LogSequenceNumber \<Rightarrow> Digest" where
  "snapshot_digest dtoa document lsn =
     text_digest (dump dtoa
       (json_set (json_set (json_set (JObject [])
         ''schema'' (JUInt (ucast (doc_schema document))))
         ''lsn'' (JUInt lsn))
         ''fields'' (fields_to_json (doc_fields document))))"

definition parse_handoff_id :: "json \<Rightarrow> HandoffId Result" where
  "parse_handoff_id body = require (positive (json_u64 body ''handoff'')) InvalidArgument"

definition parse_source_binding :: "json \<Rightarrow> SourceBinding Result" where
  "parse_source_binding j =
     rbind (guard (is_object j) Malformed) (\<lambda>_.
     rbind (require (json_find j ''incarnation'') Malformed) (\<lambda>incarnation.
     rbind (incarnation_from_json incarnation) (\<lambda>source.
     rbind (require (positive (json_u64 j ''epoch'')) Malformed) (\<lambda>epoch.
     rbind (require (positive (json_u64 j ''generation'')) Malformed) (\<lambda>generation.
     rbind (require (json_string j ''token'') Malformed) (\<lambda>token_text.
     rbind (require (non_nil (uuid_parse token_text)) Malformed) (\<lambda>token.
     rbind (schema_version_field j ''schema'') (\<lambda>schema.
     Inr \<lparr>sb_source = source, sb_epoch = epoch, sb_generation = generation, sb_token = token, sb_schema = schema,
          sb_handoff = json_u64_or j ''handoff'' 0\<rparr>))))))))"

definition source_binding_to_json :: "SourceBinding \<Rightarrow> json" where
  "source_binding_to_json b =
     json_set (json_set (json_set (json_set (json_set (json_set (JObject [])
       ''incarnation'' (incarnation_to_json (sb_source b)))
       ''epoch'' (JUInt (sb_epoch b)))
       ''generation'' (JUInt (sb_generation b)))
       ''token'' (JString (to_compact_string (sb_token b))))
       ''schema'' (JUInt (ucast (sb_schema b))))
       ''handoff'' (JUInt (sb_handoff b))"

definition report_to_json :: "NodeReport \<Rightarrow> json" where
  "report_to_json r =
     json_object
       [(''component'', JString (nr_component r)),
        (''incarnation'', incarnation_to_json (nr_incarnation r)),
        (''shard'', JString (nr_shard r)),
        (''software'', JString (software_version_to_string (nr_software r))),
        (''protocol'', JString (protocol_version_to_string (nr_protocol r))),
        (''schema'', JUInt (ucast (nr_schema r))),
        (''features'', feature_array (nr_features r)),
        (''epoch'', JUInt (nr_epoch r)),
        (''generation'', JUInt (nr_generation r)),
        (''lsn'', JUInt (nr_lsn r)),
        (''mode'', JString (mode_name (nr_mode r))),
        (''token'', JString (to_compact_string (nr_token r))),
        (''lease_expires_at_ms'', JUInt (nr_lease_expires_at_ms r)),
        (''has_authority'', JBool (nr_has_authority r)),
        (''lease_confirmed'', JBool (nr_lease_confirmed r)),
        (''lifecycle'', JString (lifecycle_name (nr_lifecycle r))),
        (''writes_applied'', JUInt (nr_writes_applied r)),
        (''writes_refused'', JUInt (nr_writes_refused r)),
        (''reads_served'', JUInt (nr_reads_served r)),
        (''state_digest'', JString (to_hex (nr_state_digest r))),
        (''recorded_snapshot_digest'', JString (to_hex (nr_recorded_snapshot_digest r))),
        (''oldest_logged_lsn'', JUInt (nr_oldest_logged_lsn r))]"

definition record_body :: "ReplicationRecord \<Rightarrow> json" where
  "record_body r =
     json_set (json_set (json_set (json_set (json_set (json_set (JObject [])
       ''lsn'' (JUInt (rr_lsn r)))
       ''key'' (JString (rr_key r)))
       ''value'' (JString (rr_value r)))
       ''epoch'' (JUInt (rr_epoch r)))
       ''generation'' (JUInt (rr_generation r)))
       ''origin'' (incarnation_to_json (rr_origin r))"

definition record_to_json :: "ReplicationRecord \<Rightarrow> json" where
  "record_to_json r = json_set (record_body r) ''digest'' (JString (to_hex (rr_digest r)))"

definition replication_record_digest :: "(u64 \<Rightarrow> string) \<Rightarrow> ReplicationRecord \<Rightarrow> Digest" where
  "replication_record_digest dtoa r = text_digest (dump dtoa (record_body r))"

definition record_from_json :: "(u64 \<Rightarrow> string) \<Rightarrow> json \<Rightarrow> ReplicationRecord Result" where
  "record_from_json dtoa j =
     rbind (guard (is_object j) Malformed) (\<lambda>_.
     rbind (require (positive (json_u64 j ''lsn'')) Malformed) (\<lambda>lsn.
     rbind (require (json_string j ''key'') Malformed) (\<lambda>key.
     rbind (guard (key \<noteq> [] \<and> length key \<le> kMaxStateKeyBytes) Malformed) (\<lambda>_.
     rbind (require (json_string j ''value'') Malformed) (\<lambda>val.
     rbind (guard (length val \<le> kMaxStateValueBytes) Malformed) (\<lambda>_.
     rbind (require (positive (json_u64 j ''epoch'')) Malformed) (\<lambda>epoch.
     rbind (require (positive (json_u64 j ''generation'')) Malformed) (\<lambda>generation.
     rbind (require (json_find j ''origin'') Malformed) (\<lambda>origin_json.
     rbind (incarnation_from_json origin_json) (\<lambda>origin.
     let blank = \<lparr>rr_lsn = lsn, rr_key = key, rr_value = val, rr_epoch = epoch, rr_generation = generation,
           rr_origin = origin, rr_digest = digest_zero\<rparr>;
         rec = blank\<lparr>rr_digest := replication_record_digest dtoa blank\<rparr> in
     case json_string j ''digest'' of
       None \<Rightarrow> Inr rec
     | Some recorded \<Rightarrow>
         rbind (require (digest_from_hex recorded) Malformed) (\<lambda>parsed.
         rbind (guard (parsed = rr_digest rec) IntegrityFailure) (\<lambda>_. Inr rec))))))))))))"

section \<open>Durable state\<close>

definition identity_path :: "ControlPlaneNode \<Rightarrow> string" where
  "identity_path n = opt_state_directory (nd_options n) @ ''/identity.fxi''"

definition state_path :: "ControlPlaneNode \<Rightarrow> string" where
  "state_path n = opt_state_directory (nd_options n) @ ''/state.fxi''"

definition records_path :: "ControlPlaneNode \<Rightarrow> string" where
  "records_path n = opt_state_directory (nd_options n) @ ''/records.fxr''"

definition identity_json :: "ControlPlaneNode \<Rightarrow> json" where
  "identity_json n =
     json_set (json_set (json_set (json_set (JObject [])
       ''component'' (JString (opt_component (nd_options n))))
       ''boot_counter'' (JUInt (nd_boot_counter n)))
       ''incarnation'' (incarnation_to_json (nd_incarnation n)))
       ''software'' (JString (software_version_to_string (opt_software (nd_options n))))"

definition save_identity :: "(u64 \<Rightarrow> string) \<Rightarrow> ControlPlaneNode \<Rightarrow> Status \<times> ControlPlaneNode" where
  "save_identity dtoa n = on_disk (disk_write_integrity (identity_path n) (dump dtoa (identity_json n)) False) n"

text \<open>The boot counter of this boot: the first, or the successor of the recorded one.\<close>

definition next_boot_counter :: "(string \<Rightarrow> u64 option) \<Rightarrow> ControlPlaneNode \<Rightarrow> BootCounter Result" where
  "next_boot_counter strtod n =
     (if \<not> path_exists (dk_fs (nd_disk n)) (identity_path n) then Inr 1
      else
        rbind (read_integrity_file (dk_fs (nd_disk n)) (identity_path n)) (\<lambda>(_, raw).
        rbind (require (parse_json strtod default_parse_limits raw) IntegrityFailure) (\<lambda>parsed.
        rbind (guard (json_string parsed ''component'' = Some (opt_component (nd_options n))) IntegrityFailure) (\<lambda>_.
        rbind (require (json_u64 parsed ''boot_counter'') IntegrityFailure) (\<lambda>previous.
        require (tagged_next previous) BoundsExceeded)))))"

definition load_identity ::
  "(u64 \<Rightarrow> string) \<Rightarrow> (string \<Rightarrow> u64 option) \<Rightarrow> u64 \<times> u64 \<Rightarrow> ControlPlaneNode \<Rightarrow> Status \<times> ControlPlaneNode" where
  "load_identity dtoa strtod random n =
     (case next_boot_counter strtod n of
        Inl e \<Rightarrow> (e, n)
      | Inr counter \<Rightarrow>
          save_identity dtoa
            (n\<lparr>nd_boot_counter := counter,
               nd_incarnation := \<lparr>component = opt_component (nd_options n), uuid = random_uuid (fst random) (snd random), boot = counter\<rparr>\<rparr>))"

text \<open>The loop that puts the members of a JSON object into a document; \<open>e\<close> is the refusal of a member that
  is not a string.\<close>

fun put_entries :: "ErrorCode \<Rightarrow> (string \<times> json) list \<Rightarrow> StateDocument \<Rightarrow> StateDocument Result" where
  "put_entries e [] d = Inr d"
| "put_entries e ((k, v) # es) d =
     rbind (require (try_string v) e) (\<lambda>t.
       case doc_put k t d of (d', s) \<Rightarrow> if s \<noteq> Ok then Inl s else put_entries e es d')"

text \<open>The document of a state file.\<close>

definition stored_document :: "json \<Rightarrow> StateDocument Result" where
  "stored_document document =
     rbind (require (json_find document ''fields'') IntegrityFailure) (\<lambda>fields.
     rbind (require (try_object fields) IntegrityFailure) (\<lambda>obj.
     rbind (require (positive (json_u64 document ''schema'')) IntegrityFailure) (\<lambda>schema.
     rbind (guard (schema \<le> 0xFFFFFFFF) IntegrityFailure) (\<lambda>_.
     put_entries IntegrityFailure obj \<lparr>doc_schema = ucast schema, doc_fields = []\<rparr>))))"

definition restore_node_lease :: "json \<Rightarrow> ControlPlaneNode \<Rightarrow> ControlPlaneNode" where
  "restore_node_lease document n =
     (case json_find document ''lease'' of
        None \<Rightarrow> n
      | Some lease \<Rightarrow>
          (case authority_lease_from_json lease of
             Inl _ \<Rightarrow> n
           | Inr l \<Rightarrow> n\<lparr>nd_lease := Some (l\<lparr>attested := False\<rparr>), nd_lease_confirmed := False\<rparr>))"

definition restore_snapshot_fields :: "json \<Rightarrow> ControlPlaneNode \<Rightarrow> ControlPlaneNode" where
  "restore_snapshot_fields document n =
     (let m = n\<lparr>nd_last_snapshot_lsn := json_u64_or document ''snapshot_lsn'' 0,
                nd_last_snapshot_id := json_u64_or document ''snapshot_id'' 0\<rparr> in
      case json_string document ''snapshot_digest'' of
        None \<Rightarrow> m
      | Some text \<Rightarrow>
          (case digest_from_hex text of None \<Rightarrow> m | Some digest \<Rightarrow> m\<lparr>nd_recorded_snapshot_digest := digest\<rparr>))"

definition restore_state :: "json \<Rightarrow> ControlPlaneNode \<Rightarrow> Status \<times> ControlPlaneNode" where
  "restore_state document n =
     (case stored_document document of
        Inl e \<Rightarrow> (e, n)
      | Inr restored \<Rightarrow>
          let m = n\<lparr>nd_document := restored, nd_lsn := json_u64_or document ''lsn'' 0,
                    nd_operation_id := json_u64_or document ''operation_id'' 0,
                    nd_retired_marker := json_bool_or document ''retired'' False\<rparr> in
          and_then
            (case json_find document ''migration_journal'' of
               None \<Rightarrow> (Ok, m)
             | Some journal \<Rightarrow>
                 (case journal_load journal (nd_journal m) of (j, loaded) \<Rightarrow> (loaded, m\<lparr>nd_journal := j\<rparr>)))
            (\<lambda>m. (Ok, restore_snapshot_fields document (restore_node_lease document m))))"

definition load_state :: "(string \<Rightarrow> u64 option) \<Rightarrow> ControlPlaneNode \<Rightarrow> Status \<times> ControlPlaneNode" where
  "load_state strtod n =
     (if \<not> path_exists (dk_fs (nd_disk n)) (state_path n)
      then (Ok, n\<lparr>nd_document := \<lparr>doc_schema = opt_schema (nd_options n), doc_fields = []\<rparr>, nd_lsn := 0\<rparr>)
      else
        (case read_integrity_file_with_recovery (dk_fs (nd_disk n)) (state_path n) True of
           Inl e \<Rightarrow> (e, n)
         | Inr recovered \<Rightarrow>
             (case parse_json strtod default_parse_limits (ro_payload recovered) of
                None \<Rightarrow> (IntegrityFailure, n)
              | Some document \<Rightarrow> restore_state document n)))"

definition state_json :: "ControlPlaneNode \<Rightarrow> json" where
  "state_json n =
     (let out =
        json_set (json_set (json_set (json_set (json_set (json_set (json_set (json_set (json_set (JObject [])
          ''schema'' (JUInt (ucast (doc_schema (nd_document n)))))
          ''fields'' (fields_to_json (doc_fields (nd_document n))))
          ''lsn'' (JUInt (nd_lsn n)))
          ''operation_id'' (JUInt (nd_operation_id n)))
          ''retired'' (JBool (nd_retired_marker n)))
          ''migration_journal'' (journal_to_json (nd_journal n)))
          ''snapshot_lsn'' (JUInt (nd_last_snapshot_lsn n)))
          ''snapshot_id'' (JUInt (nd_last_snapshot_id n)))
          ''snapshot_digest'' (JString (to_hex (nd_recorded_snapshot_digest n))) in
      case nd_lease n of None \<Rightarrow> out | Some l \<Rightarrow> json_set out ''lease'' (lease_to_json l))"

definition save_state :: "(u64 \<Rightarrow> string) \<Rightarrow> ControlPlaneNode \<Rightarrow> Status \<times> ControlPlaneNode" where
  "save_state dtoa n = on_disk (disk_write_integrity (state_path n) (dump dtoa (state_json n)) True) n"

section \<open>The record log\<close>

definition log_entry :: "(u64 \<Rightarrow> string) \<Rightarrow> ReplicationRecord \<Rightarrow> string" where
  "log_entry dtoa r =
     (let encoded = dump dtoa (record_to_json r);
          header = append_u32_le (append_u32_le (append_u64_le (append_u32_le ''FXR1'' 1)
            (of_nat (length encoded))) (crc32_text encoded)) 0 in
      header @ encoded)"

definition rewrite_records :: "(u64 \<Rightarrow> string) \<Rightarrow> ControlPlaneNode \<Rightarrow> Status \<times> ControlPlaneNode" where
  "rewrite_records dtoa n =
     on_disk (disk_write_atomic (records_path n) (concat (map (log_entry dtoa) (nd_records n)))) n"

text \<open>The loop over the records read: the records kept, and whether one lies beyond the committed position.\<close>

fun accept_records ::
  "(u64 \<Rightarrow> string) \<Rightarrow> (string \<Rightarrow> u64 option) \<Rightarrow> LogSequenceNumber \<Rightarrow> string list \<Rightarrow> ReplicationRecord list \<Rightarrow> bool \<Rightarrow>
     Status \<times> ReplicationRecord list \<times> bool" where
  "accept_records dtoa strtod lsn [] kept dropped = (Ok, kept, dropped)"
| "accept_records dtoa strtod lsn (t # ts) kept dropped =
     (case parse_json strtod default_parse_limits t of
        None \<Rightarrow> (IntegrityFailure, kept, dropped)
      | Some j \<Rightarrow>
          (case record_from_json dtoa j of
             Inl e \<Rightarrow> (e, kept, dropped)
           | Inr entry \<Rightarrow>
               if rr_lsn entry > lsn then accept_records dtoa strtod lsn ts kept True
               else accept_records dtoa strtod lsn ts (kept @ [entry]) dropped))"

definition load_records ::
  "(u64 \<Rightarrow> string) \<Rightarrow> (string \<Rightarrow> u64 option) \<Rightarrow> ControlPlaneNode \<Rightarrow> Status \<times> ControlPlaneNode" where
  "load_records dtoa strtod n =
     (case read_records (dk_fs (nd_disk n)) (records_path n) of
        Inl e \<Rightarrow> (e, n\<lparr>nd_records := []\<rparr>)
      | Inr report \<Rightarrow>
          (case accept_records dtoa strtod (nd_lsn n) (lr_records report) [] False of
             (status, kept, dropped_uncommitted) \<Rightarrow>
               let m = n\<lparr>nd_records := kept\<rparr> in
               if status \<noteq> Ok then (status, m)
               else if dropped_uncommitted then rewrite_records dtoa m else (Ok, m)))"

definition compact_records :: "(u64 \<Rightarrow> string) \<Rightarrow> ControlPlaneNode \<Rightarrow> Status \<times> ControlPlaneNode" where
  "compact_records dtoa n =
     (let half = opt_max_log_records (nd_options n) div 2;
          keep = (if half = 0 then 1 else half);
          start = (if length (nd_records n) > keep then length (nd_records n) - keep else 0);
          retained = drop start (nd_records n) in
      and_then (on_disk (disk_write_atomic (records_path n) (concat (map (log_entry dtoa) retained))) n)
        (\<lambda>m. (Ok, m\<lparr>nd_records := retained\<rparr>)))"

definition append_record_entry :: "(u64 \<Rightarrow> string) \<Rightarrow> ReplicationRecord \<Rightarrow> ControlPlaneNode \<Rightarrow> Status \<times> ControlPlaneNode" where
  "append_record_entry dtoa r n =
     and_then (on_disk (disk_append (records_path n) (dump dtoa (record_to_json r))) n)
       (\<lambda>n1. let n2 = n1\<lparr>nd_records := nd_records n1 @ [r]\<rparr> in
          if length (nd_records n2) > opt_max_log_records (nd_options n2) then compact_records dtoa n2 else (Ok, n2))"

definition apply_write ::
  "(u64 \<Rightarrow> string) \<Rightarrow> string \<Rightarrow> string \<Rightarrow> EpochNumber \<Rightarrow> Generation \<Rightarrow> IncarnationId \<Rightarrow> ControlPlaneNode \<Rightarrow>
     Status \<times> ControlPlaneNode" where
  "apply_write dtoa key val epoch generation origin n =
     (case tagged_next (nd_lsn n) of
        None \<Rightarrow> (BoundsExceeded, n)
      | Some next \<Rightarrow>
          (case doc_put key val (nd_document n) of
             (document, put) \<Rightarrow>
               if put \<noteq> Ok then (put, n\<lparr>nd_document := document\<rparr>)
               else
                 let n1 = n\<lparr>nd_document := document, nd_lsn := next, nd_operation_id := nd_operation_id n + 1\<rparr>;
                     blank = \<lparr>rr_lsn = next, rr_key = key, rr_value = val, rr_epoch = epoch, rr_generation = generation,
                       rr_origin = origin, rr_digest = digest_zero\<rparr>;
                     rec = blank\<lparr>rr_digest := replication_record_digest dtoa blank\<rparr> in
                 and_then (append_record_entry dtoa rec n1) (save_state dtoa)))"

section \<open>Authority and faults\<close>

definition require_authority :: "(nat \<Rightarrow> TimestampMs) \<Rightarrow> AuthorityClaim \<Rightarrow> AuthorityMode \<Rightarrow> ControlPlaneNode \<Rightarrow> Status" where
  "require_authority clock claim required n =
     (if nd_lifecycle n = NodeRetired then NotAuthoritative
      else if nd_lifecycle n = NodeFenced then StaleAuthority
      else case nd_lease n of
        None \<Rightarrow> NotAuthoritative
      | Some lease \<Rightarrow>
          if \<not> nd_lease_confirmed n then StaleAuthority
          else if clock 0 \<ge> expires_at_ms lease then StaleAuthority
          else if \<not> claim_is_valid claim then InvalidArgument
          else if claim_incarnation claim \<noteq> nd_incarnation n then StaleIncarnation
          else if claim_epoch claim \<noteq> lease_epoch lease then StaleEpoch
          else if claim_generation claim \<noteq> lease_generation lease then StaleGeneration
          else if claim_token claim \<noteq> lease_token lease then StaleAuthority
          else if authority_allows_mutation required \<and> \<not> authority_allows_mutation (lease_mode lease) then NotAuthoritative
          else if authority_allows_read required \<and> \<not> authority_allows_read (lease_mode lease) then NotAuthoritative
          else Ok)"

definition take_fault :: "string \<Rightarrow> ControlPlaneNode \<Rightarrow> string option \<times> ControlPlaneNode" where
  "take_fault op n =
     (let hit = (\<lambda>rule. fault_op rule = op \<and> fault_remaining rule > 0) in
      (map_option fault_action (List.find hit (nd_faults n)),
       n\<lparr>nd_faults := update_first hit (\<lambda>rule. rule\<lparr>fault_remaining := fault_remaining rule - 1\<rparr>) (nd_faults n)\<rparr>))"

definition set_fault :: "string \<Rightarrow> string \<Rightarrow> u32 \<Rightarrow> ControlPlaneNode \<Rightarrow> ControlPlaneNode" where
  "set_fault op action count n =
     (let hit = (\<lambda>rule. fault_op rule = op \<and> fault_action rule = action) in
      if list_ex hit (nd_faults n)
      then n\<lparr>nd_faults := update_first hit (\<lambda>rule. rule\<lparr>fault_remaining := count\<rparr>) (nd_faults n)\<rparr>
      else
        let kept = (if length (nd_faults n) \<ge> 16 then tl (nd_faults n) else nd_faults n) in
        n\<lparr>nd_faults := kept @ [\<lparr>fault_op = op, fault_action = action, fault_remaining = count\<rparr>]\<rparr>)"

section \<open>Opening, serving, stopping\<close>

definition node_open ::
  "(u64 \<Rightarrow> string) \<Rightarrow> (string \<Rightarrow> u64 option) \<Rightarrow> Status \<Rightarrow> Status \<Rightarrow> u64 \<times> u64 \<Rightarrow> ControlPlaneNode \<Rightarrow> Status \<times> ControlPlaneNode" where
  "node_open dtoa strtod directory directory_lock random n =
     (if nd_lifecycle n \<noteq> NodeUnopened then (AlreadyExists, n)
      else if \<not> name_is_valid (opt_component (nd_options n)) \<or> \<not> name_is_valid (opt_shard (nd_options n)) then (InvalidArgument, n)
      else if opt_state_directory (nd_options n) = [] then (InvalidArgument, n)
      else if directory \<noteq> Ok then (directory, n)
      else if directory_lock \<noteq> Ok then (directory_lock, n)
      else
        and_then (and_then (and_then (load_identity dtoa strtod random n) (load_state strtod)) (load_records dtoa strtod))
          (\<lambda>m. save_state dtoa
             (m\<lparr>nd_lifecycle := (if nd_retired_marker m then NodeRetired else NodeRecovering), nd_lease_confirmed := False\<rparr>)))"

text \<open>\<open>started\<close> and \<open>port\<close> are what the socket server answers.\<close>

definition start_server :: "Status \<Rightarrow> u16 \<Rightarrow> ControlPlaneNode \<Rightarrow> Status \<times> ControlPlaneNode" where
  "start_server started port n =
     (if nd_lifecycle n = NodeUnopened then (IllegalTransition, n)
      else if nd_serving n then (AlreadyExists, n)
      else if started \<noteq> Ok then (started, n)
      else (Ok, n\<lparr>nd_port := port, nd_serving := True,
                  nd_lifecycle := (if nd_lifecycle n = NodeRecovering then NodeServing else nd_lifecycle n)\<rparr>))"

definition node_stop :: "ControlPlaneNode \<Rightarrow> ControlPlaneNode" where
  "node_stop n =
     n\<lparr>nd_serving := False, nd_port := 0,
       nd_lifecycle := (if nd_lifecycle n \<noteq> NodeUnopened \<and> nd_lifecycle n \<noteq> NodeRetired then NodeStopped else nd_lifecycle n)\<rparr>"

definition report_locked :: "(u64 \<Rightarrow> string) \<Rightarrow> (nat \<Rightarrow> TimestampMs) \<Rightarrow> ControlPlaneNode \<Rightarrow> NodeReport" where
  "report_locked dtoa clock n =
     (let lease = nd_lease n in
      \<lparr>nr_component = opt_component (nd_options n), nr_incarnation = nd_incarnation n, nr_shard = opt_shard (nd_options n),
       nr_software = opt_software (nd_options n), nr_protocol = opt_protocol (nd_options n),
       nr_schema = doc_schema (nd_document n), nr_features = opt_features (nd_options n),
       nr_epoch = (case lease of Some l \<Rightarrow> lease_epoch l | None \<Rightarrow> 0),
       nr_generation = (case lease of Some l \<Rightarrow> lease_generation l | None \<Rightarrow> 0),
       nr_lsn = nd_lsn n,
       nr_mode = (case lease of Some l \<Rightarrow> lease_mode l | None \<Rightarrow> ModeNone),
       nr_token = (case lease of Some l \<Rightarrow> lease_token l | None \<Rightarrow> uuid_nil),
       nr_lease_expires_at_ms = (case lease of Some l \<Rightarrow> expires_at_ms l | None \<Rightarrow> 0),
       nr_has_authority = (case lease of Some l \<Rightarrow> nd_lease_confirmed n \<and> clock 0 < expires_at_ms l | None \<Rightarrow> False),
       nr_lease_confirmed = nd_lease_confirmed n, nr_lifecycle = nd_lifecycle n,
       nr_writes_applied = nd_writes_applied n, nr_writes_refused = nd_writes_refused n,
       nr_reads_served = nd_reads_served n,
       nr_state_digest = snapshot_digest dtoa (nd_document n) (nd_lsn n),
       nr_recorded_snapshot_digest = nd_recorded_snapshot_digest n,
       nr_oldest_logged_lsn = (case nd_records n of [] \<Rightarrow> nd_lsn n | r # _ \<Rightarrow> rr_lsn r)\<rparr>)"

end
