(* ===== verification/Node_Ops.thy ===== *)
theory Node_Ops
  imports Node
begin

text \<open>
  The requests of the control-plane node: one definition for every operation of
  \<^verbatim>\<open>ControlPlaneNode::dispatch\<close>, then \<^verbatim>\<open>dispatch\<close> and \<^verbatim>\<open>handle\<close>. An operation answers a refusal or the
  body of the response, and the object: a refused request has the default body in the code, a served one
  the status Ok. The object comes back also with a refusal, since the code does not undo what it did before.
\<close>

type_synonym node_reply = "json Result \<times> ControlPlaneNode"

text \<open>\<^verbatim>\<open>if (!x.ok()) { response.status = x.status(); return response; }\<close>, for a decoded value and for a step
  on the object.\<close>

definition checked :: "'a Result \<Rightarrow> 'n \<Rightarrow> ('a \<Rightarrow> 'b Result \<times> 'n) \<Rightarrow> 'b Result \<times> 'n" where
  "checked r n f = (case r of Inl e \<Rightarrow> (Inl e, n) | Inr x \<Rightarrow> f x)"

definition saved :: "Status \<times> 'n \<Rightarrow> ('n \<Rightarrow> 'b Result \<times> 'n) \<Rightarrow> 'b Result \<times> 'n" where
  "saved r f = (case r of (status, n) \<Rightarrow> if status \<noteq> Ok then (Inl status, n) else f n)"

section \<open>Identification\<close>

definition node_hello :: "(nat \<Rightarrow> TimestampMs) \<Rightarrow> ControlPlaneNode \<Rightarrow> node_reply" where
  "node_hello clock n =
     (let hello =
        \<lparr>he_component = opt_component (nd_options n), he_incarnation = nd_incarnation n,
         he_software = opt_software (nd_options n), he_protocol = opt_protocol (nd_options n),
         he_schema = doc_schema (nd_document n), he_features = opt_features (nd_options n),
         he_epoch = (case nd_lease n of Some l \<Rightarrow> lease_epoch l | None \<Rightarrow> 0),
         he_generation = (case nd_lease n of Some l \<Rightarrow> lease_generation l | None \<Rightarrow> 0),
         he_holds_authority =
           (case nd_lease n of Some l \<Rightarrow> nd_lease_confirmed n \<and> clock 0 < expires_at_ms l | None \<Rightarrow> False)\<rparr> in
      (Inr (json_object [(''hello'', hello_to_json hello)]), n))"

definition node_status :: "(u64 \<Rightarrow> string) \<Rightarrow> (nat \<Rightarrow> TimestampMs) \<Rightarrow> ControlPlaneNode \<Rightarrow> node_reply" where
  "node_status dtoa clock n = (Inr (json_object [(''report'', report_to_json (report_locked dtoa clock n))]), n)"

definition node_faults :: "json \<Rightarrow> ControlPlaneNode \<Rightarrow> node_reply" where
  "node_faults body n =
     (case (json_string body ''op'', json_string body ''action'', json_u64 body ''count'') of
        (Some op, Some action, Some count) \<Rightarrow>
          if count > 1000 then (Inl InvalidArgument, n)
          else (Inr (JObject []), set_fault op action (ucast count) n)
      | _ \<Rightarrow> (Inl InvalidArgument, n))"

section \<open>Preparation and replication\<close>

definition prepare_target :: "json \<Rightarrow> (SoftwareVersion \<times> ProtocolVersion \<times> u64) Result" where
  "prepare_target body =
     rbind (require (json_string body ''target_software'') InvalidArgument) (\<lambda>target.
     rbind (require (json_string body ''target_protocol'') InvalidArgument) (\<lambda>target_protocol.
     rbind (require (json_u64 body ''target_schema'') InvalidArgument) (\<lambda>target_schema.
     rbind (require (software_version_parse target) Malformed) (\<lambda>software.
     rbind (require (protocol_version_parse target_protocol) Malformed) (\<lambda>protocol.
     Inr (software, protocol, target_schema))))))"

definition prepare_successor :: "HandoffId \<Rightarrow> json \<Rightarrow> ControlPlaneNode \<Rightarrow> node_reply" where
  "prepare_successor handoff body n =
     checked
       (rbind (prepare_target body) (\<lambda>(software, protocol, target_schema).
        rbind (guard (software = opt_software (nd_options n)) CompatibilityInsufficient) (\<lambda>_.
        rbind (guard (protocol = opt_protocol (nd_options n)) UnsupportedProtocol) (\<lambda>_.
        rbind (guard (target_schema \<le> 0xFFFFFFFF) Malformed) (\<lambda>_.
        rbind (require (json_find body ''source'') InvalidArgument) (\<lambda>source.
        rbind (parse_source_binding source) (\<lambda>binding.
        rbind (guard (\<not> sb_schema binding > doc_schema (nd_document n)) MigrationFailure) (\<lambda>_.
        Inr (binding\<lparr>sb_handoff := handoff\<rparr>)))))))))
       n
       (\<lambda>binding.
          (Inr (json_object
             [(''role'', JString ''successor''), (''incarnation'', incarnation_to_json (nd_incarnation n)),
              (''source'', source_binding_to_json binding)]),
           n\<lparr>nd_expected_source := Some binding, nd_current_handoff := handoff\<rparr>))"

definition prepare_predecessor :: "(nat \<Rightarrow> TimestampMs) \<Rightarrow> HandoffId \<Rightarrow> ControlPlaneNode \<Rightarrow> node_reply" where
  "prepare_predecessor clock handoff n =
     (case nd_lease n of
        None \<Rightarrow> (Inl NotAuthoritative, n)
      | Some lease \<Rightarrow>
          if \<not> nd_lease_confirmed n \<or> lease_mode lease \<noteq> Mutating \<or> clock 0 \<ge> expires_at_ms lease then (Inl NotAuthoritative, n)
          else
            (Inr (json_object
               [(''role'', JString ''predecessor''), (''incarnation'', incarnation_to_json (nd_incarnation n)),
                (''lsn'', JUInt (nd_lsn n)), (''schema'', JUInt (ucast (doc_schema (nd_document n))))]),
             n\<lparr>nd_current_handoff := handoff\<rparr>))"

definition node_prepare :: "(nat \<Rightarrow> TimestampMs) \<Rightarrow> json \<Rightarrow> ControlPlaneNode \<Rightarrow> node_reply" where
  "node_prepare clock body n =
     checked
       (rbind (parse_handoff_id body) (\<lambda>handoff.
        rbind (require (json_string body ''role'') InvalidArgument) (\<lambda>role.
        rbind (guard (role = ''successor'' \<or> role = ''predecessor'') InvalidArgument) (\<lambda>_.
        rbind (case json_string body ''manifest_digest'' of
                 None \<Rightarrow> Inr digest_zero | Some text \<Rightarrow> require (digest_from_hex text) Malformed) (\<lambda>_.
        Inr (handoff, role))))))
       n
       (\<lambda>(handoff, role).
          if role = ''successor'' then prepare_successor handoff body n else prepare_predecessor clock handoff n)"

definition snapshot_image :: "bool \<Rightarrow> ControlPlaneNode \<Rightarrow> json" where
  "snapshot_image corrupted n =
     (let image = fields_to_json (doc_fields (nd_document n)) in
      json_set (json_set (json_set (json_set (json_set (JObject [])
        ''id'' (JUInt (nd_last_snapshot_id n)))
        ''lsn'' (JUInt (nd_lsn n)))
        ''schema'' (JUInt (ucast (doc_schema (nd_document n)))))
        ''digest'' (JString (to_hex (nd_recorded_snapshot_digest n))))
        ''fields'' (if corrupted then json_set image ''__corrupted__'' (JString ''true'') else image))"

definition node_snapshot :: "(u64 \<Rightarrow> string) \<Rightarrow> json \<Rightarrow> ControlPlaneNode \<Rightarrow> node_reply" where
  "node_snapshot dtoa body n =
     checked
       (rbind (parse_handoff_id body) (\<lambda>handoff.
        rbind (guard (nd_lifecycle n \<noteq> NodeRetired \<and> nd_lifecycle n \<noteq> NodeUnopened) NotAuthoritative) (\<lambda>_.
        rbind (guard (nd_lease n \<noteq> None) NotAuthoritative) (\<lambda>_. Inr handoff))))
       n
       (\<lambda>handoff.
          case take_fault ''node.snapshot.corrupt'' n of
            (corrupted, n1) \<Rightarrow>
              (case tagged_next (nd_last_snapshot_id n1) of
                 None \<Rightarrow> (Inl BoundsExceeded, n1)
               | Some next \<Rightarrow>
                   let n2 = n1\<lparr>nd_last_snapshot_id := next, nd_last_snapshot_lsn := nd_lsn n1,
                               nd_recorded_snapshot_digest := snapshot_digest dtoa (nd_document n1) (nd_lsn n1)\<rparr>;
                       snapshot = snapshot_image (corrupted \<noteq> None) n2 in
                   saved (save_state dtoa n2)
                     (\<lambda>n3. (Inr (json_object [(''handoff'', JUInt handoff), (''snapshot'', snapshot)]), n3))))"

definition require_prepared :: "json \<Rightarrow> ControlPlaneNode \<Rightarrow> (HandoffId \<times> SourceBinding) Result" where
  "require_prepared body n =
     rbind (parse_handoff_id body) (\<lambda>handoff.
     rbind (require (nd_expected_source n) IllegalTransition) (\<lambda>expected.
     rbind (guard (sb_handoff expected = handoff) IllegalTransition) (\<lambda>_. Inr (handoff, expected))))"

text \<open>The decoding of the snapshot: the document, its position, its recorded digest.\<close>

definition incoming_snapshot :: "json \<Rightarrow> (StateDocument \<times> LogSequenceNumber \<times> Digest) Result" where
  "incoming_snapshot body =
     rbind (require (json_find body ''snapshot'') InvalidArgument) (\<lambda>snapshot.
     rbind (guard (is_object snapshot) InvalidArgument) (\<lambda>_.
     rbind (schema_version_field snapshot ''schema'') (\<lambda>schema.
     rbind (require (json_u64 snapshot ''lsn'') Malformed) (\<lambda>lsn.
     rbind (require (json_string snapshot ''digest'') Malformed) (\<lambda>digest_text.
     rbind (require (digest_from_hex digest_text) Malformed) (\<lambda>recorded.
     rbind (require (json_find snapshot ''fields'') Malformed) (\<lambda>image.
     rbind (require (try_object image) Malformed) (\<lambda>obj.
     rbind (put_entries Malformed obj \<lparr>doc_schema = schema, doc_fields = []\<rparr>) (\<lambda>incoming.
     Inr (incoming, lsn, recorded))))))))))"

definition node_install_snapshot :: "(u64 \<Rightarrow> string) \<Rightarrow> json \<Rightarrow> ControlPlaneNode \<Rightarrow> node_reply" where
  "node_install_snapshot dtoa body n =
     checked
       (rbind (require_prepared body n) (\<lambda>(_, expected).
        rbind (incoming_snapshot body) (\<lambda>(incoming, lsn, recorded).
        let computed = snapshot_digest dtoa incoming lsn in
        rbind (guard (computed = recorded) IntegrityFailure) (\<lambda>_.
        rbind (guard (doc_schema incoming = sb_schema expected) MigrationFailure) (\<lambda>_.
        Inr (incoming, lsn, computed))))))
       n
       (\<lambda>(incoming, lsn, computed).
          let n1 = n\<lparr>nd_document := incoming, nd_lsn := lsn, nd_operation_id := lsn, nd_records := []\<rparr> in
          saved (on_disk (disk_write_atomic (records_path n1) []) n1) (\<lambda>n2.
          saved (save_state dtoa (n2\<lparr>nd_recorded_snapshot_digest := computed, nd_last_snapshot_lsn := lsn\<rparr>)) (\<lambda>n3.
          (Inr (json_object
             [(''lsn'', JUInt (nd_lsn n3)), (''schema'', JUInt (ucast (doc_schema (nd_document n3)))),
              (''digest'', JString (to_hex computed))]), n3))))"

definition oldest_lsn :: "ControlPlaneNode \<Rightarrow> LogSequenceNumber" where
  "oldest_lsn n = (case nd_records n of [] \<Rightarrow> nd_lsn n | r # _ \<Rightarrow> rr_lsn r)"

definition records_since :: "LogSequenceNumber \<Rightarrow> nat \<Rightarrow> ReplicationRecord list \<Rightarrow> ReplicationRecord list" where
  "records_since from limit rs = take limit (filter (\<lambda>r. \<not> rr_lsn r \<le> from) rs)"

definition log_truncated :: "LogSequenceNumber \<Rightarrow> ControlPlaneNode \<Rightarrow> bool" where
  "log_truncated from n =
     (from \<noteq> 0 \<and> from < oldest_lsn n \<and> nd_records n \<noteq> [] \<and> rr_lsn (hd (nd_records n)) > from + 1)"

definition node_read_since :: "json \<Rightarrow> ControlPlaneNode \<Rightarrow> node_reply" where
  "node_read_since body n =
     checked (require (json_u64 body ''from_lsn'') InvalidArgument) n
       (\<lambda>from.
          let limit = min (unat (json_u64_or body ''max_records'' 128)) (opt_max_records_per_response (nd_options n)) in
          (Inr (json_object
             [(''records'', JArray (map record_to_json (records_since from limit (nd_records n)))),
              (''lsn'', JUInt (nd_lsn n)), (''oldest_lsn'', JUInt (oldest_lsn n)),
              (''truncated'', JBool (log_truncated from n))]), n))"

text \<open>The body of the loop over the received records, then the loop.\<close>

definition apply_entry :: "(u64 \<Rightarrow> string) \<Rightarrow> SourceBinding \<Rightarrow> json \<Rightarrow> ControlPlaneNode \<Rightarrow> Status \<times> ControlPlaneNode" where
  "apply_entry dtoa expected j n =
     (case record_from_json dtoa j of
        Inl e \<Rightarrow> (e, n)
      | Inr entry \<Rightarrow>
          if rr_origin entry \<noteq> sb_source expected then (StaleIncarnation, n)
          else if tagged_next (nd_lsn n) \<noteq> Some (rr_lsn entry) then (NotReady, n)
          else
            (case doc_put (rr_key entry) (rr_value entry) (nd_document n) of
               (document, put) \<Rightarrow>
                 if put \<noteq> Ok then (put, n\<lparr>nd_document := document\<rparr>)
                 else append_record_entry dtoa entry
                   (n\<lparr>nd_document := document, nd_lsn := rr_lsn entry, nd_operation_id := nd_operation_id n + 1\<rparr>)))"

fun apply_entries :: "(u64 \<Rightarrow> string) \<Rightarrow> SourceBinding \<Rightarrow> json list \<Rightarrow> ControlPlaneNode \<Rightarrow> Status \<times> ControlPlaneNode" where
  "apply_entries dtoa expected [] n = (Ok, n)"
| "apply_entries dtoa expected (j # js) n = and_then (apply_entry dtoa expected j n) (apply_entries dtoa expected js)"

definition node_apply_records :: "(u64 \<Rightarrow> string) \<Rightarrow> json \<Rightarrow> ControlPlaneNode \<Rightarrow> node_reply" where
  "node_apply_records dtoa body n =
     checked
       (rbind (require_prepared body n) (\<lambda>(handoff, expected).
        rbind (require (json_find body ''source'') InvalidArgument) (\<lambda>source.
        rbind (parse_source_binding source) (\<lambda>binding.
        rbind (guard (binding_matches (binding\<lparr>sb_handoff := handoff\<rparr>) expected) StaleGeneration) (\<lambda>_.
        rbind (require (json_find body ''records'') InvalidArgument) (\<lambda>entries.
        rbind (guard (is_array entries) InvalidArgument) (\<lambda>_.
        rbind (guard (json_size entries \<le> opt_max_records_per_response (nd_options n)) BoundsExceeded) (\<lambda>_.
        Inr (expected, map (json_at entries) [0..<json_size entries])))))))))
       n
       (\<lambda>(expected, entries).
          saved (apply_entries dtoa expected entries n) (\<lambda>n1.
          saved (save_state dtoa n1) (\<lambda>n2.
          (Inr (json_object [(''applied'', JUInt (of_nat (length entries))), (''lsn'', JUInt (nd_lsn n2))]), n2))))"

definition node_readiness :: "(u64 \<Rightarrow> string) \<Rightarrow> json \<Rightarrow> ControlPlaneNode \<Rightarrow> node_reply" where
  "node_readiness dtoa body n =
     checked (require_prepared body n) n
       (\<lambda>_.
          let target_lsn = json_u64_or body ''target_lsn'' 0;
              target_schema = json_u64_or body ''target_schema'' 0;
              (ready, reason) =
                (if doc_schema (nd_document n) \<noteq> ucast target_schema
                 then (False, ''successor state has not been migrated to the manifest target schema'')
                 else if target_lsn \<noteq> 0 \<and> nd_lsn n < target_lsn
                 then (False, ''successor has not caught up to the snapshot target log position'')
                 else if nd_lifecycle n = NodeRetired \<or> nd_lifecycle n = NodeFenced
                 then (False, ''successor is not in a serving lifecycle state'')
                 else (True, ''ready'')) in
          (Inr (json_object
             [(''ready'', JBool ready), (''reason'', JString reason), (''lsn'', JUInt (nd_lsn n)),
              (''schema'', JUInt (ucast (doc_schema (nd_document n)))),
              (''digest'', JString (to_hex (snapshot_digest dtoa (nd_document n) (nd_lsn n))))]), n))"

section \<open>Authority\<close>

definition node_fence :: "(u64 \<Rightarrow> string) \<Rightarrow> json \<Rightarrow> ControlPlaneNode \<Rightarrow> node_reply" where
  "node_fence dtoa body n =
     checked
       (rbind (parse_handoff_id body) (\<lambda>_.
        rbind (require (positive (json_u64 body ''fence_id'')) InvalidArgument) (\<lambda>fence.
        rbind (require (json_find body ''target'') InvalidArgument) (\<lambda>target.
        rbind (incarnation_from_json target) (\<lambda>incarnation.
        rbind (guard (incarnation = nd_incarnation n) StaleIncarnation) (\<lambda>_. Inr fence))))))
       n
       (\<lambda>fence.
          if nd_lifecycle n = NodeFenced \<and> nd_last_fence_id n = fence
          then (Inr (json_object [(''acknowledged'', JBool True), (''idempotent'', JBool True), (''fence_id'', JUInt fence)]), n)
          else
            saved (save_state dtoa
              (n\<lparr>nd_lifecycle := NodeFenced, nd_lease_confirmed := False,
                 nd_lease := map_option (\<lambda>l. l\<lparr>lease_state := Fenced, attested := False\<rparr>) (nd_lease n),
                 nd_last_fence_id := fence\<rparr>))
              (\<lambda>n1.
                 (Inr (json_object
                    [(''acknowledged'', JBool True), (''idempotent'', JBool False), (''fence_id'', JUInt fence),
                     (''incarnation'', incarnation_to_json (nd_incarnation n1)), (''lsn'', JUInt (nd_lsn n1))]), n1)))"

definition granted_mode :: "string \<Rightarrow> AuthorityMode option" where
  "granted_mode text =
     (if text = ''read_only_shared'' then Some ReadOnlyShared else if text = ''mutating'' then Some Mutating else None)"

text \<open>The lease id is the default one: the request carries none.\<close>

definition granted_lease :: "(nat \<Rightarrow> TimestampMs) \<Rightarrow> json \<Rightarrow> ControlPlaneNode \<Rightarrow> AuthorityLease Result" where
  "granted_lease clock body n =
     rbind (parse_handoff_id body) (\<lambda>handoff.
     rbind (guard (nd_lifecycle n \<noteq> NodeRetired) NotAuthoritative) (\<lambda>_.
     rbind (require (positive (json_u64 body ''epoch'')) InvalidArgument) (\<lambda>epoch.
     rbind (require (positive (json_u64 body ''generation'')) InvalidArgument) (\<lambda>generation.
     rbind (require (json_string body ''token'') InvalidArgument) (\<lambda>token_text.
     rbind (require (json_string body ''mode'') InvalidArgument) (\<lambda>mode_text.
     rbind (require (non_nil (uuid_parse token_text)) Malformed) (\<lambda>token.
     rbind (require (granted_mode mode_text) Malformed) (\<lambda>mode.
     let ttl = json_u64_or body ''ttl_ms'' (opt_lease_ttl_ms (nd_options n)) in
     rbind (guard (ttl \<noteq> 0 \<and> ttl \<le> 24 * 60 * 60 * 1000) BoundsExceeded) (\<lambda>_.
     Inr \<lparr>lease_id = 0, lease_shard = opt_shard (nd_options n), lease_holder = nd_incarnation n, lease_epoch = epoch,
          lease_generation = generation, lease_token = token, lease_mode = mode, lease_state = Active,
          issued_at_ms = clock 0, expires_at_ms = clock 1 + ttl, attested = True, attestation_seq = 1,
          lease_campaign = [], lease_handoff = handoff, lease_reason = ''granted by the evolution controller''\<rparr>)))))))))"

definition node_grant_authority :: "(u64 \<Rightarrow> string) \<Rightarrow> (nat \<Rightarrow> TimestampMs) \<Rightarrow> json \<Rightarrow> ControlPlaneNode \<Rightarrow> node_reply" where
  "node_grant_authority dtoa clock body n =
     checked (granted_lease clock body n) n
       (\<lambda>lease.
          saved (save_state dtoa (n\<lparr>nd_lease := Some lease, nd_lease_confirmed := True, nd_lifecycle := NodeServing\<rparr>))
            (\<lambda>n1.
               (Inr (json_object
                  [(''incarnation'', incarnation_to_json (nd_incarnation n1)), (''epoch'', JUInt (lease_epoch lease)),
                   (''generation'', JUInt (lease_generation lease)), (''expires_at_ms'', JUInt (expires_at_ms lease)),
                   (''mode'', JString (mode_name (lease_mode lease)))]), n1)))"

definition node_reattest :: "(nat \<Rightarrow> TimestampMs) \<Rightarrow> json \<Rightarrow> ControlPlaneNode \<Rightarrow> node_reply" where
  "node_reattest clock body n =
     checked
       (rbind (require (json_string body ''token'') InvalidArgument) (\<lambda>token_text.
        rbind (require (uuid_parse token_text) Malformed) (\<lambda>token.
        rbind (require (nd_lease n) StaleAuthority) (\<lambda>lease.
        rbind (guard (lease_token lease = token) StaleAuthority) (\<lambda>_.
        rbind (guard (\<not> clock 0 \<ge> expires_at_ms lease) StaleAuthority) (\<lambda>_. Inr lease))))))
       n
       (\<lambda>lease.
          (Inr (json_object
             [(''attested'', JBool True), (''incarnation'', incarnation_to_json (nd_incarnation n)),
              (''generation'', JUInt (lease_generation lease))]),
           n\<lparr>nd_lease := Some (lease\<lparr>attested := True, attestation_seq := attestation_seq lease + 1\<rparr>),
             nd_lease_confirmed := True\<rparr>))"

section \<open>Migration and retirement\<close>

definition journal_entry_of :: "TimestampMs \<Rightarrow> ControlPlaneNode \<Rightarrow> MigrationStepRecord \<Rightarrow> MigrationJournalRecord" where
  "journal_entry_of now n r =
     \<lparr>jr_shard = opt_shard (nd_options n), jr_component = opt_component (nd_options n), jr_step = sr_step r,
      jr_from = sr_from r, jr_to = sr_to r, jr_state_digest_after = sr_digest_after r, jr_applied_at_ms = now,
      jr_irreversible_boundary = sr_irreversible_boundary r\<rparr>"

fun journal_steps ::
  "(nat \<Rightarrow> TimestampMs) \<Rightarrow> nat \<Rightarrow> MigrationStepRecord list \<Rightarrow> ControlPlaneNode \<Rightarrow> Status \<times> ControlPlaneNode" where
  "journal_steps clock i [] n = (Ok, n)"
| "journal_steps clock i (r # rs) n =
     and_then
       (case journal_record (journal_entry_of (clock i) n r) (nd_journal n) of (j, recorded) \<Rightarrow> (recorded, n\<lparr>nd_journal := j\<rparr>))
       (journal_steps clock (Suc i) rs)"

definition migrate_request :: "json \<Rightarrow> (HandoffId \<times> MigrationStepSpec list) Result" where
  "migrate_request body =
     rbind (parse_handoff_id body) (\<lambda>handoff.
     rbind (require (json_find body ''steps'') InvalidArgument) (\<lambda>steps.
     rbind (guard (is_array steps \<and> json_size steps \<noteq> 0) InvalidArgument) (\<lambda>_.
     rbind (guard (json_size steps \<le> 64) BoundsExceeded) (\<lambda>_.
     rbind (map_result migration_step_from_json (map (json_at steps) [0..<json_size steps])) (\<lambda>path.
     Inr (handoff, path))))))"

definition node_migrate :: "(u64 \<Rightarrow> string) \<Rightarrow> (nat \<Rightarrow> TimestampMs) \<Rightarrow> json \<Rightarrow> ControlPlaneNode \<Rightarrow> node_reply" where
  "node_migrate dtoa clock body n =
     checked (migrate_request body) n
       (\<lambda>(handoff, path).
          case migrate_forward dtoa path (nd_document n) of
            (working, result) \<Rightarrow>
              checked result n (\<lambda>outcome.
                saved (journal_steps clock 0 (mo_steps outcome) (n\<lparr>nd_document := working\<rparr>)) (\<lambda>n1.
                saved (save_state dtoa n1) (\<lambda>n2.
                (Inr (json_object
                   [(''schema'', JUInt (ucast (doc_schema (nd_document n2)))),
                    (''state_digest_after'', JString (to_hex (mo_digest_after outcome))),
                    (''crossed_irreversible_boundary'', JBool (mo_crossed outcome)),
                    (''steps'', JUInt (of_nat (length (mo_steps outcome)))),
                    (''applied'', JArray (map (\<lambda>step. JString (ms_id step)) path)),
                    (''handoff'', JUInt handoff)]), n2)))))"

definition node_retire :: "(u64 \<Rightarrow> string) \<Rightarrow> json \<Rightarrow> ControlPlaneNode \<Rightarrow> node_reply" where
  "node_retire dtoa body n =
     checked (parse_handoff_id body) n
       (\<lambda>handoff.
          saved (save_state dtoa
            (n\<lparr>nd_lifecycle := NodeRetired, nd_retired_marker := True, nd_lease_confirmed := False,
               nd_lease := map_option (\<lambda>l. l\<lparr>lease_state := Revoked, attested := False\<rparr>) (nd_lease n)\<rparr>))
            (\<lambda>n1. (Inr (json_object [(''retired'', JBool True), (''handoff'', JUInt handoff)]), n1)))"

section \<open>Writes and reads\<close>

definition node_write :: "(u64 \<Rightarrow> string) \<Rightarrow> (nat \<Rightarrow> TimestampMs) \<Rightarrow> json \<Rightarrow> ControlPlaneNode \<Rightarrow> node_reply" where
  "node_write dtoa clock body n =
     checked (rbind (require (json_find body ''claim'') InvalidArgument) authority_claim_from_json) n
       (\<lambda>claim.
          let authority = require_authority clock claim Mutating n in
          if authority \<noteq> Ok then (Inl authority, n\<lparr>nd_writes_refused := nd_writes_refused n + 1\<rparr>)
          else
            (case (json_string body ''key'', json_string body ''value'') of
               (Some key, Some val) \<Rightarrow>
                 if key = [] then (Inl InvalidArgument, n)
                 else
                   let lease = the (nd_lease n) in
                   saved (apply_write dtoa key val (lease_epoch lease) (lease_generation lease) (nd_incarnation n) n) (\<lambda>n1.
                   let n2 = n1\<lparr>nd_writes_applied := nd_writes_applied n1 + 1\<rparr> in
                   (Inr (json_object
                      [(''lsn'', JUInt (nd_lsn n2)), (''epoch'', JUInt (lease_epoch lease)),
                       (''generation'', JUInt (lease_generation lease)),
                       (''incarnation'', incarnation_to_json (nd_incarnation n2))]), n2))
             | _ \<Rightarrow> (Inl InvalidArgument, n)))"

definition holds_live_lease :: "(nat \<Rightarrow> TimestampMs) \<Rightarrow> ControlPlaneNode \<Rightarrow> bool" where
  "holds_live_lease clock n =
     (case nd_lease n of None \<Rightarrow> False | Some l \<Rightarrow> nd_lease_confirmed n \<and> clock 0 < expires_at_ms l)"

definition lease_allows_read :: "ControlPlaneNode \<Rightarrow> bool" where
  "lease_allows_read n = (case nd_lease n of None \<Rightarrow> False | Some l \<Rightarrow> authority_allows_read (lease_mode l))"

definition node_read :: "(u64 \<Rightarrow> string) \<Rightarrow> (nat \<Rightarrow> TimestampMs) \<Rightarrow> json \<Rightarrow> ControlPlaneNode \<Rightarrow> node_reply" where
  "node_read dtoa clock body n =
     checked
       (rbind (require (json_string body ''key'') InvalidArgument) (\<lambda>key.
        rbind (guard (key \<noteq> []) InvalidArgument) (\<lambda>_.
        let allow_stale = json_bool_or body ''allow_stale'' False in
        rbind (guard (allow_stale \<or> nd_lifecycle n \<noteq> NodeRetired \<and> nd_lifecycle n \<noteq> NodeFenced) NotAuthoritative) (\<lambda>_.
        rbind (guard (allow_stale \<or> holds_live_lease clock n \<and> lease_allows_read n) NotAuthoritative) (\<lambda>_.
        Inr key)))))
       n
       (\<lambda>key.
          let found = doc_get key (nd_document n); n1 = n\<lparr>nd_reads_served := nd_reads_served n + 1\<rparr> in
          (Inr (json_object
             [(''found'', JBool (found \<noteq> None)), (''value'', JString (case found of Some v \<Rightarrow> v | None \<Rightarrow> [])),
              (''lsn'', JUInt (nd_lsn n)),
              (''authoritative'', JBool (holds_live_lease clock n \<and> lease_allows_read n \<and> nd_lifecycle n = NodeServing)),
              (''lifecycle'', JString (lifecycle_name (nd_lifecycle n))),
              (''incarnation'', incarnation_to_json (nd_incarnation n)),
              (''epoch'', JUInt (case nd_lease n of Some l \<Rightarrow> lease_epoch l | None \<Rightarrow> 0)),
              (''generation'', JUInt (case nd_lease n of Some l \<Rightarrow> lease_generation l | None \<Rightarrow> 0)),
              (''schema'', JUInt (ucast (doc_schema (nd_document n)))),
              (''state_digest'', JString (to_hex (snapshot_digest dtoa (nd_document n) (nd_lsn n))))]), n1))"

section \<open>Dispatch\<close>

definition node_dispatch :: "(u64 \<Rightarrow> string) \<Rightarrow> (nat \<Rightarrow> TimestampMs) \<Rightarrow> string \<Rightarrow> json \<Rightarrow> ControlPlaneNode \<Rightarrow> node_reply" where
  "node_dispatch dtoa clock op body n =
     (if op = ''node.hello'' then node_hello clock n
      else if op = ''node.status'' then node_status dtoa clock n
      else if op = ''node.faults'' then node_faults body n
      else if op = ''node.prepare'' then node_prepare clock body n
      else if op = ''node.snapshot'' then node_snapshot dtoa body n
      else if op = ''node.install_snapshot'' then node_install_snapshot dtoa body n
      else if op = ''node.read_since'' then node_read_since body n
      else if op = ''node.apply_records'' then node_apply_records dtoa body n
      else if op = ''node.readiness'' then node_readiness dtoa body n
      else if op = ''node.fence'' then node_fence dtoa body n
      else if op = ''node.grant_authority'' then node_grant_authority dtoa clock body n
      else if op = ''node.reattest'' then node_reattest clock body n
      else if op = ''node.migrate'' then node_migrate dtoa clock body n
      else if op = ''node.retire'' then node_retire dtoa body n
      else if op = ''node.write'' then node_write dtoa clock body n
      else if op = ''node.read'' then node_read dtoa clock body n
      else (Inl NotFound, n))"

definition reply_to :: "RpcRequest \<Rightarrow> json Result \<Rightarrow> RpcResponse" where
  "reply_to request result =
     \<lparr>rs_id = rq_id request, rs_op = rq_op request, rs_status = result_status result,
      rs_body = (case result of Inl _ \<Rightarrow> JObject [] | Inr body \<Rightarrow> body), rs_suppress_response = False\<rparr>"

definition node_handle ::
  "(u64 \<Rightarrow> string) \<Rightarrow> (nat \<Rightarrow> TimestampMs) \<Rightarrow> RpcRequest \<Rightarrow> ControlPlaneNode \<Rightarrow> RpcResponse \<times> ControlPlaneNode" where
  "node_handle dtoa clock request n =
     (case take_fault (rq_op request) n of
        (fault, n1) \<Rightarrow>
          if fault = Some ''error'' then (reply_to request (Inl Internal), n1)
          else
            (case node_dispatch dtoa clock (rq_op request) (rq_body request) n1 of
               (result, n2) \<Rightarrow> ((reply_to request result)\<lparr>rs_suppress_response := (fault = Some ''drop_response'')\<rparr>, n2)))"

end
