(* ===== verification/Node_Frame.thy ===== *)
theory Node_Frame
  imports Node_Ops
begin

text \<open>
  What the requests of the node change: frame lemmas for the steps on the object, and the theorem that every
  change of the document or of the log position is justified by the request that made it.
\<close>

section \<open>Frames of the steps\<close>

lemma and_then_eq:
  "(and_then r f = (st, n')) = (\<exists>s m. r = (s, m) \<and> (s \<noteq> Ok \<and> st = s \<and> n' = m \<or> s = Ok \<and> f m = (st, n')))"
  by (cases r) (auto simp: and_then_def)

lemma saved_eq:
  "(saved r f = (res, n')) = (\<exists>s m. r = (s, m) \<and> (s \<noteq> Ok \<and> res = Inl s \<and> n' = m \<or> s = Ok \<and> f m = (res, n')))"
  by (cases r) (auto simp: saved_def)

lemma checked_eq:
  "(checked r n f = (res, n')) = ((\<exists>e. r = Inl e \<and> res = Inl e \<and> n' = n) \<or> (\<exists>x. r = Inr x \<and> f x = (res, n')))"
  by (cases r) (auto simp: checked_def)

lemmas step_eqs = and_then_eq saved_eq checked_eq

lemma on_disk_frame: "on_disk f n = (st, n') \<Longrightarrow> \<exists>d. n' = n\<lparr>nd_disk := d\<rparr>"
  by (auto simp: on_disk_def split: prod.splits)

lemma save_state_frame: "save_state dtoa n = (st, n') \<Longrightarrow> \<exists>d. n' = n\<lparr>nd_disk := d\<rparr>"
  unfolding save_state_def by (rule on_disk_frame)

lemma keep_records: "n\<lparr>nd_disk := d\<rparr> = n\<lparr>nd_disk := d, nd_records := drop 0 (nd_records n)\<rparr>" for n :: ControlPlaneNode
  by (cases n) simp

lemma compact_frame:
  assumes "compact_records dtoa n = (st, n')" "nd_records n \<noteq> []"
  shows "\<exists>d. \<exists>k < length (nd_records n). n' = n\<lparr>nd_disk := d, nd_records := drop k (nd_records n)\<rparr>"
proof -
  let ?half = "opt_max_log_records (nd_options n) div 2"
  let ?keep = "if ?half = 0 then 1 else ?half"
  let ?start = "if length (nd_records n) > ?keep then length (nd_records n) - ?keep else 0"
  from assms(1) obtain d where "n' = n\<lparr>nd_disk := d\<rparr> \<or> n' = n\<lparr>nd_disk := d, nd_records := drop ?start (nd_records n)\<rparr>"
    unfolding compact_records_def Let_def by (auto simp: and_then_eq dest!: on_disk_frame)
  moreover have "?start < length (nd_records n)" "0 < length (nd_records n)" using assms(2) by auto
  ultimately show ?thesis using keep_records by metis
qed

lemma append_frame:
  assumes "append_record_entry dtoa r n = (st, n')"
  shows "(\<exists>d. n' = n\<lparr>nd_disk := d\<rparr>) \<and> st \<noteq> Ok \<or>
    (\<exists>d. \<exists>k \<le> length (nd_records n). n' = n\<lparr>nd_disk := d, nd_records := drop k (nd_records n @ [r])\<rparr>)"
proof -
  obtain s m where m: "on_disk (disk_append (records_path n) (dump dtoa (record_to_json r))) n = (s, m)" by fastforce
  then obtain d where d: "m = n\<lparr>nd_disk := d\<rparr>" using on_disk_frame by blast
  have "st \<noteq> Ok \<and> n' = n\<lparr>nd_disk := d\<rparr> \<or> n' = n\<lparr>nd_disk := d, nd_records := nd_records n @ [r]\<rparr> \<or>
      compact_records dtoa (n\<lparr>nd_disk := d, nd_records := nd_records n @ [r]\<rparr>) = (st, n')"
    using assms unfolding append_record_entry_def Let_def m and_then_def d by (auto split: if_splits)
  then consider "st \<noteq> Ok" "n' = n\<lparr>nd_disk := d\<rparr>" | "n' = n\<lparr>nd_disk := d, nd_records := drop 0 (nd_records n @ [r])\<rparr>"
    | "compact_records dtoa (n\<lparr>nd_disk := d, nd_records := nd_records n @ [r]\<rparr>) = (st, n')" by auto
  then show ?thesis
  proof cases
    case 3
    from compact_frame [OF this] show ?thesis by (auto simp: less_Suc_eq_le)
  qed blast+
qed

lemma doc_put_refused: "doc_put k v d = (d', s) \<Longrightarrow> s \<noteq> Ok \<Longrightarrow> d' = d"
  by (auto simp: doc_put_def split: if_splits)

text \<open>A write leaves the object as it was, or advances the document, the position and the operation count,
  whether or not the log and the state file could be written.\<close>

definition written :: "(u64 \<Rightarrow> string) \<Rightarrow> string \<Rightarrow> string \<Rightarrow> EpochNumber \<Rightarrow> Generation \<Rightarrow> IncarnationId \<Rightarrow> LogSequenceNumber \<Rightarrow> ReplicationRecord" where
  "written dtoa key val epoch generation origin lsn =
     (let blank = \<lparr>rr_lsn = lsn, rr_key = key, rr_value = val, rr_epoch = epoch, rr_generation = generation,
        rr_origin = origin, rr_digest = digest_zero\<rparr> in
      blank\<lparr>rr_digest := replication_record_digest dtoa blank\<rparr>)"

definition advanced :: "ReplicationRecord \<Rightarrow> StateDocument \<Rightarrow> ControlPlaneNode \<Rightarrow> ControlPlaneNode" where
  "advanced r d n = n\<lparr>nd_document := d, nd_lsn := rr_lsn r, nd_operation_id := nd_operation_id n + 1\<rparr>"

lemma apply_write_alt:
  "apply_write dtoa key val epoch generation origin n =
     (case tagged_next (nd_lsn n) of
        None \<Rightarrow> (BoundsExceeded, n)
      | Some next \<Rightarrow>
          (case doc_put key val (nd_document n) of
             (document, put) \<Rightarrow>
               if put \<noteq> Ok then (put, n)
               else
                 let r = written dtoa key val epoch generation origin next in
                 and_then (append_record_entry dtoa r (advanced r document n)) (save_state dtoa)))"
  unfolding apply_write_def written_def advanced_def Let_def
  by (cases n) (auto split: option.splits prod.splits dest: doc_put_refused)

text \<open>The object after an advance with its record appended to the log or not.\<close>

definition logged :: "ReplicationRecord \<Rightarrow> ControlPlaneNode \<Rightarrow> ControlPlaneNode \<Rightarrow> bool" where
  "logged r n n' =
     (\<exists>d rs. n' = n\<lparr>nd_disk := d, nd_records := rs\<rparr> \<and>
        (rs = nd_records n \<or> (\<exists>k \<le> length (nd_records n). rs = drop k (nd_records n @ [r]))))"

lemma loggedI:
  "n' = n\<lparr>nd_disk := d\<rparr> \<Longrightarrow> logged r n n'"
  "n' = n\<lparr>nd_disk := d, nd_records := drop k (nd_records n @ [r])\<rparr> \<Longrightarrow> k \<le> length (nd_records n) \<Longrightarrow> logged r n n'"
  unfolding logged_def by (metis keep_records drop_0, blast)

lemma append_logged: "append_record_entry dtoa r n = (st, n') \<Longrightarrow> logged r n n'"
  using append_frame loggedI by metis

lemma logged_save: "logged r n m \<Longrightarrow> n' = m\<lparr>nd_disk := d\<rparr> \<Longrightarrow> logged r n n'"
proof -
  have swap: "n\<lparr>nd_disk := x, nd_records := rs, nd_disk := d\<rparr> = n\<lparr>nd_disk := d, nd_records := rs\<rparr>" for x rs by simp
  assume "logged r n m" "n' = m\<lparr>nd_disk := d\<rparr>"
  then show ?thesis unfolding logged_def by (metis swap)
qed

lemma apply_write_cases:
  assumes "apply_write dtoa key val epoch generation origin n = (st, n')"
  obtains "st \<noteq> Ok" "n' = n"
  | nxt d where "tagged_next (nd_lsn n) = Some nxt" "doc_put key val (nd_document n) = (d, Ok)"
      "logged (written dtoa key val epoch generation origin nxt) (advanced (written dtoa key val epoch generation origin nxt) d n) n'"
proof (cases "tagged_next (nd_lsn n)")
  case None
  with assms that(1) show ?thesis by (simp add: apply_write_alt)
next
  case (Some nxt)
  obtain d s where p: "doc_put key val (nd_document n) = (d, s)" by fastforce
  show ?thesis
  proof (cases "s = Ok")
    case False
    with assms that(1) Some p show ?thesis by (simp add: apply_write_alt)
  next
    case True
    let ?r = "written dtoa key val epoch generation origin nxt"
    from assms Some p True obtain s1 m where "append_record_entry dtoa ?r (advanced ?r d n) = (s1, m)"
      "n' = m \<or> save_state dtoa m = (st, n')"
      by (auto simp: apply_write_alt Let_def and_then_eq)
    then have "logged ?r (advanced ?r d n) n'"
      using append_logged logged_save save_state_frame by metis
    with that(2) Some p True show ?thesis by simp
  qed
qed

section \<open>Frames of the requests\<close>

definition same_log :: "ControlPlaneNode \<Rightarrow> ControlPlaneNode \<Rightarrow> bool" where
  "same_log n n' = (nd_document n' = nd_document n \<and> nd_lsn n' = nd_lsn n \<and> nd_records n' = nd_records n)"

definition same_authority :: "ControlPlaneNode \<Rightarrow> ControlPlaneNode \<Rightarrow> bool" where
  "same_authority n n' =
     (nd_lifecycle n' = nd_lifecycle n \<and> nd_lease n' = nd_lease n \<and> nd_lease_confirmed n' = nd_lease_confirmed n \<and>
      nd_retired_marker n' = nd_retired_marker n \<and> nd_last_fence_id n' = nd_last_fence_id n)"

definition same_identity :: "ControlPlaneNode \<Rightarrow> ControlPlaneNode \<Rightarrow> bool" where
  "same_identity n n' =
     (nd_options n' = nd_options n \<and> nd_incarnation n' = nd_incarnation n \<and> nd_boot_counter n' = nd_boot_counter n)"

lemmas same_defs = same_log_def same_authority_def same_identity_def

lemma same_refl [simp]: "same_log n n" "same_authority n n" "same_identity n n"
  by (simp_all add: same_defs)

lemma same_trans:
  "same_log a b \<Longrightarrow> same_log b c \<Longrightarrow> same_log a c"
  "same_authority a b \<Longrightarrow> same_authority b c \<Longrightarrow> same_authority a c"
  "same_identity a b \<Longrightarrow> same_identity b c \<Longrightarrow> same_identity a c"
  by (simp_all add: same_defs)

lemma take_fault_frame:
  "take_fault op n = (f, n') \<Longrightarrow> same_log n n' \<and> same_authority n n' \<and> same_identity n n' \<and> nd_disk n' = nd_disk n \<and>
     nd_expected_source n' = nd_expected_source n \<and> nd_journal n' = nd_journal n"
  by (auto simp: take_fault_def Let_def same_defs)

lemma logged_frame:
  "logged r n n' \<Longrightarrow> nd_document n' = nd_document n \<and> nd_lsn n' = nd_lsn n \<and> same_authority n n' \<and> same_identity n n' \<and>
     nd_expected_source n' = nd_expected_source n \<and> nd_journal n' = nd_journal n"
  by (auto simp: logged_def same_defs)

lemma silent_frame:
  "node_hello clock n = (res, n') \<Longrightarrow> n' = n" "node_status dtoa clock n = (res, n') \<Longrightarrow> n' = n"
  "node_read_since body n = (res, n') \<Longrightarrow> n' = n" "node_readiness dtoa body n = (res, n') \<Longrightarrow> n' = n"
  by (auto simp: node_hello_def node_status_def node_read_since_def node_readiness_def Let_def checked_eq split: prod.splits)

lemma faults_frame: "node_faults body n = (res, n') \<Longrightarrow> same_log n n' \<and> same_authority n n' \<and> same_identity n n'"
  by (auto simp: node_faults_def set_fault_def Let_def same_defs split: option.splits if_splits)

lemma prepare_frame: "node_prepare clock body n = (res, n') \<Longrightarrow> same_log n n' \<and> same_authority n n' \<and> same_identity n n'"
proof -
  have s: "prepare_successor h body n = (res, n') \<Longrightarrow> same_log n n' \<and> same_authority n n' \<and> same_identity n n'" for h
    unfolding prepare_successor_def by (auto simp: checked_eq same_defs simp del: rbind_eq_Inr)
  have p: "prepare_predecessor clock h n = (res, n') \<Longrightarrow> same_log n n' \<and> same_authority n n' \<and> same_identity n n'" for h
    unfolding prepare_predecessor_def by (auto simp: same_defs split: option.splits if_splits)
  show "node_prepare clock body n = (res, n') \<Longrightarrow> ?thesis"
    unfolding node_prepare_def by (auto simp: checked_eq simp del: rbind_eq_Inr split: if_splits dest!: s p)
qed

lemma snapshot_frame:
  assumes "node_snapshot dtoa body n = (res, n')"
  shows "same_log n n' \<and> same_authority n n' \<and> same_identity n n'"
proof -
  obtain f m where m: "take_fault ''node.snapshot.corrupt'' n = (f, m)" by fastforce
  have "same_log m n' \<and> same_authority m n' \<and> same_identity m n' \<or> n' = n"
    using assms unfolding node_snapshot_def Let_def m prod.case
    by (auto simp: step_eqs same_defs simp del: rbind_eq_Inr split: option.splits dest!: save_state_frame)
  with take_fault_frame [OF m] show ?thesis by (auto intro: same_trans)
qed

lemma fence_frame: "node_fence dtoa body n = (res, n') \<Longrightarrow> same_log n n' \<and> same_identity n n'"
  unfolding node_fence_def Let_def
  by (auto simp: step_eqs same_defs simp del: rbind_eq_Inr split: if_splits dest!: save_state_frame)

lemma grant_frame: "node_grant_authority dtoa clock body n = (res, n') \<Longrightarrow> same_log n n' \<and> same_identity n n'"
  unfolding node_grant_authority_def Let_def by (auto simp: step_eqs same_defs simp del: rbind_eq_Inr dest!: save_state_frame)

lemma reattest_frame: "node_reattest clock body n = (res, n') \<Longrightarrow> same_log n n' \<and> same_identity n n'"
  unfolding node_reattest_def Let_def by (auto simp: step_eqs same_defs simp del: rbind_eq_Inr)

lemma retire_frame: "node_retire dtoa body n = (res, n') \<Longrightarrow> same_log n n' \<and> same_identity n n'"
  unfolding node_retire_def Let_def by (auto simp: step_eqs same_defs simp del: rbind_eq_Inr dest!: save_state_frame)

lemma read_frame: "node_read dtoa clock body n = (res, n') \<Longrightarrow> same_log n n' \<and> same_authority n n' \<and> same_identity n n'"
  unfolding node_read_def Let_def by (auto simp: step_eqs same_defs simp del: rbind_eq_Inr)

section \<open>The requests that change the document\<close>

text \<open>The authority that a write needs: a confirmed, unexpired mutating lease of a node that is neither
  retired nor fenced, and a claim that names the incarnation, the epoch, the generation and the token of
  that lease.\<close>

definition live_mutating_authority :: "(nat \<Rightarrow> TimestampMs) \<Rightarrow> AuthorityClaim \<Rightarrow> ControlPlaneNode \<Rightarrow> bool" where
  "live_mutating_authority clock claim n =
     (nd_lifecycle n \<noteq> NodeRetired \<and> nd_lifecycle n \<noteq> NodeFenced \<and> nd_lease_confirmed n \<and> claim_is_valid claim \<and>
      claim_incarnation claim = nd_incarnation n \<and>
      (case nd_lease n of
         None \<Rightarrow> False
       | Some l \<Rightarrow>
           clock 0 < expires_at_ms l \<and> lease_mode l = Mutating \<and> claim_epoch claim = lease_epoch l \<and>
           claim_generation claim = lease_generation l \<and> claim_token claim = lease_token l))"

lemma require_authority_Ok: "(require_authority clock claim Mutating n = Ok) = live_mutating_authority clock claim n"
  by (auto simp: require_authority_def live_mutating_authority_def authority_allows_mutation_def authority_allows_read_def
      split: option.splits)

definition presented_claim :: "json \<Rightarrow> AuthorityClaim Result" where
  "presented_claim body = rbind (require (json_find body ''claim'') InvalidArgument) authority_claim_from_json"

lemma presented_claim_never_ok: "presented_claim body \<noteq> Inl Ok"
  by (auto simp: presented_claim_def authority_claim_from_json_def incarnation_from_json_def name_from_json_def rbind_eq_Inl
      split: option.splits)

lemma advanced_frame:
  "nd_document (advanced r d n) = d" "nd_lsn (advanced r d n) = rr_lsn r" "same_authority n (advanced r d n)"
  "same_identity n (advanced r d n)" "nd_records (advanced r d n) = nd_records n" "nd_journal (advanced r d n) = nd_journal n"
  "nd_expected_source (advanced r d n) = nd_expected_source n" "nd_disk (advanced r d n) = nd_disk n"
  by (simp_all add: advanced_def same_defs)

lemma rr_lsn_written [simp]: "rr_lsn (written dtoa key val e g i l) = l"
  by (simp add: written_def Let_def)

lemma node_write_cases:
  assumes "node_write dtoa clock body n = (res, n')"
  obtains (refused) e where "res = Inl e" "e \<noteq> Ok" "same_log n n'" "nd_disk n' = nd_disk n" "same_authority n n'" "same_identity n n'"
      "nd_journal n' = nd_journal n" "nd_expected_source n' = nd_expected_source n"
  | (tried) claim key val lease m st where "presented_claim body = Inr claim" "live_mutating_authority clock claim n"
      "json_string body ''key'' = Some key" "json_string body ''value'' = Some val" "nd_lease n = Some lease"
      "apply_write dtoa key val (lease_epoch lease) (lease_generation lease) (nd_incarnation n) n = (st, m)"
      "st \<noteq> Ok \<and> res = Inl st \<and> n' = m \<or> st = Ok \<and> (\<exists>b. res = Inr b) \<and> n' = m\<lparr>nd_writes_applied := nd_writes_applied m + 1\<rparr>"
proof (cases "presented_claim body")
  case (Inl e)
  with assms have "res = Inl e" "n' = n" by (simp_all add: node_write_def presented_claim_def [symmetric] checked_def)
  with refused Inl presented_claim_never_ok [of body] show ?thesis by auto
next
  case (Inr claim)
  show ?thesis
  proof (cases "require_authority clock claim Mutating n = Ok")
    case False
    with assms Inr have "\<exists>e. res = Inl e \<and> e \<noteq> Ok" "n' = n\<lparr>nd_writes_refused := nd_writes_refused n + 1\<rparr>"
      by (auto simp: node_write_def presented_claim_def [symmetric] checked_def Let_def)
    with refused show ?thesis by (auto simp: same_defs)
  next
    case True
    then have live: "live_mutating_authority clock claim n" by (simp add: require_authority_Ok)
    then obtain lease where l: "nd_lease n = Some lease" by (auto simp: live_mutating_authority_def split: option.splits)
    show ?thesis
    proof (cases "\<exists>key val. json_string body ''key'' = Some key \<and> json_string body ''value'' = Some val \<and> key \<noteq> []")
      case False
      with assms Inr True have "res = Inl InvalidArgument" "n' = n"
        by (auto simp: node_write_def presented_claim_def [symmetric] checked_def Let_def split: option.splits if_splits)
      with refused show ?thesis by simp
    next
      case t: True
      then obtain key val where kv: "json_string body ''key'' = Some key" "json_string body ''value'' = Some val" "key \<noteq> []" by blast
      obtain st m where w: "apply_write dtoa key val (lease_epoch lease) (lease_generation lease) (nd_incarnation n) n = (st, m)"
        by fastforce
      have "st \<noteq> Ok \<and> res = Inl st \<and> n' = m \<or> st = Ok \<and> (\<exists>b. res = Inr b) \<and> n' = m\<lparr>nd_writes_applied := nd_writes_applied m + 1\<rparr>"
        using assms Inr True kv l w by (auto simp: node_write_def presented_claim_def [symmetric] checked_def saved_def Let_def split: if_splits)
      with tried [OF Inr live kv(1,2) l w] show ?thesis .
    qed
  qed
qed

text \<open>A write that changes anything has the authority and changes exactly the written key.\<close>

lemma node_write_effect:
  assumes "node_write dtoa clock body n = (res, n')" "nd_document n' \<noteq> nd_document n \<or> nd_lsn n' \<noteq> nd_lsn n \<or> (\<exists>b. res = Inr b)"
  shows "\<exists>claim key val. presented_claim body = Inr claim \<and> live_mutating_authority clock claim n \<and>
    json_string body ''key'' = Some key \<and> json_string body ''value'' = Some val \<and>
    doc_put key val (nd_document n) = (nd_document n', Ok) \<and> tagged_next (nd_lsn n) = Some (nd_lsn n')"
  using assms(1)
proof (cases rule: node_write_cases)
  case refused
  with assms(2) show ?thesis by (simp add: same_defs)
next
  case (tried claim key val lease m st)
  have same: "nd_document n' = nd_document m" "nd_lsn n' = nd_lsn m" using tried(7) by auto
  from tried(6) show ?thesis
  proof (cases rule: apply_write_cases)
    case 1
    with assms(2) tried(7) same show ?thesis by auto
  next
    case (2 nxt d)
    then have "nd_document m = d" "nd_lsn m = nxt" using logged_frame advanced_frame by (metis, metis rr_lsn_written)
    with 2 tried same show ?thesis by auto
  qed
qed

lemma require_prepared_Inr:
  "require_prepared body n = Inr (h, expected) \<Longrightarrow>
     nd_expected_source n = Some expected \<and> json_u64 body ''handoff'' = Some (sb_handoff expected)"
  by (auto simp: require_prepared_def parse_handoff_id_def positive_Some)

lemma install_effect:
  assumes "node_install_snapshot dtoa body n = (res, n')"
  obtains (refused) e where "res = Inl e" "n' = n"
  | (installed) expected where "nd_expected_source n = Some expected" "json_u64 body ''handoff'' = Some (sb_handoff expected)"
      "incoming_snapshot body = Inr (nd_document n', nd_lsn n', snapshot_digest dtoa (nd_document n') (nd_lsn n'))"
      "doc_schema (nd_document n') = sb_schema expected" "nd_records n' = []" "same_authority n n'" "same_identity n n'"
      "nd_expected_source n' = nd_expected_source n" "nd_journal n' = nd_journal n"
proof -
  from assms consider (A) e where "res = Inl e" "n' = n"
    | (B) h expected incoming lsn n1 s1 where "require_prepared body n = Inr (h, expected)"
      "incoming_snapshot body = Inr (incoming, lsn, snapshot_digest dtoa incoming lsn)" "doc_schema incoming = sb_schema expected"
      "on_disk (disk_write_atomic (records_path n) []) (n\<lparr>nd_document := incoming, nd_lsn := lsn, nd_operation_id := lsn, nd_records := []\<rparr>) = (s1, n1)"
      "n' = n1 \<or> (\<exists>s. save_state dtoa (n1\<lparr>nd_recorded_snapshot_digest := snapshot_digest dtoa incoming lsn, nd_last_snapshot_lsn := lsn\<rparr>) = (s, n'))"
    unfolding node_install_snapshot_def Let_def by (fastforce simp: step_eqs records_path_def)
  then show ?thesis
  proof cases
    case A
    with refused show ?thesis .
  next
    case B
    from on_disk_frame [OF B(4)] B(5) have "nd_document n' = incoming" "nd_lsn n' = lsn" "nd_records n' = []" "same_authority n n'"
      "same_identity n n'" "nd_expected_source n' = nd_expected_source n" "nd_journal n' = nd_journal n"
      by (auto simp: same_defs dest!: save_state_frame)
    with B installed require_prepared_Inr show ?thesis by blast
  qed
qed

lemma apply_entry_alt:
  "apply_entry dtoa expected j n =
     (case record_from_json dtoa j of
        Inl e \<Rightarrow> (e, n)
      | Inr entry \<Rightarrow>
          if rr_origin entry \<noteq> sb_source expected then (StaleIncarnation, n)
          else if tagged_next (nd_lsn n) \<noteq> Some (rr_lsn entry) then (NotReady, n)
          else
            (case doc_put (rr_key entry) (rr_value entry) (nd_document n) of
               (d, put) \<Rightarrow> if put \<noteq> Ok then (put, n) else append_record_entry dtoa entry (advanced entry d n)))"
  unfolding apply_entry_def advanced_def by (cases n) (auto split: sum.splits prod.splits dest: doc_put_refused)

lemma apply_entry_cases:
  assumes "apply_entry dtoa expected j n = (st, n')"
  obtains "n' = n"
  | entry d where "record_from_json dtoa j = Inr entry" "rr_origin entry = sb_source expected"
      "tagged_next (nd_lsn n) = Some (rr_lsn entry)" "doc_put (rr_key entry) (rr_value entry) (nd_document n) = (d, Ok)"
      "append_record_entry dtoa entry (advanced entry d n) = (st, n')"
  using assms unfolding apply_entry_alt by (auto split: sum.splits if_splits prod.splits)

text \<open>What applying records keeps, whatever the records are.\<close>

definition replicating :: "ControlPlaneNode \<Rightarrow> ControlPlaneNode \<Rightarrow> bool" where
  "replicating n n' = (same_authority n n' \<and> same_identity n n' \<and> nd_expected_source n' = nd_expected_source n \<and> nd_journal n' = nd_journal n)"

lemma replicating_trans: "replicating a b \<Longrightarrow> replicating b c \<Longrightarrow> replicating a c" "replicating a a"
  unfolding replicating_def by (auto intro: same_trans)

lemma apply_entry_frame: "apply_entry dtoa expected j n = (st, n') \<Longrightarrow> replicating n n'"
  by (erule apply_entry_cases)
    (auto simp: replicating_def dest!: append_logged logged_frame intro: same_trans advanced_frame simp: advanced_frame)

lemma apply_entries_frame: "apply_entries dtoa expected js n = (st, n') \<Longrightarrow> replicating n n'"
proof (induction js arbitrary: n)
  case Nil
  then show ?case by (simp add: replicating_trans)
next
  case (Cons j js)
  then obtain s m where "apply_entry dtoa expected j n = (s, m)" "n' = m \<or> apply_entries dtoa expected js m = (st, n')"
    by (auto simp: and_then_eq)
  with Cons.IH apply_entry_frame replicating_trans(1) show ?case by metis
qed

lemma apply_records_cases:
  assumes "node_apply_records dtoa body n = (res, n')"
  obtains (refused) e where "res = Inl e" "n' = n"
  | (applied) expected source binding entries st m where "nd_expected_source n = Some expected"
      "json_u64 body ''handoff'' = Some (sb_handoff expected)" "json_find body ''source'' = Some source"
      "parse_source_binding source = Inr binding" "binding_matches binding expected"
      "json_find body ''records'' = Some (JArray entries)" "length entries \<le> opt_max_records_per_response (nd_options n)"
      "apply_entries dtoa expected entries n = (st, m)"
      "st \<noteq> Ok \<and> res = Inl st \<and> n' = m \<or>
       st = Ok \<and> (\<exists>s. save_state dtoa m = (s, n') \<and> (if s = Ok then \<exists>b. res = Inr b else res = Inl s))"
proof -
  have arr: "is_array j \<Longrightarrow> \<exists>xs. j = JArray xs" for j by (cases j) (auto simp: is_array_def)
  have m: "binding_matches (b\<lparr>sb_handoff := h\<rparr>) e = binding_matches b e" for b h e by (simp add: binding_matches_def)
  have len: "json_size (JArray xs) = length xs" for xs by (simp add: json_size_def try_array_def)
  let ?r = "rbind (require_prepared body n) (\<lambda>(handoff, expected).
        rbind (require (json_find body ''source'') InvalidArgument) (\<lambda>source.
        rbind (parse_source_binding source) (\<lambda>binding.
        rbind (guard (binding_matches (binding\<lparr>sb_handoff := handoff\<rparr>) expected) StaleGeneration) (\<lambda>_.
        rbind (require (json_find body ''records'') InvalidArgument) (\<lambda>entries.
        rbind (guard (is_array entries) InvalidArgument) (\<lambda>_.
        rbind (guard (json_size entries \<le> opt_max_records_per_response (nd_options n)) BoundsExceeded) (\<lambda>_.
        Inr (expected, map (json_at entries) [0..<json_size entries]))))))))"
  show ?thesis
  proof (cases ?r)
    case (Inl e)
    with assms have "res = Inl e" "n' = n" by (simp_all add: node_apply_records_def checked_def)
    with refused show ?thesis .
  next
    case (Inr x)
    obtain expected js where x: "x = (expected, js)" by (cases x)
    with Inr obtain h source binding entries where r: "require_prepared body n = Inr (h, expected)"
        "json_find body ''source'' = Some source" "parse_source_binding source = Inr binding" "binding_matches binding expected"
        "json_find body ''records'' = Some entries" "is_array entries"
        "json_size entries \<le> opt_max_records_per_response (nd_options n)" "js = map (json_at entries) [0..<json_size entries]"
      by (auto simp: m)
    obtain xs where xs: "entries = JArray xs" using arr r(6) by blast
    then have js: "js = xs" using r(8) by (simp add: json_elements)
    obtain st m where w: "apply_entries dtoa expected xs n = (st, m)" by fastforce
    have "st \<noteq> Ok \<and> res = Inl st \<and> n' = m \<or>
       st = Ok \<and> (\<exists>s. save_state dtoa m = (s, n') \<and> (if s = Ok then \<exists>b. res = Inr b else res = Inl s))"
      using assms Inr x js w by (auto simp: node_apply_records_def checked_def saved_eq)
    with applied r require_prepared_Inr [OF r(1)] xs w len show ?thesis by simp
  qed
qed

lemma apply_records_frame: "node_apply_records dtoa body n = (res, n') \<Longrightarrow> replicating n n'"
proof (erule apply_records_cases)
  fix expected entries st m assume "apply_entries dtoa expected entries n = (st, m)"
    "st \<noteq> Ok \<and> res = Inl st \<and> n' = m \<or>
       st = Ok \<and> (\<exists>s. save_state dtoa m = (s, n') \<and> (if s = Ok then \<exists>b. res = Inr b else res = Inl s))"
  moreover have "save_state dtoa m = (s, n') \<Longrightarrow> replicating m n'" for s
    by (auto simp: replicating_def same_defs dest!: save_state_frame)
  ultimately show "replicating n n'" using apply_entries_frame replicating_trans(1) by blast
qed (simp add: replicating_trans)

lemma journal_steps_frame: "journal_steps clock i rs n = (st, n') \<Longrightarrow> \<exists>j. n' = n\<lparr>nd_journal := j\<rparr>"
proof (induction rs arbitrary: i n)
  case Nil
  then show ?case by (intro exI [of _ "nd_journal n"]) simp
next
  case (Cons r rs)
  obtain j s where j: "journal_record (journal_entry_of (clock i) n r) (nd_journal n) = (j, s)" by fastforce
  with Cons.prems have "n' = n\<lparr>nd_journal := j\<rparr> \<or> journal_steps clock (Suc i) rs (n\<lparr>nd_journal := j\<rparr>) = (st, n')"
    by (auto simp: and_then_def split: if_splits)
  then show ?case using Cons.IH [of "Suc i" "n\<lparr>nd_journal := j\<rparr>"] by fastforce
qed

lemma migrate_cases:
  assumes "node_migrate dtoa clock body n = (res, n')"
  obtains (refused) e where "res = Inl e" "n' = n"
  | (migrated) h path outcome where "migrate_request body = Inr (h, path)"
      "migrate_forward dtoa path (nd_document n) = (nd_document n', Inr outcome)" "nd_lsn n' = nd_lsn n" "nd_records n' = nd_records n"
      "same_authority n n'" "same_identity n n'" "nd_expected_source n' = nd_expected_source n"
      "\<exists>st m. journal_steps clock 0 (mo_steps outcome) (n\<lparr>nd_document := nd_document n'\<rparr>) = (st, m) \<and> nd_journal n' = nd_journal m"
proof (cases "migrate_request body")
  case (Inl e)
  with assms have "res = Inl e" "n' = n" by (simp_all add: node_migrate_def checked_def)
  with refused show ?thesis .
next
  case (Inr x)
  obtain h path where x: "x = (h, path)" by (cases x)
  obtain w r where f: "migrate_forward dtoa path (nd_document n) = (w, r)" by fastforce
  show ?thesis
  proof (cases r)
    case (Inl e)
    with assms Inr x f have "res = Inl e" "n' = n" by (simp_all add: node_migrate_def checked_def)
    with refused show ?thesis .
  next
    case r: (Inr outcome)
    obtain st m where j: "journal_steps clock 0 (mo_steps outcome) (n\<lparr>nd_document := w\<rparr>) = (st, m)" by fastforce
    from assms Inr x f r j have "n' = m \<or> (\<exists>s. save_state dtoa m = (s, n'))"
      by (auto simp: node_migrate_def checked_def saved_eq)
    then obtain d where "n' = m \<or> n' = m\<lparr>nd_disk := d\<rparr>" using save_state_frame by blast
    moreover obtain jj where "m = n\<lparr>nd_document := w, nd_journal := jj\<rparr>" using journal_steps_frame [OF j] by auto
    ultimately have "nd_document n' = w" "nd_lsn n' = nd_lsn n" "nd_records n' = nd_records n" "same_authority n n'"
      "same_identity n n'" "nd_expected_source n' = nd_expected_source n" "nd_journal n' = nd_journal m" by (auto simp: same_defs)
    with migrated Inr x f r j show ?thesis by blast
  qed
qed

section \<open>Frames of the dispatcher\<close>

lemma write_frame: "node_write dtoa clock body n = (res, n') \<Longrightarrow> replicating n n'"
proof (erule node_write_cases)
  fix claim key val lease m st
  assume w: "apply_write dtoa key val (lease_epoch lease) (lease_generation lease) (nd_incarnation n) n = (st, m)"
    and n': "st \<noteq> Ok \<and> res = Inl st \<and> n' = m \<or> st = Ok \<and> (\<exists>b. res = Inr b) \<and> n' = m\<lparr>nd_writes_applied := nd_writes_applied m + 1\<rparr>"
  from w have "replicating n m"
  proof (cases rule: apply_write_cases)
    case (2 nxt d)
    let ?r = "written dtoa key val (lease_epoch lease) (lease_generation lease) (nd_incarnation n) nxt"
    have "replicating n (advanced ?r d n)" by (simp add: replicating_def advanced_frame)
    moreover have "replicating (advanced ?r d n) m" using logged_frame [OF 2(3)] by (simp add: replicating_def)
    ultimately show ?thesis by (rule replicating_trans)
  qed (simp add: replicating_trans)
  moreover have "replicating m n'" using n' by (auto simp: replicating_def same_defs)
  ultimately show "replicating n n'" by (rule replicating_trans)
qed (simp add: replicating_def)

lemma dispatch_identity: "node_dispatch dtoa clock op body n = (res, n') \<Longrightarrow> same_identity n n'"
  unfolding node_dispatch_def
  by (auto split: if_splits simp: replicating_def dest!: silent_frame faults_frame prepare_frame snapshot_frame fence_frame grant_frame
      reattest_frame retire_frame read_frame apply_records_frame write_frame elim!: install_effect migrate_cases)

lemma dispatch_log:
  assumes "node_dispatch dtoa clock op body n = (res, n')"
    and "op \<notin> {''node.write'', ''node.install_snapshot'', ''node.apply_records'', ''node.migrate''}"
  shows "same_log n n'"
  using assms unfolding node_dispatch_def
  by (auto split: if_splits dest!: silent_frame faults_frame prepare_frame snapshot_frame fence_frame grant_frame
      reattest_frame retire_frame read_frame)

lemma dispatch_authority:
  assumes "node_dispatch dtoa clock op body n = (res, n')"
    and "op \<notin> {''node.fence'', ''node.grant_authority'', ''node.reattest'', ''node.retire''}"
  shows "same_authority n n'"
  using assms unfolding node_dispatch_def
  by (auto split: if_splits simp: replicating_def dest!: silent_frame faults_frame prepare_frame snapshot_frame read_frame
      apply_records_frame write_frame elim!: install_effect migrate_cases)

text \<open>A handled request: an injected failure, or the dispatched request on a node that differs in its
  faults only.\<close>

lemma node_handle_cases:
  assumes "node_handle dtoa clock req n = (resp, n')"
  obtains m where "same_log n m" "same_authority n m" "same_identity n m" "nd_disk m = nd_disk n" "nd_expected_source m = nd_expected_source n"
    "nd_journal m = nd_journal n"
    "rs_status resp = Internal \<and> n' = m \<or>
     (\<exists>res. node_dispatch dtoa clock (rq_op req) (rq_body req) m = (res, n') \<and> rs_status resp = result_status res)"
proof -
  obtain f m where m: "take_fault (rq_op req) n = (f, m)" by fastforce
  obtain res n2 where d: "node_dispatch dtoa clock (rq_op req) (rq_body req) m = (res, n2)" by fastforce
  have "rs_status resp = Internal \<and> n' = m \<or>
     (\<exists>res. node_dispatch dtoa clock (rq_op req) (rq_body req) m = (res, n') \<and> rs_status resp = result_status res)"
    using assms unfolding node_handle_def m prod.case d
    by (auto simp: reply_to_def result_status_def split: if_splits)
  with that take_fault_frame [OF m] show ?thesis by blast
qed

end
