(* ===== verification/Node_Safety.thy ===== *)
theory Node_Safety
  imports Node_Frame
begin

text \<open>
  Safety of the control-plane node: what may change its replicated state, and that a fenced or retired node
  refuses writes until it is granted authority again.
\<close>

section \<open>Every change of the state is justified\<close>

lemma live_cong: "same_authority n m \<Longrightarrow> same_identity n m \<Longrightarrow> live_mutating_authority clock claim m = live_mutating_authority clock claim n"
  by (simp add: live_mutating_authority_def same_defs)

text \<open>C16: The replicated state of a node changes only for a reason. When handling a request changes the document
  or the log position, then the request is a write, whose claim names the live, confirmed, unexpired mutating
  lease of a node that is neither fenced nor retired, and that puts exactly its key; or it installs a snapshot
  for the prepared handoff, whose digest is that of the received contents and whose schema is the declared one;
  or it applies records that present the source binding the node was prepared for; or it is a migration, which
  leaves the log position and installs the outcome of the declared steps.\<close>

theorem node_changes_justified:
  assumes "node_handle dtoa clock req n = (resp, n')" "nd_document n' \<noteq> nd_document n \<or> nd_lsn n' \<noteq> nd_lsn n"
  shows "rq_op req = ''node.write'' \<and>
      (\<exists>claim key val. presented_claim (rq_body req) = Inr claim \<and> live_mutating_authority clock claim n \<and>
         json_string (rq_body req) ''key'' = Some key \<and> json_string (rq_body req) ''value'' = Some val \<and>
         doc_put key val (nd_document n) = (nd_document n', Ok) \<and> tagged_next (nd_lsn n) = Some (nd_lsn n')) \<or>
    rq_op req = ''node.install_snapshot'' \<and>
      (\<exists>expected. nd_expected_source n = Some expected \<and> json_u64 (rq_body req) ''handoff'' = Some (sb_handoff expected) \<and>
         incoming_snapshot (rq_body req) = Inr (nd_document n', nd_lsn n', snapshot_digest dtoa (nd_document n') (nd_lsn n')) \<and>
         doc_schema (nd_document n') = sb_schema expected) \<or>
    rq_op req = ''node.apply_records'' \<and>
      (\<exists>expected source binding. nd_expected_source n = Some expected \<and>
         json_u64 (rq_body req) ''handoff'' = Some (sb_handoff expected) \<and> json_find (rq_body req) ''source'' = Some source \<and>
         parse_source_binding source = Inr binding \<and> binding_matches binding expected) \<or>
    rq_op req = ''node.migrate'' \<and> nd_lsn n' = nd_lsn n \<and>
      (\<exists>handoff path outcome. migrate_request (rq_body req) = Inr (handoff, path) \<and>
         migrate_forward dtoa path (nd_document n) = (nd_document n', Inr outcome))"
proof -
  from assms(1) obtain m where m: "same_log n m" "same_authority n m" "same_identity n m" "nd_expected_source m = nd_expected_source n"
    and c: "n' = m \<or> (\<exists>res. node_dispatch dtoa clock (rq_op req) (rq_body req) m = (res, n'))"
    by (rule node_handle_cases) blast
  have ch: "nd_document n' \<noteq> nd_document m \<or> nd_lsn n' \<noteq> nd_lsn m" using assms(2) m(1) by (simp add: same_log_def)
  then obtain res where d: "node_dispatch dtoa clock (rq_op req) (rq_body req) m = (res, n')" using c by blast
  have "rq_op req \<in> {''node.write'', ''node.install_snapshot'', ''node.apply_records'', ''node.migrate''}"
    using dispatch_log [OF d] ch by (auto simp: same_log_def)
  then consider (W) "rq_op req = ''node.write''" | (I) "rq_op req = ''node.install_snapshot''"
    | (A) "rq_op req = ''node.apply_records''" | (G) "rq_op req = ''node.migrate''" by blast
  then show ?thesis
  proof cases
    case W
    with d have "node_write dtoa clock (rq_body req) m = (res, n')" by (simp add: node_dispatch_def)
    from node_write_effect [OF this] ch W m live_cong [OF m(2,3)] show ?thesis by (auto simp: same_log_def)
  next
    case I
    with d have i: "node_install_snapshot dtoa (rq_body req) m = (res, n')" by (simp add: node_dispatch_def)
    from i show ?thesis by (rule install_effect) (use ch I m in auto)
  next
    case A
    with d have "node_apply_records dtoa (rq_body req) m = (res, n')" by (simp add: node_dispatch_def)
    then show ?thesis by (rule apply_records_cases) (use ch A m in auto)
  next
    case G
    with d have "node_migrate dtoa clock (rq_body req) m = (res, n')" by (simp add: node_dispatch_def)
    then show ?thesis by (rule migrate_cases) (use ch G m in \<open>auto simp: same_log_def\<close>)
  qed
qed

section \<open>A fenced node\<close>

text \<open>Requests, each with the clock readings it sees.\<close>

type_synonym timed_request = "(nat \<Rightarrow> TimestampMs) \<times> RpcRequest"

definition node_step :: "(u64 \<Rightarrow> string) \<Rightarrow> ControlPlaneNode \<Rightarrow> timed_request \<Rightarrow> ControlPlaneNode" where
  "node_step dtoa n x = snd (node_handle dtoa (fst x) (snd x) n)"

definition out_of_service :: "ControlPlaneNode \<Rightarrow> bool" where
  "out_of_service n = (nd_lifecycle n = NodeFenced \<or> nd_lifecycle n = NodeRetired)"

lemma fence_lifecycle: "node_fence dtoa body n = (res, n') \<Longrightarrow> nd_lifecycle n' = nd_lifecycle n \<or> nd_lifecycle n' = NodeFenced"
  unfolding node_fence_def by (auto simp: step_eqs simp del: rbind_eq_Inr split: if_splits dest!: save_state_frame)

lemma retire_lifecycle: "node_retire dtoa body n = (res, n') \<Longrightarrow> nd_lifecycle n' = nd_lifecycle n \<or> nd_lifecycle n' = NodeRetired"
  unfolding node_retire_def by (auto simp: step_eqs dest!: save_state_frame)

lemma reattest_lifecycle: "node_reattest clock body n = (res, n') \<Longrightarrow> nd_lifecycle n' = nd_lifecycle n"
  unfolding node_reattest_def by (auto simp: checked_eq simp del: rbind_eq_Inr)

lemma dispatch_out_of_service:
  assumes "node_dispatch dtoa clock op body n = (res, n')" "op \<noteq> ''node.grant_authority''" "out_of_service n"
  shows "out_of_service n'"
proof -
  consider "op = ''node.fence''" | "op = ''node.retire''" | "op = ''node.reattest''"
    | "op \<notin> {''node.fence'', ''node.grant_authority'', ''node.reattest'', ''node.retire''}" using assms(2) by blast
  then show ?thesis
  proof cases
    case 4
    from dispatch_authority [OF assms(1) 4] assms(3) show ?thesis by (simp add: same_authority_def out_of_service_def)
  qed (use assms in \<open>auto simp: node_dispatch_def out_of_service_def dest!: fence_lifecycle retire_lifecycle reattest_lifecycle\<close>)
qed

lemma handle_out_of_service:
  assumes "rq_op req \<noteq> ''node.grant_authority''" "out_of_service n" "node_handle dtoa clock req n = (resp, n')"
  shows "out_of_service n'"
proof -
  from assms(3) obtain m where m: "same_authority n m"
      "n' = m \<or> (\<exists>res. node_dispatch dtoa clock (rq_op req) (rq_body req) m = (res, n'))"
    by (rule node_handle_cases) blast
  moreover have "out_of_service m" using assms(2) m(1) by (simp add: same_authority_def out_of_service_def)
  ultimately show ?thesis using dispatch_out_of_service assms(1) by blast
qed

interpretation fenced_node: invariant_machine "node_step dtoa" "\<lambda>_ x. rq_op (snd x) \<noteq> ''node.grant_authority''" out_of_service for dtoa
  by unfold_locales (metis handle_out_of_service node_step_def prod.collapse)

lemma admissible_requests:
  "(\<forall>x \<in> set xs. rq_op (snd x) \<noteq> ''node.grant_authority'') \<Longrightarrow> fenced_node.admissible dtoa n xs"
  by (induction xs arbitrary: n) auto

lemma fenced_refusals:
  assumes "out_of_service n" "\<forall>x \<in> set xs. rq_op (snd x) \<noteq> ''node.grant_authority''"
    and "node_handle dtoa clock req (foldl (node_step dtoa) n xs) = (resp, n')"
  shows "(rq_op req = ''node.write'' \<longrightarrow> rs_status resp \<noteq> Ok \<and> same_log (foldl (node_step dtoa) n xs) n') \<and>
    (rq_op req = ''node.read'' \<and> \<not> json_bool_or (rq_body req) ''allow_stale'' False \<longrightarrow> rs_status resp \<noteq> Ok)"
proof -
  let ?n = "foldl (node_step dtoa) n xs"
  have "out_of_service ?n" using assms(1,2) by (intro fenced_node.inv_run admissible_requests)
  obtain m where m: "same_log ?n m" "same_authority ?n m"
      and c: "rs_status resp = Internal \<and> n' = m \<or>
        (\<exists>res. node_dispatch dtoa clock (rq_op req) (rq_body req) m = (res, n') \<and> rs_status resp = result_status res)"
    using assms(3) by (rule node_handle_cases) blast
  have out: "out_of_service m" using \<open>out_of_service ?n\<close> m(2) by (simp add: same_authority_def out_of_service_def)
  have w: "\<exists>e. res = Inl e \<and> e \<noteq> Ok \<and> same_log m n'" if "node_write dtoa clock body m = (res, n')" for body res
  proof (cases "presented_claim body")
    case (Inl e)
    with that presented_claim_never_ok [of body] show ?thesis
      by (auto simp: node_write_def presented_claim_def [symmetric] checked_def)
  next
    case (Inr claim)
    have "require_authority clock claim Mutating m \<in> {NotAuthoritative, StaleAuthority}"
      using out by (auto simp: out_of_service_def require_authority_def)
    with that Inr show ?thesis
      by (auto simp: node_write_def presented_claim_def [symmetric] checked_def Let_def same_defs split: if_splits)
  qed
  have W: "rq_op req = ''node.write'' \<longrightarrow> rs_status resp \<noteq> Ok \<and> same_log ?n n'"
  proof
    assume op: "rq_op req = ''node.write''"
    from c show "rs_status resp \<noteq> Ok \<and> same_log ?n n'"
    proof (elim disjE exE conjE)
      fix res assume "node_dispatch dtoa clock (rq_op req) (rq_body req) m = (res, n')" "rs_status resp = result_status res"
      with op w [of "rq_body req" res] same_trans(1) [OF m(1)] show ?thesis by (auto simp: node_dispatch_def result_status_def)
    qed (use m(1) in simp_all)
  qed
  have "rq_op req = ''node.read'' \<and> \<not> json_bool_or (rq_body req) ''allow_stale'' False \<longrightarrow> rs_status resp \<noteq> Ok"
    using c out by (auto simp: node_dispatch_def node_read_def checked_eq out_of_service_def result_status_def rbind_eq_Inl Let_def)
  with W show ?thesis by (rule conjI)
qed

text \<open>C17: A fenced or retired node refuses every write until it is granted authority again. Along any sequence of
  requests without \<^verbatim>\<open>node.grant_authority\<close> (re-attestations, fences, migrations, fault injections included),
  whatever the clock shows, the answer to a following write is a refusal and it changes neither the document
  nor the log position; an authoritative read is refused as well.\<close>

theorem fenced_until_granted:
  assumes "out_of_service n" "\<forall>x \<in> set xs. rq_op (snd x) \<noteq> ''node.grant_authority''"
    and "node_handle dtoa clock req (foldl (node_step dtoa) n xs) = (resp, n')"
  shows "(rq_op req = ''node.write'' \<longrightarrow> rs_status resp \<noteq> Ok \<and> same_log (foldl (node_step dtoa) n xs) n') \<and>
    (rq_op req = ''node.read'' \<and> \<not> json_bool_or (rq_body req) ''allow_stale'' False \<longrightarrow> rs_status resp \<noteq> Ok)"
  using assms by (rule fenced_refusals)

section \<open>Retirement\<close>

text \<open>A migration asks for no authority: it changes the document of a retired or fenced node as well.\<close>

lemma retired_node_migrates:
  assumes "migrate_request body = Inr (h, path)" "migrate_forward dtoa path (nd_document n) = (d, Inr outcome)"
    "node_migrate dtoa clock body n = (res, n')"
  shows "nd_document n' = d"
  using assms(3) by (auto simp: node_migrate_def assms(1,2) checked_def saved_eq dest!: journal_steps_frame save_state_frame)

end
