(* ===== verification/Node_Durable.thy ===== *)
theory Node_Durable
  imports Node_Safety
begin

text \<open>
  Durability of the node: what the state file gives back at a restart, the crash safety of a write, the identity
  across boots, and the cases in which a saved state is not read back.
\<close>

section \<open>The state file\<close>

text \<open>A state that a restart can read back: within the limits of the parser and of the document, with a
  schema and a journal of valid entries.\<close>

definition storable :: "(u64 \<Rightarrow> string) \<Rightarrow> (string \<Rightarrow> u64 option) \<Rightarrow> ControlPlaneNode \<Rightarrow> bool" where
  "storable dtoa strtod n =
     (prints_back dtoa strtod (state_json n) \<and> doc_wf (nd_document n) \<and> doc_schema (nd_document n) \<noteq> 0 \<and>
      list_all journal_entry_wf (records (nd_journal n)) \<and> length (records (nd_journal n)) \<le> 1024 \<and>
      length (dump dtoa (state_json n)) \<le> kMaxIntegrityPayloadBytes)"

lemma put_entries_sorted:
  assumes "doc_wf \<lparr>doc_schema = s, doc_fields = m0 @ m\<rparr>"
  shows "put_entries e (map (\<lambda>(k, v). (k, JString v)) m) \<lparr>doc_schema = s, doc_fields = m0\<rparr> =
    Inr \<lparr>doc_schema = s, doc_fields = m0 @ m\<rparr>"
proof -
  have "put_entries e (map (\<lambda>(k, v). (k, JString v)) m) d = put_fields (map (\<lambda>(k, v). (k, JString v)) m) d" for d
    by (induction m arbitrary: d) (auto simp: codec_simps split: prod.splits)
  with put_fields_sorted [OF assms] show ?thesis by simp
qed

lemma fields_to_json_wf: "omap_wf m \<Longrightarrow> fields_to_json m = JObject (map (\<lambda>(k, v). (k, JString v)) m)"
  using json_of_fields [of "[]" m] by (simp add: fields_to_json_def)

lemma put_entries_document:
  assumes "doc_wf d"
  shows "put_entries e (map (\<lambda>(k, v). (k, JString v)) (doc_fields d)) \<lparr>doc_schema = doc_schema d, doc_fields = []\<rparr> = Inr d"
  using put_entries_sorted [of "doc_schema d" "[]" "doc_fields d" e] assms by (cases d) simp

lemma state_json_fields:
  "json_find (state_json n) ''fields'' = Some (fields_to_json (doc_fields (nd_document n)))"
  "json_u64 (state_json n) ''schema'' = Some (ucast (doc_schema (nd_document n)))"
  "json_u64_or (state_json n) ''lsn'' 0 = nd_lsn n"
  "json_u64_or (state_json n) ''operation_id'' 0 = nd_operation_id n"
  "json_bool_or (state_json n) ''retired'' False = nd_retired_marker n"
  "json_find (state_json n) ''migration_journal'' = Some (journal_to_json (nd_journal n))"
  "json_u64_or (state_json n) ''snapshot_lsn'' 0 = nd_last_snapshot_lsn n"
  "json_u64_or (state_json n) ''snapshot_id'' 0 = nd_last_snapshot_id n"
  "json_string (state_json n) ''snapshot_digest'' = Some (to_hex (nd_recorded_snapshot_digest n))"
  "json_find (state_json n) ''lease'' = map_option lease_to_json (nd_lease n)"
  by (simp_all add: state_json_def Let_def json_field_defs codec_simps split: option.split)

lemma stored_document_round_trip: "storable dtoa strtod n \<Longrightarrow> stored_document (state_json n) = Inr (nd_document n)"
  by (simp add: stored_document_def state_json_fields fields_to_json_wf try_object_def storable_def codec_simps put_entries_document)

lemma restore_frames:
  "nd_document (restore_snapshot_fields j n) = nd_document n" "nd_lsn (restore_snapshot_fields j n) = nd_lsn n"
  "nd_retired_marker (restore_snapshot_fields j n) = nd_retired_marker n" "nd_lease (restore_snapshot_fields j n) = nd_lease n"
  "nd_operation_id (restore_snapshot_fields j n) = nd_operation_id n" "nd_journal (restore_snapshot_fields j n) = nd_journal n"
  "nd_document (restore_node_lease j n) = nd_document n" "nd_lsn (restore_node_lease j n) = nd_lsn n"
  "nd_retired_marker (restore_node_lease j n) = nd_retired_marker n" "nd_operation_id (restore_node_lease j n) = nd_operation_id n"
  "nd_journal (restore_node_lease j n) = nd_journal n"
  by (auto simp: restore_snapshot_fields_def restore_node_lease_def Let_def split: option.splits sum.splits)

text \<open>What a load finds in a state that was saved.\<close>

definition restored_from :: "ControlPlaneNode \<Rightarrow> ControlPlaneNode \<Rightarrow> bool" where
  "restored_from n m =
     (nd_document m = nd_document n \<and> nd_lsn m = nd_lsn n \<and>
      nd_retired_marker m = nd_retired_marker n \<and> records (nd_journal m) = records (nd_journal n))"

lemma restore_saved:
  assumes "storable dtoa strtod n" "capacity (nd_journal m0) = 1024"
  shows "\<exists>m. restore_state (state_json n) m0 = (Ok, m) \<and> restored_from n m"
proof -
  have j: "journal_load (journal_to_json (nd_journal n)) j0 = (j0\<lparr>records := records (nd_journal n)\<rparr>, Ok)" if "capacity j0 = 1024" for j0
    using assms(1) that journal_codec.array_round_trip [of "records (nd_journal n)"]
    by (simp add: journal_load_def journal_to_json_def codec_simps json_elements trim_front_drop storable_def)
  have jj: "journal_load (journal_to_json (nd_journal n)) (nd_journal m0) = ((nd_journal m0)\<lparr>records := records (nd_journal n)\<rparr>, Ok)"
    by (rule j [OF assms(2)])
  show ?thesis
    by (simp add: restore_state_def stored_document_round_trip [OF assms(1)] state_json_fields and_then_def Let_def jj
        restored_from_def restore_frames)
qed

text \<open>A fresh object over the file system \<open>fs\<close>.\<close>

definition fresh_on :: "NodeOptions \<Rightarrow> Disk \<Rightarrow> FileSystem \<Rightarrow> ControlPlaneNode" where
  "fresh_on options d fs = node_new options (d\<lparr>dk_fs := fs\<rparr>)"

lemma fresh_on_simps [simp]:
  "dk_fs (nd_disk (fresh_on o' d fs)) = fs" "nd_options (fresh_on o' d fs) = o'" "capacity (nd_journal (fresh_on o' d fs)) = 1024"
  "nd_lease (fresh_on o' d fs) = None" "nd_lease_confirmed (fresh_on o' d fs) = False" "nd_lifecycle (fresh_on o' d fs) = NodeUnopened"
  by (simp_all add: fresh_on_def node_new_def new_journal_def)

lemma state_path_fresh [simp]: "state_path (fresh_on (nd_options n) d fs) = state_path n"
  by (simp add: state_path_def)

lemma load_saved:
  assumes "storable dtoa strtod n" "path_exists fs (state_path n)"
    "read_integrity_file_with_recovery fs (state_path n) True = Inr r" "ro_payload r = dump dtoa (state_json n)"
  shows "\<exists>m. load_state strtod (fresh_on (nd_options n) d fs) = (Ok, m) \<and> restored_from n m"
proof -
  have "parse_json strtod default_parse_limits (ro_payload r) = Some (state_json n)"
    using assms(1,4) by (simp add: storable_def parse_prints_back)
  with restore_saved [OF assms(1), of "fresh_on (nd_options n) d fs"] assms(2,3) show ?thesis
    by (simp add: load_state_def)
qed

text \<open>A load depends on the state file and its backup only.\<close>

lemma restore_disk:
  "restore_snapshot_fields j (m\<lparr>nd_disk := x\<rparr>) = (restore_snapshot_fields j m)\<lparr>nd_disk := x\<rparr>"
  "restore_node_lease j (m\<lparr>nd_disk := x\<rparr>) = (restore_node_lease j m)\<lparr>nd_disk := x\<rparr>"
  by (auto simp: restore_snapshot_fields_def restore_node_lease_def Let_def split: option.split sum.split)

lemma restore_state_disk:
  "restore_state j (m\<lparr>nd_disk := x\<rparr>) = map_prod id (\<lambda>n. n\<lparr>nd_disk := x\<rparr>) (restore_state j m)"
proof (cases "stored_document j")
  case (Inr d)
  let ?f = "\<lambda>n. n\<lparr>nd_document := d, nd_lsn := json_u64_or j ''lsn'' 0, nd_operation_id := json_u64_or j ''operation_id'' 0,
      nd_retired_marker := json_bool_or j ''retired'' False\<rparr>"
  have f: "?f (m\<lparr>nd_disk := x\<rparr>) = (?f m)\<lparr>nd_disk := x\<rparr>" by simp
  have g: "n\<lparr>nd_disk := x, nd_journal := jj\<rparr> = n\<lparr>nd_journal := jj, nd_disk := x\<rparr>" for n :: ControlPlaneNode and jj by simp
  show ?thesis
    unfolding restore_state_def Inr sum.case Let_def f
    by (cases "json_find j ''migration_journal''")
      (simp_all add: and_then_def g restore_disk split: prod.split)
qed (simp add: restore_state_def)

lemma restore_indep:
  assumes "restore_state j (fresh_on o' d fs) = (Ok, m)" "restored_from n m"
  shows "\<exists>m'. restore_state j (fresh_on o' d' fs') = (Ok, m') \<and> restored_from n m'"
proof -
  have "fresh_on o' d' fs' = (fresh_on o' d fs)\<lparr>nd_disk := d'\<lparr>dk_fs := fs'\<rparr>\<rparr>" by (simp add: fresh_on_def node_new_def)
  then have "restore_state j (fresh_on o' d' fs') = (Ok, m\<lparr>nd_disk := d'\<lparr>dk_fs := fs'\<rparr>\<rparr>)" by (simp add: restore_state_disk assms(1))
  with assms(2) show ?thesis by (simp add: restored_from_def)
qed

lemma recovery_never_ok: "read_integrity_file_with_recovery fs path b \<noteq> Inl Ok"
proof -
  have "read_integrity_file fs p \<noteq> Inl Ok" for p
    by (auto simp: read_integrity_file_def read_binary_file_def verify_integrity_bytes_def Let_def rbind_eq_Inl split: option.splits if_splits)
  then show ?thesis by (auto simp: read_integrity_file_with_recovery_def split: sum.splits)
qed

definition loads :: "(string \<Rightarrow> u64 option) \<Rightarrow> Disk \<Rightarrow> ControlPlaneNode \<Rightarrow> FileSystem \<Rightarrow> bool" where
  "loads strtod d n fs = (path_exists fs (state_path n) \<and>
     (\<exists>m. load_state strtod (fresh_on (nd_options n) d fs) = (Ok, m) \<and> restored_from n m))"

lemma loads_cong:
  assumes "loads strtod d n fs" "s (state_path n) = fs (state_path n)"
    "s (backup_path (state_path n)) = fs (backup_path (state_path n)) \<or> (\<exists>x. read_integrity_file fs (state_path n) = Inr x)"
  shows "loads strtod d n s"
proof -
  have r: "read_integrity_file_with_recovery s (state_path n) True = read_integrity_file_with_recovery fs (state_path n) True"
    by (rule recovery_cong [OF assms(2,3)])
  have p: "path_exists s (state_path n) = path_exists fs (state_path n)" using assms(2) by (simp add: path_exists_def)
  from assms(1) obtain m where m: "path_exists fs (state_path n)"
      "load_state strtod (fresh_on (nd_options n) d fs) = (Ok, m)" "restored_from n m"
    by (auto simp: loads_def)
  then obtain rec j where j: "read_integrity_file_with_recovery fs (state_path n) True = Inr rec"
      "parse_json strtod default_parse_limits (ro_payload rec) = Some j"
      "restore_state j (fresh_on (nd_options n) d fs) = (Ok, m)"
    using recovery_never_ok [of fs "state_path n" True] by (auto simp: load_state_def split: sum.splits option.splits)
  obtain m' where m': "restore_state j (fresh_on (nd_options n) d s) = (Ok, m')" "restored_from n m'"
    using restore_indep [OF j(3) m(3)] by blast
  show ?thesis using m' m(1) j by (simp add: loads_def p load_state_def r)
qed

section \<open>Crash safety of a write\<close>

definition state_files :: "ControlPlaneNode \<Rightarrow> string set" where
  "state_files n = {state_path n, backup_path (state_path n)}"

lemma log_apart [simp]:
  "records_path n \<notin> state_files n" "temporary_path pid (records_path n) \<notin> state_files n"
  "identity_path n \<notin> state_files n" "temporary_path pid (identity_path n) \<notin> state_files n"
  by (simp_all add: state_files_def state_path_def records_path_def identity_path_def temporary_path_def backup_path_def)

lemma paths_cong: "nd_options n = nd_options m \<Longrightarrow> state_path n = state_path m \<and> records_path n = records_path m \<and>
    identity_path n = identity_path m \<and> state_files n = state_files m"
  by (simp add: state_path_def records_path_def identity_path_def state_files_def)

lemma on_disk_disk: "on_disk f n = (st, n') \<Longrightarrow> f (nd_disk n) = (st, nd_disk n')"
  by (auto simp: on_disk_def split: prod.splits)

lemma compact_away: "compact_records dtoa n = (st, n') \<Longrightarrow> away (state_files n) (nd_disk n) (nd_disk n')"
  unfolding compact_records_def Let_def
  by (auto simp: and_then_eq dest!: on_disk_disk intro: write_atomic_away)

lemma append_entry_away:
  assumes "append_record_entry dtoa r n = (st, n')"
  shows "away (state_files n) (nd_disk n) (nd_disk n')"
proof -
  obtain s m where m: "on_disk (disk_append (records_path n) (dump dtoa (record_to_json r))) n = (s, m)" by fastforce
  then have a: "away (state_files n) (nd_disk n) (nd_disk m)" by (auto dest!: on_disk_disk intro: append_away)
  from on_disk_frame [OF m] have o: "nd_options m = nd_options n" by auto
  from assms m consider "n' = m" | "nd_disk n' = nd_disk m" | "compact_records dtoa (m\<lparr>nd_records := nd_records m @ [r]\<rparr>) = (st, n')"
    by (auto simp: append_record_entry_def and_then_def Let_def split: if_splits)
  then show ?thesis
  proof cases
    case 3
    from compact_away [OF this] a o show ?thesis by (auto simp: paths_cong [of "m\<lparr>nd_records := _\<rparr>" n] intro: away_trans)
  qed (use a in simp_all)
qed

text \<open>A save: before and at every moment of it the old state loads, or the new one does.\<close>

lemma save_state_crash:
  assumes "save_state dtoa n = (st, n')" "storable dtoa strtod n" "loads strtod d n0 (dk_fs (nd_disk n))" "nd_options n0 = nd_options n"
  shows "\<exists>states. extends (nd_disk n) (nd_disk n') states \<and>
    (\<forall>s \<in> set states. loads strtod d n0 s \<or> loads strtod d n s) \<and> (st = Ok \<longrightarrow> loads strtod d n (dk_fs (nd_disk n')))"
proof -
  let ?p = "state_path n" and ?fs = "dk_fs (nd_disk n)" and ?t = "dump dtoa (state_json n)"
  have w: "disk_write_integrity ?p ?t True (nd_disk n) = (st, nd_disk n')" using assms(1) by (auto simp: save_state_def dest: on_disk_disk)
  from write_integrity_extends [OF w] obtain io states where
    i: "write_integrity_file io (dk_pid (nd_disk n)) ?p ?t True ?fs = (st, states)" "states \<noteq> []" "extends (nd_disk n) (nd_disk n') states"
    by blast
  have len: "length ?t \<le> kMaxIntegrityPayloadBytes" using assms(2) by (simp add: storable_def)
  let ?new = "encode_integrity_file ?t (previous_digest ?fs ?p)"
  have p0: "state_path n0 = ?p" using paths_cong assms(4) by blast
  have new: "loads strtod d n s" if "s ?p = Some ?new" for s
  proof -
    have "read_integrity_file s ?p = Inr (info_of ?t (previous_digest ?fs ?p), ?t)"
      using that len digest_wf_previous by (intro read_installed)
    then have "read_integrity_file_with_recovery s ?p True =
        Inr \<lparr>ro_payload = ?t, ro_info = info_of ?t (previous_digest ?fs ?p), ro_from_backup = False\<rparr>"
      by (simp add: read_integrity_file_with_recovery_def)
    from load_saved [OF assms(2) _ this] that show ?thesis by (simp add: loads_def path_exists_def)
  qed
  have "loads strtod d n0 s \<or> loads strtod d n s" if "s \<in> set states" for s
    using write_integrity_states(1) [OF i(1) len that] new loads_cong [OF assms(3), of s] by (auto simp: p0)
  moreover have "st = Ok \<Longrightarrow> loads strtod d n (dk_fs (nd_disk n'))"
    using write_integrity_states(2) [OF i(1) len] i(2,3) new by (simp add: extends_def)
  ultimately show ?thesis using i(3) by blast
qed


lemma state_json_cong:
  "state_json (n\<lparr>nd_disk := d\<rparr>) = state_json n" "state_json (n\<lparr>nd_writes_applied := w\<rparr>) = state_json n"
  by (simp_all add: state_json_def Let_def split: option.split)

lemma storable_cong [simp]:
  "storable dtoa strtod (n\<lparr>nd_disk := d\<rparr>) = storable dtoa strtod n"
  "storable dtoa strtod (n\<lparr>nd_writes_applied := w\<rparr>) = storable dtoa strtod n"
  by (simp_all add: storable_def state_json_cong)

text \<open>What a load of the state of a node depends on.\<close>

definition same_store :: "ControlPlaneNode \<Rightarrow> ControlPlaneNode \<Rightarrow> bool" where
  "same_store n m =
     (nd_options m = nd_options n \<and> nd_document m = nd_document n \<and> nd_lsn m = nd_lsn n \<and>
      nd_retired_marker m = nd_retired_marker n \<and> nd_journal m = nd_journal n)"

lemma loads_node_cong: "same_store n m \<Longrightarrow> loads strtod d m fs = loads strtod d n fs"
  using paths_cong [of m n] by (simp add: same_store_def loads_def restored_from_def)

text \<open>The two steps of a write: the record to the log, then the state file.\<close>

lemma apply_write_crash:
  assumes "apply_write dtoa key val e g i n = (st, n')" "loads strtod d n (dk_fs (nd_disk n))" "storable dtoa strtod n'"
  shows "\<exists>states. extends (nd_disk n) (nd_disk n') states \<and> (\<forall>s \<in> set states. loads strtod d n s \<or> loads strtod d n' s) \<and>
    (st = Ok \<longrightarrow> loads strtod d n' (dk_fs (nd_disk n')))"
proof -
  have none: "extends (nd_disk n) (nd_disk n) []" by (simp add: extends_def)
  show ?thesis
  proof (cases "n' = n \<and> st \<noteq> Ok")
    case True
    with none show ?thesis by fastforce
  next
    case False
    with assms(1) obtain nxt doc where w: "tagged_next (nd_lsn n) = Some nxt" "doc_put key val (nd_document n) = (doc, Ok)"
      by (auto simp: apply_write_alt split: option.splits prod.splits if_splits)
    let ?r = "written dtoa key val e g i nxt"
    obtain s1 m where m: "append_record_entry dtoa ?r (advanced ?r doc n) = (s1, m)" by fastforce
    have c: "s1 \<noteq> Ok \<and> st = s1 \<and> n' = m \<or> s1 = Ok \<and> save_state dtoa m = (st, n')"
      using assms(1) w m by (auto simp: apply_write_alt Let_def and_then_def split: if_splits)
    have o: "nd_options m = nd_options n" "nd_options (advanced ?r doc n) = nd_options n" "nd_disk (advanced ?r doc n) = nd_disk n"
      using logged_frame [OF append_logged [OF m]] by (auto simp: same_identity_def advanced_def)
    from append_entry_away [OF m] o paths_cong [OF o(2)] obtain xs where
      x: "extends (nd_disk n) (nd_disk m) xs" "\<forall>s \<in> set xs. \<forall>p \<in> state_files n. s p = dk_fs (nd_disk n) p"
      by (auto simp: away_def)
    have lx: "\<forall>s \<in> set xs. loads strtod d n s"
      using x(2) loads_cong [OF assms(2)] by (simp add: state_files_def)
    have lm: "loads strtod d n (dk_fs (nd_disk m))"
      using x(1) lx assms(2) by (cases "xs = []") (auto simp: extends_def)
    from c show ?thesis
    proof
      assume "s1 \<noteq> Ok \<and> st = s1 \<and> n' = m"
      with x(1) lx show ?thesis by auto
    next
      assume s: "s1 = Ok \<and> save_state dtoa m = (st, n')"
      then obtain dd where n': "n' = m\<lparr>nd_disk := dd\<rparr>" using save_state_frame by blast
      then have "same_store m n'" by (simp add: same_store_def)
      from save_state_crash [OF conjunct2 [OF s] _ lm] assms(3) n' o obtain ys where
        y: "extends (nd_disk m) (nd_disk n') ys" "\<forall>s \<in> set ys. loads strtod d n s \<or> loads strtod d m s"
          "st = Ok \<longrightarrow> loads strtod d m (dk_fs (nd_disk n'))" by auto
      have "\<forall>s \<in> set (xs @ ys). loads strtod d n s \<or> loads strtod d n' s" using lx y(2) loads_node_cong [OF \<open>same_store m n'\<close>] by auto
      with extends_trans [OF x(1) y(1)] y(3) loads_node_cong [OF \<open>same_store m n'\<close>] show ?thesis by blast
    qed
  qed
qed

lemma node_write_crash:
  assumes w: "node_write dtoa clock body a = (res, n')" and l: "loads strtod d a (dk_fs (nd_disk a))" and st: "storable dtoa strtod n'"
  shows "\<exists>states. extends (nd_disk a) (nd_disk n') states \<and> (\<forall>s \<in> set states. loads strtod d a s \<or> loads strtod d n' s) \<and>
      (result_status res = Ok \<longrightarrow> loads strtod d n' (dk_fs (nd_disk n')) \<and>
        (\<exists>key val. json_string body ''key'' = Some key \<and> json_string body ''value'' = Some val \<and>
           doc_put key val (nd_document a) = (nd_document n', Ok)))"
  using w
proof (cases rule: node_write_cases)
  case (refused e)
  then show ?thesis by (intro exI [of _ "[]"]) (simp add: result_status_def extends_def)
next
  case (tried claim key val lease m st)
  have sm: "same_store m n'" "nd_disk n' = nd_disk m" using tried(7) by (auto simp: same_store_def)
  have "storable dtoa strtod m" using assms(3) tried(7) by auto
  with l obtain states where x: "extends (nd_disk a) (nd_disk m) states" "\<forall>s \<in> set states. loads strtod d a s \<or> loads strtod d m s"
      "st = Ok \<longrightarrow> loads strtod d m (dk_fs (nd_disk m))" using apply_write_crash [OF tried(6)] by blast
  have "\<exists>key val. json_string body ''key'' = Some key \<and> json_string body ''value'' = Some val \<and>
       doc_put key val (nd_document a) = (nd_document n', Ok)" if "result_status res = Ok"
    using node_write_effect [OF w] that tried(7) by (auto simp: result_status_def)
  moreover have "st = Ok" if "result_status res = Ok" using that tried(7) by (auto simp: result_status_def)
  ultimately show ?thesis using x sm loads_node_cong [OF sm(1)] by metis
qed

lemma loads_restored:
  "loads strtod d m s \<Longrightarrow> nd_options m = nd_options n \<Longrightarrow>
     \<exists>r. load_state strtod (fresh_on (nd_options n) d s) = (Ok, r) \<and> restored_from m r"
  by (auto simp: loads_def)

text \<open>C18: A write is atomic and durable, within the limits of the parser. Let the state on disk be the one the node
  serves, let its fields be sorted without duplicates, and let the state after the write be one the file format can represent
  (\<open>storable\<close>): it prints to a document within the default parser limits (4 MiB, nesting depth), its document is
  well-formed with a positive schema, and its journal holds at most 1024 well-formed entries. Then at every moment
  of handling the write, whichever file operation fails and wherever the process dies, a restart loads either the
  state before the write or the state after it; and once the write is acknowledged, a restart loads the state
  after it, in which the written key has the written value. Without the size limit the claim fails: the node
  acknowledges a write that makes its state larger than the parser accepts, and the state does not load again
  (\<open>oversized_state_refused\<close>).\<close>

theorem node_write_durable:
  assumes "node_handle dtoa clock req n = (resp, n')" "rq_op req = ''node.write''"
    and "loads strtod d n (dk_fs (nd_disk n))" "storable dtoa strtod n'" "omap_wf (doc_fields (nd_document n))"
  shows "\<exists>states. extends (nd_disk n) (nd_disk n') states \<and>
      (\<forall>s \<in> set states. \<exists>m. load_state strtod (fresh_on (nd_options n) d s) = (Ok, m) \<and> (restored_from n m \<or> restored_from n' m)) \<and>
      (rs_status resp = Ok \<longrightarrow>
        (\<exists>m key val. load_state strtod (fresh_on (nd_options n) d (dk_fs (nd_disk n'))) = (Ok, m) \<and> restored_from n' m \<and>
           json_string (rq_body req) ''key'' = Some key \<and> json_string (rq_body req) ''value'' = Some val \<and>
           doc_get key (nd_document m) = Some val))"
proof -
  from assms(1) obtain a where a: "same_log n a" "same_authority n a" "same_identity n a" "nd_disk a = nd_disk n" "nd_journal a = nd_journal n"
    and c: "rs_status resp = Internal \<and> n' = a \<or>
      (\<exists>res. node_dispatch dtoa clock (rq_op req) (rq_body req) a = (res, n') \<and> rs_status resp = result_status res)"
    by (rule node_handle_cases) blast
  have st: "same_store n a" using a by (simp add: same_store_def same_defs)
  have opt: "nd_options n' = nd_options n" using c a(3) dispatch_identity by (auto simp: same_identity_def)
  have l: "loads strtod d a (dk_fs (nd_disk a))" using assms(3) loads_node_cong [OF st] a(4) by simp
  have "\<exists>states. extends (nd_disk a) (nd_disk n') states \<and> (\<forall>s \<in> set states. loads strtod d a s \<or> loads strtod d n' s) \<and>
      (rs_status resp = Ok \<longrightarrow> loads strtod d n' (dk_fs (nd_disk n')) \<and>
        (\<exists>key val. json_string (rq_body req) ''key'' = Some key \<and> json_string (rq_body req) ''value'' = Some val \<and>
           doc_put key val (nd_document a) = (nd_document n', Ok)))"
    using c
  proof (elim disjE exE conjE)
    fix res assume "node_dispatch dtoa clock (rq_op req) (rq_body req) a = (res, n')" "rs_status resp = result_status res"
    with node_write_crash [OF _ l assms(4), of clock "rq_body req" res] assms(2) show ?thesis by (simp add: node_dispatch_def)
  qed (intro exI [of _ "[]"], simp add: extends_def)
  then obtain states where x: "extends (nd_disk n) (nd_disk n') states" "\<forall>s \<in> set states. loads strtod d n s \<or> loads strtod d n' s"
    "rs_status resp = Ok \<Longrightarrow> loads strtod d n' (dk_fs (nd_disk n'))"
    "rs_status resp = Ok \<Longrightarrow> \<exists>key val. json_string (rq_body req) ''key'' = Some key \<and> json_string (rq_body req) ''value'' = Some val \<and>
           doc_put key val (nd_document a) = (nd_document n', Ok)" using loads_node_cong [OF st] a(4) by auto
  have get: "doc_put key val (nd_document a) = (nd_document n', Ok) \<Longrightarrow> doc_get key (nd_document n') = Some val" for key val
    using assms(5) a(1) om.find_store [of "doc_fields (nd_document a)"] by (auto simp: doc_put_Ok doc_get_def same_log_def)
  have "\<forall>s \<in> set states. \<exists>m. load_state strtod (fresh_on (nd_options n) d s) = (Ok, m) \<and> (restored_from n m \<or> restored_from n' m)"
    using x(2) loads_restored [OF _ opt] loads_restored [OF _ refl, of strtod d n] by blast
  moreover have "\<exists>m key val. load_state strtod (fresh_on (nd_options n) d (dk_fs (nd_disk n'))) = (Ok, m) \<and> restored_from n' m \<and>
      json_string (rq_body req) ''key'' = Some key \<and> json_string (rq_body req) ''value'' = Some val \<and>
      doc_get key (nd_document m) = Some val" if "rs_status resp = Ok"
    using x(4) [OF that] loads_restored [OF x(3) [OF that] opt] get by (metis restored_from_def)
  ultimately show ?thesis using x(1) by blast
qed

section \<open>States that are not read back\<close>

lemma unnamed_lease_not_restored: "lease_id l = 0 \<Longrightarrow> authority_lease_from_json (lease_to_json l) = Inl Malformed"
proof -
  assume "lease_id l = 0"
  then have "json_u64 (lease_to_json l) ''id'' = Some 0" "is_object (lease_to_json l)"
    by (simp_all add: lease_to_json_def Let_def json_field_defs codec_simps set_if_def)
  then show ?thesis by (simp add: authority_lease_from_json_def codec_simps)
qed

lemma restored_lease:
  "nd_lease (restore_node_lease (state_json n) m) =
     (case nd_lease n of None \<Rightarrow> nd_lease m
      | Some l \<Rightarrow> (case authority_lease_from_json (lease_to_json l) of Inl _ \<Rightarrow> nd_lease m | Inr k \<Rightarrow> Some (k\<lparr>attested := False\<rparr>)))"
  by (simp add: restore_node_lease_def state_json_fields split: option.split sum.split)

lemma restore_state_lease:
  assumes "storable dtoa strtod n" "restore_state (state_json n) m0 = (Ok, m)"
  shows "nd_lease m = nd_lease (restore_node_lease (state_json n) m0)"
  using assms(2) stored_document_round_trip [OF assms(1)]
  by (auto simp: restore_state_def Let_def and_then_eq restore_frames restored_lease split: option.splits prod.splits sum.split)

lemma saved_state_read:
  assumes "save_state dtoa n = (Ok, n')" "length (dump dtoa (state_json n)) \<le> kMaxIntegrityPayloadBytes"
  shows "path_exists (dk_fs (nd_disk n')) (state_path n) \<and>
    (\<exists>info. read_integrity_file (dk_fs (nd_disk n')) (state_path n) = Inr (info, dump dtoa (state_json n)))"
  using assms write_integrity_installs unfolding save_state_def by (blast dest: on_disk_disk)

lemma granted_lease_id: "granted_lease clock body n = Inr l \<Longrightarrow> lease_id l = 0"
  by (auto simp: granted_lease_def Let_def)

text \<open>A lease that the controller grants is not among the state a restart restores. The node stores it without
  a lease identifier, and the decoder of leases refuses such a record, so the state loads without any lease:
  the restored lease that \<^verbatim>\<open>node.reattest\<close> would confirm does not exist.\<close>

theorem granted_lease_not_restored:
  assumes "node_grant_authority dtoa clock body n = (Inr reply, n')" "storable dtoa strtod n'"
  shows "nd_lease n' \<noteq> None \<and>
    (\<exists>m. load_state strtod (fresh_on (nd_options n) d (dk_fs (nd_disk n'))) = (Ok, m) \<and> restored_from n' m \<and> nd_lease m = None)"
proof -
  from assms(1) obtain l s where l: "granted_lease clock body n = Inr l"
      "save_state dtoa (n\<lparr>nd_lease := Some l, nd_lease_confirmed := True, nd_lifecycle := NodeServing\<rparr>) = (Ok, n')"
    by (auto simp: node_grant_authority_def step_eqs)
  let ?n = "n\<lparr>nd_lease := Some l, nd_lease_confirmed := True, nd_lifecycle := NodeServing\<rparr>" and ?p = "state_path n"
  obtain dd where n': "n' = ?n\<lparr>nd_disk := dd\<rparr>" using save_state_frame [OF l(2)] by blast
  have j: "state_json n' = state_json ?n" unfolding n' by (rule state_json_cong)
  have o: "state_path ?n = ?p" by (simp add: state_path_def)
  let ?m = "fresh_on (nd_options n) d (dk_fs (nd_disk n'))"
  have "load_state strtod ?m = restore_state (state_json n') ?m"
    using saved_state_read [OF l(2)] parse_prints_back [of dtoa strtod "state_json n'"] assms(2)
    by (auto simp: load_state_def read_integrity_file_with_recovery_def storable_def o j)
  moreover obtain m where m: "restore_state (state_json n') ?m = (Ok, m)" "restored_from n' m"
    using restore_saved [OF assms(2), of ?m] by auto
  moreover have "nd_lease m = None"
    using restore_state_lease [OF assms(2) m(1)] unnamed_lease_not_restored [OF granted_lease_id [OF l(1)]] n' by (simp add: restored_lease)
  ultimately show ?thesis using n' by simp
qed

text \<open>The limit of the parser (4 MiB) is below the limit of an integrity file (64 MiB): a larger state is saved,
  and the node does not start again.\<close>

lemma oversized_state_refused:
  assumes "save_state dtoa n = (Ok, n')" "max_bytes default_parse_limits < length (dump dtoa (state_json n))"
    "length (dump dtoa (state_json n)) \<le> kMaxIntegrityPayloadBytes"
  shows "fst (load_state strtod (fresh_on (nd_options n) d (dk_fs (nd_disk n')))) = IntegrityFailure"
proof -
  have "parse_json strtod default_parse_limits (dump dtoa (state_json n)) = None" using assms(2) by (simp add: parse_json_def)
  with saved_state_read [OF assms(1,3)] show ?thesis by (auto simp: load_state_def read_integrity_file_with_recovery_def)
qed

section \<open>Identity across restarts\<close>

text \<open>The steps of a running node leave its identity file alone.\<close>

definition keeps_identity :: "ControlPlaneNode \<Rightarrow> ControlPlaneNode \<Rightarrow> bool" where
  "keeps_identity n n' = (nd_options n' = nd_options n \<and> away {identity_path n} (nd_disk n) (nd_disk n'))"

lemma away_refl: "away P d d"
  by (auto simp: away_def extends_def intro: exI [of _ "[]"])

lemma keeps_refl: "nd_options n' = nd_options n \<Longrightarrow> nd_disk n' = nd_disk n \<Longrightarrow> keeps_identity n n'"
  by (simp add: keeps_identity_def away_refl)

lemma keeps_trans: "keeps_identity a b \<Longrightarrow> keeps_identity b c \<Longrightarrow> keeps_identity a c"
  using paths_cong [of b a] by (auto simp: keeps_identity_def intro: away_trans)

lemma keeps_cong: "nd_options a = nd_options b \<Longrightarrow> nd_disk a = nd_disk b \<Longrightarrow> keeps_identity a c = keeps_identity b c"
  using paths_cong [of a b] by (simp add: keeps_identity_def)

lemma write_integrity_away:
  assumes "disk_write_integrity path payload keep d = (st, d')" "path \<notin> P" "temporary_path (dk_pid d) path \<notin> P" "backup_path path \<notin> P"
  shows "away P d d'"
proof -
  obtain io states where w: "write_integrity_file io (dk_pid d) path payload keep (dk_fs d) = (st, states)" "extends d d' states"
    using write_integrity_extends [OF assms(1)] by blast
  have inst: "install_bytes io (dk_pid d) path b fs = (x, ys) \<Longrightarrow> s \<in> set ys \<Longrightarrow> p \<in> P \<Longrightarrow> s p = fs p" for b fs x ys s p
    using install_bytes_states assms(2,3) by (metis fun_upd_other)
  have "s p = dk_fs d p" if s: "s \<in> set states" and p: "p \<in> P" for s p
  proof (cases "length payload \<le> kMaxIntegrityPayloadBytes")
    case True
    have "p \<noteq> backup_path path" using p assms(4) by blast
    with write_integrity_cases [OF w(1) True] s p inst show ?thesis
      by (auto dest!: write_states_prefix) (metis fun_upd_other)
  next
    case False
    with w(1) s show ?thesis by (auto simp: write_integrity_file_def)
  qed
  with w(2) show ?thesis by (auto simp: away_def)
qed

lemma identity_apart [simp]:
  "state_path n \<noteq> identity_path n" "temporary_path pid (state_path n) \<noteq> identity_path n" "backup_path (state_path n) \<noteq> identity_path n"
  "records_path n \<noteq> identity_path n" "temporary_path pid (records_path n) \<noteq> identity_path n"
  by (simp_all add: state_path_def records_path_def identity_path_def temporary_path_def backup_path_def)

lemma save_keeps: "save_state dtoa n = (st, n') \<Longrightarrow> keeps_identity n n'"
  using save_state_frame [of dtoa n st n']
  by (auto simp: keeps_identity_def save_state_def dest!: on_disk_disk intro!: write_integrity_away)

lemma truncate_keeps:
  assumes "on_disk (disk_write_atomic (records_path n) bytes) n = (st, n')"
  shows "keeps_identity n n'"
  using on_disk_frame [OF assms] on_disk_disk [OF assms]
  by (auto simp: keeps_identity_def intro!: write_atomic_away)

lemma compact_keeps:
  assumes "compact_records dtoa n = (st, n')"
  shows "keeps_identity n n'"
  using assms unfolding compact_records_def Let_def
  by (auto simp: and_then_eq dest!: truncate_keeps) (auto simp: keeps_identity_def)

lemma append_keeps:
  assumes "append_record_entry dtoa r n = (st, n')"
  shows "keeps_identity n n'"
proof -
  obtain s m where m: "on_disk (disk_append (records_path n) (dump dtoa (record_to_json r))) n = (s, m)" by fastforce
  then have a: "keeps_identity n m"
    using on_disk_frame [OF m] by (auto simp: keeps_identity_def dest!: on_disk_disk intro!: append_away)
  from assms m consider "n' = m" | "nd_disk n' = nd_disk m" "nd_options n' = nd_options m"
    | "compact_records dtoa (m\<lparr>nd_records := nd_records m @ [r]\<rparr>) = (st, n')"
    by (auto simp: append_record_entry_def and_then_def Let_def split: if_splits)
  then show ?thesis
  proof cases
    case 3
    from compact_keeps [OF this] have "keeps_identity m n'" by (simp add: keeps_cong [of "m\<lparr>nd_records := _\<rparr>" m])
    with a show ?thesis by (rule keeps_trans)
  qed (use a keeps_trans keeps_refl in blast)+
qed

lemma apply_write_keeps: "apply_write dtoa key val e g i n = (st, n') \<Longrightarrow> keeps_identity n n'"
proof -
  assume w: "apply_write dtoa key val e g i n = (st, n')"
  have "n' = n \<or> (\<exists>r d s m. append_record_entry dtoa r (advanced r d n) = (s, m) \<and> (n' = m \<or> save_state dtoa m = (st, n')))"
    using w by (auto simp: apply_write_alt Let_def and_then_eq split: option.splits prod.splits if_splits)
  moreover have "keeps_identity n m" if "append_record_entry dtoa r (advanced r d n) = (s, m)" for r d s m
    using append_keeps [OF that] keeps_cong [of "advanced r d n" n m] by (simp add: advanced_def)
  ultimately show ?thesis using save_keeps keeps_trans keeps_refl by metis
qed

lemma apply_entries_keeps: "apply_entries dtoa expected js n = (st, n') \<Longrightarrow> keeps_identity n n'"
proof (induction js arbitrary: n)
  case Nil
  then show ?case by (simp add: keeps_refl)
next
  case (Cons j js)
  then obtain s m where m: "apply_entry dtoa expected j n = (s, m)" "n' = m \<or> apply_entries dtoa expected js m = (st, n')"
    by (auto simp: and_then_eq)
  have "keeps_identity n m"
    using m(1)
  proof (cases rule: apply_entry_cases)
    case (2 entry d)
    from append_keeps [OF 2(5)] keeps_cong [of "advanced entry d n" n m] show ?thesis by (simp add: advanced_def)
  qed (simp add: keeps_refl)
  with m(2) Cons.IH [of m] show ?case using keeps_trans by blast
qed

lemmas keeps_defs = keeps_identity_def identity_path_def away_refl

lemma install_keeps:
  assumes "node_install_snapshot dtoa body n = (res, n')"
  shows "keeps_identity n n'"
proof -
  let ?n = "\<lambda>doc lsn. n\<lparr>nd_document := doc, nd_lsn := lsn, nd_operation_id := lsn, nd_records := []\<rparr>"
  from assms consider "n' = n" | doc lsn c s m where "on_disk (disk_write_atomic (records_path (?n doc lsn)) []) (?n doc lsn) = (s, m)"
      "n' = m \<or> (\<exists>st. save_state dtoa (m\<lparr>nd_recorded_snapshot_digest := c, nd_last_snapshot_lsn := lsn\<rparr>) = (st, n'))"
    unfolding node_install_snapshot_def Let_def by (fastforce simp: step_eqs simp del: rbind_eq_Inr)
  then show ?thesis
  proof cases
    case (2 doc lsn c s m)
    from truncate_keeps [OF 2(1)] have "keeps_identity n m" by (simp add: keeps_defs)
    moreover have "n' = m \<or> keeps_identity m n'" using 2(2) by (auto simp: keeps_defs dest!: save_keeps)
    ultimately show ?thesis using keeps_trans by blast
  qed (simp add: keeps_refl)
qed

lemma prepare_memory: "node_prepare clock body n = (res, n') \<Longrightarrow> nd_options n' = nd_options n \<and> nd_disk n' = nd_disk n"
proof -
  have s: "prepare_successor h body n = (res, n') \<Longrightarrow> nd_options n' = nd_options n \<and> nd_disk n' = nd_disk n" for h
    unfolding prepare_successor_def by (auto simp: checked_eq simp del: rbind_eq_Inr)
  have p: "prepare_predecessor clock h n = (res, n') \<Longrightarrow> nd_options n' = nd_options n \<and> nd_disk n' = nd_disk n" for h
    unfolding prepare_predecessor_def by (auto split: option.splits if_splits)
  show "node_prepare clock body n = (res, n') \<Longrightarrow> ?thesis"
    unfolding node_prepare_def by (auto simp: checked_eq simp del: rbind_eq_Inr split: if_splits dest!: s p)
qed

lemma dispatch_keeps:
  assumes "node_dispatch dtoa clock op body n = (res, n')"
  shows "keeps_identity n n'"
proof -
  have tf: "take_fault op n = (f, m) \<Longrightarrow> nd_options m = nd_options n \<and> nd_disk m = nd_disk n" for op f m
    by (auto simp: take_fault_def Let_def)
  have snap: "node_snapshot dtoa body n = (res, n') \<Longrightarrow> keeps_identity n n'"
    unfolding node_snapshot_def Let_def
    by (cases "take_fault ''node.snapshot.corrupt'' n")
      (auto simp: step_eqs keeps_defs simp del: rbind_eq_Inr split: option.splits dest!: tf save_keeps)
  have instl: "node_install_snapshot dtoa body n = (res, n') \<Longrightarrow> keeps_identity n n'" by (rule install_keeps)
  have app: "node_apply_records dtoa body n = (res, n') \<Longrightarrow> keeps_identity n n'"
    by (erule apply_records_cases) (auto dest!: apply_entries_keeps save_keeps intro: keeps_refl keeps_trans)
  have fence: "node_fence dtoa body n = (res, n') \<Longrightarrow> keeps_identity n n'"
    unfolding node_fence_def by (auto simp: step_eqs keeps_defs simp del: rbind_eq_Inr split: if_splits dest!: save_keeps)
  have grant: "node_grant_authority dtoa clock body n = (res, n') \<Longrightarrow> keeps_identity n n'"
    unfolding node_grant_authority_def by (auto simp: step_eqs keeps_defs dest!: save_keeps)
  have mig: "node_migrate dtoa clock body n = (res, n') \<Longrightarrow> keeps_identity n n'"
    unfolding node_migrate_def
    by (auto simp: step_eqs keeps_defs case_prod_unfold simp del: rbind_eq_Inr dest!: save_keeps journal_steps_frame)
  have ret: "node_retire dtoa body n = (res, n') \<Longrightarrow> keeps_identity n n'"
    unfolding node_retire_def by (auto simp: step_eqs keeps_defs dest!: save_keeps)
  have wr: "node_write dtoa clock body n = (res, n') \<Longrightarrow> keeps_identity n n'"
    by (erule node_write_cases) (auto simp: same_defs keeps_defs dest!: apply_write_keeps)
  have fr: "node_faults body n = (res, n') \<Longrightarrow> keeps_identity n n'" "node_reattest clock body n = (res, n') \<Longrightarrow> keeps_identity n n'"
    "node_read dtoa clock body n = (res, n') \<Longrightarrow> keeps_identity n n'"
    by (auto simp: node_faults_def set_fault_def node_reattest_def node_read_def Let_def step_eqs keeps_defs
        simp del: rbind_eq_Inr split: option.splits if_splits)
  have pr: "node_prepare clock body n = (res, n') \<Longrightarrow> keeps_identity n n'"
    by (drule prepare_memory) (simp add: keeps_refl)
  show ?thesis
    using assms unfolding node_dispatch_def
    by (auto split: if_splits dest!: silent_frame dest: snap instl app fence grant mig ret wr fr pr intro: keeps_refl)
qed

lemma handle_keeps: "keeps_identity n (node_step dtoa n x)"
proof -
  obtain resp n' where h: "node_handle dtoa (fst x) (snd x) n = (resp, n')" by fastforce
  then obtain m where "same_identity n m" "nd_disk m = nd_disk n"
      "n' = m \<or> (\<exists>res. node_dispatch dtoa (fst x) (rq_op (snd x)) (rq_body (snd x)) m = (res, n'))"
    by (rule node_handle_cases) blast
  then have "keeps_identity m n'" "nd_options m = nd_options n" "nd_disk m = nd_disk n"
    using dispatch_keeps keeps_refl by (auto simp: same_identity_def)
  then show ?thesis using h keeps_cong [of m n n'] by (simp add: node_step_def)
qed

lemma run_keeps: "keeps_identity n (foldl (node_step dtoa) n xs)"
  by (induction xs rule: rev_induct) (auto intro: keeps_refl keeps_trans handle_keeps)

lemma restore_identity:
  "same_identity n (restore_snapshot_fields j n)" "nd_disk (restore_snapshot_fields j n) = nd_disk n"
  "same_identity n (restore_node_lease j n)" "nd_disk (restore_node_lease j n) = nd_disk n"
  by (auto simp: restore_snapshot_fields_def restore_node_lease_def Let_def same_identity_def split: option.splits sum.splits)

lemma load_state_frame:
  assumes "load_state strtod n = (st, n')"
  shows "same_identity n n' \<and> nd_disk n' = nd_disk n"
proof -
  have "same_identity n m \<and> nd_disk m = nd_disk n" if "restore_state j n = (st, m)" for j m
    using that restore_identity [where j = j]
    by (auto simp: restore_state_def Let_def and_then_eq same_identity_def split: sum.splits option.splits prod.splits)
  with assms show ?thesis by (auto simp: load_state_def same_identity_def split: if_splits sum.splits option.splits)
qed

lemma load_records_frame:
  assumes "load_records dtoa strtod n = (st, n')"
  shows "same_identity n n' \<and> keeps_identity n n'"
proof -
  have "same_identity n m \<and> keeps_identity n m" if "rewrite_records dtoa (n\<lparr>nd_records := k\<rparr>) = (s, m)" for k s m
    using truncate_keeps [OF that [unfolded rewrite_records_def]] on_disk_frame [OF that [unfolded rewrite_records_def]]
    by (auto simp: same_identity_def keeps_defs)
  with assms show ?thesis
    by (auto simp: load_records_def Let_def same_identity_def keeps_defs split: sum.splits prod.splits if_splits)
qed

lemma save_state_identity: "save_state dtoa n = (st, n') \<Longrightarrow> same_identity n n'"
  by (auto simp: same_identity_def dest!: save_state_frame)

lemma read_integrity_never_ok: "read_integrity_file fs p \<noteq> Inl Ok"
  by (auto simp: read_integrity_file_def read_binary_file_def verify_integrity_bytes_def Let_def rbind_eq_Inl split: option.splits if_splits)

text \<open>An opened node has recorded its identity.\<close>

lemma load_identity_Ok:
  assumes "load_identity dtoa strtod random n = (Ok, n')"
  shows "next_boot_counter strtod n = Inr (nd_boot_counter n') \<and> nd_options n' = nd_options n \<and>
      boot (nd_incarnation n') = nd_boot_counter n'"
    and "length (dump dtoa (identity_json n')) \<le> kMaxIntegrityPayloadBytes \<Longrightarrow> path_exists (dk_fs (nd_disk n')) (identity_path n) \<and>
      (\<exists>info. read_integrity_file (dk_fs (nd_disk n')) (identity_path n) = Inr (info, dump dtoa (identity_json n')))"
proof -
  have "next_boot_counter strtod n \<noteq> Inl Ok"
    using read_integrity_never_ok by (auto simp: next_boot_counter_def rbind_eq_Inl)
  with assms obtain c where c: "next_boot_counter strtod n = Inr c" by (cases "next_boot_counter strtod n") (auto simp: load_identity_def)
  let ?n = "n\<lparr>nd_boot_counter := c, nd_incarnation := \<lparr>component = opt_component (nd_options n),
      uuid = random_uuid (fst random) (snd random), boot = c\<rparr>\<rparr>"
  have s: "on_disk (disk_write_integrity (identity_path ?n) (dump dtoa (identity_json ?n)) False) ?n = (Ok, n')"
    using assms c by (simp add: load_identity_def save_identity_def)
  obtain dd where n': "n' = ?n\<lparr>nd_disk := dd\<rparr>" using on_disk_frame [OF s] by blast
  then show "next_boot_counter strtod n = Inr (nd_boot_counter n') \<and> nd_options n' = nd_options n \<and>
      boot (nd_incarnation n') = nd_boot_counter n'" using c by simp
  have j: "identity_json n' = identity_json ?n" and p: "identity_path ?n = identity_path n" unfolding n' by (simp_all add: identity_json_def identity_path_def)
  show "path_exists (dk_fs (nd_disk n')) (identity_path n) \<and>
      (\<exists>info. read_integrity_file (dk_fs (nd_disk n')) (identity_path n) = Inr (info, dump dtoa (identity_json n')))"
    if "length (dump dtoa (identity_json n')) \<le> kMaxIntegrityPayloadBytes"
    using write_integrity_installs [OF on_disk_disk [OF s]] that by (simp add: j p)
qed

lemma node_open_Ok:
  assumes "node_open dtoa strtod dir lock random n0 = (Ok, n)"
  shows "\<exists>a. load_identity dtoa strtod random n0 = (Ok, a) \<and> same_identity a n \<and> keeps_identity a n \<and> \<not> nd_lease_confirmed n"
proof -
  from assms obtain a b c where o: "load_identity dtoa strtod random n0 = (Ok, a)" "load_state strtod a = (Ok, b)"
      "load_records dtoa strtod b = (Ok, c)"
      "save_state dtoa (c\<lparr>nd_lifecycle := (if nd_retired_marker c then NodeRetired else NodeRecovering), nd_lease_confirmed := False\<rparr>) = (Ok, n)"
    by (auto simp: node_open_def and_then_eq split: if_splits)
  let ?c = "c\<lparr>nd_lifecycle := (if nd_retired_marker c then NodeRetired else NodeRecovering), nd_lease_confirmed := False\<rparr>"
  have "same_identity a b" "keeps_identity a b"
    using load_state_frame [OF o(2)] by (auto simp: same_identity_def intro: keeps_refl)
  moreover have "same_identity b c" "keeps_identity b c" using load_records_frame [OF o(3)] by auto
  moreover have "same_identity c n" "keeps_identity c n"
    using save_state_identity [OF o(4)] save_keeps [OF o(4)] by (auto simp: same_identity_def keeps_defs)
  moreover have "\<not> nd_lease_confirmed n" using save_state_frame [OF o(4)] by auto
  ultimately show ?thesis using o(1) same_trans(3) keeps_trans by blast
qed

lemma opened_boot_counter:
  assumes "node_open dtoa strtod dir lock random n0 = (Ok, n)" "prints_back dtoa strtod (identity_json n)"
    and "s (identity_path n) = dk_fs (nd_disk n) (identity_path n)" "nd_options m = nd_options n" "dk_fs (nd_disk m) = s"
  shows "boot (nd_incarnation n) = nd_boot_counter n \<and> next_boot_counter strtod m = require (tagged_next (nd_boot_counter n)) BoundsExceeded"
proof -
  obtain a where a: "load_identity dtoa strtod random n0 = (Ok, a)" "same_identity a n" "keeps_identity a n"
    using node_open_Ok [OF assms(1)] by blast
  let ?p = "identity_path n"
  have j: "identity_json a = identity_json n" "identity_path a = ?p" "identity_path n0 = ?p" "identity_path m = ?p"
    using a(2) load_identity_Ok(1) [OF a(1)] assms(4) by (simp_all add: same_identity_def identity_json_def identity_path_def)
  have "length (dump dtoa (identity_json a)) \<le> kMaxIntegrityPayloadBytes"
    using assms(2) j by (simp add: prints_back_def default_parse_limits_def kMaxIntegrityPayloadBytes_def)
  from load_identity_Ok(2) [OF a(1) this] obtain info where
    r: "path_exists (dk_fs (nd_disk a)) ?p" "read_integrity_file (dk_fs (nd_disk a)) ?p = Inr (info, dump dtoa (identity_json n))"
    by (auto simp: j)
  have "s ?p = dk_fs (nd_disk a) ?p"
    using away_fs [of "{?p}" "nd_disk a" "nd_disk n" ?p] a(3) j(2) assms(3) by (simp add: keeps_identity_def)
  then have "read_integrity_file s ?p = Inr (info, dump dtoa (identity_json n))" "path_exists s ?p"
    using r read_integrity_file_cong [of s ?p "dk_fs (nd_disk a)"] by (simp_all add: path_exists_def)
  moreover have "json_string (identity_json n) ''component'' = Some (opt_component (nd_options n))"
    "json_u64 (identity_json n) ''boot_counter'' = Some (nd_boot_counter n)"
    by (simp_all add: identity_json_def json_field_defs codec_simps)
  ultimately have "next_boot_counter strtod m = require (tagged_next (nd_boot_counter n)) BoundsExceeded"
    using parse_prints_back [OF assms(2)] assms(4,5) by (simp add: next_boot_counter_def j)
  moreover have "boot (nd_incarnation n) = nd_boot_counter n"
    using load_identity_Ok(1) [OF a(1)] a(2) by (simp add: same_identity_def)
  ultimately show ?thesis by blast
qed

text \<open>C19: A restart is a new incarnation without authority. After a node was opened and handled any requests, opening
  a node on what its disk held at any moment since (a clean stop or a crash anywhere) gives a boot counter one
  above the old one, hence an incarnation different from the one every claim and fence of the old process
  names, and no lease is confirmed: the node refuses every write.\<close>

theorem restart_new_incarnation:
  assumes "node_open dtoa strtod dir lock random n0 = (Ok, n)" "prints_back dtoa strtod (identity_json n)"
    and "extends (nd_disk n) (nd_disk (foldl (node_step dtoa) n xs)) states" "s \<in> set (dk_fs (nd_disk n) # states)"
    and "node_open dtoa strtod dir' lock' random' (fresh_on (nd_options n) d s) = (Ok, m)"
  shows "unat (boot (nd_incarnation m)) = Suc (unat (boot (nd_incarnation n))) \<and> nd_incarnation m \<noteq> nd_incarnation n \<and>
    \<not> nd_lease_confirmed m \<and> require_authority clock claim Mutating m \<noteq> Ok"
proof -
  obtain b where b: "load_identity dtoa strtod random' (fresh_on (nd_options n) d s) = (Ok, b)" "same_identity b m" "\<not> nd_lease_confirmed m"
    using node_open_Ok [OF assms(5)] by blast
  have "s (identity_path n) = dk_fs (nd_disk n) (identity_path n)"
    using run_keeps [of n dtoa xs] assms(3,4) by (auto simp: keeps_identity_def away_def extends_def)
  with opened_boot_counter [OF assms(1,2), of s "fresh_on (nd_options n) d s"]
  have "tagged_next (nd_boot_counter n) = Some (nd_boot_counter b)" "boot (nd_incarnation n) = nd_boot_counter n"
    using load_identity_Ok(1) [OF b(1)] by (cases "tagged_next (nd_boot_counter n)"; simp)+
  moreover have "boot (nd_incarnation m) = nd_boot_counter b"
    using load_identity_Ok(1) [OF b(1)] b(2) by (simp add: same_identity_def)
  ultimately have "unat (boot (nd_incarnation m)) = Suc (unat (boot (nd_incarnation n)))" by (simp add: unat_tagged_next)
  then have "nd_incarnation m \<noteq> nd_incarnation n" by auto
  moreover have "require_authority clock claim Mutating m \<noteq> Ok" using b(3) by (simp add: require_authority_Ok live_mutating_authority_def)
  ultimately show ?thesis using b(3) \<open>unat (boot (nd_incarnation m)) = _\<close> by blast
qed

end
