(* ===== verification/Node_Replica.thy ===== *)
theory Node_Replica
  imports Node_Durable
begin

text \<open>
  Replication between two nodes: the record codec, the invariant of the record log, the transfer of a snapshot
  and the catching up of a successor with the records of its source.
\<close>

section \<open>The record codec\<close>

definition record_ok :: "(u64 \<Rightarrow> string) \<Rightarrow> ReplicationRecord \<Rightarrow> bool" where
  "record_ok dtoa r =
     (rr_lsn r \<noteq> 0 \<and> rr_key r \<noteq> [] \<and> length (rr_key r) \<le> kMaxStateKeyBytes \<and> length (rr_value r) \<le> kMaxStateValueBytes \<and>
      rr_epoch r \<noteq> 0 \<and> rr_generation r \<noteq> 0 \<and> incarnation_wf (rr_origin r) \<and> rr_digest r = replication_record_digest dtoa r)"

lemma record_json_fields:
  "is_object (record_to_json r)" "json_u64 (record_to_json r) ''lsn'' = Some (rr_lsn r)"
  "json_string (record_to_json r) ''key'' = Some (rr_key r)" "json_string (record_to_json r) ''value'' = Some (rr_value r)"
  "json_u64 (record_to_json r) ''epoch'' = Some (rr_epoch r)" "json_u64 (record_to_json r) ''generation'' = Some (rr_generation r)"
  "json_find (record_to_json r) ''origin'' = Some (incarnation_to_json (rr_origin r))"
  "json_string (record_to_json r) ''digest'' = Some (to_hex (rr_digest r))"
  by (simp_all add: record_to_json_def record_body_def json_field_defs codec_simps)

lemma record_digest_ignores [simp]: "replication_record_digest dtoa (r\<lparr>rr_digest := x\<rparr>) = replication_record_digest dtoa r"
  by (simp add: replication_record_digest_def record_body_def)

lemma digest_wf_record: "digest_wf (replication_record_digest dtoa r)"
  by (simp add: replication_record_digest_def digest_wf_text_digest)

lemma record_round_trip:
  assumes "record_ok dtoa r"
  shows "record_from_json dtoa (record_to_json r) = Inr r"
proof -
  let ?b = "\<lparr>rr_lsn = rr_lsn r, rr_key = rr_key r, rr_value = rr_value r, rr_epoch = rr_epoch r, rr_generation = rr_generation r,
    rr_origin = rr_origin r, rr_digest = digest_zero\<rparr>"
  have b: "?b = r\<lparr>rr_digest := digest_zero\<rparr>" by (cases r) simp
  have d: "digest_wf (rr_digest r)" using assms digest_wf_record by (simp add: record_ok_def)
  have "r\<lparr>rr_digest := replication_record_digest dtoa r\<rparr> = r" using assms by (cases r) (simp add: record_ok_def)
  with assms d show ?thesis
    unfolding record_from_json_def record_ok_def
    by (simp add: record_json_fields codec_simps b Let_def incarnation_codec.round_trip)
qed

interpretation record_codec: json_codec record_to_json "record_from_json dtoa" "record_ok dtoa" for dtoa
  by unfold_locales (rule record_round_trip)

lemma record_from_json_ok:
  assumes "record_from_json dtoa j = Inr r"
  shows "rr_lsn r \<noteq> 0 \<and> rr_key r \<noteq> [] \<and> rr_digest r = replication_record_digest dtoa r"
  using assms unfolding record_from_json_def
  by (auto simp: Let_def positive_Some replication_record_digest_def record_body_def split: option.splits)

section \<open>The invariant of a node\<close>

text \<open>The document is within its bounds; the log holds positions in ascending order up to the position of the
  node, each record with the digest of its contents; authority is confirmed for a lease only.\<close>

definition log_inv :: "(u64 \<Rightarrow> string) \<Rightarrow> ControlPlaneNode \<Rightarrow> bool" where
  "log_inv dtoa n =
     (doc_wf (nd_document n) \<and> sorted_wrt (<) (map rr_lsn (nd_records n)) \<and>
      (\<forall>r \<in> set (nd_records n). rr_lsn r \<le> nd_lsn n \<and> rr_digest r = replication_record_digest dtoa r))"

definition node_inv :: "(u64 \<Rightarrow> string) \<Rightarrow> ControlPlaneNode \<Rightarrow> bool" where
  "node_inv dtoa n = (log_inv dtoa n \<and> (nd_lease_confirmed n \<longrightarrow> nd_lease n \<noteq> None))"

lemma log_inv_cong: "same_log n n' \<Longrightarrow> log_inv dtoa n \<Longrightarrow> log_inv dtoa n'"
  by (simp add: same_log_def log_inv_def)

lemma sorted_suffix: "sorted_wrt (<) (map f xs) \<Longrightarrow> sorted_wrt (<) (map f (drop k xs))"
  by (metis drop_map sorted_wrt_drop)

lemma log_inv_logged:
  assumes "log_inv dtoa n" "logged r (advanced r d n) n'" "tagged_next (nd_lsn n) = Some (rr_lsn r)" "doc_wf d"
    "rr_digest r = replication_record_digest dtoa r"
  shows "log_inv dtoa n'"
proof -
  have lt: "nd_lsn n < rr_lsn r" using assms(3) by (rule tagged_next_greater)
  have old: "rr_lsn x < rr_lsn r" if "x \<in> set (nd_records n)" for x using assms(1) that lt by (auto simp: log_inv_def)
  have f: "nd_document n' = d" "nd_lsn n' = rr_lsn r"
    using logged_frame [OF assms(2)] by (simp_all add: advanced_frame)
  have "\<exists>k. nd_records n' = nd_records n \<or> nd_records n' = drop k (nd_records n @ [r])"
    using assms(2) by (auto simp: logged_def advanced_frame simp del: drop_append)
  then obtain k where "nd_records n' = nd_records n \<or> nd_records n' = drop k (nd_records n @ [r])" by blast
  moreover have "sorted_wrt (<) (map rr_lsn (nd_records n @ [r]))" using assms(1) old by (auto simp: log_inv_def sorted_wrt_append)
  moreover have "sorted_wrt (<) (map rr_lsn (nd_records n))" using assms(1) by (simp add: log_inv_def)
  ultimately have "sorted_wrt (<) (map rr_lsn (nd_records n'))" by (metis sorted_suffix)
  moreover have "set (drop k (nd_records n @ [r])) \<subseteq> insert r (set (nd_records n))"
    using set_drop_subset [of k "nd_records n @ [r]"] by (simp del: drop_append)
  then have "set (nd_records n') \<subseteq> insert r (set (nd_records n))"
    using \<open>nd_records n' = nd_records n \<or> _\<close> by (metis subset_insertI)
  ultimately have "sorted_wrt (<) (map rr_lsn (nd_records n'))" "set (nd_records n') \<subseteq> insert r (set (nd_records n))" by simp_all
  with f assms(1,4,5) old show ?thesis by (auto simp: log_inv_def dest: less_imp_le)
qed

lemma put_wf: "doc_wf d \<Longrightarrow> doc_put k v d = (d', s) \<Longrightarrow> doc_wf d'"
  using doc_put_wf [of d k v] by simp

lemma put_entries_wf: "put_entries e es d = Inr d' \<Longrightarrow> doc_wf d \<Longrightarrow> doc_wf d'"
proof (induction e es d rule: put_entries.induct)
  case (2 e k v es d)
  then obtain t d1 where "try_string v = Some t" "doc_put k t d = (d1, Ok)" "put_entries e es d1 = Inr d'"
    by (cases "try_string v"; cases "doc_put k (the (try_string v)) d") (auto split: if_splits)
  with 2 show ?case using put_wf by metis
qed simp

lemma written_digest: "rr_digest (written dtoa key val e g i l) = replication_record_digest dtoa (written dtoa key val e g i l)"
  by (simp add: written_def Let_def replication_record_digest_def record_body_def)

lemma doc_wf_empty: "doc_wf \<lparr>doc_schema = s, doc_fields = []\<rparr>"
  by (simp add: doc_wf_def omap_wf_def)

lemma apply_write_inv:
  assumes "apply_write dtoa key val e g i n = (st, n')" "log_inv dtoa n"
  shows "log_inv dtoa n'"
  using assms(1)
proof (cases rule: apply_write_cases)
  case (2 nxt d)
  have "doc_wf d" using put_wf 2(2) assms(2) by (auto simp: log_inv_def)
  with log_inv_logged [OF assms(2) 2(3)] 2(1) written_digest show ?thesis by simp
qed (simp add: assms(2))

lemma apply_entries_inv: "apply_entries dtoa expected js n = (st, n') \<Longrightarrow> log_inv dtoa n \<Longrightarrow> log_inv dtoa n'"
proof (induction js arbitrary: n)
  case (Cons j js)
  from Cons.prems(1) obtain s m where m: "apply_entry dtoa expected j n = (s, m)" "n' = m \<or> apply_entries dtoa expected js m = (st, n')"
    by (auto simp: and_then_eq)
  have "log_inv dtoa m"
    using m(1)
  proof (cases rule: apply_entry_cases)
    case (2 entry d)
    have "doc_wf d" using put_wf 2(4) Cons.prems(2) by (auto simp: log_inv_def)
    with log_inv_logged [OF Cons.prems(2) append_logged [OF 2(5)]] 2(3) record_from_json_ok [OF 2(1)] show ?thesis by simp
  qed (simp add: Cons.prems(2))
  with m(2) Cons.IH [of m] show ?case by blast
qed simp

lemma forward_loop_wf: "forward_loop dtoa path d c out = Inr (d', c', out') \<Longrightarrow> doc_wf d \<Longrightarrow> doc_wf d'"
proof (induction path arbitrary: d c out)
  case (Cons spec path)
  from Cons.prems(1) obtain w rec out1 where f: "forward_step dtoa spec d = Inr (w, rec)"
      "forward_loop dtoa path w (ms_to spec) out1 = Inr (d', c', out')" by (rule forward_loop_Cons)
  from Cons.IH [OF f(2)] forward_step_keeps(3) [OF f(1)] Cons.prems(2) show ?case by blast
qed simp

lemma migrate_forward_wf: "migrate_forward dtoa path d = (d', Inr outcome) \<Longrightarrow> doc_wf d \<Longrightarrow> doc_wf d'"
  by (auto simp: migrate_forward_def split: sum.splits dest: forward_loop_wf)

lemma dispatch_log_inv:
  assumes "node_dispatch dtoa clock op body n = (res, n')" "log_inv dtoa n"
  shows "log_inv dtoa n'"
proof -
  consider (W) "op = ''node.write''" | (I) "op = ''node.install_snapshot''" | (A) "op = ''node.apply_records''" | (G) "op = ''node.migrate''"
    | (O) "op \<notin> {''node.write'', ''node.install_snapshot'', ''node.apply_records'', ''node.migrate''}" by blast
  then show ?thesis
  proof cases
    case W
    with assms(1) have "node_write dtoa clock body n = (res, n')" by (simp add: node_dispatch_def)
    then show ?thesis
    proof (cases rule: node_write_cases)
      case refused
      with assms(2) show ?thesis by (blast intro: log_inv_cong)
    next
      case (tried claim key val lease m st)
      have "same_log m n'" using tried(7) by (auto simp: same_defs)
      with apply_write_inv [OF tried(6) assms(2)] show ?thesis by (rule log_inv_cong [rotated])
    qed
  next
    case I
    with assms(1) have "node_install_snapshot dtoa body n = (res, n')" by (simp add: node_dispatch_def)
    then show ?thesis
    proof (cases rule: install_effect)
      case (installed expected)
      have "doc_wf (nd_document n')" using installed(3) put_entries_wf doc_wf_empty by (auto simp: incoming_snapshot_def)
      with installed(5) show ?thesis by (simp add: log_inv_def)
    qed (simp add: assms(2))
  next
    case A
    with assms(1) have "node_apply_records dtoa body n = (res, n')" by (simp add: node_dispatch_def)
    then show ?thesis
    proof (cases rule: apply_records_cases)
      case (applied expected source binding entries st m)
      have "same_log m n'" using applied(9) by (auto simp: same_defs dest!: save_state_frame)
      with apply_entries_inv [OF applied(8) assms(2)] show ?thesis by (rule log_inv_cong [rotated])
    qed (simp add: assms(2))
  next
    case G
    with assms(1) have "node_migrate dtoa clock body n = (res, n')" by (simp add: node_dispatch_def)
    then show ?thesis
    proof (cases rule: migrate_cases)
      case (migrated h path outcome)
      have "doc_wf (nd_document n')" using migrate_forward_wf [OF migrated(2)] assms(2) by (simp add: log_inv_def)
      with migrated(3,4) assms(2) show ?thesis by (simp add: log_inv_def)
    qed (simp add: assms(2))
  next
    case O
    with dispatch_log [OF assms(1)] assms(2) show ?thesis by (blast intro: log_inv_cong)
  qed
qed


lemma dispatch_confirmed:
  assumes "node_dispatch dtoa clock op body n = (res, n')" "nd_lease_confirmed n \<longrightarrow> nd_lease n \<noteq> None"
  shows "nd_lease_confirmed n' \<longrightarrow> nd_lease n' \<noteq> None"
proof -
  consider (F) "op = ''node.fence''" | (G) "op = ''node.grant_authority''" | (A) "op = ''node.reattest''" | (R) "op = ''node.retire''"
    | (O) "op \<notin> {''node.fence'', ''node.grant_authority'', ''node.reattest'', ''node.retire''}" by blast
  then show ?thesis
  proof cases
    case F
    with assms show ?thesis
      by (auto simp: node_dispatch_def node_fence_def step_eqs simp del: rbind_eq_Inr split: if_splits dest!: save_state_frame)
  next
    case G
    with assms show ?thesis by (auto simp: node_dispatch_def node_grant_authority_def step_eqs dest!: save_state_frame)
  next
    case A
    with assms show ?thesis by (auto simp: node_dispatch_def node_reattest_def step_eqs simp del: rbind_eq_Inr)
  next
    case R
    with assms show ?thesis by (auto simp: node_dispatch_def node_retire_def step_eqs dest!: save_state_frame)
  next
    case O
    from dispatch_authority [OF assms(1) O] assms(2) show ?thesis by (simp add: same_authority_def)
  qed
qed

lemma node_step_inv: "node_inv dtoa n \<Longrightarrow> node_inv dtoa (node_step dtoa n x)"
proof -
  assume i: "node_inv dtoa n"
  obtain resp n' where h: "node_handle dtoa (fst x) (snd x) n = (resp, n')" by fastforce
  then obtain m where m: "same_log n m" "same_authority n m"
      "n' = m \<or> (\<exists>res. node_dispatch dtoa (fst x) (rq_op (snd x)) (rq_body (snd x)) m = (res, n'))"
    by (rule node_handle_cases) blast
  have "log_inv dtoa m" "nd_lease_confirmed m \<longrightarrow> nd_lease m \<noteq> None"
    using i m(1,2) log_inv_cong by (auto simp: node_inv_def same_authority_def)
  then have "node_inv dtoa n'" using m(3) dispatch_log_inv dispatch_confirmed by (auto simp: node_inv_def)
  with h show ?thesis by (simp add: node_step_def)
qed

interpretation node_machine: invariant_machine "node_step dtoa" "\<lambda>_ _. True" "node_inv dtoa" for dtoa
  by unfold_locales (rule node_step_inv)

lemma all_admissible: "node_machine.admissible dtoa n xs"
  by (induction xs arbitrary: n) auto

lemma put_entries_never_ok: "e \<noteq> Ok \<Longrightarrow> put_entries e es d \<noteq> Inl Ok"
proof (induction es arbitrary: d)
  case (Cons x es)
  then show ?case by (cases x; cases "try_string (snd x)") (auto simp: case_prod_unfold)
qed simp

lemma restore_state_wf:
  assumes "restore_state j n = (Ok, m)"
  shows "doc_wf (nd_document m)"
proof -
  have "stored_document j \<noteq> Inl Ok"
    by (auto simp: stored_document_def rbind_eq_Inl put_entries_never_ok)
  with assms obtain d where "stored_document j = Inr d" "nd_document m = d"
    by (auto simp: restore_state_def Let_def and_then_eq restore_frames split: sum.splits option.splits prod.splits)
  then show ?thesis using put_entries_wf doc_wf_empty by (auto simp: stored_document_def)
qed

lemma load_state_wf:
  assumes "load_state strtod n = (Ok, m)"
  shows "doc_wf (nd_document m)"
  using assms restore_state_wf doc_wf_empty recovery_never_ok
  by (auto simp: load_state_def split: if_splits sum.splits option.splits)

lemma load_records_none:
  assumes "dk_fs (nd_disk n) (records_path n) = None"
  shows "load_records dtoa strtod n = (Ok, n\<lparr>nd_records := []\<rparr>)"
  using assms by (simp add: load_records_def read_records_def path_exists_def report_empty_def)

lemma load_identity_log:
  assumes "load_identity dtoa strtod random n = (Ok, a)"
  shows "dk_fs (nd_disk a) (records_path n) = dk_fs (nd_disk n) (records_path n) \<and> nd_options a = nd_options n"
proof -
  let ?n = "n\<lparr>nd_boot_counter := nd_boot_counter a, nd_incarnation := \<lparr>component = opt_component (nd_options n),
      uuid = random_uuid (fst random) (snd random), boot = nd_boot_counter a\<rparr>\<rparr>"
  have s: "on_disk (disk_write_integrity (identity_path ?n) (dump dtoa (identity_json ?n)) False) ?n = (Ok, a)"
    using assms load_identity_Ok(1) [OF assms] by (simp add: load_identity_def save_identity_def)
  have "away {records_path n} (nd_disk ?n) (nd_disk a)"
    by (rule write_integrity_away [OF on_disk_disk [OF s]])
      (simp_all add: records_path_def identity_path_def temporary_path_def backup_path_def)
  with away_fs [of "{records_path n}" "nd_disk ?n" "nd_disk a"] load_identity_Ok(1) [OF assms] show ?thesis by simp
qed

lemma open_fresh_inv:
  assumes "node_open dtoa strtod dir lock random n0 = (Ok, n)" "dk_fs (nd_disk n0) (records_path n0) = None"
  shows "node_inv dtoa n"
proof -
  from assms(1) obtain a b c where o: "load_identity dtoa strtod random n0 = (Ok, a)" "load_state strtod a = (Ok, b)"
      "load_records dtoa strtod b = (Ok, c)"
      "save_state dtoa (c\<lparr>nd_lifecycle := (if nd_retired_marker c then NodeRetired else NodeRecovering), nd_lease_confirmed := False\<rparr>) = (Ok, n)"
    by (auto simp: node_open_def and_then_eq split: if_splits)
  have "dk_fs (nd_disk b) (records_path b) = None"
    using load_state_frame [OF o(2)] load_identity_log [OF o(1)] assms(2) paths_cong [of b n0] by (simp add: same_identity_def)
  from load_records_none [OF this] o(3) have c: "c = b\<lparr>nd_records := []\<rparr>" by simp
  show ?thesis using save_state_frame [OF o(4)] load_state_wf [OF o(2)] by (auto simp: c node_inv_def log_inv_def)
qed

text \<open>C20: The invariant of a running node. A node opened on a directory without a record log keeps, through every
  sequence of requests and whatever its disk answers: its document is within the bounds of keys, values and
  field count, with every key once and in order; the log positions of its records ascend strictly and do not
  pass its own position; every record carries the digest of its contents; and authority is confirmed only
  while a lease is held.\<close>

theorem node_invariant:
  assumes "node_open dtoa strtod dir lock random n0 = (Ok, n)" "dk_fs (nd_disk n0) (records_path n0) = None"
  shows "node_inv dtoa (foldl (node_step dtoa) n xs)"
  using open_fresh_inv [OF assms] by (rule node_machine.inv_run [OF _ all_admissible])

section \<open>Catching up\<close>

text \<open>What a sequence of records of one origin does to a position and a document.\<close>

fun replay :: "IncarnationId \<Rightarrow> ReplicationRecord list \<Rightarrow> LogSequenceNumber \<times> StateDocument \<Rightarrow> (LogSequenceNumber \<times> StateDocument) option" where
  "replay i [] s = Some s"
| "replay i (r # rs) (l, d) =
     (if rr_origin r = i \<and> tagged_next l = Some (rr_lsn r)
      then (case doc_put (rr_key r) (rr_value r) d of (d', put) \<Rightarrow> if put = Ok then replay i rs (rr_lsn r, d') else None)
      else None)"

lemma replay_append: "replay i (xs @ ys) s = (case replay i xs s of None \<Rightarrow> None | Some s' \<Rightarrow> replay i ys s')"
  by (induction i xs s rule: replay.induct) (auto split: prod.splits)

lemma replay_positions: "replay i rs (l, d) = Some s \<Longrightarrow> r \<in> set rs \<Longrightarrow> l < rr_lsn r"
proof (induction rs arbitrary: l d)
  case (Cons x rs)
  then obtain d' where "tagged_next l = Some (rr_lsn x)" "replay i rs (rr_lsn x, d') = Some s"
    by (auto split: if_splits prod.splits)
  with Cons.IH [of "rr_lsn x" d'] Cons.prems(2) tagged_next_greater [of l "rr_lsn x"] show ?case by fastforce
qed simp

text \<open>Appending to the log with room in it.\<close>

lemma append_with_room:
  assumes "append_record_entry dtoa r n = (Ok, n')" "length (nd_records n) < opt_max_log_records (nd_options n)"
  shows "\<exists>d. n' = n\<lparr>nd_disk := d, nd_records := nd_records n @ [r]\<rparr>" "length (dump dtoa (record_to_json r)) \<le> kMaxRecordBytes"
proof -
  obtain s m where m: "on_disk (disk_append (records_path n) (dump dtoa (record_to_json r))) n = (s, m)" by fastforce
  from on_disk_frame [OF m] obtain d where d: "m = n\<lparr>nd_disk := d\<rparr>" by blast
  have s: "s = Ok" using assms(1) m by (auto simp: append_record_entry_def and_then_def split: if_splits)
  with assms m d show "\<exists>d. n' = n\<lparr>nd_disk := d, nd_records := nd_records n @ [r]\<rparr>"
    by (auto simp: append_record_entry_def and_then_def Let_def)
  have "disk_append (records_path n) (dump dtoa (record_to_json r)) (nd_disk n) = (Ok, nd_disk m)" using on_disk_disk [OF m] s by simp
  then show "length (dump dtoa (record_to_json r)) \<le> kMaxRecordBytes"
    by (auto simp: disk_append_def disk_call_def append_record_def split: prod.splits if_splits)
qed

lemma append_reliable:
  assumes "reliable (nd_disk n)" "length (dump dtoa (record_to_json r)) \<le> kMaxRecordBytes"
    "length (nd_records n) < opt_max_log_records (nd_options n)"
  shows "\<exists>d. append_record_entry dtoa r n = (Ok, n\<lparr>nd_disk := d, nd_records := nd_records n @ [r]\<rparr>) \<and> reliable d"
proof -
  obtain s m where m: "on_disk (disk_append (records_path n) (dump dtoa (record_to_json r))) n = (s, m)" by fastforce
  from on_disk_frame [OF m] obtain d where d: "m = n\<lparr>nd_disk := d\<rparr>" by blast
  have a: "disk_append (records_path n) (dump dtoa (record_to_json r)) (nd_disk n) = (s, d)" using on_disk_disk [OF m] d by simp
  have "s = Ok" "reliable d" using reliable_append [OF assms(1,2), of "records_path n"] disk_frame(3) [OF a] assms(1) a by auto
  with m d assms(3) show ?thesis by (auto simp: append_record_entry_def and_then_def Let_def)
qed

text \<open>A successor that is where the records start ends where they end.\<close>

lemma apply_entries_replay:
  assumes "replay (sb_source b) rs (nd_lsn t, nd_document t) = Some (l, d)" "\<forall>r \<in> set rs. record_ok dtoa r"
    "\<forall>r \<in> set rs. length (dump dtoa (record_to_json r)) \<le> kMaxRecordBytes" "reliable (nd_disk t)"
    "length (nd_records t) + length rs \<le> opt_max_log_records (nd_options t)"
  shows "\<exists>t'. apply_entries dtoa b (map record_to_json rs) t = (Ok, t') \<and> nd_lsn t' = l \<and> nd_document t' = d \<and> reliable (nd_disk t')"
  using assms
proof (induction rs arbitrary: t)
  case (Cons r rs)
  from Cons.prems(1) obtain d1 where r: "rr_origin r = sb_source b" "tagged_next (nd_lsn t) = Some (rr_lsn r)"
      "doc_put (rr_key r) (rr_value r) (nd_document t) = (d1, Ok)" "replay (sb_source b) rs (rr_lsn r, d1) = Some (l, d)"
    by (auto split: if_splits prod.splits)
  let ?a = "advanced r d1 t"
  obtain dd where a: "append_record_entry dtoa r ?a = (Ok, ?a\<lparr>nd_disk := dd, nd_records := nd_records ?a @ [r]\<rparr>)" "reliable dd"
    using append_reliable [of ?a dtoa r] Cons.prems by (auto simp: advanced_def)
  let ?t = "?a\<lparr>nd_disk := dd, nd_records := nd_records ?a @ [r]\<rparr>"
  have "apply_entry dtoa b (record_to_json r) t = (Ok, ?t)"
    using r a(1) Cons.prems(2) by (simp add: apply_entry_alt record_round_trip)
  moreover have "\<exists>t'. apply_entries dtoa b (map record_to_json rs) ?t = (Ok, t') \<and> nd_lsn t' = l \<and> nd_document t' = d \<and> reliable (nd_disk t')"
    by (rule Cons.IH) (use Cons.prems r(4) a(2) in \<open>simp_all add: advanced_def\<close>)
  ultimately show ?case by (simp add: and_then_def)
qed simp

section \<open>The records of the source\<close>

text \<open>Writes that were all acknowledged, in order.\<close>

fun all_acked :: "(u64 \<Rightarrow> string) \<Rightarrow> ControlPlaneNode \<Rightarrow> timed_request list \<Rightarrow> bool" where
  "all_acked dtoa n [] = True"
| "all_acked dtoa n (x # xs) =
     (rq_op (snd x) = ''node.write'' \<and> rs_status (fst (node_handle dtoa (fst x) (snd x) n)) = Ok \<and>
      all_acked dtoa (node_step dtoa n x) xs)"

definition sends :: "(u64 \<Rightarrow> string) \<Rightarrow> ReplicationRecord \<Rightarrow> bool" where
  "sends dtoa r = (record_ok dtoa r \<and> length (dump dtoa (record_to_json r)) \<le> kMaxRecordBytes)"

lemma written_ok:
  assumes "doc_put key val d = (d', Ok)" "l \<noteq> 0" "e \<noteq> 0" "g \<noteq> 0" "incarnation_wf i"
  shows "record_ok dtoa (written dtoa key val e g i l)"
  using assms written_digest [of dtoa key val e g i l] by (auto simp: record_ok_def written_def Let_def doc_put_Ok)

lemma acked_write:
  assumes "node_handle dtoa clock req n = (resp, n')" "rq_op req = ''node.write''" "rs_status resp = Ok" "incarnation_wf (nd_incarnation n)"
    "length (nd_records n) < opt_max_log_records (nd_options n)"
  shows "\<exists>r. sends dtoa r \<and> nd_records n' = nd_records n @ [r] \<and>
    replay (nd_incarnation n) [r] (nd_lsn n, nd_document n) = Some (nd_lsn n', nd_document n') \<and> same_identity n n'"
proof -
  from assms(1) obtain m where m: "same_log n m" "same_authority n m" "same_identity n m"
    and c: "rs_status resp = Internal \<and> n' = m \<or>
      (\<exists>res. node_dispatch dtoa clock (rq_op req) (rq_body req) m = (res, n') \<and> rs_status resp = result_status res)"
    by (rule node_handle_cases) blast
  from c assms(2,3) obtain res where w: "node_write dtoa clock (rq_body req) m = (res, n')" "result_status res = Ok"
    by (auto simp: node_dispatch_def)
  from w(1) show ?thesis
  proof (cases rule: node_write_cases)
    case (refused e)
    with w(2) show ?thesis by (simp add: result_status_def)
  next
    case (tried claim key val lease a st)
    have st: "st = Ok" "same_log a n'" "same_identity a n'" using tried(7) w(2) by (auto simp: result_status_def same_defs)
    have eg: "lease_epoch lease \<noteq> 0" "lease_generation lease \<noteq> 0"
      using tried(2,5) by (auto simp: live_mutating_authority_def claim_is_valid_def tagged_is_valid_def)
    from tried(6) st(1) obtain nxt d where nd: "tagged_next (nd_lsn m) = Some nxt" "doc_put key val (nd_document m) = (d, Ok)"
      by (auto simp: apply_write_alt split: option.splits prod.splits if_splits)
    let ?r = "written dtoa key val (lease_epoch lease) (lease_generation lease) (nd_incarnation m) nxt"
    obtain k where k: "append_record_entry dtoa ?r (advanced ?r d m) = (Ok, k)" "save_state dtoa k = (Ok, a)"
      using tried(6) st(1) nd by (auto simp: apply_write_alt Let_def and_then_eq)
    have room: "length (nd_records (advanced ?r d m)) < opt_max_log_records (nd_options (advanced ?r d m))"
      using assms(5) m by (simp add: advanced_def same_defs)
    have a: "nd_records a = nd_records m @ [?r]" "nd_lsn a = nxt" "nd_document a = d" "same_identity m a"
      using append_with_room(1) [OF k(1) room] save_state_frame [OF k(2)] by (auto simp: advanced_def same_identity_def)
    have "nxt \<noteq> 0" using tagged_next_valid [OF nd(1)] by (simp add: tagged_is_valid_def)
    then have "sends dtoa ?r"
      using written_ok [OF nd(2) _ eg] assms(4) m(3) append_with_room(2) [OF k(1) room] by (simp add: sends_def same_identity_def)
    moreover have "replay (nd_incarnation n) [?r] (nd_lsn n, nd_document n) = Some (nd_lsn n', nd_document n')"
      using nd a st(2) m by (simp add: same_defs written_def Let_def)
    moreover have "same_identity n n'" using m(3) a(4) st(3) same_trans(3) by blast
    ultimately show ?thesis using a(1) st(2) m(1) by (auto simp: same_log_def)
  qed
qed

lemma acked_run:
  assumes "all_acked dtoa n xs" "incarnation_wf (nd_incarnation n)" "length (nd_records n) + length xs \<le> opt_max_log_records (nd_options n)"
  shows "\<exists>rs. nd_records (foldl (node_step dtoa) n xs) = nd_records n @ rs \<and> length rs = length xs \<and> (\<forall>r \<in> set rs. sends dtoa r) \<and>
    replay (nd_incarnation n) rs (nd_lsn n, nd_document n) =
      Some (nd_lsn (foldl (node_step dtoa) n xs), nd_document (foldl (node_step dtoa) n xs))"
  using assms
proof (induction xs arbitrary: n)
  case (Cons x xs)
  let ?n = "node_step dtoa n x"
  obtain r where r: "sends dtoa r" "nd_records ?n = nd_records n @ [r]"
      "replay (nd_incarnation n) [r] (nd_lsn n, nd_document n) = Some (nd_lsn ?n, nd_document ?n)" "same_identity n ?n"
    using acked_write [of dtoa "fst x" "snd x" n "fst (node_handle dtoa (fst x) (snd x) n)" ?n] Cons.prems by (auto simp: node_step_def)
  with Cons.IH [of ?n] Cons.prems obtain rs where rs: "nd_records (foldl (node_step dtoa) ?n xs) = nd_records ?n @ rs" "length rs = length xs"
      "\<forall>r \<in> set rs. sends dtoa r" "replay (nd_incarnation n) rs (nd_lsn ?n, nd_document ?n) =
        Some (nd_lsn (foldl (node_step dtoa) ?n xs), nd_document (foldl (node_step dtoa) ?n xs))"
    by (auto simp: same_identity_def)
  have "replay (nd_incarnation n) ([r] @ rs) (nd_lsn n, nd_document n) =
      Some (nd_lsn (foldl (node_step dtoa) ?n xs), nd_document (foldl (node_step dtoa) ?n xs))"
    unfolding replay_append r(3) option.case by (rule rs(4))
  with r rs show ?case by (intro exI [of _ "[r] @ rs"]) simp
qed simp

section \<open>Two nodes\<close>

text \<open>The request by which a prepared successor receives records for its handoff.\<close>

definition bound_request :: "json \<Rightarrow> SourceBinding \<Rightarrow> bool" where
  "bound_request body b =
     (json_u64 body ''handoff'' = Some (sb_handoff b) \<and> sb_handoff b \<noteq> 0 \<and>
      (case json_find body ''source'' of
         None \<Rightarrow> False
       | Some j \<Rightarrow> (case parse_source_binding j of Inl _ \<Rightarrow> False | Inr p \<Rightarrow> binding_matches p b)))"

lemma apply_records_bound:
  assumes "bound_request body b" "nd_expected_source t = Some b" "json_find body ''records'' = Some (JArray js)"
    "length js \<le> opt_max_records_per_response (nd_options t)"
  shows "node_apply_records dtoa body t =
     saved (apply_entries dtoa b js t) (\<lambda>n1. saved (save_state dtoa n1) (\<lambda>n2.
       (Inr (json_object [(''applied'', JUInt (of_nat (length js))), (''lsn'', JUInt (nd_lsn n2))]), n2)))"
proof -
  from assms(1) obtain j p where j: "json_find body ''source'' = Some j" "parse_source_binding j = Inr p" "binding_matches p b"
    by (auto simp: bound_request_def split: option.splits sum.splits)
  have h: "require_prepared body t = Inr (sb_handoff b, b)"
    using assms(1,2) by (simp add: require_prepared_def parse_handoff_id_def bound_request_def codec_simps)
  have "binding_matches (p\<lparr>sb_handoff := sb_handoff b\<rparr>) b" using j(3) by (simp add: binding_matches_def)
  moreover have "json_size (JArray js) = length js" by (simp add: json_size_def try_array_def)
  ultimately show ?thesis
    using assms(3,4) j h json_elements [of js] by (simp add: node_apply_records_def checked_def codec_simps)
qed

lemma records_since_new:
  assumes "\<forall>r \<in> set old. rr_lsn r \<le> from" "\<forall>r \<in> set rs. from < rr_lsn r" "length rs \<le> limit"
  shows "records_since from limit (old @ rs) = rs"
proof -
  have "filter (\<lambda>r. \<not> rr_lsn r \<le> from) old = []" using assms(1) by (simp add: filter_empty_conv)
  moreover have "filter (\<lambda>r. \<not> rr_lsn r \<le> from) rs = rs" using assms(2) by (simp add: filter_id_conv not_le)
  ultimately show ?thesis using assms(3) by (simp add: records_since_def)
qed

lemma incoming_image:
  assumes "json_find body ''snapshot'' = Some (snapshot_image False m)" "doc_wf (nd_document m)" "doc_schema (nd_document m) \<noteq> 0"
    "digest_wf (nd_recorded_snapshot_digest m)"
  shows "incoming_snapshot body = Inr (nd_document m, nd_lsn m, nd_recorded_snapshot_digest m)"
proof -
  let ?s = "snapshot_image False m"
  have f: "is_object ?s" "json_u64 ?s ''schema'' = Some (ucast (doc_schema (nd_document m)))" "json_u64 ?s ''lsn'' = Some (nd_lsn m)"
    "json_string ?s ''digest'' = Some (to_hex (nd_recorded_snapshot_digest m))"
    "json_find ?s ''fields'' = Some (JObject (map (\<lambda>(k, v). (k, JString v)) (doc_fields (nd_document m))))"
    using assms(2) by (simp_all add: snapshot_image_def Let_def json_field_defs codec_simps fields_to_json_wf)
  have "schema_version_field ?s ''schema'' = Inr (doc_schema (nd_document m))"
    using f(2) assms(3) by (rule schema_version_field_round_trip)
  with assms f show ?thesis
    by (simp add: incoming_snapshot_def codec_simps try_object_def put_entries_document)
qed

lemma snapshot_answer:
  assumes "node_snapshot dtoa sbody n = (Inr reply, n')" "fst (take_fault ''node.snapshot.corrupt'' n) = None"
  shows "\<exists>m. json_find reply ''snapshot'' = Some (snapshot_image False m) \<and> nd_document m = nd_document n \<and> nd_lsn m = nd_lsn n \<and>
    nd_recorded_snapshot_digest m = snapshot_digest dtoa (nd_document n) (nd_lsn n)"
proof -
  obtain n1 where n1: "take_fault ''node.snapshot.corrupt'' n = (None, n1)" using assms(2) by (metis prod.collapse)
  have e: "nd_document n1 = nd_document n" "nd_lsn n1 = nd_lsn n" using take_fault_frame [OF n1] by (simp_all add: same_log_def)
  let ?m = "\<lambda>i. n1\<lparr>nd_last_snapshot_id := i, nd_last_snapshot_lsn := nd_lsn n1,
      nd_recorded_snapshot_digest := snapshot_digest dtoa (nd_document n1) (nd_lsn n1)\<rparr>"
  from assms(1) obtain i where "json_find reply ''snapshot'' = Some (snapshot_image False (?m i))"
    unfolding node_snapshot_def Let_def n1 prod.case
    by (auto simp: step_eqs json_object_def codec_simps split: option.splits)
  with e show ?thesis by (intro exI [of _ "?m i"]) simp
qed

lemma save_reliable:
  assumes "save_state dtoa m = (st, k)" "reliable (nd_disk m)" "length (dump dtoa (state_json m)) \<le> kMaxIntegrityPayloadBytes"
  shows "st = Ok"
  using assms reliable_write_integrity [OF assms(2,3), of "state_path m" True]
  by (auto simp: save_state_def on_disk_def split: prod.splits)

text \<open>C21: A successor catches up. Let a source handle any sequence of writes, all acknowledged, within the room of
  its log and of one response. A successor that has the document and the position the source had before, and
  was prepared for the incarnation of the source, applies the records the source then answers for that
  position, on a disk that works: it ends with exactly the document and the position of the source, and the
  request succeeds if the resulting state fits into a state file.\<close>

theorem replica_catches_up:
  assumes "all_acked dtoa n xs" "log_inv dtoa n" "incarnation_wf (nd_incarnation n)"
    and "length (nd_records n) + length xs \<le> opt_max_log_records (nd_options n)"
    and "node_read_since rb (foldl (node_step dtoa) n xs) = (Inr reply, n'')" "json_u64 rb ''from_lsn'' = Some (nd_lsn n)"
    and "length xs \<le> min (unat (json_u64_or rb ''max_records'' 128)) (opt_max_records_per_response (nd_options n))"
    and "nd_document t = nd_document n" "nd_lsn t = nd_lsn n" "nd_expected_source t = Some b" "sb_source b = nd_incarnation n"
    and "bound_request body b" "json_find body ''records'' = json_find reply ''records''"
    and "length xs \<le> opt_max_records_per_response (nd_options t)" "length (nd_records t) + length xs \<le> opt_max_log_records (nd_options t)"
    and "reliable (nd_disk t)" "node_apply_records dtoa body t = (res, t')"
  shows "nd_document t' = nd_document (foldl (node_step dtoa) n xs) \<and> nd_lsn t' = nd_lsn (foldl (node_step dtoa) n xs) \<and>
    (length (dump dtoa (state_json t')) \<le> kMaxIntegrityPayloadBytes \<longrightarrow> (\<exists>answer. res = Inr answer))"
proof -
  let ?n = "foldl (node_step dtoa) n xs"
  from acked_run [OF assms(1,3,4)] obtain rs where rs: "nd_records ?n = nd_records n @ rs" "length rs = length xs"
      "\<forall>r \<in> set rs. sends dtoa r" "replay (nd_incarnation n) rs (nd_lsn n, nd_document n) = Some (nd_lsn ?n, nd_document ?n)" by blast
  have opt: "nd_options ?n = nd_options n" using run_keeps [of n dtoa xs] by (simp add: keeps_identity_def)
  have "records_since (nd_lsn n) (min (unat (json_u64_or rb ''max_records'' 128)) (opt_max_records_per_response (nd_options n))) (nd_records ?n) = rs"
    unfolding rs(1) using assms(2,7) rs(2) replay_positions [OF rs(4)] by (intro records_since_new) (auto simp: log_inv_def)
  then have "json_find reply ''records'' = Some (JArray (map record_to_json rs))"
    using assms(5,6) opt by (auto simp: node_read_since_def checked_def Let_def json_object_def codec_simps)
  with assms have app: "node_apply_records dtoa body t = saved (apply_entries dtoa b (map record_to_json rs) t)
      (\<lambda>n1. saved (save_state dtoa n1) (\<lambda>n2. (Inr (json_object [(''applied'', JUInt (of_nat (length (map record_to_json rs)))), (''lsn'', JUInt (nd_lsn n2))]), n2)))"
    using rs(2) by (intro apply_records_bound) simp_all
  obtain m where m: "apply_entries dtoa b (map record_to_json rs) t = (Ok, m)" "nd_lsn m = nd_lsn ?n" "nd_document m = nd_document ?n"
      "reliable (nd_disk m)"
    using apply_entries_replay [of b rs t "nd_lsn ?n" "nd_document ?n" dtoa] rs assms(8,9,11,15,16) by (auto simp: sends_def)
  obtain st k where k: "save_state dtoa m = (st, k)" by fastforce
  then obtain d where kd: "k = m\<lparr>nd_disk := d\<rparr>" using save_state_frame by blast
  have t': "t' = k" "st = Ok \<Longrightarrow> \<exists>a. res = Inr a" using assms(17) app m(1) k by (auto simp: saved_def split: if_splits)
  moreover have "st = Ok" if "length (dump dtoa (state_json t')) \<le> kMaxIntegrityPayloadBytes"
    by (rule save_reliable [OF k m(4)]) (use that in \<open>simp add: t' kd state_json_cong\<close>)
  ultimately show ?thesis using m kd by auto
qed

text \<open>C22: A snapshot carries the state of its source. When a source answers a snapshot, and no corruption is injected,
  a successor prepared for the handoff and for the schema of the source that installs it, on a disk that works,
  has exactly the document and the position of the source and an empty record log.\<close>

theorem snapshot_transfer:
  assumes "node_snapshot dtoa sbody n = (Inr reply, n')" "fst (take_fault ''node.snapshot.corrupt'' n) = None"
    and "doc_wf (nd_document n)" "doc_schema (nd_document n) \<noteq> 0"
    and "nd_expected_source t = Some b" "json_u64 body ''handoff'' = Some (sb_handoff b)" "sb_handoff b \<noteq> 0"
    and "sb_schema b = doc_schema (nd_document n)" "json_find body ''snapshot'' = json_find reply ''snapshot''"
    and "reliable (nd_disk t)" "node_install_snapshot dtoa body t = (res, t')"
  shows "nd_document t' = nd_document n \<and> nd_lsn t' = nd_lsn n \<and> nd_records t' = [] \<and>
    (length (dump dtoa (state_json t')) \<le> kMaxIntegrityPayloadBytes \<longrightarrow> (\<exists>answer. res = Inr answer))"
proof -
  obtain m where m: "json_find body ''snapshot'' = Some (snapshot_image False m)" "nd_document m = nd_document n" "nd_lsn m = nd_lsn n"
      "nd_recorded_snapshot_digest m = snapshot_digest dtoa (nd_document n) (nd_lsn n)"
    using snapshot_answer [OF assms(1,2)] assms(9) by auto
  have "digest_wf (snapshot_digest dtoa (nd_document n) (nd_lsn n))" by (simp add: snapshot_digest_def digest_wf_text_digest)
  with incoming_image [OF m(1)] assms(3,4) m(2-4) have i: "incoming_snapshot body = Inr (nd_document n, nd_lsn n, snapshot_digest dtoa (nd_document n) (nd_lsn n))"
    by simp
  have h: "require_prepared body t = Inr (sb_handoff b, b)"
    using assms(5-7) by (simp add: require_prepared_def parse_handoff_id_def codec_simps)
  let ?t = "t\<lparr>nd_document := nd_document n, nd_lsn := nd_lsn n, nd_operation_id := nd_lsn n, nd_records := []\<rparr>"
  obtain s1 t1 where t1: "on_disk (disk_write_atomic (records_path ?t) []) ?t = (s1, t1)" by fastforce
  then obtain d1 where d1: "t1 = ?t\<lparr>nd_disk := d1\<rparr>" using on_disk_frame by blast
  have w: "disk_write_atomic (records_path ?t) [] (nd_disk t) = (s1, d1)" using on_disk_disk [OF t1] d1 by simp
  then have r: "s1 = Ok" "reliable d1" using reliable_write_atomic [OF assms(10), of "[]" "records_path ?t"] disk_frame(2) [OF w] assms(10) by auto
  let ?c = "t1\<lparr>nd_recorded_snapshot_digest := snapshot_digest dtoa (nd_document n) (nd_lsn n), nd_last_snapshot_lsn := nd_lsn n\<rparr>"
  obtain st k where k: "save_state dtoa ?c = (st, k)" by fastforce
  then obtain d where kd: "k = ?c\<lparr>nd_disk := d\<rparr>" using save_state_frame by blast
  have t': "t' = k" "st = Ok \<Longrightarrow> \<exists>a. res = Inr a"
    using assms(8,11) t1 r(1) k by (auto simp: node_install_snapshot_def h i checked_def saved_def Let_def split: if_splits)
  moreover have "st = Ok" if "length (dump dtoa (state_json t')) \<le> kMaxIntegrityPayloadBytes"
  proof (rule save_reliable [OF k])
    have "state_json t' = state_json ?c" unfolding t'(1) kd by (rule state_json_cong)
    with that show "length (dump dtoa (state_json ?c)) \<le> kMaxIntegrityPayloadBytes" by simp
  qed (use r(2) d1 in simp)
  ultimately show ?thesis using kd d1 by auto
qed

section \<open>Accepted requests\<close>

lemma handle_write:
  assumes "node_handle dtoa clock req n = (resp, n')" "rq_op req = ''node.write''" "fst (take_fault ''node.write'' n) = None"
    and "presented_claim (rq_body req) = Inr claim" "live_mutating_authority clock claim n"
    and "json_string (rq_body req) ''key'' = Some key" "json_string (rq_body req) ''value'' = Some val" "doc_put key val (nd_document n) = (d, Ok)"
    and "tagged_next (nd_lsn n) = Some l" "length (nd_records n) < opt_max_log_records (nd_options n)" "reliable (nd_disk n)"
    and "length (dump dtoa (record_to_json (written dtoa key val (claim_epoch claim) (claim_generation claim) (nd_incarnation n) l))) \<le> kMaxRecordBytes"
  shows "(length (dump dtoa (state_json n')) \<le> kMaxIntegrityPayloadBytes \<longrightarrow> rs_status resp = Ok) \<and> nd_document n' = d \<and> nd_lsn n' = l \<and>
    nd_records n' = nd_records n @ [written dtoa key val (claim_epoch claim) (claim_generation claim) (nd_incarnation n) l] \<and>
    state_json n' = state_json (advanced (written dtoa key val (claim_epoch claim) (claim_generation claim) (nd_incarnation n) l) d n)"
proof -
  obtain m where m: "take_fault ''node.write'' n = (None, m)" using assms(3) by (metis prod.collapse)
  have f: "same_log n m" "same_authority n m" "same_identity n m" "nd_disk m = nd_disk n" using take_fault_frame [OF m] by simp_all
  from assms(5) obtain lease where l: "nd_lease m = Some lease" "claim_epoch claim = lease_epoch lease" "claim_generation claim = lease_generation lease"
    using f(2) by (auto simp: live_mutating_authority_def same_authority_def split: option.splits)
  let ?r = "written dtoa key val (lease_epoch lease) (lease_generation lease) (nd_incarnation m) l"
  have r: "?r = written dtoa key val (claim_epoch claim) (claim_generation claim) (nd_incarnation n) l"
    using l f(3) by (simp add: same_identity_def)
  obtain dd where a: "append_record_entry dtoa ?r (advanced ?r d m) =
      (Ok, (advanced ?r d m)\<lparr>nd_disk := dd, nd_records := nd_records m @ [?r]\<rparr>)" "reliable dd"
    using append_reliable [of "advanced ?r d m" dtoa ?r] assms(10-12) f unfolding r by (auto simp: advanced_def same_defs)
  let ?k = "(advanced ?r d m)\<lparr>nd_disk := dd, nd_records := nd_records m @ [?r]\<rparr>"
  obtain st k where k: "save_state dtoa ?k = (st, k)" by fastforce
  then obtain d2 where kd: "k = ?k\<lparr>nd_disk := d2\<rparr>" using save_state_frame by blast
  have w: "apply_write dtoa key val (lease_epoch lease) (lease_generation lease) (nd_incarnation m) m = (st, k)"
    using assms(8,9) f(1) a(1) k by (simp add: apply_write_alt same_log_def Let_def and_then_def)
  have "key \<noteq> []" using assms(8) by (simp add: doc_put_Ok)
  have live: "require_authority clock claim Mutating m = Ok" using assms(5) live_cong [OF f(2,3)] by (simp add: require_authority_Ok)
  have n': "if st = Ok then rs_status resp = Ok \<and> n' = k\<lparr>nd_writes_applied := nd_writes_applied k + 1\<rparr> else n' = k"
    using assms(1,2,4,6,7) m live w l(1) \<open>key \<noteq> []\<close>
    by (auto simp: node_handle_def node_dispatch_def node_write_def presented_claim_def [symmetric] checked_def saved_def reply_to_def
        result_status_def Let_def split: if_splits)
  have "state_json k = state_json ?k" unfolding kd by (rule state_json_cong)
  then have "state_json n' = state_json ?k" using n' by (auto simp: state_json_cong split: if_splits)
  then have size: "length (dump dtoa (state_json n')) \<le> kMaxIntegrityPayloadBytes \<longrightarrow> st = Ok" using save_reliable [OF k] a(2) by auto
  have k3: "nd_document k = d" "nd_lsn k = l" "nd_records k = nd_records m @ [?r]" unfolding kd by (simp_all add: advanced_def)
  have "nd_document n' = d" "nd_lsn n' = l" "nd_records n' = nd_records m @ [?r]" "st = Ok \<longrightarrow> rs_status resp = Ok"
    using n' k3 by (simp_all split: if_splits)
  moreover have "nd_records m = nd_records n" using f(1) by (simp add: same_log_def)
  moreover have "state_json n' = state_json (advanced ?r d n)"
    unfolding \<open>state_json n' = state_json ?k\<close> using m by (auto simp: state_json_def advanced_def take_fault_def Let_def split: option.split)
  ultimately show ?thesis using size unfolding r by metis
qed

text \<open>C23: An authorised write is accepted. When no fault is injected, the claim of the request names the live
  mutating lease, the key and the value are within the bounds of the document, the log has room and a next
  position, the disk works and the record and the state fit into their files, the node acknowledges the write
  and has the value under the key, one position further.\<close>

theorem authorised_write_accepted:
  assumes "node_handle dtoa clock req n = (resp, n')" "rq_op req = ''node.write''" "fst (take_fault ''node.write'' n) = None"
    and "presented_claim (rq_body req) = Inr claim" "live_mutating_authority clock claim n"
    and "json_string (rq_body req) ''key'' = Some key" "json_string (rq_body req) ''value'' = Some val" "doc_put key val (nd_document n) = (d, Ok)"
    and "tagged_next (nd_lsn n) = Some l" "length (nd_records n) < opt_max_log_records (nd_options n)" "reliable (nd_disk n)"
    and "length (dump dtoa (record_to_json (written dtoa key val (claim_epoch claim) (claim_generation claim) (nd_incarnation n) l))) \<le> kMaxRecordBytes"
    and "length (dump dtoa (state_json n')) \<le> kMaxIntegrityPayloadBytes"
  shows "rs_status resp = Ok \<and> nd_document n' = d \<and> nd_lsn n' = l \<and>
    nd_records n' = nd_records n @ [written dtoa key val (claim_epoch claim) (claim_generation claim) (nd_incarnation n) l]"
  using handle_write [OF assms(1-12)] assms(13) by blast

section \<open>Retirement\<close>

lemma state_json_disk [simp]: "state_json (n\<lparr>nd_disk := d\<rparr>) = state_json n"
  by (simp add: state_json_def)

lemma saved_on_reliable_disk:
  assumes "reliable (nd_disk n)" "length (dump dtoa (state_json n)) \<le> kMaxIntegrityPayloadBytes"
  obtains d where "save_state dtoa n = (Ok, n\<lparr>nd_disk := d\<rparr>)" "reliable d"
proof -
  obtain st k where k: "save_state dtoa n = (st, k)" by fastforce
  moreover have "st = Ok" using save_reliable [OF k assms] .
  moreover obtain d where d: "k = n\<lparr>nd_disk := d\<rparr>" using save_state_frame [OF k] by blast
  moreover have "reliable d" using k d assms(1) by (auto simp: save_state_def dest!: on_disk_disk disk_frame)
  ultimately show thesis using that by blast
qed

text \<open>C39: Retirement is not permanent. A retired node refuses a grant of mutating authority that a serving node in its
  place would accept. But a well-formed fence that names its incarnation is acknowledged, whatever the
  lifecycle, and then the same grant is accepted (the disk does not fail and the state fits into its file):
  the node serves again, with the marker of retirement still set, and accepts every valid claim that names the
  granted lease until it expires.\<close>

theorem retired_node_serves_again:
  assumes "nd_lifecycle n = NodeRetired" "nd_retired_marker n" "reliable (nd_disk n)"
    and "parse_handoff_id b1 = Inr h1" "json_u64 b1 ''fence_id'' = Some f" "f \<noteq> 0" "json_find b1 ''target'' = Some target"
      "incarnation_from_json target = Inr (nd_incarnation n)"
    and "granted_lease clock b2 (n\<lparr>nd_lifecycle := NodeServing\<rparr>) = Inr lease" "lease_mode lease = Mutating"
    and "fenced = n\<lparr>nd_lifecycle := NodeFenced, nd_lease_confirmed := False,
        nd_lease := map_option (\<lambda>l. l\<lparr>lease_state := Fenced, attested := False\<rparr>) (nd_lease n), nd_last_fence_id := f\<rparr>"
      "length (dump dtoa (state_json fenced)) \<le> kMaxIntegrityPayloadBytes"
      "length (dump dtoa (state_json (fenced\<lparr>nd_lease := Some lease, nd_lease_confirmed := True, nd_lifecycle := NodeServing\<rparr>)))
        \<le> kMaxIntegrityPayloadBytes"
  shows "node_grant_authority dtoa clock b2 n = (Inl NotAuthoritative, n) \<and>
    (\<exists>r1 n1 r2 n2. node_fence dtoa b1 n = (Inr r1, n1) \<and> nd_lifecycle n1 = NodeFenced \<and>
       node_grant_authority dtoa clock b2 n1 = (Inr r2, n2) \<and> nd_lifecycle n2 = NodeServing \<and> nd_retired_marker n2 \<and>
       nd_lease n2 = Some lease \<and>
       (\<forall>now claim. claim_is_valid claim \<and> claim_incarnation claim = nd_incarnation n \<and> claim_epoch claim = lease_epoch lease \<and>
          claim_generation claim = lease_generation lease \<and> claim_token claim = lease_token lease \<and> now 0 < expires_at_ms lease \<longrightarrow>
          require_authority now claim Mutating n2 = Ok))"
proof
  have "granted_lease clock b2 n = Inl NotAuthoritative"
    using assms(1,9) by (auto simp: granted_lease_def)
  then show "node_grant_authority dtoa clock b2 n = (Inl NotAuthoritative, n)" by (simp add: node_grant_authority_def checked_def)
  have fields: "nd_disk fenced = nd_disk n" "nd_incarnation fenced = nd_incarnation n" "nd_options fenced = nd_options n"
    "nd_retired_marker fenced" "nd_lifecycle fenced = NodeFenced"
    using assms(2) by (simp_all add: assms(11))
  obtain d where d: "save_state dtoa fenced = (Ok, fenced\<lparr>nd_disk := d\<rparr>)" "reliable d"
    using saved_on_reliable_disk [OF _ assms(12)] assms(3) fields(1) by metis
  have "\<exists>r1. node_fence dtoa b1 n = (Inr r1, fenced\<lparr>nd_disk := d\<rparr>)"
    using d(1) assms(1,4-8) by (simp add: node_fence_def checked_def saved_def codec_simps assms(11) [symmetric])
  then obtain r1 where r1: "node_fence dtoa b1 n = (Inr r1, fenced\<lparr>nd_disk := d\<rparr>)" ..
  let ?n1 = "fenced\<lparr>nd_disk := d\<rparr>"
  let ?g = "?n1\<lparr>nd_lease := Some lease, nd_lease_confirmed := True, nd_lifecycle := NodeServing\<rparr>"
  have "state_json ?g = state_json (fenced\<lparr>nd_lease := Some lease, nd_lease_confirmed := True, nd_lifecycle := NodeServing\<rparr>)"
    by (simp add: state_json_def)
  then obtain d2 where d2: "save_state dtoa ?g = (Ok, ?g\<lparr>nd_disk := d2\<rparr>)"
    using saved_on_reliable_disk [of ?g dtoa] assms(13) d(2) by auto
  have "granted_lease clock b2 ?n1 = granted_lease clock b2 (n\<lparr>nd_lifecycle := NodeServing\<rparr>)"
    using fields by (simp add: granted_lease_def)
  then have "\<exists>r2. node_grant_authority dtoa clock b2 ?n1 = (Inr r2, ?g\<lparr>nd_disk := d2\<rparr>)"
    using d2 assms(9) by (simp add: node_grant_authority_def checked_def saved_def)
  then obtain r2 where r2: "node_grant_authority dtoa clock b2 ?n1 = (Inr r2, ?g\<lparr>nd_disk := d2\<rparr>)" ..
  have "nd_lifecycle ?n1 = NodeFenced" "nd_retired_marker (?g\<lparr>nd_disk := d2\<rparr>)" "nd_incarnation (?g\<lparr>nd_disk := d2\<rparr>) = nd_incarnation n"
    using fields by simp_all
  with r1 r2 assms(10) show "\<exists>r1 n1 r2 n2. node_fence dtoa b1 n = (Inr r1, n1) \<and> nd_lifecycle n1 = NodeFenced \<and>
       node_grant_authority dtoa clock b2 n1 = (Inr r2, n2) \<and> nd_lifecycle n2 = NodeServing \<and> nd_retired_marker n2 \<and>
       nd_lease n2 = Some lease \<and>
       (\<forall>now claim. claim_is_valid claim \<and> claim_incarnation claim = nd_incarnation n \<and> claim_epoch claim = lease_epoch lease \<and>
          claim_generation claim = lease_generation lease \<and> claim_token claim = lease_token lease \<and> now 0 < expires_at_ms lease \<longrightarrow>
          require_authority now claim Mutating n2 = Ok)"
    by (intro exI conjI) (assumption | simp add: require_authority_Ok live_mutating_authority_def)+
qed

end
