(* ===== verification/Node_Examples.thy ===== *)
theory Node_Examples
  imports Node_Replica
begin

text \<open>
  A small node, evaluated: the properties of the node applied to one shard with one key, to a fresh state
  directory and to a replica. The printed size of a JSON value is bounded by \<open>text_bound\<close>, which stays
  computable for values whose printed text is too long to evaluate.
\<close>

section \<open>Sizes of printed values\<close>

lemma length_escaped: "length (append_escaped t) \<le> 6 * length t + 2"
proof -
  have "length (escape_char c) \<le> 6" for c by (simp add: escape_char_def Let_def)
  then have "length (concat (map escape_char t)) \<le> 6 * length t" by (induction t) (auto intro: add_mono order_trans)
  then show ?thesis by (simp add: append_escaped_def)
qed

lemma length_decimal: "n < 10 ^ k \<Longrightarrow> 0 < k \<Longrightarrow> length (nat_to_string n) \<le> k"
proof (induction k arbitrary: n)
  case (Suc k)
  show ?case
  proof (cases "n < 10")
    case True
    then show ?thesis by (simp add: nat_to_string.simps [of n])
  next
    case False
    then have "n div 10 < 10 ^ k" "0 < k" using Suc.prems by (auto simp: less_mult_imp_div_less mult.commute intro: gr0I)
    with Suc.IH [of "n div 10"] False show ?thesis by (simp add: nat_to_string.simps [of n])
  qed
qed simp

lemma length_u64: "length (append_u64 w) \<le> 20"
proof -
  have "unat w < 2 ^ 64" using unsigned_less [of w] by simp
  then have "unat w < 10 ^ 20" by simp
  then show ?thesis unfolding append_u64_def by (rule length_decimal) simp
qed

lemma length_i64: "length (append_i64 w) \<le> 20"
proof -
  have s: "- (2 ^ 63) \<le> sint w" "sint w < 2 ^ 63" using sint_range_size [of w] by (simp_all add: word_size)
  then have "nat \<bar>sint w\<bar> < 10 ^ 19" by simp
  from length_decimal [OF this] have "length (nat_to_string (nat \<bar>sint w\<bar>)) \<le> 19" by simp
  then show ?thesis by (auto simp: append_i64_def abs_if split: if_splits)
qed

text \<open>A bound on the compact text of a value without floating numbers.\<close>

primrec text_bound :: "json \<Rightarrow> nat option" where
  "text_bound JNull = Some 4"
| "text_bound (JBool b) = Some 5"
| "text_bound (JInt w) = Some 20"
| "text_bound (JUInt w) = Some 20"
| "text_bound (JDouble w) = None"
| "text_bound (JString t) = Some (6 * length t + 2)"
| "text_bound (JArray xs) =
     foldr (\<lambda>b acc. case (b, acc) of (Some x, Some y) \<Rightarrow> Some (x + 1 + y) | _ \<Rightarrow> None) (map text_bound xs) (Some 2)"
| "text_bound (JObject m) =
     foldr (\<lambda>(k, b) acc. case (b, acc) of (Some x, Some y) \<Rightarrow> Some (6 * length k + 4 + x + y) | _ \<Rightarrow> None)
       (map (map_prod id text_bound) m) (Some 2)"

lemma length_join_comma: "length (join_comma xs) \<le> sum_list (map (\<lambda>x. length x + 1) xs)"
  by (induction xs rule: join_comma.induct) auto

lemma text_bound: "text_bound j = Some b \<Longrightarrow> length (dump_value dtoa False i j) \<le> b"
proof (induction j arbitrary: b i)
  case (JArray xs)
  have "foldr (\<lambda>b acc. case (b, acc) of (Some x, Some y) \<Rightarrow> Some (x + 1 + y) | _ \<Rightarrow> None) (map text_bound ys) (Some 2) = Some c \<Longrightarrow>
      set ys \<subseteq> set xs \<Longrightarrow> sum_list (map (\<lambda>x. length (dump_value dtoa False (i + 1) x) + 1) ys) + 2 \<le> c" for ys c
  proof (induction ys arbitrary: c)
    case (Cons y ys)
    from Cons.prems(1) obtain x z where xz: "text_bound y = Some x" "foldr (\<lambda>b acc. case (b, acc) of (Some x, Some y) \<Rightarrow> Some (x + 1 + y) | _ \<Rightarrow> None)
       (map text_bound ys) (Some 2) = Some z" "c = x + 1 + z"
      by (auto split: option.splits)
    have "length (dump_value dtoa False (i + 1) y) \<le> x" using JArray.IH [of y x "i + 1"] Cons.prems(2) xz(1) by simp
    with Cons.IH [OF xz(2)] Cons.prems(2) xz(3) show ?case by simp
  qed simp
  from this [of xs b] JArray.prems length_join_comma [of "map (dump_value dtoa False (i + 1)) xs"] show ?case
    by (simp add: newline_pad_def comp_def)
next
  case (JObject m)
  let ?d = "\<lambda>(k, v). append_escaped k @ '':'' @ dump_value dtoa False (i + 1) v"
  have "foldr (\<lambda>(k, b) acc. case (b, acc) of (Some x, Some y) \<Rightarrow> Some (6 * length k + 4 + x + y) | _ \<Rightarrow> None)
       (map (map_prod id text_bound) ys) (Some 2) = Some c \<Longrightarrow>
      set ys \<subseteq> set m \<Longrightarrow> sum_list (map (\<lambda>x. length (?d x) + 1) ys) + 2 \<le> c" for ys c
  proof (induction ys arbitrary: c)
    case (Cons y ys)
    obtain k v where y: "y = (k, v)" by (cases y)
    from Cons.prems(1) obtain x z where xz: "text_bound v = Some x" "foldr (\<lambda>(k, b) acc. case (b, acc) of (Some x, Some y) \<Rightarrow> Some (6 * length k + 4 + x + y) | _ \<Rightarrow> None)
       (map (map_prod id text_bound) ys) (Some 2) = Some z" "c = 6 * length k + 4 + x + z"
      by (auto simp: y id_def split: option.splits)
    have "length (dump_value dtoa False (i + 1) v) \<le> x"
      using JObject.IH [of y v x "i + 1"] Cons.prems(2) xz(1) y by simp
    with Cons.IH [OF xz(2)] Cons.prems(2) xz(3) length_escaped [of k] show ?case by (simp add: y)
  qed simp
  from this [of m b] JObject.prems length_join_comma [of "map ?d m"] show ?case
    by (simp add: newline_pad_def comp_def case_prod_unfold)
qed (use length_escaped length_u64 length_i64 in auto)

section \<open>A concrete node\<close>

definition ex_print_real :: "u64 \<Rightarrow> string" where
  "ex_print_real w = []"

definition ex_read_real :: "string \<Rightarrow> u64 option" where
  "ex_read_real t = None"

definition ex_io :: IoOutcome where
  "ex_io = \<lparr>io_open = True, io_written = 100000000, io_flush = True, io_rename = True, io_copied = 100000000\<rparr>"

definition ex_disk :: "FileSystem \<Rightarrow> Disk" where
  "ex_disk fs = \<lparr>dk_fs = fs, dk_io = (\<lambda>_. ex_io), dk_calls = 0, dk_pid = 7, dk_trace = []\<rparr>"

definition ex_options :: NodeOptions where
  "ex_options = \<lparr>opt_component = ''n1'', opt_shard = ''s1'', opt_state_directory = ''/d'', opt_software = SoftwareVersion 1 0 0 [],
     opt_protocol = ProtocolVersion 1 0, opt_schema = 1, opt_features = 0, opt_lease_ttl_ms = 5000, opt_max_log_records = 8,
     opt_max_records_per_response = 8\<rparr>"

definition ex_incarnation :: IncarnationId where
  "ex_incarnation = \<lparr>component = ''n1'', uuid = replicate 15 0 @ [1], boot = 1\<rparr>"

definition ex_claim :: AuthorityClaim where
  "ex_claim = \<lparr>claim_shard = ''s1'', claim_incarnation = ex_incarnation, claim_epoch = 1, claim_generation = 1,
     claim_token = replicate 15 0 @ [2]\<rparr>"

definition ex_node_lease :: AuthorityLease where
  "ex_node_lease = \<lparr>lease_id = 0, lease_shard = ''s1'', lease_holder = ex_incarnation, lease_epoch = 1, lease_generation = 1,
     lease_token = replicate 15 0 @ [2], lease_mode = Mutating, lease_state = Active, issued_at_ms = 1, expires_at_ms = 1000,
     attested = True, attestation_seq = 1, lease_campaign = [], lease_handoff = 3, lease_reason = ''granted''\<rparr>"

definition ex_serving :: "FileSystem \<Rightarrow> ControlPlaneNode" where
  "ex_serving fs = (node_new ex_options (ex_disk fs))\<lparr>nd_incarnation := ex_incarnation, nd_boot_counter := 1,
     nd_lifecycle := NodeServing, nd_document := \<lparr>doc_schema = 1, doc_fields = []\<rparr>, nd_lease := Some ex_node_lease,
     nd_lease_confirmed := True\<rparr>"

definition ex_clock :: "nat \<Rightarrow> TimestampMs" where
  "ex_clock i = 5"

definition ex_write :: RpcRequest where
  "ex_write = \<lparr>rq_id = ''1'', rq_op = ''node.write'',
     rq_body = json_object [(''claim'', claim_to_json ex_claim), (''key'', JString ''k''), (''value'', JString ''v'')]\<rparr>"

lemma ex_reliable: "reliable (ex_disk fs)"
  by (simp add: reliable_def ex_disk_def ex_io_def kMaxIntegrityPayloadBytes_def kIntegrityHeaderBytes_def)

lemma ex_claim_wf: "claim_wf ex_claim" "incarnation_wf ex_incarnation" "claim_is_valid ex_claim"
  by code_simp+

lemma ex_node_fields [simp]:
  "nd_lifecycle (ex_serving fs) = NodeServing" "nd_document (ex_serving fs) = \<lparr>doc_schema = 1, doc_fields = []\<rparr>"
  "nd_lease (ex_serving fs) = Some ex_node_lease" "nd_lease_confirmed (ex_serving fs)" "nd_incarnation (ex_serving fs) = ex_incarnation"
  "nd_lsn (ex_serving fs) = 0" "nd_records (ex_serving fs) = []" "nd_options (ex_serving fs) = ex_options" "nd_disk (ex_serving fs) = ex_disk fs"
  "nd_faults (ex_serving fs) = []" "nd_journal (ex_serving fs) = new_journal 1024" "nd_retired_marker (ex_serving fs) = False"
  "nd_expected_source (ex_serving fs) = None" "nd_recorded_snapshot_digest (ex_serving fs) = digest_zero"
  "nd_last_snapshot_id (ex_serving fs) = 0"
  by (simp_all add: ex_serving_def node_new_def)

lemma ex_live: "live_mutating_authority ex_clock ex_claim (ex_serving fs)"
  by (simp add: live_mutating_authority_def ex_claim_wf) (simp add: ex_claim_def ex_node_lease_def ex_clock_def)

lemma ex_write_fields:
  "rq_op ex_write = ''node.write''" "presented_claim (rq_body ex_write) = Inr ex_claim"
  "json_string (rq_body ex_write) ''key'' = Some ''k''" "json_string (rq_body ex_write) ''value'' = Some ''v''"
  by (simp_all add: ex_write_def presented_claim_def json_object_def json_field_defs codec_simps claim_codec.round_trip ex_claim_wf)

lemma ex_take_fault: "take_fault op (ex_serving fs) = (None, ex_serving fs)"
  by (simp add: take_fault_def ex_serving_def node_new_def)

lemma ex_no_fault: "fst (take_fault op (ex_serving fs)) = None"
  by (simp add: ex_take_fault)

definition ex_doc1 :: StateDocument where
  "ex_doc1 = \<lparr>doc_schema = 1, doc_fields = [(''k'', ''v'')]\<rparr>"

lemma ex_put: "doc_put ''k'' ''v'' \<lparr>doc_schema = 1, doc_fields = []\<rparr> = (ex_doc1, Ok)"
  by (simp add: doc_put_def ex_doc1_def kMaxStateKeyBytes_def kMaxStateValueBytes_def kMaxStateFields_def)

lemma json_fits_mono:
  assumes "json_fits dtoa strtod l j n" "n \<le> n'" "max_string_bytes l \<le> max_string_bytes l'" "max_container_entries l \<le> max_container_entries l'"
  shows "json_fits dtoa strtod l' j n'"
  using assms
proof (induction j arbitrary: n n')
  case (JArray xs)
  then show ?case by (fastforce simp: list_all_iff intro: diff_le_mono)
next
  case (JObject m)
  then show ?case by (fastforce simp: list_all_iff intro: diff_le_mono)
qed auto

definition small_limits :: JsonParseLimits where
  "small_limits = \<lparr>max_bytes = 1000, max_depth = 5, max_string_bytes = 100, max_container_entries = 30\<rparr>"

text \<open>A check that a small value survives printing and parsing.\<close>

definition small_json :: "json \<Rightarrow> bool" where
  "small_json j = (json_fits ex_print_real ex_read_real small_limits j 6 \<and> (case text_bound j of None \<Rightarrow> False | Some b \<Rightarrow> b \<le> 100000) \<and> json_canon j = j)"

lemma small_length: "small_json j \<Longrightarrow> length (dump dtoa j) \<le> 100000"
  using text_bound [of j _ dtoa 0] by (fastforce simp: small_json_def dump_def split: option.splits)

lemma small_prints_back: "small_json j \<Longrightarrow> prints_back ex_print_real ex_read_real j"
  using json_fits_mono [of ex_print_real ex_read_real small_limits j 6 "Suc (max_depth default_parse_limits)" default_parse_limits]
    small_length [of j ex_print_real]
  by (simp add: small_json_def prints_back_def small_limits_def default_parse_limits_def)

lemmas json_literal =
  json_set_def try_object_def Let_def set_if_def omap_wf_def

lemma ex_texts:
  "length (to_compact_string (replicate 15 0 @ [2])) = 32" "length (to_compact_string (replicate 15 0 @ [1])) = 32"
  "length (to_hex digest_zero) = 64"
  by code_simp+

lemmas json_build = json_set_def try_object_def Let_def set_if_def json_object_def

lemma small_literal:
  "j = JObject m \<Longrightarrow> json_fits ex_print_real ex_read_real small_limits (JObject m) 6 \<Longrightarrow> text_bound (JObject m) = Some b \<Longrightarrow> b \<le> 100000 \<Longrightarrow>
     json_canon (JObject m) = JObject m \<Longrightarrow> small_json j"
  by (simp add: small_json_def)

lemmas ex_state_defs =
  state_json_def json_set_def try_object_def Let_def set_if_def omap_wf_def json_object_def
  fields_to_json_def journal_to_json_def new_journal_def lease_to_json_def ex_node_lease_def
  incarnation_to_json_def ex_incarnation_def tagged_is_valid_def name_is_valid_def

lemma ex_state_small: "small_json (state_json (ex_serving fs))"
  by (simp add: ex_state_defs small_json_def small_limits_def ex_texts)

lemma ex_state1_small: "rr_lsn r = 1 \<Longrightarrow> small_json (state_json (advanced r ex_doc1 (ex_serving fs)))"
  by (simp add: ex_state_defs ex_doc1_def advanced_def small_json_def small_limits_def ex_texts)

definition ex_record :: ReplicationRecord where
  "ex_record = written ex_print_real ''k'' ''v'' 1 1 ex_incarnation 1"

lemma ex_record_fields:
  "rr_lsn ex_record = 1" "rr_key ex_record = ''k''" "rr_value ex_record = ''v''" "rr_epoch ex_record = 1"
  "rr_generation ex_record = 1" "rr_origin ex_record = ex_incarnation" "length (rr_digest ex_record) = 32"
  using digest_wf_text_digest by (simp_all add: ex_record_def written_def Let_def replication_record_digest_def digest_wf_def)

lemma ex_record_small: "small_json (record_to_json ex_record)"
  by (simp add: ex_state_defs record_to_json_def record_body_def ex_record_fields small_json_def small_limits_def ex_texts length_to_hex)

lemma small_payload: "small_json j \<Longrightarrow> length (dump dtoa j) \<le> kMaxIntegrityPayloadBytes \<and> length (dump dtoa j) \<le> kMaxRecordBytes"
  using small_length [of j dtoa] by (simp add: kMaxIntegrityPayloadBytes_def kMaxRecordBytes_def)

lemma ex_one [simp]: "tagged_next (0 :: u64) = Some 1"
  by (simp add: tagged_next_def)

lemma ex_write_facts:
  "presented_claim (rq_body ex_write) = Inr ex_claim" "claim_epoch ex_claim = 1" "claim_generation ex_claim = 1"
  "length (dump ex_print_real (record_to_json (written ex_print_real ''k'' ''v'' 1 1 ex_incarnation 1))) \<le> kMaxRecordBytes"
  using small_payload [OF ex_record_small] by (simp_all add: ex_write_fields ex_claim_def ex_record_def)

lemma ex_write_run:
  assumes "node_handle ex_print_real ex_clock ex_write (ex_serving fs) = (resp, n')"
  shows "rs_status resp = Ok" "nd_document n' = ex_doc1" "nd_lsn n' = 1" "nd_records n' = [ex_record]" "small_json (state_json n')"
    "records (nd_journal n') = []"
proof -
  have h: "(length (dump ex_print_real (state_json n')) \<le> kMaxIntegrityPayloadBytes \<longrightarrow> rs_status resp = Ok) \<and> nd_document n' = ex_doc1 \<and> nd_lsn n' = 1 \<and>
      nd_records n' = nd_records (ex_serving fs) @ [ex_record] \<and> state_json n' = state_json (advanced ex_record ex_doc1 (ex_serving fs))"
    using handle_write [OF assms ex_write_fields(1) ex_no_fault ex_write_facts(1) ex_live ex_write_fields(3,4), of ex_doc1 1]
      ex_put ex_reliable ex_write_facts
    by (simp add: ex_record_def ex_options_def)
  moreover have "small_json (state_json n')" using h ex_state1_small [of ex_record fs] by (simp add: ex_record_fields)
  ultimately show "rs_status resp = Ok" "nd_document n' = ex_doc1" "nd_lsn n' = 1" "nd_records n' = [ex_record]" "small_json (state_json n')"
    using small_payload by simp_all
  have "json_find (state_json n') ''migration_journal'' = json_find (state_json (advanced ex_record ex_doc1 (ex_serving fs))) ''migration_journal''"
    using h by simp
  then show "records (nd_journal n') = []"
    by (simp add: state_json_fields advanced_def journal_to_json_def new_journal_def json_set_def try_object_def)
qed

theorem authorised_write_accepted_witness:
  "rs_status (fst (node_handle ex_print_real ex_clock ex_write (ex_serving Map.empty))) = Ok \<and>
   nd_document (snd (node_handle ex_print_real ex_clock ex_write (ex_serving Map.empty))) = ex_doc1"
proof -
  obtain resp n' where h: "node_handle ex_print_real ex_clock ex_write (ex_serving Map.empty) = (resp, n')" by fastforce
  from authorised_write_accepted [OF h ex_write_fields(1) ex_no_fault ex_write_facts(1) ex_live ex_write_fields(3,4), of ex_doc1 1]
    ex_put ex_reliable ex_write_facts small_payload [OF ex_write_run(5) [OF h]] h show ?thesis
    by (simp add: ex_options_def)
qed

theorem node_changes_justified_witness:
  "\<exists>claim key val. presented_claim (rq_body ex_write) = Inr claim \<and> live_mutating_authority ex_clock claim (ex_serving Map.empty) \<and>
     doc_put key val (nd_document (ex_serving Map.empty)) = (ex_doc1, Ok)"
proof -
  obtain resp n' where h: "node_handle ex_print_real ex_clock ex_write (ex_serving Map.empty) = (resp, n')" by fastforce
  have "nd_document n' \<noteq> nd_document (ex_serving Map.empty)" using ex_write_run(2) [OF h] by (simp add: ex_doc1_def)
  with node_changes_justified [OF h] ex_write_run(2) [OF h] ex_write_fields(1) show ?thesis by auto
qed

definition ex_fenced_node :: ControlPlaneNode where
  "ex_fenced_node = (ex_serving Map.empty)\<lparr>nd_lifecycle := NodeFenced\<rparr>"

theorem fenced_until_granted_witness:
  "rs_status (fst (node_handle ex_print_real ex_clock ex_write (node_step ex_print_real ex_fenced_node (ex_clock, ex_write)))) \<noteq> Ok"
proof -
  obtain resp n' where h: "node_handle ex_print_real ex_clock ex_write (foldl (node_step ex_print_real) ex_fenced_node [(ex_clock, ex_write)]) = (resp, n')"
    by fastforce
  from fenced_until_granted [OF _ _ h] h show ?thesis by (simp add: out_of_service_def ex_fenced_node_def ex_write_fields(1))
qed

lemma ex_journal [simp]: "records (new_journal c) = []"
  by (simp add: new_journal_def)

lemma ex_disk_fs [simp]: "dk_fs (ex_disk fs) = fs"
  by (simp add: ex_disk_def)

lemma ex_documents_wf: "doc_wf \<lparr>doc_schema = 1, doc_fields = []\<rparr>" "doc_wf ex_doc1"
  by (simp_all add: doc_wf_def ex_doc1_def omap_wf_def kMaxStateKeyBytes_def kMaxStateValueBytes_def kMaxStateFields_def)

lemma ex_storable: "storable ex_print_real ex_read_real (ex_serving fs)"
  using small_prints_back [OF ex_state_small] small_payload [OF ex_state_small] by (simp add: storable_def ex_documents_wf)

definition ex_files :: FileSystem where
  "ex_files = [''/d/state.fxi'' \<mapsto> encode_integrity_file (dump ex_print_real (state_json (ex_serving Map.empty))) digest_zero]"

lemma ex_state_disk: "state_json (ex_serving fs) = state_json (ex_serving Map.empty)"
  using state_json_cong(1) [where n = "ex_serving Map.empty" and d = "ex_disk fs"] by (simp add: ex_serving_def node_new_def)

lemma ex_loads: "loads ex_read_real (ex_disk Map.empty) (ex_serving ex_files) (dk_fs (nd_disk (ex_serving ex_files)))"
proof -
  have p: "state_path (ex_serving ex_files) = ''/d/state.fxi''" by (simp add: state_path_def ex_options_def)
  have r: "read_integrity_file ex_files ''/d/state.fxi'' =
      Inr (info_of (dump ex_print_real (state_json (ex_serving Map.empty))) digest_zero, dump ex_print_real (state_json (ex_serving Map.empty)))"
    using small_payload [OF ex_state_small] by (intro read_installed) (simp_all add: ex_files_def digest_wf_def digest_zero_def)
  have e: "path_exists ex_files ''/d/state.fxi''" by (simp add: path_exists_def ex_files_def)
  show ?thesis
    using load_saved [OF ex_storable, of ex_files ex_files _ "ex_disk Map.empty"] r e
    by (simp add: loads_def p read_integrity_file_with_recovery_def ex_state_disk [of ex_files])
qed

theorem node_write_durable_witness:
  "\<exists>m. load_state ex_read_real (fresh_on ex_options (ex_disk Map.empty)
         (dk_fs (nd_disk (snd (node_handle ex_print_real ex_clock ex_write (ex_serving ex_files)))))) = (Ok, m) \<and> doc_get ''k'' (nd_document m) = Some ''v''"
proof -
  obtain resp n' where h: "node_handle ex_print_real ex_clock ex_write (ex_serving ex_files) = (resp, n')" by fastforce
  note run = ex_write_run [OF h]
  have "storable ex_print_real ex_read_real n'"
    using small_prints_back [OF run(5)] small_payload [OF run(5)] run(2) by (simp add: storable_def ex_documents_wf run(6)) (simp add: ex_doc1_def)
  from node_write_durable [OF h ex_write_fields(1) ex_loads this] run(1) h ex_write_fields(3,4) show ?thesis
    by (auto simp: omap_wf_def)
qed


section \<open>Fencing and granting\<close>

definition ex_fence_body :: json where
  "ex_fence_body = json_object [(''handoff'', JUInt 3), (''fence_id'', JUInt 4), (''target'', incarnation_to_json ex_incarnation)]"

definition ex_grant_body :: json where
  "ex_grant_body = json_object [(''handoff'', JUInt 3), (''epoch'', JUInt 1), (''generation'', JUInt 1),
     (''token'', JString (to_compact_string (replicate 15 0 @ [2]))), (''mode'', JString ''mutating'')]"

lemma ex_fence_fields:
  "parse_handoff_id ex_fence_body = Inr 3" "json_u64 ex_fence_body ''fence_id'' = Some 4"
  "json_find ex_fence_body ''target'' = Some (incarnation_to_json ex_incarnation)"
  by (simp_all add: ex_fence_body_def parse_handoff_id_def json_object_def json_field_defs codec_simps)

lemma ex_grant_fields:
  "parse_handoff_id ex_grant_body = Inr 3" "json_u64 ex_grant_body ''epoch'' = Some 1" "json_u64 ex_grant_body ''generation'' = Some 1"
  "json_string ex_grant_body ''token'' = Some (to_compact_string (replicate 15 0 @ [2]))"
  "json_string ex_grant_body ''mode'' = Some ''mutating''" "json_u64_or ex_grant_body ''ttl_ms'' x = x"
  by (simp_all add: ex_grant_body_def parse_handoff_id_def json_object_def json_field_defs codec_simps uuid_nil_def)

lemma ex_token_text:
  "uuid_parse (to_compact_string (replicate 15 0 @ [2])) = Some (replicate 15 0 @ [2])" "\<not> uuid_is_nil (replicate 15 0 @ [2])"
  by code_simp+

definition ex_granted :: AuthorityLease where
  "ex_granted = ex_node_lease\<lparr>issued_at_ms := 5, expires_at_ms := 5005, lease_reason := ''granted by the evolution controller''\<rparr>"

lemma ex_granted_lease:
  assumes "nd_lifecycle n \<noteq> NodeRetired" "nd_options n = ex_options" "nd_incarnation n = ex_incarnation"
  shows "granted_lease ex_clock ex_grant_body n = Inr ex_granted"
  using assms
  by (simp add: granted_lease_def ex_grant_fields ex_token_text granted_mode_def ex_options_def ex_clock_def ex_granted_def ex_node_lease_def
      uuid_nil_def codec_simps)

lemma saved_ok:
  assumes "reliable (nd_disk n)" "small_json (state_json n)"
  shows "\<exists>d. save_state ex_print_real n = (Ok, n\<lparr>nd_disk := d\<rparr>) \<and> reliable d"
proof -
  obtain st k where k: "save_state ex_print_real n = (st, k)" by fastforce
  with save_reliable [OF k assms(1)] small_payload [OF assms(2)] have "st = Ok" by blast
  moreover obtain d where d: "k = n\<lparr>nd_disk := d\<rparr>" using save_state_frame [OF k] by blast
  moreover have "reliable d"
    using k d assms(1) by (auto simp: save_state_def dest!: on_disk_disk disk_frame)
  ultimately show ?thesis using k by blast
qed

definition ex_retired :: ControlPlaneNode where
  "ex_retired = (ex_serving Map.empty)\<lparr>nd_lifecycle := NodeRetired, nd_retired_marker := True\<rparr>"

definition ex_refenced :: ControlPlaneNode where
  "ex_refenced = ex_retired\<lparr>nd_lifecycle := NodeFenced, nd_lease_confirmed := False,
     nd_lease := Some (ex_node_lease\<lparr>lease_state := Fenced, attested := False\<rparr>), nd_last_fence_id := 4\<rparr>"

lemma ex_small_states:
  "small_json (state_json ex_refenced)"
  "small_json (state_json (ex_refenced\<lparr>nd_disk := d, nd_lease := Some ex_granted, nd_lease_confirmed := True, nd_lifecycle := NodeServing\<rparr>))"
  "small_json (state_json ((ex_serving fs)\<lparr>nd_lease := Some ex_granted, nd_lease_confirmed := True, nd_lifecycle := NodeServing\<rparr>))"
  by (simp_all add: ex_state_defs ex_refenced_def ex_retired_def ex_granted_def small_json_def small_limits_def ex_texts)

theorem retired_node_serves_again_witness:
  "\<exists>r1 n1 r2 n2. node_fence ex_print_real ex_fence_body ex_retired = (Inr r1, n1) \<and>
     node_grant_authority ex_print_real ex_clock ex_grant_body n1 = (Inr r2, n2) \<and>
     nd_lifecycle n2 = NodeServing \<and> nd_retired_marker n2 \<and> require_authority ex_clock ex_claim Mutating n2 = Ok"
proof -
  have r: "nd_lifecycle ex_retired = NodeRetired" "nd_retired_marker ex_retired" "nd_incarnation ex_retired = ex_incarnation"
      "reliable (nd_disk ex_retired)"
    using ex_reliable by (simp_all add: ex_retired_def)
  have e: "ex_refenced = ex_retired\<lparr>nd_lifecycle := NodeFenced, nd_lease_confirmed := False,
      nd_lease := map_option (\<lambda>l. l\<lparr>lease_state := Fenced, attested := False\<rparr>) (nd_lease ex_retired), nd_last_fence_id := 4\<rparr>"
    by (simp add: ex_refenced_def ex_retired_def)
  have i: "incarnation_from_json (incarnation_to_json ex_incarnation) = Inr (nd_incarnation ex_retired)"
    using ex_claim_wf by (simp add: incarnation_codec.round_trip r(3))
  have g: "granted_lease ex_clock ex_grant_body (ex_retired\<lparr>nd_lifecycle := NodeServing\<rparr>) = Inr ex_granted"
    by (rule ex_granted_lease) (simp_all add: ex_retired_def)
  have m: "lease_mode ex_granted = Mutating" by (simp add: ex_granted_def ex_node_lease_def)
  have s: "length (dump ex_print_real (state_json ex_refenced)) \<le> kMaxIntegrityPayloadBytes"
    "length (dump ex_print_real (state_json (ex_refenced\<lparr>nd_lease := Some ex_granted, nd_lease_confirmed := True, nd_lifecycle := NodeServing\<rparr>)))
      \<le> kMaxIntegrityPayloadBytes"
    using small_payload [OF ex_small_states(1)] small_payload [OF ex_small_states(2) [of "nd_disk ex_refenced"]] by simp_all
  have c: "claim_incarnation ex_claim = ex_incarnation" "claim_epoch ex_claim = lease_epoch ex_granted"
      "claim_generation ex_claim = lease_generation ex_granted" "claim_token ex_claim = lease_token ex_granted" "ex_clock 0 < expires_at_ms ex_granted"
    by (simp_all add: ex_claim_def ex_granted_def ex_node_lease_def ex_clock_def)
  from retired_node_serves_again [OF r(1,2,4) ex_fence_fields(1,2) _ ex_fence_fields(3) i g m e s] r(3) c ex_claim_wf(3)
  show ?thesis by fastforce
qed

theorem granted_lease_not_restored_witness:
  "\<exists>reply n' m. node_grant_authority ex_print_real ex_clock ex_grant_body (ex_serving Map.empty) = (Inr reply, n') \<and> nd_lease n' \<noteq> None \<and>
     load_state ex_read_real (fresh_on ex_options (ex_disk Map.empty) (dk_fs (nd_disk n'))) = (Ok, m) \<and> nd_lease m = None"
proof -
  let ?g = "(ex_serving Map.empty)\<lparr>nd_lease := Some ex_granted, nd_lease_confirmed := True, nd_lifecycle := NodeServing\<rparr>"
  have g: "granted_lease ex_clock ex_grant_body (ex_serving Map.empty) = Inr ex_granted" by (rule ex_granted_lease) simp_all
  obtain d where d: "save_state ex_print_real ?g = (Ok, ?g\<lparr>nd_disk := d\<rparr>)"
    using saved_ok [OF _ ex_small_states(3)] ex_reliable by auto
  obtain r where n: "node_grant_authority ex_print_real ex_clock ex_grant_body (ex_serving Map.empty) = (Inr r, ?g\<lparr>nd_disk := d\<rparr>)"
    using d by (simp add: node_grant_authority_def g checked_def saved_def)
  have "storable ex_print_real ex_read_real (?g\<lparr>nd_disk := d\<rparr>)"
    using small_prints_back [OF ex_small_states(3)] small_payload [OF ex_small_states(3)]
    by (simp add: storable_cong) (simp add: storable_def ex_documents_wf)
  from granted_lease_not_restored [OF n this, of "ex_disk Map.empty"] n show ?thesis by auto
qed


section \<open>Replication\<close>

definition ex_binding :: SourceBinding where
  "ex_binding = \<lparr>sb_source = ex_incarnation, sb_epoch = 1, sb_generation = 1, sb_token = replicate 15 0 @ [2], sb_schema = 1, sb_handoff = 3\<rparr>"

definition ex_target :: ControlPlaneNode where
  "ex_target = (ex_serving Map.empty)\<lparr>nd_lease := None, nd_lease_confirmed := False, nd_expected_source := Some ex_binding\<rparr>"

definition ex_since :: json where
  "ex_since = json_object [(''from_lsn'', JUInt 0)]"

definition ex_apply :: json where
  "ex_apply = json_object [(''handoff'', JUInt 3), (''source'', source_binding_to_json ex_binding),
     (''records'', JArray [record_to_json ex_record])]"

lemma ex_bound: "bound_request ex_apply ex_binding"
proof -
  have "parse_source_binding (source_binding_to_json ex_binding) = Inr ex_binding"
    by (simp add: parse_source_binding_def source_binding_to_json_def ex_binding_def codec_simps ex_token_text
        incarnation_codec.round_trip ex_claim_wf schema_version_field_def json_field_defs)
  then show ?thesis
    by (simp add: bound_request_def ex_apply_def json_object_def json_field_defs codec_simps binding_matches_def)
      (simp add: ex_binding_def)
qed

theorem replica_catches_up_witness:
  "nd_document (snd (node_apply_records ex_print_real ex_apply ex_target)) = ex_doc1 \<and>
   nd_lsn (snd (node_apply_records ex_print_real ex_apply ex_target)) = 1"
proof -
  let ?n = "ex_serving Map.empty" and ?xs = "[(ex_clock, ex_write)]"
  obtain resp n' where h: "node_handle ex_print_real ex_clock ex_write ?n = (resp, n')" by fastforce
  note run = ex_write_run [OF h]
  have acked: "all_acked ex_print_real ?n ?xs" using h run(1) ex_write_fields(1) by simp
  have f: "node_step ex_print_real ?n (ex_clock, ex_write) = n'" using h by (simp add: node_step_def)
  have o: "nd_options n' = ex_options"
    using handle_keeps [of ?n ex_print_real "(ex_clock, ex_write)"] h by (simp add: keeps_identity_def node_step_def)
  have since: "json_u64 ex_since ''from_lsn'' = Some 0" "json_u64_or ex_since ''max_records'' 128 = 128"
    by (simp_all add: ex_since_def json_object_def json_field_defs codec_simps)
  have "\<exists>reply. node_read_since ex_since n' = (Inr reply, n') \<and> json_find reply ''records'' = Some (JArray [record_to_json ex_record])"
    by (simp add: node_read_since_def checked_def since records_since_def run(4) ex_record_fields(1) o Let_def json_object_def codec_simps)
      (simp add: ex_options_def)
  then obtain reply where s: "node_read_since ex_since n' = (Inr reply, n')" "json_find reply ''records'' = Some (JArray [record_to_json ex_record])"
    by blast
  obtain res t' where t: "node_apply_records ex_print_real ex_apply ex_target = (res, t')" by fastforce
  have a: "json_find ex_apply ''records'' = Some (JArray [record_to_json ex_record])" by (simp add: ex_apply_def json_object_def codec_simps)
  have r: "nd_document ex_target = nd_document ?n" "nd_lsn ex_target = nd_lsn ?n" "nd_expected_source ex_target = Some ex_binding"
      "sb_source ex_binding = nd_incarnation ?n" "nd_options ex_target = ex_options" "nd_records ex_target = []" "reliable (nd_disk ex_target)"
    using ex_reliable by (simp_all add: ex_target_def ex_binding_def)
  have z: "opt_max_log_records ex_options = 8" "opt_max_records_per_response ex_options = 8" by (simp_all add: ex_options_def)
  show ?thesis
    using replica_catches_up [OF acked _ _ _ _ _ _ r(1-4) ex_bound _ _ _ r(7) t, of ex_since reply n'] s run(2,3) t
    by (simp add: f r since a z log_inv_def ex_documents_wf ex_claim_wf)
qed

definition ex_snapshot :: json where
  "ex_snapshot = json_object [(''handoff'', JUInt 3), (''snapshot'',
     snapshot_image False ((ex_serving Map.empty)\<lparr>nd_last_snapshot_id := 1,
       nd_recorded_snapshot_digest := snapshot_digest ex_print_real \<lparr>doc_schema = 1, doc_fields = []\<rparr> 0\<rparr>))]"

lemma ex_snapshot_small:
  "length x = 32 \<Longrightarrow> small_json (state_json ((ex_serving Map.empty)\<lparr>nd_last_snapshot_id := 1, nd_last_snapshot_lsn := 0, nd_recorded_snapshot_digest := x\<rparr>))"
  by (simp add: ex_state_defs small_json_def small_limits_def ex_texts length_to_hex)

theorem snapshot_transfer_witness:
  "nd_document (snd (node_install_snapshot ex_print_real ex_snapshot ex_target)) = \<lparr>doc_schema = 1, doc_fields = []\<rparr> \<and>
   nd_records (snd (node_install_snapshot ex_print_real ex_snapshot ex_target)) = []"
proof -
  let ?n = "ex_serving Map.empty" and ?x = "snapshot_digest ex_print_real \<lparr>doc_schema = 1, doc_fields = []\<rparr> 0"
  let ?m = "?n\<lparr>nd_last_snapshot_id := 1, nd_last_snapshot_lsn := 0, nd_recorded_snapshot_digest := ?x\<rparr>"
  have "length ?x = 32" using digest_wf_text_digest by (simp add: snapshot_digest_def digest_wf_def)
  then obtain d where d: "save_state ex_print_real ?m = (Ok, ?m\<lparr>nd_disk := d\<rparr>)"
    using saved_ok [OF _ ex_snapshot_small, of ?x] ex_reliable by auto
  have h: "parse_handoff_id ex_snapshot = Inr 3" "json_u64 ex_snapshot ''handoff'' = Some (sb_handoff ex_binding)"
    by (simp_all add: ex_snapshot_def parse_handoff_id_def json_object_def json_field_defs codec_simps ex_binding_def)
  have sn: "json_find ex_snapshot ''snapshot'' = Some (snapshot_image False (?n\<lparr>nd_last_snapshot_id := 1, nd_recorded_snapshot_digest := ?x\<rparr>))"
    by (simp add: ex_snapshot_def json_object_def codec_simps)
  have i: "snapshot_image False ?m = snapshot_image False (?n\<lparr>nd_last_snapshot_id := 1, nd_recorded_snapshot_digest := ?x\<rparr>)"
    by (simp add: snapshot_image_def Let_def)
  have "\<exists>reply. node_snapshot ex_print_real ex_snapshot ?n = (Inr reply, ?m\<lparr>nd_disk := d\<rparr>) \<and>
      json_find ex_snapshot ''snapshot'' = json_find reply ''snapshot''"
    using d by (simp add: node_snapshot_def checked_def saved_def h sn ex_take_fault Let_def i) (simp add: json_object_def codec_simps)
  then obtain reply where s: "node_snapshot ex_print_real ex_snapshot ?n = (Inr reply, ?m\<lparr>nd_disk := d\<rparr>)"
      "json_find ex_snapshot ''snapshot'' = json_find reply ''snapshot''" by blast
  obtain res t' where t: "node_install_snapshot ex_print_real ex_snapshot ex_target = (res, t')" by fastforce
  have r: "nd_expected_source ex_target = Some ex_binding" "reliable (nd_disk ex_target)" "sb_handoff ex_binding = 3" "sb_schema ex_binding = 1"
    using ex_reliable by (simp_all add: ex_target_def ex_binding_def)
  show ?thesis
    using snapshot_transfer [OF s(1) ex_no_fault _ _ r(1) h(2) _ _ s(2) r(2) t] t by (simp add: ex_documents_wf r)
qed


section \<open>Opening\<close>

definition ex_fresh :: ControlPlaneNode where
  "ex_fresh = node_new ex_options (ex_disk Map.empty)"

definition ex_identified :: "BootCounter \<Rightarrow> ControlPlaneNode \<Rightarrow> ControlPlaneNode" where
  "ex_identified c n = n\<lparr>nd_boot_counter := c, nd_incarnation := \<lparr>component = ''n1'', uuid = random_uuid 1 1, boot = c\<rparr>\<rparr>"

definition ex_opened :: "BootCounter \<Rightarrow> ControlPlaneNode" where
  "ex_opened c = (ex_identified c ex_fresh)\<lparr>nd_document := \<lparr>doc_schema = 1, doc_fields = []\<rparr>, nd_lifecycle := NodeRecovering\<rparr>"

lemma ex_random:
  "length (to_compact_string (random_uuid 1 1)) = 32" "length (software_version_to_string (SoftwareVersion 1 0 0 [])) = 5"
  by code_simp+

lemma ex_identity_small:
  assumes "nd_options n = ex_options"
  shows "small_json (identity_json (ex_identified c n))"
  using assms
  by (simp add: identity_json_def ex_identified_def ex_state_defs ex_options_def small_json_def small_limits_def ex_random)

lemma ex_opened_small: "small_json (state_json (ex_opened c))"
  by (simp add: ex_opened_def ex_identified_def ex_fresh_def node_new_def ex_state_defs small_json_def small_limits_def ex_texts)


lemma ex_load_identity:
  assumes "next_boot_counter ex_read_real n = Inr c" "nd_options n = ex_options" "reliable (nd_disk n)"
  obtains d where "load_identity ex_print_real ex_read_real (1, 1) n = (Ok, (ex_identified c n)\<lparr>nd_disk := d\<rparr>)" "reliable d"
    "away {state_path n, records_path n} (nd_disk n) d"
proof -
  let ?i = "ex_identified c n"
  have p: "identity_path ?i = identity_path n" by (simp add: ex_identified_def identity_path_def)
  obtain st k where k: "on_disk (disk_write_integrity (identity_path n) (dump ex_print_real (identity_json ?i)) False) ?i = (st, k)" by fastforce
  then obtain d where d: "k = ?i\<lparr>nd_disk := d\<rparr>" using on_disk_frame by blast
  have w: "disk_write_integrity (identity_path n) (dump ex_print_real (identity_json ?i)) False (nd_disk n) = (st, d)"
    using on_disk_disk [OF k] d by (simp add: ex_identified_def)
  have "st = Ok" "reliable d"
    using reliable_write_integrity [OF assms(3), of "dump ex_print_real (identity_json ?i)"] small_payload [OF ex_identity_small [OF assms(2)]] w
      disk_frame(1) [OF w] assms(3) by (metis fst_conv, blast)
  moreover have "away {state_path n, records_path n} (nd_disk n) d"
    by (rule write_integrity_away [OF w]) (simp_all add: state_path_def records_path_def identity_path_def temporary_path_def backup_path_def)
  moreover have "load_identity ex_print_real ex_read_real (1, 1) n = (st, k)"
    using k by (simp add: load_identity_def assms(1) save_identity_def p [symmetric])
      (simp add: ex_identified_def assms(2) ex_options_def)
  ultimately show thesis using that d by blast
qed

abbreviation ex_loaded :: "BootCounter \<Rightarrow> Disk \<Rightarrow> ControlPlaneNode" where
  "ex_loaded c d \<equiv> (ex_opened c)\<lparr>nd_lifecycle := NodeUnopened, nd_disk := d\<rparr>"

lemma ex_opened_fields:
  "nd_document (ex_opened c) = \<lparr>doc_schema = 1, doc_fields = []\<rparr>" "nd_journal (ex_opened c) = new_journal 1024" "nd_options (ex_opened c) = ex_options"
  "nd_lease (ex_opened c) = None" "nd_lsn (ex_opened c) = 0" "nd_operation_id (ex_opened c) = 0" "nd_last_snapshot_id (ex_opened c) = 0"
  "nd_last_snapshot_lsn (ex_opened c) = 0" "nd_recorded_snapshot_digest (ex_opened c) = digest_zero" "\<not> nd_retired_marker (ex_opened c)"
  by (simp_all add: ex_opened_def ex_identified_def ex_fresh_def node_new_def)

lemma ex_opened_storable: "storable ex_print_real ex_read_real (ex_opened c)"
  using small_prints_back [OF ex_opened_small] small_payload [OF ex_opened_small] by (simp add: storable_def ex_documents_wf ex_opened_fields)

lemma ex_restore:
  "restore_state (state_json (ex_opened c')) ((ex_identified c ex_fresh)\<lparr>nd_disk := d\<rparr>) = (Ok, ex_loaded c d)"
proof -
  have j: "journal_load (journal_to_json (new_journal 1024)) (new_journal 1024) = (new_journal 1024, Ok)"
    by code_simp
  have h: "digest_from_hex (to_hex digest_zero) = Some digest_zero" by code_simp
  show ?thesis
    using stored_document_round_trip [OF ex_opened_storable, of c']
    by (simp add: restore_state_def state_json_fields restore_node_lease_def restore_snapshot_fields_def ex_opened_fields and_then_def h Let_def)
      (simp add: ex_opened_def ex_identified_def ex_fresh_def node_new_def j)
qed

lemma ex_load_state:
  assumes "dk_fs d ''/d/state.fxi'' = None \<or> (\<exists>info. read_integrity_file (dk_fs d) ''/d/state.fxi'' = Inr (info, dump ex_print_real (state_json (ex_opened c'))))"
  shows "load_state ex_read_real ((ex_identified c ex_fresh)\<lparr>nd_disk := d\<rparr>) = (Ok, ex_loaded c d)"
proof -
  have p: "state_path ((ex_identified c ex_fresh)\<lparr>nd_disk := d\<rparr>) = ''/d/state.fxi''"
    by (simp add: state_path_def ex_identified_def ex_fresh_def node_new_def ex_options_def)
  show ?thesis
  proof (cases "dk_fs d ''/d/state.fxi''")
    case None
    then show ?thesis by (simp add: load_state_def p path_exists_def)
        (simp add: ex_opened_def ex_identified_def ex_fresh_def node_new_def ex_options_def)
  next
    case (Some a)
    with assms parse_prints_back [OF small_prints_back [OF ex_opened_small [of c']]] show ?thesis
      by (auto simp: load_state_def p path_exists_def read_integrity_file_with_recovery_def ex_restore)
  qed
qed

lemma save_state_away: "save_state dtoa n = (st, n') \<Longrightarrow> away {records_path n} (nd_disk n) (nd_disk n')"
  by (auto simp: save_state_def dest!: on_disk_disk intro!: write_integrity_away)
    (simp_all add: state_path_def records_path_def temporary_path_def backup_path_def)

lemma ex_open:
  assumes "next_boot_counter ex_read_real (ex_fresh\<lparr>nd_disk := d0\<rparr>) = Inr c" "reliable d0" "dk_fs d0 ''/d/records.fxr'' = None"
    and "dk_fs d0 ''/d/state.fxi'' = None \<or> (\<exists>info. read_integrity_file (dk_fs d0) ''/d/state.fxi'' = Inr (info, dump ex_print_real (state_json (ex_opened c'))))"
  obtains d where "node_open ex_print_real ex_read_real Ok Ok (1, 1) (ex_fresh\<lparr>nd_disk := d0\<rparr>) = (Ok, (ex_opened c)\<lparr>nd_disk := d\<rparr>)" "reliable d"
    "dk_fs d ''/d/records.fxr'' = None" "\<exists>info. read_integrity_file (dk_fs d) ''/d/state.fxi'' = Inr (info, dump ex_print_real (state_json (ex_opened c)))"
proof -
  let ?n = "ex_fresh\<lparr>nd_disk := d0\<rparr>"
  have p: "state_path ?n = ''/d/state.fxi''" "records_path ?n = ''/d/records.fxr''" "nd_options ?n = ex_options" "nd_lifecycle ?n = NodeUnopened"
    by (simp_all add: state_path_def records_path_def ex_fresh_def node_new_def ex_options_def)
  obtain d1 where d1: "load_identity ex_print_real ex_read_real (1, 1) ?n = (Ok, (ex_identified c ?n)\<lparr>nd_disk := d1\<rparr>)" "reliable d1"
      "away {state_path ?n, records_path ?n} (nd_disk ?n) d1"
    using ex_load_identity [OF assms(1) p(3)] assms(2) by auto
  have fs: "dk_fs d1 ''/d/state.fxi'' = dk_fs d0 ''/d/state.fxi''" "dk_fs d1 ''/d/records.fxr'' = None"
    using away_fs [OF d1(3)] assms(3) p by auto
  have i: "(ex_identified c ?n)\<lparr>nd_disk := d1\<rparr> = (ex_identified c ex_fresh)\<lparr>nd_disk := d1\<rparr>" by (simp add: ex_identified_def)
  have "load_state ex_read_real ((ex_identified c ex_fresh)\<lparr>nd_disk := d1\<rparr>) = (Ok, ex_loaded c d1)"
    by (rule ex_load_state [where c' = c']) (use assms(4) fs(1) in \<open>auto simp: read_integrity_file_def read_binary_file_def\<close>)
  moreover have "load_records ex_print_real ex_read_real (ex_loaded c d1) = (Ok, ex_loaded c d1)"
    using load_records_none [of "ex_loaded c d1" ex_print_real ex_read_real] fs(2)
    by (simp add: records_path_def ex_opened_def ex_identified_def ex_fresh_def node_new_def ex_options_def)
  moreover have l: "(ex_loaded c d1)\<lparr>nd_lifecycle := NodeRecovering, nd_lease_confirmed := False\<rparr> = (ex_opened c)\<lparr>nd_disk := d1\<rparr>"
    by (simp add: ex_opened_def ex_identified_def ex_fresh_def node_new_def)
  moreover from saved_ok [of "(ex_opened c)\<lparr>nd_disk := d1\<rparr>"] d1(2) ex_opened_small
  obtain d where d: "save_state ex_print_real ((ex_opened c)\<lparr>nd_disk := d1\<rparr>) = (Ok, (ex_opened c)\<lparr>nd_disk := d\<rparr>)" "reliable d"
    by (auto simp: state_json_cong)
  moreover have o: "records_path ((ex_opened c)\<lparr>nd_disk := d1\<rparr>) = ''/d/records.fxr''" "state_path ((ex_opened c)\<lparr>nd_disk := d1\<rparr>) = ''/d/state.fxi''"
    by (simp_all add: state_path_def records_path_def ex_opened_fields) (simp_all add: ex_options_def)
  ultimately have "node_open ex_print_real ex_read_real Ok Ok (1, 1) ?n = (Ok, (ex_opened c)\<lparr>nd_disk := d\<rparr>)"
    using d1(1) unfolding i
    by (simp add: node_open_def p and_then_def ex_opened_fields) (simp add: ex_options_def name_is_valid_def)
  moreover have "dk_fs d ''/d/records.fxr'' = None"
    using away_fs [OF save_state_away [OF d(1)]] fs(2) by (simp add: o)
  moreover have "\<exists>info. read_integrity_file (dk_fs d) ''/d/state.fxi'' = Inr (info, dump ex_print_real (state_json (ex_opened c)))"
    using saved_state_read [OF d(1)] small_payload [OF ex_opened_small [of c]] by (simp add: o state_json_cong)
  ultimately show thesis using that d(2) by blast
qed


lemma ex_first_open:
  obtains d where "node_open ex_print_real ex_read_real Ok Ok (1, 1) ex_fresh = (Ok, (ex_opened 1)\<lparr>nd_disk := d\<rparr>)" "reliable d"
    "dk_fs d ''/d/records.fxr'' = None" "\<exists>info. read_integrity_file (dk_fs d) ''/d/state.fxi'' = Inr (info, dump ex_print_real (state_json (ex_opened 1)))"
proof -
  have f: "ex_fresh\<lparr>nd_disk := ex_disk Map.empty\<rparr> = ex_fresh" by (simp add: ex_fresh_def node_new_def)
  have b: "next_boot_counter ex_read_real ex_fresh = Inr 1"
    by (simp add: next_boot_counter_def path_exists_def ex_fresh_def node_new_def)
  show thesis
    by (rule ex_open [of "ex_disk Map.empty" 1 0]) (use b ex_reliable that in \<open>simp_all add: f\<close>)
qed

theorem node_invariant_witness:
  "node_inv ex_print_real (node_step ex_print_real (snd (node_open ex_print_real ex_read_real Ok Ok (1, 1) ex_fresh)) (ex_clock, ex_write))"
proof -
  obtain d where d: "node_open ex_print_real ex_read_real Ok Ok (1, 1) ex_fresh = (Ok, (ex_opened 1)\<lparr>nd_disk := d\<rparr>)"
    by (rule ex_first_open)
  have "dk_fs (nd_disk ex_fresh) (records_path ex_fresh) = None" by (simp add: ex_fresh_def node_new_def)
  from node_invariant [OF d this, of "[(ex_clock, ex_write)]"] d show ?thesis by simp
qed

theorem restart_new_incarnation_witness:
  "\<exists>n m. node_open ex_print_real ex_read_real Ok Ok (1, 1) ex_fresh = (Ok, n) \<and>
     node_open ex_print_real ex_read_real Ok Ok (1, 1) (fresh_on ex_options (nd_disk n) (dk_fs (nd_disk n))) = (Ok, m) \<and>
     unat (boot (nd_incarnation m)) = Suc (unat (boot (nd_incarnation n)))"
proof -
  obtain d where d: "node_open ex_print_real ex_read_real Ok Ok (1, 1) ex_fresh = (Ok, (ex_opened 1)\<lparr>nd_disk := d\<rparr>)" "reliable d"
    "dk_fs d ''/d/records.fxr'' = None" "\<exists>info. read_integrity_file (dk_fs d) ''/d/state.fxi'' = Inr (info, dump ex_print_real (state_json (ex_opened 1)))"
    by (rule ex_first_open)
  let ?n = "(ex_opened 1)\<lparr>nd_disk := d\<rparr>"
  have f: "fresh_on ex_options d (dk_fs d) = ex_fresh\<lparr>nd_disk := d\<rparr>" by (simp add: fresh_on_def ex_fresh_def node_new_def)
  have j: "identity_json ?n = identity_json (ex_identified 1 ex_fresh)" by (simp add: identity_json_def ex_opened_def)
  have pb: "prints_back ex_print_real ex_read_real (identity_json ?n)"
    unfolding j by (rule small_prints_back, rule ex_identity_small) (simp add: ex_fresh_def node_new_def)
  have b: "next_boot_counter ex_read_real (ex_fresh\<lparr>nd_disk := d\<rparr>) = Inr 2"
    using opened_boot_counter [OF d(1) pb, of "dk_fs d" "ex_fresh\<lparr>nd_disk := d\<rparr>"]
    by (simp add: ex_opened_def ex_identified_def tagged_next_def)
  obtain d2 where m: "node_open ex_print_real ex_read_real Ok Ok (1, 1) (fresh_on ex_options d (dk_fs d)) = (Ok, (ex_opened 2)\<lparr>nd_disk := d2\<rparr>)"
    using ex_open [OF b d(2,3), of 1] d(4) unfolding f by blast
  have "extends (nd_disk ?n) (nd_disk (foldl (node_step ex_print_real) ?n [])) []" by (simp add: extends_def)
  from restart_new_incarnation [OF d(1) pb this, of "dk_fs d" Ok Ok "(1, 1)" d "(ex_opened 2)\<lparr>nd_disk := d2\<rparr>"] m
  have "unat (boot (nd_incarnation (ex_opened 2))) = Suc (unat (boot (nd_incarnation (ex_opened 1))))" by (simp add: ex_opened_fields)
  then show ?thesis using d(1) m by auto
qed


section \<open>Messages\<close>

definition ex_response :: RpcResponse where
  "ex_response = \<lparr>rs_id = ''1'', rs_op = ''node.write'', rs_status = StaleEpoch, rs_body = JObject [], rs_suppress_response = False\<rparr>"

lemma ex_messages_small:
  "small_json (request_document ex_write)" "small_json (response_document ''stale'' JNull ex_response)"
  by (simp_all add: request_document_def response_document_def status_to_json_def ex_write_def ex_response_def claim_to_json_def ex_claim_def
      ex_state_defs small_json_def small_limits_def ex_texts)

theorem rpc_round_trip_witness:
  "decode_rpc_request ex_read_real (encode_rpc_request ex_print_real ex_write) = Inr ex_write \<and>
   decode_rpc_response ex_read_real (encode_rpc_response ex_print_real ''stale'' JNull ex_response) = Inr ex_response"
proof -
  have "rq_op ex_write \<noteq> []" "length (rq_id ex_write) \<le> 128" "is_object (rq_body ex_write)" "ex_response\<lparr>rs_suppress_response := False\<rparr> = ex_response"
    by (simp_all add: ex_write_def ex_response_def json_object_def json_set_def try_object_def is_object_def)
  with rpc_round_trip [OF small_prints_back [OF ex_messages_small(1)] _ _ _ small_prints_back [OF ex_messages_small(2)]] show ?thesis by simp
qed

end
