(* ===== verification/Effects.thy ===== *)
theory Effects
  imports Disk
begin

text \<open>
  Sequences of steps on an object that may stop with an error, as the methods of the controller are
  written: \<^verbatim>\<open>const Status s = step(); if (!s.ok()) return s;\<close>. An action changes the state and answers a
  value or an error; an error ends the sequence and keeps the changes made so far. The rules of
  \<open>steps\<close> reduce a statement about all changes of a sequence to its steps.
\<close>

type_synonym ('a, 's) action = "'s \<Rightarrow> 'a Result \<times> 's"

definition act_return :: "'a \<Rightarrow> ('a, 's) action" where
  "act_return x s = (Inr x, s)"

definition act_fail :: "ErrorCode \<Rightarrow> ('a, 's) action" where
  "act_fail e s = (Inl e, s)"

definition act_bind :: "('a, 's) action \<Rightarrow> ('a \<Rightarrow> ('b, 's) action) \<Rightarrow> ('b, 's) action" where
  "act_bind m f s = (case m s of (Inl e, t) \<Rightarrow> (Inl e, t) | (Inr x, t) \<Rightarrow> f x t)"

definition act_then :: "(unit, 's) action \<Rightarrow> ('b, 's) action \<Rightarrow> ('b, 's) action" where
  "act_then m k = act_bind m (\<lambda>_. k)"

definition act_get :: "('s \<Rightarrow> 'a) \<Rightarrow> ('a, 's) action" where
  "act_get f s = (Inr (f s), s)"

definition act_modify :: "('s \<Rightarrow> 's) \<Rightarrow> (unit, 's) action" where
  "act_modify f s = (Inr (), f s)"

definition act_result :: "'a Result \<Rightarrow> ('a, 's) action" where
  "act_result r s = (r, s)"

text \<open>\<^verbatim>\<open>if (!status.ok()) return status;\<close>\<close>

definition act_check :: "Status \<Rightarrow> (unit, 's) action" where
  "act_check status s = (if status = Ok then Inr () else Inl status, s)"

text \<open>\<^verbatim>\<open>(void)step();\<close> and a step whose failure the code looks at.\<close>

definition act_ignore :: "('a, 's) action \<Rightarrow> (unit, 's) action" where
  "act_ignore m s = (Inr (), snd (m s))"

definition act_try :: "('a, 's) action \<Rightarrow> ('a Result, 's) action" where
  "act_try m s = (Inr (fst (m s)), snd (m s))"

lemmas act_defs =
  act_return_def act_fail_def act_get_def act_modify_def act_result_def act_check_def act_ignore_def act_try_def

section \<open>Runs that end in a value\<close>

named_theorems act_eqs

lemma act_bind_Inr [act_eqs]: "act_bind m f s = (Inr y, s') \<longleftrightarrow> (\<exists>x t. m s = (Inr x, t) \<and> f x t = (Inr y, s'))"
  by (auto simp: act_bind_def split: prod.splits sum.splits)

lemma act_then_Inr [act_eqs]: "act_then m k s = (Inr y, s') \<longleftrightarrow> (\<exists>t. m s = (Inr (), t) \<and> k t = (Inr y, s'))"
  by (auto simp: act_then_def act_bind_Inr)

lemma act_simple_Inr [act_eqs]:
  "act_return x s = (Inr y, s') \<longleftrightarrow> y = x \<and> s' = s"
  "act_fail e s \<noteq> (Inr y, s')"
  "act_get g s = (Inr y, s') \<longleftrightarrow> y = g s \<and> s' = s"
  "act_modify h s = (Inr u, s') \<longleftrightarrow> s' = h s"
  "act_result r s = (Inr y, s') \<longleftrightarrow> r = Inr y \<and> s' = s"
  "act_check status s = (Inr u, s') \<longleftrightarrow> status = Ok \<and> s' = s"
  "act_ignore m s = (Inr u, s') \<longleftrightarrow> s' = snd (m s)"
  "act_try m s = (Inr r, s') \<longleftrightarrow> m s = (r, s')"
  by (auto simp: act_defs split: if_splits)

lemma act_run [simp]:
  "act_bind (act_return x) f = f x" "act_bind (act_get g) f s = f (g s) s" "act_then (act_modify h) k s = k (h s)"
  "act_bind (act_modify h) f' s = f' () (h s)" "act_bind (act_fail e) f = act_fail e"
  by (auto simp: act_bind_def act_then_def act_defs)

lemma act_bind_cases:
  assumes "act_bind m f s = (u, s')"
  obtains (stopped) e where "m s = (Inl e, s')" "u = Inl e"
  | (continued) x t where "m s = (Inr x, t)" "f x t = (u, s')"
  using assms by (auto simp: act_bind_def split: prod.splits sum.splits)

lemma act_then_cases:
  assumes "act_then m k s = (u, s')"
  obtains (stopped) e where "m s = (Inl e, s')" "u = Inl e"
  | (continued) t where "m s = (Inr (), t)" "k t = (u, s')"
  using assms unfolding act_then_def by (auto elim: act_bind_cases)

lemma act_then_assoc: "act_then (act_then m n) k = act_then m (act_then n k)"
  by (rule ext) (auto simp: act_then_def act_bind_def split: prod.splits sum.splits)

section \<open>All changes of a sequence\<close>

definition steps :: "('s \<Rightarrow> 's \<Rightarrow> bool) \<Rightarrow> ('a, 's) action \<Rightarrow> bool" where
  "steps R m = (\<forall>s. R s (snd (m s)))"

lemma stepsD: "steps R m \<Longrightarrow> m s = (r, s') \<Longrightarrow> R s s'"
  unfolding steps_def by (metis snd_conv)

lemma stepsI: "(\<And>s r s'. m s = (r, s') \<Longrightarrow> R s s') \<Longrightarrow> steps R m"
  unfolding steps_def by (metis prod.collapse)

locale step_relation =
  fixes R :: "'s \<Rightarrow> 's \<Rightarrow> bool"
  assumes refl: "R s s" and trans: "R a b \<Longrightarrow> R b c \<Longrightarrow> R a c"
begin

lemma steps_bind:
  assumes "steps R m" "\<And>x. steps R (f x)"
  shows "steps R (act_bind m f)"
proof (rule stepsI)
  fix s r s'
  assume b: "act_bind m f s = (r, s')"
  obtain q t where m: "m s = (q, t)" by fastforce
  then have "R s t" using assms(1) by (rule stepsD [rotated])
  moreover have "s' = t \<or> (\<exists>x. f x t = (r, s'))" using b m by (auto simp: act_bind_def split: sum.splits)
  ultimately show "R s s'" using stepsD [OF assms(2)] trans by blast
qed

lemma steps_then: "steps R m \<Longrightarrow> steps R k \<Longrightarrow> steps R (act_then m k)"
  unfolding act_then_def by (rule steps_bind)

lemma steps_pure: "steps R (act_return x)" "steps R (act_fail e)" "steps R (act_get g)" "steps R (act_result r)" "steps R (act_check status)"
  by (simp_all add: steps_def act_defs refl)

lemma steps_modify: "(\<And>s. R s (h s)) \<Longrightarrow> steps R (act_modify h)"
  by (simp add: steps_def act_modify_def)

lemma steps_inner: "steps R m \<Longrightarrow> steps R (act_ignore m)" "steps R m \<Longrightarrow> steps R (act_try m)"
  by (simp_all add: steps_def act_defs)

lemma steps_if: "(b \<Longrightarrow> steps R m) \<Longrightarrow> (\<not> b \<Longrightarrow> steps R k) \<Longrightarrow> steps R (if b then m else k)"
  by simp

lemma steps_option: "(x = None \<Longrightarrow> steps R m) \<Longrightarrow> (\<And>y. x = Some y \<Longrightarrow> steps R (f y)) \<Longrightarrow> steps R (case x of None \<Rightarrow> m | Some y \<Rightarrow> f y)"
  by (cases x) simp_all

lemma steps_sum: "(\<And>e. x = Inl e \<Longrightarrow> steps R (g e)) \<Longrightarrow> (\<And>y. x = Inr y \<Longrightarrow> steps R (f y)) \<Longrightarrow> steps R (case x of Inl e \<Rightarrow> g e | Inr y \<Rightarrow> f y)"
  by (cases x) simp_all

lemma steps_prod: "(\<And>a b. x = (a, b) \<Longrightarrow> steps R (f a b)) \<Longrightarrow> steps R (case x of (a, b) \<Rightarrow> f a b)"
  by (cases x) simp

lemma steps_let: "steps R (f x) \<Longrightarrow> steps R (let y = x in f y)"
  by (simp add: Let_def)

lemmas steps_intros =
  steps_bind steps_then steps_pure steps_modify steps_inner steps_if steps_option steps_sum steps_prod steps_let

end

section \<open>What a successful sequence ends in\<close>

definition ends :: "('s \<Rightarrow> bool) \<Rightarrow> ('s \<Rightarrow> bool) \<Rightarrow> ('a, 's) action \<Rightarrow> bool" where
  "ends P Q m = (\<forall>s x s'. P s \<longrightarrow> m s = (Inr x, s') \<longrightarrow> Q s')"

lemma endsI: "(\<And>s x s'. P s \<Longrightarrow> m s = (Inr x, s') \<Longrightarrow> Q s') \<Longrightarrow> ends P Q m"
  by (simp add: ends_def)

lemma endsD: "ends P Q m \<Longrightarrow> P s \<Longrightarrow> m s = (Inr x, s') \<Longrightarrow> Q s'"
  by (simp add: ends_def)

lemma ends_bind: "steps (\<lambda>s s'. P s \<longrightarrow> P s') m \<Longrightarrow> (\<And>x. ends P Q (f x)) \<Longrightarrow> ends P Q (act_bind m f)"
  unfolding ends_def steps_def by (fastforce simp: act_bind_Inr)

lemma ends_then: "steps (\<lambda>s s'. P s \<longrightarrow> P s') m \<Longrightarrow> ends P Q k \<Longrightarrow> ends P Q (act_then m k)"
  unfolding act_then_def by (rule ends_bind)

lemma ends_seq: "ends P R m \<Longrightarrow> ends R Q k \<Longrightarrow> ends P Q (act_then m k)"
  unfolding ends_def by (fastforce simp: act_then_Inr)

lemma ends_fail: "ends P Q (act_fail e)"
  by (simp add: ends_def act_fail_def)

lemma ends_cases:
  "(b \<Longrightarrow> ends P Q m) \<Longrightarrow> (\<not> b \<Longrightarrow> ends P Q k) \<Longrightarrow> ends P Q (if b then m else k)"
  "(\<And>a c. z = (a, c) \<Longrightarrow> ends P Q (g a c)) \<Longrightarrow> ends P Q (case z of (a, c) \<Rightarrow> g a c)"
  "(\<And>e. y = Inl e \<Longrightarrow> ends P Q (f e)) \<Longrightarrow> (\<And>x. y = Inr x \<Longrightarrow> ends P Q (h x)) \<Longrightarrow> ends P Q (case y of Inl e \<Rightarrow> f e | Inr x \<Rightarrow> h x)"
  by (auto split: prod.splits sum.splits)

end
