(* ===== verification/Controller.thy ===== *)
theory Controller
  imports Effects Node Rpc Campaign Epoch_Log Protocol Compatibility Manifest
begin

text \<open>
  The evolution controller (\<^verbatim>\<open>include/fabric/evolution/controller.hpp\<close>, \<^verbatim>\<open>src/controller.cpp\<close>): its state, its
  durable form, and the operations the phases of a handoff are built from. The controller runs under one
  lock, so an operation is an action on its state. The state carries what the outside answers: the disk,
  the readings of the clock, the minted tokens, the peers it calls and the texts of messages, which the
  model does not build. Explanations are not modelled; a clock reading that only dates one is not counted.
\<close>

record EndpointRef =
  ep_component :: ComponentId
  ep_host :: string
  ep_port :: u16
  ep_role :: string

record ControllerOptions =
  co_controller_id :: ComponentId
  co_state_directory :: string
  co_lease_ttl_ms :: TimestampMs
  co_max_catch_up_rounds :: nat
  co_max_records_per_round :: nat
  co_evidence_policy :: EvidencePolicy

record 'w EvolutionController =
  ct_options :: ControllerOptions
  ct_authority :: AuthorityRegistry
  ct_epoch_log :: EpochLog
  ct_manifest :: "EvolutionManifest option"
  ct_campaign :: "CampaignRecord option"
  ct_handoff :: "HandoffRecord option"
  ct_source_endpoint :: "EndpointRef option"
  ct_target_endpoint :: "EndpointRef option"
  ct_last_source_report :: "NodeReport option"
  ct_last_target_report :: "NodeReport option"
  ct_predecessor_history :: "IncarnationId list"
  ct_fenced_predecessor_claim :: "AuthorityClaim option"
  ct_window_start_lsn :: LogSequenceNumber
  ct_next_handoff_id :: u64
  ct_next_epoch :: EpochNumber
  ct_incarnation :: IncarnationId
  ct_boot :: BootCounter
  ct_last_pause_deferral_ms :: TimestampMs
  ct_last_deferral_reason :: string
  ct_recovered_from_backup :: bool
  ct_serving :: bool            \<comment> \<open>\<^verbatim>\<open>server_ != nullptr\<close>\<close>
  ct_port :: u16
  ct_disk :: Disk
  ct_clock :: "nat \<Rightarrow> TimestampMs"     \<comment> \<open>the readings, and how many were taken\<close>
  ct_ticks :: nat
  ct_tokens :: "nat \<Rightarrow> AuthorityToken"
  ct_minted :: nat
  ct_texts :: "nat \<Rightarrow> string"
  ct_said :: nat
  ct_world :: 'w

text \<open>What the controller calls: the peers (\<^verbatim>\<open>rpc_call\<close>), the compatibility registry, the number conversions.\<close>

record 'w ControllerEnv =
  env_call :: "EndpointRef \<Rightarrow> RpcRequest \<Rightarrow> 'w \<Rightarrow> RpcResponse Result \<times> 'w"
  env_decide :: "ComponentId \<Rightarrow> SoftwareVersion \<Rightarrow> SoftwareVersion \<Rightarrow> CompatibilityDecision Result"
  env_registry_name :: string
  env_dtoa :: "u64 \<Rightarrow> string"
  env_strtod :: "string \<Rightarrow> u64 option"

type_synonym ('a, 'w) ctl = "('a, 'w EvolutionController) action"

definition kDefaultEpochLogCapacity :: nat where
  "kDefaultEpochLogCapacity = 4096"

definition kMaxHandoffRestarts :: u32 where
  "kMaxHandoffRestarts = 8"

definition controller_new ::
  "ControllerOptions \<Rightarrow> Disk \<Rightarrow> (nat \<Rightarrow> TimestampMs) \<Rightarrow> (nat \<Rightarrow> AuthorityToken) \<Rightarrow> (nat \<Rightarrow> string) \<Rightarrow> 'w \<Rightarrow> 'w EvolutionController" where
  "controller_new options disk clock tokens texts world =
     \<lparr>ct_options = options, ct_authority = \<lparr>shards = [], reg_next_lease_id = 1, reg_next_fence_id = 1\<rparr>,
      ct_epoch_log = epoch_log_new (co_state_directory options @ ''/epochs.fxr'') kDefaultEpochLogCapacity,
      ct_manifest = None, ct_campaign = None, ct_handoff = None, ct_source_endpoint = None, ct_target_endpoint = None,
      ct_last_source_report = None, ct_last_target_report = None, ct_predecessor_history = [],
      ct_fenced_predecessor_claim = None, ct_window_start_lsn = 0, ct_next_handoff_id = 1, ct_next_epoch = 1,
      ct_incarnation = incarnation_none, ct_boot = 1, ct_last_pause_deferral_ms = 0, ct_last_deferral_reason = [],
      ct_recovered_from_backup = False, ct_serving = False, ct_port = 0, ct_disk = disk, ct_clock = clock, ct_ticks = 0,
      ct_tokens = tokens, ct_minted = 0, ct_texts = texts, ct_said = 0, ct_world = world\<rparr>"

section \<open>The outside\<close>

definition read_clock :: "(TimestampMs, 'w) ctl" where
  "read_clock c = (Inr (ct_clock c (ct_ticks c)), c\<lparr>ct_ticks := Suc (ct_ticks c)\<rparr>)"

definition read_text :: "(string, 'w) ctl" where
  "read_text c = (Inr (ct_texts c (ct_said c)), c\<lparr>ct_said := Suc (ct_said c)\<rparr>)"

definition mint_token :: "(AuthorityToken, 'w) ctl" where
  "mint_token c = (Inr (ct_tokens c (ct_minted c)), c\<lparr>ct_minted := Suc (ct_minted c)\<rparr>)"

definition controller_disk :: "(Disk \<Rightarrow> Status \<times> Disk) \<Rightarrow> (unit, 'w) ctl" where
  "controller_disk f c =
     (case f (ct_disk c) of (status, d) \<Rightarrow> (if status = Ok then Inr () else Inl status, c\<lparr>ct_disk := d\<rparr>))"

text \<open>\<^verbatim>\<open>epoch_log_.append(event)\<close>: one file operation, and one more when the journal is compacted.\<close>

definition append_event :: "'w ControllerEnv \<Rightarrow> EpochEvent \<Rightarrow> (unit, 'w) ctl" where
  "append_event env e c =
     (let d = ct_disk c in
      case epoch_log_append (env_dtoa env) (dk_io d (dk_calls d)) (dk_io d (Suc (dk_calls d))) (dk_pid d) (ct_epoch_log c) e (dk_fs d) of
        (status, l, states) \<Rightarrow>
          (if status = Ok then Inr () else Inl status,
           c\<lparr>ct_epoch_log := l,
             ct_disk := d\<lparr>dk_fs := last states, dk_calls := dk_calls d + 2, dk_trace := dk_trace d @ states\<rparr>\<rparr>))"

definition log_event :: "'w ControllerEnv \<Rightarrow> EpochEventKind \<Rightarrow> ShardId \<Rightarrow> EpochNumber \<Rightarrow> Generation \<Rightarrow> json \<Rightarrow> (unit, 'w) ctl" where
  "log_event env kind shard epoch generation payload =
     act_bind read_clock (\<lambda>at.
       append_event env \<lparr>ee_kind = kind, ee_shard = shard, ee_epoch = epoch, ee_generation = generation, ee_at_ms = at,
         ee_payload = payload\<rparr>)"

text \<open>\<^verbatim>\<open>NodeClient\<close>\<close>

definition peer_call :: "'w ControllerEnv \<Rightarrow> EndpointRef \<Rightarrow> string \<Rightarrow> json \<Rightarrow> 'w \<Rightarrow> json Result \<times> 'w" where
  "peer_call env endpoint op body w =
     (case env_call env endpoint \<lparr>rq_id = ''controller-call'', rq_op = op, rq_body = body\<rparr> w of
        (response, w') \<Rightarrow> (rbind response (\<lambda>r. if rs_status r \<noteq> Ok then Inl (rs_status r) else Inr (rs_body r)), w'))"

definition node_call :: "'w ControllerEnv \<Rightarrow> EndpointRef \<Rightarrow> string \<Rightarrow> json \<Rightarrow> (json, 'w) ctl" where
  "node_call env endpoint op body c =
     (case peer_call env endpoint op body (ct_world c) of (answer, w) \<Rightarrow> (answer, c\<lparr>ct_world := w\<rparr>))"

definition report_mode :: "string \<Rightarrow> AuthorityMode" where
  "report_mode text =
     (if text = ''mutating'' then Mutating else if text = ''read_only_shared'' then ReadOnlyShared else ModeNone)"

definition report_lifecycle :: "string \<Rightarrow> NodeLifecycle" where
  "report_lifecycle text =
     (if text = ''serving'' then NodeServing else if text = ''recovering'' then NodeRecovering
      else if text = ''fenced'' then NodeFenced else if text = ''retired'' then NodeRetired
      else if text = ''stopped'' then NodeStopped else NodeUnopened)"

text \<open>\<^verbatim>\<open>if (x) { if (auto parsed = parse(*x)) { out = *parsed; } }\<close>\<close>

definition decoded_or :: "'a \<Rightarrow> (string \<Rightarrow> 'a option) \<Rightarrow> string option \<Rightarrow> 'a" where
  "decoded_or d parse x = (case x of None \<Rightarrow> d | Some t \<Rightarrow> (case parse t of None \<Rightarrow> d | Some v \<Rightarrow> v))"

definition report_from_body :: "json \<Rightarrow> NodeReport Result" where
  "report_from_body body =
     rbind (require (json_find body ''report'') Malformed) (\<lambda>report.
     rbind (guard (is_object report) Malformed) (\<lambda>_.
     rbind (require (json_string report ''component'') Malformed) (\<lambda>component.
     rbind (require (json_string report ''shard'') Malformed) (\<lambda>shard.
     rbind (require (name_parse component) Malformed) (\<lambda>parsed_component.
     rbind (require (name_parse shard) Malformed) (\<lambda>parsed_shard.
     rbind (require (json_find report ''incarnation'') Malformed) (\<lambda>incarnation.
     rbind (incarnation_from_json incarnation) (\<lambda>parsed_incarnation.
     Inr \<lparr>nr_component = parsed_component, nr_incarnation = parsed_incarnation, nr_shard = parsed_shard,
          nr_software = decoded_or (SoftwareVersion 0 0 0 []) software_version_parse (json_string report ''software''),
          nr_protocol = decoded_or (ProtocolVersion 0 0) protocol_version_parse (json_string report ''protocol''),
          nr_schema = (case json_u64 report ''schema'' of None \<Rightarrow> 0
             | Some v \<Rightarrow> if v > 0 \<and> v \<le> 0xFFFFFFFF then ucast v else 0),
          nr_features = fs_none,
          nr_epoch = json_u64_or report ''epoch'' 0, nr_generation = json_u64_or report ''generation'' 0,
          nr_lsn = json_u64_or report ''lsn'' 0,
          nr_mode = (case json_string report ''mode'' of None \<Rightarrow> ModeNone | Some t \<Rightarrow> report_mode t),
          nr_token = decoded_or uuid_nil uuid_parse (json_string report ''token''),
          nr_lease_expires_at_ms = json_u64_or report ''lease_expires_at_ms'' 0,
          nr_has_authority = json_bool_or report ''has_authority'' False,
          nr_lease_confirmed = json_bool_or report ''lease_confirmed'' False,
          nr_lifecycle = (case json_string report ''lifecycle'' of None \<Rightarrow> NodeUnopened | Some t \<Rightarrow> report_lifecycle t),
          nr_writes_applied = json_u64_or report ''writes_applied'' 0,
          nr_writes_refused = json_u64_or report ''writes_refused'' 0,
          nr_reads_served = json_u64_or report ''reads_served'' 0,
          nr_state_digest = decoded_or digest_zero digest_from_hex (json_string report ''state_digest''),
          nr_recorded_snapshot_digest = digest_zero, nr_oldest_logged_lsn = 0\<rparr>))))))))"

definition node_report :: "'w ControllerEnv \<Rightarrow> EndpointRef \<Rightarrow> (NodeReport, 'w) ctl" where
  "node_report env endpoint =
     act_bind (node_call env endpoint ''node.status'' (JObject [])) (\<lambda>body. act_result (report_from_body body))"

definition peer_hello :: "'w ControllerEnv \<Rightarrow> EndpointRef \<Rightarrow> (ProtocolHello, 'w) ctl" where
  "peer_hello env endpoint =
     act_bind (node_call env endpoint ''node.hello'' (JObject [])) (\<lambda>body.
     act_bind (act_result (require (json_find body ''hello'') Malformed)) (\<lambda>hello.
     act_result (protocol_hello_from_json hello)))"

section \<open>Durable state\<close>

definition controller_state_path :: "'w EvolutionController \<Rightarrow> string" where
  "controller_state_path c = co_state_directory (ct_options c) @ ''/controller.fxi''"

definition set_option :: "string \<Rightarrow> ('a \<Rightarrow> json) \<Rightarrow> 'a option \<Rightarrow> json \<Rightarrow> json" where
  "set_option key f x j = (case x of None \<Rightarrow> j | Some v \<Rightarrow> json_set j key (f v))"

definition controller_json :: "'w EvolutionController \<Rightarrow> json" where
  "controller_json c =
     set_option ''fenced_predecessor_claim'' claim_to_json (ct_fenced_predecessor_claim c)
     (set_option ''handoff'' handoff_to_json (ct_handoff c)
     (set_option ''campaign'' campaign_to_json (ct_campaign c)
     (set_option ''manifest'' manifest_to_json (ct_manifest c)
       (json_set (json_set (json_set (json_set (json_set (json_set (json_set (json_set (json_set (JObject [])
         ''format'' (JInt 1))
         ''controller'' (JString (co_controller_id (ct_options c))))
         ''controller_incarnation'' (incarnation_to_json (ct_incarnation c)))
         ''authority'' (registry_to_json (ct_authority c)))
         ''next_handoff_id'' (JUInt (ct_next_handoff_id c)))
         ''next_epoch'' (JUInt (ct_next_epoch c)))
         ''window_start_lsn'' (JUInt (ct_window_start_lsn c)))
         ''last_deferral_reason'' (JString (ct_last_deferral_reason c)))
         ''last_pause_deferral_ms'' (JUInt (ct_last_pause_deferral_ms c))))))"

definition controller_save :: "'w ControllerEnv \<Rightarrow> (unit, 'w) ctl" where
  "controller_save env =
     act_bind (act_get (\<lambda>c. (controller_state_path c, dump (env_dtoa env) (controller_json c)))) (\<lambda>(path, text).
       controller_disk (disk_write_integrity path text True))"

text \<open>An optional member of the document: absent, refused, or stored.\<close>

definition load_member :: "string \<Rightarrow> (json \<Rightarrow> 'a Result) \<Rightarrow> ('a \<Rightarrow> 'w EvolutionController \<Rightarrow> 'w EvolutionController) \<Rightarrow> json \<Rightarrow> (unit, 'w) ctl" where
  "load_member key decode store document =
     (case json_find document key of
        None \<Rightarrow> act_return ()
      | Some j \<Rightarrow> act_bind (act_result (decode j)) (\<lambda>v. act_modify (store v)))"

definition endpoint_of :: "string \<Rightarrow> ComponentSpec \<Rightarrow> EndpointRef" where
  "endpoint_of role spec = \<lparr>ep_component = cs_id spec, ep_host = cs_host spec, ep_port = cs_port spec, ep_role = role\<rparr>"

definition bind_endpoints :: "EvolutionManifest \<Rightarrow> 'w EvolutionController \<Rightarrow> 'w EvolutionController" where
  "bind_endpoints m c =
     c\<lparr>ct_source_endpoint := Some (endpoint_of ''source'' (mf_source m)), ct_target_endpoint := Some (endpoint_of ''target'' (mf_target m))\<rparr>"

definition load_claim :: "json \<Rightarrow> 'w EvolutionController \<Rightarrow> 'w EvolutionController" where
  "load_claim document c =
     (case json_find document ''fenced_predecessor_claim'' of
        None \<Rightarrow> c
      | Some j \<Rightarrow> (case authority_claim_from_json j of Inl _ \<Rightarrow> c | Inr claim \<Rightarrow> c\<lparr>ct_fenced_predecessor_claim := Some claim\<rparr>))"

definition load_counters :: "json \<Rightarrow> 'w EvolutionController \<Rightarrow> 'w EvolutionController" where
  "load_counters document c =
     c\<lparr>ct_next_handoff_id := json_u64_or document ''next_handoff_id'' 1, ct_next_epoch := json_u64_or document ''next_epoch'' 1,
       ct_window_start_lsn := json_u64_or document ''window_start_lsn'' 0,
       ct_last_deferral_reason := json_string_or document ''last_deferral_reason'' [],
       ct_last_pause_deferral_ms := json_u64_or document ''last_pause_deferral_ms'' 0\<rparr>"

definition load_incarnation :: "json \<Rightarrow> 'w EvolutionController \<Rightarrow> 'w EvolutionController" where
  "load_incarnation document c =
     (case json_find document ''controller_incarnation'' of
        None \<Rightarrow> c
      | Some j \<Rightarrow> (case incarnation_from_json j of Inl _ \<Rightarrow> c | Inr i \<Rightarrow> c\<lparr>ct_incarnation := i, ct_boot := boot i\<rparr>))"

definition load_registry :: "json \<Rightarrow> (unit, 'w) ctl" where
  "load_registry j c =
     (case registry_load j (ct_authority c) of
        (r, status) \<Rightarrow> (if status = Ok then Inr () else Inl status, c\<lparr>ct_authority := r\<rparr>))"

definition controller_restore :: "'w ControllerEnv \<Rightarrow> json \<Rightarrow> (unit, 'w) ctl" where
  "controller_restore env document =
     act_bind (act_result (require (json_find document ''authority'') IntegrityFailure)) (\<lambda>authority.
     act_then (load_registry authority)
     (act_then (load_member ''manifest'' (manifest_from_json (env_dtoa env)) (\<lambda>m. ct_manifest_update (\<lambda>_. Some m)) document)
     (act_then (load_member ''campaign'' campaign_record_from_json (\<lambda>k. ct_campaign_update (\<lambda>_. Some k)) document)
     (act_then (load_member ''handoff'' handoff_record_from_json (\<lambda>h. ct_handoff_update (\<lambda>_. Some h)) document)
     (act_modify (\<lambda>c. load_incarnation document (load_counters document (load_claim document
        (case ct_manifest c of None \<Rightarrow> c | Some m \<Rightarrow> bind_endpoints m c)))))))))"

definition controller_load :: "'w ControllerEnv \<Rightarrow> (unit, 'w) ctl" where
  "controller_load env c =
     (if \<not> path_exists (dk_fs (ct_disk c)) (controller_state_path c) then (Inr (), c)
      else
        (case read_integrity_file_with_recovery (dk_fs (ct_disk c)) (controller_state_path c) True of
           Inl e \<Rightarrow> (Inl e, c)
         | Inr recovered \<Rightarrow>
             let c1 = c\<lparr>ct_recovered_from_backup := ro_from_backup recovered\<rparr> in
             (case parse_json (env_strtod env) default_parse_limits (ro_payload recovered) of
                None \<Rightarrow> (Inl IntegrityFailure, c1)
              | Some document \<Rightarrow> controller_restore env document c1)))"

definition controller_identity_path :: "'w EvolutionController \<Rightarrow> string" where
  "controller_identity_path c = co_state_directory (ct_options c) @ ''/controller-identity.fxi''"

definition controller_next_boot :: "'w ControllerEnv \<Rightarrow> 'w EvolutionController \<Rightarrow> BootCounter Result" where
  "controller_next_boot env c =
     (if \<not> path_exists (dk_fs (ct_disk c)) (controller_identity_path c) then Inr 1
      else
        rbind (read_integrity_file (dk_fs (ct_disk c)) (controller_identity_path c)) (\<lambda>(_, raw).
        rbind (require (parse_json (env_strtod env) default_parse_limits raw) IntegrityFailure) (\<lambda>parsed.
        rbind (require (json_u64 parsed ''boot_counter'') IntegrityFailure) (\<lambda>previous.
        require (tagged_next previous) BoundsExceeded))))"

definition controller_identity_json :: "BootCounter \<Rightarrow> 'w EvolutionController \<Rightarrow> json" where
  "controller_identity_json b c =
     json_set (json_set (JObject []) ''controller'' (JString (co_controller_id (ct_options c)))) ''boot_counter'' (JUInt b)"

definition restart_preflight :: "'w EvolutionController \<Rightarrow> 'w EvolutionController" where
  "restart_preflight c =
     c\<lparr>ct_campaign := map_option (\<lambda>k. if ca_state k = Preflighting then k\<lparr>ca_state := Planned\<rparr> else k) (ct_campaign c)\<rparr>"

definition replay_journal :: "'w ControllerEnv \<Rightarrow> (unit, 'w) ctl" where
  "replay_journal env c =
     (case epoch_log_replay (env_strtod env) (ct_epoch_log c) (dk_fs (ct_disk c)) of
        (status, l) \<Rightarrow> (if status = Ok then Inr () else Inl status, c\<lparr>ct_epoch_log := l\<rparr>))"

text \<open>\<open>directory\<close> is what creating the state directory answers, \<open>random\<close> are two words of the random generator.\<close>

definition controller_open :: "'w ControllerEnv \<Rightarrow> Status \<Rightarrow> u64 \<times> u64 \<Rightarrow> (unit, 'w) ctl" where
  "controller_open env directory random =
     act_bind (act_get ct_options) (\<lambda>options.
     act_then (act_check (if co_state_directory options = [] then InvalidArgument
                          else if \<not> name_is_valid (co_controller_id options) then InvalidArgument else directory))
     (act_bind (act_bind (act_get (controller_next_boot env)) act_result) (\<lambda>b.
      act_then (act_bind (act_get (\<lambda>c. (controller_identity_path c, dump (env_dtoa env) (controller_identity_json b c)))) (\<lambda>(path, text).
        controller_disk (disk_write_integrity path text False)))
     (act_then (controller_load env)
     (act_then (act_modify (\<lambda>c.
        if \<not> incarnation_is_valid (ct_incarnation c) \<or> boot (ct_incarnation c) \<noteq> b
        then c\<lparr>ct_incarnation := \<lparr>component = co_controller_id options, uuid = random_uuid (fst random) (snd random), boot = b\<rparr>\<rparr>
        else c))
     (act_then (replay_journal env)
     (act_then (act_modify restart_preflight)
     (controller_save env))))))))"

definition start_admin :: "Status \<Rightarrow> u16 \<Rightarrow> (unit, 'w) ctl" where
  "start_admin started port = act_then (act_check started) (act_modify (\<lambda>c. c\<lparr>ct_port := port, ct_serving := True\<rparr>))"

definition controller_stop :: "'w EvolutionController \<Rightarrow> 'w EvolutionController" where
  "controller_stop c = c\<lparr>ct_serving := False, ct_port := 0\<rparr>"

end
