(* ===== verification/Controller_Ops.thy ===== *)
theory Controller_Ops
  imports Controller
begin

text \<open>
  The operations of the evolution controller (\<^verbatim>\<open>src/controller.cpp\<close>) that plan a campaign, decide its actions,
  bind its nodes and keep the authority registry, and what the phases of a handoff share: recording a
  phase, restarting, reconciling replaced processes.
\<close>

section \<open>The registry\<close>

definition registry_view :: "ShardId \<Rightarrow> (AuthorityView, 'w) ctl" where
  "registry_view shard =
     act_bind read_clock (\<lambda>now. act_bind (act_get (\<lambda>c. authority_view now shard (ct_authority c))) act_result)"

definition on_registry :: "(AuthorityRegistry \<Rightarrow> AuthorityRegistry \<times> Status) \<Rightarrow> (unit, 'w) ctl" where
  "on_registry f c =
     (case f (ct_authority c) of (r, status) \<Rightarrow> (if status = Ok then Inr () else Inl status, c\<lparr>ct_authority := r\<rparr>))"

definition registry_grant :: "GrantRequest \<Rightarrow> (AuthorityLease, 'w) ctl" where
  "registry_grant req =
     act_bind read_clock (\<lambda>now. act_bind read_clock (\<lambda>now'. act_bind mint_token (\<lambda>tok c.
       case grant now now' tok req (ct_authority c) of (r, result) \<Rightarrow> (result, c\<lparr>ct_authority := r\<rparr>))))"

definition registry_request_fence :: "ShardId \<Rightarrow> IncarnationId \<Rightarrow> string \<Rightarrow> (unit, 'w) ctl" where
  "registry_request_fence shard target reason =
     act_bind read_clock (\<lambda>now. on_registry (request_fence now shard target reason))"

definition registry_acknowledge :: "ShardId \<Rightarrow> IncarnationId \<Rightarrow> FenceId \<Rightarrow> (unit, 'w) ctl" where
  "registry_acknowledge shard holder fence =
     act_bind read_clock (\<lambda>now. on_registry (acknowledge_fence now shard holder fence))"

definition registry_reattest :: "ShardId \<Rightarrow> IncarnationId \<Rightarrow> AuthorityToken \<Rightarrow> (unit, 'w) ctl" where
  "registry_reattest shard holder token =
     act_bind read_clock (\<lambda>now. on_registry (reattest now shard holder token))"

definition claim_of :: "AuthorityLease \<Rightarrow> AuthorityClaim" where
  "claim_of l =
     \<lparr>claim_shard = lease_shard l, claim_incarnation = lease_holder l, claim_epoch = lease_epoch l,
      claim_generation = lease_generation l, claim_token = lease_token l\<rparr>"

section \<open>Planning\<close>

definition epoch_or :: "EpochNumber \<Rightarrow> ShardId \<Rightarrow> AuthorityRegistry \<Rightarrow> EpochNumber" where
  "epoch_or d shard r = (case current_epoch r shard of None \<Rightarrow> d | Some e \<Rightarrow> e)"

definition generation_or :: "Generation \<Rightarrow> ShardId \<Rightarrow> AuthorityRegistry \<Rightarrow> Generation" where
  "generation_or d shard r = (case current_generation r shard of None \<Rightarrow> d | Some g \<Rightarrow> g)"

definition window_status :: "'w EvolutionController \<Rightarrow> TimestampMs \<Rightarrow> WindowStatus" where
  "window_status c now =
     (case (ct_campaign c, ct_manifest c) of
        (Some campaign, Some m) \<Rightarrow>
          (let h0 = ct_window_start_lsn c;
               h1 = (case ct_last_source_report c of Some r \<Rightarrow> (if nr_lsn r > h0 then nr_lsn r else h0) | None \<Rightarrow> h0);
               highest = (case ct_last_target_report c of Some r \<Rightarrow> (if nr_lsn r > h1 then nr_lsn r else h1) | None \<Rightarrow> h1);
               observed = (if window_started_at_ms campaign \<noteq> 0 \<and> highest > h0
                           then campaign\<lparr>operations_in_window := highest - h0\<rparr> else campaign) in
           evaluate_window observed (effective_window m) now)
      | _ \<Rightarrow>
          \<lparr>ws_open = False, ws_opened_at_ms = 0, ws_operations = 0, ws_operation_limit = 0, ws_duration_limit_ms = 0,
           ws_elapsed_ms = 0, ws_exhausted = False, ws_reason = ''no campaign is loaded''\<rparr>)"

text \<open>\<^verbatim>\<open>sealed.digest.is_zero() ? sealed.seal() : sealed.validate()\<close>, then the digest.\<close>

definition admit_manifest :: "(u64 \<Rightarrow> string) \<Rightarrow> EvolutionManifest \<Rightarrow> EvolutionManifest Result" where
  "admit_manifest dtoa manifest =
     rbind (if digest_is_zero (mf_digest manifest) then manifest_seal dtoa manifest
            else if manifest_validate dtoa manifest \<noteq> Ok then Inl (manifest_validate dtoa manifest) else Inr manifest) (\<lambda>sealed.
     if \<not> digest_is_zero (mf_digest sealed) \<and> manifest_verify_digest dtoa sealed \<noteq> Ok then Inl (manifest_verify_digest dtoa sealed)
     else Inr sealed)"

definition campaign_new :: "EvolutionManifest \<Rightarrow> AuthorityRegistry \<Rightarrow> TimestampMs \<Rightarrow> TimestampMs \<Rightarrow> CampaignRecord" where
  "campaign_new m r updated at =
     \<lparr>ca_id = mf_campaign m, ca_manifest = mf_id m, ca_manifest_digest = mf_digest m, ca_shard = mf_shard m, ca_state = Planned,
      ca_handoff = 0, ca_revision = 1, ca_epoch = epoch_or 0 (mf_shard m) r, ca_generation = generation_or 0 (mf_shard m) r,
      operations_in_window = 0, window_started_at_ms = 0, ca_updated_at_ms = updated, irreversible_boundary_crossed = False,
      crossed_boundaries = [], ca_detail = ''planned'',
      ca_events = [\<lparr>ev_from = Planned, ev_to = Planned, ev_action = Plan, ev_at_ms = at, ev_detail = ''manifest admitted''\<rparr>]\<rparr>"

definition establish_shard :: "'w ControllerEnv \<Rightarrow> ShardId \<Rightarrow> (unit, 'w) ctl" where
  "establish_shard env shard =
     act_bind (act_get (\<lambda>c. (has_shard (ct_authority c) shard, ct_next_epoch c, ct_options c))) (\<lambda>(known, epoch, options).
       if known then act_return ()
       else act_then (on_registry (establish shard epoch))
         (log_event env ShardEstablished shard epoch 1 (json_object [(''controller'', JString (co_controller_id options))])))"

definition plan_campaign :: "'w ControllerEnv \<Rightarrow> EvolutionManifest \<Rightarrow> (unit, 'w) ctl" where
  "plan_campaign env manifest =
     act_bind (act_get ct_campaign) (\<lambda>campaign.
     act_then (act_check (case campaign of None \<Rightarrow> Ok | Some k \<Rightarrow> if is_terminal_state (ca_state k) then Ok else Conflict))
     (act_bind (act_result (admit_manifest (env_dtoa env) manifest)) (\<lambda>sealed.
      act_bind (act_get (co_evidence_policy \<circ> ct_options)) (\<lambda>policy.
      act_then (act_check (if ec_satisfied (verify_evidence (mf_compatibility sealed) (env_decide env) policy) then Ok
                           else CompatibilityInsufficient))
     (act_then (establish_shard env (mf_shard sealed))
     (act_bind read_clock (\<lambda>updated. act_bind read_clock (\<lambda>at.
      act_then (act_modify (\<lambda>c. bind_endpoints sealed
        (c\<lparr>ct_manifest := Some sealed, ct_campaign := Some (campaign_new sealed (ct_authority c) updated at)\<rparr>)))
      (controller_save env)))))))))"

section \<open>Campaign actions\<close>

definition handoff_none :: HandoffRecord where
  "handoff_none =
     \<lparr>ho_id = 0, ho_campaign = [], ho_shard = [], ho_manifest = [], ho_manifest_digest = digest_zero,
      ho_predecessor = incarnation_none, ho_previous_predecessor = incarnation_none, ho_successor = incarnation_none,
      ho_phase = NotStarted, ho_attempt = 1, ho_epoch = 0, ho_generation = 0, ho_snapshot = 0,
      ho_snapshot_digest = digest_zero, ho_snapshot_lsn = 0, ho_target_lsn = 0, ho_token = uuid_nil, ho_fence = 0,
      ho_started_at_ms = 0, ho_updated_at_ms = 0, ho_last_error = [], ho_history = []\<rparr>"

definition campaign_decision :: "CampaignAction \<Rightarrow> CampaignRecord \<Rightarrow> EvolutionManifest \<Rightarrow> HandoffRecord option \<Rightarrow> ActionDecision" where
  "campaign_decision action campaign m handoff =
     evaluate_campaign_action campaign action (case handoff of None \<Rightarrow> handoff_none | Some h \<Rightarrow> h)
       (irreversible_boundary_crossed campaign \<or> (case handoff of None \<Rightarrow> False | Some h \<Rightarrow> reached h AuthorityTransferred))
       (mf_id m)"

definition campaign_moved :: "CampaignAction \<Rightarrow> ActionDecision \<Rightarrow> TimestampMs \<Rightarrow> TimestampMs \<Rightarrow> CampaignRecord \<Rightarrow> CampaignRecord" where
  "campaign_moved action d updated at k =
     k\<lparr>ca_state := next_state d, ca_updated_at_ms := updated, ca_revision := ca_revision k + 1, ca_detail := dec_reason d,
       ca_events := trim_front kMaxCampaignEvents (ca_events k @
         [\<lparr>ev_from = ca_state k, ev_to = next_state d, ev_action = action, ev_at_ms = at, ev_detail = dec_reason d\<rparr>])\<rparr>"

definition defer_action :: "'w ControllerEnv \<Rightarrow> ActionDecision \<Rightarrow> (unit, 'w) ctl" where
  "defer_action env d =
     act_bind read_clock (\<lambda>now.
     act_then (act_modify (\<lambda>c. c\<lparr>ct_last_deferral_reason := dec_reason d, ct_last_pause_deferral_ms := now\<rparr>))
     (act_then (act_ignore (controller_save env)) (act_fail NotReady)))"

definition record_action :: "'w ControllerEnv \<Rightarrow> CampaignAction \<Rightarrow> CampaignRecord \<Rightarrow> ActionDecision \<Rightarrow> (unit, 'w) ctl" where
  "record_action env action k d =
     act_then (log_event env CampaignTransition (ca_shard k) (ca_epoch k) (ca_generation k)
        (json_object
           [(''from'', JString (campaign_state_name (ca_state k))), (''to'', JString (campaign_state_name (next_state d))),
            (''action'', JString (campaign_action_name action)), (''rule'', JString (dec_rule d))]))
     (controller_save env)"

definition apply_action :: "'w ControllerEnv \<Rightarrow> CampaignAction \<Rightarrow> (unit, 'w) ctl" where
  "apply_action env action =
     act_bind (act_get (\<lambda>c. (ct_campaign c, ct_manifest c, ct_handoff c))) (\<lambda>(campaign, manifest, handoff).
       case (campaign, manifest) of
         (Some k, Some m) \<Rightarrow>
           (let d = campaign_decision action k m handoff in
            if \<not> accepted d \<and> \<not> deferred d then act_fail IllegalTransition
            else if deferred d then defer_action env d
            else
              act_bind read_clock (\<lambda>updated. act_bind read_clock (\<lambda>at.
              act_then (act_modify (\<lambda>c. c\<lparr>ct_campaign := Some (campaign_moved action d updated at k)\<rparr>))
              (record_action env action k d))))
       | _ \<Rightarrow> act_fail NotFound)"

section \<open>Nodes\<close>

definition bind_nodes :: "'w ControllerEnv \<Rightarrow> (unit, 'w) ctl" where
  "bind_nodes env =
     act_bind (act_get (\<lambda>c. (ct_source_endpoint c, ct_target_endpoint c))) (\<lambda>(source, target).
       case (source, target) of
         (Some s, Some t) \<Rightarrow>
           act_bind (node_report env s) (\<lambda>source_report.
           act_bind (node_report env t) (\<lambda>target_report.
           act_modify (\<lambda>c. c\<lparr>ct_last_source_report := Some source_report, ct_last_target_report := Some target_report\<rparr>)))
       | _ \<Rightarrow> act_fail NotFound)"

definition mutating_request :: "EvolutionManifest \<Rightarrow> IncarnationId \<Rightarrow> TimestampMs \<Rightarrow> HandoffId \<Rightarrow> string \<Rightarrow> GrantRequest" where
  "mutating_request m holder ttl handoff reason =
     \<lparr>req_shard = mf_shard m, req_holder = holder, req_mode = Mutating, req_ttl_ms = ttl, req_campaign = mf_campaign m,
      req_handoff = handoff, req_reason = reason\<rparr>"

definition grant_body :: "AuthorityLease \<Rightarrow> TimestampMs \<Rightarrow> HandoffId \<Rightarrow> json" where
  "grant_body l ttl handoff =
     json_set (json_set (json_set (json_set (json_set (json_set (JObject [])
       ''epoch'' (JUInt (lease_epoch l)))
       ''generation'' (JUInt (lease_generation l)))
       ''token'' (JString (to_compact_string (lease_token l))))
       ''mode'' (JString ''mutating''))
       ''ttl_ms'' (JUInt ttl))
       ''handoff'' (JUInt handoff)"

definition handoff_id_or_one :: "'w EvolutionController \<Rightarrow> HandoffId" where
  "handoff_id_or_one c = (case ct_handoff c of None \<Rightarrow> 1 | Some h \<Rightarrow> ho_id h)"

definition lease_payload :: "AuthorityLease \<Rightarrow> json" where
  "lease_payload l =
     json_object [(''holder'', JString (incarnation_to_string (lease_holder l))), (''reason'', JString (lease_reason l))]"

text \<open>The last part of \<^verbatim>\<open>ensure_holder_authority\<close>: a grant, its delivery, and the revocation when it was not delivered.\<close>

definition grant_and_deliver :: "'w ControllerEnv \<Rightarrow> EvolutionManifest \<Rightarrow> EndpointRef \<Rightarrow> NodeReport \<Rightarrow> (unit, 'w) ctl" where
  "grant_and_deliver env m endpoint report =
     act_bind (act_get (\<lambda>c. (co_lease_ttl_ms (ct_options c), handoff_id_or_one c))) (\<lambda>(ttl, handoff).
     act_bind (registry_grant (mutating_request m (nr_incarnation report) ttl 0 ''authority granted by the evolution controller'')) (\<lambda>lease.
     act_bind (act_try (node_call env endpoint ''node.grant_authority'' (grant_body lease ttl handoff))) (\<lambda>granted.
       case granted of
         Inl e \<Rightarrow> act_then (act_ignore (on_registry (revoke (mf_shard m) (lease_id lease) ''grant delivery failed''))) (act_fail e)
       | Inr _ \<Rightarrow>
           act_then (act_ignore (log_event env LeaseGranted (mf_shard m) (lease_epoch lease) (lease_generation lease) (lease_payload lease)))
             (controller_save env))))"

definition renew_and_deliver :: "'w ControllerEnv \<Rightarrow> EvolutionManifest \<Rightarrow> EndpointRef \<Rightarrow> AuthorityLease \<Rightarrow> (unit, 'w) ctl" where
  "renew_and_deliver env m endpoint current =
     act_bind (act_get (\<lambda>c. (co_lease_ttl_ms (ct_options c), handoff_id_or_one c))) (\<lambda>(ttl, handoff).
     act_bind (registry_grant (mutating_request m (lease_holder current) ttl 0 ''lease renewed during the evolution campaign'')) (\<lambda>renewed.
     act_bind (node_call env endpoint ''node.grant_authority'' (grant_body renewed ttl handoff)) (\<lambda>_.
     controller_save env)))"

definition renew_threshold :: "TimestampMs \<Rightarrow> AuthorityLease \<Rightarrow> TimestampMs" where
  "renew_threshold ttl l =
     (if expires_at_ms l > ttl div 2 then expires_at_ms l - ttl div 2 else expires_at_ms l)"

definition outstanding_for :: "IncarnationId \<Rightarrow> FenceRecord \<Rightarrow> bool" where
  "outstanding_for i f = (\<not> acknowledged f \<and> fence_target f = i)"

definition ensure_holder_authority :: "'w ControllerEnv \<Rightarrow> EndpointRef \<Rightarrow> NodeReport \<Rightarrow> (unit, 'w) ctl" where
  "ensure_holder_authority env endpoint report =
     act_bind (act_get (\<lambda>c. (ct_manifest c, co_lease_ttl_ms (ct_options c)))) (\<lambda>(manifest, ttl).
     act_bind (act_result (require manifest NotFound)) (\<lambda>m.
     act_bind (registry_view (mf_shard m)) (\<lambda>view.
     if list_ex (outstanding_for (nr_incarnation report)) (view_fences view) then act_return ()
     else
       (case view_mutating view of
          None \<Rightarrow> grant_and_deliver env m endpoint report
        | Some current \<Rightarrow>
            if lease_holder current = nr_incarnation report \<and> nr_has_authority report \<and> nr_token report = lease_token current then
              act_bind read_clock (\<lambda>now.
                if attested current \<and> now < renew_threshold ttl current then act_return ()
                else if attested current then renew_and_deliver env m endpoint current
                else
                  act_bind (act_try (node_call env endpoint ''node.reattest''
                    (json_object [(''token'', JString (to_compact_string (lease_token current)))]))) (\<lambda>reattested.
                  case reattested of
                    Inr _ \<Rightarrow> act_then (registry_reattest (mf_shard m) (lease_holder current) (lease_token current)) (controller_save env)
                  | Inl _ \<Rightarrow> grant_and_deliver env m endpoint report))
            else grant_and_deliver env m endpoint report))))"

definition ensure_predecessor_authority :: "'w ControllerEnv \<Rightarrow> (unit, 'w) ctl" where
  "ensure_predecessor_authority env =
     act_bind (act_get (\<lambda>c. (ct_last_source_report c, ct_source_endpoint c))) (\<lambda>(report, endpoint).
       case (report, endpoint) of (Some r, Some e) \<Rightarrow> ensure_holder_authority env e r | _ \<Rightarrow> act_fail NotFound)"

definition ensure_successor_authority :: "'w ControllerEnv \<Rightarrow> (unit, 'w) ctl" where
  "ensure_successor_authority env =
     act_bind (act_get (\<lambda>c. (ct_last_target_report c, ct_target_endpoint c))) (\<lambda>(report, endpoint).
       case (report, endpoint) of (Some r, Some e) \<Rightarrow> ensure_holder_authority env e r | _ \<Rightarrow> act_fail NotFound)"

section \<open>Preflight\<close>

fun resolve_all :: "MigrationStepSpec list \<Rightarrow> Status" where
  "resolve_all [] = Ok"
| "resolve_all (s # ss) = (case resolve_migration_step s of Inl e \<Rightarrow> e | Inr _ \<Rightarrow> resolve_all ss)"

definition negotiation_request :: "EvolutionManifest \<Rightarrow> ProtocolHello \<Rightarrow> ProtocolHello \<Rightarrow> GroupNegotiationRequest" where
  "negotiation_request m source_hello target_hello =
     \<lparr>gr_participants = [source_hello, target_hello], gr_required_participants = [cs_id (mf_source m), cs_id (mf_target m)],
      gr_path = mf_protocol m, gr_allowed_schemas = [cs_schema (mf_source m), cs_schema (mf_target m)]\<rparr>"

definition negotiation_status :: "NegotiatedProtocol \<Rightarrow> Status" where
  "negotiation_status n =
     (if usable n then Ok else if np_missing_required n = fs_none then CompatibilityInsufficient else FeatureNotNegotiated)"

definition preflight_checks :: "'w ControllerEnv \<Rightarrow> EvolutionManifest \<Rightarrow> (unit, 'w) ctl" where
  "preflight_checks env m =
     act_then (bind_nodes env)
     (act_bind (act_get (\<lambda>c. (the (ct_source_endpoint c), the (ct_target_endpoint c)))) (\<lambda>(source, target).
      act_bind (peer_hello env source) (\<lambda>source_hello.
      act_bind (peer_hello env target) (\<lambda>target_hello.
      act_then (act_check (negotiation_status (negotiate_group (negotiation_request m source_hello target_hello))))
      (act_then (act_check (resolve_all (mf_migrations m)))
      (ensure_predecessor_authority env))))))"

definition preflight_campaign :: "'w ControllerEnv \<Rightarrow> (unit, 'w) ctl" where
  "preflight_campaign env =
     act_bind (act_get ct_manifest) (\<lambda>manifest.
     act_bind (act_result (require manifest NotFound)) (\<lambda>m.
     act_then (apply_action env Preflight)
     (act_bind (act_try (preflight_checks env m)) (\<lambda>checked.
        case checked of
          Inl e \<Rightarrow>
            act_bind read_text (\<lambda>text.
            act_then (act_modify (\<lambda>c. c\<lparr>ct_campaign := map_option (\<lambda>k. k\<lparr>ca_state := Failed, ca_detail := text\<rparr>) (ct_campaign c)\<rparr>))
            (act_then (act_ignore (controller_save env)) (act_fail e)))
        | Inr _ \<Rightarrow> controller_save env))))"

end
