(* ===== verification/Controller_Handoff.thy ===== *)
theory Controller_Handoff
  imports Controller_Ops
begin

text \<open>
  The handoff of the evolution controller (\<^verbatim>\<open>src/controller.cpp\<close>): recording a phase, restarting after a process
  was replaced, and one definition for each \<^verbatim>\<open>advance_*\<close> method. The methods dereference the manifest, the
  handoff and the endpoints after \<^verbatim>\<open>advance_locked\<close> has checked them; the model takes them with \<open>the\<close>.
\<close>

text \<open>The numbers of the phases, which the code compares; they differ from the ranks on the two final phases.\<close>

fun phase_value :: "HandoffPhase \<Rightarrow> nat" where
  "phase_value NotStarted = 0"
| "phase_value Prepared = 1"
| "phase_value SnapshotSynchronized = 2"
| "phase_value CaughtUp = 3"
| "phase_value ReadinessVerified = 4"
| "phase_value PredecessorFenced = 5"
| "phase_value AuthorityTransferred = 6"
| "phase_value SuccessorVerified = 7"
| "phase_value PredecessorRetired = 8"
| "phase_value PhaseFailed = 9"
| "phase_value PhaseAborted = 10"

definition update_handoff :: "(HandoffRecord \<Rightarrow> HandoffRecord) \<Rightarrow> (unit, 'w) ctl" where
  "update_handoff f = act_modify (\<lambda>c. c\<lparr>ct_handoff := map_option f (ct_handoff c)\<rparr>)"

definition update_campaign :: "(CampaignRecord \<Rightarrow> CampaignRecord) \<Rightarrow> (unit, 'w) ctl" where
  "update_campaign f = act_modify (\<lambda>c. c\<lparr>ct_campaign := map_option f (ct_campaign c)\<rparr>)"

definition current_manifest :: "(EvolutionManifest, 'w) ctl" where
  "current_manifest = act_get (the \<circ> ct_manifest)"

definition current_handoff :: "(HandoffRecord, 'w) ctl" where
  "current_handoff = act_get (the \<circ> ct_handoff)"

definition source_endpoint :: "(EndpointRef, 'w) ctl" where
  "source_endpoint = act_get (the \<circ> ct_source_endpoint)"

definition target_endpoint :: "(EndpointRef, 'w) ctl" where
  "target_endpoint = act_get (the \<circ> ct_target_endpoint)"

section \<open>Phases\<close>

definition phase_moved ::
  "HandoffPhase \<Rightarrow> string \<Rightarrow> TimestampMs \<Rightarrow> TimestampMs \<Rightarrow> AuthorityRegistry \<Rightarrow> HandoffRecord \<Rightarrow> HandoffRecord" where
  "phase_moved to note at updated r h =
     h\<lparr>ho_history := trim_front kMaxHandoffHistoryEntries (ho_history h @
          [\<lparr>pt_from = ho_phase h, pt_to = to, pt_at_ms = at, pt_attempt = ho_attempt h, pt_note = note\<rparr>]),
       ho_phase := to, ho_updated_at_ms := updated, ho_epoch := epoch_or (ho_epoch h) (ho_shard h) r,
       ho_generation := generation_or (ho_generation h) (ho_shard h) r\<rparr>"

definition record_phase :: "'w ControllerEnv \<Rightarrow> HandoffPhase \<Rightarrow> string \<Rightarrow> (unit, 'w) ctl" where
  "record_phase env to note =
     act_bind (act_get (\<lambda>c. (ct_handoff c, ct_campaign c, ct_manifest c))) (\<lambda>(handoff, campaign, manifest).
       case (handoff, campaign, manifest) of
         (Some h, Some _, Some _) \<Rightarrow>
           act_then (act_check (validate_handoff_transition (ho_phase h) to))
           (if ho_phase h = to then act_return ()
            else
              act_bind read_clock (\<lambda>at. act_bind read_clock (\<lambda>updated.
              act_bind (act_get (\<lambda>c. phase_moved to note at updated (ct_authority c) h)) (\<lambda>moved.
              act_then (act_modify (\<lambda>c. c\<lparr>ct_handoff := Some moved,
                 ct_campaign := map_option (\<lambda>k. k\<lparr>ca_epoch := ho_epoch moved, ca_generation := ho_generation moved\<rparr>) (ct_campaign c)\<rparr>))
              (act_then (log_event env HandoffPhaseEvent (ho_shard h) (ho_epoch moved) (ho_generation moved)
                 (json_object [(''handoff'', JUInt (ho_id h)), (''from'', JString (phase_name (ho_phase h))),
                    (''to'', JString (phase_name to)), (''note'', JString note)]))
              (controller_save env))))))
       | _ \<Rightarrow> act_fail NotFound)"

definition handoff_rewound ::
  "IncarnationId \<Rightarrow> IncarnationId \<Rightarrow> HandoffPhase \<Rightarrow> string \<Rightarrow> AttemptNumber \<Rightarrow> TimestampMs \<Rightarrow> TimestampMs \<Rightarrow> HandoffRecord \<Rightarrow> HandoffRecord" where
  "handoff_rewound predecessor successor to note attempt at updated h =
     (let h1 = h\<lparr>ho_history := trim_front kMaxHandoffHistoryEntries (ho_history h @
                   [\<lparr>pt_from = ho_phase h, pt_to = to, pt_at_ms = at, pt_attempt = attempt, pt_note = note\<rparr>]),
                 ho_previous_predecessor := (if ho_predecessor h \<noteq> predecessor then ho_predecessor h else ho_previous_predecessor h),
                 ho_predecessor := predecessor, ho_successor := successor, ho_attempt := attempt, ho_phase := to,
                 ho_updated_at_ms := updated\<rparr> in
      if to = NotStarted
      then h1\<lparr>ho_snapshot := 0, ho_snapshot_digest := digest_zero, ho_snapshot_lsn := 0, ho_target_lsn := 0\<rparr> else h1)"

definition restart_handoff :: "'w ControllerEnv \<Rightarrow> IncarnationId \<Rightarrow> IncarnationId \<Rightarrow> HandoffPhase \<Rightarrow> string \<Rightarrow> (unit, 'w) ctl" where
  "restart_handoff env predecessor successor to note =
     act_bind (act_get ct_handoff) (\<lambda>handoff.
     act_bind (act_result (require handoff NotFound)) (\<lambda>h.
     act_then (act_check (if to \<noteq> NotStarted \<and> to \<noteq> Prepared then InvalidArgument
                          else if ho_attempt h \<ge> kMaxHandoffRestarts then ResourceExhausted else Ok))
     (act_bind (act_result (require (tagged_next (ho_attempt h)) BoundsExceeded)) (\<lambda>attempt.
      act_bind read_clock (\<lambda>at. act_bind read_clock (\<lambda>updated.
      act_then (act_modify (\<lambda>c. c\<lparr>ct_handoff := Some (handoff_rewound predecessor successor to note attempt at updated h),
         ct_predecessor_history := (if ho_predecessor h \<noteq> predecessor then ct_predecessor_history c @ [ho_predecessor h]
                                    else ct_predecessor_history c)\<rparr>))
      (act_then (log_event env Reconciliation (ho_shard h) (ho_epoch h) (ho_generation h)
         (json_object [(''handoff'', JUInt (ho_id h)), (''reason'', JString ''participant incarnation replaced''), (''note'', JString note),
            (''rewind_to'', JString (phase_name to)), (''predecessor'', JString (incarnation_to_string predecessor)),
            (''successor'', JString (incarnation_to_string successor))]))
      (controller_save env))))))))"

definition incarnation_provably_replaced :: "IncarnationId \<Rightarrow> IncarnationId \<Rightarrow> bool" where
  "incarnation_provably_replaced recorded reported =
     (incarnation_is_valid recorded \<and> incarnation_is_valid reported \<and> component recorded = component reported \<and>
      recorded \<noteq> reported \<and> boot reported > boot recorded)"

definition current_source_claim :: "(AuthorityClaim option, 'w) ctl" where
  "current_source_claim =
     act_bind (act_get (\<lambda>c. (ct_manifest c, ct_fenced_predecessor_claim c))) (\<lambda>(manifest, fenced).
       case manifest of
         None \<Rightarrow> act_return None
       | Some m \<Rightarrow>
           (if (case fenced of None \<Rightarrow> False | Some claim \<Rightarrow> claim_shard claim = mf_shard m) then act_return fenced
            else
              act_bind (act_try (registry_view (mf_shard m))) (\<lambda>view.
              act_return (case view of Inl _ \<Rightarrow> None | Inr v \<Rightarrow> map_option claim_of (view_mutating v)))))"

text \<open>The report of the component that holds the slot.\<close>

definition holder_report :: "AuthorityLease \<Rightarrow> 'w EvolutionController \<Rightarrow> NodeReport option" where
  "holder_report holder c =
     (case ct_last_source_report c of
        Some r \<Rightarrow>
          (if nr_component r = component (lease_holder holder) then Some r
           else (case ct_last_target_report c of
                   Some t \<Rightarrow> if nr_component t = component (lease_holder holder) then Some t else None | None \<Rightarrow> None))
      | None \<Rightarrow>
          (case ct_last_target_report c of
             Some t \<Rightarrow> if nr_component t = component (lease_holder holder) then Some t else None | None \<Rightarrow> None))"

fun acknowledge_all :: "ShardId \<Rightarrow> IncarnationId \<Rightarrow> FenceRecord list \<Rightarrow> (unit, 'w) ctl" where
  "acknowledge_all shard i [] = act_return ()"
| "acknowledge_all shard i (f # fs) =
     act_then (if outstanding_for i f then registry_acknowledge shard i (fence_id f) else act_return ()) (acknowledge_all shard i fs)"

definition revoke_replaced :: "'w ControllerEnv \<Rightarrow> ShardId \<Rightarrow> AuthorityView \<Rightarrow> (unit, 'w) ctl" where
  "revoke_replaced env shard view =
     (case view_slot_holder view of
        None \<Rightarrow> act_return ()
      | Some holder \<Rightarrow>
          act_bind (act_get (holder_report holder)) (\<lambda>report.
            if (case report of None \<Rightarrow> False | Some r \<Rightarrow> incarnation_provably_replaced (lease_holder holder) (nr_incarnation r)) then
              act_then (acknowledge_all shard (lease_holder holder) (view_fences view))
              (act_then (on_registry (revoke shard (lease_id holder) ''holder incarnation was provably replaced by a fresh boot''))
              (log_event env LeaseRevoked shard (lease_epoch holder) (lease_generation holder)
                 (json_object [(''holder'', JString (incarnation_to_string (lease_holder holder))),
                    (''reason'', JString ''incarnation provably replaced'')])))
            else act_return ()))"

definition replaced_in :: "IncarnationId \<Rightarrow> NodeReport option \<Rightarrow> bool" where
  "replaced_in i report =
     (case report of None \<Rightarrow> False
      | Some r \<Rightarrow> component i = nr_component r \<and> incarnation_provably_replaced i (nr_incarnation r))"

definition rebind_handoff :: "'w ControllerEnv \<Rightarrow> (unit, 'w) ctl" where
  "rebind_handoff env =
     act_bind (act_get (\<lambda>c. (the (ct_handoff c), ct_last_source_report c, ct_last_target_report c))) (\<lambda>(h, source, target).
       if replaced_in (ho_predecessor h) source \<and> phase_value (ho_phase h) < phase_value PredecessorFenced then
         restart_handoff env (nr_incarnation (the source)) (ho_successor h) NotStarted
           ''predecessor incarnation was replaced before authority moved''
       else if replaced_in (ho_successor h) target then
         (if phase_value (ho_phase h) < phase_value AuthorityTransferred then
            restart_handoff env (ho_predecessor h) (nr_incarnation (the target))
              (if phase_value (ho_phase h) \<ge> phase_value PredecessorFenced then Prepared else NotStarted)
              ''successor incarnation was replaced during the handoff''
          else
            act_then (update_handoff (\<lambda>h. h\<lparr>ho_successor := nr_incarnation (the target)\<rparr>)) (controller_save env))
       else act_return ())"

definition reconcile_incarnations :: "'w ControllerEnv \<Rightarrow> (unit, 'w) ctl" where
  "reconcile_incarnations env =
     act_bind (act_get (\<lambda>c. (ct_manifest c, ct_handoff c))) (\<lambda>(manifest, handoff).
       case (manifest, handoff) of
         (Some m, Some _) \<Rightarrow>
           act_bind (act_try (registry_view (mf_shard m))) (\<lambda>view.
             case view of
               Inl _ \<Rightarrow> act_return ()
             | Inr v \<Rightarrow> act_then (revoke_replaced env (mf_shard m) v) (rebind_handoff env))
       | _ \<Rightarrow> act_return ())"

section \<open>Preparation and snapshot\<close>

definition source_binding_json :: "AuthorityClaim \<Rightarrow> SchemaVersion \<Rightarrow> HandoffId \<Rightarrow> json" where
  "source_binding_json claim schema handoff =
     json_set (json_set (json_set (json_set (json_set (json_set (JObject [])
       ''incarnation'' (incarnation_to_json (claim_incarnation claim)))
       ''epoch'' (JUInt (claim_epoch claim)))
       ''generation'' (JUInt (claim_generation claim)))
       ''token'' (JString (to_compact_string (claim_token claim))))
       ''schema'' (JUInt (ucast schema)))
       ''handoff'' (JUInt handoff)"

definition prepare_body :: "string \<Rightarrow> EvolutionManifest \<Rightarrow> HandoffId \<Rightarrow> json" where
  "prepare_body role m handoff =
     json_set (json_set (json_set (JObject []) ''handoff'' (JUInt handoff)) ''manifest_digest'' (JString (to_hex (mf_digest m))))
       ''role'' (JString role)"

definition successor_body :: "EvolutionManifest \<Rightarrow> HandoffId \<Rightarrow> AuthorityClaim \<Rightarrow> json" where
  "successor_body m handoff claim =
     json_set (json_set (json_set (json_set (prepare_body ''successor'' m handoff)
       ''target_software'' (JString (software_version_to_string (cs_software (mf_target m)))))
       ''target_protocol'' (JString (protocol_version_to_string (cs_protocol (mf_target m)))))
       ''target_schema'' (JUInt (ucast (cs_schema (mf_target m)))))
       ''source'' (source_binding_json claim (cs_schema (mf_source m)) handoff)"

text \<open>Both ends report, and the reports are kept.\<close>

definition refresh_reports :: "'w ControllerEnv \<Rightarrow> (NodeReport \<times> NodeReport, 'w) ctl" where
  "refresh_reports env =
     act_bind source_endpoint (\<lambda>s. act_bind target_endpoint (\<lambda>t.
     act_bind (node_report env s) (\<lambda>source_report.
     act_bind (node_report env t) (\<lambda>target_report.
     act_then (act_modify (\<lambda>c. c\<lparr>ct_last_source_report := Some source_report, ct_last_target_report := Some target_report\<rparr>))
     (act_return (source_report, target_report))))))"

definition required_claim :: "(AuthorityClaim, 'w) ctl" where
  "required_claim = act_bind current_source_claim (\<lambda>claim. act_result (require claim NotAuthoritative))"

definition advance_prepared :: "'w ControllerEnv \<Rightarrow> (unit, 'w) ctl" where
  "advance_prepared env =
     act_bind source_endpoint (\<lambda>s. act_bind target_endpoint (\<lambda>t.
     act_bind (refresh_reports env) (\<lambda>_.
     act_then (ensure_predecessor_authority env)
     (act_bind required_claim (\<lambda>claim.
      act_bind current_manifest (\<lambda>m. act_bind current_handoff (\<lambda>h.
      act_bind (node_call env s ''node.prepare'' (prepare_body ''predecessor'' m (ho_id h))) (\<lambda>_.
      act_bind (node_call env t ''node.prepare'' (successor_body m (ho_id h) claim)) (\<lambda>_.
      act_then (update_handoff (\<lambda>h. h\<lparr>ho_epoch := claim_epoch claim, ho_generation := claim_generation claim\<rparr>))
      (record_phase env Prepared ''predecessor and successor prepared''))))))))))"

text \<open>The header of a snapshot: its id, its position and its digest.\<close>

definition snapshot_header :: "json \<Rightarrow> (SnapshotId \<times> LogSequenceNumber \<times> Digest) Result" where
  "snapshot_header snapshot =
     rbind (require (json_u64 snapshot ''id'') Malformed) (\<lambda>snapshot_id.
     rbind (require (json_u64 snapshot ''lsn'') Malformed) (\<lambda>lsn.
     rbind (require (json_string snapshot ''digest'') Malformed) (\<lambda>text.
     rbind (require (digest_from_hex text) Malformed) (\<lambda>digest. Inr (snapshot_id, lsn, digest)))))"

definition advance_snapshot :: "'w ControllerEnv \<Rightarrow> (unit, 'w) ctl" where
  "advance_snapshot env =
     act_bind source_endpoint (\<lambda>s. act_bind target_endpoint (\<lambda>t.
     act_bind required_claim (\<lambda>claim.
     act_bind current_manifest (\<lambda>m. act_bind current_handoff (\<lambda>h.
     act_bind (node_call env t ''node.prepare'' (successor_body m (ho_id h) claim)) (\<lambda>_.
     act_bind (node_call env s ''node.snapshot'' (json_object [(''handoff'', JUInt (ho_id h))])) (\<lambda>answer.
     act_bind (act_result (require (json_find answer ''snapshot'') Malformed)) (\<lambda>snapshot.
     act_bind (act_result (snapshot_header snapshot)) (\<lambda>(snapshot_id, lsn, digest).
     act_bind (node_call env t ''node.install_snapshot''
       (json_set (json_set (JObject []) ''handoff'' (JUInt (ho_id h))) ''snapshot'' snapshot)) (\<lambda>_.
     act_then (update_handoff (\<lambda>h. h\<lparr>ho_snapshot := snapshot_id, ho_snapshot_digest := digest, ho_snapshot_lsn := lsn, ho_target_lsn := lsn\<rparr>))
     (record_phase env SnapshotSynchronized ''snapshot transferred and verified by the successor'')))))))))))"

section \<open>Catching up\<close>

definition apply_body :: "EvolutionManifest \<Rightarrow> HandoffId \<Rightarrow> AuthorityClaim \<Rightarrow> json \<Rightarrow> json" where
  "apply_body m handoff claim entries =
     json_set (json_set (json_set (JObject []) ''handoff'' (JUInt handoff))
       ''source'' (source_binding_json claim (cs_schema (mf_source m)) handoff))
       ''records'' entries"

definition read_since_body :: "LogSequenceNumber \<Rightarrow> 'w EvolutionController \<Rightarrow> json" where
  "read_since_body lsn c =
     json_set (json_set (JObject []) ''from_lsn'' (JUInt lsn)) ''max_records'' (JUInt (of_nat (co_max_records_per_round (ct_options c))))"

text \<open>The records of one round handed to the successor.\<close>

definition apply_round :: "'w ControllerEnv \<Rightarrow> json \<Rightarrow> (json, 'w) ctl" where
  "apply_round env entries =
     act_bind required_claim (\<lambda>claim.
     act_bind target_endpoint (\<lambda>t. act_bind current_manifest (\<lambda>m. act_bind current_handoff (\<lambda>h.
     node_call env t ''node.apply_records'' (apply_body m (ho_id h) claim entries)))))"

text \<open>The loop: the rounds left, the snapshots refreshed so far, the position reached. \<^verbatim>\<open>break\<close> is \<open>act_return ()\<close>.\<close>

fun catch_up_loop :: "'w ControllerEnv \<Rightarrow> nat \<Rightarrow> nat \<Rightarrow> LogSequenceNumber \<Rightarrow> (unit, 'w) ctl" where
  "catch_up_loop env 0 refreshes lsn = act_return ()"
| "catch_up_loop env (Suc rounds) refreshes lsn =
     act_bind source_endpoint (\<lambda>s.
     act_bind (act_get (read_since_body lsn)) (\<lambda>body.
     act_bind (node_call env s ''node.read_since'' body) (\<lambda>answer.
       if json_bool_or answer ''truncated'' False then
         (if refreshes \<ge> 2 then act_fail MigrationFailure
          else
            act_then (advance_snapshot env)
            (act_bind current_handoff (\<lambda>h. catch_up_loop env rounds (Suc refreshes) (ho_target_lsn h))))
       else
         act_bind (act_result (require (json_find answer ''records'') Malformed)) (\<lambda>entries.
         act_bind (act_result (guard (is_array entries) Malformed)) (\<lambda>_.
           if json_size entries = 0 \<or> json_u64_or answer ''lsn'' 0 \<le> lsn then act_return ()
           else
             act_bind (apply_round env entries) (\<lambda>applied.
             let applied_lsn = json_u64_or applied ''lsn'' lsn in
             if applied_lsn \<le> lsn then act_return ()
             else
               act_then (update_handoff (\<lambda>h. h\<lparr>ho_target_lsn := applied_lsn\<rparr>))
                 (catch_up_loop env rounds refreshes applied_lsn)))))))"

definition add_boundaries :: "MigrationStepSpec list \<Rightarrow> MigrationStepId list \<Rightarrow> MigrationStepId list" where
  "add_boundaries ss ids =
     foldl (\<lambda>ids s. if ms_irreversible_boundary s \<and> ms_id s \<notin> set ids then ids @ [ms_id s] else ids) ids ss"

definition migrate_successor :: "'w ControllerEnv \<Rightarrow> (unit, 'w) ctl" where
  "migrate_successor env =
     act_bind target_endpoint (\<lambda>t. act_bind current_manifest (\<lambda>m. act_bind current_handoff (\<lambda>h.
     act_bind (node_call env t ''node.migrate''
       (json_set (json_set (JObject []) ''handoff'' (JUInt (ho_id h))) ''steps'' (JArray (map migration_step_to_json (mf_migrations m))))) (\<lambda>migrated.
       if json_bool_or migrated ''crossed_irreversible_boundary'' False then
         act_then (update_campaign (\<lambda>k. k\<lparr>irreversible_boundary_crossed := True,
            crossed_boundaries := add_boundaries (mf_migrations m) (crossed_boundaries k)\<rparr>))
         (log_event env MigrationApplied (mf_shard m) (ho_epoch h) (ho_generation h)
           (json_object [(''state_digest_after'', JString (json_string_or migrated ''state_digest_after'' [])), (''irreversible'', JBool True)]))
       else act_return ()))))"

definition advance_catch_up :: "'w ControllerEnv \<Rightarrow> (unit, 'w) ctl" where
  "advance_catch_up env =
     act_bind (act_get (\<lambda>c. (co_max_catch_up_rounds (ct_options c), ho_target_lsn (the (ct_handoff c))))) (\<lambda>(rounds, lsn).
     act_then (catch_up_loop env rounds 0 lsn)
     (act_bind (refresh_reports env) (\<lambda>(source_report, target_report).
      act_then (act_check (if nr_lsn target_report < nr_lsn source_report then NotReady else Ok))
      (act_then (update_handoff (\<lambda>h. h\<lparr>ho_target_lsn := nr_lsn source_report\<rparr>))
      (act_bind current_manifest (\<lambda>m.
       act_then (if nr_schema target_report \<noteq> cs_schema (mf_target m) then migrate_successor env else act_return ())
       (record_phase env CaughtUp ''successor caught up and migrated to the target schema'')))))))"

definition advance_readiness :: "'w ControllerEnv \<Rightarrow> (unit, 'w) ctl" where
  "advance_readiness env =
     act_bind target_endpoint (\<lambda>t. act_bind current_manifest (\<lambda>m. act_bind current_handoff (\<lambda>h.
     act_bind (node_call env t ''node.readiness''
       (json_set (json_set (json_set (JObject []) ''handoff'' (JUInt (ho_id h))) ''target_lsn'' (JUInt (ho_target_lsn h)))
         ''target_schema'' (JUInt (ucast (cs_schema (mf_target m)))))) (\<lambda>ready.
     act_then (act_check (if json_bool_or ready ''ready'' False then Ok else NotReady))
     (act_then (update_handoff (\<lambda>h. h\<lparr>ho_target_lsn := json_u64_or ready ''lsn'' (ho_target_lsn h)\<rparr>))
     (record_phase env ReadinessVerified ''successor reported ready''))))))"

end
