(* ===== verification/Controller_Run.thy ===== *)
theory Controller_Run
  imports Controller_Handoff
begin

text \<open>
  The second half of a handoff of the evolution controller (\<^verbatim>\<open>src/controller.cpp\<close>): fencing the predecessor,
  transferring the authority, verifying the successor, retiring the predecessor; and the operations of a
  campaign: \<^verbatim>\<open>advance\<close>, \<^verbatim>\<open>run_to_completion\<close>, \<^verbatim>\<open>start\<close>, \<^verbatim>\<open>pause\<close>, \<^verbatim>\<open>resume\<close>, \<^verbatim>\<open>abort\<close> and \<^verbatim>\<open>reconcile\<close>. The status
  document every operation answers is built once, by the entry point.
\<close>

section \<open>The fence\<close>

definition shard_of :: "(ShardId, 'w) ctl" where
  "shard_of = act_get (\<lambda>c. mf_shard (the (ct_manifest c)))"

definition node_is_down :: "NodeReport option \<Rightarrow> bool" where
  "node_is_down report =
     (case report of None \<Rightarrow> False | Some r \<Rightarrow> nr_lifecycle r = NodeFenced \<or> nr_lifecycle r = NodeRetired)"

fun acknowledge_reported :: "'w ControllerEnv \<Rightarrow> ShardId \<Rightarrow> IncarnationId \<Rightarrow> FenceRecord list \<Rightarrow> (unit, 'w) ctl" where
  "acknowledge_reported env shard predecessor [] = act_return ()"
| "acknowledge_reported env shard predecessor (f # fs) =
     act_then
       (if outstanding_for predecessor f then
          act_then (registry_acknowledge shard predecessor (fence_id f))
            (log_event env FenceAcknowledged shard (fence_epoch f) (fence_generation f)
              (json_object [(''fence_id'', JUInt (fence_id f)), (''holder'', JString (incarnation_to_string predecessor)),
                 (''source'', JString ''component report'')]))
        else act_return ())
       (acknowledge_reported env shard predecessor fs)"

definition last_outstanding :: "IncarnationId \<Rightarrow> FenceRecord list \<Rightarrow> FenceRecord option" where
  "last_outstanding predecessor fs = find (outstanding_for predecessor) (rev fs)"

text \<open>The fence to deliver: the last one outstanding, or a new one.\<close>

definition fence_to_deliver :: "'w ControllerEnv \<Rightarrow> ShardId \<Rightarrow> IncarnationId \<Rightarrow> AuthorityView \<Rightarrow> (FenceRecord, 'w) ctl" where
  "fence_to_deliver env shard predecessor view =
     (case last_outstanding predecessor (view_fences view) of
        Some f \<Rightarrow> act_return f
      | None \<Rightarrow>
          act_bind (act_try (registry_request_fence shard predecessor ''handoff phase predecessor fence'')) (\<lambda>requested.
          act_then (act_check (case requested of Inr _ \<Rightarrow> Ok | Inl e \<Rightarrow> if e = DuplicateFrame then Ok else e))
          (act_then (controller_save env)
          (act_bind (registry_view shard) (\<lambda>again.
           act_result (require (last_outstanding predecessor (view_fences again)) Internal))))))"

definition fence_body :: "HandoffRecord \<Rightarrow> FenceRecord \<Rightarrow> json" where
  "fence_body h f =
     json_set (json_set (json_set (JObject []) ''handoff'' (JUInt (ho_id h))) ''fence_id'' (JUInt (fence_id f)))
       ''target'' (incarnation_to_json (ho_predecessor h))"

text \<open>The message of a failed call is not modelled: the reason ends in some text.\<close>

definition defer_fence :: "'w ControllerEnv \<Rightarrow> (unit, 'w) ctl" where
  "defer_fence env =
     act_bind read_text (\<lambda>text.
     act_then (act_modify (\<lambda>c. c\<lparr>ct_last_deferral_reason := ''predecessor has not acknowledged the fence: '' @ text\<rparr>))
     (act_then (act_ignore (controller_save env)) (act_fail NotReady)))"

definition deliver_fence :: "'w ControllerEnv \<Rightarrow> ShardId \<Rightarrow> HandoffRecord \<Rightarrow> FenceRecord \<Rightarrow> (unit, 'w) ctl" where
  "deliver_fence env shard h f =
     act_bind source_endpoint (\<lambda>s.
     act_bind (act_try (node_call env s ''node.fence'' (fence_body h f))) (\<lambda>answered.
       case answered of
         Inl _ \<Rightarrow> defer_fence env
       | Inr _ \<Rightarrow>
           act_then (registry_acknowledge shard (ho_predecessor h) (fence_id f))
           (act_then (update_handoff (\<lambda>h. h\<lparr>ho_fence := fence_id f, ho_epoch := fence_epoch f, ho_generation := fence_generation f\<rparr>))
           (act_then (log_event env FenceAcknowledged shard (fence_epoch f) (fence_generation f)
              (json_object [(''fence_id'', JUInt (fence_id f)), (''holder'', JString (incarnation_to_string (ho_predecessor h)))]))
           (record_phase env PredecessorFenced ''predecessor acknowledged the fence'')))))"

definition advance_fence :: "'w ControllerEnv \<Rightarrow> (unit, 'w) ctl" where
  "advance_fence env =
     act_bind shard_of (\<lambda>shard. act_bind current_handoff (\<lambda>h.
     act_bind (registry_view shard) (\<lambda>view.
     act_bind (act_get (node_is_down \<circ> ct_last_source_report)) (\<lambda>down.
       if view_mutating view = None \<and> down then
         act_then (acknowledge_reported env shard (ho_predecessor h) (view_fences view))
           (record_phase env PredecessorFenced ''predecessor reports it is already fenced'')
       else
         act_bind (fence_to_deliver env shard (ho_predecessor h) view) (deliver_fence env shard h)))))"

section \<open>The transfer\<close>

fun final_catch_up :: "'w ControllerEnv \<Rightarrow> nat \<Rightarrow> LogSequenceNumber \<Rightarrow> (unit, 'w) ctl" where
  "final_catch_up env 0 source_lsn = act_return ()"
| "final_catch_up env (Suc rounds) source_lsn =
     act_bind source_endpoint (\<lambda>s. act_bind target_endpoint (\<lambda>t.
     act_bind (node_report env t) (\<lambda>target_report.
       if nr_lsn target_report \<ge> source_lsn then act_return ()
       else
         act_bind (act_get (read_since_body (nr_lsn target_report))) (\<lambda>body.
         act_bind (node_call env s ''node.read_since'' body) (\<lambda>answer.
           case json_find answer ''records'' of
             None \<Rightarrow> act_return ()
           | Some entries \<Rightarrow>
               if \<not> is_array entries \<or> json_size entries = 0 then act_return ()
               else act_bind (apply_round env entries) (\<lambda>_. final_catch_up env rounds source_lsn))))))"

definition transfer_body :: "HandoffId \<Rightarrow> AuthorityLease \<Rightarrow> TimestampMs \<Rightarrow> json" where
  "transfer_body handoff l ttl =
     json_set (json_set (json_set (json_set (json_set (json_set (JObject [])
       ''handoff'' (JUInt handoff))
       ''epoch'' (JUInt (lease_epoch l)))
       ''generation'' (JUInt (lease_generation l)))
       ''token'' (JString (to_compact_string (lease_token l))))
       ''mode'' (JString ''mutating''))
       ''ttl_ms'' (JUInt ttl)"

definition deliver_transfer :: "'w ControllerEnv \<Rightarrow> EvolutionManifest \<Rightarrow> HandoffRecord \<Rightarrow> TimestampMs \<Rightarrow> AuthorityLease \<Rightarrow> (unit, 'w) ctl" where
  "deliver_transfer env m h ttl lease =
     act_bind target_endpoint (\<lambda>t.
     act_bind (act_try (node_call env t ''node.grant_authority'' (transfer_body (ho_id h) lease ttl))) (\<lambda>granted.
       case granted of
         Inl e \<Rightarrow>
           act_then (act_ignore (on_registry (revoke (mf_shard m) (lease_id lease) ''grant delivery failed'')))
           (act_then (act_ignore (controller_save env)) (act_fail e))
       | Inr _ \<Rightarrow>
           act_then (update_handoff (\<lambda>h. h\<lparr>ho_token := lease_token lease, ho_epoch := lease_epoch lease, ho_generation := lease_generation lease\<rparr>))
           (act_then (log_event env LeaseGranted (mf_shard m) (lease_epoch lease) (lease_generation lease) (lease_payload lease))
           (record_phase env AuthorityTransferred ''mutating authority granted to the successor''))))"

definition advance_transfer :: "'w ControllerEnv \<Rightarrow> (unit, 'w) ctl" where
  "advance_transfer env =
     act_bind source_endpoint (\<lambda>s. act_bind current_manifest (\<lambda>m. act_bind current_handoff (\<lambda>h.
     act_bind (act_get (\<lambda>c. (co_max_catch_up_rounds (ct_options c), co_lease_ttl_ms (ct_options c)))) (\<lambda>(rounds, ttl).
     act_bind (node_report env s) (\<lambda>source_report.
     act_then (final_catch_up env rounds (nr_lsn source_report))
     (act_then (update_handoff (\<lambda>h. h\<lparr>ho_target_lsn := nr_lsn source_report\<rparr>))
     (act_then (act_modify (\<lambda>c. c\<lparr>ct_last_source_report := Some source_report\<rparr>))
     (act_bind (registry_grant (mutating_request m (ho_successor h) ttl (ho_id h) ''authority transferred to the successor''))
        (deliver_transfer env m h ttl)))))))))"

section \<open>The verification\<close>

definition attests :: "NodeReport \<Rightarrow> AuthorityLease \<Rightarrow> bool" where
  "attests r l =
     (nr_has_authority r \<and> nr_token r = lease_token l \<and> nr_generation r = lease_generation l \<and> nr_epoch r = lease_epoch l)"

definition probe_body :: "AuthorityClaim \<Rightarrow> string \<Rightarrow> json" where
  "probe_body claim val =
     json_set (json_set (json_set (JObject []) ''claim'' (claim_to_json claim)) ''key'' (JString ''__evolution_probe__''))
       ''value'' (JString val)"

text \<open>The predecessor is asked to write under the claim it held before the fence, and has to refuse.\<close>

definition probe_predecessor :: "'w ControllerEnv \<Rightarrow> (unit, 'w) ctl" where
  "probe_predecessor env =
     act_bind (act_get ct_fenced_predecessor_claim) (\<lambda>fenced.
       case fenced of
         None \<Rightarrow> act_return ()
       | Some claim \<Rightarrow>
           act_bind source_endpoint (\<lambda>s.
           act_bind (act_try (node_call env s ''node.write'' (probe_body claim ''stale-write-attempt''))) (\<lambda>stale_write.
           act_check (case stale_write of Inr _ \<Rightarrow> AuthorityConflict | Inl _ \<Rightarrow> Ok))))"

definition recorded_authority :: "ShardId \<Rightarrow> (AuthorityLease, 'w) ctl" where
  "recorded_authority shard =
     act_bind (act_try (registry_view shard)) (\<lambda>view.
     act_result (require (case view of Inl _ \<Rightarrow> None | Inr v \<Rightarrow> view_mutating v) NotAuthoritative))"

definition advance_verify :: "'w ControllerEnv \<Rightarrow> (unit, 'w) ctl" where
  "advance_verify env =
     act_bind shard_of (\<lambda>shard. act_bind target_endpoint (\<lambda>t.
     act_bind (recorded_authority shard) (\<lambda>lease.
     act_bind (node_report env t) (\<lambda>target_report.
     act_then (act_check (if attests target_report lease then Ok else NotReady))
     (act_then (probe_predecessor env)
     (act_bind (node_call env t ''node.write'' (probe_body (claim_of lease) (nat_to_string (unat (lease_generation lease))))) (\<lambda>_.
      record_phase env SuccessorVerified ''successor attested authority and the predecessor was proven fenced'')))))))"

definition advance_retire :: "'w ControllerEnv \<Rightarrow> (unit, 'w) ctl" where
  "advance_retire env =
     act_bind source_endpoint (\<lambda>s. act_bind current_handoff (\<lambda>h.
     act_bind (node_call env s ''node.retire'' (json_object [(''handoff'', JUInt (ho_id h))])) (\<lambda>_.
     act_then (record_phase env PredecessorRetired ''predecessor retired; successor is authoritative'')
       (apply_action env Complete))))"

section \<open>Beginning\<close>

definition handoff_new :: "HandoffId \<Rightarrow> EvolutionManifest \<Rightarrow> IncarnationId \<Rightarrow> IncarnationId \<Rightarrow> AuthorityRegistry \<Rightarrow> TimestampMs \<Rightarrow> HandoffRecord" where
  "handoff_new i m predecessor successor r now =
     handoff_none\<lparr>ho_id := i, ho_campaign := mf_campaign m, ho_shard := mf_shard m, ho_manifest := mf_id m,
       ho_manifest_digest := mf_digest m, ho_predecessor := predecessor, ho_successor := successor,
       ho_epoch := epoch_or 0 (mf_shard m) r, ho_generation := generation_or 0 (mf_shard m) r,
       ho_started_at_ms := now, ho_updated_at_ms := now\<rparr>"

definition create_handoff :: "EvolutionManifest \<Rightarrow> TimestampMs \<Rightarrow> 'w EvolutionController \<Rightarrow> 'w EvolutionController" where
  "create_handoff m now c =
     (let i = ct_next_handoff_id c in
      c\<lparr>ct_next_handoff_id := i + 1,
        ct_handoff := Some (handoff_new i m (nr_incarnation (the (ct_last_source_report c)))
                        (nr_incarnation (the (ct_last_target_report c))) (ct_authority c) now),
        ct_campaign := map_option (\<lambda>k. k\<lparr>ca_handoff := i\<rparr>) (ct_campaign c)\<rparr>)"

text \<open>The claim of the predecessor, remembered for the write it has to refuse.\<close>

definition remember_claim :: "ShardId \<Rightarrow> (unit, 'w) ctl" where
  "remember_claim shard =
     act_bind (act_try (registry_view shard)) (\<lambda>view.
       case view of
         Inl _ \<Rightarrow> act_return ()
       | Inr v \<Rightarrow>
           (case view_mutating v of
              None \<Rightarrow> act_return ()
            | Some lease \<Rightarrow>
                act_modify (\<lambda>c.
                  if lease_holder lease = ho_predecessor (the (ct_handoff c)) \<and> ct_fenced_predecessor_claim c = None
                  then c\<lparr>ct_fenced_predecessor_claim := Some (claim_of lease)\<rparr> else c)))"

definition open_window :: "'w ControllerEnv \<Rightarrow> EvolutionManifest \<Rightarrow> (unit, 'w) ctl" where
  "open_window env m =
     act_bind (act_get (\<lambda>c. window_started_at_ms (the (ct_campaign c)))) (\<lambda>started.
       if started = 0 then
         act_bind read_clock (\<lambda>now.
         act_then (update_campaign (\<lambda>k. k\<lparr>window_started_at_ms := now\<rparr>))
         (act_then (act_modify (\<lambda>c. c\<lparr>ct_window_start_lsn := nr_lsn (the (ct_last_source_report c))\<rparr>))
         (act_bind (act_get (\<lambda>c. (the (ct_handoff c), ct_window_start_lsn c))) (\<lambda>(h, lsn).
          log_event env Reconciliation (mf_shard m) (ho_epoch h) (ho_generation h)
            (json_object [(''window'', JString ''opened''), (''start_lsn'', JUInt lsn)])))))
       else act_return ())"

definition begin_handoff :: "'w ControllerEnv \<Rightarrow> (unit, 'w) ctl" where
  "begin_handoff env =
     act_bind (act_get (\<lambda>c. (ct_manifest c, ct_campaign c, ct_handoff c))) (\<lambda>(manifest, campaign, handoff).
       case (manifest, campaign) of
         (Some m, Some _) \<Rightarrow>
           (if handoff \<noteq> None then act_return ()
            else
              act_then (apply_action env Start)
              (act_then (bind_nodes env)
              (act_bind read_clock (\<lambda>now.
               act_then (act_modify (create_handoff m now))
               (act_then (ensure_predecessor_authority env)
               (act_then (remember_claim (mf_shard m))
               (act_then (open_window env m) (controller_save env))))))))
       | _ \<Rightarrow> act_fail NotFound)"

section \<open>Advancing\<close>

definition advance_phase :: "'w ControllerEnv \<Rightarrow> HandoffPhase \<Rightarrow> (unit, 'w) ctl" where
  "advance_phase env phase =
     (case phase of
        NotStarted \<Rightarrow> advance_prepared env
      | Prepared \<Rightarrow> advance_snapshot env
      | SnapshotSynchronized \<Rightarrow> advance_catch_up env
      | CaughtUp \<Rightarrow> advance_readiness env
      | ReadinessVerified \<Rightarrow> advance_fence env
      | PredecessorFenced \<Rightarrow> advance_transfer env
      | AuthorityTransferred \<Rightarrow> advance_verify env
      | SuccessorVerified \<Rightarrow> advance_retire env
      | PredecessorRetired \<Rightarrow> act_return ()
      | PhaseFailed \<Rightarrow> act_fail IllegalTransition
      | PhaseAborted \<Rightarrow> act_fail IllegalTransition)"

text \<open>The phases whose number is below, or not below, a phase; \<open>phase_value\<close> is what the code compares.\<close>

definition renew_authority :: "'w ControllerEnv \<Rightarrow> (unit, 'w) ctl" where
  "renew_authority env =
     act_bind (act_get (\<lambda>c. ho_phase (the (ct_handoff c)))) (\<lambda>phase.
       if is_forward_phase phase \<and> phase_value phase < phase_value PredecessorFenced then ensure_predecessor_authority env
       else if phase_value phase \<ge> phase_value AuthorityTransferred then ensure_successor_authority env
       else act_return ())"

definition within_window :: "'w ControllerEnv \<Rightarrow> (unit, 'w) ctl" where
  "within_window env =
     act_bind read_clock (\<lambda>now.
     act_bind (act_get (\<lambda>c. ws_exhausted (window_status c now))) (\<lambda>exhausted.
       if exhausted then act_then (act_ignore (apply_action env Pause)) (act_fail NotReady) else act_return ()))"

definition advance_handoff :: "'w ControllerEnv \<Rightarrow> (unit, 'w) ctl" where
  "advance_handoff env =
     act_bind (act_get (\<lambda>c. ct_source_endpoint c \<noteq> None \<and> ct_target_endpoint c \<noteq> None)) (\<lambda>bound.
     act_then (act_check (if bound then Ok else NotFound))
     (act_then (bind_nodes env)
     (act_then (reconcile_incarnations env)
     (act_then (renew_authority env)
     (act_then (within_window env)
     (act_bind (act_get (\<lambda>c. ho_phase (the (ct_handoff c)))) (advance_phase env)))))))"

definition advance :: "'w ControllerEnv \<Rightarrow> (unit, 'w) ctl" where
  "advance env =
     act_bind (act_get (\<lambda>c. (ct_manifest c, ct_campaign c, ct_handoff c))) (\<lambda>(manifest, campaign, handoff).
       case (manifest, campaign) of
         (Some _, Some k) \<Rightarrow>
           (if ca_state k = Paused then act_fail NotReady
            else if is_terminal_state (ca_state k) then act_return ()
            else act_then (if handoff = None then begin_handoff env else act_return ()) (advance_handoff env))
       | _ \<Rightarrow> act_fail NotFound)"

section \<open>Running\<close>

text \<open>The loop of \<^verbatim>\<open>run_to_completion_locked\<close> with the steps left.\<close>

fun run_loop :: "'w ControllerEnv \<Rightarrow> nat \<Rightarrow> (unit, 'w) ctl" where
  "run_loop env 0 = act_fail ResourceExhausted"
| "run_loop env (Suc left) =
     act_bind (act_get (\<lambda>c. (ct_campaign c, ct_handoff c))) (\<lambda>(campaign, handoff).
       case (campaign, handoff) of
         (Some k, Some _) \<Rightarrow>
           (if ca_state k = Paused \<or> is_terminal_state (ca_state k) then act_return ()
            else
              act_then (advance env)
              (act_bind (act_get (\<lambda>c. ho_phase (the (ct_handoff c)))) (\<lambda>phase.
                 if phase = PredecessorRetired then act_return () else run_loop env left)))
       | _ \<Rightarrow> act_fail NotFound)"

definition kMaxSteps :: nat where
  "kMaxSteps = 64"

text \<open>
  \<^verbatim>\<open>start_locked\<close> begins the handoff and calls \<^verbatim>\<open>run_to_completion_locked\<close>, which calls \<^verbatim>\<open>start_locked\<close> when there is
  a campaign and no handoff. A handoff that begins is there, so the second call enters the loop.
\<close>

definition start :: "'w ControllerEnv \<Rightarrow> (unit, 'w) ctl" where
  "start env = act_then (begin_handoff env) (run_loop env kMaxSteps)"

definition run_to_completion :: "'w ControllerEnv \<Rightarrow> (unit, 'w) ctl" where
  "run_to_completion env =
     act_bind (act_get (\<lambda>c. (ct_campaign c, ct_handoff c))) (\<lambda>(campaign, handoff).
       if campaign = None then act_fail NotFound
       else if handoff = None then start env
       else run_loop env kMaxSteps)"

definition pause :: "'w ControllerEnv \<Rightarrow> (unit, 'w) ctl" where
  "pause env = apply_action env Pause"

definition resume :: "'w ControllerEnv \<Rightarrow> (unit, 'w) ctl" where
  "resume env = act_then (apply_action env Resume) (run_to_completion env)"

section \<open>Aborting\<close>

text \<open>The predecessor regains the authority when it does not hold it; every failure is only noted.\<close>

definition restore_predecessor :: "'w ControllerEnv \<Rightarrow> EvolutionManifest \<Rightarrow> EndpointRef \<Rightarrow> HandoffRecord \<Rightarrow> (unit, 'w) ctl" where
  "restore_predecessor env m s h =
     act_bind (node_report env s) (\<lambda>source_report.
     act_bind (act_try (registry_view (mf_shard m))) (\<lambda>view.
       if (case view of Inl _ \<Rightarrow> False
           | Inr v \<Rightarrow> (case view_mutating v of None \<Rightarrow> False | Some l \<Rightarrow> lease_holder l = nr_incarnation source_report))
       then act_return ()
       else
         act_bind (act_get (co_lease_ttl_ms \<circ> ct_options)) (\<lambda>ttl.
         act_bind (registry_grant (mutating_request m (nr_incarnation source_report) ttl 0
           ''authority restored to the predecessor after a reversible abort'')) (\<lambda>lease.
         act_bind (node_call env s ''node.grant_authority'' (transfer_body (ho_id h) lease ttl)) (\<lambda>_. act_return ())))))"

definition roll_back :: "'w ControllerEnv \<Rightarrow> EvolutionManifest \<Rightarrow> (unit, 'w) ctl" where
  "roll_back env m =
     act_bind (act_get (\<lambda>c. (ct_source_endpoint c, ct_target_endpoint c, ct_handoff c))) (\<lambda>(source, target, handoff).
     act_then (case (source, handoff) of (Some s, Some h) \<Rightarrow> act_ignore (restore_predecessor env m s h) | _ \<Rightarrow> act_return ())
     (act_then (case (target, handoff) of
          (Some t, Some h) \<Rightarrow> act_ignore (node_call env t ''node.retire'' (json_object [(''handoff'', JUInt (ho_id h))]))
        | _ \<Rightarrow> act_return ())
     (if handoff = None then act_return ()
      else
        act_bind read_clock (\<lambda>now.
        update_handoff (\<lambda>h. h\<lparr>ho_phase := PhaseAborted, ho_updated_at_ms := now, ho_last_error := ''campaign aborted before authority moved''\<rparr>)))))"

definition abort :: "'w ControllerEnv \<Rightarrow> (unit, 'w) ctl" where
  "abort env =
     act_bind (act_get (\<lambda>c. (ct_manifest c, ct_campaign c))) (\<lambda>(manifest, campaign).
       case (manifest, campaign) of
         (Some m, Some _) \<Rightarrow>
           act_then (apply_action env Abort)
           (act_bind (act_get (\<lambda>c. ca_state (the (ct_campaign c)))) (\<lambda>state.
              if state = Aborted then act_return ()
              else if state = ForwardRecovery then run_to_completion env
              else
                act_then (roll_back env m)
                (act_then (apply_action env ConfirmAbort) (controller_save env))))
       | _ \<Rightarrow> act_fail NotFound)"

section \<open>Reconciliation\<close>

definition reconcile_authority :: "'w ControllerEnv \<Rightarrow> (unit, 'w) ctl" where
  "reconcile_authority env =
     act_then
       (act_bind (act_get ct_handoff) (\<lambda>handoff.
          if (case handoff of None \<Rightarrow> True | Some h \<Rightarrow> phase_value (ho_phase h) < phase_value PredecessorFenced)
          then act_ignore (ensure_predecessor_authority env) else act_return ()))
       (act_bind (act_get ct_handoff) (\<lambda>handoff.
          if (case handoff of None \<Rightarrow> False | Some h \<Rightarrow> phase_value (ho_phase h) \<ge> phase_value AuthorityTransferred)
          then act_ignore (ensure_successor_authority env) else act_return ()))"

text \<open>The successor reports the lease the registry holds for it: the transfer had happened.\<close>

definition reconcile_transfer :: "'w ControllerEnv \<Rightarrow> ShardId \<Rightarrow> (unit, 'w) ctl" where
  "reconcile_transfer env shard =
     act_bind (act_try (registry_view shard)) (\<lambda>view.
     act_bind (act_get (\<lambda>c. (the (ct_handoff c), the (ct_last_target_report c)))) (\<lambda>(h, target).
       case (case view of Inl _ \<Rightarrow> None | Inr v \<Rightarrow> view_mutating v) of
         None \<Rightarrow> act_return ()
       | Some lease \<Rightarrow>
           (if lease_holder lease = ho_successor h \<and> nr_has_authority target \<and> nr_token target = lease_token lease \<and>
               phase_value (ho_phase h) < phase_value AuthorityTransferred
            then record_phase env AuthorityTransferred
              ''reconciled: the successor reported the transferred authority after a controller restart''
            else act_return ())))"

definition reconcile_fence :: "'w ControllerEnv \<Rightarrow> (unit, 'w) ctl" where
  "reconcile_fence env =
     act_bind (act_get (\<lambda>c. (the (ct_handoff c), ct_last_source_report c))) (\<lambda>(h, source).
       if node_is_down source \<and> ho_phase h = ReadinessVerified
       then record_phase env PredecessorFenced ''reconciled: the predecessor reports it is already fenced''
       else act_return ())"

definition reconcile_replacement :: "'w ControllerEnv \<Rightarrow> (unit, 'w) ctl" where
  "reconcile_replacement env =
     act_bind (act_get (\<lambda>c. (the (ct_handoff c), the (ct_last_source_report c)))) (\<lambda>(h, source).
       if \<not> is_terminal_phase (ho_phase h) \<and> phase_value (ho_phase h) < phase_value PredecessorFenced \<and>
          incarnation_provably_replaced (ho_predecessor h) (nr_incarnation source)
       then restart_handoff env (nr_incarnation source) (ho_successor h) NotStarted
         ''reconciled after restart: the predecessor is a new incarnation''
       else act_return ())"

definition reconcile :: "'w ControllerEnv \<Rightarrow> (unit, 'w) ctl" where
  "reconcile env =
     act_bind (act_get ct_manifest) (\<lambda>manifest.
     act_bind (act_result (require manifest NotFound)) (\<lambda>m.
     act_then (bind_nodes env)
     (act_then (reconcile_incarnations env)
     (act_then (reconcile_authority env)
     (act_bind (act_get ct_handoff) (\<lambda>handoff.
        if handoff = None then act_return ()
        else
          act_then (reconcile_transfer env (mf_shard m))
          (act_then (reconcile_fence env)
          (act_then (reconcile_replacement env)
          (act_bind (act_get (\<lambda>c. (epoch_or 0 (mf_shard m) (ct_authority c), generation_or 0 (mf_shard m) (ct_authority c),
              phase_name (ho_phase (the (ct_handoff c))), ct_boot c))) (\<lambda>(epoch, generation, phase, b).
           act_then (log_event env Reconciliation (mf_shard m) epoch generation
             (json_object [(''handoff_phase'', JString phase), (''controller_boot'', JUInt b)]))
           (controller_save env)))))))))))"

end
