(* ===== verification/Controller_Admin.thy ===== *)
theory Controller_Admin
  imports Controller_Run
begin

text \<open>
  What the evolution controller answers (\<^verbatim>\<open>src/controller.cpp\<close>): the status, authority, journal and handoff documents,
  the explanation topics, and the dispatch of an administrative request to the operations. The explanation
  \<^verbatim>\<open>admin\<close> attaches to an answer is not modelled.
\<close>

text \<open>\<^verbatim>\<open>window_status_locked\<close> reads the clock once a campaign is loaded.\<close>

definition window_now :: "(WindowStatus, 'w) ctl" where
  "window_now =
     act_bind (act_get (\<lambda>c. ct_campaign c \<noteq> None \<and> ct_manifest c \<noteq> None)) (\<lambda>loaded.
       if loaded then act_bind read_clock (\<lambda>now. act_get (\<lambda>c. window_status c now)) else act_get (\<lambda>c. window_status c 0))"

definition window_json :: "WindowStatus \<Rightarrow> json" where
  "window_json w =
     json_set (json_set (json_set (json_set (json_set (json_set (json_set (JObject [])
       ''open'' (JBool (ws_open w)))
       ''operations'' (JUInt (ws_operations w)))
       ''operation_limit'' (JUInt (ws_operation_limit w)))
       ''elapsed_ms'' (JUInt (ws_elapsed_ms w)))
       ''duration_limit_ms'' (JUInt (ws_duration_limit_ms w)))
       ''exhausted'' (JBool (ws_exhausted w)))
       ''reason'' (JString (ws_reason w))"

definition view_json :: "AuthorityView \<Rightarrow> json" where
  "view_json v =
     json_set (json_set
       (set_option ''slot_holder'' lease_to_json (view_slot_holder v)
       (set_option ''mutating'' lease_to_json (view_mutating v)
         (json_set (json_set (json_set (json_set (json_set (JObject [])
           ''shard'' (JString (view_shard v)))
           ''epoch'' (JUInt (view_epoch v)))
           ''generation'' (JUInt (view_generation v)))
           ''mutating_authority_count'' (JUInt (of_nat (mutating_authority_count v))))
           ''mutation_slot_free'' (JBool (mutation_slot_free v)))))
       ''read_only'' (JArray (map lease_to_json (view_read_only v))))
       ''fences'' (JArray (map fence_to_json (view_fences v)))"

text \<open>\<^verbatim>\<open>all_views\<close> reads the clock once for every shard.\<close>

definition authority_json :: "(json, 'w) ctl" where
  "authority_json c =
     (Inr (JArray (map view_json (all_views (\<lambda>i. ct_clock c (ct_ticks c + i)) (ct_authority c)))),
      c\<lparr>ct_ticks := ct_ticks c + length (shards (ct_authority c))\<rparr>)"

definition status_base :: "string \<Rightarrow> 'w EvolutionController \<Rightarrow> json" where
  "status_base diagnostic c =
     set_option ''target_report'' report_to_json (ct_last_target_report c)
     (set_option ''source_report'' report_to_json (ct_last_source_report c)
     (set_option ''handoff'' handoff_to_json (ct_handoff c)
     (set_option ''campaign'' campaign_to_json (ct_campaign c)
     (set_option ''manifest'' manifest_to_json (ct_manifest c)
     (set_option ''epoch_journal_diagnostic'' JString (if diagnostic = [] then None else Some diagnostic)
       (json_set (json_set (json_set (json_set (json_set (json_set (JObject [])
         ''controller'' (JString (co_controller_id (ct_options c))))
         ''controller_incarnation'' (incarnation_to_json (ct_incarnation c)))
         ''controller_boot'' (JUInt (ct_boot c)))
         ''state_recovered_from_backup'' (JBool (ct_recovered_from_backup c)))
         ''epoch_journal_records'' (JUInt (of_nat (length (el_events (ct_epoch_log c))))))
         ''epoch_journal_damaged_tail'' (JBool (el_tail_damaged (ct_epoch_log c)))))))))"

definition status_json :: "(json, 'w) ctl" where
  "status_json =
     act_bind read_text (\<lambda>diagnostic.
     act_bind (act_get (status_base diagnostic)) (\<lambda>out.
     act_bind window_now (\<lambda>window.
     act_bind (act_get ct_last_deferral_reason) (\<lambda>reason.
     act_bind authority_json (\<lambda>authority.
     act_return (json_set (json_set (json_set out ''window'' (window_json window)) ''last_deferral_reason'' (JString reason))
       ''authority'' authority))))))"

definition kEpochJsonLimit :: nat where
  "kEpochJsonLimit = 512"

definition epoch_json :: "'w EvolutionController \<Rightarrow> json" where
  "epoch_json c =
     (let all = el_events (ct_epoch_log c);
          from = (if length all > kEpochJsonLimit then length all - kEpochJsonLimit else 0) in
      json_set (json_set (json_set (json_set (JObject [])
        ''events'' (JArray (map epoch_event_to_json (drop from all))))
        ''records'' (JUInt (of_nat (length all))))
        ''replayed_records'' (JUInt (of_nat (el_replayed_records (ct_epoch_log c)))))
        ''damaged_tail'' (JBool (el_tail_damaged (ct_epoch_log c))))"

definition handoff_json :: "'w EvolutionController \<Rightarrow> json" where
  "handoff_json c =
     set_option ''campaign_state'' (\<lambda>k. JString (campaign_state_name (ca_state k))) (ct_campaign c)
       (case ct_handoff c of
          Some h \<Rightarrow>
            json_set (json_set (json_set (JObject []) ''handoff'' (handoff_to_json h)) ''phase'' (JString (phase_name (ho_phase h))))
              ''phase_rank'' (JInt (of_int (phase_rank (ho_phase h))))
        | None \<Rightarrow> json_set (JObject []) ''phase'' (JString ''none''))"

definition window_topic :: "(json, 'w) ctl" where
  "window_topic =
     act_bind window_now (\<lambda>window.
     act_bind (act_get ct_manifest) (\<lambda>manifest.
     act_return
       (case manifest of
          None \<Rightarrow> window_json window
        | Some m \<Rightarrow>
            json_set (json_set (json_set (json_set (window_json window)
              ''effective_max_operations'' (JUInt (max_operations (effective_window m))))
              ''effective_max_duration_ms'' (JUInt (max_duration_ms (effective_window m))))
              ''declared_max_operations'' (JUInt (max_operations (mf_window m))))
              ''declared_max_duration_ms'' (JUInt (max_duration_ms (mf_window m))))))"

text \<open>The rationale is a text.\<close>

definition compatibility_topic :: "'w ControllerEnv \<Rightarrow> (json, 'w) ctl" where
  "compatibility_topic env =
     act_bind (act_get (\<lambda>c. (ct_manifest c, co_evidence_policy (ct_options c)))) (\<lambda>(manifest, policy).
     act_bind (act_result (require manifest NotFound)) (\<lambda>m.
     act_bind read_text (\<lambda>rationale.
     let evidence = verify_evidence (mf_compatibility m) (env_decide env) policy in
     act_return
       (json_set (json_set (json_set (json_set (json_set (json_set (JObject [])
         ''declared'' (decision_to_json (mf_compatibility m)))
         ''satisfied'' (JBool (ec_satisfied evidence)))
         ''refreshed'' (JBool (ec_refreshed evidence)))
         ''rationale'' (JString rationale))
         ''registry'' (JString (env_registry_name env)))
         ''differences'' (JArray (map JString (ec_differences evidence)))))))"

definition explain_topic :: "'w ControllerEnv \<Rightarrow> string \<Rightarrow> (json, 'w) ctl" where
  "explain_topic env topic =
     (if topic = ''handoff'' \<or> topic = ''campaign'' then act_get handoff_json
      else if topic = ''authority'' then authority_json
      else if topic = ''epoch'' then act_get epoch_json
      else if topic = ''window'' \<or> topic = ''mixed-version'' then window_topic
      else if topic = ''compatibility'' then compatibility_topic env
      else act_fail NotFound)"

definition run_then_status :: "(unit, 'w) ctl \<Rightarrow> (json, 'w) ctl" where
  "run_then_status operation = act_then operation status_json"

definition admin :: "'w ControllerEnv \<Rightarrow> RpcRequest \<Rightarrow> (json, 'w) ctl" where
  "admin env request =
     (if rq_op request = ''status'' then status_json
      else if rq_op request = ''authority'' then authority_json
      else if rq_op request = ''epoch'' then act_get epoch_json
      else if rq_op request = ''handoff'' then act_get handoff_json
      else if rq_op request = ''explain'' then
        act_bind (act_result (require (json_string (rq_body request) ''topic'') InvalidArgument)) (explain_topic env)
      else if rq_op request = ''plan'' then
        act_bind (act_result (require (json_find (rq_body request) ''manifest'') InvalidArgument)) (\<lambda>manifest.
        act_bind (act_result (manifest_from_json (env_dtoa env) manifest)) (\<lambda>parsed.
        run_then_status (plan_campaign env parsed)))
      else if rq_op request = ''preflight'' then run_then_status (preflight_campaign env)
      else if rq_op request = ''start'' then run_then_status (start env)
      else if rq_op request = ''advance'' then run_then_status (advance env)
      else if rq_op request = ''run'' then run_then_status (run_to_completion env)
      else if rq_op request = ''pause'' then run_then_status (pause env)
      else if rq_op request = ''resume'' then run_then_status (resume env)
      else if rq_op request = ''abort'' then run_then_status (abort env)
      else if rq_op request = ''reconcile'' then run_then_status (reconcile env)
      else act_fail NotFound)"

definition load_manifest_file ::
  "(u64 \<Rightarrow> string) \<Rightarrow> (string \<Rightarrow> u64 option) \<Rightarrow> FileSystem \<Rightarrow> string \<Rightarrow> EvolutionManifest Result" where
  "load_manifest_file dtoa strtod fs path = rbind (require (fs path) IoFailure) (manifest_from_json_text dtoa strtod)"

end
