(* ===== verification/Controller_Steps.thy ===== *)
theory Controller_Steps
  imports Controller_Admin Authority_Props
begin

text \<open>
  Every operation of the controller changes the authority registry only through the operations of the
  registry, at successive readings of the clock, and moves the handoff and the campaign only by the steps
  of an abstract protocol. Both are one reflexive and transitive relation between the states before and
  after, so that each operation is reduced to its steps; \<open>admin\<close> inherits it.
\<close>

section \<open>The abstract protocol\<close>

type_synonym protocol_state = "HandoffRecord option \<times> CampaignState option"

definition transferred :: "HandoffRecord option \<Rightarrow> bool" where
  "transferred handoff = (case handoff of None \<Rightarrow> False | Some h \<Rightarrow> reached h AuthorityTransferred)"

text \<open>
  The moves of the state of a campaign, by name: planning when there is no campaign or a finished one, and from
  there the edges of its state machine. A pause waits until the authority is not between its owners, an abort
  rolls back only while the authority has not moved, and a campaign completes only with a verified successor.
  No move leaves a finished campaign but the planning of the next one.
\<close>

definition between_owners :: "HandoffRecord option \<Rightarrow> bool" where
  "between_owners handoff = (case handoff of None \<Rightarrow> False | Some h \<Rightarrow> ho_phase h = PredecessorFenced \<or> ho_phase h = AuthorityTransferred)"

definition verified :: "HandoffRecord option \<Rightarrow> bool" where
  "verified handoff = (case handoff of None \<Rightarrow> False | Some h \<Rightarrow> ho_phase h = SuccessorVerified \<or> ho_phase h = PredecessorRetired)"

inductive campaign_move :: "HandoffRecord option \<Rightarrow> CampaignState option \<Rightarrow> CampaignState option \<Rightarrow> bool" for x where
  plan: "(case s of None \<Rightarrow> True | Some t \<Rightarrow> is_terminal_state t) \<Longrightarrow> campaign_move x s (Some Planned)"
| preflight: "campaign_move x (Some Planned) (Some Preflighting)"
| start: "t = Preflighting \<or> t = Paused \<Longrightarrow> campaign_move x (Some t) (Some Running)"
| pause: "\<not> between_owners x \<Longrightarrow> campaign_move x (Some Running) (Some Paused)"
| abort: "\<not> is_terminal_state t \<Longrightarrow> t = Aborting \<or> \<not> transferred x \<Longrightarrow> campaign_move x (Some t) (Some Aborting)"
| forward_recovery: "\<not> is_terminal_state t \<Longrightarrow> campaign_move x (Some t) (Some ForwardRecovery)"
| confirm_abort: "campaign_move x (Some Aborting) (Some Aborted)"
| complete: "t = Running \<or> t = ForwardRecovery \<Longrightarrow> verified x \<Longrightarrow> campaign_move x (Some t) (Some Completed)"
| fail: "\<not> is_terminal_state t \<Longrightarrow> campaign_move x (Some t) (Some Failed)"

lemma campaign_move_aborting: "campaign_move x s (Some Aborting) \<Longrightarrow> s = Some Aborting \<or> \<not> transferred x"
  by (auto elim: campaign_move.cases)

text \<open>
  One step of the protocol: bookkeeping, the beginning of a handoff, the next phase, a restart before the
  authority moved, the end of a rollback, a move of the campaign.
\<close>

inductive protocol_step :: "protocol_state \<Rightarrow> protocol_state \<Rightarrow> bool" where
  keep: "ho_id h' = ho_id h \<Longrightarrow> ho_phase h' = ho_phase h \<Longrightarrow> ho_attempt h' = ho_attempt h \<Longrightarrow> protocol_step (Some h, s) (Some h', s)"
| begin_at: "ho_phase h = NotStarted \<Longrightarrow> ho_attempt h = 1 \<Longrightarrow> protocol_step (None, s) (Some h, s)"
| forward: "ho_id h' = ho_id h \<Longrightarrow> next_phase (ho_phase h) = Some (ho_phase h') \<Longrightarrow> ho_attempt h' = ho_attempt h \<Longrightarrow> protocol_step (Some h, s) (Some h', s)"
| rewind: "ho_id h' = ho_id h \<Longrightarrow> is_forward_phase (ho_phase h) \<Longrightarrow> \<not> reached h AuthorityTransferred \<Longrightarrow> ho_phase h' \<in> {NotStarted, Prepared} \<Longrightarrow>
    ho_attempt h < kMaxHandoffRestarts \<Longrightarrow> ho_attempt h' = ho_attempt h + 1 \<Longrightarrow> protocol_step (Some h, s) (Some h', s)"
| roll_back: "ho_id h' = ho_id h \<Longrightarrow> ho_phase h' = PhaseAborted \<Longrightarrow> ho_attempt h' = ho_attempt h \<Longrightarrow> protocol_step (Some h, Some Aborting) (Some h', Some Aborting)"
| campaign: "campaign_move x s s' \<Longrightarrow> protocol_step (x, s) (x, s')"

inductive_cases protocol_step_SomeE: "protocol_step (Some h, s) y"

definition attempts_bounded :: "protocol_state \<Rightarrow> bool" where
  "attempts_bounded x = (case fst x of None \<Rightarrow> True | Some h \<Rightarrow> ho_attempt h \<le> kMaxHandoffRestarts)"

lemma protocol_attempts: "protocol_step\<^sup>*\<^sup>* x y \<Longrightarrow> attempts_bounded x \<Longrightarrow> attempts_bounded y"
proof (induction rule: rtranclp_induct)
  case (step y z)
  have "attempts_bounded y" using step by blast
  with step.hyps(2) show ?case
  proof (cases rule: protocol_step.cases)
    case (rewind h h' s)
    then show ?thesis by (simp add: attempts_bounded_def inc_le)
  qed (auto simp: attempts_bounded_def kMaxHandoffRestarts_def)
qed

text \<open>The authority has moved, and no rollback is under way.\<close>

definition settled :: "protocol_state \<Rightarrow> bool" where
  "settled x = (transferred (fst x) \<and> snd x \<noteq> Some Aborting)"

definition rank_of :: "protocol_state \<Rightarrow> int" where
  "rank_of x = (case fst x of None \<Rightarrow> -1 | Some h \<Rightarrow> phase_rank (ho_phase h))"

lemma next_phase_reached:
  "next_phase (ho_phase h) = Some (ho_phase h') \<Longrightarrow> reached h p \<Longrightarrow> reached h' p \<and> phase_rank (ho_phase h) \<le> phase_rank (ho_phase h')"
  by (cases "ho_phase h") (auto simp: next_phase_def reached_def phase_rank_def kForwardPhases_def is_forward_phase_def)

lemma protocol_step_settled: "protocol_step x y \<Longrightarrow> settled x \<Longrightarrow> settled y \<and> rank_of x \<le> rank_of y"
proof (induction rule: protocol_step.induct)
  case (forward h' h s)
  then show ?case using next_phase_reached [of h h' AuthorityTransferred] by (auto simp: settled_def transferred_def rank_of_def)
next
  case (campaign x s s')
  then show ?case using campaign_move_aborting [of x s] by (auto simp: settled_def rank_of_def)
qed (auto simp: settled_def transferred_def rank_of_def reached_def)

lemma protocol_settled: "protocol_step\<^sup>*\<^sup>* x y \<Longrightarrow> settled x \<Longrightarrow> settled y \<and> rank_of x \<le> rank_of y"
  by (induction rule: rtranclp_induct) (auto dest: protocol_step_settled)

text \<open>A completed handoff is final: the protocol has no step that begins another.\<close>

definition completed_as :: "HandoffId \<Rightarrow> protocol_state \<Rightarrow> bool" where
  "completed_as i x = (snd x \<noteq> Some Aborting \<and> (case fst x of None \<Rightarrow> False | Some h \<Rightarrow> ho_id h = i \<and> ho_phase h = PredecessorRetired))"

lemma retired_facts:
  "next_phase PredecessorRetired = None" "ho_phase h = PredecessorRetired \<Longrightarrow> reached h AuthorityTransferred"
  by (simp_all add: next_phase_def reached_def phase_rank_def kForwardPhases_def is_forward_phase_def)

lemma protocol_step_completed: "protocol_step x y \<Longrightarrow> completed_as i x \<Longrightarrow> completed_as i y"
proof (induction rule: protocol_step.induct)
  case (campaign x s s')
  then show ?case using campaign_move_aborting [of x s]
    by (auto simp: completed_as_def transferred_def retired_facts split: option.splits)
qed (auto simp: completed_as_def retired_facts)

lemma protocol_completed: "protocol_step\<^sup>*\<^sup>* x y \<Longrightarrow> completed_as i x \<Longrightarrow> completed_as i y"
  by (induction rule: rtranclp_induct) (auto dest: protocol_step_completed)

section \<open>The relation\<close>

definition protocol_view :: "'w EvolutionController \<Rightarrow> protocol_state" where
  "protocol_view c = (ct_handoff c, map_option ca_state (ct_campaign c))"

definition registry_runs :: "'w EvolutionController \<Rightarrow> 'w EvolutionController \<Rightarrow> bool" where
  "registry_runs c c' =
     (ct_clock c' = ct_clock c \<and> ct_ticks c \<le> ct_ticks c' \<and>
      (\<exists>ops ks. ct_authority c' = run_ops ops (ct_authority c) \<and> list_all in_service ops \<and> readings ops = map (ct_clock c) ks \<and>
         sorted ks \<and> set ks \<subseteq> {ct_ticks c..<ct_ticks c'}))"

definition runs_to :: "'w EvolutionController \<Rightarrow> 'w EvolutionController \<Rightarrow> bool" where
  "runs_to c c' =
     (ct_options c' = ct_options c \<and> registry_runs c c' \<and> protocol_step\<^sup>*\<^sup>* (protocol_view c) (protocol_view c'))"

lemma run_ops_append: "run_ops (xs @ ys) r = run_ops ys (run_ops xs r)"
  by (simp add: run_ops_def)

lemma readings_append: "readings (xs @ ys) = readings xs @ readings ys"
  by (simp add: readings_def)

lemma registry_runs_quiet: "ct_clock c' = ct_clock c \<Longrightarrow> ct_ticks c \<le> ct_ticks c' \<Longrightarrow> ct_authority c' = ct_authority c \<Longrightarrow> registry_runs c c'"
  unfolding registry_runs_def by (intro conjI exI [of _ "[]"]) (simp_all add: run_ops_def readings_def)

lemma registry_runs_trans:
  assumes "registry_runs a b" "registry_runs b c"
  shows "registry_runs a c"
proof -
  from assms(1) obtain xs ks where x: "ct_clock b = ct_clock a" "ct_ticks a \<le> ct_ticks b" "ct_authority b = run_ops xs (ct_authority a)"
    "list_all in_service xs" "readings xs = map (ct_clock a) ks" "sorted ks" "set ks \<subseteq> {ct_ticks a..<ct_ticks b}"
    unfolding registry_runs_def by blast
  from assms(2) obtain ys ls where y: "ct_clock c = ct_clock b" "ct_ticks b \<le> ct_ticks c" "ct_authority c = run_ops ys (ct_authority b)"
    "list_all in_service ys" "readings ys = map (ct_clock b) ls" "sorted ls" "set ls \<subseteq> {ct_ticks b..<ct_ticks c}"
    unfolding registry_runs_def by blast
  have "\<forall>k \<in> set ks. \<forall>l \<in> set ls. k \<le> l" using x(7) y(7) by (meson atLeastLessThan_iff less_le_trans less_imp_le subsetD)
  then have "sorted (ks @ ls)" using x(6) y(6) by (simp add: sorted_append)
  moreover have "set (ks @ ls) \<subseteq> {ct_ticks a..<ct_ticks c}" using x(2,7) y(2,7) by auto
  ultimately show ?thesis unfolding registry_runs_def
    using x y by (intro conjI exI [of _ "xs @ ys"] exI [of _ "ks @ ls"]) (auto simp: run_ops_append readings_append)
qed

lemma runs_to_quiet:
  "ct_options c' = ct_options c \<Longrightarrow> ct_clock c' = ct_clock c \<Longrightarrow> ct_ticks c \<le> ct_ticks c' \<Longrightarrow> ct_authority c' = ct_authority c \<Longrightarrow>
     protocol_view c' = protocol_view c \<Longrightarrow> runs_to c c'"
  by (simp add: runs_to_def registry_runs_quiet)

lemma runs_to_protocol:
  "ct_options c' = ct_options c \<Longrightarrow> ct_clock c' = ct_clock c \<Longrightarrow> ct_ticks c \<le> ct_ticks c' \<Longrightarrow> ct_authority c' = ct_authority c \<Longrightarrow>
     protocol_step (protocol_view c) (protocol_view c') \<Longrightarrow> runs_to c c'"
  by (simp add: runs_to_def registry_runs_quiet r_into_rtranclp)

lemma runs_to_operation:
  assumes "ct_options c' = ct_options c" "ct_clock c' = ct_clock c" "ct_ticks c \<le> ct_ticks c'" "protocol_view c' = protocol_view c"
    and "ct_authority c' = apply_op x (ct_authority c)" "in_service x" "clock_readings x = map (ct_clock c) ks" "sorted ks"
    and "set ks \<subseteq> {ct_ticks c..<ct_ticks c'}"
  shows "runs_to c c'"
proof -
  have "registry_runs c c'" unfolding registry_runs_def
    using assms by (intro conjI exI [of _ "[x]"] exI [of _ ks]) (auto simp: run_ops_def readings_def)
  with assms show ?thesis by (simp add: runs_to_def)
qed

interpretation cr: step_relation runs_to
proof
  show "runs_to s s" for s :: "'w EvolutionController" by (rule runs_to_quiet) simp_all
  show "runs_to a c" if "runs_to a b" "runs_to b c" for a b c :: "'w EvolutionController"
    using that by (auto simp: runs_to_def intro: registry_runs_trans rtranclp_trans)
qed

text \<open>Two weaker relations: the handoff, and the handoff with the campaign, are left alone.\<close>

definition same_handoff :: "'w EvolutionController \<Rightarrow> 'w EvolutionController \<Rightarrow> bool" where
  "same_handoff c c' = (ct_handoff c' = ct_handoff c)"

definition same_protocol :: "'w EvolutionController \<Rightarrow> 'w EvolutionController \<Rightarrow> bool" where
  "same_protocol c c' = (protocol_view c' = protocol_view c)"

interpretation sh: step_relation same_handoff
  by unfold_locales (simp_all add: same_handoff_def)

interpretation sp: step_relation same_protocol
  by unfold_locales (simp_all add: same_protocol_def)

section \<open>The single steps\<close>

named_theorems run_steps

lemma outside_quiet:
  "steps runs_to read_clock" "steps runs_to read_text" "steps runs_to mint_token" "steps runs_to (controller_disk f)"
  "steps runs_to (append_event env e)" "steps runs_to (node_call env endpoint op body)"
  by (auto intro!: stepsI runs_to_quiet
      simp: read_clock_def read_text_def mint_token_def controller_disk_def append_event_def node_call_def protocol_view_def Let_def
      split: prod.splits)

declare outside_quiet [run_steps]

lemma log_event_runs [run_steps]: "steps runs_to (log_event env kind shard epoch generation payload)"
  unfolding log_event_def by (intro cr.steps_intros run_steps)

lemma controller_save_runs [run_steps]: "steps runs_to (controller_save env)"
  unfolding controller_save_def by (intro cr.steps_intros run_steps)

lemma node_report_runs [run_steps]: "steps runs_to (node_report env endpoint)"
  unfolding node_report_def by (intro cr.steps_intros run_steps)

lemma peer_hello_runs [run_steps]: "steps runs_to (peer_hello env endpoint)"
  unfolding peer_hello_def by (intro cr.steps_intros run_steps)

lemma registry_view_runs [run_steps]: "steps runs_to (registry_view shard)"
  unfolding registry_view_def by (intro cr.steps_intros run_steps)

lemma on_registry_runs:
  assumes "\<And>r. fst (f r) = apply_op x r" "in_service x" "clock_readings x = []"
  shows "steps runs_to (on_registry f)"
proof (rule stepsI)
  fix c c' :: "'w EvolutionController" and u
  assume o: "on_registry f c = (u, c')"
  obtain r st where "f (ct_authority c) = (r, st)" by fastforce
  with o assms(1) [of "ct_authority c"] have "c' = c\<lparr>ct_authority := apply_op x (ct_authority c)\<rparr>" by (auto simp: on_registry_def)
  then show "runs_to c c'" using assms by (intro runs_to_operation [of _ _ x "[]"]) (simp_all add: protocol_view_def)
qed

lemma timed_registry_runs:
  assumes "\<And>now r. fst (f now r) = apply_op (x now) r" "\<And>now. in_service (x now)" "\<And>now. clock_readings (x now) = [now]"
  shows "steps runs_to (act_bind read_clock (\<lambda>now. on_registry (f now)))"
proof (rule stepsI)
  fix c c' :: "'w EvolutionController" and u
  let ?now = "ct_clock c (ct_ticks c)"
  assume o: "act_bind read_clock (\<lambda>now. on_registry (f now)) c = (u, c')"
  obtain r st where "f ?now (ct_authority c) = (r, st)" by fastforce
  with o assms(1) [of ?now "ct_authority c"]
  have "c' = c\<lparr>ct_ticks := Suc (ct_ticks c), ct_authority := apply_op (x ?now) (ct_authority c)\<rparr>"
    by (auto simp: on_registry_def act_bind_def read_clock_def)
  then show "runs_to c c'" using assms by (intro runs_to_operation [of _ _ "x ?now" "[ct_ticks c]"]) (simp_all add: protocol_view_def)
qed

lemma registry_ops_run [run_steps]:
  "steps runs_to (registry_request_fence shard target reason)"
  "steps runs_to (registry_acknowledge shard holder fence)"
  "steps runs_to (registry_reattest shard holder token)"
  "steps runs_to (on_registry (revoke shard lease reason))"
  "steps runs_to (on_registry (establish shard epoch))"
  unfolding registry_request_fence_def registry_acknowledge_def registry_reattest_def
  by (rule timed_registry_runs [where x = "\<lambda>now. RequestFence now shard target reason"]
      timed_registry_runs [where x = "\<lambda>now. AcknowledgeFence now shard holder fence"]
      timed_registry_runs [where x = "\<lambda>now. Reattest now shard holder token"]
      on_registry_runs [where x = "Revoke shard lease reason"] on_registry_runs [where x = "Establish shard epoch"]; simp)+

lemma registry_grant_runs [run_steps]: "steps runs_to (registry_grant req)"
proof (rule stepsI)
  fix c c' :: "'w EvolutionController" and u
  let ?x = "Grant (ct_clock c (ct_ticks c)) (ct_clock c (Suc (ct_ticks c))) (ct_tokens c (ct_minted c)) req"
  assume "registry_grant req c = (u, c')"
  then have "c' = c\<lparr>ct_ticks := Suc (Suc (ct_ticks c)), ct_minted := Suc (ct_minted c), ct_authority := apply_op ?x (ct_authority c)\<rparr>"
    by (auto simp: registry_grant_def act_bind_def read_clock_def mint_token_def split: prod.splits)
  then show "runs_to c c'" by (intro runs_to_operation [of _ _ ?x "[ct_ticks c, Suc (ct_ticks c)]"]) (simp_all add: protocol_view_def)
qed

text \<open>Changes that keep the phase, the attempt and the state of the campaign.\<close>

lemma update_handoff_runs [run_steps]:
  "(\<And>h. ho_id (f h) = ho_id h \<and> ho_phase (f h) = ho_phase h \<and> ho_attempt (f h) = ho_attempt h) \<Longrightarrow> steps runs_to (update_handoff f)"
proof (rule stepsI)
  fix c c' :: "'w EvolutionController" and u
  assume f: "\<And>h. ho_id (f h) = ho_id h \<and> ho_phase (f h) = ho_phase h \<and> ho_attempt (f h) = ho_attempt h" and "update_handoff f c = (u, c')"
  then have c': "c' = c\<lparr>ct_handoff := map_option f (ct_handoff c)\<rparr>" by (simp add: update_handoff_def act_modify_def)
  show "runs_to c c'"
  proof (cases "ct_handoff c")
    case None
    then show ?thesis by (intro runs_to_quiet) (simp_all add: c' protocol_view_def)
  next
    case (Some h)
    then show ?thesis using f by (intro runs_to_protocol) (auto simp: c' protocol_view_def intro: protocol_step.keep)
  qed
qed

lemma update_campaign_runs [run_steps]: "(\<And>k. ca_state (f k) = ca_state k) \<Longrightarrow> steps runs_to (update_campaign f)"
  unfolding update_campaign_def
  by (intro cr.steps_modify runs_to_quiet) (simp_all add: protocol_view_def option.map_comp comp_def)

lemma quiet_modify:
  "(\<And>c. ct_options (f c) = ct_options c \<and> ct_clock (f c) = ct_clock c \<and> ct_ticks (f c) = ct_ticks c \<and> ct_authority (f c) = ct_authority c \<and>
     ct_handoff (f c) = ct_handoff c \<and> map_option ca_state (ct_campaign (f c)) = map_option ca_state (ct_campaign c)) \<Longrightarrow>
   steps runs_to (act_modify f)"
  by (intro cr.steps_modify runs_to_quiet) (simp_all add: protocol_view_def)

lemma reads_run [run_steps]:
  "steps runs_to current_manifest" "steps runs_to current_handoff" "steps runs_to source_endpoint" "steps runs_to target_endpoint"
  "steps runs_to shard_of"
  unfolding current_manifest_def current_handoff_def source_endpoint_def target_endpoint_def shard_of_def by (intro cr.steps_pure)+

section \<open>Sequences\<close>

lemmas run_rules =
  cr.steps_bind cr.steps_then cr.steps_pure cr.steps_inner cr.steps_if cr.steps_option cr.steps_sum cr.steps_prod cr.steps_let

lemmas run_intros = run_rules quiet_modify

text \<open>Every accepted action of a campaign is a move.\<close>

lemma reached_none: "\<not> reached handoff_none SuccessorVerified" "ho_phase handoff_none = NotStarted"
  by (simp_all add: handoff_none_def reached_def phase_rank_def kForwardPhases_def is_forward_phase_def)

lemma decision_move:
  assumes "accepted (campaign_decision action k m handoff)"
  shows "campaign_move handoff (Some (ca_state k)) (Some (next_state (campaign_decision action k m handoff)))"
proof -
  have reach: "reached h SuccessorVerified \<Longrightarrow> verified (Some h)" for h
    by (cases "ho_phase h") (simp_all add: verified_def reached_def is_forward_phase_def)
  have known: "between_owners (Some h) = is_authority_transition_window (ho_phase h)" "between_owners None = False"
    "transferred (Some h) = reached h AuthorityTransferred" "transferred None = False" for h
    by (simp_all add: between_owners_def is_authority_transition_window_def transferred_def)
  show ?thesis using assms
    by (cases action)
      (auto simp: campaign_decision_def evaluate_campaign_action_def reject_def accept_def Let_def reached_none known
         intro: campaign_move.intros reach split: if_splits option.splits)
qed

lemma read_clock_run: "act_bind read_clock f c = f (ct_clock c (ct_ticks c)) (c\<lparr>ct_ticks := Suc (ct_ticks c)\<rparr>)"
  by (simp add: act_bind_def read_clock_def)

lemma action_parts_run [run_steps]: "steps runs_to (defer_action env d)" "steps runs_to (record_action env action k d)"
  unfolding defer_action_def record_action_def by (intro run_intros run_steps; simp)+

definition campaign_after_action :: "CampaignAction \<Rightarrow> ActionDecision \<Rightarrow> CampaignRecord \<Rightarrow> 'w EvolutionController \<Rightarrow> 'w EvolutionController" where
  "campaign_after_action action d k c =
     c\<lparr>ct_ticks := Suc (Suc (ct_ticks c)),
       ct_campaign := Some (campaign_moved action d (ct_clock c (ct_ticks c)) (ct_clock c (Suc (ct_ticks c))) k)\<rparr>"

lemma apply_action_cases:
  assumes "apply_action env action c = (u, c')"
  obtains "c' = c" "\<And>x. u \<noteq> Inr x"
  | d where "defer_action env d c = (u, c')"
  | k m d where "ct_campaign c = Some k" "ct_manifest c = Some m" "d = campaign_decision action k m (ct_handoff c)" "accepted d" "\<not> deferred d"
      "record_action env action k d (campaign_after_action action d k c) = (u, c')"
  using assms
  by (auto simp: apply_action_def act_fail_def read_clock_run campaign_after_action_def Let_def split: option.splits if_splits)

lemma apply_action_runs [run_steps]: "steps runs_to (apply_action env action)"
proof (rule stepsI)
  fix c c' u
  assume "apply_action env action c = (u, c')"
  then show "runs_to c c'"
  proof (cases rule: apply_action_cases)
    case 1
    then show ?thesis by (simp add: cr.refl)
  next
    case (2 d)
    then show ?thesis by (rule stepsD [OF action_parts_run(1)])
  next
    case (3 k m d)
    have "runs_to c (campaign_after_action action d k c)"
      using decision_move [of action k m "ct_handoff c"] 3(1-5)
      by (intro runs_to_protocol) (auto simp: campaign_after_action_def protocol_view_def campaign_moved_def intro!: protocol_step.campaign)
    then show ?thesis using stepsD [OF action_parts_run(2) 3(6)] by (rule cr.trans)
  qed
qed

section \<open>Phases\<close>

definition moved_controller :: "HandoffPhase \<Rightarrow> string \<Rightarrow> HandoffRecord \<Rightarrow> 'w EvolutionController \<Rightarrow> 'w EvolutionController" where
  "moved_controller to note h c =
     (let moved = phase_moved to note (ct_clock c (ct_ticks c)) (ct_clock c (Suc (ct_ticks c))) (ct_authority c) h in
      c\<lparr>ct_ticks := Suc (Suc (ct_ticks c)), ct_handoff := Some moved,
        ct_campaign := map_option (\<lambda>k. k\<lparr>ca_epoch := ho_epoch moved, ca_generation := ho_generation moved\<rparr>) (ct_campaign c)\<rparr>)"

definition log_phase :: "'w ControllerEnv \<Rightarrow> HandoffPhase \<Rightarrow> string \<Rightarrow> HandoffRecord \<Rightarrow> 'w EvolutionController \<Rightarrow> unit Result \<times> 'w EvolutionController" where
  "log_phase env to note h c =
     act_then (log_event env HandoffPhaseEvent (ho_shard h) (ho_epoch (the (ct_handoff c))) (ho_generation (the (ct_handoff c)))
       (json_object [(''handoff'', JUInt (ho_id h)), (''from'', JString (phase_name (ho_phase h))),
          (''to'', JString (phase_name to)), (''note'', JString note)]))
     (controller_save env) c"

lemma record_phase_cases:
  assumes "record_phase env to note c = (u, c')"
  obtains "c' = c" "u = Inr () \<Longrightarrow> (\<exists>h. ct_handoff c = Some h \<and> ho_phase h = to)"
  | h k m where "ct_handoff c = Some h" "ct_campaign c = Some k" "ct_manifest c = Some m" "validate_handoff_transition (ho_phase h) to = Ok" "ho_phase h \<noteq> to"
      "log_phase env to note h (moved_controller to note h c) = (u, c')"
proof (cases "ct_handoff c = None \<or> ct_campaign c = None \<or> ct_manifest c = None")
  case True
  then have "record_phase env to note c = act_fail NotFound c" by (auto simp: record_phase_def split: option.splits)
  with assms show ?thesis by (auto simp: act_fail_def intro: that(1))
next
  case False
  then obtain h k m where s: "ct_handoff c = Some h" "ct_campaign c = Some k" "ct_manifest c = Some m" by auto
  show ?thesis
  proof (cases "validate_handoff_transition (ho_phase h) to = Ok \<and> ho_phase h \<noteq> to")
    case True
    then have "log_phase env to note h (moved_controller to note h c) = (u, c')"
      using assms s by (simp add: record_phase_def act_then_def [of "act_check _"] act_bind_def [of "act_check _"] act_check_def read_clock_run
          log_phase_def moved_controller_def Let_def)
    then show ?thesis using s True by (intro that(2)) auto
  next
    case False
    then show ?thesis
      using assms s by (intro that(1))
        (auto simp: record_phase_def act_then_def [of "act_check _"] act_bind_def [of "act_check _"] act_check_def act_return_def split: if_splits)
  qed
qed

lemma log_phase_runs: "steps runs_to (log_phase env to note h)"
proof (rule stepsI)
  fix c c' u
  assume "log_phase env to note h c = (u, c')"
  then show "runs_to c c'" unfolding log_phase_def
    by (rule stepsD [rotated]) (intro run_intros run_steps)
qed

lemma record_phase_runs [run_steps]:
  assumes "is_forward_phase to"
  shows "steps runs_to (record_phase env to note)"
proof (rule stepsI)
  fix c c' u
  assume "record_phase env to note c = (u, c')"
  then show "runs_to c c'"
  proof (cases rule: record_phase_cases)
    case 1
    then show ?thesis by (simp add: cr.refl)
  next
    case (2 h k m)
    have "next_phase (ho_phase h) = Some to" using validate_Ok_cases [OF 2(4)] 2(5) assms by auto
    then have "runs_to c (moved_controller to note h c)"
      using 2(1,2) by (intro runs_to_protocol)
        (auto simp: moved_controller_def protocol_view_def phase_moved_def Let_def intro!: protocol_step.forward)
    then show ?thesis using stepsD [OF log_phase_runs 2(6)] by (rule cr.trans)
  qed
qed

definition rewound_controller ::
  "IncarnationId \<Rightarrow> IncarnationId \<Rightarrow> HandoffPhase \<Rightarrow> string \<Rightarrow> HandoffRecord \<Rightarrow> 'w EvolutionController \<Rightarrow> 'w EvolutionController" where
  "rewound_controller predecessor successor to note h c =
     c\<lparr>ct_ticks := Suc (Suc (ct_ticks c)),
       ct_handoff := Some (handoff_rewound predecessor successor to note (ho_attempt h + 1) (ct_clock c (ct_ticks c)) (ct_clock c (Suc (ct_ticks c))) h),
       ct_predecessor_history := (if ho_predecessor h \<noteq> predecessor then ct_predecessor_history c @ [ho_predecessor h]
                                  else ct_predecessor_history c)\<rparr>"

lemma restart_handoff_runs:
  assumes h: "ct_handoff c = Some h" "is_forward_phase (ho_phase h)" "\<not> reached h AuthorityTransferred"
    and r: "restart_handoff env predecessor successor to note c = (u, c')"
  shows "runs_to c c'"
proof (cases "(to = NotStarted \<or> to = Prepared) \<and> ho_attempt h < kMaxHandoffRestarts")
  case False
  then have "c' = c"
    using r h(1) by (auto simp: restart_handoff_def act_bind_def [of "act_result _"] act_result_def act_then_def [of "act_check _"]
        act_bind_def [of "act_check _"] act_check_def split: if_splits)
  then show ?thesis by (simp add: cr.refl)
next
  case True
  define rest where "rest = act_then (log_event env Reconciliation (ho_shard h) (ho_epoch h) (ho_generation h)
         (json_object [(''handoff'', JUInt (ho_id h)), (''reason'', JString ''participant incarnation replaced''), (''note'', JString note),
            (''rewind_to'', JString (phase_name to)), (''predecessor'', JString (incarnation_to_string predecessor)),
            (''successor'', JString (incarnation_to_string successor))])) (controller_save env)"
  have small: "ho_attempt h < 8" using True by (simp add: kMaxHandoffRestarts_def)
  have n: "tagged_next (ho_attempt h) = Some (ho_attempt h + 1)"
    using small by (auto simp: tagged_next_def)
  let ?c = "rewound_controller predecessor successor to note h c"
  have "rest ?c = (u, c')"
    using r h(1) True n by (auto simp: restart_handoff_def act_bind_def [of "act_result _"] act_result_def act_then_def [of "act_check _"]
        act_bind_def [of "act_check _"] act_check_def read_clock_run rewound_controller_def rest_def split: if_splits)
  moreover have "steps runs_to rest" unfolding rest_def by (intro run_intros run_steps)
  moreover have "runs_to c ?c"
    using h True by (intro runs_to_protocol)
      (auto simp: rewound_controller_def protocol_view_def handoff_rewound_def Let_def intro!: protocol_step.rewind)
  ultimately show ?thesis using stepsD cr.trans by metis
qed

section \<open>The operations\<close>

lemma planning_runs [run_steps]: "steps runs_to (establish_shard env shard)"
  unfolding establish_shard_def by (intro run_intros run_steps)

lemma bind_nodes_runs [run_steps]: "steps runs_to (bind_nodes env)"
  unfolding bind_nodes_def by (intro run_intros run_steps) simp_all

lemma delivery_runs [run_steps]:
  "steps runs_to (grant_and_deliver env m endpoint report)" "steps runs_to (renew_and_deliver env m endpoint current)"
  unfolding grant_and_deliver_def renew_and_deliver_def by (intro run_intros run_steps)+

lemma ensure_holder_runs [run_steps]: "steps runs_to (ensure_holder_authority env endpoint report)"
  unfolding ensure_holder_authority_def by (intro run_intros run_steps)

lemma ensure_authority_runs [run_steps]:
  "steps runs_to (ensure_predecessor_authority env)" "steps runs_to (ensure_successor_authority env)"
  unfolding ensure_predecessor_authority_def ensure_successor_authority_def by (intro run_intros run_steps)+

lemma preflight_checks_runs [run_steps]: "steps runs_to (preflight_checks env m)"
  unfolding preflight_checks_def by (intro run_intros run_steps)

lemma current_source_claim_runs [run_steps]: "steps runs_to current_source_claim" "steps runs_to required_claim"
  unfolding required_claim_def current_source_claim_def by (intro run_intros run_steps)+

lemma acknowledge_all_runs [run_steps]: "steps runs_to (acknowledge_all shard i fs)"
  by (induction fs) (simp_all only: acknowledge_all.simps, (intro run_intros run_steps; assumption?)+)

lemma revoke_replaced_runs [run_steps]: "steps runs_to (revoke_replaced env shard view)"
  unfolding revoke_replaced_def by (intro run_intros run_steps)

lemma value_below_transfer:
  "phase_value (ho_phase h) < phase_value AuthorityTransferred \<longleftrightarrow> is_forward_phase (ho_phase h) \<and> \<not> reached h AuthorityTransferred"
  by (cases "ho_phase h") (simp_all add: reached_def phase_rank_def kForwardPhases_def is_forward_phase_def)

lemma rebind_handoff_runs:
  assumes "ct_handoff c = Some h" "rebind_handoff env c = (u, c')"
  shows "runs_to c c'"
proof -
  let ?r = "replaced_in (ho_predecessor h) (ct_last_source_report c) \<and> phase_value (ho_phase h) < phase_value PredecessorFenced"
  let ?s = "replaced_in (ho_successor h) (ct_last_target_report c)"
  consider (restart) p s to n where "restart_handoff env p s to n c = (u, c')" "phase_value (ho_phase h) < phase_value AuthorityTransferred"
    | (bind) i where "act_then (update_handoff (\<lambda>h. h\<lparr>ho_successor := i\<rparr>)) (controller_save env) c = (u, c')"
    | (none) "c' = c"
    using assms by (cases ?r; cases ?s) (auto simp: rebind_handoff_def act_return_def split: if_splits)
  then show ?thesis
  proof cases
    case restart
    then show ?thesis using restart_handoff_runs [OF assms(1)] value_below_transfer by blast
  next
    case (bind i)
    have "steps runs_to (act_then (update_handoff (\<lambda>h. h\<lparr>ho_successor := i\<rparr>)) (controller_save env))"
      by (intro run_intros run_steps) simp_all
    then show ?thesis using bind by (rule stepsD)
  next
    case none
    then show ?thesis by (simp add: cr.refl)
  qed
qed

section \<open>Operations that leave the handoff alone\<close>

named_theorems keep_steps

lemma outside_keeps [keep_steps]:
  "steps same_protocol read_clock" "steps same_protocol read_text" "steps same_protocol mint_token" "steps same_protocol (controller_disk f)"
  "steps same_protocol (append_event env e)" "steps same_protocol (node_call env endpoint op body)" "steps same_protocol (on_registry g)"
  by (auto intro!: stepsI
      simp: read_clock_def read_text_def mint_token_def controller_disk_def append_event_def node_call_def on_registry_def same_protocol_def protocol_view_def Let_def
      split: prod.splits)

lemma registry_grant_keeps [keep_steps]: "steps same_protocol (registry_grant req)"
  by (auto intro!: stepsI simp: registry_grant_def read_clock_run act_bind_def [of mint_token] mint_token_def same_protocol_def protocol_view_def split: prod.splits)

lemma keeps_modify: "(\<And>c. ct_handoff (f c) = ct_handoff c \<and> ct_campaign (f c) = ct_campaign c) \<Longrightarrow> steps same_protocol (act_modify f)"
  by (intro sp.steps_modify) (simp add: same_protocol_def protocol_view_def)

lemmas keep_rules =
  sp.steps_bind sp.steps_then sp.steps_pure sp.steps_inner sp.steps_if sp.steps_option sp.steps_sum sp.steps_prod sp.steps_let keeps_modify

lemma log_and_save_keep [keep_steps]:
  "steps same_protocol (log_event env kind shard epoch generation payload)" "steps same_protocol (controller_save env)"
  unfolding log_event_def controller_save_def by (intro keep_rules keep_steps)+

lemma reports_keep [keep_steps]:
  "steps same_protocol (node_report env endpoint)" "steps same_protocol (registry_view shard)"
  unfolding node_report_def registry_view_def by (intro keep_rules keep_steps)+

lemma bind_nodes_keeps [keep_steps]: "steps same_protocol (bind_nodes env)"
  unfolding bind_nodes_def by (intro keep_rules keep_steps) simp_all

lemma registry_ops_keep [keep_steps]:
  "steps same_protocol (registry_request_fence shard target reason)" "steps same_protocol (registry_acknowledge shard holder fence)"
  "steps same_protocol (registry_reattest shard holder token)"
  unfolding registry_request_fence_def registry_acknowledge_def registry_reattest_def by (intro keep_rules keep_steps)+

lemma acknowledge_all_keeps [keep_steps]: "steps same_protocol (acknowledge_all shard i fs)"
  by (induction fs) (simp_all only: acknowledge_all.simps, (intro keep_rules keep_steps; assumption?)+)

lemma revoke_replaced_keeps [keep_steps]: "steps same_protocol (revoke_replaced env shard view)"
  unfolding revoke_replaced_def by (intro keep_rules keep_steps)

lemma restore_predecessor_keeps [keep_steps]: "steps same_protocol (restore_predecessor env m s h)"
  unfolding restore_predecessor_def by (intro keep_rules keep_steps)

lemma restore_predecessor_runs [run_steps]: "steps runs_to (restore_predecessor env m s h)"
  unfolding restore_predecessor_def by (intro run_intros run_steps)

lemma keeps_handoff: "steps same_protocol m \<Longrightarrow> steps same_handoff m"
  by (auto simp: steps_def same_protocol_def same_handoff_def protocol_view_def)

lemma apply_action_keeps_handoff: "steps same_handoff (apply_action env action)"
proof -
  have "steps same_handoff (defer_action env d)" "steps same_handoff (record_action env action k d)" for d k
    unfolding defer_action_def record_action_def by (intro keeps_handoff keep_rules keep_steps; simp)+
  then show ?thesis unfolding apply_action_def
    by (intro sh.steps_intros keeps_handoff [OF outside_keeps(1)]) (simp_all add: same_handoff_def)
qed

lemma keeps_reads [keep_steps]:
  "steps same_protocol current_manifest" "steps same_protocol current_handoff" "steps same_protocol source_endpoint"
  "steps same_protocol target_endpoint" "steps same_protocol shard_of"
  unfolding current_manifest_def current_handoff_def source_endpoint_def target_endpoint_def shard_of_def by (intro sp.steps_pure)+

lemma peer_hello_keeps [keep_steps]: "steps same_protocol (peer_hello env endpoint)"
  unfolding peer_hello_def by (intro keep_rules keep_steps)

lemma establish_shard_keeps [keep_steps]: "steps same_protocol (establish_shard env shard)"
  unfolding establish_shard_def by (intro keep_rules keep_steps)

lemma delivery_keeps [keep_steps]:
  "steps same_protocol (grant_and_deliver env m endpoint report)" "steps same_protocol (renew_and_deliver env m endpoint current)"
  unfolding grant_and_deliver_def renew_and_deliver_def by (intro keep_rules keep_steps)+

lemma ensure_holder_keeps [keep_steps]: "steps same_protocol (ensure_holder_authority env endpoint report)"
  unfolding ensure_holder_authority_def by (intro keep_rules keep_steps)

lemma ensure_predecessor_keeps [keep_steps]: "steps same_protocol (ensure_predecessor_authority env)"
  unfolding ensure_predecessor_authority_def by (intro keep_rules keep_steps)

lemma preflight_checks_keep [keep_steps]: "steps same_protocol (preflight_checks env m)"
  unfolding preflight_checks_def by (intro keep_rules keep_steps)

section \<open>The guarded operations\<close>

lemma reconcile_incarnations_runs [run_steps]: "steps runs_to (reconcile_incarnations env)"
proof (rule stepsI)
  fix c c' u
  assume r: "reconcile_incarnations env c = (u, c')"
  show "runs_to c c'"
  proof (cases "ct_manifest c = None \<or> ct_handoff c = None")
    case True
    then have "c' = c" using r by (auto simp: reconcile_incarnations_def act_return_def split: option.splits)
    then show ?thesis by (simp add: cr.refl)
  next
    case False
    then obtain m h where mh: "ct_manifest c = Some m" "ct_handoff c = Some h" by auto
    obtain v c1 where v: "registry_view (mf_shard m) c = (v, c1)" by fastforce
    have c1: "runs_to c c1" "ct_handoff c1 = Some h"
      using stepsD [OF registry_view_runs v] stepsD [OF reports_keep(2) v] mh by (auto simp: same_protocol_def protocol_view_def)
    have r1: "(case v of Inl _ \<Rightarrow> act_return () | Inr v \<Rightarrow> act_then (revoke_replaced env (mf_shard m) v) (rebind_handoff env)) c1 = (u, c')"
      using r mh v by (simp add: reconcile_incarnations_def act_bind_def [of "act_try _"] act_try_def)
    show ?thesis
    proof (cases v)
      case (Inl e)
      then show ?thesis using r1 c1 by (simp add: act_return_def)
    next
      case (Inr w)
      obtain x c2 where x: "revoke_replaced env (mf_shard m) w c1 = (x, c2)" by fastforce
      have c2: "runs_to c c2" "ct_handoff c2 = Some h"
        using cr.trans [OF c1(1) stepsD [OF revoke_replaced_runs x]] stepsD [OF revoke_replaced_keeps x] c1
        by (auto simp: same_protocol_def protocol_view_def)
      have "c' = c2 \<or> rebind_handoff env c2 = (u, c')"
        using r1 Inr x by (cases x) (auto simp: act_then_def act_bind_def)
      then show ?thesis using c2 cr.trans [OF c2(1) rebind_handoff_runs [OF c2(2)]] by auto
    qed
  qed
qed

section \<open>The phases of a handoff\<close>

lemma refresh_reports_runs [run_steps]: "steps runs_to (refresh_reports env)"
  unfolding refresh_reports_def by (intro run_intros run_steps) simp_all

lemma early_phases_run [run_steps]:
  "steps runs_to (advance_prepared env)" "steps runs_to (advance_snapshot env)" "steps runs_to (apply_round env entries)"
  "steps runs_to (advance_readiness env)"
  unfolding advance_prepared_def advance_snapshot_def apply_round_def advance_readiness_def
  by ((intro run_intros run_steps; simp add: is_forward_phase_def)+)[4]

lemma catch_up_loop_runs [run_steps]: "steps runs_to (catch_up_loop env rounds refreshes lsn)"
proof (induction rounds arbitrary: refreshes lsn)
  case 0
  show ?case unfolding catch_up_loop.simps by (intro run_intros)
next
  case (Suc rounds)
  show ?case unfolding catch_up_loop.simps by (intro run_intros run_steps Suc.IH) simp_all
qed

lemma migrate_successor_runs [run_steps]: "steps runs_to (migrate_successor env)"
  unfolding migrate_successor_def by (intro run_intros run_steps) simp_all

lemma advance_catch_up_runs [run_steps]: "steps runs_to (advance_catch_up env)"
  unfolding advance_catch_up_def by (intro run_intros run_steps) (simp_all add: is_forward_phase_def)

lemma acknowledge_reported_runs [run_steps]: "steps runs_to (acknowledge_reported env shard predecessor fs)"
  by (induction fs) (simp_all only: acknowledge_reported.simps, (intro run_intros run_steps; assumption?)+)

lemma fence_runs [run_steps]:
  "steps runs_to (fence_to_deliver env shard predecessor view)" "steps runs_to (defer_fence env)"
  unfolding fence_to_deliver_def defer_fence_def by (intro run_intros run_steps; simp)+

lemma deliver_fence_runs [run_steps]: "steps runs_to (deliver_fence env shard h f)"
  unfolding deliver_fence_def by (intro run_intros run_steps) (simp_all add: is_forward_phase_def)

lemma advance_fence_runs [run_steps]: "steps runs_to (advance_fence env)"
  unfolding advance_fence_def by (intro run_intros run_steps) (simp_all add: is_forward_phase_def)

lemma final_catch_up_runs [run_steps]: "steps runs_to (final_catch_up env rounds lsn)"
proof (induction rounds)
  case 0
  show ?case unfolding final_catch_up.simps by (intro run_intros)
next
  case (Suc rounds)
  show ?case unfolding final_catch_up.simps by (intro run_intros run_steps Suc.IH)
qed

lemma deliver_transfer_runs [run_steps]: "steps runs_to (deliver_transfer env m h ttl lease)"
  unfolding deliver_transfer_def by (intro run_intros run_steps) (simp_all add: is_forward_phase_def)

lemma advance_transfer_runs [run_steps]: "steps runs_to (advance_transfer env)"
  unfolding advance_transfer_def by (intro run_intros run_steps) simp_all

lemma verification_runs [run_steps]: "steps runs_to (probe_predecessor env)" "steps runs_to (recorded_authority shard)"
  unfolding probe_predecessor_def recorded_authority_def by (intro run_intros run_steps)+

lemma late_phases_run [run_steps]: "steps runs_to (advance_verify env)" "steps runs_to (advance_retire env)"
  unfolding advance_verify_def advance_retire_def by (intro run_intros run_steps; simp add: is_forward_phase_def)+

lemma advance_phase_runs [run_steps]: "steps runs_to (advance_phase env phase)"
  unfolding advance_phase_def by (cases phase) (simp_all only: HandoffPhase.case, (intro run_intros run_steps)+)

section \<open>Campaigns\<close>

lemma remember_and_open_run [run_steps]: "steps runs_to (remember_claim shard)" "steps runs_to (open_window env m)"
  unfolding remember_claim_def open_window_def by (intro run_intros run_steps; simp)+

lemma create_handoff_runs: "ct_handoff c = None \<Longrightarrow> runs_to c (create_handoff m now c)"
  by (rule runs_to_protocol)
    (auto simp: create_handoff_def handoff_new_def handoff_none_def protocol_view_def Let_def option.map_comp comp_def intro!: protocol_step.begin_at)

lemma begin_handoff_runs [run_steps]: "steps runs_to (begin_handoff env)"
proof (rule stepsI)
  fix c c' u
  assume b: "begin_handoff env c = (u, c')"
  show "runs_to c c'"
  proof (cases "ct_manifest c = None \<or> ct_campaign c = None \<or> ct_handoff c \<noteq> None")
    case True
    then have "c' = c" using b by (auto simp: begin_handoff_def act_return_def act_fail_def split: option.splits)
    then show ?thesis by (simp add: cr.refl)
  next
    case False
    then obtain m k where mk: "ct_manifest c = Some m" "ct_campaign c = Some k" "ct_handoff c = None" by auto
    define start where "start = act_then (apply_action env Start) (bind_nodes env)"
    define rest where "rest = act_then (ensure_predecessor_authority env) (act_then (remember_claim (mf_shard m))
      (act_then (open_window env m) (controller_save env)))"
    have start: "steps runs_to start" "steps same_handoff start" unfolding start_def
      by (intro run_intros run_steps, intro sh.steps_then apply_action_keeps_handoff keeps_handoff bind_nodes_keeps)
    have rest: "steps runs_to rest" unfolding rest_def by (intro run_intros run_steps)
    have "act_then start (act_bind read_clock (\<lambda>now. act_then (act_modify (create_handoff m now)) rest)) c = (u, c')"
      using b mk by (simp add: begin_handoff_def start_def rest_def act_then_assoc)
    then show ?thesis
    proof (cases rule: act_then_cases)
      case (stopped e)
      then show ?thesis using stepsD [OF start(1)] by blast
    next
      case (continued d)
      let ?d = "d\<lparr>ct_ticks := Suc (ct_ticks d)\<rparr>"
      have "ct_handoff ?d = None" using stepsD [OF start(2) continued(1)] mk by (simp add: same_handoff_def)
      note made = create_handoff_runs [OF this, of m "ct_clock d (ct_ticks d)"]
      have "runs_to d ?d" by (rule runs_to_quiet) (simp_all add: protocol_view_def)
      moreover have "rest (create_handoff m (ct_clock d (ct_ticks d)) ?d) = (u, c')" using continued(2) by (simp add: read_clock_run)
      ultimately show ?thesis using stepsD [OF start(1) continued(1)] made stepsD [OF rest] cr.trans by blast
    qed
  qed
qed

lemma renewal_runs [run_steps]: "steps runs_to (renew_authority env)" "steps runs_to (within_window env)"
  unfolding renew_authority_def within_window_def by (intro run_intros run_steps)+

lemma advance_runs [run_steps]: "steps runs_to (advance_handoff env)" "steps runs_to (advance env)"
proof -
  show "steps runs_to (advance_handoff env)" unfolding advance_handoff_def by (intro run_intros run_steps)
  then show "steps runs_to (advance env)" unfolding advance_def by (intro run_intros run_steps)
qed

lemma run_loop_runs [run_steps]: "steps runs_to (run_loop env n)"
proof (induction n)
  case 0
  show ?case unfolding run_loop.simps by (intro run_intros)
next
  case (Suc n)
  show ?case unfolding run_loop.simps by (intro run_intros run_steps Suc.IH)
qed

lemma start_runs [run_steps]: "steps runs_to (start env)"
  unfolding start_def by (intro run_intros run_steps)

lemma campaign_ops_run [run_steps]: "steps runs_to (run_to_completion env)" "steps runs_to (pause env)" "steps runs_to (resume env)"
proof -
  show "steps runs_to (run_to_completion env)" unfolding run_to_completion_def by (intro run_intros run_steps)
  then show "steps runs_to (pause env)" "steps runs_to (resume env)" unfolding pause_def resume_def by (intro run_intros run_steps)+
qed

section \<open>Aborting and reconciling\<close>

lemma roll_back_runs:
  fixes c :: "'w EvolutionController"
  assumes campaign: "map_option ca_state (ct_campaign c) = Some Aborting" and r: "roll_back env m c = (u, c')"
  shows "runs_to c c'"
proof -
  define restore where "restore = (case (ct_source_endpoint c, ct_handoff c) of
     (Some s, Some h) \<Rightarrow> act_ignore (restore_predecessor env m s h) | _ \<Rightarrow> act_return ())"
  define retire where "retire = (case (ct_target_endpoint c, ct_handoff c) of
          (Some t, Some h) \<Rightarrow> act_ignore (node_call env t ''node.retire'' (json_object [(''handoff'', JUInt (ho_id h))]))
        | _ \<Rightarrow> act_return ())"
  define finish :: "(unit, 'w) ctl" where "finish = (if ct_handoff c = None then act_return ()
      else
        act_bind read_clock (\<lambda>now.
        update_handoff (\<lambda>h. h\<lparr>ho_phase := PhaseAborted, ho_updated_at_ms := now, ho_last_error := ''campaign aborted before authority moved''\<rparr>)))"
  have before: "steps runs_to (act_then restore retire)" "steps same_protocol (act_then restore retire)"
    unfolding restore_def retire_def by (intro run_intros run_steps, intro keep_rules keep_steps)
  have "act_then (act_then restore retire) finish c = (u, c')"
    using r by (simp add: roll_back_def restore_def retire_def finish_def act_then_assoc)
  then show ?thesis
  proof (cases rule: act_then_cases)
    case (stopped e)
    then show ?thesis using stepsD [OF before(1)] by blast
  next
    case (continued d)
    have d: "runs_to c d" "protocol_view d = protocol_view c"
      using stepsD [OF before(1) continued(1)] stepsD [OF before(2) continued(1)] by (simp_all add: same_protocol_def)
    show ?thesis
    proof (cases "ct_handoff d")
      case None
      then have "c' = d" using continued(2) d(2) by (simp add: finish_def protocol_view_def act_return_def)
      then show ?thesis using d(1) by simp
    next
      case (Some h)
      then have "ct_handoff c = Some h" using d(2) by (simp add: protocol_view_def)
      with Some have c': "c' = d\<lparr>ct_ticks := Suc (ct_ticks d), ct_handoff := Some (h\<lparr>ho_phase := PhaseAborted, ho_updated_at_ms := ct_clock d (ct_ticks d),
          ho_last_error := ''campaign aborted before authority moved''\<rparr>)\<rparr>"
        using continued(2) by (simp add: finish_def read_clock_run update_handoff_def act_modify_def)
      have "map_option ca_state (ct_campaign d) = Some Aborting" using campaign d(2) by (simp add: protocol_view_def)
      then have "runs_to d c'"
        using Some by (intro runs_to_protocol) (auto simp: c' protocol_view_def intro!: protocol_step.roll_back)
      then show ?thesis using d(1) cr.trans by blast
    qed
  qed
qed

lemma record_action_keeps: "steps same_protocol (record_action env action k d)"
  unfolding record_action_def by (intro keep_rules keep_steps)

lemma defer_action_fails: "defer_action env d c = (u, c') \<Longrightarrow> u = Inl NotReady"
  unfolding defer_action_def read_clock_run by (auto simp: act_ignore_def act_then_def act_bind_def act_fail_def act_modify_def)

lemma apply_action_Inr:
  assumes "apply_action env action c = (Inr (), c')"
  obtains k m d where "ct_campaign c = Some k" "ct_manifest c = Some m" "d = campaign_decision action k m (ct_handoff c)" "accepted d" "\<not> deferred d"
    "map_option ca_state (ct_campaign c') = Some (next_state d)" "ct_handoff c' = ct_handoff c"
    "record_action env action k d (campaign_after_action action d k c) = (Inr (), c')"
  using assms
proof (cases rule: apply_action_cases)
  case (3 k m d)
  have "protocol_view c' = (ct_handoff c, Some (next_state d))"
    using stepsD [OF record_action_keeps 3(6)] by (simp add: same_protocol_def protocol_view_def campaign_after_action_def campaign_moved_def)
  then show ?thesis using that 3 by (simp add: protocol_view_def)
qed (auto dest: defer_action_fails)

lemma abort_decision: "accepted (campaign_decision Abort k m handoff) \<Longrightarrow> next_state (campaign_decision Abort k m handoff) \<in> {Aborting, ForwardRecovery}"
  by (auto simp: campaign_decision_def evaluate_campaign_action_def reject_def accept_def split: if_splits)

lemma abort_cases:
  assumes "abort env c = (u, c')"
  obtains (none) "c' = c" "\<And>x. u \<noteq> Inr x" "ct_manifest c = None \<or> ct_campaign c = None"
  | (refused) e where "apply_action env Abort c = (Inl e, c')" "u = Inl e"
  | (forward) d where "apply_action env Abort c = (Inr (), d)" "map_option ca_state (ct_campaign d) = Some ForwardRecovery" "run_to_completion env d = (u, c')"
  | (restore) m d where "ct_manifest c = Some m" "apply_action env Abort c = (Inr (), d)" "map_option ca_state (ct_campaign d) = Some Aborting"
      "act_then (roll_back env m) (act_then (apply_action env ConfirmAbort) (controller_save env)) d = (u, c')"
proof (cases "ct_manifest c = None \<or> ct_campaign c = None")
  case True
  then show ?thesis using assms none by (auto simp: abort_def act_fail_def split: option.splits)
next
  case False
  then obtain m k where mk: "ct_manifest c = Some m" "ct_campaign c = Some k" by auto
  define rest where "rest = (\<lambda>state. if state = Aborted then act_return ()
              else if state = ForwardRecovery then run_to_completion env
              else
                act_then (roll_back env m)
                (act_then (apply_action env ConfirmAbort) (controller_save env)))"
  have "act_then (apply_action env Abort) (act_bind (act_get (\<lambda>c. ca_state (the (ct_campaign c)))) rest) c = (u, c')"
    using assms mk by (simp add: abort_def rest_def)
  then show ?thesis
  proof (cases rule: act_then_cases)
    case (stopped e)
    then show ?thesis by (rule refused)
  next
    case (continued d)
    from continued(1) obtain k m' x where x: "x = campaign_decision Abort k m' (ct_handoff c)" "accepted x"
        "map_option ca_state (ct_campaign d) = Some (next_state x)" by (rule apply_action_Inr) blast
    then have s: "next_state x \<in> {Aborting, ForwardRecovery}" using abort_decision by blast
    have "rest (next_state x) d = (u, c')" using continued(2) x(3) by auto
    then show ?thesis using s x(3) continued(1) mk by (auto simp: rest_def intro: forward restore)
  qed
qed

lemma abort_runs [run_steps]: "steps runs_to (abort env)"
proof (rule stepsI)
  fix c c' u
  assume "abort env c = (u, c')"
  then show "runs_to c c'"
  proof (cases rule: abort_cases)
    case none
    then show ?thesis by (simp add: cr.refl)
  next
    case (refused e)
    then show ?thesis using stepsD [OF apply_action_runs] by blast
  next
    case (forward d)
    then show ?thesis using stepsD [OF apply_action_runs] stepsD [OF campaign_ops_run(1)] cr.trans by blast
  next
    case (restore m d)
    have cd: "runs_to c d" using stepsD [OF apply_action_runs restore(2)] .
    from restore(4) show ?thesis
    proof (cases rule: act_then_cases)
      case (stopped e)
      then show ?thesis using cd roll_back_runs [OF restore(3)] cr.trans by blast
    next
      case (continued x)
      have confirm: "steps runs_to (act_then (apply_action env ConfirmAbort) (controller_save env))" by (intro run_intros run_steps)
      have "runs_to d x" by (rule roll_back_runs [OF restore(3) continued(1)])
      then show ?thesis using cd stepsD [OF confirm continued(2)] cr.trans by blast
    qed
  qed
qed

lemma reconcile_parts_run [run_steps]:
  "steps runs_to (reconcile_authority env)" "steps runs_to (reconcile_transfer env shard)" "steps runs_to (reconcile_fence env)"
  unfolding reconcile_authority_def reconcile_transfer_def reconcile_fence_def
  by (intro run_intros run_steps; simp add: is_forward_phase_def)+

lemma reconcile_replacement_runs:
  assumes "ct_handoff c = Some h" "reconcile_replacement env c = (u, c')"
  shows "runs_to c c'"
proof (cases "phase_value (ho_phase h) < phase_value PredecessorFenced \<and> \<not> is_terminal_phase (ho_phase h) \<and>
    incarnation_provably_replaced (ho_predecessor h) (nr_incarnation (the (ct_last_source_report c)))")
  case True
  then have "is_forward_phase (ho_phase h) \<and> \<not> reached h AuthorityTransferred" using value_below_transfer [of h] by simp
  moreover have "restart_handoff env (nr_incarnation (the (ct_last_source_report c))) (ho_successor h) NotStarted
         ''reconciled after restart: the predecessor is a new incarnation'' c = (u, c')"
    using assms True by (simp add: reconcile_replacement_def)
  ultimately show ?thesis using restart_handoff_runs [OF assms(1)] by blast
next
  case False
  then have "c' = c" using assms by (auto simp: reconcile_replacement_def act_return_def)
  then show ?thesis by (simp add: cr.refl)
qed

text \<open>A handoff that is there stays there.\<close>

lemma protocol_handoff_stays: "protocol_step\<^sup>*\<^sup>* x y \<Longrightarrow> fst x \<noteq> None \<Longrightarrow> fst y \<noteq> None"
  by (induction rule: rtranclp_induct) (auto elim!: protocol_step.cases)

lemma runs_to_handoff: "runs_to c c' \<Longrightarrow> ct_handoff c \<noteq> None \<Longrightarrow> ct_handoff c' \<noteq> None"
  unfolding runs_to_def using protocol_handoff_stays [of "protocol_view c" "protocol_view c'"] by (simp add: protocol_view_def)

lemma reconcile_runs [run_steps]:
  fixes env :: "'w ControllerEnv"
  shows "steps runs_to (reconcile env)"
proof -
  define finish :: "EvolutionManifest \<Rightarrow> (unit, 'w) ctl" where "finish = (\<lambda>m.
          act_bind (act_get (\<lambda>c. (epoch_or 0 (mf_shard m) (ct_authority c), generation_or 0 (mf_shard m) (ct_authority c),
              phase_name (ho_phase (the (ct_handoff c))), ct_boot c))) (\<lambda>(epoch, generation, phase, b).
           act_then (log_event env Reconciliation (mf_shard m) epoch generation
             (json_object [(''handoff_phase'', JString phase), (''controller_boot'', JUInt b)]))
           (controller_save env)))"
  define first :: "EvolutionManifest \<Rightarrow> (unit, 'w) ctl" where "first = (\<lambda>m. act_then (reconcile_transfer env (mf_shard m)) (reconcile_fence env))"
  have parts: "steps runs_to (finish m)" "steps runs_to (first m)" for m
    unfolding finish_def first_def by (intro run_intros run_steps)+
  have checked: "runs_to c c'" if h: "ct_handoff c \<noteq> None" and r: "act_then (first m) (act_then (reconcile_replacement env) (finish m)) c = (u, c')" for m c c' u
    using r
  proof (cases rule: act_then_cases)
    case (stopped e)
    then show ?thesis using stepsD [OF parts(2)] by blast
  next
    case (continued d)
    have d: "runs_to c d" by (rule stepsD [OF parts(2) continued(1)])
    then obtain h where h': "ct_handoff d = Some h" using runs_to_handoff h by blast
    from continued(2) show ?thesis
      by (cases rule: act_then_cases) (use d reconcile_replacement_runs [OF h'] stepsD [OF parts(1)] cr.trans in blast)+
  qed
  have "steps runs_to (act_bind (act_get ct_handoff) (\<lambda>handoff. if handoff = None then act_return ()
        else act_then (first m) (act_then (reconcile_replacement env) (finish m))))" for m
  proof (rule stepsI)
    fix c c' u
    assume "act_bind (act_get ct_handoff) (\<lambda>handoff. if handoff = None then act_return ()
        else act_then (first m) (act_then (reconcile_replacement env) (finish m))) c = (u, c')"
    then show "runs_to c c'" using checked [of c m u c'] by (auto simp: act_return_def cr.refl split: if_splits)
  qed
  note tail = this [unfolded first_def finish_def act_then_assoc]
  show ?thesis unfolding reconcile_def by (intro tail run_intros run_steps)
qed

section \<open>Planning and preflight\<close>

text \<open>Steps that leave the protocol alone, up to a change that is a move from the state they were begun in.\<close>

definition runs_under :: "(protocol_state \<Rightarrow> bool) \<Rightarrow> ('a, 'w EvolutionController) action \<Rightarrow> bool" where
  "runs_under Q m = (\<forall>c. Q (protocol_view c) \<longrightarrow> runs_to c (snd (m c)))"

lemma under_bind:
  fixes m :: "('a, 'w EvolutionController) action"
  assumes "steps runs_to m" "steps same_protocol m" "\<And>x. runs_under Q (f x)"
  shows "runs_under Q (act_bind m f)"
  unfolding runs_under_def
proof (intro allI impI)
  fix c :: "'w EvolutionController"
  assume q: "Q (protocol_view c)"
  obtain u c' where r: "act_bind m f c = (u, c')" by fastforce
  then show "runs_to c (snd (act_bind m f c))"
  proof (cases rule: act_bind_cases)
    case (stopped e)
    then show ?thesis using stepsD [OF assms(1) stopped(1)] r by simp
  next
    case (continued x d)
    have "protocol_view d = protocol_view c" using stepsD [OF assms(2) continued(1)] by (simp add: same_protocol_def)
    then have "runs_to d c'" using assms(3) [of x] continued(2) q unfolding runs_under_def by (metis snd_conv)
    then show ?thesis using stepsD [OF assms(1) continued(1)] r cr.trans by simp
  qed
qed

lemma under_then: "steps runs_to m \<Longrightarrow> steps same_protocol m \<Longrightarrow> runs_under Q k \<Longrightarrow> runs_under Q (act_then m k)"
  unfolding act_then_def by (rule under_bind)

lemma under_all: "steps runs_to m \<Longrightarrow> runs_under Q m"
  by (simp add: runs_under_def steps_def)

lemma under_change:
  assumes "\<And>c. Q (protocol_view c) \<Longrightarrow> runs_to c (h c)" "steps runs_to k"
  shows "runs_under Q (act_then (act_modify h) k)"
  using assms cr.trans by (fastforce simp: runs_under_def steps_def)

lemma under_cases:
  "(\<And>e. x = Inl e \<Longrightarrow> runs_under Q (f e)) \<Longrightarrow> (\<And>y. x = Inr y \<Longrightarrow> runs_under Q (g y)) \<Longrightarrow> runs_under Q (case x of Inl e \<Rightarrow> f e | Inr y \<Rightarrow> g y)"
  "(\<And>y z. p = (y, z) \<Longrightarrow> runs_under Q (h y z)) \<Longrightarrow> runs_under Q (case p of (y, z) \<Rightarrow> h y z)"
  by (auto split: sum.splits prod.splits)

lemma refused_check: "status \<noteq> Ok \<Longrightarrow> act_then (act_check status) k c = (Inl status, c)"
  by (simp add: act_then_def act_bind_def act_check_def)

definition may_plan :: "protocol_state \<Rightarrow> bool" where
  "may_plan x = (case snd x of None \<Rightarrow> True | Some t \<Rightarrow> is_terminal_state t)"

lemma plan_campaign_runs [run_steps]:
  fixes env :: "'w ControllerEnv"
  shows "steps runs_to (plan_campaign env manifest)"
proof (rule stepsI)
  fix c c' u
  assume r: "plan_campaign env manifest c = (u, c')"
  show "runs_to c c'"
  proof (cases "may_plan (protocol_view c)")
    case False
    then obtain k where "ct_campaign c = Some k" "\<not> is_terminal_state (ca_state k)"
      by (auto simp: may_plan_def protocol_view_def split: option.splits)
    then have "c' = c" using r by (simp add: plan_campaign_def refused_check)
    then show ?thesis by (simp add: cr.refl)
  next
    case True
    have change: "runs_under may_plan (act_then (act_modify (\<lambda>c. bind_endpoints sealed
        (c\<lparr>ct_manifest := Some sealed, ct_campaign := Some (campaign_new sealed (ct_authority c) updated at)\<rparr>))) (controller_save env))"
      for sealed updated at
    proof (rule under_change [OF _ controller_save_runs])
      fix c :: "'w EvolutionController"
      assume "may_plan (protocol_view c)"
      then have "campaign_move (ct_handoff c) (map_option ca_state (ct_campaign c)) (Some Planned)"
        by (auto simp: may_plan_def protocol_view_def intro!: campaign_move.plan split: option.splits)
      then show "runs_to c (bind_endpoints sealed (c\<lparr>ct_manifest := Some sealed, ct_campaign := Some (campaign_new sealed (ct_authority c) updated at)\<rparr>))"
        by (intro runs_to_protocol) (auto simp: bind_endpoints_def protocol_view_def campaign_new_def intro!: protocol_step.campaign)
    qed
    have "runs_under may_plan (plan_campaign env manifest)"
      unfolding plan_campaign_def by (intro under_bind under_then change run_rules run_steps keep_rules keep_steps)
    with True r show ?thesis unfolding runs_under_def by (metis snd_conv)
  qed
qed

lemma preflight_moves: "apply_action env Preflight c = (Inr (), d) \<Longrightarrow> map_option ca_state (ct_campaign d) = Some Preflighting"
  by (erule apply_action_Inr) (auto simp: campaign_decision_def evaluate_campaign_action_def reject_def accept_def split: if_splits)

lemma preflight_campaign_runs [run_steps]:
  fixes env :: "'w ControllerEnv"
  shows "steps runs_to (preflight_campaign env)"
proof -
  define Q where "Q = (\<lambda>x :: protocol_state. snd x = Some Preflighting)"
  define rest where "rest m = act_bind (act_try (preflight_checks env m)) (\<lambda>checked.
        case checked of
          Inl e \<Rightarrow>
            act_bind read_text (\<lambda>why.
            act_then (act_modify (\<lambda>c. c\<lparr>ct_campaign := map_option (\<lambda>k. k\<lparr>ca_state := Failed, ca_detail := why\<rparr>) (ct_campaign c)\<rparr>))
            (act_then (act_ignore (controller_save env)) (act_fail e)))
        | Inr _ \<Rightarrow> controller_save env)" for m
  have change: "runs_under Q (act_then (act_modify (\<lambda>c. c\<lparr>ct_campaign := map_option (\<lambda>k. k\<lparr>ca_state := Failed, ca_detail := why\<rparr>) (ct_campaign c)\<rparr>))
            (act_then (act_ignore (controller_save env)) (act_fail e)))" for why e
  proof (rule under_change)
    fix c :: "'w EvolutionController"
    assume "Q (protocol_view c)"
    then obtain k where k: "ct_campaign c = Some k" "ca_state k = Preflighting" by (auto simp: Q_def protocol_view_def)
    have "campaign_move (ct_handoff c) (Some Preflighting) (Some Failed)" by (rule campaign_move.fail) (simp add: is_terminal_state_def)
    with k show "runs_to c (c\<lparr>ct_campaign := map_option (\<lambda>k. k\<lparr>ca_state := Failed, ca_detail := why\<rparr>) (ct_campaign c)\<rparr>)"
      by (intro runs_to_protocol) (auto simp: protocol_view_def intro!: protocol_step.campaign)
  qed (intro run_rules run_steps)
  have rest: "runs_under Q (rest m)" for m
    unfolding rest_def
    by (intro under_bind under_cases change run_rules run_steps keep_rules keep_steps under_all [OF controller_save_runs])
  have "steps runs_to (act_then (apply_action env Preflight) (rest m))" for m
  proof (rule stepsI)
    fix c c' u
    assume "act_then (apply_action env Preflight) (rest m) c = (u, c')"
    then show "runs_to c c'"
    proof (cases rule: act_then_cases)
      case (stopped e)
      then show ?thesis using stepsD [OF apply_action_runs] by blast
    next
      case (continued d)
      have "Q (protocol_view d)" using preflight_moves [OF continued(1)] by (simp add: Q_def protocol_view_def)
      then have "runs_to d c'" using rest [of m] continued(2) unfolding runs_under_def by (metis snd_conv)
      then show ?thesis using stepsD [OF apply_action_runs continued(1)] cr.trans by blast
    qed
  qed
  note first = this [unfolded rest_def]
  show ?thesis unfolding preflight_campaign_def by (intro run_rules run_steps first)
qed

section \<open>Requests\<close>

lemma documents_run [run_steps]:
  "steps runs_to window_now" "steps runs_to authority_json" "steps runs_to status_json" "steps runs_to window_topic"
  "steps runs_to (compatibility_topic env)"
proof -
  show a: "steps runs_to window_now" unfolding window_now_def by (intro run_intros run_steps)
  show b: "steps runs_to authority_json"
    by (auto intro!: stepsI runs_to_quiet simp: authority_json_def protocol_view_def)
  show "steps runs_to status_json" "steps runs_to window_topic"
    unfolding status_json_def window_topic_def by (intro run_intros run_steps a b)+
  show "steps runs_to (compatibility_topic env)" unfolding compatibility_topic_def by (intro run_intros run_steps)
qed

lemma admin_runs:
  fixes env :: "'w ControllerEnv"
  shows "steps runs_to (admin env request)"
proof -
  have status: "steps runs_to (run_then_status m)" if "steps runs_to m" for m :: "(unit, 'w) ctl"
    unfolding run_then_status_def by (intro run_intros run_steps that)
  show ?thesis unfolding admin_def explain_topic_def by (intro run_intros run_steps status)
qed

definition run_requests :: "'w ControllerEnv \<Rightarrow> RpcRequest list \<Rightarrow> 'w EvolutionController \<Rightarrow> 'w EvolutionController" where
  "run_requests env requests c = foldl (\<lambda>c request. snd (admin env request c)) c requests"

lemma run_requests_runs: "runs_to c (run_requests env requests c)"
proof (induction requests arbitrary: c)
  case Nil
  show ?case by (simp add: run_requests_def cr.refl)
next
  case (Cons r rs)
  have "runs_to c (snd (admin env r c))" using admin_runs by (auto simp: steps_def)
  moreover have "runs_to (snd (admin env r c)) (run_requests env (r # rs) c)" using Cons [of "snd (admin env r c)"] by (simp add: run_requests_def)
  ultimately show ?case by (rule cr.trans)
qed

end
