(* ===== verification/Controller_Safety.thy ===== *)
theory Controller_Safety
  imports Controller_Steps
begin

text \<open>
  What every request to the controller keeps, whatever the peers answer, the disk does and the clock shows:
  one mutating authority for each shard, an authority axis that only grows, the order of the handoff, and no
  way back once the authority has moved.
\<close>

section \<open>The registry under the controller\<close>

lemma sorted_clock: "mono f \<Longrightarrow> sorted ks \<Longrightarrow> sorted (map f ks)"
  by (induction ks) (auto simp: monoD)

lemma in_service_sound: "list_all in_service ops \<Longrightarrow> loads_sound t ops"
  by (induction ops arbitrary: t) (auto split: registry_op.splits)

lemma runs_to_inv:
  assumes "runs_to c c'" "mono (ct_clock c)" "registry_inv (ct_clock c (ct_ticks c)) (ct_authority c)"
  shows "registry_inv (ct_clock c (ct_ticks c')) (ct_authority c')"
proof -
  obtain ops ks where o: "ct_ticks c \<le> ct_ticks c'" "ct_authority c' = run_ops ops (ct_authority c)" "readings ops = map (ct_clock c) ks"
      "sorted ks" "set ks \<subseteq> {ct_ticks c..<ct_ticks c'}" and service: "list_all in_service ops"
    using assms(1) unfolding runs_to_def registry_runs_def by blast
  let ?t = "ct_clock c (ct_ticks c)"
  have "\<forall>k \<in> set ks. ?t \<le> ct_clock c k" "\<forall>k \<in> set ks. ct_clock c k \<le> ct_clock c (ct_ticks c')"
    using o(5) assms(2) by (auto simp: monoD)
  moreover have "?t \<le> ct_clock c (ct_ticks c')" using assms(2) o(1) by (rule monoD)
  ultimately have "sorted (?t # readings ops)" "last (?t # readings ops) \<le> ct_clock c (ct_ticks c')"
    using sorted_clock [OF assms(2) o(4)] last_in_set [of ks] by (auto simp: o(3) last_map)
  from registry_inv_mono [OF run_inv [OF this(1) in_service_sound [OF service] assms(3)] this(2)] show ?thesis by (simp add: o(2))
qed

lemma shard_stays: "find_shard r s = Some a \<Longrightarrow> in_service op \<Longrightarrow> \<exists>a'. find_shard (apply_op op r) s = Some a'"
  by (cases op)
    (auto simp: establish_def grant_def renew_def request_fence_def acknowledge_fence_def revoke_def reattest_def advance_epoch_def
      with_shard_def find_put_shard find_expire_due split: option.splits prod.splits)

text \<open>C2: One mutating authority under the controller, as long as its clock never goes back. Take a controller whose
  clock readings are monotone and whose registry satisfies its invariant at the present reading. After any
  sequence of administrative requests, whatever the peers answered and the disk did, two claims for the same shard
  that the registry accepts for mutation at a time not before its last reading are the same claim. (The code reads
  the system clock, which may be set back; then a lease that has expired can be live again.)\<close>

theorem controller_single_writer:
  assumes "mono (ct_clock c)" "registry_inv (ct_clock c (ct_ticks c)) (ct_authority c)"
    and "c' = run_requests env requests c" "ct_clock c (ct_ticks c') \<le> now" "claim_shard x = claim_shard y"
    and "validate_claim now x Mutating (ct_authority c') = Ok" "validate_claim now y Mutating (ct_authority c') = Ok"
  shows "x = y"
proof (rule single_writer)
  have "registry_inv (ct_clock c (ct_ticks c')) (ct_authority c')"
    using runs_to_inv [OF run_requests_runs assms(1,2)] by (simp add: assms(3))
  then show "registry_inv now (ct_authority c')" using assms(4) by (rule registry_inv_mono)
qed (use assms in simp_all)

lemma run_ops_axis:
  "find_shard r s = Some a \<Longrightarrow> list_all in_service ops \<Longrightarrow> \<exists>a'. find_shard (run_ops ops r) s = Some a' \<and> axis_le a a'"
proof (induction ops arbitrary: r a)
  case Nil
  then show ?case by (simp add: run_ops_def)
next
  case (Cons op ops)
  then obtain b where b: "find_shard (apply_op op r) s = Some b" using shard_stays by fastforce
  have "axis_le a b" by (rule authority_axis_monotone [OF Cons.prems(1) b]) (use Cons.prems(2) in auto)
  moreover obtain a' where "find_shard (run_ops ops (apply_op op r)) s = Some a'" "axis_le b a'"
    using Cons.IH [OF b] Cons.prems(2) by auto
  ultimately show ?case by (auto simp: run_ops_def axis_le_def)
qed

text \<open>C8: The authority axis only grows. After any sequence of administrative requests a shard the registry knew is
  still known, and its pair (epoch, generation) is lexicographically not smaller.\<close>

theorem controller_axis_monotone:
  assumes "find_shard (ct_authority c) s = Some a"
  shows "\<exists>a'. find_shard (ct_authority (run_requests env requests c)) s = Some a' \<and> axis_le a a'"
proof -
  obtain ops where "ct_authority (run_requests env requests c) = run_ops ops (ct_authority c)" "list_all in_service ops"
    using run_requests_runs [of c env requests] unfolding runs_to_def registry_runs_def by blast
  with run_ops_axis [OF assms, of ops] show ?thesis by simp
qed

section \<open>The protocol under the controller\<close>

text \<open>C3: The controller implements the abstract handoff protocol. Whatever a request answers, the handoff and the
  state of the campaign have moved by steps of the protocol only: bookkeeping that keeps the identity, the phase
  and the attempt of the handoff; the beginning of a handoff, at the first attempt and in the phase before all
  others, when there is none; the next phase; a restart before the authority moved, within the limit of restarts;
  the end of a rollback of an aborting campaign; and the moves of the campaign along the edges of its state
  machine (\<open>campaign_move\<close>: planning over no campaign or a finished one, preflight, start or resumption, pause
  of a running campaign outside the transfer of the authority, abort of one whose authority has not moved and its
  confirmation, forward recovery, completion with a verified successor, failure; only planning leaves a finished
  state). And a handoff that was within the limit of restarts still is.\<close>

theorem controller_refines_protocol:
  assumes "admin env request c = (r, c')"
  shows "protocol_step\<^sup>*\<^sup>* (protocol_view c) (protocol_view c') \<and>
    (attempts_bounded (protocol_view c) \<longrightarrow> attempts_bounded (protocol_view c'))"
proof -
  have "protocol_step\<^sup>*\<^sup>* (protocol_view c) (protocol_view c')"
    using stepsD [OF admin_runs assms] by (simp add: runs_to_def)
  then show ?thesis using protocol_attempts by blast
qed

text \<open>C7: No way back. Once the authority has moved and no rollback is under way, no sequence of requests restarts
  or aborts the handoff or begins a rollback, and the handoff never returns to an earlier phase.\<close>

theorem no_way_back_after_transfer:
  assumes "settled (protocol_view c)"
  shows "settled (protocol_view (run_requests env requests c)) \<and>
    rank_of (protocol_view c) \<le> rank_of (protocol_view (run_requests env requests c))"
  using run_requests_runs [of c env requests] protocol_settled [OF _ assms] by (simp add: runs_to_def)

section \<open>A rollback that was interrupted\<close>

text \<open>The handoff ends aborted when the rollback of an aborting campaign succeeds.\<close>

lemma roll_back_aborts:
  fixes c :: "'w EvolutionController"
  assumes r: "roll_back env m c = (Inr (), c')" and h: "ct_handoff c = Some h"
  shows "\<exists>h'. ct_handoff c' = Some h' \<and> ho_phase h' = PhaseAborted"
proof -
  define restore where "restore = (case (ct_source_endpoint c, ct_handoff c) of
     (Some s, Some h) \<Rightarrow> act_ignore (restore_predecessor env m s h) | _ \<Rightarrow> act_return ())"
  define retire where "retire = (case (ct_target_endpoint c, ct_handoff c) of
          (Some t, Some h) \<Rightarrow> act_ignore (node_call env t ''node.retire'' (json_object [(''handoff'', JUInt (ho_id h))]))
        | _ \<Rightarrow> act_return ())"
  define finish :: "(unit, 'w) ctl" where "finish =
        act_bind read_clock (\<lambda>now.
        update_handoff (\<lambda>h. h\<lparr>ho_phase := PhaseAborted, ho_updated_at_ms := now, ho_last_error := ''campaign aborted before authority moved''\<rparr>))"
  have keeps: "steps same_protocol (act_then restore retire)"
    unfolding restore_def retire_def by (intro keep_rules keep_steps)
  have "act_then (act_then restore retire) finish c = (Inr (), c')"
    using r h by (simp add: roll_back_def restore_def retire_def finish_def act_then_assoc)
  then show ?thesis
  proof (cases rule: act_then_cases)
    case (continued d)
    then have "ct_handoff d = Some h" using stepsD [OF keeps continued(1)] h by (simp add: same_protocol_def protocol_view_def)
    then show ?thesis using continued(2) by (auto simp: finish_def read_clock_run update_handoff_def act_modify_def)
  qed simp
qed

text \<open>C38: A rollback that did not finish does not hold the handoff. A campaign that is aborting is advanced like a
  running one; and a second abort of an aborting campaign that succeeds ends with the handoff aborted whatever
  phase it had reached in between, the transfer of the authority included.\<close>

theorem aborting_campaign_advances_and_rolls_back:
  assumes "ct_campaign c = Some k" "ca_state k = Aborting" "ct_handoff c = Some h" "ct_manifest c = Some m"
  shows "advance env c = advance_handoff env c \<and>
    (abort env c = (Inr (), c') \<longrightarrow> (\<exists>h'. ct_handoff c' = Some h' \<and> ho_phase h' = PhaseAborted))"
proof (intro conjI impI)
  show "advance env c = advance_handoff env c"
    using assms by (simp add: advance_def is_terminal_state_def act_then_def)
next
  assume "abort env c = (Inr (), c')"
  then show "\<exists>h'. ct_handoff c' = Some h' \<and> ho_phase h' = PhaseAborted"
  proof (cases rule: abort_cases)
    case (forward d)
    from forward(1) obtain k' m' x where x: "ct_campaign c = Some k'" "x = campaign_decision Abort k' m' (ct_handoff c)" "accepted x"
        "map_option ca_state (ct_campaign d) = Some (next_state x)" by (rule apply_action_Inr) blast
    then have "next_state x = Aborting"
      using assms by (auto simp: campaign_decision_def evaluate_campaign_action_def accept_def reject_def is_terminal_state_def split: if_splits)
    with x(4) forward(2) show ?thesis by simp
  next
    case (restore m' d)
    from restore(2) have d: "ct_handoff d = Some h" by (rule apply_action_Inr) (simp add: assms(3))
    from restore(4) obtain x where x: "roll_back env m' d = (Inr (), x)"
        "act_then (apply_action env ConfirmAbort) (controller_save env) x = (Inr (), c')" by (rule act_then_cases) auto
    have confirm: "steps same_handoff (act_then (apply_action env ConfirmAbort) (controller_save env))"
      by (intro sh.steps_then apply_action_keeps_handoff keeps_handoff keep_steps)
    have "ct_handoff c' = ct_handoff x" using stepsD [OF confirm x(2)] by (simp add: same_handoff_def)
    with roll_back_aborts [OF x(1) d] show ?thesis by simp
  qed auto
qed

section \<open>A controller that completed a handoff\<close>

text \<open>C37: One handoff per controller. A handoff that has retired its predecessor, with no rollback under way, is the
  handoff of the controller for good: whatever requests follow, the planning and the start of further campaigns
  included, the controller keeps the same handoff in its last phase and begins no other.\<close>

theorem completed_handoff_is_kept_forever:
  assumes "ct_handoff c = Some h" "ho_phase h = PredecessorRetired" "map_option ca_state (ct_campaign c) \<noteq> Some Aborting"
  shows "\<exists>h'. ct_handoff (run_requests env requests c) = Some h' \<and> ho_id h' = ho_id h \<and> ho_phase h' = PredecessorRetired"
proof -
  have "completed_as (ho_id h) (protocol_view c)" using assms by (simp add: completed_as_def protocol_view_def)
  then have "completed_as (ho_id h) (protocol_view (run_requests env requests c))"
    using run_requests_runs [of c env requests] protocol_completed unfolding runs_to_def by blast
  then show ?thesis by (auto simp: completed_as_def protocol_view_def split: option.splits)
qed

end
