(* ===== verification/Controller_Durable.thy ===== *)
theory Controller_Durable
  imports Controller_Safety Node_Safety Authority_Store
begin

text \<open>
  What survives: the state file of the controller round trips, and a phase that was acknowledged is the phase a
  restarted controller resumes from. And what holds outside: a fence that was acknowledged has stopped the
  predecessor, and a verified successor has attested the authority the registry records.
\<close>

section \<open>The state file\<close>

text \<open>The document as it reads back: the format, printed from a signed integer, is read as an unsigned one.\<close>

definition stored_json :: "'w EvolutionController \<Rightarrow> json" where
  "stored_json c = json_set (controller_json c) ''format'' (JUInt 1)"

definition controller_storable :: "'w ControllerEnv \<Rightarrow> 'w EvolutionController \<Rightarrow> bool" where
  "controller_storable env c =
     (json_fits (env_dtoa env) (env_strtod env) default_parse_limits (controller_json c) (Suc (max_depth default_parse_limits)) \<and>
      json_canon (controller_json c) = stored_json c \<and>
      length (dump (env_dtoa env) (controller_json c)) \<le> max_bytes default_parse_limits \<and>
      registry_storable (ct_authority c) \<and> incarnation_wf (ct_incarnation c) \<and>
      pred_option (\<lambda>m. manifest_wf m \<and> decision_verify (env_dtoa env) (mf_compatibility m) = Ok \<and>
        manifest_verify_digest (env_dtoa env) m = Ok) (ct_manifest c) \<and>
      pred_option campaign_wf (ct_campaign c) \<and> pred_option handoff_wf (ct_handoff c) \<and>
      pred_option claim_wf (ct_fenced_predecessor_claim c))"

text \<open>The controller \<open>r\<close> goes on where \<open>c\<close> was; no lease is attested, the reports of the peers are gone.\<close>

definition resumes :: "'w EvolutionController \<Rightarrow> 'w EvolutionController \<Rightarrow> bool" where
  "resumes c r =
     (ct_authority r = unattest_registry (ct_authority c) \<and> ct_manifest r = ct_manifest c \<and> ct_campaign r = ct_campaign c \<and>
      ct_handoff r = ct_handoff c \<and> ct_fenced_predecessor_claim r = ct_fenced_predecessor_claim c \<and>
      ct_next_handoff_id r = ct_next_handoff_id c \<and> ct_next_epoch r = ct_next_epoch c \<and>
      ct_window_start_lsn r = ct_window_start_lsn c \<and> ct_last_deferral_reason r = ct_last_deferral_reason c \<and>
      ct_last_pause_deferral_ms r = ct_last_pause_deferral_ms c \<and>
      ct_incarnation r = ct_incarnation c \<and> ct_boot r = boot (ct_incarnation c) \<and>
      ct_source_endpoint r = map_option (\<lambda>m. endpoint_of ''source'' (mf_source m)) (ct_manifest c) \<and>
      ct_target_endpoint r = map_option (\<lambda>m. endpoint_of ''target'' (mf_target m)) (ct_manifest c))"

lemma stored_json_fields:
  "json_find (stored_json c) ''authority'' = Some (registry_to_json (ct_authority c))"
  "json_find (stored_json c) ''manifest'' = map_option manifest_to_json (ct_manifest c)"
  "json_find (stored_json c) ''campaign'' = map_option campaign_to_json (ct_campaign c)"
  "json_find (stored_json c) ''handoff'' = map_option handoff_to_json (ct_handoff c)"
  "json_find (stored_json c) ''fenced_predecessor_claim'' = map_option claim_to_json (ct_fenced_predecessor_claim c)"
  "json_find (stored_json c) ''controller_incarnation'' = Some (incarnation_to_json (ct_incarnation c))"
  "json_u64_or (stored_json c) ''next_handoff_id'' 1 = ct_next_handoff_id c"
  "json_u64_or (stored_json c) ''next_epoch'' 1 = ct_next_epoch c"
  "json_u64_or (stored_json c) ''window_start_lsn'' 0 = ct_window_start_lsn c"
  "json_string_or (stored_json c) ''last_deferral_reason'' [] = ct_last_deferral_reason c"
  "json_u64_or (stored_json c) ''last_pause_deferral_ms'' 0 = ct_last_pause_deferral_ms c"
  by (simp_all add: stored_json_def controller_json_def set_option_def json_field_defs codec_simps split: option.splits)

text \<open>A controller that has just been constructed.\<close>

definition fresh_controller :: "'w EvolutionController \<Rightarrow> bool" where
  "fresh_controller c =
     (ct_manifest c = None \<and> ct_campaign c = None \<and> ct_handoff c = None \<and> ct_fenced_predecessor_claim c = None \<and>
      ct_source_endpoint c = None \<and> ct_target_endpoint c = None)"

lemma load_member_present:
  "json_find j key = map_option f x \<Longrightarrow> (\<And>v. x = Some v \<Longrightarrow> decode (f v) = Inr v) \<Longrightarrow>
     load_member key decode store j c = (Inr (), case x of None \<Rightarrow> c | Some v \<Rightarrow> store v c)"
  by (simp add: load_member_def act_return_def act_bind_def act_result_def act_modify_def split: option.splits)

lemma stored_option:
  fixes r :: "'w EvolutionController"
  shows "ct_manifest r = None \<Longrightarrow> (case x of None \<Rightarrow> r | Some v \<Rightarrow> ct_manifest_update (\<lambda>_. Some v) r) = r\<lparr>ct_manifest := x\<rparr>"
    "ct_campaign r = None \<Longrightarrow> (case y of None \<Rightarrow> r | Some v \<Rightarrow> ct_campaign_update (\<lambda>_. Some v) r) = r\<lparr>ct_campaign := y\<rparr>"
    "ct_handoff r = None \<Longrightarrow> (case z of None \<Rightarrow> r | Some v \<Rightarrow> ct_handoff_update (\<lambda>_. Some v) r) = r\<lparr>ct_handoff := z\<rparr>"
    "ct_fenced_predecessor_claim r = None \<Longrightarrow>
       (case q of None \<Rightarrow> r | Some v \<Rightarrow> r\<lparr>ct_fenced_predecessor_claim := Some v\<rparr>) = r\<lparr>ct_fenced_predecessor_claim := q\<rparr>"
    "ct_source_endpoint r = None \<Longrightarrow> ct_target_endpoint r = None \<Longrightarrow> (case x of None \<Rightarrow> r | Some m \<Rightarrow> bind_endpoints m r) =
       r\<lparr>ct_source_endpoint := map_option (\<lambda>m. endpoint_of ''source'' (mf_source m)) x,
         ct_target_endpoint := map_option (\<lambda>m. endpoint_of ''target'' (mf_target m)) x\<rparr>"
  subgoal by (cases r; cases x) simp_all
  subgoal by (cases r; cases y) simp_all
  subgoal by (cases r; cases z) simp_all
  subgoal by (cases r; cases q) simp_all
  subgoal by (cases r; cases x) (simp_all add: bind_endpoints_def)
  done

lemma restore_run:
  assumes "json_find j ''authority'' = Some a" "load_registry a r = (Inr (), r0)"
    "load_member ''manifest'' (manifest_from_json (env_dtoa env)) (\<lambda>m. ct_manifest_update (\<lambda>_. Some m)) j r0 = (Inr (), r1)"
    "load_member ''campaign'' campaign_record_from_json (\<lambda>k. ct_campaign_update (\<lambda>_. Some k)) j r1 = (Inr (), r2)"
    "load_member ''handoff'' handoff_record_from_json (\<lambda>h. ct_handoff_update (\<lambda>_. Some h)) j r2 = (Inr (), r3)"
    "(case ct_manifest r3 of None \<Rightarrow> r3 | Some m \<Rightarrow> bind_endpoints m r3) = r4"
  shows "controller_restore env j r = (Inr (), load_incarnation j (load_counters j (load_claim j r4)))"
  using assms by (simp add: controller_restore_def act_then_def act_bind_def act_result_def act_modify_def)

lemma saved_claim_and_incarnation:
  fixes c x :: "'w EvolutionController"
  assumes "controller_storable env c"
  shows "ct_fenced_predecessor_claim x = None \<Longrightarrow>
      load_claim (stored_json c) x = x\<lparr>ct_fenced_predecessor_claim := ct_fenced_predecessor_claim c\<rparr>"
    and "load_incarnation (stored_json c) x = x\<lparr>ct_incarnation := ct_incarnation c, ct_boot := boot (ct_incarnation c)\<rparr>"
proof -
  assume "ct_fenced_predecessor_claim x = None"
  from stored_option(4) [OF this, of "ct_fenced_predecessor_claim c", symmetric]
  show "load_claim (stored_json c) x = x\<lparr>ct_fenced_predecessor_claim := ct_fenced_predecessor_claim c\<rparr>"
    using assms by (cases "ct_fenced_predecessor_claim c")
      (simp_all add: load_claim_def stored_json_fields controller_storable_def claim_codec.round_trip)
next
  show "load_incarnation (stored_json c) x = x\<lparr>ct_incarnation := ct_incarnation c, ct_boot := boot (ct_incarnation c)\<rparr>"
    using assms by (simp add: load_incarnation_def stored_json_fields controller_storable_def incarnation_codec.round_trip)
qed

definition restored_controller :: "'w EvolutionController \<Rightarrow> 'w EvolutionController \<Rightarrow> 'w EvolutionController" where
  "restored_controller c r =
     r\<lparr>ct_authority := unattest_registry (ct_authority c), ct_manifest := ct_manifest c, ct_campaign := ct_campaign c,
       ct_handoff := ct_handoff c\<rparr>"

lemma restore_saved_controller:
  fixes c r :: "'w EvolutionController"
  assumes "controller_storable env c" "fresh_controller r"
  shows "\<exists>r'. controller_restore env (stored_json c) r = (Inr (), r') \<and> resumes c r' \<and> ct_options r' = ct_options r"
proof -
  let ?j = "stored_json c"
  let ?r0 = "r\<lparr>ct_authority := unattest_registry (ct_authority c)\<rparr>"
  let ?r1 = "?r0\<lparr>ct_manifest := ct_manifest c\<rparr>"
  let ?r2 = "?r1\<lparr>ct_campaign := ct_campaign c\<rparr>"
  let ?r3 = "restored_controller c r"
  have none: "ct_manifest ?r0 = None" "ct_campaign ?r1 = None" "ct_handoff ?r2 = None" "ct_source_endpoint ?r3 = None" "ct_target_endpoint ?r3 = None"
    using assms(2) by (simp_all add: fresh_controller_def restored_controller_def)
  have authority: "load_registry (registry_to_json (ct_authority c)) r = (Inr (), ?r0)"
    using registry_json_round_trip [of "ct_authority c" "ct_authority r"] assms(1) by (simp add: load_registry_def controller_storable_def)
  have manifest: "load_member ''manifest'' (manifest_from_json (env_dtoa env)) (\<lambda>m. ct_manifest_update (\<lambda>_. Some m)) ?j ?r0 = (Inr (), ?r1)"
    unfolding stored_option(1) [OF none(1), of "ct_manifest c", symmetric]
    by (rule load_member_present) (use assms(1) in \<open>auto simp: stored_json_fields controller_storable_def intro: manifest_json_round_trip\<close>)
  have campaign: "load_member ''campaign'' campaign_record_from_json (\<lambda>k. ct_campaign_update (\<lambda>_. Some k)) ?j ?r1 = (Inr (), ?r2)"
    unfolding stored_option(2) [OF none(2), of "ct_campaign c", symmetric]
    by (rule load_member_present) (use assms(1) in \<open>auto simp: stored_json_fields controller_storable_def campaign_codec.round_trip\<close>)
  have handoff: "load_member ''handoff'' handoff_record_from_json (\<lambda>h. ct_handoff_update (\<lambda>_. Some h)) ?j ?r2 = (Inr (), ?r3)"
    unfolding restored_controller_def stored_option(3) [OF none(3), of "ct_handoff c", symmetric]
    by (rule load_member_present) (use assms(1) in \<open>auto simp: stored_json_fields controller_storable_def handoff_codec.round_trip\<close>)
  let ?r4 = "?r3\<lparr>ct_source_endpoint := map_option (\<lambda>m. endpoint_of ''source'' (mf_source m)) (ct_manifest c),
      ct_target_endpoint := map_option (\<lambda>m. endpoint_of ''target'' (mf_target m)) (ct_manifest c)\<rparr>"
  have endpoints: "(case ct_manifest ?r3 of None \<Rightarrow> ?r3 | Some m \<Rightarrow> bind_endpoints m ?r3) = ?r4"
    using stored_option(5) [OF none(4) none(5), of "ct_manifest c"] by (simp add: restored_controller_def)
  have "ct_fenced_predecessor_claim ?r4 = None" using assms(2) by (simp add: fresh_controller_def restored_controller_def)
  note parts = saved_claim_and_incarnation(1) [OF assms(1) this] saved_claim_and_incarnation(2) [OF assms(1)]
  let ?r = "load_incarnation ?j (load_counters ?j (load_claim ?j ?r4))"
  have "controller_restore env ?j r = (Inr (), ?r)"
    by (rule restore_run [OF stored_json_fields(1) authority manifest campaign handoff endpoints])
  moreover have "resumes c ?r" "ct_options ?r = ct_options r"
    unfolding parts by (simp_all add: resumes_def load_counters_def restored_controller_def stored_json_fields)
  ultimately show ?thesis by blast
qed

section \<open>Acknowledged phases\<close>

text \<open>The state was saved, and nothing has changed since.\<close>

definition saved_state :: "'w ControllerEnv \<Rightarrow> 'w EvolutionController \<Rightarrow> bool" where
  "saved_state env c = (\<exists>d. controller_save env d = (Inr (), c))"

definition in_phase :: "HandoffPhase \<Rightarrow> 'w EvolutionController \<Rightarrow> bool" where
  "in_phase p c = (map_option ho_phase (ct_handoff c) = Some p)"

definition stays_in :: "HandoffPhase \<Rightarrow> 'w EvolutionController \<Rightarrow> 'w EvolutionController \<Rightarrow> bool" where
  "stays_in p c c' = (in_phase p c \<longrightarrow> in_phase p c')"

interpretation ph: step_relation "stays_in p" for p
  by unfold_locales (simp_all add: stays_in_def)

named_theorems phase_steps

lemma keeps_phase: "steps same_handoff m \<Longrightarrow> steps (stays_in p) m"
  by (auto simp: steps_def same_handoff_def stays_in_def in_phase_def)

lemmas keeps_phase_too = keeps_phase [OF keeps_handoff]

lemma update_handoff_phase: "(\<And>h. ho_phase (f h) = ho_phase h) \<Longrightarrow> steps (stays_in p) (update_handoff f)"
  unfolding update_handoff_def by (intro ph.steps_modify) (simp add: stays_in_def in_phase_def option.map_comp comp_def)

lemma modify_phase: "(\<And>c. ct_handoff (f c) = ct_handoff c) \<Longrightarrow> steps (stays_in p) (act_modify f)"
  by (intro ph.steps_modify) (simp add: stays_in_def in_phase_def)

lemmas phase_rules =
  ph.steps_bind ph.steps_then ph.steps_pure ph.steps_inner ph.steps_if ph.steps_option ph.steps_sum ph.steps_prod ph.steps_let
  update_handoff_phase modify_phase

lemma base_phase_steps [phase_steps]:
  "steps (stays_in p) (node_call env endpoint op body)" "steps (stays_in p) (node_report env endpoint)" "steps (stays_in p) (registry_view shard)"
  "steps (stays_in p) (on_registry g)" "steps (stays_in p) (registry_grant req)" "steps (stays_in p) (controller_save env)"
  "steps (stays_in p) (log_event env kind shard epoch generation payload)" "steps (stays_in p) (registry_acknowledge s i f)"
  "steps (stays_in p) (registry_reattest s i t)" "steps (stays_in p) (registry_request_fence s i reason)" "steps (stays_in p) read_clock" "steps (stays_in p) read_text"
  by (rule keeps_phase_too keep_steps)+

lemma reads_phase [phase_steps]:
  "steps (stays_in p) current_manifest" "steps (stays_in p) current_handoff" "steps (stays_in p) source_endpoint" "steps (stays_in p) target_endpoint"
  "steps (stays_in p) shard_of"
  unfolding current_manifest_def current_handoff_def source_endpoint_def target_endpoint_def shard_of_def by (intro ph.steps_pure)+

lemma refresh_reports_phase [phase_steps]: "steps (stays_in p) (refresh_reports env)"
  unfolding refresh_reports_def by (intro phase_rules phase_steps) simp_all

lemma claims_phase [phase_steps]: "steps (stays_in p) required_claim"
  unfolding required_claim_def current_source_claim_def by (intro phase_rules phase_steps)

lemma ensure_phase [phase_steps]: "steps (stays_in p) (ensure_predecessor_authority env)"
  unfolding ensure_predecessor_authority_def ensure_holder_authority_def grant_and_deliver_def renew_and_deliver_def
  by (intro phase_rules phase_steps)

lemma record_same_phase: "steps (stays_in p) (record_phase env p note)"
proof (rule stepsI)
  fix c c' u
  assume "record_phase env p note c = (u, c')"
  then show "stays_in p c c'"
    by (cases rule: record_phase_cases) (auto simp: stays_in_def in_phase_def)
qed

lemma catch_up_phase [phase_steps]:
  "steps (stays_in SnapshotSynchronized) (advance_snapshot env)" "steps (stays_in p) (apply_round env entries)"
  "steps (stays_in SnapshotSynchronized) (catch_up_loop env rounds refreshes lsn)" "steps (stays_in p) (migrate_successor env)"
  "steps (stays_in p) (final_catch_up env n source_lsn)"
proof -
  show a: "steps (stays_in SnapshotSynchronized) (advance_snapshot env)" unfolding advance_snapshot_def
    by (intro phase_rules phase_steps record_same_phase) simp_all
  show b: "steps (stays_in p) (apply_round env entries)" for p entries unfolding apply_round_def by (intro phase_rules phase_steps)
  show "steps (stays_in SnapshotSynchronized) (catch_up_loop env rounds refreshes lsn)"
  proof (induction rounds arbitrary: refreshes lsn)
    case 0
    show ?case unfolding catch_up_loop.simps by (intro phase_rules)
  next
    case (Suc rounds)
    show ?case unfolding catch_up_loop.simps by (intro a b Suc.IH phase_rules phase_steps) simp_all
  qed
  show "steps (stays_in p) (migrate_successor env)" unfolding migrate_successor_def update_campaign_def
    by (intro phase_rules phase_steps) simp_all
  show "steps (stays_in p) (final_catch_up env n source_lsn)"
  proof (induction n)
    case 0
    show ?case unfolding final_catch_up.simps by (intro phase_rules)
  next
    case (Suc n)
    show ?case unfolding final_catch_up.simps by (intro b Suc.IH phase_rules phase_steps)
  qed
qed

lemma fence_phase [phase_steps]:
  "steps (stays_in p) (acknowledge_reported env shard i fs)" "steps (stays_in p) (fence_to_deliver env shard i view)"
proof -
  show "steps (stays_in p) (acknowledge_reported env shard i fs)"
    by (induction fs) (simp_all only: acknowledge_reported.simps, (intro phase_rules phase_steps; assumption?)+)
  show "steps (stays_in p) (fence_to_deliver env shard i view)" unfolding fence_to_deliver_def by (intro phase_rules phase_steps)
qed

text \<open>An acknowledged phase: recorded, and saved.\<close>

definition recorded :: "'w ControllerEnv \<Rightarrow> HandoffPhase \<Rightarrow> 'w EvolutionController \<Rightarrow> bool" where
  "recorded env p c = (saved_state env c \<and> in_phase p c)"

lemma log_phase_keeps: "steps same_protocol (log_phase env to note h)"
proof (rule stepsI)
  fix c c' u
  assume "log_phase env to note h c = (u, c')"
  then show "same_protocol c c'" unfolding log_phase_def by (rule stepsD [rotated]) (intro keep_rules keep_steps)
qed

lemma record_phase_ends:
  assumes "to \<noteq> p"
  shows "ends (in_phase p) (recorded env to) (record_phase env to note)"
proof (rule endsI)
  fix c u c'
  assume p: "in_phase p c" and r: "record_phase env to note c = (Inr u, c')"
  from r show "recorded env to c'"
  proof (cases rule: record_phase_cases)
    case 1
    then show ?thesis using assms p by (auto simp: in_phase_def)
  next
    case (2 h k m)
    have "ct_handoff c' = ct_handoff (moved_controller to note h c)"
      using stepsD [OF log_phase_keeps 2(6)] by (simp add: same_protocol_def protocol_view_def)
    then have "in_phase to c'" by (simp add: in_phase_def moved_controller_def phase_moved_def Let_def)
    moreover have "saved_state env c'" using 2(6) by (auto simp: log_phase_def act_then_Inr saved_state_def)
    ultimately show ?thesis by (simp add: recorded_def)
  qed
qed

lemma apply_action_ends: "ends (in_phase p) (recorded env p) (apply_action env action)"
proof (rule endsI)
  fix c u c'
  assume p: "in_phase p c" and a: "apply_action env action c = (Inr u, c')"
  from a [simplified] show "recorded env p c'"
  proof (rule apply_action_Inr)
    fix k m d
    assume "ct_handoff c' = ct_handoff c" "record_action env action k d (campaign_after_action action d k c) = (Inr (), c')"
    then show ?thesis using p by (auto simp: recorded_def in_phase_def record_action_def act_then_Inr saved_state_def)
  qed
qed

lemma phase_ends_rules:
  "steps (stays_in p) m \<Longrightarrow> (\<And>x. ends (in_phase p) Q (f x)) \<Longrightarrow> ends (in_phase p) Q (act_bind m f)"
  "steps (stays_in p) m' \<Longrightarrow> ends (in_phase p) Q k \<Longrightarrow> ends (in_phase p) Q (act_then m' k)"
  by (rule ends_bind, simp_all add: stays_in_def [abs_def]) (rule ends_then, simp_all add: stays_in_def [abs_def])

lemmas ends_intros = record_phase_ends phase_ends_rules ends_fail ends_cases phase_rules phase_steps

lemma phases_end:
  "ends (in_phase NotStarted) (recorded env Prepared) (advance_prepared env)"
  "ends (in_phase Prepared) (recorded env SnapshotSynchronized) (advance_snapshot env)"
  "ends (in_phase SnapshotSynchronized) (recorded env CaughtUp) (advance_catch_up env)"
  "ends (in_phase CaughtUp) (recorded env ReadinessVerified) (advance_readiness env)"
  unfolding advance_prepared_def advance_snapshot_def advance_catch_up_def advance_readiness_def
  by (intro ends_intros; simp)+

lemma fence_ends: "ends (in_phase ReadinessVerified) (recorded env PredecessorFenced) (advance_fence env)"
proof -
  have deliver: "ends (in_phase ReadinessVerified) (recorded env PredecessorFenced) (deliver_fence env shard h f)" for shard h f
  proof -
    have "ends (in_phase ReadinessVerified) (recorded env PredecessorFenced) (defer_fence env)"
      unfolding defer_fence_def by (intro ends_intros; simp)
    then show ?thesis unfolding deliver_fence_def by (intro ends_intros; simp)
  qed
  show ?thesis unfolding advance_fence_def by (intro deliver ends_intros; simp)
qed

lemma transfer_ends: "ends (in_phase PredecessorFenced) (recorded env AuthorityTransferred) (advance_transfer env)"
proof -
  have "ends (in_phase PredecessorFenced) (recorded env AuthorityTransferred) (deliver_transfer env m h ttl lease)" for m h ttl lease
    unfolding deliver_transfer_def by (intro ends_intros; simp)
  then show ?thesis unfolding advance_transfer_def by (intro ends_intros; simp)
qed

lemma verify_ends: "ends (in_phase AuthorityTransferred) (recorded env SuccessorVerified) (advance_verify env)"
proof -
  have "steps (stays_in AuthorityTransferred) (probe_predecessor env)" "steps (stays_in AuthorityTransferred) (recorded_authority shard)" for shard
    unfolding probe_predecessor_def recorded_authority_def by (intro phase_rules phase_steps)+
  then show ?thesis unfolding advance_verify_def by (intro ends_intros; simp)
qed

lemma retire_ends: "ends (in_phase SuccessorVerified) (recorded env PredecessorRetired) (advance_retire env)"
proof -
  have "ends (recorded env PredecessorRetired) (recorded env PredecessorRetired) (apply_action env Complete)"
    using apply_action_ends [of PredecessorRetired env Complete] unfolding ends_def recorded_def by blast
  then have "ends (in_phase SuccessorVerified) (recorded env PredecessorRetired)
      (act_then (record_phase env PredecessorRetired ''predecessor retired; successor is authoritative'') (apply_action env Complete))"
    by (rule ends_seq [rotated]) (rule record_phase_ends, simp)
  note tail = this
  show ?thesis unfolding advance_retire_def by (intro tail ends_intros)
qed

lemma advance_phase_ends:
  assumes "next_phase p = Some q"
  shows "ends (in_phase p) (recorded env q) (advance_phase env p)"
  using assms phases_end fence_ends transfer_ends verify_ends retire_ends
  by (cases p) (auto simp: advance_phase_def next_phase_def is_forward_phase_def phase_rank_def kForwardPhases_def)

lemma controller_saved_read:
  assumes "saved_state env c" "length (dump (env_dtoa env) (controller_json c)) \<le> kMaxIntegrityPayloadBytes"
  shows "path_exists (dk_fs (ct_disk c)) (controller_state_path c) \<and>
    (\<exists>info. read_integrity_file (dk_fs (ct_disk c)) (controller_state_path c) = Inr (info, dump (env_dtoa env) (controller_json c)))"
proof -
  from assms(1) obtain d where "controller_save env d = (Inr (), c)" by (auto simp: saved_state_def)
  then obtain x where x: "disk_write_integrity (controller_state_path d) (dump (env_dtoa env) (controller_json d)) True (ct_disk d) = (Ok, x)"
      "c = d\<lparr>ct_disk := x\<rparr>"
    by (auto simp: controller_save_def controller_disk_def split: prod.splits if_splits)
  then have "controller_json c = controller_json d" "controller_state_path c = controller_state_path d" "ct_disk c = x"
    by (simp_all add: controller_json_def controller_state_path_def)
  with write_integrity_installs [OF x(1)] assms(2) show ?thesis by simp
qed

lemma controller_load_saved:
  assumes "saved_state env c" "controller_storable env c" "fresh_controller r" "ct_options r = ct_options c" "dk_fs (ct_disk r) = dk_fs (ct_disk c)"
  shows "\<exists>r'. controller_load env r = (Inr (), r') \<and> resumes c r'"
proof -
  have size: "length (dump (env_dtoa env) (controller_json c)) \<le> kMaxIntegrityPayloadBytes"
    using assms(2) by (simp add: controller_storable_def default_parse_limits_def kMaxIntegrityPayloadBytes_def)
  have parsed: "parse_json (env_strtod env) default_parse_limits (dump (env_dtoa env) (controller_json c)) = Some (stored_json c)"
    using assms(2) parse_printed [of "env_dtoa env" "env_strtod env" default_parse_limits "controller_json c" "dump (env_dtoa env) (controller_json c)"]
    by (simp add: controller_storable_def)
  have path: "controller_state_path r = controller_state_path c" using assms(4) by (simp add: controller_state_path_def)
  from controller_saved_read [OF assms(1) size] obtain info where i: "path_exists (dk_fs (ct_disk c)) (controller_state_path c)"
      "read_integrity_file (dk_fs (ct_disk c)) (controller_state_path c) = Inr (info, dump (env_dtoa env) (controller_json c))" by blast
  let ?r = "r\<lparr>ct_recovered_from_backup := False\<rparr>"
  have "controller_load env r = controller_restore env (stored_json c) ?r"
    using i parsed
    by (simp add: controller_load_def path assms(5) read_integrity_file_with_recovery_def Let_def)
  moreover have "fresh_controller ?r" using assms(3) by (simp add: fresh_controller_def)
  ultimately show ?thesis using restore_saved_controller [OF assms(2)] by metis
qed

text \<open>C6: An acknowledged phase survives a restart, within the limits of the parser. Let advancing one phase of a handoff
  succeed, with a state after it that the file format can represent (\<open>controller_storable\<close>): the printed document
  is within the 4 MiB and the nesting depth of the default parser limits, and its contents are well-formed as the
  decoders demand (canonical JSON, intact digests of manifest and evidence, non-empty names, times of at most 63
  bits). Then the handoff is in the next phase, and a newly constructed controller that loads the state directory
  as it is then resumes with the same manifest, campaign, handoff, remembered claim and counters, bound to the same
  endpoints, and with the same registry up to the attestation of its leases. The code does not check these limits
  before it acknowledges: a larger state is saved and acknowledged as well.\<close>

theorem acknowledged_phase_survives_restart:
  assumes "ct_handoff c = Some h" "next_phase (ho_phase h) = Some q" "advance_phase env (ho_phase h) c = (Inr (), c')"
    and "controller_storable env c'"
    and "fresh_controller r" "ct_options r = ct_options c'" "dk_fs (ct_disk r) = dk_fs (ct_disk c')"
  shows "\<exists>r'. controller_load env r = (Inr (), r') \<and> resumes c' r' \<and> map_option ho_phase (ct_handoff r') = Some q"
proof -
  have "recorded env q c'" using endsD [OF advance_phase_ends [OF assms(2)] _ assms(3)] assms(1) by (simp add: in_phase_def)
  then have "saved_state env c'" "map_option ho_phase (ct_handoff c') = Some q" by (simp_all add: recorded_def in_phase_def)
  with controller_load_saved [OF _ assms(4-7)] show ?thesis by (auto simp: resumes_def)
qed

section \<open>What happened outside\<close>

definition same_world :: "'w EvolutionController \<Rightarrow> 'w EvolutionController \<Rightarrow> bool" where
  "same_world c c' = (ct_world c' = ct_world c \<and> ct_source_endpoint c' = ct_source_endpoint c)"

interpretation sw: step_relation same_world
  by unfold_locales (simp_all add: same_world_def)

lemmas world_rules =
  sw.steps_bind sw.steps_then sw.steps_pure sw.steps_inner sw.steps_if sw.steps_option sw.steps_sum sw.steps_prod sw.steps_let sw.steps_modify

lemma world_kept:
  "steps same_world read_clock" "steps same_world (controller_disk f)" "steps same_world (append_event env e)" "steps same_world (on_registry g)"
  by (auto intro!: stepsI simp: read_clock_def controller_disk_def append_event_def on_registry_def same_world_def Let_def split: prod.splits)

lemma world_kept_too:
  "steps same_world (log_event env kind shard epoch generation payload)" "steps same_world (controller_save env)"
  "steps same_world (registry_acknowledge shard holder fence)" "steps same_world (registry_view shard)"
  "steps same_world (registry_request_fence shard holder reason)"
  unfolding log_event_def controller_save_def registry_acknowledge_def registry_view_def registry_request_fence_def
  by (intro world_rules world_kept)+

lemma record_phase_world: "record_phase env to note c = (u, c') \<Longrightarrow> ct_world c' = ct_world c"
proof (erule record_phase_cases)
  fix h k m
  assume l: "log_phase env to note h (moved_controller to note h c) = (u, c')"
  have "steps same_world (log_phase env to note h)"
  proof (rule stepsI)
    fix c c' u
    assume "log_phase env to note h c = (u, c')"
    then show "same_world c c'" unfolding log_phase_def
      by (rule stepsD [rotated]) (intro world_rules world_kept world_kept_too)
  qed
  from stepsD [OF this l] show ?thesis by (simp add: same_world_def moved_controller_def Let_def)
qed simp

text \<open>Any error of the call counts as the refusal of the stale write, a failure of the transport included.\<close>

lemma unreachable_predecessor_counts_as_fenced:
  assumes "ct_fenced_predecessor_claim c = Some claim" "ct_source_endpoint c = Some s"
    and "peer_call env s ''node.write'' (probe_body claim ''stale-write-attempt'') (ct_world c) = (Inl error, w)"
  shows "probe_predecessor env c = (Inr (), c\<lparr>ct_world := w\<rparr>)"
  using assms by (simp add: probe_predecessor_def act_eqs source_endpoint_def node_call_def)

text \<open>C5: A verified successor attested the recorded authority. When the verification of a transfer succeeds, the
  registry recorded a mutating lease, the successor reported exactly that lease, the call that asked the predecessor
  to write under its remembered claim of before the fence (made when a claim is remembered) ended in an error, the
  successor then accepted a write under the recorded lease, and the handoff is recorded in the phase
  \<^verbatim>\<open>SuccessorVerified\<close>; nothing else was sent. The error of the call to the predecessor may be a refusal of the
  node or a failure of the transport: the code does not tell them apart, so no refusal by the predecessor follows
  (\<open>unreachable_predecessor_counts_as_fenced\<close>).\<close>

theorem verified_successor_attested_authority:
  assumes "advance_verify env c = (Inr (), c')" "ct_manifest c = Some m" "ct_handoff c = Some h" "ho_phase h = AuthorityTransferred"
    and "ct_source_endpoint c = Some s" "ct_target_endpoint c = Some t"
  shows "\<exists>view lease body w1 report w2 answer.
    authority_view (ct_clock c (ct_ticks c)) (mf_shard m) (ct_authority c) = Inr view \<and> view_mutating view = Some lease \<and>
    peer_call env t ''node.status'' (JObject []) (ct_world c) = (Inr body, w1) \<and>
    report_from_body body = Inr report \<and> attests report lease \<and>
    (case ct_fenced_predecessor_claim c of
       None \<Rightarrow> w2 = w1
     | Some claim \<Rightarrow> \<exists>refusal. peer_call env s ''node.write'' (probe_body claim ''stale-write-attempt'') w1 = (Inl refusal, w2)) \<and>
    peer_call env t ''node.write'' (probe_body (claim_of lease) (nat_to_string (unat (lease_generation lease)))) w2 = (Inr answer, ct_world c') \<and>
    map_option ho_phase (ct_handoff c') = Some SuccessorVerified"
proof -
  have "in_phase SuccessorVerified c'"
    using endsD [OF verify_ends _ assms(1)] assms(3,4) by (simp add: in_phase_def recorded_def)
  then have phase: "map_option ho_phase (ct_handoff c') = Some SuccessorVerified" by (simp add: in_phase_def)
  let ?c = "c\<lparr>ct_ticks := Suc (ct_ticks c)\<rparr>"
  from assms(1) obtain view lease c1 report c2 answer c3 where v:
      "authority_view (ct_clock c (ct_ticks c)) (mf_shard m) (ct_authority c) = Inr view" "view_mutating view = Some lease"
      "node_report env t ?c = (Inr report, c1)" "attests report lease" "probe_predecessor env c1 = (Inr (), c2)"
      "node_call env t ''node.write'' (probe_body (claim_of lease) (nat_to_string (unat (lease_generation lease)))) c2 = (Inr answer, c3)"
      "record_phase env SuccessorVerified ''successor attested authority and the predecessor was proven fenced'' c3 = (Inr (), c')"
    using assms(2,6)
    by (auto simp: advance_verify_def act_eqs shard_of_def target_endpoint_def recorded_authority_def registry_view_def read_clock_run act_try_def
        act_result_def split: sum.splits if_splits)
  obtain body w1 where b: "peer_call env t ''node.status'' (JObject []) (ct_world c) = (Inr body, w1)" "report_from_body body = Inr report"
      "c1 = ?c\<lparr>ct_world := w1\<rparr>"
    using v(3) by (auto simp: node_report_def node_call_def act_eqs split: prod.splits)
  have p: "case ct_fenced_predecessor_claim c of None \<Rightarrow> ct_world c2 = w1
     | Some claim \<Rightarrow> \<exists>refusal. peer_call env s ''node.write'' (probe_body claim ''stale-write-attempt'') w1 = (Inl refusal, ct_world c2)"
    using v(5) assms(5) b(3)
    by (auto simp: probe_predecessor_def act_eqs source_endpoint_def node_call_def split: option.splits prod.splits sum.splits)
  have "peer_call env t ''node.write'' (probe_body (claim_of lease) (nat_to_string (unat (lease_generation lease)))) (ct_world c2) = (Inr answer, ct_world c')"
    using v(6) record_phase_world [OF v(7)] by (auto simp: node_call_def split: prod.splits)
  with v(1,2,4) b(1,2) p phase show ?thesis by blast
qed

section \<open>The predecessor after the fence\<close>

text \<open>
  What a call over the network does: it reaches the component at the endpoint not at all or once; when it was
  handled, the caller gets the answer or an error; and no other component sees it.
\<close>

definition at_most_once :: "(u64 \<Rightarrow> string) \<Rightarrow> 'w ControllerEnv \<Rightarrow> ('w \<Rightarrow> string \<Rightarrow> ControlPlaneNode) \<Rightarrow> bool" where
  "at_most_once dtoa env node =
     (\<forall>endpoint req w answer w'. env_call env endpoint req w = (answer, w') \<longrightarrow>
        (\<forall>role. role \<noteq> ep_role endpoint \<longrightarrow> node w' role = node w role) \<and>
        (node w' (ep_role endpoint) = node w (ep_role endpoint) \<and> (\<exists>e. answer = Inl e) \<or>
         (\<exists>clock resp. node_handle dtoa clock req (node w (ep_role endpoint)) = (resp, node w' (ep_role endpoint)) \<and>
            (answer = Inr resp \<or> (\<exists>e. answer = Inl e)))))"

lemma fence_stops:
  assumes "node_fence dtoa body n = (res, n')" "result_status res = Ok"
  shows "nd_lifecycle n' = NodeFenced"
proof -
  define q where "q = rbind (parse_handoff_id body) (\<lambda>_.
        rbind (require (positive (json_u64 body ''fence_id'')) InvalidArgument) (\<lambda>fence.
        rbind (require (json_find body ''target'') InvalidArgument) (\<lambda>target.
        rbind (incarnation_from_json target) (\<lambda>incarnation.
        rbind (guard (incarnation = nd_incarnation n) StaleIncarnation) (\<lambda>_. Inr fence)))))"
  have q: "q \<noteq> Inl Ok" by (auto simp: q_def rbind_eq_Inl parse_handoff_id_def)
  show ?thesis
  proof (cases q)
    case (Inl e)
    then show ?thesis using assms q by (auto simp: node_fence_def q_def [symmetric] checked_def result_status_def)
  next
    case (Inr fence)
    show ?thesis
    proof (cases "nd_lifecycle n = NodeFenced \<and> nd_last_fence_id n = fence")
      case True
      then show ?thesis using assms(1) Inr by (simp add: node_fence_def q_def [symmetric] checked_def)
    next
      case False
      let ?n = "n\<lparr>nd_lifecycle := NodeFenced, nd_lease_confirmed := False,
                 nd_lease := map_option (\<lambda>l. l\<lparr>lease_state := Fenced, attested := False\<rparr>) (nd_lease n), nd_last_fence_id := fence\<rparr>"
      obtain st m where m: "save_state dtoa ?n = (st, m)" by fastforce
      then have "nd_lifecycle m = NodeFenced" by (auto dest!: save_state_frame)
      then show ?thesis using assms Inr False m
        by (auto simp: node_fence_def q_def [symmetric] checked_def saved_def result_status_def split: if_splits)
    qed
  qed
qed

lemma fence_call_stops:
  assumes "at_most_once dtoa env node" "peer_call env s ''node.fence'' body w = (Inr r, w')"
  shows "out_of_service (node w' (ep_role s))"
proof -
  let ?req = "\<lparr>rq_id = ''controller-call'', rq_op = ''node.fence'', rq_body = body\<rparr>"
  from assms(2) obtain resp where r: "env_call env s ?req w = (Inr resp, w')" "rs_status resp = Ok"
    by (auto simp: peer_call_def split: prod.splits if_splits)
  with assms(1) obtain clock where "node_handle dtoa clock ?req (node w (ep_role s)) = (resp, node w' (ep_role s))"
    unfolding at_most_once_def by blast
  then obtain m res where "node_dispatch dtoa clock ''node.fence'' body m = (res, node w' (ep_role s))" "rs_status resp = result_status res"
    by (rule node_handle_cases) (use r(2) in auto)
  then have "node_fence dtoa body m = (res, node w' (ep_role s))" "result_status res = Ok"
    using r(2) by (simp_all add: node_dispatch_def)
  from fence_stops [OF this] show ?thesis by (simp add: out_of_service_def)
qed

lemma same_world_fence:
  "steps same_world (fence_to_deliver env shard predecessor view)" "steps same_world (registry_view shard)"
  unfolding fence_to_deliver_def by (intro world_rules world_kept_too)+

lemma deliver_fence_stops:
  assumes "at_most_once dtoa env node" "ct_source_endpoint c = Some s" "deliver_fence env shard h f c = (Inr (), c')"
  shows "out_of_service (node (ct_world c') (ep_role s))"
proof -
  obtain x d where x: "node_call env s ''node.fence'' (fence_body h f) c = (x, d)" by fastforce
  have "x \<noteq> Inl e" for e
  proof
    assume "x = Inl e"
    then have "defer_fence env d = (Inr (), c')"
      using assms(2,3) x by (simp add: deliver_fence_def source_endpoint_def act_bind_def [of "act_try _"] act_try_def)
    then show False by (simp add: defer_fence_def act_eqs)
  qed
  then obtain r where r: "x = Inr r" by (cases x) auto
  define rest where "rest = act_then (registry_acknowledge shard (ho_predecessor h) (fence_id f))
           (act_then (update_handoff (\<lambda>h. h\<lparr>ho_fence := fence_id f, ho_epoch := fence_epoch f, ho_generation := fence_generation f\<rparr>))
           (log_event env FenceAcknowledged shard (fence_epoch f) (fence_generation f)
              (json_object [(''fence_id'', JUInt (fence_id f)), (''holder'', JString (incarnation_to_string (ho_predecessor h)))])))"
  have "act_then rest (record_phase env PredecessorFenced ''predecessor acknowledged the fence'') d = (Inr (), c')"
    using assms(2,3) x r by (simp add: deliver_fence_def source_endpoint_def act_bind_def [of "act_try _"] act_try_def rest_def act_then_assoc)
  then obtain e where e: "rest d = (Inr (), e)" "record_phase env PredecessorFenced ''predecessor acknowledged the fence'' e = (Inr (), c')"
    by (rule act_then_cases) auto
  have kept: "steps same_world rest" unfolding rest_def update_handoff_def
    by (intro world_rules world_kept world_kept_too) (simp add: same_world_def)
  have "ct_world c' = ct_world d" using stepsD [OF kept e(1)] record_phase_world [OF e(2)] by (simp add: same_world_def)
  moreover have "peer_call env s ''node.fence'' (fence_body h f) (ct_world c) = (Inr r, ct_world d)"
    using x r by (auto simp: node_call_def split: prod.splits)
  ultimately show ?thesis using fence_call_stops [OF assms(1)] by simp
qed

text \<open>C4: An acknowledged fence has stopped the predecessor. Over a network that delivers a call at most once, when the
  fence of a predecessor that did not report itself out of service succeeds, the handoff is in the phase
  \<^verbatim>\<open>PredecessorFenced\<close>, and from then on, along any requests to the predecessor without \<^verbatim>\<open>node.grant_authority\<close>,
  its node refuses every write and neither its document nor its log position changes by it.\<close>

theorem acknowledged_fence_stops_predecessor:
  assumes "at_most_once dtoa env node" "ct_source_endpoint c = Some s" "\<not> node_is_down (ct_last_source_report c)"
    and "ct_handoff c = Some h" "ho_phase h = ReadinessVerified" "advance_fence env c = (Inr (), c')"
    and "\<forall>x \<in> set xs. rq_op (snd x) \<noteq> ''node.grant_authority''" "rq_op req = ''node.write''"
    and "node_handle dtoa clock req (foldl (node_step dtoa) (node (ct_world c') (ep_role s)) xs) = (resp, n')"
  shows "map_option ho_phase (ct_handoff c') = Some PredecessorFenced \<and>
    rs_status resp \<noteq> Ok \<and> same_log (foldl (node_step dtoa) (node (ct_world c') (ep_role s)) xs) n'"
proof -
  have "recorded env PredecessorFenced c'" using endsD [OF fence_ends _ assms(6)] assms(4,5) by (simp add: in_phase_def)
  moreover have "out_of_service (node (ct_world c') (ep_role s))"
  proof -
    let ?shard = "mf_shard (the (ct_manifest c))"
    obtain view d where v: "registry_view ?shard c = (Inr view, d)" and
      rest: "act_bind (fence_to_deliver env ?shard (ho_predecessor h) view) (deliver_fence env ?shard h) d = (Inr (), c')"
    proof -
      obtain v d where v: "registry_view ?shard c = (v, d)" by fastforce
      have "ct_last_source_report d = ct_last_source_report c"
        using v by (auto simp: registry_view_def read_clock_run act_result_def)
      then show ?thesis using assms(3,4,6) v that
        by (cases v) (auto simp: advance_fence_def shard_of_def current_handoff_def act_bind_def [of "registry_view _"])
    qed
    have "ct_source_endpoint d = Some s" using v assms(2) by (auto simp: registry_view_def read_clock_run act_result_def)
    from rest obtain f e where e: "fence_to_deliver env ?shard (ho_predecessor h) view d = (Inr f, e)" "deliver_fence env ?shard h f e = (Inr (), c')"
      by (rule act_bind_cases) auto
    have "ct_source_endpoint e = Some s"
      using stepsD [OF same_world_fence(1) e(1)] \<open>ct_source_endpoint d = Some s\<close> by (simp add: same_world_def)
    then show ?thesis using deliver_fence_stops [OF assms(1) _ e(2)] by blast
  qed
  ultimately show ?thesis using fenced_refusals [OF _ assms(7,9)] assms(8) by (simp add: recorded_def in_phase_def)
qed

end
