(* ===== verification/Controller_Sizes.thy ===== *)
theory Controller_Sizes
  imports Controller_Durable Node_Examples Authority_Examples
begin

text \<open>
  A small controller with a sealed manifest, a state directory on a disk that answers and a journal with room: its
  documents are short, so that saving the state and appending an event succeed. \<open>modest_json\<close> says that a value fits
  the parser, prints short and reads back as it is; it is proved along the construction of an object.
\<close>

section \<open>The controller\<close>

definition ex_decision :: CompatibilityDecision where
  "ex_decision = decision_seal ex_print_real example_decision"

definition ex_manifest :: EvolutionManifest where
  "ex_manifest = (example_manifest ex_decision)\<lparr>mf_shard := ''s1'', mf_digest := manifest_digest ex_print_real ((example_manifest ex_decision)\<lparr>mf_shard := ''s1''\<rparr>)\<rparr>"

definition ex_source_end :: EndpointRef where
  "ex_source_end = endpoint_of ''source'' (mf_source ex_manifest)"

definition ex_target_end :: EndpointRef where
  "ex_target_end = endpoint_of ''target'' (mf_target ex_manifest)"

definition ex_ctl_options :: ControllerOptions where
  "ex_ctl_options = \<lparr>co_controller_id = ''ctl'', co_state_directory = ''/c'', co_lease_ttl_ms = 5000, co_max_catch_up_rounds = 2,
     co_max_records_per_round = 8, co_evidence_policy = RequireExactMatch\<rparr>"

definition wide_limits :: JsonParseLimits where
  "wide_limits = \<lparr>max_bytes = 100000, max_depth = 20, max_string_bytes = 200, max_container_entries = 50\<rparr>"

text \<open>A value that fits and that printing and reading leaves alone.\<close>

definition modest_json :: "json \<Rightarrow> nat \<Rightarrow> nat \<Rightarrow> bool" where
  "modest_json j n b =
     (json_fits ex_print_real ex_read_real wide_limits j n \<and> (case text_bound j of None \<Rightarrow> False | Some x \<Rightarrow> x \<le> b) \<and> json_canon j = j)"

lemma ex_digests: "digest_wf (cd_evidence_digest ex_decision)" "digest_wf (mf_digest ex_manifest)"
  by (simp_all add: ex_decision_def ex_manifest_def decision_seal_def decision_digest_def manifest_digest_def digest_wf_text_digest)

lemma ex_hex: "length (to_hex (cd_evidence_digest ex_decision)) = 64" "length (to_hex (mf_digest ex_manifest)) = 64"
  using ex_digests by (simp_all add: length_to_hex digest_wf_def)

text \<open>The parts of the manifest as JSON.\<close>

lemma ex_literals:
  "decision_body example_decision = JObject
     [(''certified_features'', JArray []), (''constraints'', JArray []), (''decided_at'', JUInt 1), (''decision_id'', JString ''dec-1''),
      (''max_mixed_version_ms'', JUInt 100), (''max_mixed_version_operations'', JUInt 10), (''registry'', JString ''registry''),
      (''rollback_permitted'', JBool True), (''source'', JString ''1.0.0''), (''source_protocol'', JString ''1.0''), (''source_schema'', JUInt 1),
      (''subject'', JString ''router''), (''target'', JString ''1.1.0''), (''target_protocol'', JString ''1.1''), (''target_schema'', JUInt 2),
      (''verdict'', JString ''supported'')]"
  "component_spec_to_json (example_spec ''old'' 0 1) = JObject
     [(''artifact_digest'', JString (to_hex digest_zero)), (''features'', JArray []), (''host'', JString ''old''), (''id'', JString ''router''),
      (''port'', JUInt 9000), (''protocol'', JString ''1.0''), (''schema'', JUInt 1), (''software'', JString ''1.0.0'')]"
  "component_spec_to_json (example_spec ''new'' 1 2) = JObject
     [(''artifact_digest'', JString (to_hex digest_zero)), (''features'', JArray []), (''host'', JString ''new''), (''id'', JString ''router''),
      (''port'', JUInt 9000), (''protocol'', JString ''1.1''), (''schema'', JUInt 2), (''software'', JString ''1.1.0'')]"
  "migration_step_to_json example_step = JObject
     [(''description'', JString []), (''deterministic'', JBool True), (''evidence_digest'', JString (to_hex digest_zero)), (''from'', JUInt 1),
      (''function'', JString ''identity''), (''id'', JString ''step-1''), (''irreversible_boundary'', JBool False), (''parameters'', JObject []),
      (''reversible'', JBool True), (''to'', JUInt 2)]"
  "window_to_json \<lparr>max_duration_ms = 1000, max_operations = 500, min_participants = 2, require_read_only_shared_phase = True\<rparr> = JObject
     [(''max_duration_ms'', JUInt 1000), (''max_operations'', JUInt 500), (''min_participants'', JUInt 2),
      (''require_read_only_shared_phase'', JBool True)]"
  "path_to_json \<lparr>path_accepted = [ProtocolVersion 1 0, ProtocolVersion 1 1], path_required_features = 0, path_allowed_features = 0\<rparr> = JObject
     [(''accepted'', JArray [JString ''1.0'', JString ''1.1'']), (''allowed_features'', JArray []), (''required_features'', JArray [])]"
  "rollback_to_json \<lparr>rs_kind = RollbackToPredecessor, rs_recovery_plan = ''restart'', rs_boundaries = []\<rparr> = JObject
     [(''declared_irreversible_boundaries'', JArray []), (''kind'', JString ''rollback_to_predecessor''), (''recovery_plan'', JString ''restart'')]"
  by code_simp+

lemma ex_decision_body: "decision_body ex_decision = decision_body example_decision"
  by (simp add: ex_decision_def decision_seal_def decision_body_def)

lemma ex_manifest_text:
  "json_fits ex_print_real ex_read_real wide_limits (manifest_to_json ex_manifest) 9"
  "case text_bound (manifest_to_json ex_manifest) of None \<Rightarrow> False | Some x \<Rightarrow> x \<le> 20000"
  "json_canon (manifest_to_json ex_manifest) = manifest_to_json ex_manifest"
proof -
  have j: "manifest_to_json ex_manifest = JObject [(''campaign'', JString ''campaign-1''),
      (''compatibility'', json_set (decision_body example_decision) ''evidence_digest'' (JString (to_hex (cd_evidence_digest ex_decision)))),
      (''digest'', JString (to_hex (mf_digest ex_manifest))), (''id'', JString ''manifest-1''), (''migrations'', JArray [migration_step_to_json example_step]),
      (''protocol'', path_to_json \<lparr>path_accepted = [ProtocolVersion 1 0, ProtocolVersion 1 1], path_required_features = 0, path_allowed_features = 0\<rparr>),
      (''revision'', JUInt 1), (''rollback'', rollback_to_json \<lparr>rs_kind = RollbackToPredecessor, rs_recovery_plan = ''restart'', rs_boundaries = []\<rparr>),
      (''shard'', JString ''s1''), (''source'', component_spec_to_json (example_spec ''old'' 0 1)), (''target'', component_spec_to_json (example_spec ''new'' 1 2)),
      (''window'', window_to_json \<lparr>max_duration_ms = 1000, max_operations = 500, min_participants = 2, require_read_only_shared_phase = True\<rparr>)]"
    by (simp add: manifest_to_json_def manifest_body_def ex_decision_body [symmetric] decision_to_json_def [symmetric])
      (simp add: ex_manifest_def example_manifest_def json_set_def try_object_def)
  show "json_fits ex_print_real ex_read_real wide_limits (manifest_to_json ex_manifest) 9"
    "case text_bound (manifest_to_json ex_manifest) of None \<Rightarrow> False | Some x \<Rightarrow> x \<le> 20000"
    "json_canon (manifest_to_json ex_manifest) = manifest_to_json ex_manifest"
    unfolding j ex_literals by (simp_all add: json_set_def try_object_def wide_limits_def omap_wf_def ex_hex ex_texts)
qed

lemma modest_parts:
  assumes "modest_json j n b"
  obtains x where "json_fits ex_print_real ex_read_real wide_limits j n" "text_bound j = Some x" "x \<le> b" "json_canon j = j"
  using assms by (auto simp: modest_json_def split: option.splits)

section \<open>Sizes of built objects\<close>

definition members_bound :: "(string \<times> json) list \<Rightarrow> nat option" where
  "members_bound m = foldr (\<lambda>(k, b) acc. case (b, acc) of (Some x, Some y) \<Rightarrow> Some (6 * length k + 4 + x + y) | _ \<Rightarrow> None)
       (map (map_prod id text_bound) m) (Some 2)"

lemma members_bound_simps [simp]:
  "members_bound [] = Some 2"
  "members_bound ((k, v) # m) = (case (text_bound v, members_bound m) of (Some x, Some y) \<Rightarrow> Some (6 * length k + 4 + x + y) | _ \<Rightarrow> None)"
  by (simp_all add: members_bound_def)

lemma members_bound_set:
  "members_bound m = Some y \<Longrightarrow> text_bound v = Some x \<Longrightarrow> \<exists>z. members_bound (omap_set k v m) = Some z \<and> z \<le> y + (6 * length k + 4 + x)"
  by (induction k v m arbitrary: y rule: omap_set.induct) (fastforce split: option.splits)+

definition modest_object :: "nat \<Rightarrow> json \<Rightarrow> nat \<Rightarrow> nat \<Rightarrow> bool" where
  "modest_object c j n b =
     (\<exists>m. j = JObject m \<and> length m \<le> c \<and> omap_wf m \<and> (\<exists>y. members_bound m = Some y \<and> y \<le> b) \<and>
        (\<forall>(k, v) \<in> set m. length k \<le> 200 \<and> json_fits ex_print_real ex_read_real wide_limits v n \<and> json_canon v = v))"

lemma modest_empty: "modest_object 0 (JObject []) n 2"
  by (simp add: modest_object_def omap_wf_def)

lemma length_omap_set_le: "length (omap_set k v m) \<le> Suc (length m)"
  by (induction k v m rule: omap_set.induct) auto

lemma modest_set:
  assumes "modest_object c j n b" "modest_json v n x" "length k \<le> 200"
  shows "modest_object (Suc c) (json_set j k v) n (b + (6 * length k + 4 + x))"
proof -
  obtain m y where m: "j = JObject m" "length m \<le> c" "omap_wf m" "members_bound m = Some y" "y \<le> b"
      "\<forall>(k, v) \<in> set m. length k \<le> 200 \<and> json_fits ex_print_real ex_read_real wide_limits v n \<and> json_canon v = v"
    using assms(1) unfolding modest_object_def by blast
  obtain z where z: "json_fits ex_print_real ex_read_real wide_limits v n" "text_bound v = Some z" "z \<le> x" "json_canon v = v"
    using assms(2) by (rule modest_parts)
  obtain w where "members_bound (omap_set k v m) = Some w" "w \<le> y + (6 * length k + 4 + z)" using members_bound_set [OF m(4) z(2)] by blast
  moreover have "length (omap_set k v m) \<le> Suc c" using length_omap_set_le [of k v m] m(2) by simp
  moreover have "set (omap_set k v m) \<subseteq> insert (k, v) (set m)" by (rule set_omap_set)
  ultimately show ?thesis using m z assms(3) unfolding modest_object_def
    by (intro exI [of _ "omap_set k v m"]) (auto simp: json_set_def intro: order_trans)
qed

lemma modest_done:
  assumes "modest_object c j n b" "c \<le> 50" "b \<le> b'" "n' = Suc n"
  shows "modest_json j n' b'"
proof -
  obtain m y where m: "j = JObject m" "length m \<le> c" "omap_wf m" "members_bound m = Some y" "y \<le> b"
      "\<forall>(k, v) \<in> set m. length k \<le> 200 \<and> json_fits ex_print_real ex_read_real wide_limits v n \<and> json_canon v = v"
    using assms(1) unfolding modest_object_def by blast
  moreover have "map (map_prod id json_canon) m = m" using m(6) by (induction m) (auto simp: id_def)
  ultimately show ?thesis using assms(2-4)
    by (auto simp: modest_json_def members_bound_def wide_limits_def list_all_iff split: option.splits)
qed

lemma modest_leaves:
  "0 < n \<Longrightarrow> modest_json (JBool x) n 5" "0 < n \<Longrightarrow> modest_json (JUInt w) n 20"
  "0 < n \<Longrightarrow> length t \<le> 200 \<Longrightarrow> modest_json (JString t) n 1202"
  by (simp_all add: modest_json_def wide_limits_def)

lemma modest_list:
  assumes "\<And>j. j \<in> set xs \<Longrightarrow> modest_json j n b" "length xs \<le> 50" "2 + length xs * Suc b \<le> b'" "n' = Suc n"
  shows "modest_json (JArray xs) n' b'"
proof -
  have "\<exists>y. foldr (\<lambda>b acc. case (b, acc) of (Some x, Some y) \<Rightarrow> Some (x + 1 + y) | _ \<Rightarrow> None) (map text_bound ys) (Some 2) = Some y \<and>
      y \<le> 2 + length ys * Suc b" if "set ys \<subseteq> set xs" for ys
    using that
  proof (induction ys)
    case (Cons a ys)
    then obtain y where y: "foldr (\<lambda>b acc. case (b, acc) of (Some x, Some y) \<Rightarrow> Some (x + 1 + y) | _ \<Rightarrow> None) (map text_bound ys) (Some 2) = Some y"
        "y \<le> 2 + length ys * Suc b" by auto
    have "modest_json a n b" using Cons.prems assms(1) by simp
    then obtain x where "text_bound a = Some x" "x \<le> b" by (rule modest_parts)
    with y show ?case by simp
  qed simp
  from this [of xs] obtain y where y: "foldr (\<lambda>b acc. case (b, acc) of (Some x, Some y) \<Rightarrow> Some (x + 1 + y) | _ \<Rightarrow> None) (map text_bound xs) (Some 2) = Some y"
        "y \<le> 2 + length xs * Suc b" by auto
  have c: "json_canon x = x" "json_fits ex_print_real ex_read_real wide_limits x n" if "x \<in> set xs" for x
    using assms(1) [OF that] by (auto elim: modest_parts)
  then have "map json_canon xs = xs" by (simp add: map_idI)
  with y c(2) assms(2-4) show ?thesis by (simp add: modest_json_def list_all_iff wide_limits_def)
qed

lemma names_short: "length (campaign_state_name s) \<le> 200" "length (campaign_action_name a) \<le> 200" "length (phase_name p) \<le> 200"
  subgoal by (cases s) simp_all
  subgoal by (cases a) simp_all
  subgoal by (cases p) simp_all
  done

lemmas modest_intros = modest_set modest_empty modest_leaves

lemma event_modest: "length (ev_detail e) \<le> 200 \<Longrightarrow> modest_json (event_to_json e) 7 8000"
  unfolding event_to_json_def
  by (rule modest_done [where n = 6], ((rule modest_intros | simp add: names_short)+)[1], simp_all)

lemma campaign_modest:
  assumes "list_all (\<lambda>t. length t \<le> 200) [ca_id r, ca_manifest r, ca_shard r, ca_detail r]" "length (ca_manifest_digest r) = 32"
    and "crossed_boundaries r = [''b1'']" "length (ca_events r) \<le> 8" "\<forall>e \<in> set (ca_events r). length (ev_detail e) \<le> 200"
  shows "modest_json (campaign_to_json r) 9 100000"
proof -
  have "modest_json (JArray (map event_to_json (ca_events r))) 8 64012"
    by (rule modest_list [where n = 7 and b = 8000]) (use assms(4,5) event_modest in auto)
  moreover have "modest_json (JArray (map JString (crossed_boundaries r))) 8 2000"
    by (rule modest_list [where n = 7 and b = 1202]) (use assms(3) modest_leaves(3) in auto)
  note lists = calculation this
  show ?thesis unfolding campaign_to_json_def Let_def
    by (rule modest_done [where n = 8, rotated -1], simp, ((rule lists modest_intros | use assms in \<open>simp add: names_short length_to_hex\<close>)+)[1], simp_all)
qed

lemma ex_manifest_modest: "modest_json (manifest_to_json ex_manifest) 9 20000"
  using ex_manifest_text by (simp add: modest_json_def)

lemma ex_incarnation_json: "incarnation_to_json (ex_node 5) = JObject
    [(''boot'', JUInt 1), (''component'', JString ''node''), (''uuid'', JString (to_compact_string (replicate 15 0 @ [5])))]"
  "length (to_compact_string (replicate 15 0 @ [5])) = 32"
  by code_simp+

lemma ex_lease_texts: "length (to_compact_string (ex_token 1)) = 32" "length (to_compact_string (replicate 15 0 @ [1])) = 32"
  by code_simp+

lemma ex_claim_modest: "modest_json (claim_to_json (claim_of ex_lease)) 9 100000"
  by (simp add: claim_to_json_def claim_of_def ex_lease_def ex_node_def incarnation_to_json_def json_build omap_wf_def modest_json_def wide_limits_def)
    (simp add: ex_lease_texts)

lemma ctl_text:
  assumes "ct_options c = ex_ctl_options" "ct_manifest c = Some ex_manifest" "ct_incarnation c = ex_node 5" "length (ct_last_deferral_reason c) \<le> 200"
    and "ct_campaign c = Some k" "modest_json (campaign_to_json k) 9 100000" "ct_handoff c = Some h" "modest_json (handoff_to_json h) 9 100000"
    and "modest_json (registry_to_json (ct_authority c)) 9 100000" "ct_fenced_predecessor_claim c \<in> {None, Some (claim_of ex_lease)}"
  shows "json_fits ex_print_real ex_read_real wide_limits (controller_json c) 10" "json_canon (controller_json c) = stored_json c"
    "length (dump dtoa (controller_json c)) \<le> 500000"
proof -
  obtain m where m: "json_fits ex_print_real ex_read_real wide_limits (manifest_to_json ex_manifest) 9" "text_bound (manifest_to_json ex_manifest) = Some m"
      "m \<le> 20000" "json_canon (manifest_to_json ex_manifest) = manifest_to_json ex_manifest"
    using ex_manifest_modest by (rule modest_parts)
  obtain x where x: "json_fits ex_print_real ex_read_real wide_limits (campaign_to_json k) 9" "text_bound (campaign_to_json k) = Some x"
      "x \<le> 100000" "json_canon (campaign_to_json k) = campaign_to_json k"
    using assms(6) by (rule modest_parts)
  obtain y where y: "json_fits ex_print_real ex_read_real wide_limits (handoff_to_json h) 9" "text_bound (handoff_to_json h) = Some y"
      "y \<le> 100000" "json_canon (handoff_to_json h) = handoff_to_json h"
    using assms(8) by (rule modest_parts)
  obtain z where z: "json_fits ex_print_real ex_read_real wide_limits (registry_to_json (ct_authority c)) 9" "text_bound (registry_to_json (ct_authority c)) = Some z"
      "z \<le> 100000" "json_canon (registry_to_json (ct_authority c)) = registry_to_json (ct_authority c)"
    using assms(9) by (rule modest_parts)
  obtain w where w: "json_fits ex_print_real ex_read_real wide_limits (claim_to_json (claim_of ex_lease)) 9" "text_bound (claim_to_json (claim_of ex_lease)) = Some w"
      "w \<le> 100000" "json_canon (claim_to_json (claim_of ex_lease)) = claim_to_json (claim_of ex_lease)"
    using ex_claim_modest by (rule modest_parts)
  have j: "controller_json c = JObject ([(''authority'', registry_to_json (ct_authority c)), (''campaign'', campaign_to_json k),
      (''controller'', JString ''ctl''), (''controller_incarnation'', incarnation_to_json (ex_node 5))] @
      (if ct_fenced_predecessor_claim c = None then [] else [(''fenced_predecessor_claim'', claim_to_json (claim_of ex_lease))]) @
      [(''format'', JInt 1), (''handoff'', handoff_to_json h), (''last_deferral_reason'', JString (ct_last_deferral_reason c)),
       (''last_pause_deferral_ms'', JUInt (ct_last_pause_deferral_ms c)), (''manifest'', manifest_to_json ex_manifest), (''next_epoch'', JUInt (ct_next_epoch c)),
       (''next_handoff_id'', JUInt (ct_next_handoff_id c)), (''window_start_lsn'', JUInt (ct_window_start_lsn c))])"
    using assms(1-3,5,7,10) by (auto simp: controller_json_def set_option_def json_set_def try_object_def ex_ctl_options_def)
  show "json_fits ex_print_real ex_read_real wide_limits (controller_json c) 10"
    unfolding j ex_incarnation_json(1) using m x y z w assms(4) by (simp add: wide_limits_def [symmetric] omap_wf_def ex_incarnation_json(2)) (simp add: wide_limits_def)
  show "json_canon (controller_json c) = stored_json c"
    unfolding stored_json_def j ex_incarnation_json(1) using m x y z w by (simp add: json_set_def try_object_def)
  have "case text_bound (controller_json c) of None \<Rightarrow> False | Some b \<Rightarrow> b \<le> 500000"
    unfolding j ex_incarnation_json(1) using m x y z w assms(4) by (simp add: ex_incarnation_json(2))
  then show "length (dump dtoa (controller_json c)) \<le> 500000"
    using text_bound [of "controller_json c" _ dtoa 0] by (fastforce simp: dump_def split: option.splits)
qed

section \<open>Steps that succeed\<close>

definition ex_env :: "(EndpointRef \<Rightarrow> RpcRequest \<Rightarrow> 'w \<Rightarrow> RpcResponse Result \<times> 'w) \<Rightarrow> 'w ControllerEnv" where
  "ex_env call = \<lparr>env_call = call, env_decide = (\<lambda>_ _ _. Inl NotFound), env_registry_name = ''registry'', env_dtoa = ex_print_real,
     env_strtod = ex_read_real\<rparr>"

lemma ex_env_fields [simp]: "env_call (ex_env call) = call" "env_dtoa (ex_env call) = ex_print_real" "env_strtod (ex_env call) = ex_read_real"
  by (simp_all add: ex_env_def)

text \<open>A disk that answers, and a journal with room.\<close>

definition ex_ready :: "nat \<Rightarrow> 'w EvolutionController \<Rightarrow> bool" where
  "ex_ready n c = (reliable (ct_disk c) \<and> el_capacity (ct_epoch_log c) = 4096 \<and> length (el_events (ct_epoch_log c)) \<le> n)"

lemma ex_save:
  assumes "reliable (ct_disk c)" "length (dump (env_dtoa env) (controller_json c)) \<le> 500000"
  obtains d where "controller_save env c = (Inr (), c\<lparr>ct_disk := d\<rparr>)" "reliable d"
proof -
  obtain st d where d: "disk_write_integrity (controller_state_path c) (dump (env_dtoa env) (controller_json c)) True (ct_disk c) = (st, d)" by fastforce
  have "length (dump (env_dtoa env) (controller_json c)) \<le> kMaxIntegrityPayloadBytes"
    using assms(2) by (simp add: kMaxIntegrityPayloadBytes_def)
  from reliable_write_integrity [OF assms(1) this, of "controller_state_path c" True] d have "st = Ok" by (auto split: prod.splits)
  with d disk_frame(1) [OF d] assms(1) show ?thesis by (intro that [of d]) (simp_all add: controller_save_def controller_disk_def)
qed

lemma ex_log:
  assumes "reliable (ct_disk c)" "el_capacity (ct_epoch_log c) = 4096" "length (el_events (ct_epoch_log c)) < 100"
    and "\<And>at. modest_json (epoch_event_to_json \<lparr>ee_kind = kind, ee_shard = shard, ee_epoch = epoch, ee_generation = generation, ee_at_ms = at,
         ee_payload = payload\<rparr>) 9 100000"
  obtains l d where "log_event env kind shard epoch generation payload c =
      (Inr (), c\<lparr>ct_ticks := Suc (ct_ticks c), ct_epoch_log := l, ct_disk := d\<rparr>)"
    "reliable d" "el_capacity l = 4096" "length (el_events l) = Suc (length (el_events (ct_epoch_log c)))"
proof -
  let ?e = "\<lparr>ee_kind = kind, ee_shard = shard, ee_epoch = epoch, ee_generation = generation, ee_at_ms = ct_clock c (ct_ticks c), ee_payload = payload\<rparr>"
  let ?d = "ct_disk c"
  obtain x where x: "text_bound (epoch_event_to_json ?e) = Some x" "x \<le> 100000" using assms(4) by (rule modest_parts)
  have len: "length (encode_epoch_event (env_dtoa env) ?e) \<le> 100000"
    using text_bound [OF x(1), of "env_dtoa env" 0] x(2) by (simp add: encode_epoch_event_def dump_def)
  obtain st states where st: "append_record (dk_io ?d (dk_calls ?d)) (el_path (ct_epoch_log c)) (encode_epoch_event (env_dtoa env) ?e) (dk_fs ?d) = (st, states)" by fastforce
  have io: "io_open (dk_io ?d (dk_calls ?d))" "io_flush (dk_io ?d (dk_calls ?d))" "200000 \<le> io_written (dk_io ?d (dk_calls ?d))"
    using assms(1) unfolding reliable_def by (auto simp: kMaxIntegrityPayloadBytes_def dest: spec [of _ "dk_calls ?d"] intro: order_trans [rotated])
  have "fst (append_record (dk_io ?d (dk_calls ?d)) (el_path (ct_epoch_log c)) (encode_epoch_event (env_dtoa env) ?e) (dk_fs ?d)) = Ok"
    using io len by (simp add: append_record_def length_encode_record Let_def kMaxRecordBytes_def)
  with st have ok: "st = Ok" by simp
  let ?l = "(ct_epoch_log c)\<lparr>el_events := el_events (ct_epoch_log c) @ [?e]\<rparr>"
  let ?d' = "?d\<lparr>dk_fs := last states, dk_calls := dk_calls ?d + 2, dk_trace := dk_trace ?d @ states\<rparr>"
  have "log_event env kind shard epoch generation payload c = (Inr (), c\<lparr>ct_ticks := Suc (ct_ticks c), ct_epoch_log := ?l, ct_disk := ?d'\<rparr>)"
    using st ok assms(2,3) by (simp add: log_event_def read_clock_run append_event_def epoch_log_append_def Let_def)
  moreover have "reliable ?d'" using assms(1) by (simp add: reliable_def)
  ultimately show ?thesis using assms(2) by (intro that [of ?d' ?l]) simp_all
qed

section \<open>A campaign under way\<close>

definition ex_running :: "CampaignState \<Rightarrow> CampaignRecord" where
  "ex_running s = (ex_campaign s False)\<lparr>ca_manifest := ''manifest-1'', ca_shard := ''s1''\<rparr>"

definition ex_ctl :: "CampaignState \<Rightarrow> HandoffPhase \<Rightarrow> 'w \<Rightarrow> 'w EvolutionController" where
  "ex_ctl s p w = (controller_new ex_ctl_options (ex_disk Map.empty) (\<lambda>_. 50) (\<lambda>_. ex_token 9) (\<lambda>_. []) w)\<lparr>
     ct_authority := ex_registry, ct_manifest := Some ex_manifest, ct_campaign := Some (ex_running s),
     ct_handoff := Some (ex_handoff\<lparr>ho_phase := p\<rparr>), ct_incarnation := ex_node 5\<rparr>"

lemma ex_ctl_fields [simp]:
  "ct_options (ex_ctl s p w) = ex_ctl_options" "ct_authority (ex_ctl s p w) = ex_registry" "ct_manifest (ex_ctl s p w) = Some ex_manifest"
  "ct_campaign (ex_ctl s p w) = Some (ex_running s)" "ct_handoff (ex_ctl s p w) = Some (ex_handoff\<lparr>ho_phase := p\<rparr>)"
  "ct_incarnation (ex_ctl s p w) = ex_node 5" "ct_source_endpoint (ex_ctl s p w) = None" "ct_target_endpoint (ex_ctl s p w) = None"
  "ct_fenced_predecessor_claim (ex_ctl s p w) = None" "ct_last_deferral_reason (ex_ctl s p w) = []" "reliable (ct_disk (ex_ctl s p w))"
  "el_capacity (ct_epoch_log (ex_ctl s p w)) = 4096" "el_events (ct_epoch_log (ex_ctl s p w)) = []" "ct_clock (ex_ctl s p w) = (\<lambda>_. 50)"
  "ct_world (ex_ctl s p w) = w" "ct_last_source_report (ex_ctl s p w) = None"
  by (simp_all add: ex_ctl_def controller_new_def ex_reliable epoch_log_new_def kDefaultEpochLogCapacity_def)

lemma ex_manifest_fields [simp]: "mf_id ex_manifest = ''manifest-1''" "mf_shard ex_manifest = ''s1''" "mf_campaign ex_manifest = ''campaign-1''"
  by (simp_all add: ex_manifest_def example_manifest_def)

lemma incarnation_modest: "length (component x) \<le> 200 \<Longrightarrow> length (to_compact_string (uuid x)) \<le> 200 \<Longrightarrow> modest_json (incarnation_to_json x) 8 5000"
  unfolding incarnation_to_json_def
  by (rule modest_done [where n = 7], ((rule modest_intros | simp)+)[1], simp_all)

lemma transition_modest: "length (pt_note t) \<le> 200 \<Longrightarrow> modest_json (transition_to_json t) 7 8000"
  unfolding transition_to_json_def
  by (rule modest_done [where n = 6], ((rule modest_intros | simp add: names_short)+)[1], simp_all)

lemma handoff_modest:
  assumes "list_all (\<lambda>t. length t \<le> 200) [ho_campaign r, ho_shard r, ho_manifest r, ho_last_error r, component (ho_predecessor r), component (ho_successor r),
      to_compact_string (uuid (ho_predecessor r)), to_compact_string (uuid (ho_successor r)), to_compact_string (ho_token r)]"
    and "length (ho_manifest_digest r) = 32" "length (ho_snapshot_digest r) = 32" "\<not> incarnation_is_valid (ho_previous_predecessor r)"
    and "length (ho_history r) \<le> 8" "\<forall>t \<in> set (ho_history r). length (pt_note t) \<le> 200"
  shows "modest_json (handoff_to_json r) 9 100000"
proof -
  have "modest_json (JArray (map transition_to_json (ho_history r))) 8 64012"
    by (rule modest_list [where n = 7 and b = 8000]) (use assms(5,6) transition_modest in auto)
  moreover have "modest_json (incarnation_to_json (ho_predecessor r)) 8 5000" "modest_json (incarnation_to_json (ho_successor r)) 8 5000"
    by (rule incarnation_modest; use assms(1) in simp)+
  note parts = calculation this
  have skip: "set_if (incarnation_is_valid (ho_previous_predecessor r)) k v j = j" for k v j using assms(4) by (simp add: set_if_def)
  show ?thesis unfolding handoff_to_json_def Let_def skip
    by (rule modest_done [where n = 8, rotated -1], simp, ((rule parts modest_intros | use assms in \<open>simp add: names_short length_to_hex\<close>)+)[1], simp_all)
qed

lemma kinds_short: "length (epoch_event_kind_name k) \<le> 200" "length (mode_name m) \<le> 200" "length (lease_state_name s) \<le> 200"
  subgoal by (cases k) simp_all
  subgoal by (cases m) simp_all
  subgoal by (cases s) simp_all
  done

lemma event_json_modest:
  "length (ee_shard e) \<le> 200 \<Longrightarrow> modest_json (ee_payload e) 8 10000 \<Longrightarrow> modest_json (epoch_event_to_json e) 9 100000"
  unfolding epoch_event_to_json_def
  by (rule modest_done [where n = 8], ((rule modest_intros | assumption | simp add: kinds_short)+)[1], simp_all)

lemma modest_set_if:
  assumes "modest_object c j n b" "modest_json v n x" "length k \<le> 200"
  shows "modest_object (Suc c) (set_if p k v j) n (b + (6 * length k + 4 + x))"
  using modest_set [OF assms] assms(1) by (fastforce simp: set_if_def modest_object_def)

definition short_holder :: "IncarnationId \<Rightarrow> bool" where
  "short_holder i = (length (component i) \<le> 200 \<and> length (to_compact_string (uuid i)) \<le> 200)"

lemma holder_modest: "short_holder i \<Longrightarrow> modest_json (incarnation_to_json i) n 5000" if "1 < n"
  unfolding incarnation_to_json_def
  by (rule modest_done [where n = "n - 1"], ((rule modest_intros | use that in \<open>simp add: short_holder_def\<close>)+)[1], use that in simp_all)

lemma lease_modest:
  assumes "short_holder (lease_holder l)" "length (lease_shard l) \<le> 200" "length (to_compact_string (lease_token l)) \<le> 200"
    "length (lease_campaign l) \<le> 200" "length (lease_reason l) \<le> 200"
  shows "modest_json (lease_to_json l) 5 30000"
  unfolding lease_to_json_def Let_def
  by (rule modest_done [where n = 4], ((rule holder_modest modest_set_if modest_intros | use assms in \<open>simp add: kinds_short\<close>)+)[1], simp_all)

lemma fence_modest:
  assumes "short_holder (fence_target f)" "length (fence_shard f) \<le> 200" "length (fence_reason f) \<le> 200"
  shows "modest_json (fence_to_json f) 5 30000"
  unfolding fence_to_json_def Let_def
  by (rule modest_done [where n = 4], ((rule holder_modest modest_set_if modest_intros | use assms in \<open>simp add: kinds_short\<close>)+)[1], simp_all)

definition short_shard :: "ShardAuthority \<Rightarrow> bool" where
  "short_shard a =
     (length (sa_shard a) \<le> 200 \<and> length (leases a) \<le> 2 \<and> length (fences a) \<le> 1 \<and>
      list_all (\<lambda>l. short_holder (lease_holder l) \<and> length (lease_shard l) \<le> 200 \<and> length (to_compact_string (lease_token l)) \<le> 200 \<and>
        length (lease_campaign l) \<le> 200 \<and> length (lease_reason l) \<le> 200) (leases a) \<and>
      list_all (\<lambda>f. short_holder (fence_target f) \<and> length (fence_shard f) \<le> 200 \<and> length (fence_reason f) \<le> 200) (fences a))"

lemma shard_modest:
  assumes "short_shard a"
  shows "modest_json (shard_to_json a) 7 95000"
proof -
  have "modest_json (JArray (map lease_to_json (leases a))) 6 60004"
    by (rule modest_list [where n = 5 and b = 30000]) (use assms lease_modest in \<open>auto simp: short_shard_def list_all_iff\<close>)
  moreover have "modest_json (JArray (map fence_to_json (fences a))) 6 30003"
    by (rule modest_list [where n = 5 and b = 30000]) (use assms fence_modest in \<open>auto simp: short_shard_def list_all_iff\<close>)
  note parts = calculation this
  show ?thesis unfolding shard_to_json_def
    by (rule modest_done [where n = 6], ((rule parts modest_intros | use assms in \<open>simp add: short_shard_def\<close>)+)[1], simp_all)
qed

lemma registry_modest:
  assumes "shards r = [(s, a)]" "short_shard a"
  shows "modest_json (registry_to_json r) 9 100000"
proof -
  have part: "modest_json (JArray (map (\<lambda>e. shard_to_json (snd e)) (shards r))) 8 95003"
    by (rule modest_list [where n = 7 and b = 95000]) (use assms shard_modest in auto)
  show ?thesis unfolding registry_to_json_def
    by (rule modest_done [where n = 8], ((rule part modest_intros | simp)+)[1], simp_all)
qed

definition short_campaign :: "CampaignRecord \<Rightarrow> bool" where
  "short_campaign r =
     (list_all (\<lambda>t. length t \<le> 200) [ca_id r, ca_manifest r, ca_shard r, ca_detail r] \<and> length (ca_manifest_digest r) = 32 \<and>
      crossed_boundaries r = [''b1''] \<and> length (ca_events r) \<le> 8 \<and> list_all (\<lambda>e. length (ev_detail e) \<le> 200) (ca_events r))"

definition short_handoff :: "HandoffRecord \<Rightarrow> bool" where
  "short_handoff r =
     (list_all (\<lambda>t. length t \<le> 200) [ho_campaign r, ho_shard r, ho_manifest r, ho_last_error r, to_compact_string (ho_token r)] \<and>
      short_holder (ho_predecessor r) \<and> short_holder (ho_successor r) \<and>
      length (ho_manifest_digest r) = 32 \<and> length (ho_snapshot_digest r) = 32 \<and> \<not> incarnation_is_valid (ho_previous_predecessor r) \<and>
      length (ho_history r) \<le> 8 \<and> list_all (\<lambda>t. length (pt_note t) \<le> 200) (ho_history r))"

definition short_ctl :: "'w EvolutionController \<Rightarrow> bool" where
  "short_ctl c =
     (ct_options c = ex_ctl_options \<and> ct_manifest c = Some ex_manifest \<and> ct_incarnation c = ex_node 5 \<and>
      length (ct_last_deferral_reason c) \<le> 200 \<and> ct_campaign c \<noteq> None \<and> short_campaign (the (ct_campaign c)) \<and>
      ct_handoff c \<noteq> None \<and> short_handoff (the (ct_handoff c)) \<and>
      length (shards (ct_authority c)) = 1 \<and> short_shard (snd (hd (shards (ct_authority c)))) \<and>
      ct_fenced_predecessor_claim c \<in> {None, Some (claim_of ex_lease)})"

lemma short_ctl_text:
  assumes "short_ctl c"
  shows "json_fits ex_print_real ex_read_real wide_limits (controller_json c) 10" "json_canon (controller_json c) = stored_json c"
    "length (dump dtoa (controller_json c)) \<le> 500000"
proof -
  obtain k h s a where f: "ct_campaign c = Some k" "short_campaign k" "ct_handoff c = Some h" "short_handoff h"
      "shards (ct_authority c) = [(s, a)]" "short_shard a"
    using assms by (cases "shards (ct_authority c)") (auto simp: short_ctl_def)
  have k: "modest_json (campaign_to_json k) 9 100000"
    using f(2) by (intro campaign_modest) (auto simp: short_campaign_def list_all_iff)
  have h: "modest_json (handoff_to_json h) 9 100000"
    using f(4) by (intro handoff_modest) (auto simp: short_handoff_def short_holder_def list_all_iff)
  have r: "modest_json (registry_to_json (ct_authority c)) 9 100000" using f(5,6) by (rule registry_modest)
  have o: "ct_options c = ex_ctl_options" "ct_manifest c = Some ex_manifest" "ct_incarnation c = ex_node 5" "length (ct_last_deferral_reason c) \<le> 200"
    "ct_fenced_predecessor_claim c \<in> {None, Some (claim_of ex_lease)}" using assms by (simp_all add: short_ctl_def)
  show "json_fits ex_print_real ex_read_real wide_limits (controller_json c) 10" "json_canon (controller_json c) = stored_json c"
    "length (dump dtoa (controller_json c)) \<le> 500000"
    by (rule ctl_text [OF o(1-4) f(1) k f(3) h r o(5)])+
qed

lemma ex_save_short:
  assumes "reliable (ct_disk c)" "short_ctl c"
  obtains d where "controller_save env c = (Inr (), c\<lparr>ct_disk := d\<rparr>)" "reliable d"
  using ex_save [OF assms(1), of env] short_ctl_text(3) [OF assms(2)] that by blast

lemma short_ctl_cong:
  "short_ctl (c\<lparr>ct_ticks := n\<rparr>) = short_ctl c" "short_ctl (c\<lparr>ct_epoch_log := l\<rparr>) = short_ctl c" "short_ctl (c\<lparr>ct_disk := d\<rparr>) = short_ctl c"
  by (simp_all add: short_ctl_def)

lemma ex_log_ready:
  assumes "ex_ready n c" "n < 99" "length shard \<le> 200" "modest_json payload 8 10000"
  obtains l d where "log_event env kind shard epoch generation payload c =
      (Inr (), c\<lparr>ct_ticks := Suc (ct_ticks c), ct_epoch_log := l, ct_disk := d\<rparr>)"
    "ex_ready (Suc n) (c\<lparr>ct_ticks := Suc (ct_ticks c), ct_epoch_log := l, ct_disk := d\<rparr>)"
proof -
  have "modest_json (epoch_event_to_json \<lparr>ee_kind = kind, ee_shard = shard, ee_epoch = epoch, ee_generation = generation, ee_at_ms = at,
         ee_payload = payload\<rparr>) 9 100000" for at
    using assms(3,4) by (intro event_json_modest) simp_all
  note payload = this
  have r: "reliable (ct_disk c)" "el_capacity (ct_epoch_log c) = 4096" "length (el_events (ct_epoch_log c)) < 100"
    using assms(1,2) by (simp_all add: ex_ready_def)
  obtain l d where "log_event env kind shard epoch generation payload c = (Inr (), c\<lparr>ct_ticks := Suc (ct_ticks c), ct_epoch_log := l, ct_disk := d\<rparr>)"
      "reliable d" "el_capacity l = 4096" "length (el_events l) = Suc (length (el_events (ct_epoch_log c)))"
    using r payload by (rule ex_log)
  with assms(1) show ?thesis by (intro that [of d l]) (simp_all add: ex_ready_def)
qed

lemma ex_log_save:
  assumes "ex_ready n c" "n < 99" "length shard \<le> 200" "modest_json payload 8 10000" "short_ctl c"
  obtains l d where "act_then (log_event env kind shard epoch generation payload) (controller_save env) c =
      (Inr (), c\<lparr>ct_ticks := Suc (ct_ticks c), ct_epoch_log := l, ct_disk := d\<rparr>)"
    "ex_ready (Suc n) (c\<lparr>ct_ticks := Suc (ct_ticks c), ct_epoch_log := l, ct_disk := d\<rparr>)"
    "short_ctl (c\<lparr>ct_ticks := Suc (ct_ticks c), ct_epoch_log := l, ct_disk := d\<rparr>)"
proof -
  obtain l d where l: "log_event env kind shard epoch generation payload c = (Inr (), c\<lparr>ct_ticks := Suc (ct_ticks c), ct_epoch_log := l, ct_disk := d\<rparr>)"
      "ex_ready (Suc n) (c\<lparr>ct_ticks := Suc (ct_ticks c), ct_epoch_log := l, ct_disk := d\<rparr>)"
    using assms(1-4) by (rule ex_log_ready)
  let ?c = "c\<lparr>ct_ticks := Suc (ct_ticks c), ct_epoch_log := l, ct_disk := d\<rparr>"
  have s: "short_ctl ?c" using assms(5) by (simp add: short_ctl_cong)
  obtain d' where d': "controller_save env ?c = (Inr (), ?c\<lparr>ct_disk := d'\<rparr>)" "reliable d'"
    by (rule ex_save_short [OF _ s]) (use l(2) in \<open>simp add: ex_ready_def\<close>)
  show ?thesis by (rule that [of d' l]) (use l d' s in \<open>auto simp: act_then_def act_bind_def ex_ready_def short_ctl_cong\<close>)
qed

text \<open>The actions of the campaign and the phases of the handoff succeed.\<close>

lemma ex_apply_action:
  assumes "ex_ready n c" "n < 99" "short_ctl c" "ct_campaign c = Some k" "campaign_decision action k ex_manifest (ct_handoff c) = d" "accepted d" "\<not> deferred d"
    and "length (dec_reason d) \<le> 200" "length (dec_rule d) \<le> 200" "length (ca_events k) \<le> 6" "length (ca_shard k) \<le> 200"
  obtains c' where "apply_action env action c = (Inr (), c')" "ex_ready (Suc n) c'" "short_ctl c'" "ct_handoff c' = ct_handoff c"
    "ct_campaign c' = Some (campaign_moved action d (ct_clock c (ct_ticks c)) (ct_clock c (Suc (ct_ticks c))) k)"
    "ct_source_endpoint c' = ct_source_endpoint c" "ct_target_endpoint c' = ct_target_endpoint c" "ct_clock c' = ct_clock c"
    "ct_authority c' = ct_authority c" "ct_fenced_predecessor_claim c' = ct_fenced_predecessor_claim c" "ct_options c' = ct_options c"
proof -
  let ?c = "campaign_after_action action d k c"
  have m: "ct_manifest c = Some ex_manifest" using assms(3) by (simp add: short_ctl_def)
  have short: "short_ctl ?c"
    using assms by (auto simp: short_ctl_def campaign_after_action_def campaign_moved_def short_campaign_def list_all_iff trim_front_drop kMaxCampaignEvents_def)
  have payload: "modest_json (json_object
           [(''from'', JString (campaign_state_name (ca_state k))), (''to'', JString (campaign_state_name (next_state d))),
            (''action'', JString (campaign_action_name action)), (''rule'', JString (dec_rule d))]) 8 10000"
    unfolding json_object_def foldl.simps prod.case
    by (rule modest_done [where n = 7], ((rule modest_intros | simp add: names_short assms(9))+)[1], simp_all)
  have ready: "ex_ready n ?c" using assms(1) by (simp add: ex_ready_def campaign_after_action_def)
  obtain l e where l: "record_action env action k d ?c = (Inr (), ?c\<lparr>ct_ticks := Suc (ct_ticks ?c), ct_epoch_log := l, ct_disk := e\<rparr>)"
      "ex_ready (Suc n) (?c\<lparr>ct_ticks := Suc (ct_ticks ?c), ct_epoch_log := l, ct_disk := e\<rparr>)"
      "short_ctl (?c\<lparr>ct_ticks := Suc (ct_ticks ?c), ct_epoch_log := l, ct_disk := e\<rparr>)"
    unfolding record_action_def by (rule ex_log_save [OF ready assms(2,11) payload short])
  have "apply_action env action c = record_action env action k d ?c"
    using assms(4-7) m by (simp add: apply_action_def read_clock_run campaign_after_action_def Let_def)
  with l show ?thesis by (intro that [of "?c\<lparr>ct_ticks := Suc (ct_ticks ?c), ct_epoch_log := l, ct_disk := e\<rparr>"]) (simp_all add: campaign_after_action_def)
qed

end
