(* ===== verification/Controller_Examples.thy ===== *)
theory Controller_Examples
  imports Controller_Sizes
begin

text \<open>
  The properties of the controller applied to a campaign for one shard: requests to it, a rollback that is
  repeated, and the phases of a handoff with peers that answer from a script or are a node of the model.
\<close>

section \<open>Requests\<close>

definition ex_request_of :: "string \<Rightarrow> RpcRequest" where
  "ex_request_of op = \<lparr>rq_id = ''1'', rq_op = op, rq_body = JObject []\<rparr>"

definition ex_offline :: "unit ControllerEnv" where
  "ex_offline = ex_env (\<lambda>_ _ w. (Inl IoFailure, w))"

text \<open>A pause of a completed campaign is refused and changes nothing.\<close>

lemma ex_refused:
  assumes "is_terminal_state s" "ex_ctl s p w = c"
  shows "admin env (ex_request_of ''pause'') c = (Inl IllegalTransition, c)"
proof -
  have k: "ct_campaign c = Some (ex_running s)" "ct_manifest c = Some ex_manifest" "ct_handoff c = Some (ex_handoff\<lparr>ho_phase := p\<rparr>)"
    using assms(2) by auto
  have "ca_state (ex_running s) = s" "ca_manifest (ex_running s) = mf_id ex_manifest"
    by (simp_all add: ex_running_def ex_campaign_def)
  then have "\<not> accepted (campaign_decision Pause (ex_running s) ex_manifest (Some (ex_handoff\<lparr>ho_phase := p\<rparr>)))"
     "\<not> deferred (campaign_decision Pause (ex_running s) ex_manifest (Some (ex_handoff\<lparr>ho_phase := p\<rparr>)))"
    using assms(1) by (simp_all add: campaign_decision_def evaluate_campaign_action_def reject_def)
  then have "apply_action env Pause c = (Inl IllegalTransition, c)"
    using k by (simp add: apply_action_def act_fail_def)
  then show ?thesis
    by (simp add: admin_def ex_request_of_def run_then_status_def pause_def act_then_def act_bind_def)
qed

theorem controller_single_writer_witness:
  "{y. claim_shard y = ''s1'' \<and>
      validate_claim 60 y Mutating (ct_authority (run_requests ex_offline [ex_request_of ''pause''] (ex_ctl Completed PredecessorRetired ()))) = Ok} =
   {claim_of_lease ex_lease}"
proof -
  let ?c = "ex_ctl Completed PredecessorRetired () :: unit EvolutionController"
  let ?r = "run_requests ex_offline [ex_request_of ''pause''] ?c"
  have r: "?r = ?c" using ex_refused [of Completed PredecessorRetired "()" ?c ex_offline]
    by (simp add: run_requests_def is_terminal_state_def)
  have ok: "claim_shard (claim_of_lease ex_lease) = ''s1''" "validate_claim 60 (claim_of_lease ex_lease) Mutating ex_registry = Ok"
    by code_simp+
  have inv: "mono (ct_clock ?c)" "registry_inv (ct_clock ?c (ct_ticks ?c)) (ct_authority ?c)" "ct_clock ?c (ct_ticks ?r) \<le> 60"
    using registry_inv_mono [OF ex_inv, of 50] by (simp_all add: mono_def)
  have a: "ct_authority ?r = ex_registry" by (simp add: r)
  have "y = claim_of_lease ex_lease" if "claim_shard y = ''s1''" "validate_claim 60 y Mutating ex_registry = Ok" for y
  proof (rule controller_single_writer [OF inv(1,2) refl inv(3)])
    show "validate_claim 60 y Mutating (ct_authority ?r) = Ok" "validate_claim 60 (claim_of_lease ex_lease) Mutating (ct_authority ?r) = Ok"
      unfolding a by (rule that ok)+
    show "claim_shard y = claim_shard (claim_of_lease ex_lease)" using that(1) ok(1) by (rule trans [OF _ sym])
  qed
  with ok show ?thesis unfolding a by blast
qed

theorem controller_axis_monotone_witness:
  "\<exists>a'. find_shard (ct_authority (run_requests ex_offline [ex_request_of ''abort'', ex_request_of ''run''] (ex_ctl Running Prepared ()))) ''s1'' = Some a' \<and>
     axis_le ex_shard a'"
  by (rule controller_axis_monotone) (simp add: find_shard_def ex_registry_def)

lemma ex_running_fields [simp]:
  "ca_state (ex_running s) = s" "ca_manifest (ex_running s) = ''manifest-1''" "ca_shard (ex_running s) = ''s1''" "length (ca_events (ex_running s)) = 1"
  "irreversible_boundary_crossed (ex_running s) = False" "window_started_at_ms (ex_running s) = 100"
  by (simp_all add: ex_running_def ex_campaign_def)

text \<open>A pause of a running campaign succeeds.\<close>

lemma ex_ids_short: "short_holder (ex_node 1)" "short_holder (ho_predecessor ex_handoff)" "short_holder (ho_successor ex_handoff)"
  "length (to_compact_string uuid_nil) \<le> 200" "length (to_compact_string (ex_token 1)) \<le> 200"
  by code_simp+

lemma ex_ctl_short: "short_ctl (ex_ctl s p w)" "ex_ready 0 (ex_ctl s p w)"
proof -
  have "short_campaign (ex_running s)"
    by (simp add: short_campaign_def ex_running_def ex_campaign_def digest_zero_def)
  moreover have "short_handoff (ex_handoff\<lparr>ho_phase := p\<rparr>)"
    using ex_ids_short by (simp add: short_handoff_def) (simp add: ex_handoff_def digest_zero_def incarnation_none_def incarnation_is_valid_def name_is_valid_def)
  moreover have "short_shard ex_shard"
    using ex_ids_short by (simp add: short_shard_def ex_shard_def ex_lease_def)
  ultimately show "short_ctl (ex_ctl s p w)" by (simp add: short_ctl_def ex_registry_def)
  show "ex_ready 0 (ex_ctl s p w)" by (simp add: ex_ready_def)
qed

lemma status_keeps: "steps same_protocol status_json"
proof -
  have "steps same_protocol authority_json" by (rule stepsI) (auto simp: authority_json_def same_protocol_def protocol_view_def)
  then show ?thesis unfolding status_json_def window_now_def by (intro keep_rules keep_steps)
qed

lemma ex_pause:
  obtains r c' where "admin ex_offline (ex_request_of ''pause'') (ex_ctl Running Prepared ()) = (r, c')"
    "ct_handoff c' = Some ex_handoff" "map_option ca_state (ct_campaign c') = Some Paused"
proof -
  let ?c = "ex_ctl Running Prepared () :: unit EvolutionController"
  let ?d = "campaign_decision Pause (ex_running Running) ex_manifest (ct_handoff ?c)"
  have d: "accepted ?d" "\<not> deferred ?d" "length (dec_reason ?d) \<le> 200" "length (dec_rule ?d) \<le> 200" "next_state ?d = Paused"
    by (simp_all add: campaign_decision_def evaluate_campaign_action_def is_terminal_state_def is_authority_transition_window_def accept_def)
  obtain b where b: "apply_action ex_offline Pause ?c = (Inr (), b)" "ct_handoff b = ct_handoff ?c"
      "ct_campaign b = Some (campaign_moved Pause ?d (ct_clock ?c (ct_ticks ?c)) (ct_clock ?c (Suc (ct_ticks ?c))) (ex_running Running))"
    unfolding ex_offline_def
    by (rule ex_apply_action [OF ex_ctl_short(2) _ ex_ctl_short(1) ex_ctl_fields(4) refl]) (use d in simp_all)
  obtain r c' where c': "status_json b = (r, c')" by fastforce
  then have "admin ex_offline (ex_request_of ''pause'') ?c = (r, c')"
    using b(1) by (simp add: admin_def ex_request_of_def run_then_status_def pause_def act_then_def act_bind_def)
  moreover have "protocol_view c' = protocol_view b" using stepsD [OF status_keeps c'] by (simp add: same_protocol_def)
  moreover have "ex_handoff\<lparr>ho_phase := Prepared\<rparr> = ex_handoff" by (simp add: ex_handoff_def)
  ultimately show ?thesis using b d(5) that by (simp add: protocol_view_def campaign_moved_def)
qed

theorem controller_refines_protocol_witness:
  "\<exists>r c'. admin ex_offline (ex_request_of ''pause'') (ex_ctl Running Prepared ()) = (r, c') \<and>
     protocol_view c' = (Some ex_handoff, Some Paused) \<and> protocol_step\<^sup>*\<^sup>* (Some ex_handoff, Some Running) (protocol_view c') \<and>
     attempts_bounded (protocol_view c')"
proof -
  obtain r c' where c: "admin ex_offline (ex_request_of ''pause'') (ex_ctl Running Prepared ()) = (r, c')"
    "ct_handoff c' = Some ex_handoff" "map_option ca_state (ct_campaign c') = Some Paused" by (rule ex_pause)
  have "protocol_view (ex_ctl Running Prepared ()) = (Some ex_handoff, Some Running)" "ho_attempt ex_handoff = 1"
    by (simp_all add: protocol_view_def ex_handoff_def ex_running_def ex_campaign_def)
  with controller_refines_protocol [OF c(1)] c show ?thesis
    by (auto simp: attempts_bounded_def kMaxHandoffRestarts_def protocol_view_def)
qed

theorem no_way_back_after_transfer_witness:
  "settled (protocol_view (run_requests ex_offline [ex_request_of ''abort'', ex_request_of ''reconcile''] (ex_ctl Running AuthorityTransferred ()))) \<and>
   6 \<le> rank_of (protocol_view (run_requests ex_offline [ex_request_of ''abort'', ex_request_of ''reconcile''] (ex_ctl Running AuthorityTransferred ())))"
proof -
  have "ca_state (ex_running Running) = Running" by (simp add: ex_running_def ex_campaign_def)
  then have "settled (protocol_view (ex_ctl Running AuthorityTransferred ()))" "rank_of (protocol_view (ex_ctl Running AuthorityTransferred ())) = 6"
    by (simp_all add: settled_def protocol_view_def transferred_def rank_of_def reached_def phase_rank_def kForwardPhases_def is_forward_phase_def)
  with no_way_back_after_transfer [OF this(1), of ex_offline "[ex_request_of ''abort'', ex_request_of ''reconcile'']"] show ?thesis by simp
qed

theorem completed_handoff_is_kept_forever_witness:
  "\<exists>h. ct_handoff (run_requests ex_offline [ex_request_of ''plan'', ex_request_of ''preflight'', ex_request_of ''start''] (ex_ctl Completed PredecessorRetired ())) = Some h \<and>
     ho_id h = ho_id ex_handoff \<and> ho_phase h = PredecessorRetired"
proof -
  have "ca_state (ex_running Completed) = Completed" by (simp add: ex_running_def ex_campaign_def)
  with completed_handoff_is_kept_forever [of "ex_ctl Completed PredecessorRetired ()" "ex_handoff\<lparr>ho_phase := PredecessorRetired\<rparr>" ex_offline
      "[ex_request_of ''plan'', ex_request_of ''preflight'', ex_request_of ''start'']"]
  show ?thesis by simp
qed

section \<open>A rollback that is repeated\<close>

lemma ex_roll_back:
  assumes "short_ctl c" "ex_ready n c" "ct_source_endpoint c = None" "ct_target_endpoint c = None"
  obtains c' where "roll_back env m c = (Inr (), c')" "short_ctl c'" "ex_ready n c'" "ct_campaign c' = ct_campaign c"
proof -
  obtain h where h: "ct_handoff c = Some h" "short_handoff h" using assms(1) by (auto simp: short_ctl_def)
  let ?h = "h\<lparr>ho_phase := PhaseAborted, ho_updated_at_ms := ct_clock c (ct_ticks c), ho_last_error := ''campaign aborted before authority moved''\<rparr>"
  let ?c = "c\<lparr>ct_ticks := Suc (ct_ticks c), ct_handoff := Some ?h\<rparr>"
  have "roll_back env m c = (Inr (), ?c)"
    using assms(3,4) h(1)
    by (simp add: roll_back_def act_then_def read_clock_run update_handoff_def act_modify_def)
  moreover have "short_ctl ?c" using assms(1) h by (auto simp: short_ctl_def short_handoff_def)
  ultimately show ?thesis using assms(2) by (intro that [of ?c]) (simp_all add: ex_ready_def)
qed

theorem aborting_campaign_advances_and_rolls_back_witness:
  "\<exists>c' h'. abort ex_offline (ex_ctl Aborting AuthorityTransferred ()) = (Inr (), c') \<and> ct_handoff c' = Some h' \<and> ho_phase h' = PhaseAborted"
proof -
  let ?c = "ex_ctl Aborting AuthorityTransferred () :: unit EvolutionController"
  let ?d = "campaign_decision Abort (ex_running Aborting) ex_manifest (ct_handoff ?c)"
  have d: "accepted ?d" "\<not> deferred ?d" "length (dec_reason ?d) \<le> 200" "length (dec_rule ?d) \<le> 200"
    by (simp_all add: campaign_decision_def evaluate_campaign_action_def is_terminal_state_def accept_def reject_def)
  have d5: "next_state ?d = Aborting"
    unfolding campaign_decision_def evaluate_campaign_action_def by (simp add: is_terminal_state_def accept_def)
  obtain a where a: "apply_action ex_offline Abort ?c = (Inr (), a)" "ex_ready 1 a" "short_ctl a"
      "ct_campaign a = Some (campaign_moved Abort ?d (ct_clock ?c (ct_ticks ?c)) (ct_clock ?c (Suc (ct_ticks ?c))) (ex_running Aborting))"
      "ct_source_endpoint a = None" "ct_target_endpoint a = None"
    unfolding ex_offline_def
    by (rule ex_apply_action [OF ex_ctl_short(2) _ ex_ctl_short(1) ex_ctl_fields(4) refl]) (use d in simp_all)
  obtain b where b: "roll_back ex_offline ex_manifest a = (Inr (), b)" "short_ctl b" "ex_ready 1 b" "ct_campaign b = ct_campaign a"
    using a(3,2,5,6) by (rule ex_roll_back)
  let ?k = "campaign_moved Abort ?d (ct_clock ?c (ct_ticks ?c)) (ct_clock ?c (Suc (ct_ticks ?c))) (ex_running Aborting)"
  have k: "ct_campaign b = Some ?k" using a(4) b(4) by simp
  have kf: "ca_state ?k = Aborting" "ca_manifest ?k = ''manifest-1''" "length (ca_events ?k) \<le> 6" "ca_shard ?k = ''s1''"
    using d5 by (simp_all add: campaign_moved_def trim_front_drop kMaxCampaignEvents_def)
  let ?e = "campaign_decision ConfirmAbort ?k ex_manifest (ct_handoff b)"
  have e: "accepted ?e" "\<not> deferred ?e" "length (dec_reason ?e) \<le> 200" "length (dec_rule ?e) \<le> 200"
    using kf by (simp_all add: campaign_decision_def evaluate_campaign_action_def is_terminal_state_def accept_def)
  obtain x where x: "apply_action ex_offline ConfirmAbort b = (Inr (), x)" "short_ctl x" "ex_ready (Suc 1) x"
    unfolding ex_offline_def
    by (rule ex_apply_action [OF b(3) _ b(2) k refl]) (use e kf in simp_all)
  obtain y where y: "controller_save ex_offline x = (Inr (), x\<lparr>ct_disk := y\<rparr>)"
    unfolding ex_offline_def by (rule ex_save_short [OF _ x(2)]) (use x(3) in \<open>simp add: ex_ready_def\<close>)
  have st: "ca_state (the (ct_campaign a)) = Aborting" using a(4) kf(1) by simp
  have "abort ex_offline ?c = act_then (roll_back ex_offline ex_manifest) (act_then (apply_action ex_offline ConfirmAbort) (controller_save ex_offline)) a"
    using a(1) st by (simp add: abort_def act_then_def [of "apply_action _ Abort"] act_bind_def [of "apply_action _ Abort"])
  also have "\<dots> = (Inr (), x\<lparr>ct_disk := y\<rparr>)" using b(1) x(1) y by (simp add: act_then_def act_bind_def)
  finally have run: "abort ex_offline ?c = (Inr (), x\<lparr>ct_disk := y\<rparr>)" .
  have "ca_state (ex_running Aborting) = Aborting" by simp
  from aborting_campaign_advances_and_rolls_back [where c = ?c and c' = "x\<lparr>ct_disk := y\<rparr>" and env = ex_offline,
      OF ex_ctl_fields(4) this ex_ctl_fields(5) ex_ctl_fields(3)] run
  show ?thesis by blast
qed

section \<open>Phases that are recorded\<close>

lemma ex_record_phase:
  assumes "ex_ready n c" "n < 99" "short_ctl c" "ct_handoff c = Some h" "validate_handoff_transition (ho_phase h) to = Ok" "ho_phase h \<noteq> to"
    and "length why \<le> 200" "length (ho_history h) \<le> 6"
  obtains t l d where "record_phase env to why c = (Inr (), (moved_controller to why h c)\<lparr>ct_ticks := t, ct_epoch_log := l, ct_disk := d\<rparr>)"
    "ex_ready (Suc n) ((moved_controller to why h c)\<lparr>ct_ticks := t, ct_epoch_log := l, ct_disk := d\<rparr>)"
    "short_ctl ((moved_controller to why h c)\<lparr>ct_ticks := t, ct_epoch_log := l, ct_disk := d\<rparr>)"
proof -
  obtain k where k: "ct_campaign c = Some k" "ct_manifest c = Some ex_manifest" using assms(3) by (auto simp: short_ctl_def)
  let ?c = "moved_controller to why h c"
  have short: "short_ctl ?c"
    using assms(3,4,7,8) k
    by (auto simp: short_ctl_def moved_controller_def Let_def phase_moved_def short_handoff_def short_campaign_def trim_front_drop
        kMaxHandoffHistoryEntries_def)
  have payload: "modest_json (json_object [(''handoff'', JUInt (ho_id h)), (''from'', JString (phase_name (ho_phase h))),
          (''to'', JString (phase_name to)), (''note'', JString why)]) 8 10000"
    unfolding json_object_def foldl.simps prod.case
    by (rule modest_done [where n = 7], ((rule modest_intros | simp add: names_short assms(7))+)[1], simp_all)
  have ready: "ex_ready n ?c" using assms(1) by (simp add: ex_ready_def moved_controller_def Let_def)
  have shard: "length (ho_shard h) \<le> 200" using assms(3,4) by (simp add: short_ctl_def short_handoff_def)
  obtain l d where l: "log_phase env to why h ?c = (Inr (), ?c\<lparr>ct_ticks := Suc (ct_ticks ?c), ct_epoch_log := l, ct_disk := d\<rparr>)"
      "ex_ready (Suc n) (?c\<lparr>ct_ticks := Suc (ct_ticks ?c), ct_epoch_log := l, ct_disk := d\<rparr>)"
      "short_ctl (?c\<lparr>ct_ticks := Suc (ct_ticks ?c), ct_epoch_log := l, ct_disk := d\<rparr>)"
    unfolding log_phase_def by (rule ex_log_save [OF ready assms(2) shard payload short])
  have "record_phase env to why c = log_phase env to why h ?c"
    using assms(4-6) k by (simp add: record_phase_def act_then_def [of "act_check _"] act_bind_def [of "act_check _"] act_check_def read_clock_run
          log_phase_def moved_controller_def Let_def)
  with l show ?thesis by (intro that) simp_all
qed

section \<open>A restart after a phase\<close>

lemma ex_manifest_stored: "manifest_wf ex_manifest" "decision_verify ex_print_real (mf_compatibility ex_manifest) = Ok"
  "manifest_verify_digest ex_print_real ex_manifest = Ok"
proof -
  have d: "decision_wf ex_decision"
    by (simp add: decision_wf_def ex_decision_def decision_seal_def decision_digest_def digest_wf_text_digest)
      (simp add: example_decision_def example_names_valid software_wf_def features_known_def)
  have n: "name_is_valid_text ''s1''" by code_simp
  from d show "manifest_wf ex_manifest"
    using n by (simp add: manifest_wf_def ex_manifest_def manifest_digest_def digest_wf_text_digest)
      (simp add: example_manifest_def example_spec_def example_step_def spec_wf_def step_wf_def example_names_valid
        software_wf_def features_known_def digest_wf_def digest_zero_def codec_simps)
  show "decision_verify ex_print_real (mf_compatibility ex_manifest) = Ok"
    using decision_seal_verifies [of ex_print_real example_decision] by (simp add: ex_manifest_def example_manifest_def ex_decision_def)
  show "manifest_verify_digest ex_print_real ex_manifest = Ok"
    by (simp add: manifest_verify_digest_def ex_manifest_def manifest_digest_def manifest_body_def)
qed

lemma ex_stored: "registry_storable ex_registry" "incarnation_wf (ex_node 5)" "claim_wf (claim_of ex_lease)" "campaign_wf (ex_running s)" "handoff_wf ex_handoff"
proof -
  show "registry_storable ex_registry" by code_simp
  show "incarnation_wf (ex_node 5)" by code_simp
  show "claim_wf (claim_of ex_lease)" by code_simp
  show "campaign_wf (ex_running s)" by (simp add: campaign_wf_def ex_running_def ex_campaign_def) code_simp
  show "handoff_wf ex_handoff" by code_simp
qed

lemma ex_ctl_storable:
  assumes "short_ctl c" "ct_authority c = ex_registry" "ct_fenced_predecessor_claim c = None" "campaign_wf (the (ct_campaign c))" "handoff_wf (the (ct_handoff c))"
  shows "controller_storable (ex_env call) c"
proof -
  have "ct_manifest c = Some ex_manifest" "ct_incarnation c = ex_node 5" "ct_campaign c \<noteq> None" "ct_handoff c \<noteq> None"
    using assms(1) by (simp_all add: short_ctl_def)
  moreover have "json_fits ex_print_real ex_read_real default_parse_limits (controller_json c) (Suc (max_depth default_parse_limits))"
    by (rule json_fits_mono [OF short_ctl_text(1) [OF assms(1)]]) (simp_all add: wide_limits_def default_parse_limits_def)
  moreover have "length (dump ex_print_real (controller_json c)) \<le> max_bytes default_parse_limits"
    by (rule order_trans [OF short_ctl_text(3) [OF assms(1)]]) (simp add: default_parse_limits_def)
  ultimately show ?thesis
    using assms(2-5) short_ctl_text(2) [OF assms(1)] ex_manifest_stored ex_stored by (auto simp: controller_storable_def)
qed

text \<open>Peers that accept everything.\<close>

definition ex_accept :: "unit ControllerEnv" where
  "ex_accept = ex_env (\<lambda>_ req w. (Inr \<lparr>rs_id = rq_id req, rs_op = rq_op req, rs_status = Ok, rs_body = JObject [], rs_suppress_response = False\<rparr>, w))"

definition ex_bound :: "CampaignState \<Rightarrow> HandoffPhase \<Rightarrow> 'w \<Rightarrow> 'w EvolutionController" where
  "ex_bound s p w = (ex_ctl s p w)\<lparr>ct_source_endpoint := Some ex_source_end, ct_target_endpoint := Some ex_target_end\<rparr>"

lemma ex_bound_fields [simp]:
  "ct_options (ex_bound s p w) = ex_ctl_options" "ct_authority (ex_bound s p w) = ex_registry" "ct_manifest (ex_bound s p w) = Some ex_manifest"
  "ct_campaign (ex_bound s p w) = Some (ex_running s)" "ct_handoff (ex_bound s p w) = Some (ex_handoff\<lparr>ho_phase := p\<rparr>)"
  "ct_source_endpoint (ex_bound s p w) = Some ex_source_end" "ct_target_endpoint (ex_bound s p w) = Some ex_target_end"
  "ct_fenced_predecessor_claim (ex_bound s p w) = None" "ct_clock (ex_bound s p w) = (\<lambda>_. 50)" "ct_world (ex_bound s p w) = w"
  "ct_last_source_report (ex_bound s p w) = None"
  by (simp_all add: ex_bound_def)

lemma ex_bound_short: "short_ctl (ex_bound s p w)" "ex_ready 0 (ex_bound s p w)"
  using ex_ctl_short [of s p w] by (simp_all add: short_ctl_def ex_bound_def ex_ready_def)

lemma ex_transition: "next_phase p = Some q \<Longrightarrow> validate_handoff_transition p q = Ok \<and> p \<noteq> q"
  by (cases p) (auto simp: next_phase_def validate_handoff_transition_def is_forward_phase_def phase_rank_def kForwardPhases_def)

lemma ex_history [simp]: "length (ho_history ex_handoff) = 1"
  by (simp add: ex_handoff_def)

lemma ex_accept_call: "node_call ex_accept e op body c = (Inr (JObject []), c)"
  by (simp add: node_call_def peer_call_def ex_accept_def)

lemma ex_complete:
  assumes "ca_state k = Running" "ca_manifest k = ''manifest-1''" "ho_phase h = PredecessorRetired"
  shows "accepted (campaign_decision Complete k ex_manifest (Some h))" "\<not> deferred (campaign_decision Complete k ex_manifest (Some h))"
    "length (dec_reason (campaign_decision Complete k ex_manifest (Some h))) \<le> 200"
    "length (dec_rule (campaign_decision Complete k ex_manifest (Some h))) \<le> 200"
proof -
  have "reached h SuccessorVerified" using assms(3) by (simp add: reached_def phase_rank_def kForwardPhases_def is_forward_phase_def)
  then show "accepted (campaign_decision Complete k ex_manifest (Some h))" "\<not> deferred (campaign_decision Complete k ex_manifest (Some h))"
    "length (dec_reason (campaign_decision Complete k ex_manifest (Some h))) \<le> 200"
    "length (dec_rule (campaign_decision Complete k ex_manifest (Some h))) \<le> 200"
    using assms by (simp_all add: campaign_decision_def evaluate_campaign_action_def is_terminal_state_def accept_def)
qed

lemma ex_retire:
  obtains c' where "advance_retire ex_accept (ex_bound Running SuccessorVerified ()) = (Inr (), c')" "controller_storable ex_accept c'"
    "ct_options c' = ex_ctl_options"
proof -
  let ?c = "ex_bound Running SuccessorVerified () :: unit EvolutionController"
  let ?h = "ex_handoff\<lparr>ho_phase := SuccessorVerified\<rparr>"
  let ?note = "''predecessor retired; successor is authoritative''"
  have v: "(0 :: nat) < 99" "validate_handoff_transition (ho_phase ?h) PredecessorRetired = Ok" "ho_phase ?h \<noteq> PredecessorRetired"
    "length ?note \<le> 200" "length (ho_history ?h) \<le> 6"
    by (simp_all add: validate_handoff_transition_def next_phase_def is_forward_phase_def phase_rank_def kForwardPhases_def)
  obtain t l d where r: "record_phase ex_accept PredecessorRetired ?note ?c =
      (Inr (), (moved_controller PredecessorRetired ?note ?h ?c)\<lparr>ct_ticks := t, ct_epoch_log := l, ct_disk := d\<rparr>)"
      "ex_ready (Suc 0) ((moved_controller PredecessorRetired ?note ?h ?c)\<lparr>ct_ticks := t, ct_epoch_log := l, ct_disk := d\<rparr>)"
      "short_ctl ((moved_controller PredecessorRetired ?note ?h ?c)\<lparr>ct_ticks := t, ct_epoch_log := l, ct_disk := d\<rparr>)"
    unfolding ex_accept_def
    by (rule ex_record_phase [OF ex_bound_short(2) v(1) ex_bound_short(1) ex_bound_fields(5) v(2-5)])
  let ?b = "(moved_controller PredecessorRetired ?note ?h ?c)\<lparr>ct_ticks := t, ct_epoch_log := l, ct_disk := d\<rparr>"
  let ?k = "the (ct_campaign ?b)"
  have k: "ct_campaign ?b = Some ?k" "ca_state ?k = Running" "ca_manifest ?k = ''manifest-1''" "length (ca_events ?k) = 1" "ca_shard ?k = ''s1''"
    by (simp_all add: moved_controller_def Let_def)
  have h: "ho_phase (the (ct_handoff ?b)) = PredecessorRetired" "ct_handoff ?b \<noteq> None"
    by (simp_all add: moved_controller_def Let_def phase_moved_def)
  let ?e = "campaign_decision Complete ?k ex_manifest (ct_handoff ?b)"
  have e: "accepted ?e" "\<not> deferred ?e" "length (dec_reason ?e) \<le> 200" "length (dec_rule ?e) \<le> 200"
    using ex_complete [OF k(2,3)] h by auto
  obtain c' where c': "apply_action ex_accept Complete ?b = (Inr (), c')" "short_ctl c'" "ct_handoff c' = ct_handoff ?b"
      "ct_campaign c' = Some (campaign_moved Complete ?e (ct_clock ?b (ct_ticks ?b)) (ct_clock ?b (Suc (ct_ticks ?b))) ?k)"
      "ct_authority c' = ct_authority ?b" "ct_fenced_predecessor_claim c' = ct_fenced_predecessor_claim ?b" "ct_options c' = ct_options ?b"
    unfolding ex_accept_def
    by (rule ex_apply_action [OF r(2) _ r(3) k(1) refl]) (use e k(4,5) in simp_all)
  have "campaign_wf (the (ct_campaign c'))"
    using ex_stored(4) [of Running] c'(4) by (simp add: campaign_wf_def campaign_moved_def moved_controller_def Let_def)
  moreover have "handoff_wf (the (ct_handoff c'))"
    using ex_stored(5) c'(3) by (simp add: handoff_wf_def moved_controller_def Let_def phase_moved_def)
  ultimately have "controller_storable ex_accept c'"
    unfolding ex_accept_def using c'(2,5,6) by (intro ex_ctl_storable) (simp_all add: moved_controller_def Let_def)
  moreover have "advance_retire ex_accept ?c = (Inr (), c')"
    using r(1) c'(1) by (simp add: advance_retire_def source_endpoint_def current_handoff_def act_bind_def [of "node_call _ _ _ _"] act_bind_def [of "record_phase _ _ _"]
        act_then_def ex_accept_call)
  ultimately show ?thesis using c'(7) by (intro that [of c']) (simp_all add: moved_controller_def Let_def)
qed

theorem acknowledged_phase_survives_restart_witness:
  "\<exists>c' r' :: unit EvolutionController. advance_phase ex_accept SuccessorVerified (ex_bound Running SuccessorVerified ()) = (Inr (), c') \<and>
     resumes c' r' \<and> map_option ho_phase (ct_handoff r') = Some PredecessorRetired"
proof -
  let ?c = "ex_bound Running SuccessorVerified () :: unit EvolutionController"
  obtain c' where c: "advance_retire ex_accept ?c = (Inr (), c')" "controller_storable ex_accept c'" "ct_options c' = ex_ctl_options"
    by (rule ex_retire)
  have a: "ct_handoff ?c = Some (ex_handoff\<lparr>ho_phase := SuccessorVerified\<rparr>)" "next_phase (ho_phase (ex_handoff\<lparr>ho_phase := SuccessorVerified\<rparr>)) = Some PredecessorRetired"
    "advance_phase ex_accept (ho_phase (ex_handoff\<lparr>ho_phase := SuccessorVerified\<rparr>)) ?c = (Inr (), c')"
    using c(1) by (simp_all add: next_phase_def is_forward_phase_def phase_rank_def kForwardPhases_def advance_phase_def)
  let ?r = "controller_new ex_ctl_options (ct_disk c') (\<lambda>_. 50) (\<lambda>_. ex_token 9) (\<lambda>_. []) ()"
  have r: "fresh_controller ?r" "ct_options ?r = ct_options c'" "dk_fs (ct_disk ?r) = dk_fs (ct_disk c')"
    using c(3) by (simp_all add: fresh_controller_def controller_new_def)
  obtain r' where r': "resumes c' r'" "map_option ho_phase (ct_handoff r') = Some PredecessorRetired"
    using acknowledged_phase_survives_restart [OF a c(2) r] by blast
  have "advance_phase ex_accept SuccessorVerified ?c = (Inr (), c')" using c(1) by (simp add: advance_phase_def)
  with r' show ?thesis by blast
qed

section \<open>A verified successor\<close>

definition ex_report_body :: json where
  "ex_report_body = json_object [(''report'', json_object [(''component'', JString ''node''), (''shard'', JString ''s1''),
     (''incarnation'', incarnation_to_json (ex_node 1)), (''token'', JString (to_compact_string (ex_token 1))),
     (''epoch'', JUInt 1), (''generation'', JUInt 2), (''has_authority'', JBool True)])]"

definition ex_answer :: "json \<Rightarrow> RpcResponse" where
  "ex_answer body = \<lparr>rs_id = ''1'', rs_op = [], rs_status = Ok, rs_body = body, rs_suppress_response = False\<rparr>"

text \<open>The source refuses every call, the target holds the authority.\<close>

definition ex_target :: "unit ControllerEnv" where
  "ex_target = ex_env (\<lambda>e req w. (if ep_role e = ''source'' then Inl IoFailure else Inr (ex_answer ex_report_body), w))"

lemma ex_roles: "ep_role ex_source_end = ''source''" "ep_role ex_target_end = ''target''"
  by (simp_all add: ex_source_end_def ex_target_end_def endpoint_of_def)

lemma ex_target_call:
  "node_call ex_target ex_source_end op body c = (Inl IoFailure, c)" "node_call ex_target ex_target_end op body c = (Inr ex_report_body, c)"
  by (simp_all add: node_call_def peer_call_def ex_target_def ex_roles ex_answer_def)

lemma ex_attested:
  obtains view report where "authority_view 50 ''s1'' ex_registry = Inr view" "view_mutating view = Some ex_lease"
    "report_from_body ex_report_body = Inr report" "attests report ex_lease"
proof -
  have "case authority_view 50 ''s1'' ex_registry of Inl _ \<Rightarrow> False | Inr v \<Rightarrow> view_mutating v = Some ex_lease" by code_simp
  moreover have "case report_from_body ex_report_body of Inl _ \<Rightarrow> False | Inr r \<Rightarrow> attests r ex_lease" by code_simp
  ultimately show ?thesis using that by (auto split: sum.splits)
qed

definition ex_moved :: "unit EvolutionController" where
  "ex_moved = (ex_bound Running AuthorityTransferred ())\<lparr>ct_fenced_predecessor_claim := Some (claim_of ex_lease)\<rparr>"

lemma ex_moved_fields [simp]:
  "ct_manifest ex_moved = Some ex_manifest" "ct_handoff ex_moved = Some (ex_handoff\<lparr>ho_phase := AuthorityTransferred\<rparr>)"
  "ct_source_endpoint ex_moved = Some ex_source_end" "ct_target_endpoint ex_moved = Some ex_target_end"
  "ct_fenced_predecessor_claim ex_moved = Some (claim_of ex_lease)" "ct_clock ex_moved = (\<lambda>_. 50)" "ct_authority ex_moved = ex_registry"
  by (simp_all add: ex_moved_def)

lemma ex_verify:
  obtains c' where "advance_verify ex_target ex_moved = (Inr (), c')"
proof -
  let ?c = "ex_moved\<lparr>ct_ticks := Suc (ct_ticks ex_moved)\<rparr>"
  let ?h = "ex_handoff\<lparr>ho_phase := AuthorityTransferred\<rparr>"
  let ?note = "''successor attested authority and the predecessor was proven fenced''"
  obtain view report where v: "authority_view 50 ''s1'' ex_registry = Inr view" "view_mutating view = Some ex_lease"
    "report_from_body ex_report_body = Inr report" "attests report ex_lease" by (rule ex_attested)
  have s: "short_ctl ?c" "ex_ready 0 ?c" "ct_handoff ?c = Some ?h"
    using ex_bound_short [of Running AuthorityTransferred "()"] by (simp_all add: ex_moved_def short_ctl_def ex_ready_def)
  have p: "(0 :: nat) < 99" "validate_handoff_transition (ho_phase ?h) SuccessorVerified = Ok" "ho_phase ?h \<noteq> SuccessorVerified"
    "length ?note \<le> 200" "length (ho_history ?h) \<le> 6"
    by (simp_all add: validate_handoff_transition_def next_phase_def is_forward_phase_def phase_rank_def kForwardPhases_def)
  obtain c' where c': "record_phase ex_target SuccessorVerified ?note ?c = (Inr (), c')"
    unfolding ex_target_def by (rule ex_record_phase [OF s(2) p(1) s(1,3) p(2-5)])
  have "recorded_authority (mf_shard (the (ct_manifest ex_moved))) ex_moved = (Inr ex_lease, ?c)"
    using v(1,2) by (simp add: recorded_authority_def registry_view_def read_clock_run act_bind_def [of "act_try _"] act_try_def act_result_def)
  moreover have "node_report ex_target ex_target_end ?c = (Inr report, ?c)"
    using v(3) by (simp add: node_report_def act_bind_def ex_target_call act_result_def)
  moreover have "probe_predecessor ex_target ?c = (Inr (), ?c)"
    by (simp add: probe_predecessor_def source_endpoint_def act_bind_def [of "act_try _"] act_try_def ex_target_call act_check_def)
  ultimately have "advance_verify ex_target ex_moved = (Inr (), c')"
    using v(4) c' by (simp add: advance_verify_def shard_of_def target_endpoint_def act_bind_def [of "recorded_authority _"]
        act_bind_def [of "node_report _ _"] act_then_def act_bind_def [of "act_check _"] act_check_def act_bind_def [of "probe_predecessor _"]
        act_bind_def [of "node_call _ _ _ _"] ex_target_call)
  then show ?thesis by (rule that)
qed

theorem verified_successor_attested_authority_witness:
  "\<exists>c' view lease body w report. advance_verify ex_target ex_moved = (Inr (), c') \<and> authority_view 50 ''s1'' ex_registry = Inr view \<and>
     view_mutating view = Some lease \<and> peer_call ex_target ex_target_end ''node.status'' (JObject []) () = (Inr body, w) \<and>
     report_from_body body = Inr report \<and> attests report lease \<and> map_option ho_phase (ct_handoff c') = Some SuccessorVerified"
proof -
  obtain c' where c': "advance_verify ex_target ex_moved = (Inr (), c')" by (rule ex_verify)
  have "ho_phase (ex_handoff\<lparr>ho_phase := AuthorityTransferred\<rparr>) = AuthorityTransferred" by simp
  from verified_successor_attested_authority [OF c' ex_moved_fields(1,2) this ex_moved_fields(3,4)] c'
  show ?thesis by auto
qed

section \<open>A fenced predecessor\<close>

definition ex_predecessor :: ControlPlaneNode where
  "ex_predecessor = (ex_serving Map.empty)\<lparr>nd_incarnation := ex_node 1, nd_lease := None\<rparr>"

text \<open>The component in each role, and a network that delivers every call.\<close>

definition ex_network :: "(string \<Rightarrow> ControlPlaneNode) ControllerEnv" where
  "ex_network = ex_env (\<lambda>e req w. case node_handle ex_print_real ex_clock req (w (ep_role e)) of (resp, n) \<Rightarrow> (Inr resp, w(ep_role e := n)))"

lemma ex_network_once: "at_most_once ex_print_real ex_network (\<lambda>w. w)"
  by (auto simp: at_most_once_def ex_network_def split: prod.splits)

definition ex_outstanding :: FenceRecord where
  "ex_outstanding = hd (fences (snd (hd (shards ex_fenced))))"

definition ex_acknowledged :: AuthorityRegistry where
  "ex_acknowledged = fst (acknowledge_fence 50 ''s1'' (ex_node 1) (fence_id ex_outstanding) ex_fenced)"

lemma ex_fence_registry:
  "case authority_view 50 ''s1'' ex_fenced of Inl _ \<Rightarrow> False | Inr v \<Rightarrow> last_outstanding (ex_node 1) (view_fences v) = Some ex_outstanding"
  "snd (acknowledge_fence 50 ''s1'' (ex_node 1) (fence_id ex_outstanding) ex_fenced) = Ok"
  "length (shards ex_acknowledged) = 1" "short_shard (snd (hd (shards ex_acknowledged)))"
  "length (shards ex_fenced) = 1" "short_shard (snd (hd (shards ex_fenced)))"
  "ho_predecessor ex_handoff = ex_node 1" "fence_id ex_outstanding = 1" "length (incarnation_to_string (ex_node 1)) \<le> 200"
  by code_simp+

lemma ex_predecessor_small:
  "small_json (state_json (ex_predecessor\<lparr>nd_lifecycle := NodeFenced, nd_lease_confirmed := False, nd_last_fence_id := 1\<rparr>))"
  by (simp add: ex_predecessor_def ex_state_defs small_json_def small_limits_def ex_texts ex_node_def)

lemma ex_fence_delivered:
  obtains n body where "node_handle ex_print_real ex_clock \<lparr>rq_id = ''controller-call'', rq_op = ''node.fence'', rq_body = fence_body (ex_handoff\<lparr>ho_phase := ReadinessVerified\<rparr>) ex_outstanding\<rparr>
      ex_predecessor = (\<lparr>rs_id = ''controller-call'', rs_op = ''node.fence'', rs_status = Ok, rs_body = body, rs_suppress_response = False\<rparr>, n)"
proof -
  let ?b = "fence_body (ex_handoff\<lparr>ho_phase := ReadinessVerified\<rparr>) ex_outstanding"
  let ?n = "ex_predecessor\<lparr>nd_lifecycle := NodeFenced, nd_lease_confirmed := False, nd_last_fence_id := 1\<rparr>"
  have b: "parse_handoff_id ?b = Inr 7" "json_u64 ?b ''fence_id'' = Some 1" "json_find ?b ''target'' = Some (incarnation_to_json (ex_node 1))"
    using ex_fence_registry(7,8) by (simp_all add: fence_body_def parse_handoff_id_def json_field_defs codec_simps) (simp_all add: ex_handoff_def)
  have i: "incarnation_wf (ex_node 1)" by code_simp
  obtain d where "save_state ex_print_real ?n = (Ok, ?n\<lparr>nd_disk := d\<rparr>)"
    using saved_ok [OF _ ex_predecessor_small] ex_reliable by (auto simp: ex_predecessor_def)
  moreover have e: "ex_predecessor\<lparr>nd_lifecycle := NodeFenced, nd_lease_confirmed := False,
      nd_lease := map_option (\<lambda>l. l\<lparr>lease_state := Fenced, attested := False\<rparr>) (nd_lease ex_predecessor), nd_last_fence_id := 1\<rparr> = ?n"
    by (simp add: ex_predecessor_def)
  moreover have f: "nd_lifecycle ex_predecessor = NodeServing" "nd_incarnation ex_predecessor = ex_node 1" by (simp_all add: ex_predecessor_def)
  ultimately obtain x where x: "node_fence ex_print_real ?b ex_predecessor = (Inr x, ?n\<lparr>nd_disk := d\<rparr>)"
    by (simp add: node_fence_def checked_def b incarnation_codec.round_trip i saved_def codec_simps)
  have "take_fault ''node.fence'' ex_predecessor = (None, ex_predecessor)" by (simp add: take_fault_def ex_predecessor_def)
  with x show ?thesis
    by (intro that [of x "?n\<lparr>nd_disk := d\<rparr>"]) (simp add: node_handle_def node_dispatch_def reply_to_def result_status_def)
qed

definition ex_fencing :: "(string \<Rightarrow> ControlPlaneNode) EvolutionController" where
  "ex_fencing = (ex_bound Running ReadinessVerified (\<lambda>_. ex_predecessor))\<lparr>ct_authority := ex_fenced\<rparr>"

lemma ex_fencing_fields [simp]:
  "ct_manifest ex_fencing = Some ex_manifest" "ct_handoff ex_fencing = Some (ex_handoff\<lparr>ho_phase := ReadinessVerified\<rparr>)"
  "ct_source_endpoint ex_fencing = Some ex_source_end" "ct_last_source_report ex_fencing = None" "ct_clock ex_fencing = (\<lambda>_. 50)"
  "ct_authority ex_fencing = ex_fenced" "ct_world ex_fencing = (\<lambda>_. ex_predecessor)"
  by (simp_all add: ex_fencing_def)

lemma ex_acknowledge:
  assumes "ct_clock c = (\<lambda>_. 50)" "ct_authority c = ex_fenced"
  shows "registry_acknowledge ''s1'' (ex_node 1) (fence_id ex_outstanding) c = (Inr (), c\<lparr>ct_ticks := Suc (ct_ticks c), ct_authority := ex_acknowledged\<rparr>)"
  using assms ex_fence_registry(2)
  by (simp add: registry_acknowledge_def read_clock_run on_registry_def ex_acknowledged_def case_prod_unfold)

lemma ex_deliver_fence:
  assumes "short_ctl c" "ex_ready 0 c" "ct_authority c = ex_fenced" "ct_clock c = (\<lambda>_. 50)" "ct_source_endpoint c = Some ex_source_end"
    "ct_handoff c = Some (ex_handoff\<lparr>ho_phase := ReadinessVerified\<rparr>)" "ct_world c = (\<lambda>_. ex_predecessor)"
  obtains c' where "deliver_fence ex_network ''s1'' (ex_handoff\<lparr>ho_phase := ReadinessVerified\<rparr>) ex_outstanding c = (Inr (), c')"
proof -
  let ?h = "ex_handoff\<lparr>ho_phase := ReadinessVerified\<rparr>" and ?f = ex_outstanding
  let ?h1 = "?h\<lparr>ho_fence := fence_id ?f, ho_epoch := fence_epoch ?f, ho_generation := fence_generation ?f\<rparr>"
  let ?note = "''predecessor acknowledged the fence''"
  obtain n body where n: "node_handle ex_print_real ex_clock \<lparr>rq_id = ''controller-call'', rq_op = ''node.fence'', rq_body = fence_body ?h ?f\<rparr>
      ex_predecessor = (\<lparr>rs_id = ''controller-call'', rs_op = ''node.fence'', rs_status = Ok, rs_body = body, rs_suppress_response = False\<rparr>, n)"
    by (rule ex_fence_delivered)
  let ?c1 = "c\<lparr>ct_world := (\<lambda>_. ex_predecessor)(''source'' := n)\<rparr>"
  have call: "node_call ex_network ex_source_end ''node.fence'' (fence_body ?h ?f) c = (Inr body, ?c1)"
    using n assms(7) by (simp add: node_call_def peer_call_def ex_network_def ex_roles)
  let ?c2 = "?c1\<lparr>ct_ticks := Suc (ct_ticks ?c1), ct_authority := ex_acknowledged\<rparr>"
  have ack: "registry_acknowledge ''s1'' (ho_predecessor ?h) (fence_id ?f) ?c1 = (Inr (), ?c2)"
    using ex_acknowledge [of ?c1] assms(3,4) ex_fence_registry(7) by simp
  let ?c3 = "?c2\<lparr>ct_handoff := Some ?h1\<rparr>"
  have update: "update_handoff (\<lambda>h. h\<lparr>ho_fence := fence_id ?f, ho_epoch := fence_epoch ?f, ho_generation := fence_generation ?f\<rparr>) ?c2 = (Inr (), ?c3)"
    using assms(6) by (simp add: update_handoff_def act_modify_def)
  have short: "short_ctl ?c3" "ex_ready 0 ?c3"
    using assms(1,2,6) ex_fence_registry(3,4) by (auto simp: short_ctl_def ex_ready_def short_handoff_def)
  let ?payload = "json_object [(''fence_id'', JUInt (fence_id ?f)), (''holder'', JString (incarnation_to_string (ho_predecessor ?h)))]"
  have payload: "modest_json ?payload 8 10000"
    unfolding json_object_def foldl.simps prod.case
    by (rule modest_done [where n = 7], ((rule modest_intros | simp add: ex_fence_registry(7,9))+)[1], simp_all)
  have q: "(0 :: nat) < 99" "length ''s1'' \<le> 200" by simp_all
  obtain l d where log: "log_event ex_network FenceAcknowledged ''s1'' (fence_epoch ?f) (fence_generation ?f) ?payload ?c3 =
        (Inr (), ?c3\<lparr>ct_ticks := Suc (ct_ticks ?c3), ct_epoch_log := l, ct_disk := d\<rparr>)"
      "ex_ready (Suc 0) (?c3\<lparr>ct_ticks := Suc (ct_ticks ?c3), ct_epoch_log := l, ct_disk := d\<rparr>)"
    unfolding ex_network_def by (rule ex_log_ready [OF short(2) q payload])
  let ?c4 = "?c3\<lparr>ct_ticks := Suc (ct_ticks ?c3), ct_epoch_log := l, ct_disk := d\<rparr>"
  have s4: "short_ctl ?c4" "ct_handoff ?c4 = Some ?h1" using short(1) by (simp_all add: short_ctl_def)
  have p: "Suc 0 < 99" "validate_handoff_transition (ho_phase ?h1) PredecessorFenced = Ok" "ho_phase ?h1 \<noteq> PredecessorFenced"
    "length ?note \<le> 200" "length (ho_history ?h1) \<le> 6"
    by (simp_all add: validate_handoff_transition_def next_phase_def is_forward_phase_def phase_rank_def kForwardPhases_def)
  obtain c' where c': "record_phase ex_network PredecessorFenced ?note ?c4 = (Inr (), c')"
    unfolding ex_network_def by (rule ex_record_phase [OF log(2) p(1) s4 p(2-5)])
  have "deliver_fence ex_network ''s1'' ?h ?f c = (Inr (), c')"
    using call ack update log(1) c' assms(5)
    by (simp add: deliver_fence_def source_endpoint_def act_bind_def [of "act_try _"] act_try_def act_then_def
        act_bind_def [of "registry_acknowledge _ _ _"] act_bind_def [of "update_handoff _"] act_bind_def [of "log_event _ _ _ _ _ _"])
  then show ?thesis by (rule that)
qed

theorem acknowledged_fence_stops_predecessor_witness:
  "\<exists>c' resp n'. advance_fence ex_network ex_fencing = (Inr (), c') \<and> map_option ho_phase (ct_handoff c') = Some PredecessorFenced \<and>
     node_handle ex_print_real ex_clock ex_write (node_step ex_print_real (ct_world c' ''source'') (ex_clock, ex_write)) = (resp, n') \<and> rs_status resp \<noteq> Ok"
proof -
  let ?h = "ex_handoff\<lparr>ho_phase := ReadinessVerified\<rparr>"
  let ?c = "ex_fencing\<lparr>ct_ticks := Suc (ct_ticks ex_fencing)\<rparr>"
  obtain view where v: "authority_view 50 ''s1'' ex_fenced = Inr view" "last_outstanding (ex_node 1) (view_fences view) = Some ex_outstanding"
    using ex_fence_registry(1) by (auto split: sum.splits)
  have s: "short_ctl ?c" "ex_ready 0 ?c"
    using ex_bound_short [of Running ReadinessVerified "(\<lambda>_. ex_predecessor) :: string \<Rightarrow> ControlPlaneNode"] ex_fence_registry(5,6)
    by (simp_all add: ex_fencing_def short_ctl_def ex_ready_def)
  obtain c' where c': "deliver_fence ex_network ''s1'' ?h ex_outstanding ?c = (Inr (), c')"
    by (rule ex_deliver_fence [OF s]) simp_all
  have "registry_view ''s1'' ex_fencing = (Inr view, ?c)"
    using v(1) by (simp add: registry_view_def read_clock_run act_result_def)
  then have "advance_fence ex_network ex_fencing = (Inr (), c')"
    using v(2) c' ex_fence_registry(7)
    by (simp add: advance_fence_def shard_of_def current_handoff_def act_bind_def [of "registry_view _"] node_is_down_def fence_to_deliver_def)
  note run = this
  obtain resp n' where n: "node_handle ex_print_real ex_clock ex_write (foldl (node_step ex_print_real) (ct_world c' (ep_role ex_source_end)) [(ex_clock, ex_write)]) = (resp, n')"
    by fastforce
  have h: "ho_phase ?h = ReadinessVerified" "\<not> node_is_down (ct_last_source_report ex_fencing)"
    "\<forall>x \<in> set [(ex_clock, ex_write)]. rq_op (snd x) \<noteq> ''node.grant_authority''" "rq_op ex_write = ''node.write''"
    by (simp_all add: node_is_down_def ex_write_fields(1))
  from acknowledged_fence_stops_predecessor [where node = "\<lambda>w. w", OF ex_network_once ex_fencing_fields(3) h(2) ex_fencing_fields(2) h(1) run h(3,4) n] n run
  show ?thesis by (auto simp: ex_roles)
qed

end
