(* ===== verification/Connection.thy ===== *)
theory Connection
  imports Framing Rpc Text_Codec
begin

text \<open>
  The connections of \<^verbatim>\<open>include/fabric/evolution/transport.hpp\<close> and \<^verbatim>\<open>src/transport.cpp\<close>:
  \<^verbatim>\<open>TcpConnection\<close>, \<^verbatim>\<open>TcpListener\<close>, \<^verbatim>\<open>rpc_call\<close> and one round of \<^verbatim>\<open>FabricServer::serve\<close>. The kernel's
  side of a socket is the record \<open>Socket\<close>: the answers of its next \<^verbatim>\<open>recv\<close> and \<^verbatim>\<open>send\<close> calls, and the
  bytes it took over. A call with no answer left blocks, and then the operation has not returned
  (\<open>None\<close>); a socket that was shut down never blocks.
\<close>

section \<open>Sockets\<close>

type_synonym SocketHandle = u64

definition kInvalidSocket :: SocketHandle where
  "kInvalidSocket = - 1"

definition kReceiveChunkBytes :: nat where
  "kReceiveChunkBytes = 16 * 1024"

datatype Errno = EAGAIN | EWOULDBLOCK | ETIMEDOUT | OtherErrno nat

fun would_block :: "Errno \<Rightarrow> bool" where
  "would_block EAGAIN = True"
| "would_block EWOULDBLOCK = True"
| "would_block ETIMEDOUT = True"
| "would_block (OtherErrno n) = False"

text \<open>What a \<^verbatim>\<open>recv\<close> call returns: bytes (none at the end of the stream) or -1 with an error; what a
  \<^verbatim>\<open>send\<close> call returns: the number of bytes the kernel took, or -1, with \<^verbatim>\<open>errno\<close>.\<close>

datatype RecvAnswer = Received string | RecvFailed Errno

record SendAnswer =
  send_result :: int
  send_errno :: Errno

record Socket =
  to_receive :: "RecvAnswer list"
  to_send :: "SendAnswer list"
  wire :: string
  is_shut :: bool
  io_deadline :: "u64 option"

definition shutdown_socket :: "SocketHandle \<Rightarrow> Socket \<Rightarrow> Socket" where
  "shutdown_socket h sk = (if h = kInvalidSocket then sk else sk\<lparr>is_shut := True\<rparr>)"

definition recv_call :: "Socket \<Rightarrow> (RecvAnswer \<times> Socket) option" where
  "recv_call sk =
     (case to_receive sk of
        [] \<Rightarrow> if is_shut sk then Some (Received [], sk) else None
      | a # rest \<Rightarrow> Some (a, sk\<lparr>to_receive := rest\<rparr>))"

text \<open>A send on a socket that was shut down fails with \<^verbatim>\<open>EPIPE\<close>; the kernel never takes more bytes than
  it was offered.\<close>

definition send_call :: "string \<Rightarrow> Socket \<Rightarrow> (SendAnswer \<times> Socket) option" where
  "send_call offered sk =
     (if is_shut sk then Some (\<lparr>send_result = - 1, send_errno = OtherErrno 32\<rparr>, sk)
      else case to_send sk of
        [] \<Rightarrow> None
      | a # rest \<Rightarrow>
          let n = min (send_result a) (int (length offered)) in
          Some (a\<lparr>send_result := n\<rparr>, sk\<lparr>to_send := rest, wire := wire sk @ take (nat n) offered\<rparr>))"

text \<open>\<^verbatim>\<open>apply_deadline\<close>; \<open>accepted\<close> says whether the kernel accepted the socket option.\<close>

definition apply_deadline :: "bool \<Rightarrow> u64 \<Rightarrow> Socket \<Rightarrow> Socket \<times> Status" where
  "apply_deadline accepted deadline_ms sk =
     (if deadline_ms = 0 then (sk, Ok)
      else if deadline_ms > 3600000 then (sk, BoundsExceeded)
      else if \<not> accepted then (sk, IoFailure)
      else (sk\<lparr>io_deadline := Some deadline_ms\<rparr>, Ok))"

definition int32_max :: nat where
  "int32_max = 2 ^ 31 - 1"

text \<open>The loop of \<^verbatim>\<open>send_all\<close>; a call that takes no byte ends it.\<close>

function send_all :: "string \<Rightarrow> nat \<Rightarrow> Socket \<Rightarrow> (Socket \<times> Status) option" where
  "send_all data sent sk =
     (if sent < length data then
        let chunk = take int32_max (drop sent data) in
        case send_call chunk sk of
          None \<Rightarrow> None
        | Some (a, sk') \<Rightarrow>
            if send_result a \<le> 0 then Some (sk', if would_block (send_errno a) then DeadlineExceeded else IoFailure)
            else send_all data (sent + nat (send_result a)) sk'
      else Some (sk, Ok))"
  by pat_completeness auto
termination
  by (relation "measure (\<lambda>(data, sent, sk). length data - sent)") auto

declare send_all.simps [simp del]

section \<open>Connections\<close>

record TcpConnection =
  handle :: SocketHandle
  decoder :: FrameDecoder
  conn_limits :: FrameLimits
  peer :: string

definition new_connection :: "SocketHandle \<Rightarrow> FrameLimits \<Rightarrow> string \<Rightarrow> TcpConnection" where
  "new_connection h limits p =
     \<lparr>handle = h, decoder = \<lparr>dec_buffer = [], dec_limits = limits\<rparr>, conn_limits = limits, peer = p\<rparr>"

definition is_open :: "TcpConnection \<Rightarrow> bool" where
  "is_open c = (handle c \<noteq> kInvalidSocket)"

definition set_io_deadline_ms :: "bool \<Rightarrow> u64 \<Rightarrow> TcpConnection \<Rightarrow> Socket \<Rightarrow> Socket" where
  "set_io_deadline_ms accepted deadline_ms c sk =
     (if handle c \<noteq> kInvalidSocket then fst (apply_deadline accepted deadline_ms sk) else sk)"

definition send_frame :: "TcpConnection \<Rightarrow> string \<Rightarrow> u8 \<Rightarrow> Socket \<Rightarrow> (Socket \<times> Status) option" where
  "send_frame c body fl sk =
     (if handle c = kInvalidSocket then Some (sk, IoFailure)
      else case encode_frame body fl (conn_limits c) of
        Inl e \<Rightarrow> Some (sk, e)
      | Inr encoded \<Rightarrow> send_all encoded 0 sk)"

text \<open>The loop of \<^verbatim>\<open>receive_frame\<close>. It returns the first of the frames that a chunk completed; the
  others are in a local vector and end with the call.\<close>

definition end_of_stream :: "FrameDecoder \<Rightarrow> Status" where
  "end_of_stream d = (if decoder_finish d \<noteq> Ok then decoder_finish d else IoFailure)"

function receive_loop :: "FrameDecoder \<Rightarrow> Socket \<Rightarrow> (FrameDecoder \<times> Socket \<times> Frame Result) option" where
  "receive_loop d sk =
     (case recv_call sk of
        None \<Rightarrow> None
      | Some (RecvFailed e, sk') \<Rightarrow> Some (d, sk', Inl (if would_block e then DeadlineExceeded else IoFailure))
      | Some (Received chunk, sk') \<Rightarrow>
          if chunk = [] then Some (d, sk', Inl (end_of_stream d))
          else case decoder_feed chunk d [] of
            (d', frames, status) \<Rightarrow>
              if status \<noteq> Ok then Some (d', sk', Inl status)
              else case frames of
                f # _ \<Rightarrow> Some (d', sk', Inr f)
              | [] \<Rightarrow> receive_loop d' sk')"
  by pat_completeness auto
termination
  by (relation "measure (\<lambda>(d, sk). length (to_receive sk))")
    (auto simp: recv_call_def split: list.splits if_splits)

declare receive_loop.simps [simp del]

definition receive_frame :: "TcpConnection \<Rightarrow> Socket \<Rightarrow> (TcpConnection \<times> Socket \<times> Frame Result) option" where
  "receive_frame c sk =
     (if handle c = kInvalidSocket then Some (c, sk, Inl IoFailure)
      else case receive_loop (decoder c) sk of
        None \<Rightarrow> None
      | Some (d, sk', r) \<Rightarrow> Some (c\<lparr>decoder := d\<rparr>, sk', r))"

text \<open>\<^verbatim>\<open>shutdown\<close> and \<^verbatim>\<open>close\<close> of a connection; whoever closes it first wakes a call that waits on the socket.\<close>

definition connection_shutdown :: "TcpConnection \<Rightarrow> Socket \<Rightarrow> Socket" where
  "connection_shutdown c sk = shutdown_socket (handle c) sk"

definition connection_close :: "TcpConnection \<Rightarrow> Socket \<Rightarrow> TcpConnection \<times> Socket" where
  "connection_close c sk =
     (if handle c \<noteq> kInvalidSocket then (c\<lparr>handle := kInvalidSocket\<rparr>, shutdown_socket (handle c) sk) else (c, sk))"

section \<open>Listeners\<close>

text \<open>A resolved address and what the calls made for it in turn answer: the loop of \<^verbatim>\<open>TcpListener::bind\<close>
  takes the first address that can be bound. The port is read from the address the kernel reports; it stays
  0 for an address of another family.\<close>

datatype SockAddr = Inet string u16 | Inet6 string u16 | OtherFamily

datatype BindAnswer = NoSocket | BindFailed | ListenFailed | NameFailed | Listening SocketHandle SockAddr

fun port_of :: "SockAddr \<Rightarrow> u16" where
  "port_of (Inet _ p) = p"
| "port_of (Inet6 _ p) = p"
| "port_of OtherFamily = 0"

record TcpListener =
  l_handle :: SocketHandle
  l_port :: u16
  l_limits :: FrameLimits

definition closed_listener :: TcpListener where
  "closed_listener = \<lparr>l_handle = kInvalidSocket, l_port = 0, l_limits = default_limits\<rparr>"

fun bind_loop :: "BindAnswer list \<Rightarrow> SocketHandle \<times> u16" where
  "bind_loop [] = (kInvalidSocket, 0)"
| "bind_loop (Listening h address # _) = (h, port_of address)"
| "bind_loop (_ # rest) = bind_loop rest"

text \<open>\<^verbatim>\<open>resolved\<close> is the answer of \<^verbatim>\<open>getaddrinfo\<close>: nothing, or the addresses.\<close>

definition listener_bind :: "BindAnswer list option \<Rightarrow> nat \<Rightarrow> TcpListener Result" where
  "listener_bind resolved backlog =
     (if backlog = 0 \<or> backlog > 4096 then Inl BoundsExceeded
      else case resolved of
        None \<Rightarrow> Inl IoFailure
      | Some answers \<Rightarrow>
          let (h, p) = bind_loop answers in
          if h = kInvalidSocket then Inl IoFailure
          else Inr (closed_listener\<lparr>l_handle := h, l_port := p\<rparr>))"

definition describe_peer :: "SockAddr \<Rightarrow> string" where
  "describe_peer address =
     (case address of
        Inet host p \<Rightarrow> host @ '':'' @ nat_to_string (unat p)
      | Inet6 host p \<Rightarrow> ''['' @ host @ '']:'' @ nat_to_string (unat p)
      | OtherFamily \<Rightarrow> ''unknown'')"

definition accept_one :: "TcpListener \<Rightarrow> (SocketHandle \<times> SockAddr) option \<Rightarrow> TcpConnection Result" where
  "accept_one l answer =
     (if l_handle l = kInvalidSocket then Inl IoFailure
      else case answer of
        None \<Rightarrow> Inl IoFailure
      | Some (h, address) \<Rightarrow> Inr (new_connection h (l_limits l) (describe_peer address)))"

section \<open>Serving one request\<close>

record ServerOptions =
  bind_host :: string
  bind_port :: u16
  worker_threads :: nat
  max_queued_connections :: nat
  max_requests_per_connection :: nat
  io_deadline_ms :: u64
  frame_limits :: FrameLimits

definition default_server_options :: ServerOptions where
  "default_server_options =
     \<lparr>bind_host = ''127.0.0.1'', bind_port = 0, worker_threads = 16, max_queued_connections = 64, max_requests_per_connection = 1000000,
      io_deadline_ms = 30000, frame_limits = default_limits\<rparr>"

record RequestContext =
  ctx_peer :: string
  ctx_connection_id :: u64

text \<open>What the handler does with a request, on a state of its own: it answers a response, with the message
  and the detail of its status, or it throws. The texts that go on the wire and that the model of a status
  leaves out come from \<open>WireText\<close>: the printed and the read double, and the message for a request that
  could not be decoded.\<close>

datatype HandlerOutcome = Answered RpcResponse string json | Threw "string option"

type_synonym 's RpcHandler = "RpcRequest \<Rightarrow> RequestContext \<Rightarrow> 's \<Rightarrow> HandlerOutcome \<times> 's"

record WireText =
  print_double :: "u64 \<Rightarrow> string"
  read_double :: "string \<Rightarrow> u64 option"
  refusal_message :: "string \<Rightarrow> string"

definition thrown_message :: "string option \<Rightarrow> string" where
  "thrown_message what = (case what of Some w \<Rightarrow> ''handler threw: '' @ w | None \<Rightarrow> ''handler threw an unknown exception'')"

definition respond :: "WireText \<Rightarrow> 's RpcHandler \<Rightarrow> RequestContext \<Rightarrow> string \<Rightarrow> 's \<Rightarrow> RpcResponse \<times> string \<times> json \<times> 's" where
  "respond texts handler context body app =
     (case decode_rpc_request (read_double texts) body of
        Inl e \<Rightarrow>
          (\<lparr>rs_id = [], rs_op = [], rs_status = e, rs_body = JObject [], rs_suppress_response = False\<rparr>,
           refusal_message texts body, JNull, app)
      | Inr request \<Rightarrow>
          case handler request context app of
            (Answered response message detail, app') \<Rightarrow> (response, message, detail, app')
          | (Threw what, app') \<Rightarrow>
              (\<lparr>rs_id = rq_id request, rs_op = rq_op request, rs_status = Internal, rs_body = JObject [],
                rs_suppress_response = False\<rparr>, thrown_message what, JNull, app'))"

text \<open>One round of the loop of \<^verbatim>\<open>serve\<close> after its test of \<^verbatim>\<open>stopping_\<close>. The round says whether the loop goes
  on, and whether a request was handled.\<close>

record 's Round =
  rd_conn :: TcpConnection
  rd_socket :: Socket
  rd_app :: 's
  rd_handled :: bool
  rd_continue :: bool

definition serve_round ::
  "WireText \<Rightarrow> 's RpcHandler \<Rightarrow> ServerOptions \<Rightarrow> u64 \<Rightarrow> nat \<Rightarrow> TcpConnection \<Rightarrow> Socket \<Rightarrow> 's \<Rightarrow> 's Round option" where
  "serve_round texts handler opts connection_id served c sk app =
     (case receive_frame c sk of
        None \<Rightarrow> None
      | Some (c1, sk1, Inl e) \<Rightarrow>
          Some \<lparr>rd_conn = c1, rd_socket = sk1, rd_app = app, rd_handled = False, rd_continue = False\<rparr>
      | Some (c1, sk1, Inr frame) \<Rightarrow>
          if served \<ge> max_requests_per_connection opts then
            Some \<lparr>rd_conn = c1, rd_socket = sk1, rd_app = app, rd_handled = False, rd_continue = False\<rparr>
          else
            let context = \<lparr>ctx_peer = peer c, ctx_connection_id = connection_id\<rparr>;
                (response, message, detail, app') = respond texts handler context (payload frame) app
            in if rs_suppress_response response then
                 Some \<lparr>rd_conn = c1, rd_socket = sk1, rd_app = app', rd_handled = True, rd_continue = False\<rparr>
               else
                 case send_frame c1 (encode_rpc_response (print_double texts) message detail response)
                        (flag_bits FlagResponse) sk1 of
                   None \<Rightarrow> None
                 | Some (sk2, status) \<Rightarrow>
                     Some \<lparr>rd_conn = c1, rd_socket = sk2, rd_app = app', rd_handled = True, rd_continue = (status = Ok)\<rparr>)"

section \<open>Calling a peer\<close>

datatype ConnectAnswer = NoClientSocket | ConnectFailed | Connected SocketHandle

fun connect_loop :: "ConnectAnswer list \<Rightarrow> SocketHandle" where
  "connect_loop [] = kInvalidSocket"
| "connect_loop (Connected h # _) = h"
| "connect_loop (_ # rest) = connect_loop rest"

text \<open>\<^verbatim>\<open>rpc_call\<close>, with the answers of \<^verbatim>\<open>getaddrinfo\<close> and \<^verbatim>\<open>connect\<close>, whether the deadline was accepted, and
  the socket the connection gets.\<close>

definition rpc_call ::
  "WireText \<Rightarrow> ConnectAnswer list option \<Rightarrow> bool \<Rightarrow> string \<Rightarrow> u16 \<Rightarrow> RpcRequest \<Rightarrow> ServerOptions \<Rightarrow> Socket \<Rightarrow>
   (Socket \<times> RpcResponse Result) option" where
  "rpc_call texts resolved accepted host port request opts sk0 =
     (case resolved of
        None \<Rightarrow> Some (sk0, Inl IoFailure)
      | Some answers \<Rightarrow>
          let h = connect_loop answers in
          if h = kInvalidSocket then Some (sk0, Inl IoFailure)
          else
            let c = new_connection h (frame_limits opts) (host @ '':'' @ nat_to_string (unat port));
                sk = set_io_deadline_ms accepted (io_deadline_ms opts) c sk0
            in case send_frame c (encode_rpc_request (print_double texts) request) 0 sk of
                 None \<Rightarrow> None
               | Some (sk1, status) \<Rightarrow>
                   if status \<noteq> Ok then Some (sk1, Inl status)
                   else case receive_frame c sk1 of
                     None \<Rightarrow> None
                   | Some (_, sk2, Inl e) \<Rightarrow> Some (sk2, Inl e)
                   | Some (_, sk2, Inr frame) \<Rightarrow> Some (sk2, decode_rpc_response (read_double texts) (payload frame)))"

section \<open>What the calls do to a socket\<close>

lemma send_call_frame:
  "send_call offered sk = Some (a, sk') \<Longrightarrow>
     to_receive sk' = to_receive sk \<and> is_shut sk' = is_shut sk \<and> io_deadline sk' = io_deadline sk \<and>
     wire sk' = wire sk @ take (nat (send_result a)) offered \<and> send_result a \<le> int (length offered)"
  by (auto simp: send_call_def Let_def split: if_splits list.splits)

text \<open>Whatever the kernel answers, the bytes that go out are a prefix of the data, and all of it exactly when
  the call succeeds.\<close>

lemma send_all_prefix:
  assumes "send_all data sent sk = Some (sk', status)" "sent \<le> length data"
  shows "\<exists>k. sent \<le> k \<and> k \<le> length data \<and> wire sk' = wire sk @ take (k - sent) (drop sent data) \<and>
    to_receive sk' = to_receive sk \<and> is_shut sk' = is_shut sk \<and> (status = Ok \<longleftrightarrow> k = length data)"
  using assms
proof (induction data sent sk rule: send_all.induct)
  case (1 data sent sk)
  show ?case
  proof (cases "sent < length data")
    case False
    with 1(2,3) have "sk' = sk \<and> status = Ok" by (simp add: send_all.simps [of data sent])
    with 1(3) False show ?thesis by (intro exI [of _ sent]) simp
  next
    case True
    let ?chunk = "take int32_max (drop sent data)"
    from 1(2) True obtain a sk1 where c: "send_call ?chunk sk = Some (a, sk1)"
      by (subst (asm) send_all.simps) (auto simp: Let_def split: option.splits)
    note f = send_call_frame [OF c]
    show ?thesis
    proof (cases "send_result a \<le> 0")
      case True
      with 1(2) \<open>sent < _\<close> c have "sk' = sk1 \<and> status \<noteq> Ok"
        by (subst (asm) send_all.simps) (auto simp: Let_def split: if_splits)
      with f True 1(3) \<open>sent < _\<close> show ?thesis by (intro exI [of _ sent]) auto
    next
      case False
      let ?n = "nat (send_result a)"
      have r: "send_all data (sent + ?n) sk1 = Some (sk', status)"
        using 1(2) False True c by (subst (asm) send_all.simps) (simp add: Let_def)
      have n: "?n \<le> int32_max" "sent + ?n \<le> length data" using f False True by auto
      from 1(1) [OF True refl c refl False r n(2)] obtain k where k: "sent + ?n \<le> k" "k \<le> length data"
          "wire sk' = wire sk1 @ take (k - (sent + ?n)) (drop (sent + ?n) data)"
          "to_receive sk' = to_receive sk1" "is_shut sk' = is_shut sk1" "status = Ok \<longleftrightarrow> k = length data" by blast
      have "take ?n ?chunk = take ?n (drop sent data)" using n(1) by (simp add: min_absorb1)
      moreover have "take ?n (drop sent data) @ take (k - (sent + ?n)) (drop (sent + ?n) data) = take (k - sent) (drop sent data)"
        using k(1) take_add [of ?n "k - (sent + ?n)" "drop sent data"] by (simp add: add.commute)
      ultimately have "wire sk' = wire sk @ take (k - sent) (drop sent data)" using k(3) f by simp
      with k f show ?thesis by (intro exI [of _ k]) auto
    qed
  qed
qed




section \<open>Receiving a frame in pieces\<close>

text \<open>A chunk as \<^verbatim>\<open>recv\<close> returns it, with room for it in the buffer of the decoder.\<close>

definition chunk_ok :: "FrameLimits \<Rightarrow> string \<Rightarrow> bool" where
  "chunk_ok limits chunk = (chunk \<noteq> [] \<and> length chunk \<le> kReceiveChunkBytes \<and> chunk_fits limits chunk)"

lemma receive_loop_chunk:
  assumes "to_receive sk = Received chunk # rest" "chunk \<noteq> []"
  shows "receive_loop d sk =
    (case decoder_feed chunk d [] of
       (d', frames, status) \<Rightarrow>
         if status \<noteq> Ok then Some (d', sk\<lparr>to_receive := rest\<rparr>, Inl status)
         else case frames of
           f # _ \<Rightarrow> Some (d', sk\<lparr>to_receive := rest\<rparr>, Inr f)
         | [] \<Rightarrow> receive_loop d' (sk\<lparr>to_receive := rest\<rparr>))"
  using assms by (subst receive_loop.simps) (simp add: recv_call_def)

lemma strict_prefix_appendD: "strict_prefix (xs @ ys) zs \<Longrightarrow> strict_prefix xs zs"
  by (rule prefix_order.le_less_trans [of _ "xs @ ys"]) simp_all

text \<open>The bytes of any frames \<open>fs\<close> come in pieces, and the last piece completes the first of them and
  possibly more: the call answers the first frame, and whatever else the last piece completed is gone.\<close>

lemma receive_loop_first:
  assumes "list_all (frame_ok (dec_limits d)) (f # gs @ hs)" "strict_prefix (dec_buffer d @ concat chunks) (frame_bytes f)"
    and "dec_buffer d @ concat chunks @ chunk = stream_of (f # gs) @ q" "pending q hs"
    and "list_all (chunk_ok (dec_limits d)) (chunks @ [chunk])" "limits_ok (dec_limits d)"
    and "to_receive sk = map Received (chunks @ [chunk]) @ rest"
  shows "receive_loop d sk = Some (d\<lparr>dec_buffer := q\<rparr>, sk\<lparr>to_receive := rest\<rparr>, Inr f)"
  using assms
proof (induction chunks arbitrary: d sk)
  case Nil
  have "length (dec_buffer d) < kFrameHeaderBytes + max_payload_bytes (dec_limits d)"
    using Nil(1,2) length_pending [of "dec_buffer d" "[f]" "dec_limits d"] by (simp add: pending_def)
  then have "length (dec_buffer d) + length chunk \<le> max_buffered_bytes (dec_limits d)"
    using Nil(5) by (simp add: chunk_ok_def chunk_fits_def)
  then have "decoder_feed chunk d [] = (d\<lparr>dec_buffer := q\<rparr>, [] @ f # gs, Ok)"
    using Nil by (intro decoder_feed_stream [where hs = hs]) (simp_all add: chunk_ok_def)
  with Nil(5,7) show ?case by (simp add: receive_loop_chunk [where rest = rest] chunk_ok_def)
next
  case (Cons c cs)
  let ?d = "d\<lparr>dec_buffer := dec_buffer d @ c\<rparr>"
  have sp: "strict_prefix (dec_buffer d @ c) (frame_bytes f)" "strict_prefix (dec_buffer d) (frame_bytes f)"
    using Cons.prems(2) strict_prefix_appendD [of "dec_buffer d @ c" "concat cs"] strict_prefix_appendD [of "dec_buffer d" "c @ concat cs"]
    by simp_all
  have "length (dec_buffer d) < kFrameHeaderBytes + max_payload_bytes (dec_limits d)"
    using Cons.prems(1) sp length_pending [of "dec_buffer d" "[f]" "dec_limits d"] by (simp add: pending_def)
  then have "length (dec_buffer d) + length c \<le> max_buffered_bytes (dec_limits d)"
    using Cons.prems(5) by (simp add: chunk_ok_def chunk_fits_def)
  then have feed: "decoder_feed c d [] = (?d, [] @ [], Ok)"
    using Cons.prems sp by (intro decoder_feed_stream [where hs = "f # gs @ hs"]) (simp_all add: pending_def chunk_ok_def)
  have "receive_loop ?d (sk\<lparr>to_receive := map Received (cs @ [chunk]) @ rest\<rparr>) =
      Some (?d\<lparr>dec_buffer := q\<rparr>, (sk\<lparr>to_receive := map Received (cs @ [chunk]) @ rest\<rparr>)\<lparr>to_receive := rest\<rparr>, Inr f)"
    by (rule Cons.IH) (use Cons.prems in simp_all)
  with feed Cons.prems(5,7) show ?case
    by (simp add: receive_loop_chunk [where rest = "map Received (cs @ [chunk]) @ rest"] chunk_ok_def)
qed


lemma receive_loop_consumes: "receive_loop d sk = Some (d', sk', Inr f) \<Longrightarrow> length (to_receive sk') < length (to_receive sk)"
proof (induction d sk rule: receive_loop.induct)
  case (1 d sk)
  from 1(2) obtain a sk1 where r: "recv_call sk = Some (a, sk1)"
    by (subst (asm) receive_loop.simps) (auto split: option.splits)
  with 1(2) obtain chunk where a: "a = Received chunk" "chunk \<noteq> []"
    by (subst (asm) receive_loop.simps) (auto split: RecvAnswer.splits if_splits)
  with r have len: "length (to_receive sk1) < length (to_receive sk)"
    by (auto simp: recv_call_def split: list.splits if_splits)
  obtain d1 frames status where f: "decoder_feed chunk d [] = (d1, frames, status)" by (metis prod_cases3)
  show ?case
  proof (cases "status = Ok \<and> frames = []")
    case True
    with 1(2) r a f have "receive_loop d1 sk1 = Some (d', sk', Inr f)"
      by (subst (asm) receive_loop.simps) simp
    with 1(1) [OF r refl a(1) a(2) f [symmetric]] True len show ?thesis by fastforce
  next
    case False
    with 1(2) r a f have "sk' = sk1"
      by (subst (asm) receive_loop.simps) (auto split: if_splits list.splits)
    with len show ?thesis by simp
  qed
qed

lemma send_frame_to_receive: "send_frame c body fl sk = Some (sk', status) \<Longrightarrow> to_receive sk' = to_receive sk"
  using send_all_prefix [of _ 0 sk sk' status] by (fastforce simp: send_frame_def split: if_splits sum.splits)

text \<open>No call waits for ever on a socket that was shut down: the premise under which \<^verbatim>\<open>FabricServer::stop\<close> joins
  its workers.\<close>

lemma shut_receive_returns: "is_shut sk \<Longrightarrow> \<exists>d' sk' r. receive_loop d sk = Some (d', sk', r) \<and> is_shut sk'"
proof (induction d sk rule: receive_loop.induct)
  case (1 d sk)
  obtain a sk1 where r: "recv_call sk = Some (a, sk1)" "is_shut sk1"
    using 1(2) by (cases "to_receive sk") (auto simp: recv_call_def)
  show ?case
  proof (cases "\<exists>chunk d1. a = Received chunk \<and> chunk \<noteq> [] \<and> decoder_feed chunk d [] = (d1, [], Ok)")
    case True
    then obtain chunk d1 where c: "a = Received chunk" "chunk \<noteq> []" "decoder_feed chunk d [] = (d1, [], Ok)" by blast
    from 1(1) [OF r(1) refl c(1,2) c(3) [symmetric] refl] r c show ?thesis by (subst receive_loop.simps) simp
  next
    case False
    with r show ?thesis by (subst receive_loop.simps) (cases a; auto split: prod.splits list.splits)
  qed
qed

lemma shut_send_returns: "is_shut sk \<Longrightarrow> send_all data sent sk = Some (sk, if sent < length data then IoFailure else Ok)"
  by (subst send_all.simps) (simp add: send_call_def Let_def)

lemma shut_connection_returns:
  assumes "handle c \<noteq> kInvalidSocket"
  shows "receive_frame c (connection_shutdown c sk) \<noteq> None" "send_frame c body fl (connection_shutdown c sk) \<noteq> None"
  using assms shut_receive_returns [of "connection_shutdown c sk" "decoder c"]
  by (auto simp: receive_frame_def send_frame_def connection_shutdown_def shutdown_socket_def shut_send_returns split: sum.splits)

section \<open>The loop over the requests of a connection\<close>

lemma serve_round_consumes:
  assumes "serve_round texts handler opts connection_id served c sk app = Some r" "rd_continue r"
  shows "length (to_receive (rd_socket r)) < length (to_receive sk)"
proof -
  from assms obtain c1 sk1 f where r: "receive_frame c sk = Some (c1, sk1, Inr f)"
    by (auto simp: serve_round_def split: option.splits sum.splits)
  then have "length (to_receive sk1) < length (to_receive sk)"
    by (auto simp: receive_frame_def split: if_splits option.splits dest: receive_loop_consumes)
  with assms r show ?thesis
    by (auto simp: serve_round_def Let_def split: if_splits option.splits prod.splits dest: send_frame_to_receive)
qed

text \<open>The loop of \<^verbatim>\<open>serve\<close>; \<open>stopping n\<close> is what the test of \<^verbatim>\<open>stopping_\<close> finds before round \<open>n\<close>. It answers the
  socket, the state of the handler and the number of requests that were handled.\<close>

function serve_loop ::
  "WireText \<Rightarrow> 's RpcHandler \<Rightarrow> ServerOptions \<Rightarrow> (nat \<Rightarrow> bool) \<Rightarrow> u64 \<Rightarrow> nat \<Rightarrow> TcpConnection \<Rightarrow> Socket \<Rightarrow> 's \<Rightarrow>
   (Socket \<times> 's \<times> nat) option" where
  "serve_loop texts handler opts stopping connection_id served c sk app =
     (if stopping served then Some (sk, app, served)
      else case serve_round texts handler opts connection_id served c sk app of
        None \<Rightarrow> None
      | Some r \<Rightarrow>
          if rd_continue r then
            serve_loop texts handler opts stopping connection_id (Suc served) (rd_conn r) (rd_socket r) (rd_app r)
          else Some (rd_socket r, rd_app r, served + (if rd_handled r then 1 else 0)))"
  by pat_completeness auto
termination
  by (relation "measure (\<lambda>(texts, handler, opts, stopping, connection_id, served, c, sk, app). length (to_receive sk))")
    (auto dest: serve_round_consumes)

declare serve_loop.simps [simp del]

lemma receive_frame_end:
  assumes "to_receive sk = Received [] # rest"
  shows "receive_frame c sk = Some (c, (if handle c = kInvalidSocket then sk else sk\<lparr>to_receive := rest\<rparr>),
    Inl (if handle c = kInvalidSocket then IoFailure else end_of_stream (decoder c)))"
  using assms by (simp add: receive_frame_def receive_loop.simps [of _ sk] recv_call_def)

lemma serve_loop_end:
  assumes "to_receive sk = Received [] # rest" "handle c \<noteq> kInvalidSocket"
  shows "serve_loop texts handler opts stopping connection_id served c sk app =
    Some (if stopping served then sk else sk\<lparr>to_receive := rest\<rparr>, app, served)"
  using assms by (simp add: serve_loop.simps [of _ _ _ _ _ served] serve_round_def receive_frame_end)





section \<open>Requests in one segment\<close>

text \<open>A request is lost when it arrives together with its predecessor. When one segment completes several
  frames, the first is served and the others never are: after the end of the stream the server has handled one
  request, whatever the others ask for.\<close>

lemma pipelined_requests_lost:
  assumes "h \<noteq> kInvalidSocket" "limits_ok (frame_limits opts)" "list_all (frame_ok (frame_limits opts)) (f # gs)"
    and "to_receive sk = [Received (stream_of (f # gs)), Received []]" "chunk_ok (frame_limits opts) (stream_of (f # gs))"
    and "serve_loop texts handler opts stopping n 0 (new_connection h (frame_limits opts) p) sk app = Some (sk', app', handled)"
  shows "handled \<le> 1 \<and> app' \<in> {app, snd (snd (snd (respond texts handler \<lparr>ctx_peer = p, ctx_connection_id = n\<rparr> (payload f) app)))}"
proof -
  let ?c = "new_connection h (frame_limits opts) p"
  have d: "(decoder ?c)\<lparr>dec_buffer := []\<rparr> = decoder ?c" by (simp add: new_connection_def)
  have "receive_loop (decoder ?c) sk = Some (decoder ?c, sk\<lparr>to_receive := [Received []]\<rparr>, Inr f)"
    using receive_loop_first [of "decoder ?c" f gs "[]" "[]" "stream_of (f # gs)" "[]" sk "[Received []]"] assms(2-5) d
    by (simp add: new_connection_def pending_def strict_prefix_def frame_bytes_nonempty [symmetric])
  then have r: "receive_frame ?c sk = Some (?c, sk\<lparr>to_receive := [Received []]\<rparr>, Inr f)"
    using assms(1) by (simp add: receive_frame_def new_connection_def)
  obtain response message detail app1 where d:
    "respond texts handler \<lparr>ctx_peer = p, ctx_connection_id = n\<rparr> (payload f) app = (response, message, detail, app1)"
    by (metis prod_cases4)
  show ?thesis
  proof (cases "stopping 0")
    case True
    with assms(6) show ?thesis by (simp add: serve_loop.simps [of _ _ _ _ _ 0])
  next
    case False
    with assms(6) obtain rd where rd: "serve_round texts handler opts n 0 ?c sk app = Some rd"
      by (auto simp: serve_loop.simps [of _ _ _ _ _ 0] split: option.splits)
    with r d have s: "rd_app rd \<in> {app, app1} \<and> rd_conn rd = ?c \<and> to_receive (rd_socket rd) = [Received []]"
      by (auto simp: serve_round_def new_connection_def Let_def split: if_splits option.splits dest: send_frame_to_receive)
    show ?thesis
    proof (cases "rd_continue rd")
      case True
      with assms(1,6) False rd s d have "app' = rd_app rd \<and> handled = 1"
        by (simp add: serve_loop.simps [of _ _ _ _ _ 0] serve_loop_end new_connection_def split: if_splits)
      with s d show ?thesis by auto
    next
      case False
      with assms(6) \<open>\<not> stopping 0\<close> rd s d show ?thesis by (auto simp: serve_loop.simps [of _ _ _ _ _ 0])
    qed
  qed
qed

section \<open>A connection that breaks\<close>

text \<open>The bytes that arrive before the stream ends or a call fails.\<close>

fun arrived :: "RecvAnswer list \<Rightarrow> string" where
  "arrived [] = []"
| "arrived (Received chunk # rest) = (if chunk = [] then [] else chunk @ arrived rest)"
| "arrived (RecvFailed e # rest) = []"

fun answer_ok :: "FrameLimits \<Rightarrow> RecvAnswer \<Rightarrow> bool" where
  "answer_ok limits (Received chunk) = (chunk = [] \<or> chunk_ok limits chunk)"
| "answer_ok limits (RecvFailed e) = True"

lemma receive_loop_partial:
  assumes "receive_loop d sk = Some (d', sk', r)" "frame_ok (dec_limits d) f" "limits_ok (dec_limits d)"
    and "strict_prefix (dec_buffer d) (frame_bytes f)" "prefix (dec_buffer d @ arrived (to_receive sk)) (frame_bytes f)"
    and "list_all (answer_ok (dec_limits d)) (to_receive sk)"
  shows "r = Inr f \<and> dec_buffer d @ arrived (to_receive sk) = frame_bytes f \<or>
    (\<exists>e \<in> {IoFailure, DeadlineExceeded, Malformed}. r = Inl e)"
  using assms
proof (induction "to_receive sk" arbitrary: d sk)
  case Nil
  then show ?case
    by (subst (asm) receive_loop.simps)
      (auto simp: recv_call_def end_of_stream_def decoder_finish_def split: if_splits)
next
  case (Cons a rest)
  note rest = Cons(2) [symmetric]
  show ?case
  proof (cases a)
    case (RecvFailed e)
    with Cons.prems(1) rest show ?thesis
      by (subst (asm) receive_loop.simps) (auto simp: recv_call_def split: if_splits)
  next
    case (Received c)
    show ?thesis
    proof (cases "c = []")
      case True
      with Received Cons.prems(1) rest show ?thesis
        by (subst (asm) receive_loop.simps) (auto simp: recv_call_def end_of_stream_def decoder_finish_def split: if_splits)
    next
      case False
      then have c: "chunk_ok (dec_limits d) c" "arrived (to_receive sk) = c @ arrived rest" using Cons.prems(6) Received rest by simp_all
      have "length (dec_buffer d) < kFrameHeaderBytes + max_payload_bytes (dec_limits d)"
        using Cons.prems(2,4) length_pending [of "dec_buffer d" "[f]" "dec_limits d"] by (simp add: pending_def)
      then have len: "length (dec_buffer d) + length c \<le> max_buffered_bytes (dec_limits d)"
        using c(1) by (simp add: chunk_ok_def chunk_fits_def)
      have run: "receive_loop d sk = (case decoder_feed c d [] of (d', frames, status) \<Rightarrow>
          if status \<noteq> Ok then Some (d', sk\<lparr>to_receive := rest\<rparr>, Inl status)
          else case frames of f # _ \<Rightarrow> Some (d', sk\<lparr>to_receive := rest\<rparr>, Inr f) | [] \<Rightarrow> receive_loop d' (sk\<lparr>to_receive := rest\<rparr>))"
        using receive_loop_chunk [of sk c rest d] rest Received False by simp
      show ?thesis
      proof (cases "dec_buffer d @ c = frame_bytes f")
        case True
        have "decoder_feed c d [] = (d\<lparr>dec_buffer := []\<rparr>, [] @ [f], Ok)"
          using True Cons.prems(2,3) len False by (intro decoder_feed_stream [where hs = "[]"]) (simp_all add: pending_def)
        moreover have "arrived rest = []"
          using Cons.prems(5) c(2) True prefix_length_le [of "dec_buffer d @ arrived (to_receive sk)" "frame_bytes f"]
          by (metis append.assoc append_Nil2 prefix_append prefix_order.antisym same_append_eq prefixI)
        ultimately show ?thesis using Cons.prems(1) run True c(2) by simp
      next
        case sp: False
        let ?d = "d\<lparr>dec_buffer := dec_buffer d @ c\<rparr>" and ?sk = "sk\<lparr>to_receive := rest\<rparr>"
        have p: "prefix ((dec_buffer d @ c) @ arrived rest) (frame_bytes f)" using Cons.prems(5) c(2) by simp
        with sp have s: "strict_prefix (dec_buffer d @ c) (frame_bytes f)" by (metis append_prefixD prefix_order.le_neq_trans)
        then have "decoder_feed c d [] = (?d, [] @ [], Ok)"
          using Cons.prems(2,3) len False by (intro decoder_feed_stream [where hs = "[f]"]) (simp_all add: pending_def)
        with run Cons.prems(1) have "receive_loop ?d ?sk = Some (d', sk', r)" by simp
        from Cons(1) [OF _ this] Cons.prems(2,3,6) p s c(2) rest show ?thesis by simp
      qed
    qed
  qed
qed

lemma send_frame_errors:
  assumes "send_frame c body fl sk = Some (sk', status)"
  shows "status \<in> {Ok, BoundsExceeded, IoFailure, DeadlineExceeded}"
proof -
  have "status \<in> {Ok, IoFailure, DeadlineExceeded}" if "send_all data sent sk = Some (sk', status)" for data sent
    using that
  proof (induction data sent sk rule: send_all.induct)
    case (1 data sent sk)
    show ?case
      using 1(2) by (subst (asm) send_all.simps) (auto simp: Let_def split: if_splits option.splits dest: 1(1) [OF _ refl])
  qed
  moreover have "encode_frame body fl (conn_limits c) = Inl e \<Longrightarrow> e = BoundsExceeded" for e
    using encode_frame_bytes [of "\<lparr>payload = body, flags = fl\<rparr>" "conn_limits c"] by (auto split: if_splits)
  ultimately show ?thesis using assms by (auto simp: send_frame_def split: if_splits sum.splits)
qed

text \<open>A call answers what the server sent or an error. The connection may end, time out or fail at any byte
  of the reply, in whatever pieces it arrives: the call then returns one of four errors, and it returns the
  decoded reply only when the whole frame of the reply has arrived. A part of a reply is never taken for one.\<close>

lemma rpc_call_answers_only_reply:
  assumes "rpc_call texts resolved accepted host port req opts sk = Some (sk', r)"
    and "frame_ok (frame_limits opts) reply" "limits_ok (frame_limits opts)"
    and "prefix (arrived (to_receive sk)) (frame_bytes reply)" "list_all (answer_ok (frame_limits opts)) (to_receive sk)"
  shows "arrived (to_receive sk) = frame_bytes reply \<and> r = decode_rpc_response (read_double texts) (payload reply) \<or>
    (\<exists>e \<in> {IoFailure, DeadlineExceeded, BoundsExceeded, Malformed}. r = Inl e)"
proof (cases "resolved = None \<or> connect_loop (the resolved) = kInvalidSocket")
  case True
  with assms(1) show ?thesis by (auto simp: rpc_call_def Let_def split: option.splits if_splits)
next
  case False
  then obtain answers where a: "resolved = Some answers" "connect_loop answers \<noteq> kInvalidSocket" by auto
  define c where "c = new_connection (connect_loop answers) (frame_limits opts) (host @ '':'' @ nat_to_string (unat port))"
  define sk0 where "sk0 = set_io_deadline_ms accepted (io_deadline_ms opts) c sk"
  have c: "handle c \<noteq> kInvalidSocket" "dec_buffer (decoder c) = []" "dec_limits (decoder c) = frame_limits opts"
    using a by (simp_all add: c_def new_connection_def)
  have sk0: "to_receive sk0 = to_receive sk" by (simp add: sk0_def set_io_deadline_ms_def apply_deadline_def)
  have run: "rpc_call texts resolved accepted host port req opts sk =
      (case send_frame c (encode_rpc_request (print_double texts) req) 0 sk0 of
         None \<Rightarrow> None
       | Some (sk1, status) \<Rightarrow>
           if status \<noteq> Ok then Some (sk1, Inl status)
           else case receive_frame c sk1 of
             None \<Rightarrow> None
           | Some (_, sk2, Inl e) \<Rightarrow> Some (sk2, Inl e)
           | Some (_, sk2, Inr frame) \<Rightarrow> Some (sk2, decode_rpc_response (read_double texts) (payload frame)))"
    by (simp only: rpc_call_def Let_def a option.case if_False c_def [symmetric] sk0_def [symmetric])
  with assms(1) obtain sk1 status where s: "send_frame c (encode_rpc_request (print_double texts) req) 0 sk0 = Some (sk1, status)"
    by (auto split: option.splits)
  note e = send_frame_errors [OF s] and t = send_frame_to_receive [OF s]
  show ?thesis
  proof (cases "status = Ok")
    case False
    with assms(1) run s e show ?thesis by auto
  next
    case True
    with assms(1) run s obtain d sk2 q where f: "receive_loop (decoder c) sk1 = Some (d, sk2, q)"
      using c(1) by (auto simp: receive_frame_def split: option.splits)
    have "strict_prefix [] (frame_bytes reply)" by (simp add: strict_prefix_def frame_bytes_nonempty [symmetric])
    then have "q = Inr reply \<and> arrived (to_receive sk) = frame_bytes reply \<or> (\<exists>e \<in> {IoFailure, DeadlineExceeded, Malformed}. q = Inl e)"
      using receive_loop_partial [OF f(1), of reply] assms(2-5) c t sk0 by simp
    moreover have "r = (case q of Inl e \<Rightarrow> Inl e | Inr frame \<Rightarrow> decode_rpc_response (read_double texts) (payload frame))"
      using assms(1) run s f c(1) True by (simp add: receive_frame_def split: sum.splits)
    ultimately show ?thesis by auto
  qed
qed

text \<open>A deadline of more than an hour is refused, and the caller drops the refusal: no deadline is set.\<close>

lemma long_deadline_dropped: "3600000 < ms \<Longrightarrow> set_io_deadline_ms accepted ms c sk = sk"
  by (auto simp: set_io_deadline_ms_def apply_deadline_def)

end
