(* ===== verification/Connection_Examples.thy ===== *)
theory Connection_Examples
  imports Connection Node_Examples
begin














end
