(* ===== verification/Spec2Isabelle.thy ===== *)
theory Spec2Isabelle
  imports Authority_Examples Framing Migration_Journal Manifest Epoch_Log Node_Examples Controller_Examples Connection_Examples
begin

text \<open>
  Fabric Evolution: a verification library for the runtime under \<^verbatim>\<open>src/\<close>.

  The program evolves a running distributed control plane. A controller owns, per shard, the
  authority to mutate: it grants leases to incarnations (one process lifetime each), fences an
  incumbent, hands the shard over to a successor and drives a campaign that migrates the state of the
  shard from one schema to the next. Every message travels in checksummed frames, every durable fact is
  a JSON document under a digest or a checksum.

  \<^bold>\<open>Theories and sources.\<close>

  \<^item> \<^verbatim>\<open>Fabric_Prelude\<close>: \<^verbatim>\<open>std::map\<close> as key-sorted association lists (\<open>omap\<close>), the result type
    and its combinators, bounded histories, list lemmas, the codec locale that turns an element round
    trip into round trips of arrays, and the \<open>named_theorems\<close> collections.
  \<^item> \<^verbatim>\<open>Status_Codes\<close> (\<^verbatim>\<open>status.hpp/.cpp\<close>), \<^verbatim>\<open>Strong_Types\<close> (\<^verbatim>\<open>strong_types.hpp/.cpp\<close>),
    \<^verbatim>\<open>Text_Codec\<close> and \<^verbatim>\<open>Ids\<close> (\<^verbatim>\<open>ids.hpp/.cpp\<close>), \<^verbatim>\<open>Versions\<close>, \<^verbatim>\<open>Features\<close>: error codes,
    counters, uuids, names, identities, versions and feature sets. A \<^verbatim>\<open>Status\<close> is its error code; the
    message and the context object of an error are not modelled.
  \<^item> \<^verbatim>\<open>Json_Model\<close> and \<^verbatim>\<open>Json_Text\<close> (\<^verbatim>\<open>json.hpp/.cpp\<close>): the value variant, typed access, the
    compact and the pretty printer.
  \<^item> \<^verbatim>\<open>Authority\<close> (\<^verbatim>\<open>authority.hpp/.cpp\<close>): one record per struct, one definition per method of
    \<^verbatim>\<open>AuthorityRegistry\<close>. A clock reading and a minted token are arguments of the operation that
    reads or mints them. \<^verbatim>\<open>Authority_Inv\<close> states the shard invariant and that each operation keeps it,
    \<^verbatim>\<open>Authority_Props\<close> the safety of claims, \<^verbatim>\<open>Authority_Life\<close> handover and recovery,
    \<^verbatim>\<open>Authority_Store\<close> the durable form, \<^verbatim>\<open>Authority_Slot\<close> the refinement of an abstract slot
    automaton, \<^verbatim>\<open>Authority_Examples\<close> a concrete deployment with the witnesses.
  \<^item> \<^verbatim>\<open>Digest\<close> (\<^verbatim>\<open>digest.hpp/.cpp\<close>): streaming SHA-256 and CRC-32. \<^verbatim>\<open>Framing\<close>
    (\<^verbatim>\<open>framing.hpp/.cpp\<close>): the frame encoder and the incremental decoder.
  \<^item> \<^verbatim>\<open>Handoff\<close> and \<^verbatim>\<open>Campaign\<close> (\<^verbatim>\<open>handoff.hpp/.cpp\<close>, \<^verbatim>\<open>campaign.hpp/.cpp\<close>): the phase machine,
    the action evaluator, the mixed-version window and the durable records.
  \<^item> \<^verbatim>\<open>Migration\<close>, \<^verbatim>\<open>Migration_Props\<close>, \<^verbatim>\<open>Migration_Journal\<close> (\<^verbatim>\<open>migration.hpp/.cpp\<close>): state documents,
    declared steps, forward and backward migration, the journal.
  \<^item> \<^verbatim>\<open>Json_Parse\<close> (\<^verbatim>\<open>json.cpp\<close>): the text parser with its limits. \<^verbatim>\<open>Record_Fields\<close>: the field
    codecs the records of several sources share.
  \<^item> \<^verbatim>\<open>Protocol\<close> (\<^verbatim>\<open>protocol.hpp/.cpp\<close>): hellos, two-party and group negotiation.
    \<^verbatim>\<open>Compatibility\<close> (\<^verbatim>\<open>compatibility.hpp/.cpp\<close>): consumed decisions, registries (an interface with
    two instances), the check of declared evidence. \<^verbatim>\<open>Manifest\<close> (\<^verbatim>\<open>manifest.hpp/.cpp\<close>): the manifest,
    its migration path, validation, digest and codec.
  \<^item> \<^verbatim>\<open>Durable_Store\<close> (\<^verbatim>\<open>persistence.hpp/.cpp\<close>): integrity files and record logs over a file system
    that is a map from paths to contents. What the operating system does with one call is an argument,
    and an operation answers the file systems it goes through, so that a crash leaves one of them.
    \<^verbatim>\<open>Epoch_Log\<close> (\<^verbatim>\<open>epoch_log.hpp/.cpp\<close>): the epoch journal on top of it.
  \<^item> \<^verbatim>\<open>Rpc\<close> (\<^verbatim>\<open>transport.hpp/.cpp\<close>): requests, responses and their texts.
    \<^verbatim>\<open>Connection\<close> (the same files): connections over a socket whose answers are data, the listener, the loop
    that serves the requests of one connection, and the call of a peer; \<^verbatim>\<open>Connection_Examples\<close> a concrete
    server and client with the witness. \<^verbatim>\<open>Disk\<close>: the storage of one process, with the states it goes through. \<^verbatim>\<open>Node\<close> and \<^verbatim>\<open>Node_Ops\<close> (\<^verbatim>\<open>node.hpp/.cpp\<close>): the node
    under evolution, its durable identity, state and record log, and one definition per request.
    \<^verbatim>\<open>Node_Frame\<close> holds what each request leaves alone, \<^verbatim>\<open>Node_Safety\<close> what a change of the document
    requires, \<^verbatim>\<open>Node_Durable\<close> crashes and restarts, \<^verbatim>\<open>Node_Replica\<close> the invariant and replication,
    \<^verbatim>\<open>Node_Examples\<close> a concrete node with the witnesses.
  \<^item> \<^verbatim>\<open>Effects\<close>: sequences of steps that may stop with an error, and the calculus that reduces a statement about
    a sequence to its steps. \<^verbatim>\<open>Controller\<close>, \<^verbatim>\<open>Controller_Ops\<close>, \<^verbatim>\<open>Controller_Handoff\<close>, \<^verbatim>\<open>Controller_Run\<close>,
    \<^verbatim>\<open>Controller_Admin\<close> (\<^verbatim>\<open>controller.hpp/.cpp\<close>): the controller, with one definition per method in the order of
    the file: its state file, planning and preflight, the phases of a handoff, the operations of a
    campaign, the answers to administrative requests. \<^verbatim>\<open>Controller_Steps\<close> shows that every operation moves
    the registry by registry operations and the handoff and the campaign by steps of an abstract protocol, whose
    campaign moves are the edges of the state machine of \<^verbatim>\<open>campaign.cpp\<close>;
    \<^verbatim>\<open>Controller_Safety\<close> draws the consequences, \<^verbatim>\<open>Controller_Durable\<close> is about restarts and about
    what the peers of the controller have done, \<^verbatim>\<open>Controller_Sizes\<close> and \<^verbatim>\<open>Controller_Examples\<close> hold a
    concrete controller, with peers that answer from a script or are nodes of the model, and the witnesses.

  \<^bold>\<open>What the theorems show.\<close> At most one mutating authority per shard, whatever the interleaving of
  registry operations and of loads of sound documents, for clock readings that do not go back; a handover only
  after the incumbent ended or was evicted from a full history; fencing and restarting invalidate
  claims; a fenced handover completes; durable forms round trip; handoffs visit their phases in order;
  campaigns do not roll back across an irreversible boundary; migrations are atomic, accountable and
  undone exactly when they are reversible; the frame decoder inverts the encoder on every fragmentation
  and refuses damaged frames; the streaming digest and the table-driven checksum equal their
  specifications. The parser inverts the printers; a negotiation is
  usable only when it is justified, and does not depend on the order of the participants; accepted
  evidence is current; the migration path of a manifest is a chain of its declared steps, and the only one when no two of them leave
  the same schema, a
  validated manifest crosses only declared boundaries and can be negotiated by its participants;
  appending to a log and replacing an integrity file are crash safe, and, within the limits of the
  parser, an acknowledged journal event is durable.
  A node changes its document only for a live claim or the handoff it was prepared for; out of service it
  accepts no write until it is granted authority; an acknowledged write within the parser limits survives every crash, a restarted
  node is a new incarnation without authority, and a prepared successor that applies the records or the
  snapshot of its source has the document of its source.
  Whatever its peers answer, the controller keeps one mutating authority per shard (under a clock that never goes
  back) and an axis that only grows, implements the abstract handoff protocol, and never goes back once the authority has moved; a
  phase it acknowledged is the phase a restarted controller resumes from; over a network that delivers
  a call at most once an acknowledged fence has stopped the predecessor, and a verified successor has
  attested the recorded authority and written under it. A call over a connection that delivers its bytes in any
  pieces runs the handler of the server once and returns its response; parts of a reply are never taken for one. Some theorems state what the code does where a comment or a document says
  otherwise (the history limit that frees an occupied slot, a stale fence, a failed handoff, an
  overwriting migration step, a retired node that serves again).

  \<^bold>\<open>Parameters, bounds and fuel.\<close> The shortest decimal text of a double (the C++ library) is the
  argument \<open>dtoa\<close>, the reading of one is \<open>strtod\<close>, and where a theorem needs them to agree it says so;
  the outcome of file operations is \<open>io\<close>, the process id \<open>pid\<close>; the readings of the
  clock and the minted tokens of the controller are functions of their number, its peers are a function
  on a state of the outside world, the compatibility registry answers by a function. A run of the
  controller takes at most 64 steps, as in the code, and the catch-up loops the rounds of the options; operating-system entropy is the seed of the token generators. The
  padding loop of the digest takes fuel 64, and the chunking theorem shows that it always finishes
  within it; the entry loops of the parser take fuel, of which a larger amount changes nothing. Every other loop is a total function with its own termination argument. Machine integers
  are words of their width; sizes are natural numbers with the checked additions written out.

  \<^bold>\<open>Not modelled.\<close> The threads of \<^verbatim>\<open>FabricServer\<close> (accepting, queueing, start and stop; \<^verbatim>\<open>transport.cpp\<close>), the system clock, argument
  parsing and process start-up (\<^verbatim>\<open>tools/\<close>) are input and output around the library, as are the file
  lock, directories and the opening of registry and manifest files. A directory is not synchronised
  by the code and the model takes file operations to reach the disk in program order. Messages,
  diagnostics and rationales are not modelled where no decision reads them. The threads of a server handle
  the requests of a node under one lock, so a run is a sequence of requests. The operations of the controller hold
  its lock, so a run is a sequence of requests too; its explanations, and the clock readings that only
  date them, are not modelled, and the status document is built once for a request.
\<close>

section \<open>Restarting the controller\<close>

lemma slot_leases_unattest: "slot_leases now (unattest a) = map (\<lambda>l. l\<lparr>attested := False\<rparr>) (slot_leases now a)"
proof -
  have "blocks_mutation_slot (l\<lparr>attested := False\<rparr>) now = blocks_mutation_slot l now" for l :: AuthorityLease
    by (simp add: blocks_iff)
  then show ?thesis by (simp add: slot_leases_def unattest_def filter_map comp_def)
qed

lemma slot_of_unattest: "slot_of now (unattest a) = slot_of now a"
  by (simp add: slot_of_slot_leases slot_leases_unattest split: list.split)

lemma find_unattest_registry: "find_shard (unattest_registry r) s = map_option unattest (find_shard r s)"
proof -
  have "omap_find s (map (\<lambda>e. (fst e, unattest (snd e))) m) = map_option unattest (omap_find s m)" for m
    by (induction m) auto
  then show ?thesis by (simp add: find_shard_def unattest_registry_def)
qed

text \<open>C13: A restart neither frees a slot nor lets anyone mutate. Writing a registry out and loading it back
  keeps the epoch, the generation and the mutation slot of every shard (the incumbent, or a fence in
  progress, still blocks every other candidate), while no claim is accepted until its holder
  re-attests.\<close>

theorem restart_keeps_slots_and_revokes_claims:
  assumes "registry_storable r" "find_shard r s = Some a"
  shows "\<exists>r' a'. registry_load (registry_to_json r) r0 = (r', Ok) \<and> find_shard r' s = Some a' \<and>
    sa_epoch a' = sa_epoch a \<and> sa_generation a' = sa_generation a \<and>
    (\<forall>now. slot_of now a' = slot_of now a) \<and> (\<forall>now c m. validate_claim now c m r' \<noteq> Ok)"
proof -
  have load: "registry_load (registry_to_json r) r0 = (unattest_registry r, Ok)"
    using assms(1) by (rule registry_json_round_trip)
  have "find_shard (unattest_registry r) s = Some (unattest a)"
    using assms(2) by (simp add: find_unattest_registry)
  moreover have "sa_epoch (unattest a) = sa_epoch a" "sa_generation (unattest a) = sa_generation a"
    by (simp_all add: unattest_def)
  ultimately show ?thesis
    using load slot_of_unattest loaded_registry_refuses [OF load] by blast
qed

theorem restart_keeps_slots_and_revokes_claims_witness:
  "\<exists>r' a'. registry_load (registry_to_json ex_registry) empty_registry = (r', Ok) \<and>
     find_shard r' ''s1'' = Some a' \<and> slot_of 50 a' = Held 1"
proof -
  have "registry_storable ex_registry" "find_shard ex_registry ''s1'' = Some ex_shard" "slot_of 50 ex_shard = Held 1"
    by code_simp+
  with restart_keeps_slots_and_revokes_claims [of ex_registry "''s1''" ex_shard empty_registry] show ?thesis
    by fastforce
qed

section \<open>Identities\<close>

text \<open>Incarnation identities survive every representation: a well-formed incarnation is read back from
  its text form and from its JSON form, and everything the JSON decoder accepts is well-formed.\<close>

theorem incarnation_identity_round_trips:
  assumes "incarnation_wf i"
  shows "incarnation_parse (incarnation_to_string i) = Some i \<and> incarnation_from_json (incarnation_to_json i) = Inr i \<and>
    {k. \<exists>j. incarnation_from_json j = Inr k} = {k. incarnation_wf k}"
  using assms incarnation_string_round_trip incarnation_json_round_trip incarnation_from_json_wf by blast

theorem incarnation_identity_round_trips_witness:
  "incarnation_parse (incarnation_to_string (ex_node 1)) = Some (ex_node 1)"
proof -
  have "incarnation_wf (ex_node 1)" by code_simp
  from incarnation_identity_round_trips [OF this] show ?thesis by blast
qed

text \<open>The decimal reader of identities is exact: it accepts precisely the non-empty texts of at most
  twenty digits whose value fits in 64 bits, and returns that value; it never wraps around.\<close>

theorem parse_u64_exactness:
  "parse_u64 t =
     (if t \<noteq> [] \<and> length t \<le> 20 \<and> list_all is_digit t \<and> decimal_value t < 2 ^ 64
      then Some (of_nat (decimal_value t)) else None)"
  by (rule parse_u64_exact)

end
